(* ===== verification/Go_Prelude.thy ===== *)
theory Go_Prelude
  imports Main "HOL-Library.Char_ord" "HOL-Library.List_Lexorder" "HOL-Library.Sublist"
    "HOL-Library.AList"
begin

text \<open>
  The vocabulary every component shares.

  \<^item> Go's fixed-width \<open>int64\<close> is \<^typ>\<open>int\<close> with the wrap-around of every arithmetic step written
    out by \<open>wrap64\<close>.
  \<^item> Go strings are byte lists (\<^typ>\<open>string\<close>); the ordering used by \<open>sort.Strings\<close> is the
    lexicographic order of \<^theory_text>\<open>List_Lexorder\<close> over \<^theory_text>\<open>Char_ord\<close>. The functions of package
    \<open>strings\<close> the code calls follow; case folding and white space are the ASCII ones.
  \<^item> A Go map is an association list: the list order stands for the unspecified iteration
    order, lookups go through \<^const>\<open>map_of\<close>.
  \<^item> A fallible Go function returns \<open>'e + 'a\<close>, with \<^const>\<open>Inl\<close> for a non-nil error.
  \<^item> A value of type \<open>any\<close> obtained from JSON is a \<open>jval\<close>.
  \<^item> An instant in a string field is a \<open>stamp\<close>: text that \<open>time.Parse\<close> accepts, the empty
    string, or other text.
\<close>

named_theorems go_defs "definitions of the Go run-time vocabulary that proofs unfold"

section \<open>Fixed-width integers\<close>

type_synonym int64 = int

definition wrap64 :: "int \<Rightarrow> int64" where
  "wrap64 x = (x + 2 ^ 63) mod 2 ^ 64 - 2 ^ 63"

definition in_int64 :: "int \<Rightarrow> bool" where
  "in_int64 x \<longleftrightarrow> - (2 ^ 63) \<le> x \<and> x < 2 ^ 63"

lemma wrap64_in_range: "in_int64 (wrap64 x)"
proof -
  have "0 \<le> (x + 2 ^ 63) mod 2 ^ 64" and "(x + 2 ^ 63) mod 2 ^ 64 < (2 ^ 64 :: int)"
    by simp_all
  then show ?thesis by (simp add: wrap64_def in_int64_def)
qed

lemma wrap64_id [simp]: "in_int64 x \<Longrightarrow> wrap64 x = x"
  by (simp add: wrap64_def in_int64_def)

lemma in_int64_nonneg: "0 \<le> x \<Longrightarrow> x < 2 ^ 63 \<Longrightarrow> in_int64 x"
  by (simp add: in_int64_def)

lemma wrap64_mod: "wrap64 x mod 2 ^ 64 = x mod 2 ^ 64"
proof -
  have "wrap64 x mod 2 ^ 64 = (x + 2 ^ 63 - 2 ^ 63) mod 2 ^ 64"
    unfolding wrap64_def by (rule mod_diff_left_eq)
  then show ?thesis by simp
qed

section \<open>Strings\<close>

definition has_prefix :: "string \<Rightarrow> string \<Rightarrow> bool" where
  "has_prefix s p \<longleftrightarrow> take (length p) s = p"

definition has_suffix :: "string \<Rightarrow> string \<Rightarrow> bool" where
  "has_suffix s p \<longleftrightarrow> length p \<le> length s \<and> drop (length s - length p) s = p"

definition trim_prefix :: "string \<Rightarrow> string \<Rightarrow> string" where
  "trim_prefix s p = (if has_prefix s p then drop (length p) s else s)"

definition trim_suffix :: "string \<Rightarrow> string \<Rightarrow> string" where
  "trim_suffix s p = (if has_suffix s p then take (length s - length p) s else s)"

fun contains_str :: "string \<Rightarrow> string \<Rightarrow> bool" where
  "contains_str [] p \<longleftrightarrow> p = []"
| "contains_str (c # s) p \<longleftrightarrow> has_prefix (c # s) p \<or> contains_str s p"

fun split_on :: "char \<Rightarrow> string \<Rightarrow> string list" where
  "split_on c [] = [[]]"
| "split_on c (x # xs) =
     (if x = c then [] # split_on c xs
      else case split_on c xs of [] \<Rightarrow> [[x]] | p # ps \<Rightarrow> (x # p) # ps)"

fun join_with :: "string \<Rightarrow> string list \<Rightarrow> string" where
  "join_with sep [] = []"
| "join_with sep [p] = p"
| "join_with sep (p # q # ps) = p @ sep @ join_with sep (q # ps)"

definition is_space :: "char \<Rightarrow> bool" where
  "is_space c \<longleftrightarrow> c \<in> {CHR '' '', CHR 0x09, CHR 0x0A, CHR 0x0B, CHR 0x0C, CHR 0x0D}"

definition trim_space :: "string \<Rightarrow> string" where
  "trim_space s = rev (dropWhile is_space (rev (dropWhile is_space s)))"

definition to_lower_char :: "char \<Rightarrow> char" where
  "to_lower_char c =
     (if 65 \<le> (of_char c :: nat) \<and> (of_char c :: nat) \<le> 90 then char_of ((of_char c :: nat) + 32) else c)"

definition to_lower :: "string \<Rightarrow> string" where
  "to_lower s = map to_lower_char s"

definition equal_fold :: "string \<Rightarrow> string \<Rightarrow> bool" where
  "equal_fold a b \<longleftrightarrow> to_lower a = to_lower b"

definition is_digit :: "char \<Rightarrow> bool" where
  "is_digit c \<longleftrightarrow> 48 \<le> (of_char c :: nat) \<and> (of_char c :: nat) \<le> 57"

definition digit_val :: "char \<Rightarrow> int" where
  "digit_val c = int (of_char c) - 48"

fun nat_str :: "nat \<Rightarrow> string" where
  "nat_str n = (if n < 10 then [char_of (48 + n)] else nat_str (n div 10) @ [char_of (48 + n mod 10)])"

declare nat_str.simps [simp del]

text \<open>\<open>strconv.ParseInt(s, 10, 64)\<close>: an optional sign and at least one digit, in range.\<close>

fun digits_val :: "int \<Rightarrow> string \<Rightarrow> int option" where
  "digits_val acc [] = Some acc"
| "digits_val acc (c # cs) = (if is_digit c then digits_val (10 * acc + digit_val c) cs else None)"

definition parse_int64 :: "string \<Rightarrow> int64 option" where
  "parse_int64 s =
     (let neg = (s \<noteq> [] \<and> hd s = CHR ''-'');
          ds = (if s \<noteq> [] \<and> (hd s = CHR ''-'' \<or> hd s = CHR ''+'') then tl s else s)
      in if ds = [] then None
         else case digits_val 0 ds of
                None \<Rightarrow> None
              | Some n \<Rightarrow> (let v = (if neg then - n else n) in if in_int64 v then Some v else None))"

definition int_str :: "int \<Rightarrow> string" where
  "int_str i = (if i < 0 then CHR ''-'' # nat_str (nat (- i)) else nat_str (nat i))"

lemma has_prefix_append [simp]: "has_prefix (p @ s) p"
  by (simp add: has_prefix_def)

lemma has_prefix_iff: "has_prefix s p \<longleftrightarrow> (\<exists>r. s = p @ r)"
  unfolding has_prefix_def by (metis append_eq_conv_conj append_take_drop_id)

lemma has_suffix_iff: "has_suffix s p \<longleftrightarrow> (\<exists>r. s = r @ p)"
proof
  assume "has_suffix s p"
  then have "s = take (length s - length p) s @ p"
    unfolding has_suffix_def by (metis append_take_drop_id)
  then show "\<exists>r. s = r @ p" ..
qed (auto simp: has_suffix_def)

lemma split_on_neq_Nil [simp]: "split_on c s \<noteq> []"
  by (induction s) (auto split: list.splits)

lemma split_on_no_sep: "c \<notin> set s \<Longrightarrow> split_on c s = [s]"
  by (induction s) auto

lemma split_on_append: "c \<notin> set s \<Longrightarrow> split_on c (s @ c # t) = s # split_on c t"
  by (induction s) auto

lemma split_on_elems: "p \<in> set (split_on c s) \<Longrightarrow> c \<notin> set p"
proof (induction s arbitrary: p)
  case Nil
  then show ?case by simp
next
  case (Cons x xs)
  show ?case
  proof (cases "x = c")
    case True
    with Cons show ?thesis by auto
  next
    case False
    obtain q qs where "split_on c xs = q # qs"
      by (cases "split_on c xs") auto
    with False Cons show ?thesis by auto
  qed
qed

lemma split_on_join:
  "ps \<noteq> [] \<Longrightarrow> (\<forall>p \<in> set ps. c \<notin> set p) \<Longrightarrow> split_on c (join_with [c] ps) = ps"
  by (induction "[c]" ps rule: join_with.induct) (auto simp: split_on_no_sep split_on_append)

lemma join_split_on: "join_with [c] (split_on c s) = s"
proof (induction s)
  case Nil
  then show ?case by simp
next
  case (Cons x xs)
  obtain q qs where "split_on c xs = q # qs"
    by (cases "split_on c xs") auto
  with Cons show ?case by (cases qs) auto
qed

section \<open>Sorting\<close>

lemma sort_idem [simp]: "sort (sort xs) = sort (xs :: 'a::linorder list)"
  by (simp add: sorted_sort_id)

section \<open>Association lists as Go maps\<close>

type_synonym ('k, 'v) gomap = "('k \<times> 'v) list"

abbreviation go_put :: "'k \<Rightarrow> 'v \<Rightarrow> ('k, 'v) gomap \<Rightarrow> ('k, 'v) gomap" where
  "go_put \<equiv> AList.update"

abbreviation go_del :: "'k \<Rightarrow> ('k, 'v) gomap \<Rightarrow> ('k, 'v) gomap" where
  "go_del \<equiv> AList.delete"

text \<open>A nil slice or map reads like an empty one.\<close>

definition entries :: "'a list option \<Rightarrow> 'a list" where
  "entries xs = (case xs of None \<Rightarrow> [] | Some ys \<Rightarrow> ys)"

lemma entries_simps [simp]: "entries None = []" "entries (Some xs) = xs"
  by (simp_all add: entries_def)

lemma map_of_go_put [simp]: "map_of (go_put k v m) = (map_of m)(k \<mapsto> v)"
  by (rule ext) (simp add: update_conv')

lemma map_of_go_del [simp]: "map_of (go_del k m) = (map_of m)(k := None)"
  by (rule ext) (simp add: delete_conv')

lemma set_go_put: "set (go_put k v m) \<subseteq> insert (k, v) (set m)"
  by (induction m) auto

lemma set_go_del: "set (go_del k m) = {e \<in> set m. fst e \<noteq> k}"
  by (induction m) auto

lemma keys_go_put [simp]: "fst ` set (go_put k v m) = insert k (fst ` set m)"
  by (simp add: dom_update)

lemma keys_go_del [simp]: "fst ` set (go_del k m) = fst ` set m - {k}"
  by (auto simp: set_go_del)

lemma map_of_map_val: "map_of (map (map_prod id h) m) k = map_option h (map_of m k)"
  by (induction m) auto

lemma map_of_filter_val:
  "distinct (map fst m) \<Longrightarrow> map_of (filter (\<lambda>(k, v). P v) m) k =
     (case map_of m k of None \<Rightarrow> None | Some v \<Rightarrow> if P v then Some v else None)"
  by (induction m) (auto simp: map_of_eq_None_iff[symmetric] split: option.splits)

section \<open>JSON values\<close>

text \<open>
  \<open>JFloat m k\<close> is the float \<open>m / 2\<^sup>k\<close>; \<open>JNumber\<close> is a \<open>json.Number\<close> token; \<open>JInt\<close> a Go
  \<open>int\<close> or \<open>int64\<close> placed in a map by the program itself.
\<close>

datatype jval =
    JNull
  | JBool bool
  | JFloat int nat
  | JNumber string
  | JInt int64
  | JStr string
  | JArr "jval list"
  | JObj "(string \<times> jval) list"

type_synonym jobj = "(string \<times> jval) list"

section \<open>Instants\<close>

datatype stamp = Unset | Stamp int | Malformed string

fun parse_time :: "stamp \<Rightarrow> int option" where
  "parse_time (Stamp t) = Some t"
| "parse_time _ = None"

text \<open>The text of a stamp in a JSON document; an instant is written by its nanosecond count, one
  fixed rendering standing for the RFC 3339 text.\<close>

fun stamp_text :: "stamp \<Rightarrow> string" where
  "stamp_text Unset = []"
| "stamp_text (Stamp t) = int_str t"
| "stamp_text (Malformed s) = s"

definition seconds :: "int \<Rightarrow> int" where
  "seconds n = n * 1000000000"

section \<open>Reachable states of a transition system\<close>

text \<open>
  The interface every state machine of the development is proved through: an initial state, a
  step relation, and an invariant that holds initially and is kept by every step.
\<close>

locale machine =
  fixes init :: "'s \<Rightarrow> bool"
    and step :: "'s \<Rightarrow> 's \<Rightarrow> bool"
    and inv :: "'s \<Rightarrow> bool"
  assumes inv_init: "init s \<Longrightarrow> inv s"
    and inv_step: "inv s \<Longrightarrow> step s t \<Longrightarrow> inv t"
begin

lemma inv_steps: "step\<^sup>*\<^sup>* s t \<Longrightarrow> inv s \<Longrightarrow> inv t"
  by (induction rule: rtranclp_induct) (auto intro: inv_step)

lemma inv_reachable: "init s \<Longrightarrow> step\<^sup>*\<^sup>* s t \<Longrightarrow> inv t"
  using inv_init inv_steps by blast

end

section \<open>Durable documents\<close>

text \<open>
  The interface of a state file: a valid state that is saved and loaded again comes back, up to
  what the JSON encoding of the document does not distinguish (\<open>norm\<close>).
\<close>

locale durable_document =
  fixes save :: "'s \<Rightarrow> 'd"
    and load :: "'d \<Rightarrow> 'e + 's"
    and valid :: "'s \<Rightarrow> bool"
    and norm :: "'s \<Rightarrow> 's"
  assumes load_save: "valid s \<Longrightarrow> load (save s) = Inr (norm s)"
    and norm_valid: "valid s \<Longrightarrow> valid (norm s)"
    and norm_idem: "norm (norm s) = norm s"
begin

lemma reload_fixed: "valid s \<Longrightarrow> load (save s) = Inr t \<Longrightarrow> valid t \<and> load (save t) = Inr t"
  using load_save norm_valid norm_idem by fastforce

end

end
