(* ===== verification/Scope.thy ===== *)
theory Scope
  imports Go_Prelude
begin

text \<open>
  Lexical paths (package \<open>path/filepath\<close> on Unix) and the migration scope resolver of
  \<open>internal/migration/scope.go\<close>: a task names a preconfigured root handle and a relative path,
  and the resolver returns a path below that root or refuses.

  \<open>clean\<close>, \<open>path_join\<close> and \<open>path_rel\<close> are Go's \<open>filepath.Clean\<close>, \<open>Join\<close> and \<open>Rel\<close>; \<open>Lstat\<close> is a
  parameter, since it observes the host's file system.
\<close>

section \<open>Lexical paths\<close>

definition slash :: char where
  "slash = CHR ''/''"

definition dot :: string where
  "dot = ''.''"

definition dotdot :: string where
  "dotdot = ''..''"

lemmas path_consts = slash_def dot_def dotdot_def

definition is_abs :: "string \<Rightarrow> bool" where
  "is_abs p \<longleftrightarrow> has_prefix p [slash]"

fun clean_elems :: "bool \<Rightarrow> string list \<Rightarrow> string list \<Rightarrow> string list" where
  "clean_elems rooted acc [] = acc"
| "clean_elems rooted acc (e # es) =
     (if e = [] \<or> e = dot then clean_elems rooted acc es
      else if e = dotdot then
        (if acc \<noteq> [] \<and> hd acc \<noteq> dotdot then clean_elems rooted (tl acc) es
         else if rooted then clean_elems rooted acc es
         else clean_elems rooted (e # acc) es)
      else clean_elems rooted (e # acc) es)"

definition path_elems :: "string \<Rightarrow> string list" where
  "path_elems p = rev (clean_elems (is_abs p) [] (split_on slash p))"

definition render_path :: "bool \<Rightarrow> string list \<Rightarrow> string" where
  "render_path rooted es =
     (if rooted then slash # join_with [slash] es
      else if es = [] then dot else join_with [slash] es)"

definition clean :: "string \<Rightarrow> string" where
  "clean p = (if p = [] then dot else render_path (is_abs p) (path_elems p))"

definition path_join :: "string \<Rightarrow> string \<Rightarrow> string" where
  "path_join a b =
     (if a = [] then (if b = [] then [] else clean b)
      else if b = [] then clean a else clean (a @ [slash] @ b))"

text \<open>
  The path elements of \<open>filepath.Rel\<close> when the base is a lexical prefix of the target, the only
  case the callers accept: any other target gives a result that starts with \<open>..\<close>.
\<close>

definition path_rel :: "string \<Rightarrow> string \<Rightarrow> string option" where
  "path_rel base targ =
     (let b = path_elems base; t = path_elems targ;
          common = takeWhile (\<lambda>(x, y). x = y) (zip b t); n = length common;
          ups = length b - n
      in if is_abs base \<noteq> is_abs targ \<or> dotdot \<in> set (drop n b) then None
         else Some (render_path False (replicate ups dotdot @ drop n t)))"

definition base_name :: "string \<Rightarrow> string" where
  "base_name p =
     (if p = [] then dot
      else let q = rev (dropWhile (\<lambda>c. c = slash) (rev p))
           in if q = [] then [slash] else last (split_on slash q))"

definition dir_name :: "string \<Rightarrow> string" where
  "dir_name p =
     (let ps = split_on slash p in
      if tl ps = [] then dot else clean (join_with [slash] (butlast ps) @ [slash]))"

section \<open>Elements of a cleaned path\<close>

text \<open>
  An element list is clean when no element is empty, \<open>.\<close> or holds a separator, and \<open>..\<close> occurs
  only as a leading run of a relative path.
\<close>

definition plain_elem :: "string \<Rightarrow> bool" where
  "plain_elem e \<longleftrightarrow> e \<noteq> [] \<and> e \<noteq> dot \<and> e \<noteq> dotdot \<and> slash \<notin> set e"

definition clean_list :: "bool \<Rightarrow> string list \<Rightarrow> bool" where
  "clean_list rooted es \<longleftrightarrow>
     (\<exists>n qs. es = replicate n dotdot @ qs \<and> (\<forall>q \<in> set qs. plain_elem q) \<and> (rooted \<longrightarrow> n = 0))"

lemma clean_listI:
  "es = replicate n dotdot @ qs \<Longrightarrow> (\<forall>q \<in> set qs. plain_elem q) \<Longrightarrow> (rooted \<longrightarrow> n = 0) \<Longrightarrow>
     clean_list rooted es"
  unfolding clean_list_def by blast

lemma clean_elems_invariant:
  assumes "clean_list rooted (rev acc)" and "\<forall>e \<in> set es. slash \<notin> set e"
  shows "clean_list rooted (rev (clean_elems rooted acc es))"
  using assms
proof (induction rooted acc es rule: clean_elems.induct)
  case (1 rooted acc)
  then show ?case by simp
next
  case (2 rooted acc e es)
  from "2.prems"(1) obtain n qs where acc: "rev acc = replicate n dotdot @ qs"
    and plain: "\<forall>q \<in> set qs. plain_elem q" and root: "rooted \<longrightarrow> n = 0"
    unfolding clean_list_def by blast
  have rest: "\<forall>e \<in> set es. slash \<notin> set e" and e: "slash \<notin> set e"
    using "2.prems"(2) by simp_all
  consider (skip) "e = [] \<or> e = dot"
    | (pop) "e = dotdot" "acc \<noteq> [] \<and> hd acc \<noteq> dotdot"
    | (drop) "e = dotdot" "\<not> (acc \<noteq> [] \<and> hd acc \<noteq> dotdot)" "rooted"
    | (up) "e = dotdot" "\<not> (acc \<noteq> [] \<and> hd acc \<noteq> dotdot)" "\<not> rooted"
    | (push) "\<not> (e = [] \<or> e = dot)" "e \<noteq> dotdot"
    by blast
  then show ?case
  proof cases
    case skip
    with 2 rest show ?thesis by simp
  next
    case pop
    have "qs \<noteq> []"
    proof
      assume "qs = []"
      with acc have "acc = replicate n dotdot"
        by (metis append_Nil2 rev_replicate rev_swap)
      with pop show False by (cases n) auto
    qed
    then obtain qs' q where qs: "qs = qs' @ [q]"
      by (metis rev_exhaust)
    with acc have "rev (tl acc) = replicate n dotdot @ qs'"
      by (cases acc) auto
    then have "clean_list rooted (rev (tl acc))"
      using plain root qs by (intro clean_listI) auto
    with pop 2 rest show ?thesis by (auto simp: path_consts)
  next
    case drop
    with 2 rest show ?thesis by (auto simp: path_consts)
  next
    case up
    have "qs = []"
    proof (rule ccontr)
      assume "qs \<noteq> []"
      then obtain qs' q where qs: "qs = qs' @ [q]"
        by (metis rev_exhaust)
      have "acc = rev (rev acc)" by simp
      also have "\<dots> = q # rev (replicate n dotdot @ qs')"
        by (simp only: acc qs) simp
      finally show False using up plain qs by (auto simp: plain_elem_def)
    qed
    with acc have "rev (dotdot # acc) = replicate (Suc n) dotdot @ []"
      by (simp add: replicate_append_same)
    then have "clean_list rooted (rev (dotdot # acc))"
      using up by (intro clean_listI [where n = "Suc n" and qs = "[]"]) auto
    with up 2 rest show ?thesis by (auto simp: path_consts)
  next
    case push
    have "rev (e # acc) = replicate n dotdot @ (qs @ [e])"
      using acc by simp
    then have "clean_list rooted (rev (e # acc))"
      using plain root push e
      by (intro clean_listI [where n = n and qs = "qs @ [e]"]) (auto simp: plain_elem_def)
    with push 2 rest show ?thesis by simp
  qed
qed

lemma path_elems_clean: "clean_list (is_abs p) (path_elems p)"
proof -
  have "clean_list (is_abs p) (rev [])"
    by (rule clean_listI [where n = 0 and qs = "[]"]) auto
  then show ?thesis
    unfolding path_elems_def
    by (rule clean_elems_invariant) (auto dest: split_on_elems)
qed

lemma clean_elems_plain:
  "\<forall>q \<in> set qs. plain_elem q \<Longrightarrow> clean_elems rooted acc qs = rev qs @ acc"
  by (induction qs arbitrary: acc) (auto simp: plain_elem_def)

lemma clean_elems_ups:
  "\<not> rooted \<Longrightarrow> set acc \<subseteq> {dotdot} \<Longrightarrow>
     clean_elems rooted acc (replicate n dotdot @ es) = clean_elems rooted (replicate n dotdot @ acc) es"
proof (induction n arbitrary: acc)
  case (Suc n)
  have "\<not> (acc \<noteq> [] \<and> hd acc \<noteq> dotdot)"
    using Suc.prems by (cases acc) auto
  then have "clean_elems rooted acc (replicate (Suc n) dotdot @ es)
      = clean_elems rooted (dotdot # acc) (replicate n dotdot @ es)"
    using Suc.prems by (auto simp: path_consts)
  also have "\<dots> = clean_elems rooted (replicate n dotdot @ dotdot # acc) es"
    using Suc by simp
  finally show ?case by (simp add: replicate_app_Cons_same)
qed simp

lemma clean_elems_fixed:
  assumes "clean_list rooted es"
  shows "rev (clean_elems rooted [] es) = es"
proof -
  from assms obtain n qs where es: "es = replicate n dotdot @ qs"
    and plain: "\<forall>q \<in> set qs. plain_elem q" and root: "rooted \<longrightarrow> n = 0"
    unfolding clean_list_def by blast
  show ?thesis
  proof (cases rooted)
    case True
    with root es plain show ?thesis by (simp add: clean_elems_plain)
  next
    case False
    then show ?thesis using es plain by (simp add: clean_elems_ups clean_elems_plain)
  qed
qed

lemma clean_list_no_slash:
  assumes "clean_list rooted es" and "e \<in> set es"
  shows "slash \<notin> set e \<and> e \<noteq> [] \<and> e \<noteq> dot"
proof -
  from assms have "e = dotdot \<or> plain_elem e"
    unfolding clean_list_def by auto
  then show ?thesis by (auto simp: plain_elem_def path_consts)
qed

lemma join_with_hd:
  "es \<noteq> [] \<Longrightarrow> \<forall>e \<in> set es. e \<noteq> [] \<and> slash \<notin> set e \<Longrightarrow>
     join_with [slash] es \<noteq> [] \<and> hd (join_with [slash] es) \<noteq> slash"
  by (induction "[slash]" es rule: join_with.induct) (auto simp: hd_append dest: hd_in_set)

lemma is_abs_render: "clean_list rooted es \<Longrightarrow> is_abs (render_path rooted es) = rooted"
proof (cases "rooted \<or> es = []")
  case True
  then show ?thesis by (auto simp: render_path_def is_abs_def has_prefix_def path_consts)
next
  case False
  assume "clean_list rooted es"
  with False have "join_with [slash] es \<noteq> [] \<and> hd (join_with [slash] es) \<noteq> slash"
    by (intro join_with_hd) (auto dest: clean_list_no_slash)
  with False show ?thesis
    by (cases "join_with [slash] es") (auto simp: render_path_def is_abs_def has_prefix_def)
qed

lemma path_elems_render:
  assumes "clean_list rooted es"
  shows "path_elems (render_path rooted es) = es"
proof -
  have noslash: "\<forall>e \<in> set es. slash \<notin> set e"
    using assms by (auto dest: clean_list_no_slash)
  have "rev (clean_elems rooted [] (split_on slash (render_path rooted es))) = es"
  proof (cases "es = []")
    case True
    then show ?thesis by (cases rooted) (simp_all add: render_path_def path_consts)
  next
    case False
    then have "split_on slash (join_with [slash] es) = es"
      using noslash by (intro split_on_join)
    then show ?thesis
      using False assms clean_elems_fixed [OF assms] by (cases rooted) (simp_all add: render_path_def)
  qed
  then show ?thesis
    unfolding path_elems_def by (simp add: is_abs_render [OF assms])
qed

lemma is_abs_clean [simp]: "is_abs (clean p) = is_abs p"
  using is_abs_render [OF path_elems_clean]
  by (auto simp: clean_def is_abs_def has_prefix_def path_consts)

lemma path_elems_clean_eq [simp]: "path_elems (clean p) = path_elems p"
proof (cases "p = []")
  case True
  then show ?thesis by (simp add: clean_def path_elems_def is_abs_def has_prefix_def path_consts)
next
  case False
  then show ?thesis by (simp add: clean_def path_elems_render path_elems_clean)
qed

lemma clean_idem: "clean (clean p) = clean p"
proof (cases "p = []")
  case True
  then show ?thesis by (simp add: clean_def path_elems_def is_abs_def has_prefix_def render_path_def path_consts)
next
  case False
  have "\<forall>e \<in> set (path_elems p). e \<noteq> [] \<and> slash \<notin> set e"
    using clean_list_no_slash [OF path_elems_clean] by blast
  with False have "clean p \<noteq> []"
    using join_with_hd [of "path_elems p"] by (auto simp: clean_def render_path_def dot_def)
  then show ?thesis
    by (subst clean_def) (simp add: False clean_def [of p] path_elems_render path_elems_clean is_abs_render)
qed

section \<open>Joining and relating clean paths\<close>

lemma split_on_snoc:
  "split_on c (s @ c # t) = split_on c s @ split_on c t"
proof (induction s)
  case (Cons x xs)
  then show ?case by (cases "split_on c xs") auto
qed simp

lemma clean_elems_append:
  "clean_elems rooted acc (xs @ ys) = clean_elems rooted (clean_elems rooted acc xs) ys"
  by (induction rooted acc xs rule: clean_elems.induct) auto

text \<open>Joining a relative path whose elements are plain appends its elements.\<close>

lemma path_join_elems:
  assumes "is_abs root" and "\<not> is_abs rel" and "rel \<noteq> []" and "\<forall>e \<in> set (path_elems rel). plain_elem e"
    and "rel = clean rel"
  shows "path_elems (path_join root rel) = path_elems root @ path_elems rel" (is ?elems)
    and "is_abs (path_join root rel)" (is ?abs)
    and "clean (path_join root rel) = path_join root rel" (is ?clean)
proof -
  have root: "root \<noteq> []" and abs: "is_abs (root @ [slash] @ rel)"
    using assms(1) by (cases root; simp add: is_abs_def has_prefix_def)+
  have join: "path_join root rel = clean (root @ [slash] @ rel)"
    using root assms(3) by (simp add: path_join_def)
  have rel: "clean_elems True acc (split_on slash rel) = rev (path_elems rel) @ acc" for acc
  proof (cases "path_elems rel = []")
    case True
    then have "rel = dot"
      using assms(2,3,5) by (metis clean_def render_path_def)
    with True show ?thesis by (simp add: path_consts)
  next
    case False
    then have "rel = join_with [slash] (path_elems rel)"
      using assms(2,3,5) by (metis clean_def render_path_def)
    then have "split_on slash rel = path_elems rel"
      using False assms(4) split_on_join [of "path_elems rel" slash]
      by (auto simp: plain_elem_def)
    then show ?thesis by (simp add: clean_elems_plain assms(4))
  qed
  show ?elems
    unfolding join using assms(1) abs rel
    by (simp add: path_elems_def [of "root @ slash # rel"] path_elems_def [of root]
        split_on_snoc clean_elems_append)
  show ?abs unfolding join using abs by simp
  show ?clean unfolding join by (rule clean_idem)
qed

lemma takeWhile_zip_prefix: "takeWhile (\<lambda>(x, y). x = y) (zip xs (xs @ ys)) = zip xs xs"
  by (induction xs) auto

lemma path_rel_below:
  assumes "is_abs root" and "is_abs targ" and "path_elems targ = path_elems root @ es"
  shows "path_rel root targ = Some (render_path False es)"
  using assms by (simp add: path_rel_def Let_def takeWhile_zip_prefix)

section \<open>The scope resolver\<close>

datatype fkind = FDir | FRegular | FSymlink | FOther

datatype lstat_result = NotExist | StatFailed | StatOk fkind

datatype scope_err =
    NoRootHandles
  | InvalidRootHandle string
  | RootUnavailable string
  | UnknownRootHandle
  | UnsafeScope
  | SymlinkComponent
  | LstatError

type_synonym ScopeResolver = "(string, string) gomap"

definition Root :: "ScopeResolver \<Rightarrow> string \<Rightarrow> scope_err + string" where
  "Root s handle = (case map_of s handle of None \<Rightarrow> Inl UnknownRootHandle | Some root \<Rightarrow> Inr root)"

fun copy_roots :: "(string \<Rightarrow> lstat_result) \<Rightarrow> (string, string) gomap \<Rightarrow> ScopeResolver \<Rightarrow> scope_err + ScopeResolver" where
  "copy_roots lstat [] acc = Inr acc"
| "copy_roots lstat ((handle, root) # rest) acc =
     (let cl = clean root in
      if handle = [] \<or> \<not> is_abs cl \<or> cl = [slash] \<or> cl \<noteq> root then Inl (InvalidRootHandle handle)
      else if lstat cl \<noteq> StatOk FDir then Inl (RootUnavailable handle)
      else copy_roots lstat rest (go_put handle cl acc))"

definition NewScopeResolver :: "(string \<Rightarrow> lstat_result) \<Rightarrow> (string, string) gomap \<Rightarrow> scope_err + ScopeResolver" where
  "NewScopeResolver lstat roots = (if roots = [] then Inl NoRootHandles else copy_roots lstat roots [])"

definition escapes :: "string \<Rightarrow> bool" where
  "escapes p \<longleftrightarrow> p = dotdot \<or> has_prefix p (dotdot @ [slash])"

definition cleanRelative :: "string \<Rightarrow> scope_err + string" where
  "cleanRelative value =
     (if value = [] \<or> value = dot then Inr dot
      else if is_abs value \<or> CHR 0x00 \<in> set value then Inl UnsafeScope
      else let cl = clean value in if escapes cl then Inl UnsafeScope else Inr cl)"

fun walk_parts :: "(string \<Rightarrow> lstat_result) \<Rightarrow> bool \<Rightarrow> string \<Rightarrow> string list \<Rightarrow> scope_err option" where
  "walk_parts lstat allowMissingLeaf current [] = None"
| "walk_parts lstat allowMissingLeaf current (part # parts) =
     (if part = dot \<or> part = [] then walk_parts lstat allowMissingLeaf current parts
      else let current = path_join current part in
        (case lstat current of
           NotExist \<Rightarrow>
             if allowMissingLeaf \<and> parts = [] then walk_parts lstat allowMissingLeaf current parts
             else Some LstatError
         | StatFailed \<Rightarrow> Some LstatError
         | StatOk FSymlink \<Rightarrow> Some SymlinkComponent
         | StatOk _ \<Rightarrow> walk_parts lstat allowMissingLeaf current parts))"

definition Resolve :: "(string \<Rightarrow> lstat_result) \<Rightarrow> ScopeResolver \<Rightarrow> string \<Rightarrow> string \<Rightarrow> bool \<Rightarrow> scope_err + string" where
  "Resolve lstat s handle relative allowMissingLeaf =
     (case map_of s handle of
        None \<Rightarrow> Inl UnknownRootHandle
      | Some root \<Rightarrow>
          (case cleanRelative relative of
             Inl e \<Rightarrow> Inl e
           | Inr cleanRelativePath \<Rightarrow>
               let target = path_join root cleanRelativePath in
               (case path_rel root target of
                  None \<Rightarrow> Inl UnsafeScope
                | Some rel \<Rightarrow>
                    if escapes rel then Inl UnsafeScope
                    else (case walk_parts lstat allowMissingLeaf root (split_on slash rel) of
                            Some e \<Rightarrow> Inl e
                          | None \<Rightarrow> Inr target))))"

definition wf_resolver :: "ScopeResolver \<Rightarrow> bool" where
  "wf_resolver s \<longleftrightarrow>
     (\<forall>(h, root) \<in> set s. h \<noteq> [] \<and> is_abs root \<and> clean root = root \<and> root \<noteq> [slash])"

lemma copy_roots_wf:
  "copy_roots lstat roots acc = Inr s \<Longrightarrow> wf_resolver acc \<Longrightarrow> wf_resolver s"
proof (induction lstat roots acc rule: copy_roots.induct)
  case (2 lstat handle root rest acc)
  from "2.prems"(1) have ok: "handle \<noteq> []" "is_abs (clean root)" "clean root \<noteq> [slash]" "clean root = root"
    and rec: "copy_roots lstat rest (go_put handle (clean root) acc) = Inr s"
    by (auto simp: Let_def split: if_splits)
  have "set (go_put handle (clean root) acc) \<subseteq> insert (handle, clean root) (set acc)"
    by (rule set_go_put)
  then have "wf_resolver (go_put handle (clean root) acc)"
    using "2.prems"(2) ok by (fastforce simp: wf_resolver_def)
  with "2.IH" [OF refl _ _ rec] ok "2.prems"(1) show ?case
    by (auto simp: Let_def split: if_splits)
qed simp

lemma NewScopeResolver_wf: "NewScopeResolver lstat roots = Inr s \<Longrightarrow> wf_resolver s"
proof -
  assume "NewScopeResolver lstat roots = Inr s"
  then have "copy_roots lstat roots [] = Inr s"
    by (simp add: NewScopeResolver_def split: if_splits)
  moreover have "wf_resolver []" by (simp add: wf_resolver_def)
  ultimately show ?thesis by (rule copy_roots_wf)
qed

lemma clean_relative_elems:
  assumes "\<not> is_abs p" and "p \<noteq> []" and "\<not> escapes (clean p)"
  shows "\<forall>e \<in> set (path_elems p). plain_elem e"
proof -
  from path_elems_clean [of p] obtain n qs where es: "path_elems p = replicate n dotdot @ qs"
    and plain: "\<forall>q \<in> set qs. plain_elem q"
    unfolding clean_list_def by blast
  have "n = 0"
  proof (rule ccontr)
    assume "n \<noteq> 0"
    then obtain m where n: "n = Suc m" by (cases n) auto
    then have "clean p = join_with [slash] (dotdot # (replicate m dotdot @ qs))"
      using assms(1,2) es by (simp add: clean_def render_path_def)
    then have "escapes (clean p)"
      by (cases "replicate m dotdot @ qs") (auto simp: escapes_def has_prefix_iff)
    with assms(3) show False ..
  qed
  with es plain show ?thesis by simp
qed

lemma cleanRelative_plain:
  assumes "cleanRelative v = Inr r"
  shows "\<not> is_abs r" "r \<noteq> []" "clean r = r" "\<forall>e \<in> set (path_elems r). plain_elem e"
proof -
  consider (dot) "r = dot" | (cl) "v \<noteq> []" "\<not> is_abs v" "r = clean v" "\<not> escapes (clean v)"
    using assms by (auto simp: cleanRelative_def Let_def split: if_splits)
  then have "\<not> is_abs r \<and> r \<noteq> [] \<and> clean r = r \<and> (\<forall>e \<in> set (path_elems r). plain_elem e)"
  proof cases
    case dot
    have el: "path_elems dot = []" by (simp add: path_elems_def is_abs_def has_prefix_def path_consts)
    show ?thesis unfolding dot el
      by (simp add: clean_def el is_abs_def has_prefix_def render_path_def) (simp add: path_consts)
  next
    case cl
    then have plain: "\<forall>e \<in> set (path_elems v). plain_elem e"
      by (intro clean_relative_elems)
    moreover have "clean v \<noteq> []"
      using cl(1,2) join_with_hd [of "path_elems v"] plain
      by (auto simp: clean_def render_path_def plain_elem_def dot_def)
    ultimately show ?thesis using cl by (simp add: clean_idem)
  qed
  then show "\<not> is_abs r" "r \<noteq> []" "clean r = r" "\<forall>e \<in> set (path_elems r). plain_elem e" by auto
qed

lemma walk_parts_no_symlink:
  assumes "walk_parts lstat a cur parts = None" and "\<forall>p \<in> set parts. plain_elem p" and "i < length parts"
  shows "\<exists>k. k \<noteq> FSymlink \<and> lstat (foldl path_join cur (take (Suc i) parts)) = StatOk k
     \<or> a \<and> Suc i = length parts \<and> lstat (foldl path_join cur (take (Suc i) parts)) = NotExist"
  using assms
proof (induction lstat a cur parts arbitrary: i rule: walk_parts.induct)
  case (2 lstat a cur part parts)
  have part: "\<not> (part = dot \<or> part = [])" using "2.prems"(2) by (auto simp: plain_elem_def)
  show ?case
  proof (cases i)
    case 0
    with "2.prems" part show ?thesis
      by (auto simp: Let_def split: lstat_result.splits fkind.splits if_splits)
  next
    case (Suc j)
    have "walk_parts lstat a (path_join cur part) parts = None"
      using "2.prems"(1,3) part Suc by (auto simp: Let_def split: lstat_result.splits fkind.splits if_splits)
    with "2.prems" part Suc "2.IH" (2-) [OF part refl] show ?thesis
      by (auto simp: Let_def split: lstat_result.splits fkind.splits if_splits)
  qed
qed simp

lemma escapes_plain:
  assumes "\<forall>e \<in> set es. plain_elem e"
  shows "\<not> escapes (render_path False es)"
proof (cases es)
  case Nil
  then show ?thesis by (simp add: escapes_def render_path_def has_prefix_def path_consts)
next
  case (Cons e es')
  have "escapes (render_path False es) \<Longrightarrow> hd (split_on slash (render_path False es)) = dotdot"
    by (auto simp: escapes_def has_prefix_iff split_on_no_sep split_on_snoc) (simp_all add: path_consts)
  moreover have "split_on slash (render_path False es) = es"
    using assms Cons split_on_join [of es slash] by (auto simp: render_path_def plain_elem_def)
  ultimately show ?thesis using assms Cons by (auto simp: plain_elem_def)
qed

lemma wf_resolver_lookup:
  "wf_resolver s \<Longrightarrow> map_of s h = Some root \<Longrightarrow> is_abs root \<and> clean root = root \<and> root \<noteq> [slash]"
  unfolding wf_resolver_def by (auto dest: map_of_SomeD)

lemma Resolve_InrE:
  assumes "Resolve lstat s handle relative allowMissing = Inr target" and "wf_resolver s"
  obtains root es where "map_of s handle = Some root" and "is_abs root"
    and "\<forall>e \<in> set es. plain_elem e" and "is_abs target" and "clean target = target"
    and "path_elems target = path_elems root @ es"
    and "walk_parts lstat allowMissing root (split_on slash (render_path False es)) = None"
proof -
  from assms(1) obtain root r where root: "map_of s handle = Some root" and r: "cleanRelative relative = Inr r"
    and target: "target = path_join root r"
    by (auto simp: Resolve_def Let_def split: option.splits sum.splits if_splits)
  from wf_resolver_lookup [OF assms(2) root] have abs: "is_abs root" by simp
  note plain = cleanRelative_plain [OF r]
  note join = path_join_elems [OF abs plain(1,2,4) plain(3) [symmetric]]
  have rel: "path_rel root target = Some (render_path False (path_elems r))"
    using abs join(2,1) unfolding target by (rule path_rel_below)
  have "walk_parts lstat allowMissing root (split_on slash (render_path False (path_elems r))) = None"
    using assms(1) root r target rel
    by (auto simp: Resolve_def Let_def split: option.splits sum.splits if_splits)
  with that root abs plain(4) join show ?thesis unfolding target by blast
qed

text \<open>
  \<^bold>\<open>C10\<close>. Containment of the scope resolver: whatever handle and relative path a task supplies, a path that
  \<open>ScopeResolver.Resolve\<close> returns lies below the configured root of that handle, extends it only
  by ordinary names (never \<open>..\<close>), and every path component below the root either exists and is
  not a symbolic link, or is the missing leaf that the caller allowed.
\<close>

theorem resolve_contained:
  assumes "NewScopeResolver lstat0 roots = Inr s"
    and "Resolve lstat s handle relative allowMissingLeaf = Inr target"
  shows "\<exists>root es. map_of s handle = Some root \<and> is_abs target \<and> clean target = target
    \<and> path_elems target = path_elems root @ es \<and> (\<forall>e \<in> set es. plain_elem e)
    \<and> (\<forall>i < length es. \<exists>k. k \<noteq> FSymlink \<and> lstat (foldl path_join root (take (Suc i) es)) = StatOk k
         \<or> allowMissingLeaf \<and> Suc i = length es \<and> lstat (foldl path_join root (take (Suc i) es)) = NotExist)"
proof -
  from assms(2) NewScopeResolver_wf [OF assms(1)] obtain root es where res:
    "map_of s handle = Some root" "is_abs root" "\<forall>e \<in> set es. plain_elem e" "is_abs target"
    "clean target = target" "path_elems target = path_elems root @ es"
    "walk_parts lstat allowMissingLeaf root (split_on slash (render_path False es)) = None"
    by (rule Resolve_InrE)
  have "\<exists>k. k \<noteq> FSymlink \<and> lstat (foldl path_join root (take (Suc i) es)) = StatOk k
         \<or> allowMissingLeaf \<and> Suc i = length es \<and> lstat (foldl path_join root (take (Suc i) es)) = NotExist"
    if i: "i < length es" for i
  proof -
    from i have "split_on slash (render_path False es) = es"
      using res(3) split_on_join [of es slash] by (auto simp: render_path_def plain_elem_def)
    with walk_parts_no_symlink [OF _ res(3) i, of lstat allowMissingLeaf root] res(7) show ?thesis by simp
  qed
  with res show ?thesis by blast
qed

theorem resolve_contained_witness:
  "\<exists>es. path_elems ''/srv/data/app/logs'' = path_elems ''/srv/data'' @ es \<and> es = [''app'', ''logs'']"
proof -
  let ?ls = "\<lambda>_. StatOk FDir"
  have new: "NewScopeResolver ?ls [(''data'', ''/srv/data'')] = Inr [(''data'', ''/srv/data'')]"
    by code_simp
  have res: "Resolve ?ls [(''data'', ''/srv/data'')] ''data'' ''app/../app//logs/.'' False = Inr ''/srv/data/app/logs''"
    by code_simp
  from resolve_contained [OF new res] obtain es where
    "path_elems ''/srv/data/app/logs'' = path_elems ''/srv/data'' @ es" by auto
  moreover have "path_elems ''/srv/data/app/logs'' = [''srv'', ''data'', ''app'', ''logs'']"
    and "path_elems ''/srv/data'' = [''srv'', ''data'']"
    by code_simp+
  ultimately show ?thesis by simp
qed

end
