(* ===== verification/Canonical.thy ===== *)
theory Canonical
  imports Go_Prelude "HOL-Library.Multiset"
begin

text \<open>
  Canonical JSON and digests (\<open>internal/migration/canonical.go\<close>). A value is encoded, decoded
  with number tokens kept as text, and encoded again, so object keys come out sorted at every
  level whatever order the producer used.

  The shortest decimal form of a float (\<open>strconv\<close>) and SHA-256 are parameters: \<open>ffmt\<close> prints a
  float, \<open>sha\<close> is the hexadecimal SHA-256 of a byte string. Text is ASCII; HTML escaping is off.
\<close>

section \<open>Encoding\<close>

definition hex_digit :: "nat \<Rightarrow> char" where
  "hex_digit n = (if n < 10 then char_of (48 + n) else char_of (87 + n))"

definition esc_char :: "char \<Rightarrow> string" where
  "esc_char c =
     (if c = CHR 0x22 then [CHR 0x5C, CHR 0x22]
      else if c = CHR 0x5C then [CHR 0x5C, CHR 0x5C]
      else if c = CHR 0x08 then [CHR 0x5C, CHR ''b'']
      else if c = CHR 0x0C then [CHR 0x5C, CHR ''f'']
      else if c = CHR 0x0A then [CHR 0x5C, CHR ''n'']
      else if c = CHR 0x0D then [CHR 0x5C, CHR ''r'']
      else if c = CHR 0x09 then [CHR 0x5C, CHR ''t'']
      else if (of_char c :: nat) < 32 then
        [CHR 0x5C, CHR ''u'', CHR ''0'', CHR ''0'',
         hex_digit ((of_char c :: nat) div 16), hex_digit ((of_char c :: nat) mod 16)]
      else [c])"

definition quote_str :: "string \<Rightarrow> string" where
  "quote_str s = CHR 0x22 # concat (map esc_char s) @ [CHR 0x22]"

primrec encode :: "(int \<Rightarrow> nat \<Rightarrow> string) \<Rightarrow> jval \<Rightarrow> string" where
  "encode ffmt JNull = ''null''"
| "encode ffmt (JBool b) = (if b then ''true'' else ''false'')"
| "encode ffmt (JFloat m k) = ffmt m k"
| "encode ffmt (JNumber t) = t"
| "encode ffmt (JInt i) = int_str i"
| "encode ffmt (JStr s) = quote_str s"
| "encode ffmt (JArr vs) = CHR ''['' # join_with '','' (map (encode ffmt) vs) @ '']''"
| "encode ffmt (JObj kvs) =
     CHR ''{'' # join_with '',''
       (map (\<lambda>(k, s). quote_str k @ CHR '':'' # s) (map (map_prod id (encode ffmt)) kvs)) @ ''}''"

text \<open>Decoding what was encoded turns every number into its token and every object into a map,
  which the encoder then prints in key order.\<close>

primrec canon :: "(int \<Rightarrow> nat \<Rightarrow> string) \<Rightarrow> jval \<Rightarrow> jval" where
  "canon ffmt JNull = JNull"
| "canon ffmt (JBool b) = JBool b"
| "canon ffmt (JFloat m k) = JNumber (ffmt m k)"
| "canon ffmt (JNumber t) = JNumber t"
| "canon ffmt (JInt i) = JNumber (int_str i)"
| "canon ffmt (JStr s) = JStr s"
| "canon ffmt (JArr vs) = JArr (map (canon ffmt) vs)"
| "canon ffmt (JObj kvs) = JObj (sort_key fst (map (map_prod id (canon ffmt)) kvs))"

definition CanonicalJSON :: "(int \<Rightarrow> nat \<Rightarrow> string) \<Rightarrow> jval \<Rightarrow> string" where
  "CanonicalJSON ffmt v = encode ffmt (canon ffmt v)"

definition Digest :: "(int \<Rightarrow> nat \<Rightarrow> string) \<Rightarrow> (string \<Rightarrow> string) \<Rightarrow> jval \<Rightarrow> string" where
  "Digest ffmt sha v = ''sha256:'' @ sha (CanonicalJSON ffmt v)"

section \<open>Key order does not matter\<close>

text \<open>Equality of values up to the order of object members, at every depth.\<close>

inductive same_value :: "jval \<Rightarrow> jval \<Rightarrow> bool" where
  same_refl: "same_value v v"
| same_arr: "list_all2 same_value vs ws \<Longrightarrow> same_value (JArr vs) (JArr ws)"
| same_obj: "list_all2 (rel_prod (=) same_value) kvs mid \<Longrightarrow> mset mid = mset kws \<Longrightarrow>
    distinct (map fst kvs) \<Longrightarrow> same_value (JObj kvs) (JObj kws)"
monos list_all2_mono prod.rel_mono

lemma sort_key_mset_eq:
  assumes "mset xs = mset ys" and "distinct (map f xs)"
  shows "sort_key f xs = sort_key f (ys :: 'a list)"
proof (rule properties_for_sort_key)
  show "mset (sort_key f ys) = mset xs" using assms(1) by simp
  show "sorted (map f (sort_key f ys))" by simp
  fix k
  have sets: "set ys = set xs" using assms(1) by (metis set_mset_mset)
  assume "k \<in> set (sort_key f ys)"
  with sets have k: "k \<in> set xs" by simp
  have one: "filter (\<lambda>x. f k = f x) zs = replicate (count (mset zs) k) k" if "set zs = set xs" for zs
  proof -
    have "filter (\<lambda>x. f k = f x) zs = filter (\<lambda>x. x = k) zs"
      using assms(2) k that by (auto intro!: filter_cong simp: distinct_map dest: inj_onD)
    also have "\<dots> = replicate (count (mset zs) k) k"
      by (induction zs) auto
    finally show ?thesis .
  qed
  show "filter (\<lambda>x. f k = f x) (sort_key f ys) = filter (\<lambda>x. f k = f x) xs"
    using one [of xs] one [of "sort_key f ys"] sets assms(1) by simp
qed

lemma canon_same_value: "same_value v w \<Longrightarrow> canon ffmt v = canon ffmt w"
proof (induction rule: same_value.induct)
  case (same_arr vs ws)
  then show ?case by (induction rule: list_all2_induct) auto
next
  case (same_obj kvs mid kws)
  have eq: "map (map_prod id (canon ffmt)) kvs = map (map_prod id (canon ffmt)) mid"
    using same_obj.IH by (induction rule: list_all2_induct) auto
  have "sort_key fst (map (map_prod id (canon ffmt)) mid) = sort_key fst (map (map_prod id (canon ffmt)) kws)"
  proof (rule sort_key_mset_eq)
    show "mset (map (map_prod id (canon ffmt)) mid) = mset (map (map_prod id (canon ffmt)) kws)"
      using same_obj.hyps(1) by simp
    have "map fst (map (map_prod id (canon ffmt)) mid) = map fst kvs"
      unfolding eq [symmetric] by simp
    then show "distinct (map fst (map (map_prod id (canon ffmt)) mid))"
      using same_obj.hyps(2) by simp
  qed
  with eq show ?case by simp
qed simp

text \<open>
  Two JSON values that differ only in the order of object members, at any depth, have
  the same canonical text and therefore the same digest: a digest computed by the backend and one computed by
  the agent agree whatever order each side's encoder used.
\<close>

theorem digest_order_independent:
  assumes "same_value v w"
  shows "CanonicalJSON ffmt v = CanonicalJSON ffmt w \<and> Digest ffmt sha v = Digest ffmt sha w"
  using canon_same_value [OF assms] by (simp add: CanonicalJSON_def Digest_def)

theorem digest_order_independent_witness:
  "CanonicalJSON (\<lambda>m k. int_str m) (JObj [(''b'', JInt 2), (''a'', JArr [JNull])])
     = CanonicalJSON (\<lambda>m k. int_str m) (JObj [(''a'', JArr [JNull]), (''b'', JInt 2)])
   \<and> CanonicalJSON (\<lambda>m k. int_str m) (JObj [(''b'', JInt 2), (''a'', JArr [JNull])]) = ''{\"a\":[null],\"b\":2}''"
proof -
  have "same_value (JObj [(''b'', JInt 2), (''a'', JArr [JNull])]) (JObj [(''a'', JArr [JNull]), (''b'', JInt 2)])"
    by (rule same_obj [where mid = "[(''b'', JInt 2), (''a'', JArr [JNull])]"])
      (auto intro: same_refl simp: rel_prod.simps)
  from digest_order_independent [OF this] show ?thesis
    by (simp only: CanonicalJSON_def) code_simp
qed

end
