(* ===== verification/Go_Effects.thy ===== *)
theory Go_Effects
  imports Go_Prelude "HOL-Library.State_Monad"
begin

text \<open>
  Effectful Go code as computations of the state monad whose result is a value or an error, and
  the Hoare triples its proofs use. \<open>tryE m k\<close> is \<open>x, err := m; if err != nil { return err }\<close>
  followed by \<open>k x\<close>; \<open>forE\<close> is a loop that returns at the first error, \<open>for_all\<close> one that runs every
  iteration and reports whether some failed.
\<close>

type_synonym ('s, 'e, 'a) op = "('s, 'e + 'a) state"

abbreviation return :: "'a \<Rightarrow> ('s, 'a) state" where
  "return \<equiv> State_Monad.return"

abbreviation get_state :: "('s, 's) state" where
  "get_state \<equiv> State_Monad.get"

abbreviation modify :: "('s \<Rightarrow> 's) \<Rightarrow> ('s, unit) state" where
  "modify \<equiv> State_Monad.update"

definition okE :: "'a \<Rightarrow> ('s, 'e, 'a) op" where
  "okE x = return (Inr x)"

definition errE :: "'e \<Rightarrow> ('s, 'e, 'a) op" where
  "errE e = return (Inl e)"

definition tryE :: "('s, 'e, 'a) op \<Rightarrow> ('a \<Rightarrow> ('s, 'e, 'b) op) \<Rightarrow> ('s, 'e, 'b) op" where
  "tryE m k = State_Monad.bind m (\<lambda>r. case r of Inl e \<Rightarrow> return (Inl e) | Inr x \<Rightarrow> k x)"

definition guardE :: "bool \<Rightarrow> 'e \<Rightarrow> ('s, 'e, 'a) op \<Rightarrow> ('s, 'e, 'a) op" where
  "guardE ok e k = (if ok then k else errE e)"

primrec forE :: "'a list \<Rightarrow> ('a \<Rightarrow> ('s, 'e, unit) op) \<Rightarrow> ('s, 'e, unit) op" where
  "forE [] f = okE ()"
| "forE (x # xs) f = tryE (f x) (\<lambda>_. forE xs f)"

definition is_err :: "'e + 'a \<Rightarrow> bool" where
  "is_err r = (case r of Inl _ \<Rightarrow> True | Inr _ \<Rightarrow> False)"

lemma is_err_simps [simp]: "is_err (Inl e)" "\<not> is_err (Inr x)"
  by (simp_all add: is_err_def)

primrec for_all :: "'a list \<Rightarrow> ('a \<Rightarrow> ('s, 'e, unit) op) \<Rightarrow> ('s, bool) state" where
  "for_all [] f = return False"
| "for_all (x # xs) f = do { r \<leftarrow> f x; failed \<leftarrow> for_all xs f; return (is_err r \<or> failed) }"

section \<open>Evaluation\<close>

lemma run_return [simp]: "run_state (return x) s = (x, s)"
  by (simp add: State_Monad.return_def)

lemma run_bind [simp]: "run_state (State_Monad.bind m k) s = (case run_state m s of (x, t) \<Rightarrow> run_state (k x) t)"
  by (cases m) (simp add: State_Monad.bind_def split: prod.split)

lemma run_get [simp]: "run_state get_state s = (s, s)"
  by (simp add: State_Monad.get_def)

lemma run_modify [simp]: "run_state (modify f) s = ((), f s)"
  by (simp add: State_Monad.update_def State_Monad.get_def State_Monad.set_def State_Monad.bind_def)

lemma run_okE [simp]: "run_state (okE x) s = (Inr x, s)"
  by (simp add: okE_def)

lemma run_errE [simp]: "run_state (errE e) s = (Inl e, s)"
  by (simp add: errE_def)

lemma run_tryE [simp]:
  "run_state (tryE m k) s = (case run_state m s of (Inl e, t) \<Rightarrow> (Inl e, t) | (Inr x, t) \<Rightarrow> run_state (k x) t)"
  by (simp add: tryE_def split: prod.split sum.split)

lemma run_if: "run_state (if b then m else n) s = (if b then run_state m s else run_state n s)"
  by simp

lemma run_guardE [simp]:
  "run_state (guardE ok e k) s = (if ok then run_state k s else (Inl e, s))"
  by (simp add: guardE_def)

section \<open>Hoare triples\<close>

definition triple :: "('s \<Rightarrow> bool) \<Rightarrow> ('s, 'a) state \<Rightarrow> ('a \<Rightarrow> 's \<Rightarrow> bool) \<Rightarrow> bool" where
  "triple P m Q \<longleftrightarrow> (\<forall>s. P s \<longrightarrow> (case run_state m s of (x, t) \<Rightarrow> Q x t))"

lemma tripleI: "(\<And>s x t. P s \<Longrightarrow> run_state m s = (x, t) \<Longrightarrow> Q x t) \<Longrightarrow> triple P m Q"
  by (auto simp: triple_def)

lemma tripleD: "triple P m Q \<Longrightarrow> P s \<Longrightarrow> run_state m s = (x, t) \<Longrightarrow> Q x t"
  by (auto simp: triple_def)

lemma triple_conseq:
  "triple P' m Q' \<Longrightarrow> (\<And>s. P s \<Longrightarrow> P' s) \<Longrightarrow> (\<And>x s. Q' x s \<Longrightarrow> Q x s) \<Longrightarrow> triple P m Q"
  by (fastforce simp: triple_def)

lemma triple_conj:
  "triple P m Q \<Longrightarrow> triple P m R \<Longrightarrow> triple P m (\<lambda>x s. Q x s \<and> R x s)"
  by (fastforce simp: triple_def)

lemma triple_pre_conj:
  "triple P m Q \<Longrightarrow> triple P' m Q' \<Longrightarrow> triple (\<lambda>s. P s \<and> P' s) m (\<lambda>x s. Q x s \<and> Q' x s)"
  by (fastforce simp: triple_def)

lemma triple_return: "(\<And>s. P s \<Longrightarrow> Q x s) \<Longrightarrow> triple P (return x) Q"
  by (simp add: triple_def)

lemma triple_okE: "(\<And>s. P s \<Longrightarrow> Q (Inr x) s) \<Longrightarrow> triple P (okE x) Q"
  by (simp add: triple_def)

lemma triple_errE: "(\<And>s. P s \<Longrightarrow> Q (Inl e) s) \<Longrightarrow> triple P (errE e) Q"
  by (simp add: triple_def)

lemma triple_get: "(\<And>s. P s \<Longrightarrow> Q s s) \<Longrightarrow> triple P get_state Q"
  by (simp add: triple_def)

lemma triple_modify: "(\<And>s. P s \<Longrightarrow> Q () (f s)) \<Longrightarrow> triple P (modify f) Q"
  by (simp add: triple_def)

lemma triple_bind:
  assumes "triple P m R" and "\<And>x. triple (R x) (k x) Q"
  shows "triple P (State_Monad.bind m k) Q"
  using assms by (fastforce simp: triple_def split: prod.splits)

lemma triple_tryE:
  assumes "triple P m R" and "\<And>e s. R (Inl e) s \<Longrightarrow> Q (Inl e) s" and "\<And>x. triple (R (Inr x)) (k x) Q"
  shows "triple P (tryE m k) Q"
  using assms by (fastforce simp: triple_def split: prod.splits sum.splits)

lemma triple_if:
  "(b \<Longrightarrow> triple P m Q) \<Longrightarrow> (\<not> b \<Longrightarrow> triple P n Q) \<Longrightarrow> triple P (if b then m else n) Q"
  by simp

lemma triple_guardE:
  "(ok \<Longrightarrow> triple P k Q) \<Longrightarrow> (\<And>s. \<not> ok \<Longrightarrow> P s \<Longrightarrow> Q (Inl e) s) \<Longrightarrow> triple P (guardE ok e k) Q"
  by (auto simp: guardE_def intro: triple_errE)

lemma triple_case_option:
  "(x = None \<Longrightarrow> triple P m Q) \<Longrightarrow> (\<And>a. x = Some a \<Longrightarrow> triple P (k a) Q) \<Longrightarrow>
     triple P (case x of None \<Rightarrow> m | Some a \<Rightarrow> k a) Q"
  by (cases x) auto

lemma triple_case_sum:
  "(\<And>e. x = Inl e \<Longrightarrow> triple P (m e) Q) \<Longrightarrow> (\<And>a. x = Inr a \<Longrightarrow> triple P (k a) Q) \<Longrightarrow>
     triple P (case x of Inl e \<Rightarrow> m e | Inr a \<Rightarrow> k a) Q"
  by (cases x) auto

lemma triple_case_prod:
  "(\<And>x y. p = (x, y) \<Longrightarrow> triple P (m x y) Q) \<Longrightarrow> triple P (case p of (x, y) \<Rightarrow> m x y) Q"
  by (cases p) auto

lemma triple_pure: "(b \<Longrightarrow> triple P m Q) \<Longrightarrow> triple (\<lambda>s. b \<and> P s) m Q"
  by (auto simp: triple_def)

lemma triple_state: "(\<And>x. triple (\<lambda>s. P s \<and> s = x) (k x) Q) \<Longrightarrow> triple P (get_state \<bind> k) Q"
  by (auto simp: triple_def)

lemma triple_any_state: "(\<And>x. triple P (k x) Q) \<Longrightarrow> triple P (get_state \<bind> k) Q"
  by (auto simp: triple_def)

text \<open>A loop with an invariant indexed by the iterations already done.\<close>

lemma triple_forE:
  assumes "\<And>ys x zs. xs = ys @ x # zs \<Longrightarrow>
      triple (I ys) (f x) (\<lambda>r s. case r of Inl e \<Rightarrow> Q (Inl e) s | Inr _ \<Rightarrow> I (ys @ [x]) s)"
    and "\<And>s. I xs s \<Longrightarrow> Q (Inr ()) s"
  shows "triple (I []) (forE xs f) Q"
proof -
  have "triple (I ys) (forE zs f) Q" if "xs = ys @ zs" for ys zs
    using that
  proof (induction zs arbitrary: ys)
    case Nil
    with assms(2) show ?case by (auto intro: triple_okE)
  next
    case (Cons z zs)
    have "triple (I ys) (f z) (\<lambda>r s. case r of Inl e \<Rightarrow> Q (Inl e) s | Inr _ \<Rightarrow> I (ys @ [z]) s)"
      using assms(1) [OF Cons.prems] .
    moreover have "triple (I (ys @ [z])) (forE zs f) Q"
      using Cons by simp
    ultimately show ?case
      by (auto intro: triple_tryE)
  qed
  then show ?thesis by simp
qed

lemma triple_for_all:
  assumes "\<And>x. x \<in> set xs \<Longrightarrow> triple I (f x) (\<lambda>_. I)"
  shows "triple I (for_all xs f) (\<lambda>_. I)"
  using assms
proof (induction xs)
  case Nil
  then show ?case by (auto intro: triple_return)
next
  case (Cons x xs)
  then have "triple I (f x) (\<lambda>_. I)" and "triple I (for_all xs f) (\<lambda>_. I)" by simp_all
  then show ?case by (auto intro!: triple_bind triple_return)
qed

section \<open>Invariants\<close>

text \<open>The special case of a property every outcome keeps.\<close>

definition keeps :: "('s \<Rightarrow> bool) \<Rightarrow> ('s, 'a) state \<Rightarrow> bool" where
  "keeps I m \<longleftrightarrow> triple I m (\<lambda>_. I)"

lemma keepsI: "(\<And>s. I s \<Longrightarrow> I (snd (run_state m s))) \<Longrightarrow> keeps I m"
  by (auto simp: keeps_def triple_def split: prod.splits) (metis snd_conv)

lemma keepsD: "keeps I m \<Longrightarrow> I s \<Longrightarrow> I (snd (run_state m s))"
  by (cases "run_state m s") (fastforce simp: keeps_def triple_def)

lemma keeps_run: "keeps I m \<Longrightarrow> I s \<Longrightarrow> run_state m s = (x, t) \<Longrightarrow> I t"
  using keepsD by fastforce

named_theorems keeps_intros "introduction rules for invariants of computations"

lemma keeps_return [keeps_intros]: "keeps I (return x)"
  by (simp add: keeps_def triple_def)

lemma keeps_okE [keeps_intros]: "keeps I (okE x)"
  by (simp add: keeps_def triple_def)

lemma keeps_errE [keeps_intros]: "keeps I (errE x)"
  by (simp add: keeps_def triple_def)

lemma keeps_get [keeps_intros]: "keeps I get_state"
  by (simp add: keeps_def triple_def)

lemma keeps_bind [keeps_intros]: "keeps I m \<Longrightarrow> (\<And>x. keeps I (k x)) \<Longrightarrow> keeps I (State_Monad.bind m k)"
  unfolding keeps_def by (rule triple_bind)

lemma keeps_tryE [keeps_intros]: "keeps I m \<Longrightarrow> (\<And>x. keeps I (k x)) \<Longrightarrow> keeps I (tryE m k)"
  unfolding keeps_def by (rule triple_tryE) auto

lemma keeps_if [keeps_intros]: "(b \<Longrightarrow> keeps I m) \<Longrightarrow> (\<not> b \<Longrightarrow> keeps I n) \<Longrightarrow> keeps I (if b then m else n)"
  by simp

lemma keeps_guardE [keeps_intros]: "(ok \<Longrightarrow> keeps I k) \<Longrightarrow> keeps I (guardE ok e k)"
  by (simp add: guardE_def keeps_errE)

lemma keeps_case_option [keeps_intros]:
  "(x = None \<Longrightarrow> keeps I m) \<Longrightarrow> (\<And>a. x = Some a \<Longrightarrow> keeps I (k a)) \<Longrightarrow>
     keeps I (case x of None \<Rightarrow> m | Some a \<Rightarrow> k a)"
  by (cases x) auto

lemma keeps_case_sum [keeps_intros]:
  "(\<And>e. x = Inl e \<Longrightarrow> keeps I (m e)) \<Longrightarrow> (\<And>a. x = Inr a \<Longrightarrow> keeps I (k a)) \<Longrightarrow>
     keeps I (case x of Inl e \<Rightarrow> m e | Inr a \<Rightarrow> k a)"
  by (cases x) auto

lemma keeps_case_prod [keeps_intros]:
  "(\<And>x y. p = (x, y) \<Longrightarrow> keeps I (m x y)) \<Longrightarrow> keeps I (case p of (x, y) \<Rightarrow> m x y)"
  by (cases p) auto

lemma keeps_forE [keeps_intros]: "(\<And>x. x \<in> set xs \<Longrightarrow> keeps I (f x)) \<Longrightarrow> keeps I (forE xs f)"
  by (induction xs) (auto intro!: keeps_okE keeps_tryE)

lemma keeps_for_all [keeps_intros]: "(\<And>x. x \<in> set xs \<Longrightarrow> keeps I (f x)) \<Longrightarrow> keeps I (for_all xs f)"
  unfolding keeps_def by (rule triple_for_all)

lemma keeps_modify: "(\<And>s. I s \<Longrightarrow> I (f s)) \<Longrightarrow> keeps I (modify f)"
  by (simp add: keeps_def triple_def)

lemma keeps_conj: "keeps I m \<Longrightarrow> keeps J m \<Longrightarrow> keeps (\<lambda>s. I s \<and> J s) m"
  by (auto simp: keeps_def triple_def split: prod.splits)

end
