(* ===== verification/Task_Envelope.thy ===== *)
theory Task_Envelope
  imports Canonical
begin

text \<open>
  Signed task envelopes (\<open>internal/migration/task.go\<close>) and the typed access to their inputs
  (\<open>broker.go\<close>, \<open>executor.go\<close>, \<open>quiescence.go\<close>). Both the unprivileged runner and the root broker
  verify the same envelope, each against its own replay memory.

  The cryptographic primitives are parameters, collected in a record: \<open>float_text\<close> and \<open>sha256_hex\<close>
  as in \<^theory_text>\<open>Canonical\<close>, \<open>sig_ok m s\<close> for an Ed25519 signature \<open>s\<close> (base64url text) over the
  bytes \<open>m\<close> under the pinned backend key.
\<close>

section \<open>Data\<close>

record crypto =
  float_text :: "int \<Rightarrow> nat \<Rightarrow> string"
  sha256_hex :: "string \<Rightarrow> string"
  sig_ok :: "string \<Rightarrow> string \<Rightarrow> bool"

record PrimitiveRef =
  p_id :: string
  p_version :: string

record TaskEnvelope =
  t_schema_version :: string
  t_key_id :: string
  t_algorithm :: string
  t_audience :: string
  t_agent_id :: string
  t_endpoint_id :: string
  t_migration_id :: string
  t_run_id :: "string option"
  t_run_step_id :: "string option"
  t_attempt_id :: string
  t_attempt_token :: string
  t_fencing_token :: int64
  t_plan_digest :: "string option"
  t_subject_digest :: string
  t_primitive :: PrimitiveRef
  t_resource_scope :: "jobj option"
  t_inputs :: "jobj option"
  t_issued_at :: stamp
  t_expires_at :: stamp
  t_nonce :: string
  t_signature :: string

section \<open>Typed inputs\<close>

datatype input_err =
    Required string
  | ItemCount string
  | InvalidItem string
  | NotInteger string
  | OutOfBounds string
  | InvalidDigestInput string

text \<open>The type assertion \<open>v, _ := m[key].(string)\<close>: the zero value when absent or of another type.\<close>

definition string_of :: "jobj \<Rightarrow> string \<Rightarrow> string" where
  "string_of m key = (case map_of m key of Some (JStr s) \<Rightarrow> s | _ \<Rightarrow> [])"

definition taskInputs :: "TaskEnvelope \<Rightarrow> jobj" where
  "taskInputs task =
     (let ins = entries (t_inputs task) in
      case map_of ins ''inputs'' of Some (JObj nested) \<Rightarrow> nested | _ \<Rightarrow> ins)"

definition stringInput :: "jobj \<Rightarrow> string \<Rightarrow> input_err + string" where
  "stringInput inputs key =
     (case map_of inputs key of
        Some (JStr v) \<Rightarrow> if v = [] then Inl (Required key) else Inr v
      | _ \<Rightarrow> Inl (Required key))"

fun string_items :: "string \<Rightarrow> jval list \<Rightarrow> input_err + string list" where
  "string_items key [] = Inr []"
| "string_items key (item # items) =
     (case item of
        JStr v \<Rightarrow>
          if v = [] then Inl (InvalidItem key)
          else (case string_items key items of Inl e \<Rightarrow> Inl e | Inr vs \<Rightarrow> Inr (v # vs))
      | _ \<Rightarrow> Inl (InvalidItem key))"

definition stringListInput :: "jobj \<Rightarrow> string \<Rightarrow> nat \<Rightarrow> input_err + string list" where
  "stringListInput inputs key maximum =
     (case map_of inputs key of
        Some (JArr raw) \<Rightarrow>
          if raw = [] \<or> length raw > maximum then Inl (ItemCount key) else string_items key raw
      | _ \<Rightarrow> Inl (ItemCount key))"

text \<open>A float converts when it is integral and fits; outside the range the conversion does not
  give the float back, so the comparison refuses it.\<close>

definition integer_value :: "jval option \<Rightarrow> int64 option" where
  "integer_value v =
     (case v of
        Some (JFloat m k) \<Rightarrow> if 2 ^ k dvd m \<and> in_int64 (m div 2 ^ k) then Some (m div 2 ^ k) else None
      | Some (JNumber t) \<Rightarrow> parse_int64 t
      | Some (JInt i) \<Rightarrow> Some i
      | _ \<Rightarrow> None)"

definition boundedIntegerInput :: "jobj \<Rightarrow> string \<Rightarrow> int64 \<Rightarrow> int64 \<Rightarrow> input_err + int64" where
  "boundedIntegerInput inputs key minimum maximum =
     (case integer_value (map_of inputs key) of
        None \<Rightarrow> Inl (NotInteger key)
      | Some v \<Rightarrow> if v < minimum \<or> v > maximum then Inl (OutOfBounds key) else Inr v)"

section \<open>Verification\<close>

definition opt_str :: "string option \<Rightarrow> jval" where
  "opt_str s = (case s of None \<Rightarrow> JNull | Some v \<Rightarrow> JStr v)"

definition opt_obj :: "jobj option \<Rightarrow> jval" where
  "opt_obj m = (case m of None \<Rightarrow> JNull | Some kvs \<Rightarrow> JObj kvs)"

definition envelopeUnsigned :: "TaskEnvelope \<Rightarrow> jval" where
  "envelopeUnsigned task = JObj [
     (''schema_version'', JStr (t_schema_version task)), (''key_id'', JStr (t_key_id task)),
     (''algorithm'', JStr (t_algorithm task)), (''audience'', JStr (t_audience task)),
     (''agent_id'', JStr (t_agent_id task)), (''endpoint_id'', JStr (t_endpoint_id task)),
     (''migration_id'', JStr (t_migration_id task)), (''run_id'', opt_str (t_run_id task)),
     (''run_step_id'', opt_str (t_run_step_id task)), (''attempt_id'', JStr (t_attempt_id task)),
     (''attempt_token'', JStr (t_attempt_token task)), (''fencing_token'', JInt (t_fencing_token task)),
     (''plan_digest'', opt_str (t_plan_digest task)), (''subject_digest'', JStr (t_subject_digest task)),
     (''primitive'', JObj [(''id'', JStr (p_id (t_primitive task))), (''version'', JStr (p_version (t_primitive task)))]),
     (''resource_scope'', opt_obj (t_resource_scope task)), (''inputs'', opt_obj (t_inputs task)),
     (''issued_at'', JStr (stamp_text (t_issued_at task))), (''expires_at'', JStr (stamp_text (t_expires_at task))),
     (''nonce'', JStr (t_nonce task))]"

datatype envelope_err =
    UnsupportedContract
  | AudienceMismatch
  | InvalidWindow
  | InvalidAttemptFields
  | SubjectDigestMismatch
  | InvalidSignature

definition in_window :: "int \<Rightarrow> TaskEnvelope \<Rightarrow> bool" where
  "in_window now task =
     (case (parse_time (t_issued_at task), parse_time (t_expires_at task)) of
        (Some issuedAt, Some expiresAt) \<Rightarrow>
          \<not> (expiresAt < now \<or> issuedAt > now + seconds 30 \<or> expiresAt - issuedAt > seconds 600)
      | _ \<Rightarrow> False)"

definition envelope_digest :: "crypto \<Rightarrow> TaskEnvelope \<Rightarrow> string" where
  "envelope_digest c task = Digest (float_text c) (sha256_hex c)
     (JObj [(''envelope'', envelopeUnsigned task), (''signature'', JStr (t_signature task))])"

definition verifySignedTaskEnvelope ::
  "crypto \<Rightarrow> int \<Rightarrow> TaskEnvelope \<Rightarrow> string \<Rightarrow> string \<Rightarrow> envelope_err + string" where
  "verifySignedTaskEnvelope c now task backendKeyID agentID =
     (if t_schema_version task \<noteq> ''operations.migration.task.v1'' \<or> t_algorithm task \<noteq> ''ed25519-v1''
         \<or> t_audience task \<noteq> ''askio-monitor'' then Inl UnsupportedContract
      else if t_key_id task \<noteq> backendKeyID \<or> t_agent_id task \<noteq> agentID then Inl AudienceMismatch
      else if \<not> in_window now task then Inl InvalidWindow
      else if t_endpoint_id task = [] \<or> t_migration_id task = [] \<or> p_id (t_primitive task) = []
              \<or> p_version (t_primitive task) = [] \<or> t_fencing_token task < 1 \<or> t_attempt_id task = []
              \<or> length (t_attempt_token task) < 32 \<or> t_nonce task = [] then Inl InvalidAttemptFields
      else if Digest (float_text c) (sha256_hex c) (opt_obj (t_inputs task)) \<noteq> t_subject_digest task
        then Inl SubjectDigestMismatch
      else if \<not> sig_ok c (CanonicalJSON (float_text c) (envelopeUnsigned task)) (t_signature task)
        then Inl InvalidSignature
      else Inr (envelope_digest c task))"

lemma verified_envelopeD:
  assumes "verifySignedTaskEnvelope c now task kid aid = Inr d"
  shows "t_key_id task = kid" "t_agent_id task = aid" "in_window now task" "t_fencing_token task \<ge> 1"
    "t_nonce task \<noteq> []" "t_attempt_id task \<noteq> []"
    "sig_ok c (CanonicalJSON (float_text c) (envelopeUnsigned task)) (t_signature task)"
    "d = envelope_digest c task"
  using assms unfolding verifySignedTaskEnvelope_def by (auto split: if_splits)

lemma in_window_expiry:
  "in_window now task \<Longrightarrow> \<exists>e. t_expires_at task = Stamp e \<and> now \<le> e"
  by (cases "t_expires_at task") (auto simp: in_window_def split: option.splits)

end
