(* ===== verification/Broker_Host.thy ===== *)
theory Broker_Host
  imports Go_Effects Scope Task_Envelope
begin

unbundle bit_operations_syntax

text \<open>
  The state of the root broker (\<open>internal/migration/broker.go\<close>) and the host it acts on: the
  in-memory state, the state file, the directory of writer-fence markers, the systemd drop-ins,
  and the running services. This theory holds the primitive actions with their failures, the
  boot inhibitors of \<open>writer_fence_inhibitor.go\<close>, and the durable state file.

  The service manager is a parameter (\<open>svcmgr\<close>): what \<open>systemctl\<close> does to the world and whether a
  unit is active there. Every action on the host consumes one entry of the script \<open>b_env\<close>: it may
  succeed, fail before or after taking effect, or the process may stop there; before it, time
  passes and the world may be replaced (a service started or stopped by somebody else). The empty
  script is the run without incident. A stopped process (\<open>b_dead\<close>) acts no more; a restart
  is a step of the state machine in \<^theory_text>\<open>Broker\<close>.
\<close>

section \<open>State\<close>

datatype fence_phase =
    NoPhase
  | writerFenceActivating
  | writerFenceActive
  | writerFenceReleasing
  | writerFenceReleaseAuthorized
  | writerFenceReleased
  | OtherPhase string

record writerFenceState =
  f_migration_id :: string
  f_run_id :: string
  f_services :: "string list"
  f_previously_active :: "string list option"
  f_active :: bool
  f_phase :: fence_phase
  f_fencing_token :: int64
  f_activated_at :: stamp
  f_last_verified_at :: stamp
  f_violation_count :: int64
  f_last_violation :: stamp
  f_watchdog_error_count :: int64
  f_last_watchdog_error :: stamp

definition zero_fence :: writerFenceState where
  "zero_fence = \<lparr>f_migration_id = [], f_run_id = [], f_services = [], f_previously_active = None,
     f_active = False, f_phase = NoPhase, f_fencing_token = 0, f_activated_at = Unset,
     f_last_verified_at = Unset, f_violation_count = 0, f_last_violation = Unset,
     f_watchdog_error_count = 0, f_last_watchdog_error = Unset\<rparr>"

record brokerPersistentState =
  s_schema_version :: string
  s_fences :: "(string, int64) gomap"
  s_writer_fences :: "(string, writerFenceState) gomap"
  s_seen_nonces :: "string list"
  s_seen_nonce_expiries :: "(string, stamp) gomap"

text \<open>The state file as JSON: a member left out by \<open>omitempty\<close>, absent or \<open>null\<close> is \<^const>\<open>None\<close>.\<close>

record brokerStateDoc =
  d_schema_version :: string
  d_fences :: "(string, int64) gomap option"
  d_writer_fences :: "(string, writerFenceState) gomap option"
  d_seen_nonces :: "string list option"
  d_seen_nonce_expiries :: "(string, stamp) gomap option"

datatype state_file = Undecodable | Document brokerStateDoc

record finfo =
  fi_kind :: fkind
  fi_perm :: nat
  fi_uid :: nat

type_synonym host_file = "finfo \<times> string"

datatype outcome = Done | Fail_clean | Fail_dirty | Crash_clean | Crash_dirty

record 'w incident =
  e_outcome :: outcome
  e_world :: "'w option"
  e_delay :: nat

record 'w svcmgr =
  sm_operate :: "string \<Rightarrow> string \<Rightarrow> 'w \<Rightarrow> 'w"
  sm_active :: "'w \<Rightarrow> string \<Rightarrow> bool"

record 'w broker =
  b_allowed :: "string list"
  b_state :: brokerPersistentState
  b_state_file :: "state_file option"
  b_marker_root :: string
  b_marker_dir :: "finfo option"
  b_markers :: "(string, host_file) gomap"
  b_drop_ins :: "(string, host_file) gomap"
  b_world :: 'w
  b_systemctl :: bool
  b_env :: "'w incident list"
  b_dead :: bool
  b_clock :: int

datatype berr =
    HostIO
  | Halted
  | BadInput input_err
  | RunScopeRequired
  | ServiceFormat
  | ServiceNotPreconfigured
  | ControllerUnavailable
  | DropInMissing
  | MarkerDirUnsafe
  | MarkerUnsafe
  | MarkerUnknown
  | MarkerContent
  | OrphanMarker
  | InvalidServiceInState
  | UnsupportedStateSchema
  | StateUndecodable
  | AlreadyConsumed
  | ExpiryInvalid
  | StaleFencingToken
  | FencedByOther
  | OwnershipUnproven
  | StateNotProvable
  | NotInactive
  | ActivationIncomplete
  | ReleaseUnproven
  | ReleaseWhileActive
  | ReleaseRolledBack
  | InvalidAuthorization
  | ReconcileFailed
  | UnsupportedOperation
  | NotImplemented

type_synonym ('w, 'a) bop = "('w broker, berr, 'a) op"

section \<open>Primitive actions\<close>

definition next_incident :: "'w broker \<Rightarrow> outcome \<times> 'w broker" where
  "next_incident b =
     (case b_env b of
        [] \<Rightarrow> (Done, b)
      | e # es \<Rightarrow> (e_outcome e, b\<lparr>b_env := es, b_clock := b_clock b + int (e_delay e),
                    b_world := (case e_world e of None \<Rightarrow> b_world b | Some w \<Rightarrow> w)\<rparr>))"

text \<open>\<open>attempt eff partial\<close>: an action whose whole effect is \<open>eff\<close> and which, failing or
  interrupted half-way, leaves \<open>partial\<close>.\<close>

definition attempt :: "('w broker \<Rightarrow> 'w broker) \<Rightarrow> ('w broker \<Rightarrow> 'w broker) \<Rightarrow> ('w, unit) bop" where
  "attempt eff partial = State (\<lambda>b.
     if b_dead b then (Inl Halted, b)
     else case next_incident b of (oc, b') \<Rightarrow>
       (case oc of
          Done \<Rightarrow> (Inr (), eff b')
        | Fail_clean \<Rightarrow> (Inl HostIO, b')
        | Fail_dirty \<Rightarrow> (Inl HostIO, partial b')
        | Crash_clean \<Rightarrow> (Inl Halted, b'\<lparr>b_dead := True\<rparr>)
        | Crash_dirty \<Rightarrow> (Inl Halted, (partial b')\<lparr>b_dead := True\<rparr>)))"

abbreviation action :: "('w broker \<Rightarrow> 'w broker) \<Rightarrow> ('w, unit) bop" where
  "action eff \<equiv> attempt eff eff"

definition Operate :: "'w svcmgr \<Rightarrow> string \<Rightarrow> string \<Rightarrow> ('w, unit) bop" where
  "Operate sm act service = action (\<lambda>b. b\<lparr>b_world := sm_operate sm act service (b_world b)\<rparr>)"

definition IsActive :: "'w svcmgr \<Rightarrow> string \<Rightarrow> ('w, bool) bop" where
  "IsActive sm service = tryE (action id) (\<lambda>_. do {
     b \<leftarrow> get_state; okE (sm_active sm (b_world b) service) })"

definition time_now :: "('w broker, int) state" where
  "time_now = do { b \<leftarrow> get_state; return (b_clock b) }"

definition put_fence :: "string \<Rightarrow> writerFenceState \<Rightarrow> 'w broker \<Rightarrow> 'w broker" where
  "put_fence mid f b = b\<lparr>b_state := (b_state b)\<lparr>s_writer_fences := go_put mid f (s_writer_fences (b_state b))\<rparr>\<rparr>"

definition del_fence :: "string \<Rightarrow> 'w broker \<Rightarrow> 'w broker" where
  "del_fence mid b = b\<lparr>b_state := (b_state b)\<lparr>s_writer_fences := go_del mid (s_writer_fences (b_state b))\<rparr>\<rparr>"

definition writer_fence :: "'w broker \<Rightarrow> string \<Rightarrow> writerFenceState option" where
  "writer_fence b mid = map_of (s_writer_fences (b_state b)) mid"

section \<open>The durable state file\<close>

definition omit_empty :: "'a list option \<Rightarrow> 'a list option" where
  "omit_empty xs = (if xs = Some [] then None else xs)"

definition marshal_fence :: "writerFenceState \<Rightarrow> writerFenceState" where
  "marshal_fence f = f\<lparr>f_previously_active := omit_empty (f_previously_active f)\<rparr>"

definition marshal_state :: "brokerPersistentState \<Rightarrow> brokerStateDoc" where
  "marshal_state s = \<lparr>d_schema_version = s_schema_version s, d_fences = Some (s_fences s),
     d_writer_fences = omit_empty (Some (map (map_prod id marshal_fence) (s_writer_fences s))),
     d_seen_nonces = omit_empty (Some (s_seen_nonces s)),
     d_seen_nonce_expiries = omit_empty (Some (s_seen_nonce_expiries s))\<rparr>"

text \<open>\<open>persistFences\<close> writes a temporary file, syncs it, renames it over the state file and syncs
  the directory: before the rename nothing has changed, after it the new document is in place.\<close>

definition persistFences :: "('w, unit) bop" where
  "persistFences = action (\<lambda>b. b\<lparr>b_state_file := Some (Document (marshal_state (b_state b)))\<rparr>)"

definition upgrade_fence :: "writerFenceState \<Rightarrow> writerFenceState" where
  "upgrade_fence f =
     (if f_phase f = NoPhase then
        (if f_active f then
           f\<lparr>f_phase := writerFenceActive,
             f_previously_active := (case f_previously_active f of None \<Rightarrow> Some (f_services f) | Some ps \<Rightarrow> Some ps)\<rparr>
         else f\<lparr>f_phase := writerFenceReleased\<rparr>)
      else f)"

definition initial_state :: brokerPersistentState where
  "initial_state = \<lparr>s_schema_version = ''operations.migration.broker-state.v1'', s_fences = [],
     s_writer_fences = [], s_seen_nonces = [], s_seen_nonce_expiries = []\<rparr>"

definition loadFences :: "state_file option \<Rightarrow> berr + brokerPersistentState" where
  "loadFences file =
     (case file of
        None \<Rightarrow> Inr initial_state
      | Some Undecodable \<Rightarrow> Inl StateUndecodable
      | Some (Document d) \<Rightarrow>
          if d_schema_version d \<noteq> ''operations.migration.broker-state.v1'' \<or> d_fences d = None
          then Inl UnsupportedStateSchema
          else Inr \<lparr>s_schema_version = d_schema_version d, s_fences = entries (d_fences d),
                 s_writer_fences = map (map_prod id upgrade_fence) (entries (d_writer_fences d)),
                 s_seen_nonces = entries (d_seen_nonces d),
                 s_seen_nonce_expiries = entries (d_seen_nonce_expiries d)\<rparr>)"

section \<open>Boot inhibitors\<close>

definition service_name_ok :: "string \<Rightarrow> bool" where
  "service_name_ok s \<longleftrightarrow>
     has_suffix s ''.service'' \<and> length s > length ''.service'' \<and>
     list_all (\<lambda>c. (CHR ''A'' \<le> c \<and> c \<le> CHR ''Z'') \<or> (CHR ''a'' \<le> c \<and> c \<le> CHR ''z'') \<or> is_digit c
        \<or> c \<in> set ''@_.-'') s"

definition serviceFenceMarkerRoot :: "'w broker \<Rightarrow> string" where
  "serviceFenceMarkerRoot b =
     (if b_marker_root b \<noteq> [] then b_marker_root b else ''/var/lib/askio-migration-broker/service-fences'')"

text \<open>The entry name of a service's marker in the marker directory.\<close>

definition marker_name :: "string \<Rightarrow> string" where
  "marker_name service = service @ ''.fenced''"

definition serviceFenceMarker :: "'w broker \<Rightarrow> string \<Rightarrow> string" where
  "serviceFenceMarker b service = path_join (serviceFenceMarkerRoot b) (marker_name service)"

definition expected_live :: "writerFenceState \<Rightarrow> bool" where
  "expected_live f \<longleftrightarrow> f_active f \<or> f_phase f = writerFenceReleaseAuthorized"

definition live_services :: "(string, writerFenceState) gomap \<Rightarrow> string list" where
  "live_services fs = concat (map (\<lambda>(_, f). if expected_live f then f_services f else []) fs)"

definition expectedServiceFenceMarkers :: "'w broker \<Rightarrow> berr + string list" where
  "expectedServiceFenceMarkers b =
     (let expected = live_services (s_writer_fences (b_state b)) in
      if list_all (\<lambda>s. service_name_ok s \<and> s \<in> set (b_allowed b)) expected
      then Inr expected else Inl InvalidServiceInState)"

definition newline :: string where
  "newline = [CHR 0x0A]"

definition expectedServiceFenceDropIn :: "'w broker \<Rightarrow> string \<Rightarrow> string" where
  "expectedServiceFenceDropIn b service =
     ''[Unit]'' @ newline @ ''Requires=askio-migration-broker.service'' @ newline @
     ''After=askio-migration-broker.service'' @ newline @
     ''ConditionPathExists=!'' @ serviceFenceMarker b service @ newline"

definition verifyServiceFenceDropIn :: "'w broker \<Rightarrow> string \<Rightarrow> bool" where
  "verifyServiceFenceDropIn b service =
     (case map_of (b_drop_ins b) service of
        None \<Rightarrow> False
      | Some (info, content) \<Rightarrow>
          content = expectedServiceFenceDropIn b service \<and> fi_kind info = FRegular
          \<and> fi_perm info AND 18 = 0 \<and> fi_uid info = 0)"

definition marker_content :: string where
  "marker_content = ''fenced'' @ newline"

definition check_marker :: "'w broker \<Rightarrow> string list \<Rightarrow> string \<times> host_file \<Rightarrow> berr option" where
  "check_marker b expected e =
     (let name = fst e; info = fst (snd e); service = trim_suffix name ''.fenced'' in
      if \<not> has_suffix name ''.fenced'' then Some MarkerUnknown
      else if \<not> service_name_ok service then Some MarkerUnknown
      else if service \<notin> set (b_allowed b) then Some MarkerUnknown
      else if fi_kind info \<noteq> FRegular \<or> fi_perm info \<noteq> 384 then Some MarkerUnsafe
      else if fi_uid info \<noteq> 0 then Some MarkerUnsafe
      else if snd (snd e) \<noteq> marker_content then Some MarkerContent
      else if \<not> verifyServiceFenceDropIn b service then Some DropInMissing
      else if service \<notin> set expected then Some OrphanMarker
      else None)"

fun check_markers :: "'w broker \<Rightarrow> string list \<Rightarrow> (string \<times> host_file) list \<Rightarrow> berr option" where
  "check_markers b expected [] = None"
| "check_markers b expected (e # es) =
     (case check_marker b expected e of Some err \<Rightarrow> Some err | None \<Rightarrow> check_markers b expected es)"

definition validateServiceFenceMarkers :: "'w broker \<Rightarrow> berr option" where
  "validateServiceFenceMarkers b =
     (case expectedServiceFenceMarkers b of
        Inl e \<Rightarrow> Some e
      | Inr expected \<Rightarrow>
          (case b_marker_dir b of
             None \<Rightarrow> None
           | Some info \<Rightarrow>
               if fi_kind info \<noteq> FDir \<or> fi_perm info \<noteq> 448 then Some MarkerDirUnsafe
               else if fi_uid info \<noteq> 0 then Some MarkerDirUnsafe
               else check_markers b expected (b_markers b)))"

definition requireOwnedDirectory :: "finfo option \<Rightarrow> nat \<Rightarrow> bool" where
  "requireOwnedDirectory dir permission =
     (case dir of
        None \<Rightarrow> False
      | Some info \<Rightarrow> fi_kind info = FDir \<and> fi_perm info = permission \<and> fi_uid info = 0)"

definition mkdir_markers :: "'w broker \<Rightarrow> 'w broker" where
  "mkdir_markers b =
     (case b_marker_dir b of
        None \<Rightarrow> b\<lparr>b_marker_dir := Some \<lparr>fi_kind = FDir, fi_perm = 448, fi_uid = 0\<rparr>\<rparr>
      | Some _ \<Rightarrow> b)"

definition chmod_markers :: "'w broker \<Rightarrow> 'w broker" where
  "chmod_markers b =
     (case b_marker_dir b of
        Some info \<Rightarrow> if fi_kind info = FSymlink then b else b\<lparr>b_marker_dir := Some (info\<lparr>fi_perm := 448\<rparr>)\<rparr>
      | None \<Rightarrow> b)"

definition write_marker :: "string \<Rightarrow> string \<Rightarrow> 'w broker \<Rightarrow> 'w broker" where
  "write_marker service content b =
     b\<lparr>b_markers := go_put (marker_name service)
         (\<lparr>fi_kind = FRegular, fi_perm = 384, fi_uid = 0\<rparr>, content) (b_markers b)\<rparr>"

definition install_marker :: "string \<Rightarrow> ('w, unit) bop" where
  "install_marker service = do {
     b \<leftarrow> get_state;
     case map_of (b_markers b) (marker_name service) of
       Some (info, _) \<Rightarrow>
         guardE (fi_kind info = FRegular \<and> fi_perm info AND 63 = 0 \<and> fi_uid info = 0) MarkerUnsafe (okE ())
     | None \<Rightarrow>
         tryE (attempt (write_marker service marker_content) (write_marker service [])) (\<lambda>_. action id) }"

definition activateServiceFenceInhibitors :: "string list \<Rightarrow> ('w, unit) bop" where
  "activateServiceFenceInhibitors services = do {
     b \<leftarrow> get_state;
     guardE (list_all (verifyServiceFenceDropIn b) services) DropInMissing (
     guardE (case b_marker_dir b of None \<Rightarrow> True | Some info \<Rightarrow> fi_kind info = FDir \<or> fi_kind info = FSymlink) MarkerDirUnsafe (
     tryE (action mkdir_markers) (\<lambda>_.
     tryE (action chmod_markers) (\<lambda>_. do {
       b \<leftarrow> get_state;
       guardE (requireOwnedDirectory (b_marker_dir b) 448) MarkerDirUnsafe (
       tryE (forE services install_marker) (\<lambda>_. action id)) })))) }"

definition remove_marker :: "string \<Rightarrow> 'w broker \<Rightarrow> 'w broker" where
  "remove_marker service b = b\<lparr>b_markers := go_del (marker_name service) (b_markers b)\<rparr>"

definition release_marker :: "string \<Rightarrow> ('w, unit) bop" where
  "release_marker service = do {
     b \<leftarrow> get_state;
     guardE (verifyServiceFenceDropIn b service) DropInMissing (action (remove_marker service)) }"

definition releaseServiceFenceInhibitors :: "string list \<Rightarrow> ('w, unit) bop" where
  "releaseServiceFenceInhibitors services =
     tryE (forE services release_marker) (\<lambda>_. do {
       b \<leftarrow> get_state;
       if b_marker_dir b = None then okE () else action id })"

definition intersectsServices :: "string list \<Rightarrow> string list \<Rightarrow> bool" where
  "intersectsServices left right \<longleftrightarrow> list_ex (\<lambda>l. list_ex (equal_fold l) right) left"

end
