(* ===== verification/Writer_Fence.thy ===== *)
theory Writer_Fence
  imports Broker_Host "HOL-Library.Product_Lexorder"
begin

text \<open>
  The writer fence of the root broker (\<open>internal/migration/broker.go\<close>): stopping the writers of a
  migration source and keeping them stopped until an authorised release. This theory holds the
  operations; \<^theory_text>\<open>Fence_Safety\<close> and \<^theory_text>\<open>Broker\<close> hold their properties. All of them run under
  \<open>writerFenceMu\<close>, one at a time.
\<close>

section \<open>Helpers\<close>

definition brokerTaskRunID :: "TaskEnvelope \<Rightarrow> berr + string" where
  "brokerTaskRunID task =
     (case (t_run_id task, t_run_step_id task) of
        (Some r, Some st) \<Rightarrow> if r = [] \<or> st = [] then Inl RunScopeRequired else Inr r
      | _ \<Rightarrow> Inl RunScopeRequired)"

fun equalStrings :: "string list \<Rightarrow> string list \<Rightarrow> bool" where
  "equalStrings [] [] \<longleftrightarrow> True"
| "equalStrings (l # ls) (r # rs) \<longleftrightarrow> l = r \<and> equalStrings ls rs"
| "equalStrings _ _ \<longleftrightarrow> False"

lemma equalStrings_eq [simp]: "equalStrings ls rs \<longleftrightarrow> ls = rs"
  by (induction ls rs rule: equalStrings.induct) auto

primrec active_loop :: "'w svcmgr \<Rightarrow> string list \<Rightarrow> string list \<Rightarrow> ('w broker, string list option) state" where
  "active_loop sm [] active = return (Some active)"
| "active_loop sm (service # services) active = do {
     r \<leftarrow> IsActive sm service;
     case r of
       Inl _ \<Rightarrow> return None
     | Inr isActive \<Rightarrow> active_loop sm services (if isActive then active @ [service] else active) }"

definition previouslyActiveServices :: "'w svcmgr \<Rightarrow> string list \<Rightarrow> ('w broker, string list option) state" where
  "previouslyActiveServices sm services = active_loop sm services []"

definition verifyExpectedServiceStates :: "'w svcmgr \<Rightarrow> string list \<Rightarrow> string list \<Rightarrow> ('w, unit) bop" where
  "verifyExpectedServiceStates sm services expectedActive = forE services (\<lambda>service.
     tryE (IsActive sm service) (\<lambda>active.
     guardE (active = (service \<in> set expectedActive)) StateNotProvable (okE ())))"

definition verifyServicesInactive :: "'w svcmgr \<Rightarrow> string list \<Rightarrow> ('w, unit) bop" where
  "verifyServicesInactive sm services = forE services (\<lambda>service.
     tryE (IsActive sm service) (\<lambda>active. guardE (\<not> active) NotInactive (okE ())))"

definition stop_all :: "'w svcmgr \<Rightarrow> string list \<Rightarrow> ('w broker, bool) state" where
  "stop_all sm services = for_all services (Operate sm ''stop'')"

definition jstrs :: "string list \<Rightarrow> jval" where
  "jstrs xs = JArr (map JStr xs)"

definition jstamp :: "stamp \<Rightarrow> jval" where
  "jstamp t = JStr (stamp_text t)"

section \<open>Activation\<close>

definition conflicting :: "'w broker \<Rightarrow> string \<Rightarrow> string list \<Rightarrow> bool" where
  "conflicting b mid services \<longleftrightarrow>
     list_ex (\<lambda>(m, f). m \<noteq> mid \<and> f_active f \<and> intersectsServices (f_services f) services)
       (s_writer_fences (b_state b))"

definition intent_fence :: "writerFenceState \<Rightarrow> TaskEnvelope \<Rightarrow> string \<Rightarrow> string list \<Rightarrow> string list \<Rightarrow> writerFenceState" where
  "intent_fence prior task runID services previouslyActive =
     prior\<lparr>f_migration_id := t_migration_id task, f_run_id := runID, f_services := services,
       f_previously_active := Some previouslyActive, f_active := True, f_phase := writerFenceActivating,
       f_fencing_token := t_fencing_token task\<rparr>"

definition confirm_fence :: "writerFenceState \<Rightarrow> int \<Rightarrow> writerFenceState" where
  "confirm_fence f now =
     f\<lparr>f_phase := writerFenceActive,
       f_activated_at := (if f_activated_at f = Unset then Stamp now else f_activated_at f),
       f_last_verified_at := Stamp now\<rparr>"

text \<open>The fence kept in memory when the confirmation could not be persisted. Like the literal in
  the source it has no run identifier.\<close>

definition unconfirmed_fence :: "writerFenceState \<Rightarrow> writerFenceState" where
  "unconfirmed_fence f = f\<lparr>f_run_id := [], f_active := True, f_phase := writerFenceActivating\<rparr>"

definition confirm_activation :: "'w svcmgr \<Rightarrow> TaskEnvelope \<Rightarrow> string list \<Rightarrow> writerFenceState \<Rightarrow> ('w, jobj) bop" where
  "confirm_activation sm task services intent = do {
     operationFailed \<leftarrow> stop_all sm services;
     guardE (\<not> operationFailed) ActivationIncomplete (
     tryE (verifyServicesInactive sm services) (\<lambda>_. do {
       now \<leftarrow> time_now;
       let fence = confirm_fence intent now;
       modify (put_fence (t_migration_id task) fence);
       r \<leftarrow> persistFences;
       case r of
         Inl e \<Rightarrow> do {
           modify (put_fence (t_migration_id task) (unconfirmed_fence fence));
           errE e }
       | Inr _ \<Rightarrow> okE [(''services'', jstrs services), (''action'', JStr ''stop''),
           (''writer_fence_active'', JBool True), (''fencing_token'', JInt (f_fencing_token fence)),
           (''verified_at'', jstamp (Stamp now)), (''violation_count'', JInt (f_violation_count fence)),
           (''previously_active_services'', jstrs (entries (f_previously_active fence)))] })) }"

definition install_intent :: "'w svcmgr \<Rightarrow> TaskEnvelope \<Rightarrow> string list \<Rightarrow> writerFenceState option \<Rightarrow> writerFenceState \<Rightarrow> ('w, unit) bop" where
  "install_intent sm task services prior intent = do {
     modify (put_fence (t_migration_id task) intent);
     r \<leftarrow> persistFences;
     case r of
       Inl e \<Rightarrow> do {
         modify (case prior of Some p \<Rightarrow> put_fence (t_migration_id task) p | None \<Rightarrow> del_fence (t_migration_id task));
         _ \<leftarrow> stop_all sm services;
         errE e }
     | Inr _ \<Rightarrow> okE () }"

definition activateWriterFence :: "'w svcmgr \<Rightarrow> TaskEnvelope \<Rightarrow> string list \<Rightarrow> ('w, jobj) bop" where
  "activateWriterFence sm task services =
     tryE (return (brokerTaskRunID task)) (\<lambda>runID. do {
       b \<leftarrow> get_state;
       let prior = writer_fence b (t_migration_id task);
       guardE (\<not> conflicting b (t_migration_id task) services) FencedByOther (
       guardE (\<not> (case prior of Some p \<Rightarrow> f_active p \<and> (f_run_id p \<noteq> runID \<or> \<not> equalStrings (f_services p) services)
                  | None \<Rightarrow> False)) OwnershipUnproven (do {
         pa \<leftarrow> (case prior of
                 Some p \<Rightarrow> if f_active p then return (Some (entries (f_previously_active p)))
                           else previouslyActiveServices sm services
               | None \<Rightarrow> previouslyActiveServices sm services);
         case pa of
           None \<Rightarrow> errE StateNotProvable
         | Some previouslyActive \<Rightarrow> do {
             let intent = intent_fence (case prior of Some p \<Rightarrow> p | None \<Rightarrow> zero_fence) task runID services previouslyActive;
             tryE (activateServiceFenceInhibitors services) (\<lambda>_.
             tryE (install_intent sm task services prior intent) (\<lambda>_.
             confirm_activation sm task services intent)) } })) })"

section \<open>Release\<close>

definition restoreActiveWriterFence :: "'w svcmgr \<Rightarrow> writerFenceState \<Rightarrow> ('w broker, unit) state" where
  "restoreActiveWriterFence sm fence = do {
     _ \<leftarrow> (activateServiceFenceInhibitors (f_services fence) :: ('w, unit) bop);
     _ \<leftarrow> stop_all sm (f_services fence);
     now \<leftarrow> time_now;
     r \<leftarrow> verifyServicesInactive sm (f_services fence);
     modify (put_fence (f_migration_id fence)
       (fence\<lparr>f_active := True, f_phase := writerFenceActive,
          f_last_verified_at := (if is_err r then f_last_verified_at fence else Stamp now)\<rparr>));
     _ \<leftarrow> (persistFences :: ('w, unit) bop);
     return () }"

definition start_and_verify :: "'w svcmgr \<Rightarrow> writerFenceState \<Rightarrow> ('w, unit) bop" where
  "start_and_verify sm fence =
     tryE (forE (entries (f_previously_active fence)) (Operate sm ''start'')) (\<lambda>_.
     verifyExpectedServiceStates sm (f_services fence) (entries (f_previously_active fence)))"

definition completeAuthorizedWriterFenceRelease :: "'w svcmgr \<Rightarrow> writerFenceState \<Rightarrow> ('w, writerFenceState) bop" where
  "completeAuthorizedWriterFenceRelease sm authorized =
     guardE (\<not> (f_active authorized \<or> f_phase authorized \<noteq> writerFenceReleaseAuthorized)) InvalidAuthorization (do {
       r \<leftarrow> releaseServiceFenceInhibitors (f_services authorized);
       case r of
         Inl _ \<Rightarrow> do { restoreActiveWriterFence sm authorized; errE ReleaseRolledBack }
       | Inr _ \<Rightarrow> do {
           r \<leftarrow> start_and_verify sm authorized;
           case r of
             Inl _ \<Rightarrow> do { restoreActiveWriterFence sm authorized; errE ReleaseRolledBack }
           | Inr _ \<Rightarrow> do {
               now \<leftarrow> time_now;
               let released = authorized\<lparr>f_active := False, f_phase := writerFenceReleased, f_last_verified_at := Stamp now\<rparr>;
               modify (put_fence (f_migration_id authorized) released);
               r \<leftarrow> persistFences;
               case r of
                 Inl e \<Rightarrow> do {
                   modify (put_fence (f_migration_id authorized) authorized);
                   restoreActiveWriterFence sm authorized;
                   errE e }
               | Inr _ \<Rightarrow> okE released } } })"

definition record_unowned_release :: "'w svcmgr \<Rightarrow> TaskEnvelope \<Rightarrow> string \<Rightarrow> string list \<Rightarrow> int \<Rightarrow> ('w, jobj) bop" where
  "record_unowned_release sm task runID services verifiedAt = do {
     r \<leftarrow> verifyExpectedServiceStates sm services services;
     guardE (\<not> is_err r) OwnershipUnproven (do {
       modify (put_fence (t_migration_id task)
         (zero_fence\<lparr>f_migration_id := t_migration_id task, f_run_id := runID, f_services := services,
            f_previously_active := Some services, f_active := False, f_phase := writerFenceReleased,
            f_fencing_token := t_fencing_token task, f_last_verified_at := Stamp verifiedAt\<rparr>));
       r \<leftarrow> persistFences;
       case r of
         Inl e \<Rightarrow> do { modify (del_fence (t_migration_id task)); errE e }
       | Inr _ \<Rightarrow> okE [(''services'', jstrs services), (''action'', JStr ''start''), (''writer_fence_active'', JBool False),
           (''violation_count'', JInt 0), (''verified_at'', jstamp (Stamp verifiedAt)), (''restarted_services'', jstrs []),
           (''observed_active_services'', jstrs services), (''already_released'', JBool True),
           (''recovered_without_fence_record'', JBool True)] }) }"

definition record_repeated_release :: "'w svcmgr \<Rightarrow> TaskEnvelope \<Rightarrow> string list \<Rightarrow> writerFenceState \<Rightarrow> int \<Rightarrow> ('w, jobj) bop" where
  "record_repeated_release sm task services prior verifiedAt =
     guardE (f_phase prior = writerFenceReleased) ReleaseUnproven (do {
       r \<leftarrow> verifyExpectedServiceStates sm services (entries (f_previously_active prior));
       guardE (\<not> is_err r) ReleaseUnproven (do {
         let fence = prior\<lparr>f_fencing_token := t_fencing_token task, f_last_verified_at := Stamp verifiedAt\<rparr>;
         modify (put_fence (t_migration_id task) fence);
         r \<leftarrow> persistFences;
         case r of
           Inl e \<Rightarrow> do { modify (put_fence (t_migration_id task) prior); errE e }
         | Inr _ \<Rightarrow> okE [(''services'', jstrs services), (''action'', JStr ''start''), (''writer_fence_active'', JBool False),
             (''violation_count'', JInt (f_violation_count fence)), (''verified_at'', jstamp (f_last_verified_at fence)),
             (''restarted_services'', jstrs []),
             (''expected_active_services'', jstrs (entries (f_previously_active fence))), (''already_released'', JBool True)] }) })"

definition released_outputs :: "string list \<Rightarrow> writerFenceState \<Rightarrow> jobj" where
  "released_outputs services released =
     [(''services'', jstrs services), (''action'', JStr ''start''), (''writer_fence_active'', JBool False),
      (''violation_count'', JInt (f_violation_count released)), (''verified_at'', jstamp (f_last_verified_at released)),
      (''restarted_services'', jstrs (entries (f_previously_active released)))]"

definition authorize_release :: "TaskEnvelope \<Rightarrow> writerFenceState \<Rightarrow> ('w, writerFenceState) bop" where
  "authorize_release task fence = do {
     now \<leftarrow> time_now;
     let authorized = fence\<lparr>f_active := False, f_phase := writerFenceReleaseAuthorized,
           f_fencing_token := t_fencing_token task, f_last_verified_at := Stamp now\<rparr>;
     modify (put_fence (t_migration_id task) authorized);
     r \<leftarrow> persistFences;
     case r of
       Inl e \<Rightarrow> do { modify (put_fence (t_migration_id task) fence); errE e }
     | Inr _ \<Rightarrow> okE authorized }"

definition releaseWriterFence :: "'w svcmgr \<Rightarrow> TaskEnvelope \<Rightarrow> string list \<Rightarrow> ('w, jobj) bop" where
  "releaseWriterFence sm task services =
     tryE (return (brokerTaskRunID task)) (\<lambda>runID. do {
       b \<leftarrow> get_state;
       verifiedAt \<leftarrow> time_now;
       case writer_fence b (t_migration_id task) of
         None \<Rightarrow> record_unowned_release sm task runID services verifiedAt
       | Some fence \<Rightarrow>
           guardE (\<not> (f_run_id fence \<noteq> runID \<or> \<not> equalStrings (f_services fence) services
                      \<or> f_phase fence = writerFenceReleasing)) OwnershipUnproven (
           if \<not> f_active fence then
             if f_phase fence = writerFenceReleaseAuthorized then
               tryE (completeAuthorizedWriterFenceRelease sm
                      (fence\<lparr>f_fencing_token := t_fencing_token task, f_last_verified_at := Stamp verifiedAt\<rparr>)) (\<lambda>released.
               okE (released_outputs services released @ [(''resumed_authorized_release'', JBool True)]))
             else record_repeated_release sm task services fence verifiedAt
           else do {
             r \<leftarrow> verifyServicesInactive sm services;
             guardE (\<not> is_err r) ReleaseWhileActive (
             tryE (authorize_release task fence) (\<lambda>authorized.
             tryE (completeAuthorizedWriterFenceRelease sm authorized) (\<lambda>released.
             okE (released_outputs services released)))) }) })"

section \<open>Watchdog\<close>

definition resumeAuthorizedWriterFenceReleases :: "'w svcmgr \<Rightarrow> ('w, unit) bop" where
  "resumeAuthorizedWriterFenceReleases sm = do {
     b \<leftarrow> get_state;
     guardE (b_systemctl b) ControllerUnavailable (
     forE (filter (\<lambda>f. \<not> f_active f \<and> f_phase f = writerFenceReleaseAuthorized)
             (map snd (s_writer_fences (b_state b))))
       (\<lambda>fence. tryE (completeAuthorizedWriterFenceRelease sm fence) (\<lambda>_. okE ()))) }"

definition count_violation :: "int \<Rightarrow> writerFenceState \<Rightarrow> writerFenceState" where
  "count_violation now f = f\<lparr>f_violation_count := wrap64 (f_violation_count f + 1), f_last_violation := Stamp now\<rparr>"

definition count_watchdog_error :: "int \<Rightarrow> writerFenceState \<Rightarrow> writerFenceState" where
  "count_watchdog_error now f =
     f\<lparr>f_watchdog_error_count := wrap64 (f_watchdog_error_count f + 1), f_last_watchdog_error := Stamp now\<rparr>"

text \<open>One service of a fence under reconciliation: whether it was a violation and whether the
  watchdog met an error.\<close>

definition enforce_service :: "'w svcmgr \<Rightarrow> fence_phase \<Rightarrow> string \<Rightarrow> ('w broker, bool \<times> bool) state" where
  "enforce_service sm phase service = do {
     r \<leftarrow> IsActive sm service;
     let commandErr = is_err r;
     let isActive = (case r of Inl _ \<Rightarrow> False | Inr a \<Rightarrow> a);
     if commandErr \<or> isActive \<or> phase = writerFenceReleasing then do {
       s \<leftarrow> Operate sm ''stop'' service;
       return (phase = writerFenceActive, commandErr \<or> is_err s) }
     else return (False, commandErr) }"

primrec enforce_services :: "'w svcmgr \<Rightarrow> fence_phase \<Rightarrow> string list \<Rightarrow> ('w broker, bool \<times> bool) state" where
  "enforce_services sm phase [] = return (False, False)"
| "enforce_services sm phase (service # services) = do {
     (v, w) \<leftarrow> enforce_service sm phase service;
     (v', w') \<leftarrow> enforce_services sm phase services;
     return (v \<or> v', w \<or> w') }"

definition verified_fence :: "int \<Rightarrow> writerFenceState \<Rightarrow> writerFenceState" where
  "verified_fence now f =
     (let f = f\<lparr>f_last_verified_at := Stamp now\<rparr> in
      if f_phase f = writerFenceActivating \<or> f_phase f = writerFenceReleasing
      then f\<lparr>f_phase := writerFenceActive,
             f_activated_at := (if f_activated_at f = Unset then Stamp now else f_activated_at f)\<rparr>
      else f)"

text \<open>The fence after one round: verified unless the final check failed, with the violation and
  the watchdog error counted.\<close>

definition settled_fence :: "int \<Rightarrow> bool \<Rightarrow> bool \<Rightarrow> bool \<Rightarrow> writerFenceState \<Rightarrow> writerFenceState" where
  "settled_fence now unproven violated watchdogError current =
     (let current = (if unproven then current else verified_fence now current);
          current = (if violated \<or> unproven then count_violation now current else current)
      in if watchdogError \<or> unproven then count_watchdog_error now current else current)"

definition settle_fence :: "'w svcmgr \<Rightarrow> writerFenceState \<Rightarrow> bool \<Rightarrow> bool \<Rightarrow> ('w broker, bool) state" where
  "settle_fence sm fence violated watchdogError = do {
     now \<leftarrow> time_now;
     b \<leftarrow> get_state;
     case writer_fence b (f_migration_id fence) of
       None \<Rightarrow> return False
     | Some current \<Rightarrow>
         if f_active current \<and> equalStrings (f_services current) (f_services fence) then do {
           r \<leftarrow> verifyServicesInactive sm (f_services current);
           modify (put_fence (f_migration_id fence)
             (settled_fence now (is_err r) violated watchdogError current));
           p \<leftarrow> (persistFences :: ('w, unit) bop);
           return (watchdogError \<or> is_err r \<or> is_err p) }
         else return False }"

definition reconcile_fence :: "'w svcmgr \<Rightarrow> writerFenceState \<Rightarrow> ('w broker, bool) state" where
  "reconcile_fence sm fence = do {
     i \<leftarrow> (activateServiceFenceInhibitors (f_services fence) :: ('w, unit) bop);
     (violated, watchdogError) \<leftarrow> enforce_services sm (f_phase fence) (f_services fence);
     settle_fence sm fence violated (is_err i \<or> watchdogError) }"

primrec reconcile_all :: "'w svcmgr \<Rightarrow> writerFenceState list \<Rightarrow> ('w broker, bool) state" where
  "reconcile_all sm [] = return False"
| "reconcile_all sm (fence # fences) = do {
     failed \<leftarrow> reconcile_fence sm fence;
     rest \<leftarrow> reconcile_all sm fences;
     return (failed \<or> rest) }"

text \<open>Without \<open>systemctl\<close> every active fence records a violation and a watchdog error.\<close>

definition mark_unenforceable :: "'w broker \<Rightarrow> 'w broker" where
  "mark_unenforceable b = b\<lparr>b_state := (b_state b)\<lparr>s_writer_fences :=
     map (map_prod id (\<lambda>f. if f_active f then count_watchdog_error (b_clock b) (count_violation (b_clock b) f) else f))
       (s_writer_fences (b_state b))\<rparr>\<rparr>"

definition reconcileWriterFences :: "'w svcmgr \<Rightarrow> ('w, unit) bop" where
  "reconcileWriterFences sm = do {
     b \<leftarrow> get_state;
     case validateServiceFenceMarkers b of
       Some e \<Rightarrow> errE e
     | None \<Rightarrow>
         if \<not> b_systemctl b then do {
           modify mark_unenforceable;
           tryE persistFences (\<lambda>_. errE ControllerUnavailable) }
         else do {
           failed \<leftarrow> reconcile_all sm (filter f_active (map snd (s_writer_fences (b_state b))));
           guardE (\<not> failed) ReconcileFailed (okE ()) } }"

record WriterFenceAttestation =
  a_migration_id :: string
  a_run_id :: string
  a_active :: bool
  a_phase :: fence_phase
  a_fencing_token :: int64
  a_violation_count :: int64
  a_watchdog_error_count :: int64
  a_activated_at :: stamp
  a_last_verified_at :: stamp
  a_last_violation :: stamp
  a_last_watchdog_error :: stamp
  a_attested_at :: stamp

definition attestation :: "int \<Rightarrow> writerFenceState \<Rightarrow> WriterFenceAttestation" where
  "attestation now f = \<lparr>a_migration_id = f_migration_id f, a_run_id = f_run_id f, a_active = f_active f,
     a_phase = f_phase f, a_fencing_token = f_fencing_token f, a_violation_count = f_violation_count f,
     a_watchdog_error_count = f_watchdog_error_count f, a_activated_at = f_activated_at f,
     a_last_verified_at = f_last_verified_at f, a_last_violation = f_last_violation f,
     a_last_watchdog_error = f_last_watchdog_error f, a_attested_at = Stamp now\<rparr>"

definition attestWriterFences :: "'w svcmgr \<Rightarrow> ('w broker, WriterFenceAttestation list \<times> bool) state" where
  "attestWriterFences sm = do {
     r \<leftarrow> reconcileWriterFences sm;
     b \<leftarrow> get_state;
     return (sort_key (\<lambda>a. (a_migration_id a, a_run_id a))
               (map (attestation (b_clock b)) (filter f_active (map snd (s_writer_fences (b_state b))))),
             \<not> is_err r) }"

end
