(* ===== verification/Fence_Safety.thy ===== *)
theory Fence_Safety
  imports Writer_Fence
begin

text \<open>
  Properties of single writer-fence operations: which part of the broker each of them leaves
  alone, what a successful activation or release guarantees, and that an activation is safe
  against a failure or a crash at any point.
\<close>

section \<open>What the primitive actions leave alone\<close>

text \<open>A property that passing time, other people's actions on the services and a stop of the
  process cannot change.\<close>

definition calm :: "('w broker \<Rightarrow> bool) \<Rightarrow> bool" where
  "calm I \<longleftrightarrow> (\<forall>b. I b \<longrightarrow> I (snd (next_incident b)) \<and> I (b\<lparr>b_dead := True\<rparr>) \<and> (\<forall>w. I (b\<lparr>b_world := w\<rparr>)))"

lemma calm_world: "calm I \<Longrightarrow> I b \<Longrightarrow> I (b\<lparr>b_world := w\<rparr>)"
  unfolding calm_def by blast

lemma next_incident_frame:
  assumes "next_incident b = (oc, b')"
  shows "\<exists>e c w. b' = b\<lparr>b_env := e, b_clock := c, b_world := w\<rparr> \<and> b_clock b \<le> c"
proof (cases "b_env b")
  case Nil
  with assms have "b' = b\<lparr>b_env := b_env b, b_clock := b_clock b, b_world := b_world b\<rparr>"
    by (simp add: next_incident_def)
  then show ?thesis by (intro exI [of _ "b_env b"] exI [of _ "b_clock b"] exI [of _ "b_world b"]) simp
next
  case (Cons e es)
  with assms have "b' = b\<lparr>b_env := es, b_clock := b_clock b + int (e_delay e),
      b_world := (case e_world e of None \<Rightarrow> b_world b | Some w \<Rightarrow> w)\<rparr>"
    by (simp add: next_incident_def)
  then show ?thesis by (intro exI conjI) (assumption, simp)
qed

lemma calm_next: "calm I \<Longrightarrow> I b \<Longrightarrow> next_incident b = (oc, b') \<Longrightarrow> I b'"
  unfolding calm_def by (metis snd_conv)

lemma calm_dead: "calm I \<Longrightarrow> I b \<Longrightarrow> I (b\<lparr>b_dead := True\<rparr>)"
  unfolding calm_def by blast

lemma calmI:
  assumes "\<And>b e c w. I b \<Longrightarrow> I (b\<lparr>b_env := e, b_clock := c, b_world := w\<rparr>)"
    and "\<And>b. I b \<Longrightarrow> I (b\<lparr>b_dead := True\<rparr>)"
  shows "calm I"
  unfolding calm_def
proof (intro allI impI conjI)
  fix b
  assume I: "I b"
  obtain oc b' where "next_incident b = (oc, b')" by fastforce
  with next_incident_frame [OF this] assms(1) [OF I] show "I (snd (next_incident b))" by auto
  show "I (b\<lparr>b_dead := True\<rparr>)" by (rule assms(2) [OF I])
  show "I (b\<lparr>b_world := w\<rparr>)" for w
    using assms(1) [OF I, where e = "b_env b" and c = "b_clock b" and w = w] by simp
qed

lemma keeps_attempt:
  assumes "calm I" and "\<And>b. I b \<Longrightarrow> I (eff b)" and "\<And>b. I b \<Longrightarrow> I (partial b)"
  shows "keeps I (attempt eff partial)"
proof (rule keepsI)
  fix b
  assume I: "I b"
  obtain oc b' where n: "next_incident b = (oc, b')" by fastforce
  have b': "I b'" using assms(1) I n by (rule calm_next)
  show "I (snd (run_state (attempt eff partial) b))"
    using I b' assms by (simp add: attempt_def n calm_dead split: outcome.split)
qed

lemma keeps_action: "calm I \<Longrightarrow> (\<And>b. I b \<Longrightarrow> I (eff b)) \<Longrightarrow> keeps I (action eff)"
  by (rule keeps_attempt)

lemma keeps_Operate [keeps_intros]: "calm I \<Longrightarrow> keeps I (Operate sm act s)"
  unfolding Operate_def by (rule keeps_action) (simp_all add: calm_world)

lemma keeps_action_id [keeps_intros]: "calm I \<Longrightarrow> keeps I (action id)"
  by (rule keeps_action) simp_all

lemma keeps_IsActive [keeps_intros]: "calm I \<Longrightarrow> keeps I (IsActive sm s)"
  unfolding IsActive_def by (intro keeps_intros)

lemma keeps_time_now [keeps_intros]: "keeps I time_now"
  unfolding time_now_def by (intro keeps_intros)

lemma keeps_active_loop: "calm I \<Longrightarrow> keeps I (active_loop sm ss acc)"
  by (induction ss arbitrary: acc) (auto intro!: keeps_intros)

lemma keeps_previouslyActiveServices [keeps_intros]: "calm I \<Longrightarrow> keeps I (previouslyActiveServices sm ss)"
  unfolding previouslyActiveServices_def by (rule keeps_active_loop)

lemma keeps_verifyExpectedServiceStates [keeps_intros]:
  "calm I \<Longrightarrow> keeps I (verifyExpectedServiceStates sm ss es)"
  unfolding verifyExpectedServiceStates_def by (intro keeps_intros)

lemma keeps_verifyServicesInactive [keeps_intros]: "calm I \<Longrightarrow> keeps I (verifyServicesInactive sm ss)"
  unfolding verifyServicesInactive_def by (intro keeps_intros)

lemma keeps_stop_all [keeps_intros]: "calm I \<Longrightarrow> keeps I (stop_all sm ss)"
  unfolding stop_all_def by (intro keeps_intros)

lemma keeps_start_and_verify [keeps_intros]: "calm I \<Longrightarrow> keeps I (start_and_verify sm f)"
  unfolding start_and_verify_def by (intro keeps_intros)

lemma keeps_enforce_service [keeps_intros]: "calm I \<Longrightarrow> keeps I (enforce_service sm ph s)"
  unfolding enforce_service_def Let_def by (intro keeps_intros)

lemma keeps_enforce_services [keeps_intros]: "calm I \<Longrightarrow> keeps I (enforce_services sm ph ss)"
  by (induction ss) (auto intro!: keeps_intros split: prod.split)

section \<open>Invariants of the fence state\<close>

text \<open>Properties of the in-memory state and the state file only.\<close>

definition of_state :: "(brokerPersistentState \<Rightarrow> state_file option \<Rightarrow> bool) \<Rightarrow> 'w broker \<Rightarrow> bool" where
  "of_state J b \<longleftrightarrow> J (b_state b) (b_state_file b)"

lemma calm_of_state [simp]: "calm (of_state J)"
  by (rule calmI) (simp_all add: of_state_def)

definition marker_blind :: "('w broker \<Rightarrow> bool) \<Rightarrow> bool" where
  "marker_blind I \<longleftrightarrow> (\<forall>b d m. I b \<longrightarrow> I (b\<lparr>b_marker_dir := d\<rparr>) \<and> I (b\<lparr>b_markers := m\<rparr>))"

lemma marker_blind_of_state [simp]: "marker_blind (of_state J)"
  by (simp add: marker_blind_def of_state_def)

lemma keeps_install_marker: "calm I \<Longrightarrow> marker_blind I \<Longrightarrow> keeps I (install_marker s)"
  unfolding install_marker_def
  by (intro keeps_intros keeps_attempt; simp add: marker_blind_def write_marker_def)

lemma keeps_activateServiceFenceInhibitors [keeps_intros]:
  "calm I \<Longrightarrow> marker_blind I \<Longrightarrow> keeps I (activateServiceFenceInhibitors ss)"
  unfolding activateServiceFenceInhibitors_def
  by (intro keeps_intros keeps_install_marker keeps_action;
      simp add: marker_blind_def mkdir_markers_def chmod_markers_def split: option.split)

lemma keeps_releaseServiceFenceInhibitors [keeps_intros]:
  "calm I \<Longrightarrow> marker_blind I \<Longrightarrow> keeps I (releaseServiceFenceInhibitors ss)"
  unfolding releaseServiceFenceInhibitors_def release_marker_def
  by (intro keeps_intros keeps_action; simp add: marker_blind_def remove_marker_def)

text \<open>A calm property that an advancing clock keeps.\<close>

definition timeless :: "('w broker \<Rightarrow> bool) \<Rightarrow> bool" where
  "timeless I \<longleftrightarrow> calm I \<and> (\<forall>b c. I b \<longrightarrow> b_clock b \<le> c \<longrightarrow> I (b\<lparr>b_clock := c\<rparr>))"

lemma timeless_of_state [simp]: "timeless (of_state J)"
proof -
  have "of_state J (b\<lparr>b_clock := c\<rparr>) = of_state J b" for b :: "'a broker" and c
    by (simp add: of_state_def)
  then show ?thesis by (simp add: timeless_def)
qed

definition saves :: "(brokerPersistentState \<Rightarrow> state_file option \<Rightarrow> bool) \<Rightarrow> bool" where
  "saves J \<longleftrightarrow> (\<forall>s f. J s f \<longrightarrow> J s (Some (Document (marshal_state s))))"

lemma keeps_persistFences [keeps_intros]: "saves J \<Longrightarrow> keeps (of_state J) persistFences"
  unfolding persistFences_def
  by (intro keeps_action calm_of_state) (auto simp: of_state_def saves_def)

section \<open>Boot inhibitors stand before a fence is recorded\<close>

abbreviation marker_names :: "'w broker \<Rightarrow> string set" where
  "marker_names b \<equiv> fst ` set (b_markers b)"

definition inhibited :: "string set \<Rightarrow> string list \<Rightarrow> bool" where
  "inhibited M ss \<longleftrightarrow> (\<forall>s \<in> set ss. marker_name s \<in> M)"

definition file_fences :: "state_file option \<Rightarrow> (string, writerFenceState) gomap" where
  "file_fences file = (case file of Some (Document d) \<Rightarrow> entries (d_writer_fences d) | _ \<Rightarrow> [])"

definition fences_inhibited :: "string set \<Rightarrow> (string, writerFenceState) gomap \<Rightarrow> bool" where
  "fences_inhibited M fs \<longleftrightarrow> (\<forall>e \<in> set fs. f_active (snd e) \<longrightarrow> inhibited M (f_services (snd e)))"

definition guarded :: "'w broker \<Rightarrow> bool" where
  "guarded b \<longleftrightarrow> fences_inhibited (marker_names b) (s_writer_fences (b_state b))
     \<and> fences_inhibited (marker_names b) (file_fences (b_state_file b))"

definition guarded_with :: "string list \<Rightarrow> 'w broker \<Rightarrow> bool" where
  "guarded_with ss b \<longleftrightarrow> guarded b \<and> inhibited (marker_names b) ss"

lemma file_fences_marshal [simp]:
  "file_fences (Some (Document (marshal_state s))) = map (map_prod id marshal_fence) (s_writer_fences s)"
  by (simp add: file_fences_def marshal_state_def omit_empty_def)

lemma marshal_fence_simps [simp]:
  "f_active (marshal_fence f) = f_active f" "f_services (marshal_fence f) = f_services f"
  "f_phase (marshal_fence f) = f_phase f" "f_migration_id (marshal_fence f) = f_migration_id f"
  "f_run_id (marshal_fence f) = f_run_id f"
  by (simp_all add: marshal_fence_def)

lemma fences_inhibited_marshal [simp]:
  "fences_inhibited M (map (map_prod id marshal_fence) fs) = fences_inhibited M fs"
  by (simp add: fences_inhibited_def)

lemma inhibited_mono: "inhibited M ss \<Longrightarrow> M \<subseteq> N \<Longrightarrow> inhibited N ss"
  unfolding inhibited_def by blast

lemma fences_inhibited_mono: "fences_inhibited M fs \<Longrightarrow> M \<subseteq> N \<Longrightarrow> fences_inhibited N fs"
  unfolding fences_inhibited_def using inhibited_mono by blast

lemma fences_inhibited_put:
  "fences_inhibited M fs \<Longrightarrow> (f_active f \<Longrightarrow> inhibited M (f_services f)) \<Longrightarrow> fences_inhibited M (go_put mid f fs)"
  using set_go_put [of mid f fs] unfolding fences_inhibited_def by fastforce

lemma fences_inhibited_del: "fences_inhibited M fs \<Longrightarrow> fences_inhibited M (go_del mid fs)"
  unfolding fences_inhibited_def by (simp add: set_go_del)

lemma guarded_with_markers:
  "guarded_with ss b \<Longrightarrow> marker_names b \<subseteq> marker_names c \<Longrightarrow>
     b_state c = b_state b \<Longrightarrow> b_state_file c = b_state_file b \<Longrightarrow> guarded_with ss c"
  by (auto simp: guarded_with_def guarded_def intro: fences_inhibited_mono inhibited_mono)

lemma guarded_with_same:
  "guarded_with ss b \<Longrightarrow> b_markers c = b_markers b \<Longrightarrow> b_state c = b_state b \<Longrightarrow>
     b_state_file c = b_state_file b \<Longrightarrow> guarded_with ss c"
  by (simp add: guarded_with_def guarded_def)

lemma calm_guarded_with [simp]: "calm (guarded_with ss)"
  by (rule calmI) (simp_all add: guarded_with_def guarded_def)

lemma guarded_with_empty: "guarded_with [] = guarded"
  by (rule ext) (simp add: guarded_with_def inhibited_def)

lemma calm_guarded [simp]: "calm guarded"
  unfolding guarded_with_empty [symmetric] by simp

lemma guarded_with_weaken: "guarded_with ss b \<Longrightarrow> guarded b"
  by (simp add: guarded_with_def)

lemma guarded_with_put:
  "guarded_with ss b \<Longrightarrow> (f_active f \<Longrightarrow> f_services f = ss) \<Longrightarrow> guarded_with ss (put_fence mid f b)"
  by (simp add: guarded_with_def guarded_def put_fence_def fences_inhibited_put)

lemma guarded_with_del: "guarded_with ss b \<Longrightarrow> guarded_with ss (del_fence mid b)"
  by (simp add: guarded_with_def guarded_def del_fence_def fences_inhibited_del)

lemma keeps_guarded_persist [keeps_intros]: "keeps (guarded_with ss) persistFences"
  unfolding persistFences_def by (rule keeps_action) (simp_all add: guarded_with_def guarded_def)

lemma write_marker_guarded:
  "guarded_with ss b \<Longrightarrow> guarded_with ss (write_marker s c b)"
  "guarded_with ss b \<Longrightarrow> guarded_with (ss @ [s]) (write_marker s c b)"
proof -
  assume g: "guarded_with ss b"
  then show w: "guarded_with ss (write_marker s c b)"
    by (rule guarded_with_markers) (auto simp: write_marker_def)
  then show "guarded_with (ss @ [s]) (write_marker s c b)"
    by (simp add: guarded_with_def inhibited_def write_marker_def)
qed

lemma guarded_with_init: "guarded_with (ss @ [s]) b \<Longrightarrow> guarded_with ss b"
  by (simp add: guarded_with_def inhibited_def)

lemma triple_attempt:
  assumes "calm I" and "\<And>b. I b \<Longrightarrow> J (eff b)" and "\<And>b. I b \<Longrightarrow> E b" and "\<And>b. I b \<Longrightarrow> E (partial b)"
    and "calm E"
  shows "triple I (attempt eff partial) (\<lambda>r t. case r of Inl _ \<Rightarrow> E t | Inr _ \<Rightarrow> J t)"
proof (rule tripleI)
  fix b x t
  assume I: "I b" and run: "run_state (attempt eff partial) b = (x, t)"
  obtain oc b' where n: "next_incident b = (oc, b')" by fastforce
  have b': "I b'" using assms(1) I n by (rule calm_next)
  show "case x of Inl _ \<Rightarrow> E t | Inr _ \<Rightarrow> J t"
    using run I b' assms(2-4) calm_dead [OF assms(5)]
    by (auto simp: attempt_def n split: outcome.splits if_splits)
qed

lemma install_marker_inhibits:
  "triple (guarded_with ss) (install_marker s)
     (\<lambda>r t. case r of Inl _ \<Rightarrow> guarded_with ss t | Inr _ \<Rightarrow> guarded_with (ss @ [s]) t)"
  (is "triple _ _ ?Q")
proof -
  let ?w = "attempt (write_marker s marker_content) (write_marker s []) :: ('a, unit) bop"
  have w: "triple (guarded_with ss) ?w ?Q"
    by (rule triple_attempt) (simp_all add: write_marker_guarded)
  have i: "triple (guarded_with (ss @ [s])) (action id) ?Q"
    by (rule triple_attempt) (simp_all add: guarded_with_init)
  have new: "triple (guarded_with ss) (tryE ?w (\<lambda>_. action id)) ?Q"
    by (rule triple_tryE [OF w]) (use i in auto)
  have old: "guarded_with (ss @ [s]) b"
    if "guarded_with ss b" "map_of (b_markers b) (marker_name s) = Some a" for b :: "'a broker" and a
    using that by (force simp: guarded_with_def inhibited_def dest: map_of_SomeD)
  show ?thesis
    unfolding install_marker_def
    by (rule triple_bind [where R = "\<lambda>x b. guarded_with ss b \<and> b = x"])
      (auto intro!: triple_get triple_case_option triple_case_prod triple_guardE triple_okE
        triple_conseq [OF new] simp: old)
qed

lemma activate_inhibitors_guard:
  "triple guarded (activateServiceFenceInhibitors ss)
     (\<lambda>r t. case r of Inl _ \<Rightarrow> guarded t | Inr _ \<Rightarrow> guarded_with ss t)" (is "triple _ _ ?Q")
proof -
  have "triple (guarded_with []) (forE ss install_marker) ?Q"
    by (rule triple_forE [where I = guarded_with])
      (auto intro!: triple_conseq [OF install_marker_inhibits] dest: guarded_with_weaken split: sum.splits)
  then have loop: "triple guarded (forE ss install_marker) ?Q"
    by (simp add: guarded_with_empty)
  have last: "triple (guarded_with ss) (action id) ?Q"
    by (rule triple_attempt) (auto dest: guarded_with_weaken)
  have dir: "triple guarded (action mkdir_markers) (\<lambda>_. guarded)" "triple guarded (action chmod_markers) (\<lambda>_. guarded)"
    unfolding keeps_def [symmetric] guarded_with_empty [symmetric]
    by (rule keeps_action; auto intro: guarded_with_same simp: mkdir_markers_def chmod_markers_def split: option.splits)+
  have body: "triple guarded (tryE (forE ss install_marker) (\<lambda>_. action id)) ?Q"
    by (rule triple_tryE [OF loop]) (use last in auto)
  show ?thesis
    unfolding activateServiceFenceInhibitors_def
    by (rule triple_bind [where R = "\<lambda>_. guarded"], rule triple_get, assumption)
      (intro triple_guardE triple_tryE [OF dir(1)] triple_tryE [OF dir(2)] triple_bind [where R = "\<lambda>_. guarded"]
        triple_get body; simp)
qed

lemma keeps_guarded_put:
  "(f_active f \<Longrightarrow> f_services f = ss) \<Longrightarrow> keeps (guarded_with ss) (modify (put_fence mid f))"
  by (rule keeps_modify) (rule guarded_with_put)

lemma keeps_guarded_del: "keeps (guarded_with ss) (modify (del_fence mid))"
  by (rule keeps_modify) (rule guarded_with_del)

lemma install_intent_guard:
  assumes "f_services intent = ss" and "\<And>p. prior = Some p \<Longrightarrow> f_active p \<Longrightarrow> f_services p = ss"
  shows "keeps (guarded_with ss) (install_intent sm task ss prior intent)"
  using assms unfolding install_intent_def
  by (auto intro!: keeps_intros keeps_guarded_put keeps_guarded_del split: option.split)

lemma fence_update_services [simp]:
  "f_services (confirm_fence f now) = f_services f" "f_services (unconfirmed_fence f) = f_services f"
  "f_services (intent_fence f task r ss ps) = ss" "f_active (intent_fence f task r ss ps)"
  "f_active (confirm_fence f now) = f_active f" "f_active (unconfirmed_fence f)"
  by (simp_all add: confirm_fence_def unconfirmed_fence_def intent_fence_def)

lemma confirm_activation_guard:
  "f_services intent = ss \<Longrightarrow> keeps (guarded_with ss) (confirm_activation sm task ss intent)"
  unfolding confirm_activation_def Let_def
  by (auto intro!: keeps_intros keeps_guarded_put)

text \<open>The common shape of an activation: the checks, then the three phases.\<close>

lemma activateWriterFence_shape:
  assumes "run_state (activateWriterFence sm task ss) b = (r, t)"
  obtains (refused) e where "r = Inl e"
      and "\<And>I. calm I \<Longrightarrow> I b \<Longrightarrow> I t"
  | (phases) runID pa c
    where "brokerTaskRunID task = Inr runID" and "\<not> conflicting b (t_migration_id task) ss"
      and "\<And>p. writer_fence b (t_migration_id task) = Some p \<Longrightarrow> f_active p \<Longrightarrow> f_run_id p = runID \<and> f_services p = ss"
      and "\<And>I. calm I \<Longrightarrow> I b \<Longrightarrow> I c"
      and "run_state (tryE (activateServiceFenceInhibitors ss) (\<lambda>_.
             tryE (install_intent sm task ss (writer_fence b (t_migration_id task))
               (intent_fence (case writer_fence b (t_migration_id task) of Some p \<Rightarrow> p | None \<Rightarrow> zero_fence) task runID ss pa)) (\<lambda>_.
             confirm_activation sm task ss
               (intent_fence (case writer_fence b (t_migration_id task) of Some p \<Rightarrow> p | None \<Rightarrow> zero_fence) task runID ss pa)))) c = (r, t)"
proof (cases "brokerTaskRunID task")
  case (Inl e)
  with assms show ?thesis by (auto simp: activateWriterFence_def intro: refused)
next
  case (Inr runID)
  let ?prior = "writer_fence b (t_migration_id task)"
  let ?own = "\<not> (case ?prior of Some p \<Rightarrow> f_active p \<and> (f_run_id p \<noteq> runID \<or> \<not> equalStrings (f_services p) ss) | None \<Rightarrow> False)"
  show ?thesis
  proof (cases "\<not> conflicting b (t_migration_id task) ss \<and> ?own")
    case False
    with assms Inr show ?thesis
      by (auto simp: activateWriterFence_def Let_def intro: refused split: if_splits)
  next
    case True
    let ?obs = "case ?prior of Some p \<Rightarrow> if f_active p then return (Some (entries (f_previously_active p)))
                           else previouslyActiveServices sm ss
               | None \<Rightarrow> previouslyActiveServices sm ss"
    obtain pa c where obs: "run_state ?obs b = (pa, c)" by fastforce
    have frame: "I c" if "calm I" "I b" for I
    proof -
      have "keeps I ?obs" using that(1) by (intro keeps_intros)
      from keeps_run [OF this that(2) obs] show ?thesis .
    qed
    show ?thesis
    proof (cases pa)
      case None
      with assms Inr True obs have "r = Inl StateNotProvable \<and> t = c"
        by (simp add: activateWriterFence_def Let_def)
      then have e: "r = Inl StateNotProvable" and t: "t = c" by simp_all
      show ?thesis by (rule refused [OF e]) (unfold t, rule frame)
    next
      case (Some previouslyActive)
      with assms Inr True obs have "run_state (tryE (activateServiceFenceInhibitors ss) (\<lambda>_.
             tryE (install_intent sm task ss ?prior
               (intent_fence (case ?prior of Some p \<Rightarrow> p | None \<Rightarrow> zero_fence) task runID ss previouslyActive)) (\<lambda>_.
             confirm_activation sm task ss
               (intent_fence (case ?prior of Some p \<Rightarrow> p | None \<Rightarrow> zero_fence) task runID ss previouslyActive)))) c = (r, t)"
        by (simp add: activateWriterFence_def Let_def)
      then show ?thesis
        using True Inr frame by (intro phases) (auto split: option.splits)
    qed
  qed
qed

text \<open>
  \<^bold>\<open>C7\<close>. Activating a writer fence is crash-safe. Suppose every fence recorded as active, in memory or in the
  state file, has the boot inhibitor of each of its services. Then so it is after an activation,
  however it ends: with success, with a refusal, with an input/output error that took effect or
  not, or with the process stopped at any point. A durable fence whose writer may start at boot
  never arises from an activation.
\<close>

theorem activation_crash_safe:
  assumes "guarded b"
  shows "guarded (snd (run_state (activateWriterFence sm task services) b))"
proof -
  obtain r t where run: "run_state (activateWriterFence sm task services) b = (r, t)" by fastforce
  then have "guarded t"
  proof (cases rule: activateWriterFence_shape)
    case refused
    show ?thesis by (rule refused(2) [OF calm_guarded assms])
  next
    case (phases runID pa c)
    have "guarded c" by (rule phases(4) [OF calm_guarded assms])
    moreover let ?prior = "writer_fence b (t_migration_id task)"
    let ?intent = "intent_fence (case ?prior of Some p \<Rightarrow> p | None \<Rightarrow> zero_fence) task runID services pa"
    have i: "triple (guarded_with services) (install_intent sm task services ?prior ?intent) (\<lambda>_. guarded_with services)"
      using phases(3) unfolding keeps_def [symmetric] by (intro install_intent_guard) auto
    have k: "triple (guarded_with services) (confirm_activation sm task services ?intent) (\<lambda>_. guarded)"
      by (rule triple_conseq [OF confirm_activation_guard [unfolded keeps_def]]) (auto dest: guarded_with_weaken)
    have "triple guarded (tryE (activateServiceFenceInhibitors services) (\<lambda>_.
        tryE (install_intent sm task services ?prior ?intent) (\<lambda>_. confirm_activation sm task services ?intent))) (\<lambda>_. guarded)"
      by (rule triple_tryE [OF activate_inhibitors_guard], simp)
        (use i k in \<open>auto intro!: triple_tryE [OF i] dest: guarded_with_weaken\<close>)
    ultimately show ?thesis using phases(5) by (auto dest: tripleD)
  qed
  with run show ?thesis by simp
qed

section \<open>What a successful activation guarantees\<close>

lemma attempt_Inr:
  assumes "run_state (attempt eff partial) b = (Inr u, t)"
  obtains b' where "next_incident b = (Done, b')" and "t = eff b'"
  using assms by (auto simp: attempt_def split: if_splits prod.splits outcome.splits)

text \<open>A run in which nobody else touches the services.\<close>

definition steady :: "'w broker \<Rightarrow> bool" where
  "steady b \<longleftrightarrow> list_all (\<lambda>e. e_world e = None) (b_env b)"

definition steady_at :: "('w \<Rightarrow> bool) \<Rightarrow> 'w broker \<Rightarrow> bool" where
  "steady_at P b \<longleftrightarrow> steady b \<and> P (b_world b)"

lemma steady_next: "steady_at P b \<Longrightarrow> next_incident b = (oc, b') \<Longrightarrow> steady_at P b'"
  by (cases "b_env b") (auto simp: next_incident_def steady_at_def steady_def)

lemma keeps_steady_action:
  assumes "\<And>b. steady_at P b \<Longrightarrow> steady_at P (eff b)" and "\<And>b. steady_at P b \<Longrightarrow> steady_at P (partial b)"
  shows "keeps (steady_at P) (attempt eff partial)"
proof (rule keepsI)
  fix b :: "'a broker"
  assume b: "steady_at P b"
  obtain oc b' where n: "next_incident b = (oc, b')" by fastforce
  have dead: "steady_at P (c\<lparr>b_dead := True\<rparr>)" if "steady_at P c" for c :: "'a broker"
    using that by (simp add: steady_at_def steady_def)
  show "steady_at P (snd (run_state (attempt eff partial) b))"
    using b steady_next [OF b n] assms dead by (auto simp: attempt_def n split: outcome.split)
qed

lemma keeps_steady_IsActive: "keeps (steady_at P) (IsActive sm s)"
  unfolding IsActive_def by (intro keeps_intros keeps_steady_action) simp_all

lemma calm_steady [simp]: "calm (steady_at (\<lambda>_. True))"
proof -
  have "steady_at (\<lambda>_. True) (snd (next_incident b))" if "steady_at (\<lambda>_. True) b" for b :: "'a broker"
    using steady_next [OF that] by (metis prod.collapse)
  then show ?thesis by (simp add: calm_def steady_at_def steady_def)
qed

lemma marker_blind_steady [simp]: "marker_blind (steady_at P)"
  by (simp add: marker_blind_def steady_at_def steady_def)

lemma keeps_steady_put: "keeps (steady_at P) (modify (put_fence mid f))" "keeps (steady_at P) (modify (del_fence mid))"
  by (rule keeps_modify; simp add: steady_at_def steady_def put_fence_def del_fence_def)+

lemma keeps_steady_persist: "keeps (steady_at P) persistFences"
  unfolding persistFences_def by (intro keeps_steady_action) (simp_all add: steady_at_def steady_def)

lemma IsActive_observes:
  "triple (steady_at P) (IsActive sm s)
     (\<lambda>r t. case r of Inl _ \<Rightarrow> steady_at P t | Inr a \<Rightarrow> steady_at (\<lambda>w. P w \<and> sm_active sm w s = a) t)"
proof -
  have "triple (steady_at P) (action id) (\<lambda>_. steady_at P)"
    unfolding keeps_def [symmetric] by (intro keeps_steady_action) simp_all
  then show ?thesis
    unfolding IsActive_def
    by (rule triple_tryE) (auto intro!: triple_bind [where R = "\<lambda>x b. steady_at P b \<and> b = x"] triple_get triple_okE
        simp: steady_at_def)
qed

lemma verifyServicesInactive_observes:
  "triple (steady_at P) (verifyServicesInactive sm ss)
     (\<lambda>r t. case r of Inl _ \<Rightarrow> steady_at (\<lambda>_. True) t
          | Inr _ \<Rightarrow> steady_at (\<lambda>w. P w \<and> (\<forall>s \<in> set ss. \<not> sm_active sm w s)) t)" (is "triple _ _ ?Q")
proof -
  let ?I = "\<lambda>ys. steady_at (\<lambda>w. P w \<and> (\<forall>s \<in> set ys. \<not> sm_active sm w s))"
  have "triple (?I []) (verifyServicesInactive sm ss) ?Q"
    unfolding verifyServicesInactive_def
  proof (rule triple_forE [where I = ?I])
    fix ys x zs
    show "triple (?I ys) (tryE (IsActive sm x) (\<lambda>active. guardE (\<not> active) NotInactive (okE ())))
      (\<lambda>r s. case r of Inl e \<Rightarrow> ?Q (Inl e) s | Inr _ \<Rightarrow> ?I (ys @ [x]) s)"
      by (rule triple_tryE [OF IsActive_observes])
        (auto intro!: triple_guardE triple_okE simp: steady_at_def)
  qed simp
  then show ?thesis by (simp add: steady_at_def)
qed

lemma confirm_activation_Inr:
  assumes "run_state (confirm_activation sm task ss intent) b = (Inr out, t)"
  obtains c1 c2 b' where "run_state (stop_all sm ss) b = (False, c1)"
    and "run_state (verifyServicesInactive sm ss) c1 = (Inr (), c2)"
    and "next_incident (put_fence (t_migration_id task) (confirm_fence intent (b_clock c2)) c2) = (Done, b')"
    and "t = b'\<lparr>b_state_file := Some (Document (marshal_state (b_state b')))\<rparr>"
  using assms
  by (auto simp: confirm_activation_def time_now_def persistFences_def Let_def split: if_splits prod.splits sum.splits
      elim!: attempt_Inr)

definition unconflicted :: "string \<Rightarrow> string list \<Rightarrow> brokerPersistentState \<Rightarrow> state_file option \<Rightarrow> bool" where
  "unconflicted mid ss s d \<longleftrightarrow>
     \<not> list_ex (\<lambda>(m, f). m \<noteq> mid \<and> f_active f \<and> intersectsServices (f_services f) ss) (s_writer_fences s)"

lemma not_conflicting: "\<not> conflicting b mid ss \<longleftrightarrow> of_state (unconflicted mid ss) b"
  by (simp add: conflicting_def of_state_def unconflicted_def)

lemma unconflicted_put:
  "of_state (unconflicted mid ss) b \<Longrightarrow> of_state (unconflicted mid ss) (put_fence mid f b)"
  "of_state (unconflicted mid ss) b \<Longrightarrow> of_state (unconflicted mid ss) (del_fence mid b)"
  using set_go_put [of mid f "s_writer_fences (b_state b)"]
  by (fastforce simp: of_state_def unconflicted_def list_ex_iff put_fence_def del_fence_def set_go_del)+

lemma unconflicted_saves [simp]: "saves (unconflicted mid ss)"
  by (simp add: saves_def unconflicted_def)

lemma install_intent_keeps:
  assumes "calm I" and "\<And>f. keeps I (modify (put_fence (t_migration_id task) f))"
    and "keeps I (modify (del_fence (t_migration_id task)))" and "keeps I persistFences"
  shows "keeps I (install_intent sm task ss prior intent)"
  using assms unfolding install_intent_def by (auto intro!: keeps_intros split: option.split)

text \<open>
  \<^bold>\<open>C25\<close>. What a successful \<open>fence-writers\<close> task guarantees: the fence of the migration is active in memory and in
  the state file, with the scope, the run and the fencing token of the task; the boot inhibitor
  of every service stands; no other active fence covers one of the services; and, when nobody
  else restarted a service meanwhile, every service is inactive.
\<close>

theorem activation_success:
  assumes "guarded b" and "run_state (activateWriterFence sm task services) b = (Inr out, t)"
  shows "\<exists>f. writer_fence t (t_migration_id task) = Some f \<and> f_active f \<and> f_phase f = writerFenceActive
      \<and> f_services f = services \<and> brokerTaskRunID task = Inr (f_run_id f) \<and> f_fencing_token f = t_fencing_token task
      \<and> map_of (file_fences (b_state_file t)) (t_migration_id task) = Some (marshal_fence f)
      \<and> inhibited (marker_names t) services \<and> \<not> conflicting t (t_migration_id task) services
      \<and> (steady b \<longrightarrow> (\<forall>s \<in> set services. \<not> sm_active sm (b_world t) s))"
proof (cases rule: activateWriterFence_shape [OF assms(2)])
  case (1 e)
  then show ?thesis by simp
next
  case (2 runID pa c)
  let ?mid = "t_migration_id task"
  let ?prior = "writer_fence b ?mid"
  let ?intent = "intent_fence (case ?prior of Some p \<Rightarrow> p | None \<Rightarrow> zero_fence) task runID services pa"
  from 2(5) obtain d1 d2 where d1: "run_state (activateServiceFenceInhibitors services) c = (Inr (), d1)"
    and d2: "run_state (install_intent sm task services ?prior ?intent) d1 = (Inr (), d2)"
    and t: "run_state (confirm_activation sm task services ?intent) d2 = (Inr out, t)"
    by (auto split: prod.splits sum.splits)
  from t obtain c1 c2 b' where c1: "run_state (stop_all sm services) d2 = (False, c1)"
    and c2: "run_state (verifyServicesInactive sm services) c1 = (Inr (), c2)"
    and b': "next_incident (put_fence ?mid (confirm_fence ?intent (b_clock c2)) c2) = (Done, b')"
    and t': "t = b'\<lparr>b_state_file := Some (Document (marshal_state (b_state b')))\<rparr>"
    by (rule confirm_activation_Inr)
  let ?f = "confirm_fence ?intent (b_clock c2)"
  have st: "b_state t = b_state (put_fence ?mid ?f c2)" "b_world t = b_world b'"
    using next_incident_frame [OF b'] t' by auto
  have f: "writer_fence t ?mid = Some ?f"
    by (simp add: writer_fence_def st put_fence_def)
  have doc: "map_of (file_fences (b_state_file t)) ?mid = Some (marshal_fence ?f)"
    using f by (simp add: t' map_of_map_val writer_fence_def)
  have "guarded_with services d1"
    using tripleD [OF activate_inhibitors_guard 2(4) [OF calm_guarded assms(1)] d1] by simp
  then have "guarded_with services d2"
    by (rule keeps_run [OF _ _ d2, rotated]) (rule install_intent_guard, use 2(3) in auto)
  then have "guarded_with services t"
    by (rule keeps_run [OF _ _ t, rotated]) (rule confirm_activation_guard, simp)
  moreover have "\<not> conflicting t ?mid services"
  proof -
    let ?I = "of_state (unconflicted ?mid services)"
    have "?I c" by (rule 2(4)) (use 2(2) in \<open>simp_all add: not_conflicting\<close>)
    then have "?I d1" by (rule keeps_run [OF _ _ d1, rotated]) (intro keeps_intros; simp)
    then have "?I d2"
      by (rule keeps_run [OF _ _ d2, rotated])
        (auto intro!: install_intent_keeps keeps_modify keeps_persistFences unconflicted_put)
    then have "?I c1" by (rule keeps_run [OF _ _ c1, rotated]) (intro keeps_intros; simp)
    then have "?I c2" by (rule keeps_run [OF _ _ c2, rotated]) (intro keeps_intros; simp)
    then have "?I (put_fence ?mid ?f c2)" by (rule unconflicted_put)
    then show ?thesis by (simp add: not_conflicting of_state_def unconflicted_def st)
  qed
  moreover have "\<forall>s \<in> set services. \<not> sm_active sm (b_world t) s" if "steady b"
  proof -
    let ?I = "steady_at (\<lambda>_. True) :: 'a broker \<Rightarrow> bool"
    have "?I c" by (rule 2(4) [OF calm_steady]) (use that in \<open>simp add: steady_at_def\<close>)
    then have "?I d1" by (rule keeps_run [OF _ _ d1, rotated]) (intro keeps_intros; simp)
    then have "?I d2"
      by (rule keeps_run [OF _ _ d2, rotated])
        (auto intro!: install_intent_keeps keeps_steady_put keeps_steady_persist)
    then have "?I c1" by (rule keeps_run [OF _ _ c1, rotated]) (intro keeps_intros; simp)
    from tripleD [OF verifyServicesInactive_observes this c2]
    have "steady_at (\<lambda>w. \<forall>s \<in> set services. \<not> sm_active sm w s) c2" by simp
    then have "steady_at (\<lambda>w. \<forall>s \<in> set services. \<not> sm_active sm w s) (put_fence ?mid ?f c2)"
      by (simp add: steady_at_def steady_def put_fence_def)
    from steady_next [OF this b'] show ?thesis by (simp add: st steady_at_def)
  qed
  moreover have "f_active ?f" "f_phase ?f = writerFenceActive" "f_services ?f = services" "f_run_id ?f = runID"
      "f_fencing_token ?f = t_fencing_token task"
    by (simp_all add: confirm_fence_def intent_fence_def)
  ultimately show ?thesis
    using f doc 2(1) by (auto simp: guarded_with_def)
qed

section \<open>Release\<close>

definition holds_fence :: "string \<Rightarrow> (writerFenceState \<Rightarrow> bool) \<Rightarrow> brokerPersistentState \<Rightarrow> state_file option \<Rightarrow> bool" where
  "holds_fence mid P s d \<longleftrightarrow> (\<exists>f. map_of (s_writer_fences s) mid = Some f \<and> P f)"

lemma holds_fence_saves [simp]: "saves (holds_fence mid P)"
  by (simp add: saves_def holds_fence_def)

lemma holds_fence_iff: "of_state (holds_fence mid P) b \<longleftrightarrow> (\<exists>f. writer_fence b mid = Some f \<and> P f)"
  by (simp add: of_state_def holds_fence_def writer_fence_def)

lemma holds_fence_put [simp]: "of_state (holds_fence mid P) (put_fence mid f b) \<longleftrightarrow> P f"
  by (simp add: of_state_def holds_fence_def put_fence_def)

text \<open>An active fence over the services of \<open>a\<close>.\<close>

definition stands :: "writerFenceState \<Rightarrow> writerFenceState \<Rightarrow> bool" where
  "stands a g \<longleftrightarrow> f_active g \<and> f_services g = f_services a \<and> f_run_id g = f_run_id a"

lemma persist_keeps_fence: "triple (of_state (holds_fence mid P)) persistFences (\<lambda>_. of_state (holds_fence mid P))"
  using keeps_persistFences [OF holds_fence_saves] unfolding keeps_def .

lemma restore_stands:
  "triple (\<lambda>_. True) (restoreActiveWriterFence sm a) (\<lambda>_. of_state (holds_fence (f_migration_id a) (stands a)))"
proof -
  have rest: "triple (\<lambda>_. True) (do { modify (put_fence (f_migration_id a) g);
      _ \<leftarrow> (persistFences :: ('a, unit) bop); return () })
    (\<lambda>_. of_state (holds_fence (f_migration_id a) (stands a)))" if "stands a g" for g
    by (rule triple_bind [where R = "\<lambda>_. of_state (holds_fence (f_migration_id a) (stands a))"],
        rule triple_modify, use that in simp, rule triple_bind [OF persist_keeps_fence], rule triple_return)
  have any: "triple (\<lambda>_. True) m (\<lambda>_ _. True)" for m :: "('a broker, 'c) state"
    by (simp add: triple_def)
  show ?thesis
    unfolding restoreActiveWriterFence_def
    by (rule triple_bind [OF any], rule triple_bind [OF any], rule triple_bind [OF any], rule triple_bind [OF any])
      (rule rest, simp add: stands_def)
qed

lemma complete_release_fail_closed:
  assumes "run_state (completeAuthorizedWriterFenceRelease sm a) b = (Inl e, t)"
    and "\<not> f_active a" and "f_phase a = writerFenceReleaseAuthorized"
  shows "of_state (holds_fence (f_migration_id a) (stands a)) t"
proof -
  have restored: "of_state (holds_fence (f_migration_id a) (stands a)) u"
    if "run_state (restoreActiveWriterFence sm a) c = (x, u)" for c x u
    using tripleD [OF restore_stands _ that] by simp
  show ?thesis
    using assms unfolding completeAuthorizedWriterFenceRelease_def
    by (auto simp: Let_def split: prod.splits sum.splits if_splits dest: restored)
qed

text \<open>The ways a release can run.\<close>

lemma releaseWriterFence_shape:
  assumes "run_state (releaseWriterFence sm task ss) b = (r, t)"
  obtains (refused) e where "r = Inl e" and "\<And>I. calm I \<Longrightarrow> I b \<Longrightarrow> I t"
  | (unowned) runID where "brokerTaskRunID task = Inr runID" and "writer_fence b (t_migration_id task) = None"
      and "run_state (record_unowned_release sm task runID ss (b_clock b)) b = (r, t)"
  | (repeated) f where "brokerTaskRunID task = Inr (f_run_id f)" and "writer_fence b (t_migration_id task) = Some f"
      and "f_services f = ss" and "\<not> f_active f"
      and "run_state (record_repeated_release sm task ss f (b_clock b)) b = (r, t)"
  | (resumed) f x where "brokerTaskRunID task = Inr (f_run_id f)" and "writer_fence b (t_migration_id task) = Some f"
      and "f_services f = ss" and "\<not> f_active f" and "f_phase f = writerFenceReleaseAuthorized" and "is_err x = is_err r"
      and "run_state (completeAuthorizedWriterFenceRelease sm
             (f\<lparr>f_fencing_token := t_fencing_token task, f_last_verified_at := Stamp (b_clock b)\<rparr>)) b = (x, t)"
  | (unauthorized) f c e where "r = Inl e" and "writer_fence b (t_migration_id task) = Some f" and "f_active f"
      and "\<And>I. calm I \<Longrightarrow> I b \<Longrightarrow> I c" and "run_state (authorize_release task f) c = (Inl e, t)"
  | (completed) f c a d x where "brokerTaskRunID task = Inr (f_run_id f)" and "writer_fence b (t_migration_id task) = Some f"
      and "f_services f = ss" and "f_active f" and "\<And>I. calm I \<Longrightarrow> I b \<Longrightarrow> I c"
      and "run_state (authorize_release task f) c = (Inr a, d)"
      and "run_state (completeAuthorizedWriterFenceRelease sm a) d = (x, t)" and "is_err x = is_err r"
proof (cases "brokerTaskRunID task")
  case (Inl e)
  with assms show ?thesis by (intro refused [of e]) (simp_all add: releaseWriterFence_def)
next
  case (Inr runID)
  show ?thesis
  proof (cases "writer_fence b (t_migration_id task)")
    case None
    with assms Inr show ?thesis by (intro unowned) (simp_all add: releaseWriterFence_def time_now_def)
  next
    case (Some f)
    let ?own = "\<not> (f_run_id f \<noteq> runID \<or> \<not> equalStrings (f_services f) ss \<or> f_phase f = writerFenceReleasing)"
    obtain v c where v: "run_state (verifyServicesInactive sm ss) b = (v, c)" by fastforce
    have frame: "I c" if "calm I" "I b" for I
      using keeps_run [OF keeps_verifyServicesInactive [OF that(1)] that(2) v] .
    consider (no) "\<not> ?own" | (rep) ?own "\<not> f_active f" "f_phase f \<noteq> writerFenceReleaseAuthorized"
      | (res) ?own "\<not> f_active f" "f_phase f = writerFenceReleaseAuthorized"
      | (busy) ?own "f_active f" "is_err v" | (act) ?own "f_active f" "\<not> is_err v"
      by blast
    then show ?thesis
    proof cases
      case no
      with assms Inr Some show ?thesis
        by (intro refused [of OwnershipUnproven]) (auto simp: releaseWriterFence_def time_now_def)
    next
      case rep
      with assms Inr Some show ?thesis by (intro repeated [of f]) (auto simp: releaseWriterFence_def time_now_def)
    next
      case res
      obtain x u where u: "run_state (completeAuthorizedWriterFenceRelease sm
             (f\<lparr>f_fencing_token := t_fencing_token task, f_last_verified_at := Stamp (b_clock b)\<rparr>)) b = (x, u)" by fastforce
      with assms Inr Some res have "t = u" "is_err x = is_err r"
        by (auto simp: releaseWriterFence_def time_now_def split: sum.splits)
      with Inr Some res u show ?thesis by (intro resumed [of f x]) auto
    next
      case busy
      with assms Inr Some v have "r = Inl ReleaseWhileActive" and t: "t = c"
        by (auto simp: releaseWriterFence_def time_now_def)
      then show ?thesis by (intro refused) (assumption, unfold t, rule frame)
    next
      case act
      obtain x d where d: "run_state (authorize_release task f) c = (x, d)" by fastforce
      show ?thesis
      proof (cases x)
        case (Inl e)
        with assms Inr Some act v d have "r = Inl e" "t = d"
          by (auto simp: releaseWriterFence_def time_now_def)
        with Inl Some act d frame show ?thesis by (intro unauthorized) auto
      next
        case x: (Inr a)
        obtain y u where u: "run_state (completeAuthorizedWriterFenceRelease sm a) d = (y, u)" by fastforce
        with assms Inr Some act v d x have "t = u" "is_err y = is_err r"
          by (auto simp: releaseWriterFence_def time_now_def split: sum.splits)
        with Inr Some act d x u frame show ?thesis by (intro completed) auto
      qed
    qed
  qed
qed

text \<open>
  \<^bold>\<open>C12\<close>. A release fails closed: when a release task of an active fence returns an error,
  whatever failed and wherever, the fence of the migration is still active over the same services.
\<close>

theorem release_fail_closed:
  assumes "writer_fence b (t_migration_id task) = Some f" and "f_active f" and "f_migration_id f = t_migration_id task"
    and "run_state (releaseWriterFence sm task services) b = (Inl e, t)"
  shows "\<exists>g. writer_fence t (t_migration_id task) = Some g \<and> f_active g \<and> f_services g = f_services f"
proof -
  let ?J = "of_state (holds_fence (t_migration_id task) (stands f)) :: 'a broker \<Rightarrow> bool"
  have start: "?J b" using assms(1,2) by (simp add: holds_fence_iff stands_def)
  have "?J t"
    using assms(4)
  proof (cases rule: releaseWriterFence_shape)
    case refused
    show ?thesis by (rule refused(2) [OF calm_of_state start])
  next
    case (unauthorized f' c e')
    with assms(1,2) show ?thesis
      by (auto simp: authorize_release_def Let_def stands_def split: prod.splits sum.splits)
  next
    case (completed f' c a d x)
    have a: "\<not> f_active a" "f_phase a = writerFenceReleaseAuthorized" "f_migration_id a = t_migration_id task" "stands f = stands a"
      using completed(2,6) assms(1,3)
      by (auto simp: authorize_release_def Let_def stands_def fun_eq_iff split: prod.splits sum.splits)
    from completed(8) obtain e' where "x = Inl e'" by (cases x) auto
    with complete_release_fail_closed [OF _ a(1,2)] completed(7) a(3,4) show ?thesis by simp
  qed (use assms(1,2) in auto)
  then show ?thesis by (auto simp: holds_fence_iff stands_def)
qed

lemma verifyExpected_observes:
  "triple (steady_at P) (verifyExpectedServiceStates sm ss es)
     (\<lambda>r t. case r of Inl _ \<Rightarrow> steady_at (\<lambda>_. True) t
          | Inr _ \<Rightarrow> steady_at (\<lambda>w. P w \<and> (\<forall>s \<in> set ss. sm_active sm w s \<longleftrightarrow> s \<in> set es)) t)" (is "triple _ _ ?Q")
proof -
  let ?I = "\<lambda>ys. steady_at (\<lambda>w. P w \<and> (\<forall>s \<in> set ys. sm_active sm w s \<longleftrightarrow> s \<in> set es))"
  have "triple (?I []) (verifyExpectedServiceStates sm ss es) ?Q"
    unfolding verifyExpectedServiceStates_def
  proof (rule triple_forE [where I = ?I])
    fix ys x zs
    show "triple (?I ys) (tryE (IsActive sm x) (\<lambda>active. guardE (active = (x \<in> set es)) StateNotProvable (okE ())))
      (\<lambda>r s. case r of Inl e \<Rightarrow> ?Q (Inl e) s | Inr _ \<Rightarrow> ?I (ys @ [x]) s)"
      by (rule triple_tryE [OF IsActive_observes])
        (auto intro!: triple_guardE triple_okE simp: steady_at_def)
  qed simp
  then show ?thesis by (simp add: steady_at_def)
qed

text \<open>A released fence that is durable and whose services are as they were before it.\<close>

definition released_in :: "'w svcmgr \<Rightarrow> 'w broker \<Rightarrow> 'w broker \<Rightarrow> string \<Rightarrow> writerFenceState \<Rightarrow> bool" where
  "released_in sm b t mid f \<longleftrightarrow> writer_fence t mid = Some f \<and> \<not> f_active f \<and> f_phase f = writerFenceReleased
     \<and> map_of (file_fences (b_state_file t)) mid = Some (marshal_fence f)
     \<and> (steady b \<longrightarrow> (\<forall>s \<in> set (f_services f). sm_active sm (b_world t) s \<longleftrightarrow> s \<in> set (entries (f_previously_active f))))"

text \<open>Recording a released fence after its services were seen in the expected state.\<close>

lemma record_released:
  assumes "run_state persistFences (put_fence mid f c) = (Inr (), t)"
    and "\<not> f_active f" and "f_phase f = writerFenceReleased"
    and "steady b \<Longrightarrow> steady_at (\<lambda>w. \<forall>s \<in> set (f_services f). sm_active sm w s \<longleftrightarrow> s \<in> set (entries (f_previously_active f))) c"
  shows "released_in sm b t mid f"
proof -
  from assms(1) obtain b' where b': "next_incident (put_fence mid f c) = (Done, b')"
    and t: "t = b'\<lparr>b_state_file := Some (Document (marshal_state (b_state b')))\<rparr>"
    unfolding persistFences_def by (rule attempt_Inr)
  have st: "b_state t = b_state (put_fence mid f c)"
    using next_incident_frame [OF b'] t by auto
  have f: "writer_fence t mid = Some f" by (simp add: writer_fence_def st put_fence_def)
  have doc: "map_of (file_fences (b_state_file t)) mid = Some (marshal_fence f)"
    using f by (simp add: t map_of_map_val writer_fence_def)
  have "\<forall>s \<in> set (f_services f). sm_active sm (b_world t) s \<longleftrightarrow> s \<in> set (entries (f_previously_active f))" if "steady b"
  proof -
    have "steady_at (\<lambda>w. \<forall>s \<in> set (f_services f). sm_active sm w s \<longleftrightarrow> s \<in> set (entries (f_previously_active f))) (put_fence mid f c)"
      using assms(4) [OF that] by (simp add: steady_at_def steady_def put_fence_def)
    from steady_next [OF this b'] show ?thesis by (simp add: t steady_at_def)
  qed
  with f doc assms(2,3) show ?thesis by (simp add: released_in_def)
qed

definition cleared :: "string list \<Rightarrow> 'w broker \<Rightarrow> bool" where
  "cleared ss b \<longleftrightarrow> (\<forall>s \<in> set ss. marker_name s \<notin> marker_names b)"

lemma calm_cleared [simp]: "calm (cleared ss)"
  by (rule calmI) (simp_all add: cleared_def)

lemma release_inhibitors_clear:
  "triple (\<lambda>_. True) (releaseServiceFenceInhibitors ss) (\<lambda>r t. is_err r \<or> cleared ss t)" (is "triple _ _ ?Q")
proof -
  have step: "triple (cleared ys) (release_marker x) (\<lambda>r t. case r of Inl e \<Rightarrow> ?Q (Inl e) t | Inr _ \<Rightarrow> cleared (ys @ [x]) t)"
    for ys x
  proof (rule tripleI)
    fix b :: "'a broker" and r t
    assume pre: "cleared ys b" and run: "run_state (release_marker x) b = (r, t)"
    show "case r of Inl e \<Rightarrow> ?Q (Inl e) t | Inr _ \<Rightarrow> cleared (ys @ [x]) t"
    proof (cases r)
      case (Inr u)
      with run obtain b' where b': "next_incident b = (Done, b')" and t: "t = remove_marker x b'"
        by (auto simp: release_marker_def split: if_splits elim: attempt_Inr)
      have "cleared ys b'" using calm_cleared pre b' by (rule calm_next)
      then show ?thesis by (simp add: Inr t cleared_def remove_marker_def)
    qed simp
  qed
  have loop: "triple (cleared []) (forE ss release_marker) ?Q"
    by (rule triple_forE [where I = cleared]) (rule step, simp)
  have last: "triple (cleared ss) (action id) ?Q"
    using keeps_action_id [OF calm_cleared, of ss] unfolding keeps_def by (rule triple_conseq) simp_all
  have pre: "triple (\<lambda>_. True) (forE ss release_marker) ?Q"
    using loop by (rule triple_conseq) (simp_all add: cleared_def)
  show ?thesis
    unfolding releaseServiceFenceInhibitors_def
    by (rule triple_tryE [OF pre])
      (auto intro!: triple_bind [where R = "\<lambda>_. cleared ss"] triple_get triple_if triple_okE last)
qed

lemma complete_release_Inr:
  assumes "run_state (completeAuthorizedWriterFenceRelease sm a) b = (Inr f, t)"
  shows "released_in sm b t (f_migration_id a) f" and "cleared (f_services a) t"
    and "f_services f = f_services a" and "f_run_id f = f_run_id a"
proof -
  let ?ps = "entries (f_previously_active a)"
  from assms obtain c d where c: "run_state (releaseServiceFenceInhibitors (f_services a)) b = (Inr (), c)"
    and d: "run_state (start_and_verify sm a) c = (Inr (), d)"
    and f: "f = a\<lparr>f_active := False, f_phase := writerFenceReleased, f_last_verified_at := Stamp (b_clock d)\<rparr>"
    and t: "run_state persistFences (put_fence (f_migration_id a) f d) = (Inr (), t)"
    by (auto simp: completeAuthorizedWriterFenceRelease_def time_now_def Let_def split: if_splits prod.splits sum.splits)
  have "steady_at (\<lambda>w. \<forall>s \<in> set (f_services a). sm_active sm w s \<longleftrightarrow> s \<in> set ?ps) d" if "steady b"
  proof -
    have "steady_at (\<lambda>_. True) b" using that by (simp add: steady_at_def)
    then have "steady_at (\<lambda>_. True) c"
      by (rule keeps_run [OF _ _ c, rotated]) (intro keeps_intros; simp)
    moreover have "triple (steady_at (\<lambda>_. True)) (start_and_verify sm a)
      (\<lambda>r t. case r of Inl _ \<Rightarrow> steady_at (\<lambda>_. True) t
        | Inr _ \<Rightarrow> steady_at (\<lambda>w. True \<and> (\<forall>s \<in> set (f_services a). sm_active sm w s \<longleftrightarrow> s \<in> set ?ps)) t)"
      unfolding start_and_verify_def
      by (rule triple_tryE [where R = "\<lambda>_. steady_at (\<lambda>_. True)"])
        (auto simp: keeps_def [symmetric] intro!: keeps_forE keeps_Operate verifyExpected_observes)
    ultimately show ?thesis using d by (auto dest: tripleD)
  qed
  with record_released [OF t, of b sm] show "released_in sm b t (f_migration_id a) f" by (simp add: f)
  have "cleared (f_services a) c" using tripleD [OF release_inhibitors_clear _ c] by simp
  then have "cleared (f_services a) d"
    by (rule keeps_run [OF _ _ d, rotated]) (intro keeps_intros; simp)
  then have "cleared (f_services a) (put_fence (f_migration_id a) f d)"
    by (simp add: cleared_def put_fence_def)
  then show "cleared (f_services a) t"
    by (rule keeps_run [OF _ _ t, rotated]) (unfold persistFences_def, rule keeps_action [OF calm_cleared], simp add: cleared_def)
  show "f_services f = f_services a" "f_run_id f = f_run_id a" by (simp_all add: f)
qed

lemma expected_states_seen:
  assumes "run_state (verifyExpectedServiceStates sm ss es) b = (Inr (), c)" and "steady b"
  shows "steady_at (\<lambda>w. \<forall>s \<in> set ss. sm_active sm w s \<longleftrightarrow> s \<in> set es) c"
  using tripleD [OF verifyExpected_observes [where P = "\<lambda>_. True"] _ assms(1)] assms(2) by (simp add: steady_at_def)

lemma record_unowned_Inr:
  assumes "run_state (record_unowned_release sm task runID ss v) b = (Inr out, t)"
  shows "\<exists>f. released_in sm b t (t_migration_id task) f \<and> f_services f = ss \<and> f_run_id f = runID"
proof -
  let ?f = "zero_fence\<lparr>f_migration_id := t_migration_id task, f_run_id := runID, f_services := ss,
            f_previously_active := Some ss, f_active := False, f_phase := writerFenceReleased,
            f_fencing_token := t_fencing_token task, f_last_verified_at := Stamp v\<rparr>"
  from assms obtain c where c: "run_state (verifyExpectedServiceStates sm ss ss) b = (Inr (), c)"
    and t: "run_state persistFences (put_fence (t_migration_id task) ?f c) = (Inr (), t)"
    by (auto simp: record_unowned_release_def is_err_def split: prod.splits sum.splits if_splits)
  have "released_in sm b t (t_migration_id task) ?f"
    using record_released [OF t, of b sm] expected_states_seen [OF c] by simp
  then show ?thesis by (intro exI [of _ ?f]) simp
qed

lemma record_repeated_Inr:
  assumes "run_state (record_repeated_release sm task ss fence v) b = (Inr out, t)" and "\<not> f_active fence"
    and "f_services fence = ss"
  shows "\<exists>f. released_in sm b t (t_migration_id task) f \<and> f_services f = ss \<and> f_run_id f = f_run_id fence"
proof -
  let ?f = "fence\<lparr>f_fencing_token := t_fencing_token task, f_last_verified_at := Stamp v\<rparr>"
  from assms(1) obtain c where ph: "f_phase fence = writerFenceReleased"
    and c: "run_state (verifyExpectedServiceStates sm ss (entries (f_previously_active fence))) b = (Inr (), c)"
    and t: "run_state persistFences (put_fence (t_migration_id task) ?f c) = (Inr (), t)"
    by (auto simp: record_repeated_release_def Let_def is_err_def split: prod.splits sum.splits if_splits)
  have "released_in sm b t (t_migration_id task) ?f"
    using record_released [OF t, of b sm] expected_states_seen [OF c] assms(2,3) ph by simp
  then show ?thesis using assms(3) by (intro exI [of _ ?f]) simp
qed

text \<open>
  \<^bold>\<open>C26\<close>. What a successful release task guarantees, whether it released the fence, resumed an
  authorised release, or found it released already: the migration's fence is recorded as released in memory and in
  the state file for the task's run and services, and, when nobody else touched the services,
  exactly those that were active before the fence are active. If the fence was active, its boot
  inhibitors are gone.
\<close>

theorem release_success:
  assumes "run_state (releaseWriterFence sm task services) b = (Inr out, t)"
    and "\<And>f. writer_fence b (t_migration_id task) = Some f \<Longrightarrow> f_migration_id f = t_migration_id task"
  shows "\<exists>f. released_in sm b t (t_migration_id task) f \<and> f_services f = services
    \<and> brokerTaskRunID task = Inr (f_run_id f)
    \<and> (\<forall>g. writer_fence b (t_migration_id task) = Some g \<longrightarrow> f_active g \<longrightarrow> cleared services t)"
  using assms(1)
proof (cases rule: releaseWriterFence_shape)
  case (unowned runID)
  then show ?thesis using record_unowned_Inr by fastforce
next
  case (repeated f)
  then show ?thesis using record_repeated_Inr by fastforce
next
  case (resumed f x)
  then obtain g where x: "x = Inr g" by (cases x) auto
  from complete_release_Inr [OF resumed(7) [unfolded x]] resumed(1-4) assms(2) show ?thesis
    by (intro exI [of _ g]) auto
next
  case (completed f c a d x)
  then obtain g where x: "x = Inr g" by (cases x) auto
  have a: "f_services a = services" "f_run_id a = f_run_id f" "f_migration_id a = t_migration_id task"
    using completed(2,3,6) assms(2) by (auto simp: authorize_release_def Let_def split: prod.splits sum.splits)
  have "steady d" if "steady b"
  proof -
    have "steady_at (\<lambda>_. True) c" by (rule completed(5) [OF calm_steady]) (use that in \<open>simp add: steady_at_def\<close>)
    then have "steady_at (\<lambda>_. True) d"
      by (rule keeps_run [OF _ _ completed(6), rotated])
        (auto simp: authorize_release_def Let_def intro!: keeps_intros keeps_steady_put keeps_steady_persist)
    then show ?thesis by (simp add: steady_at_def)
  qed
  with complete_release_Inr [OF completed(7) [unfolded x]] a completed(1,2) show ?thesis
    by (intro exI [of _ g]) (auto simp: released_in_def)
qed auto

end
