(* ===== verification/Broker.thy ===== *)
theory Broker
  imports Fence_Safety
begin

text \<open>
  The broker as a whole (\<open>internal/migration/broker.go\<close>): acceptance of signed tasks against
  fencing tokens and replay, the service operations, the quiescence proof, the request
  dispatcher, start-up, and the state machine of a broker that serves requests, watches its
  fences, is stopped at any point and restarts.
\<close>

section \<open>Acceptance\<close>

record BrokerRequest =
  q_schema_version :: string
  q_request_id :: string
  q_action :: string
  q_task :: TaskEnvelope

definition brokerFenceDomain :: "string \<Rightarrow> string" where
  "brokerFenceDomain primitiveID =
     (if primitiveID \<in> {''migration.host.fence-writers.v1'', ''migration.host.unfence-writers.v1'',
           ''migration.source.verify-quiescence.v1''} then ''host-writers''
      else if primitiveID \<in> {''migration.compose.preflight-target.v1'', ''migration.compose.start-isolated.v1'',
           ''migration.compose.stop.v1''} then ''compose-runtime''
      else if primitiveID = ''migration.cleanup.staging.v1'' then ''staging-cleanup''
      else primitiveID)"

definition fence_key :: "TaskEnvelope \<Rightarrow> string" where
  "fence_key task = t_migration_id task @ '':'' @ brokerFenceDomain (p_id (t_primitive task))"

definition prune_nonces :: "int \<Rightarrow> (string, stamp) gomap \<Rightarrow> (string, stamp) gomap" where
  "prune_nonces now seen = filter (\<lambda>(_, expiry). case parse_time expiry of Some e \<Rightarrow> e > now | None \<Rightarrow> True) seen"

definition token_of :: "brokerPersistentState \<Rightarrow> string \<Rightarrow> int64" where
  "token_of s key = (case map_of (s_fences s) key of Some v \<Rightarrow> v | None \<Rightarrow> 0)"

text \<open>The decision of \<open>acceptFence\<close>: the state it leaves in memory and whether it accepted.\<close>

definition accept_state :: "int \<Rightarrow> TaskEnvelope \<Rightarrow> brokerPersistentState \<Rightarrow> (berr + unit) \<times> brokerPersistentState" where
  "accept_state now task s =
     (if t_nonce task \<in> set (s_seen_nonces s) then (Inl AlreadyConsumed, s)
      else let s = s\<lparr>s_seen_nonce_expiries := prune_nonces now (s_seen_nonce_expiries s)\<rparr> in
        if map_of (s_seen_nonce_expiries s) (t_nonce task) \<noteq> None then (Inl AlreadyConsumed, s)
        else case parse_time (t_expires_at task) of
            None \<Rightarrow> (Inl ExpiryInvalid, s)
          | Some expiresAt \<Rightarrow>
              if \<not> expiresAt > now then (Inl ExpiryInvalid, s)
              else if token_of s (fence_key task) > t_fencing_token task then (Inl StaleFencingToken, s)
              else (Inr (), s\<lparr>
                s_fences := (if token_of s (fence_key task) < t_fencing_token task
                             then go_put (fence_key task) (t_fencing_token task) (s_fences s) else s_fences s),
                s_seen_nonce_expiries := go_put (t_nonce task) (Stamp expiresAt) (s_seen_nonce_expiries s)\<rparr>))"

definition acceptFence :: "TaskEnvelope \<Rightarrow> ('w, unit) bop" where
  "acceptFence task = do {
     b \<leftarrow> get_state;
     let (r, s) = accept_state (b_clock b) task (b_state b);
     modify (\<lambda>b. b\<lparr>b_state := s\<rparr>);
     tryE (return r) (\<lambda>_. persistFences) }"

section \<open>Service operations\<close>

definition scoped_services :: "'w broker \<Rightarrow> TaskEnvelope \<Rightarrow> berr + string list" where
  "scoped_services b task =
     (case stringListInput (taskInputs task) ''service_handles'' 32 of
        Inl e \<Rightarrow> Inl (BadInput e)
      | Inr services \<Rightarrow>
          if \<not> list_all service_name_ok services then Inl ServiceFormat
          else if \<not> list_all (\<lambda>s. s \<in> set (b_allowed b)) services then Inl ServiceNotPreconfigured
          else Inr (sort services))"

definition serviceOperation :: "'w svcmgr \<Rightarrow> TaskEnvelope \<Rightarrow> string \<Rightarrow> ('w, jobj) bop" where
  "serviceOperation sm task act = do {
     b \<leftarrow> get_state;
     tryE (return (scoped_services b task)) (\<lambda>services.
     guardE (b_systemctl b) ControllerUnavailable (
     tryE (action id) (\<lambda>_.
     if act = ''stop'' then activateWriterFence sm task services
     else if act = ''start'' then releaseWriterFence sm task services
     else errE UnsupportedOperation))) }"

section \<open>The quiescence proof\<close>

text \<open>The timer of the loop: at most a second, at most until the deadline.\<close>

definition wait_until :: "int \<Rightarrow> ('w, unit) bop" where
  "wait_until deadline = do {
     b \<leftarrow> get_state;
     let wait = max 0 (min (deadline - b_clock b) (seconds 1));
     attempt (\<lambda>b. b\<lparr>b_clock := b_clock b + wait\<rparr>) id }"

lemma wait_advances:
  assumes "run_state (wait_until deadline) b = (Inr u, t)" and "b_clock b < deadline"
  shows "b_clock b < b_clock t"
proof -
  let ?wait = "max 0 (min (deadline - b_clock b) (seconds 1))"
  from assms(1) have "run_state (attempt (\<lambda>b. b\<lparr>b_clock := b_clock b + ?wait\<rparr>) id) b = (Inr u, t)"
    by (simp add: wait_until_def Let_def)
  then obtain b' where b': "next_incident b = (Done, b')" and t: "t = b'\<lparr>b_clock := b_clock b' + ?wait\<rparr>"
    by (rule attempt_Inr)
  have "b_clock b \<le> b_clock b'" using next_incident_frame [OF b'] by auto
  with assms(2) show ?thesis by (simp add: t seconds_def)
qed

text \<open>The clock never runs backwards during an operation.\<close>

lemma calm_clock [simp]: "calm (\<lambda>b. c \<le> b_clock b)"
proof -
  have "c \<le> b_clock (snd (next_incident b))" if "c \<le> b_clock b" for b :: "'a broker"
    using that next_incident_frame [of b "fst (next_incident b)" "snd (next_incident b)"] by fastforce
  then show ?thesis by (simp add: calm_def)
qed

lemma verifyServicesInactive_clock:
  "run_state (verifyServicesInactive sm ss) b = (r, t) \<Longrightarrow> b_clock b \<le> b_clock t"
  by (rule keeps_run [where I = "\<lambda>c. b_clock b \<le> b_clock c"])
    (rule keeps_verifyServicesInactive, simp_all)

lemma poll_decreases:
  assumes "(r, c) = run_state (verifyServicesInactive sm services) b" and "b_clock c < deadline"
    and "(Inr u, d) = run_state (wait_until deadline) c"
  shows "b_clock b < deadline" and "b_clock b < b_clock d"
  using verifyServicesInactive_clock [OF assms(1) [symmetric]] wait_advances [OF assms(3) [symmetric] assms(2)] assms(2)
  by simp_all

function poll_inactive :: "'w svcmgr \<Rightarrow> string list \<Rightarrow> int \<Rightarrow> 'w broker \<Rightarrow> (berr + unit) \<times> 'w broker" where
  "poll_inactive sm services deadline b =
     (case run_state (verifyServicesInactive sm services) b of
        (Inl e, c) \<Rightarrow> (Inl e, c)
      | (Inr _, c) \<Rightarrow>
          if \<not> b_clock c < deadline then (Inr (), c)
          else (case run_state (wait_until deadline) c of
                  (Inl e, d) \<Rightarrow> (Inl e, d)
                | (Inr _, d) \<Rightarrow> poll_inactive sm services deadline d))"
  by pat_completeness auto
termination
  by (relation "measure (\<lambda>(sm, services, deadline, b). nat (deadline - b_clock b))")
    (auto intro: poll_decreases)

declare poll_inactive.simps [simp del]

definition quiescent_fence :: "int \<Rightarrow> writerFenceState \<Rightarrow> writerFenceState" where
  "quiescent_fence now f =
     (let f = (if f_phase f = writerFenceActivating
               then f\<lparr>f_phase := writerFenceActive,
                      f_activated_at := (if f_activated_at f = Unset then Stamp now else f_activated_at f)\<rparr>
               else f)
      in f\<lparr>f_last_verified_at := Stamp now\<rparr>)"

definition verifyWriterFence :: "'w svcmgr \<Rightarrow> TaskEnvelope \<Rightarrow> ('w, jobj) bop" where
  "verifyWriterFence sm task =
     tryE (return (brokerTaskRunID task)) (\<lambda>runID. do {
       b \<leftarrow> get_state;
       tryE (return (scoped_services b task)) (\<lambda>services.
       guardE (b_systemctl b) ControllerUnavailable (
       tryE (return (case boundedIntegerInput (taskInputs task) ''interval_seconds'' 5 60 of
                       Inl e \<Rightarrow> Inl (BadInput e) | Inr i \<Rightarrow> Inr i)) (\<lambda>interval. do {
         started \<leftarrow> time_now;
         tryE (State (poll_inactive sm services (started + seconds interval))) (\<lambda>_. do {
           b \<leftarrow> get_state;
           case writer_fence b (t_migration_id task) of
             None \<Rightarrow> errE OwnershipUnproven
           | Some fence \<Rightarrow>
               guardE (\<not> (f_run_id fence \<noteq> runID \<or> \<not> f_active fence \<or> f_phase fence = writerFenceReleasing
                          \<or> \<not> equalStrings (f_services fence) services)) OwnershipUnproven (do {
                 let fence = quiescent_fence (b_clock b) fence;
                 modify (put_fence (t_migration_id task) fence);
                 tryE persistFences (\<lambda>_.
                 okE [(''services'', jstrs services), (''writer_fence_active'', JBool True),
                   (''fence_fencing_token'', JInt (f_fencing_token fence)),
                   (''violation_count'', JInt (f_violation_count fence)), (''activated_at'', jstamp (f_activated_at fence)),
                   (''watchdog_error_count'', JInt (f_watchdog_error_count fence)),
                   (''last_watchdog_error_at'', jstamp (f_last_watchdog_error fence)),
                   (''verified_at'', jstamp (f_last_verified_at fence)),
                   (''verification_started_at'', jstamp (Stamp started)), (''interval_seconds'', JInt interval)]) }) }) }))) })"

section \<open>Requests\<close>

datatype broker_code =
    RequestInvalid
  | AttestationFailed
  | TaskUnauthorized
  | Fenced
  | OperationRejected

datatype broker_outputs = Outputs jobj | Attestations "WriterFenceAttestation list"

datatype BrokerResponse = Accepted broker_outputs | Rejected broker_code

record broker_config =
  bc_backend_key_id :: string
  bc_agent_id :: string
  bc_crypto :: crypto

text \<open>
  The dispatcher. The handlers of the clean-up and Compose primitives act on files and containers
  and share no state with the writer fences; they enter as the argument \<open>other\<close>.
\<close>

definition run_primitive :: "'w svcmgr \<Rightarrow> (TaskEnvelope \<Rightarrow> ('w, jobj) bop) \<Rightarrow> TaskEnvelope \<Rightarrow> ('w, jobj) bop" where
  "run_primitive sm other task =
     (let p = p_id (t_primitive task) in
      if p = ''migration.host.fence-writers.v1'' then serviceOperation sm task ''stop''
      else if p = ''migration.host.unfence-writers.v1'' then serviceOperation sm task ''start''
      else if p = ''migration.source.verify-quiescence.v1'' then verifyWriterFence sm task
      else if p \<in> {''migration.cleanup.staging.v1'', ''migration.compose.preflight-target.v1'',
                   ''migration.compose.start-isolated.v1'', ''migration.compose.stop.v1''} then other task
      else errE NotImplemented)"

definition execute :: "broker_config \<Rightarrow> 'w svcmgr \<Rightarrow> (TaskEnvelope \<Rightarrow> ('w, jobj) bop) \<Rightarrow> BrokerRequest
    \<Rightarrow> ('w broker, BrokerResponse) state" where
  "execute cfg sm other request =
     (if q_schema_version request \<noteq> ''operations.migration.broker.v1'' \<or> q_request_id request = []
      then return (Rejected RequestInvalid)
      else if q_action request = ''attest-active-writer-fences'' then do {
        (fences, ok) \<leftarrow> attestWriterFences sm;
        return (if ok then Accepted (Attestations fences) else Rejected AttestationFailed) }
      else let task = q_task request in
        if q_action request \<noteq> [] \<or> q_request_id request \<noteq> t_nonce task \<or> p_version (t_primitive task) \<noteq> ''1.0.0''
        then return (Rejected RequestInvalid)
        else do {
          b \<leftarrow> get_state;
          case verifySignedTaskEnvelope (bc_crypto cfg) (b_clock b) task (bc_backend_key_id cfg) (bc_agent_id cfg) of
            Inl _ \<Rightarrow> return (Rejected TaskUnauthorized)
          | Inr _ \<Rightarrow>
              (case brokerTaskRunID task of
                 Inl _ \<Rightarrow> return (Rejected TaskUnauthorized)
               | Inr _ \<Rightarrow> do {
                   r \<leftarrow> acceptFence task;
                   case r of
                     Inl _ \<Rightarrow> return (Rejected Fenced)
                   | Inr _ \<Rightarrow> do {
                       r \<leftarrow> run_primitive sm other task;
                       return (case r of Inl _ \<Rightarrow> Rejected OperationRejected
                                 | Inr outputs \<Rightarrow> Accepted (Outputs outputs)) } }) })"

section \<open>Start-up\<close>

text \<open>\<open>NewBroker\<close> after the configuration has been parsed: the state file is loaded over the
  initial state and every marker must be owned. \<open>Serve\<close> then enforces the recorded fences, and
  finishes the authorised releases, before it answers a request.\<close>

definition NewBroker :: "'w broker \<Rightarrow> berr + 'w broker" where
  "NewBroker b =
     (case loadFences (b_state_file b) of
        Inl e \<Rightarrow> Inl e
      | Inr s \<Rightarrow>
          let b = b\<lparr>b_state := s, b_dead := False\<rparr> in
          (case validateServiceFenceMarkers b of Some e \<Rightarrow> Inl e | None \<Rightarrow> Inr b))"

definition serve_start :: "'w svcmgr \<Rightarrow> ('w, unit) bop" where
  "serve_start sm = tryE (reconcileWriterFences sm) (\<lambda>_. resumeAuthorizedWriterFenceReleases sm)"

end
