(* ===== verification/Fence_Exclusion.thy ===== *)
theory Fence_Exclusion
  imports Broker
begin

text \<open>
  Mutual exclusion of writer fences, in every reachable state of a broker that may be stopped and
  restarted at any point and whose every action may fail: two migrations never hold a fence over
  a common service, neither in memory nor in the state file.

  Every operation except an activation only changes a fence in place or releases it, so the fences
  afterwards lie \<^emph>\<open>below\<close> those before; an activation adds the one fence it has checked.
\<close>

section \<open>Fence maps\<close>

definition wf_fences :: "(string, writerFenceState) gomap \<Rightarrow> bool" where
  "wf_fences fs \<longleftrightarrow> distinct (map fst fs) \<and> (\<forall>e \<in> set fs. f_migration_id (snd e) = fst e)"

definition exclusive :: "(string, writerFenceState) gomap \<Rightarrow> bool" where
  "exclusive fs \<longleftrightarrow> (\<forall>m n f g. map_of fs m = Some f \<longrightarrow> map_of fs n = Some g \<longrightarrow> m \<noteq> n \<longrightarrow>
     expected_live f \<longrightarrow> expected_live g \<longrightarrow> \<not> intersectsServices (f_services f) (f_services g))"

definition below :: "(string, writerFenceState) gomap \<Rightarrow> (string, writerFenceState) gomap \<Rightarrow> bool" where
  "below fs0 fs \<longleftrightarrow> (\<forall>n g. map_of fs n = Some g \<longrightarrow> expected_live g \<longrightarrow>
     (\<exists>g0. map_of fs0 n = Some g0 \<and> expected_live g0 \<and> f_services g0 = f_services g))"

lemma below_refl [simp]: "below fs fs"
  by (auto simp: below_def)

lemma exclusive_below: "exclusive fs0 \<Longrightarrow> below fs0 fs \<Longrightarrow> exclusive fs"
  unfolding exclusive_def
proof (intro allI impI)
  fix m n f g
  assume ex: "\<forall>m n f g. map_of fs0 m = Some f \<longrightarrow> map_of fs0 n = Some g \<longrightarrow> m \<noteq> n \<longrightarrow>
     expected_live f \<longrightarrow> expected_live g \<longrightarrow> \<not> intersectsServices (f_services f) (f_services g)"
    and "below fs0 fs" "map_of fs m = Some f" "map_of fs n = Some g" "m \<noteq> n" "expected_live f" "expected_live g"
  then obtain f0 g0 where "map_of fs0 m = Some f0" "expected_live f0" "f_services f0 = f_services f"
    and "map_of fs0 n = Some g0" "expected_live g0" "f_services g0 = f_services g"
    unfolding below_def by blast
  with ex \<open>m \<noteq> n\<close> show "\<not> intersectsServices (f_services f) (f_services g)" by metis
qed

lemma below_put:
  "below fs0 fs \<Longrightarrow> (expected_live f \<Longrightarrow> \<exists>g0. map_of fs0 mid = Some g0 \<and> expected_live g0 \<and> f_services g0 = f_services f)
     \<Longrightarrow> below fs0 (go_put mid f fs)"
  by (auto simp: below_def)

lemma below_del: "below fs0 fs \<Longrightarrow> below fs0 (go_del mid fs)"
  by (auto simp: below_def)

lemma below_map:
  "(\<And>f. expected_live (h f) \<Longrightarrow> expected_live f) \<Longrightarrow> (\<And>f. f_services (h f) = f_services f) \<Longrightarrow>
     below fs0 fs \<Longrightarrow> below fs0 (map (map_prod id h) fs)"
  by (auto simp: below_def map_of_map_val)

lemma wf_put: "wf_fences fs \<Longrightarrow> f_migration_id f = mid \<Longrightarrow> wf_fences (go_put mid f fs)"
  using set_go_put [of mid f fs] by (auto simp: wf_fences_def intro: distinct_update)

lemma wf_del: "wf_fences fs \<Longrightarrow> wf_fences (go_del mid fs)"
  by (auto simp: wf_fences_def set_go_del intro: distinct_delete)

lemma wf_map:
  "(\<And>f. f_migration_id (h f) = f_migration_id f) \<Longrightarrow> wf_fences fs \<Longrightarrow> wf_fences (map (map_prod id h) fs)"
  by (auto simp: wf_fences_def comp_def map_prod_def split_beta)

lemma wf_lookup: "wf_fences fs \<Longrightarrow> map_of fs mid = Some f \<Longrightarrow> f_migration_id f = mid"
  by (auto simp: wf_fences_def dest!: map_of_SomeD)

lemma wf_entry: "wf_fences fs \<Longrightarrow> (n, f) \<in> set fs \<Longrightarrow> map_of fs n = Some f"
  by (simp add: wf_fences_def)

lemma live_marshal [simp]: "expected_live (marshal_fence f) = expected_live f"
  by (simp add: expected_live_def)

lemma live_upgrade: "expected_live (upgrade_fence f) \<Longrightarrow> expected_live f" "f_services (upgrade_fence f) = f_services f"
  "f_migration_id (upgrade_fence f) = f_migration_id f"
  by (auto simp: expected_live_def upgrade_fence_def split: if_splits)

section \<open>Operations that only go below\<close>

definition under :: "(string, writerFenceState) gomap \<Rightarrow> brokerPersistentState \<Rightarrow> state_file option \<Rightarrow> bool" where
  "under fs0 s d \<longleftrightarrow> wf_fences (s_writer_fences s) \<and> below fs0 (s_writer_fences s)
     \<and> wf_fences (file_fences d) \<and> exclusive (file_fences d)"

lemma under_saves: "exclusive fs0 \<Longrightarrow> saves (under fs0)"
  by (auto simp: saves_def under_def intro!: wf_map exclusive_below [of fs0] below_map)

lemma under_put:
  "of_state (under fs0) b \<Longrightarrow> f_migration_id f = mid \<Longrightarrow>
     (expected_live f \<Longrightarrow> \<exists>g0. map_of fs0 mid = Some g0 \<and> expected_live g0 \<and> f_services g0 = f_services f) \<Longrightarrow>
     of_state (under fs0) (put_fence mid f b)"
  by (simp add: of_state_def under_def put_fence_def wf_put below_put)

lemma under_del: "of_state (under fs0) b \<Longrightarrow> of_state (under fs0) (del_fence mid b)"
  by (simp add: of_state_def under_def del_fence_def wf_del below_del)

text \<open>The fence at \<open>mid\<close> may be written as long as its services are those of a live fence of \<open>fs0\<close>.\<close>

definition backed :: "(string, writerFenceState) gomap \<Rightarrow> string \<Rightarrow> string list \<Rightarrow> bool" where
  "backed fs0 mid ss \<longleftrightarrow> (\<exists>g0. map_of fs0 mid = Some g0 \<and> expected_live g0 \<and> f_services g0 = ss)"

lemma keeps_under_put:
  "f_migration_id f = mid \<Longrightarrow> (expected_live f \<Longrightarrow> backed fs0 mid (f_services f)) \<Longrightarrow>
     keeps (of_state (under fs0)) (modify (put_fence mid f))"
  by (rule keeps_modify) (auto intro: under_put simp: backed_def)

lemma keeps_under_persist: "exclusive fs0 \<Longrightarrow> keeps (of_state (under fs0)) persistFences"
  by (intro keeps_persistFences under_saves)

lemmas under_rules = keeps_intros keeps_under_put keeps_under_persist

lemma keeps_under_restore:
  "exclusive fs0 \<Longrightarrow> backed fs0 (f_migration_id a) (f_services a) \<Longrightarrow>
     keeps (of_state (under fs0)) (restoreActiveWriterFence sm a)"
  unfolding restoreActiveWriterFence_def
  by (intro under_rules) simp_all

lemma keeps_under_complete:
  "exclusive fs0 \<Longrightarrow> backed fs0 (f_migration_id a) (f_services a) \<Longrightarrow>
     keeps (of_state (under fs0)) (completeAuthorizedWriterFenceRelease sm a)"
  unfolding completeAuthorizedWriterFenceRelease_def Let_def
  by (intro under_rules keeps_under_restore) (simp_all add: expected_live_def)

text \<open>Starting from a state under itself, the fence an operation has looked up is backed.\<close>

lemma backed_lookup:
  "of_state (under fs0) b \<Longrightarrow> writer_fence b mid = Some f \<Longrightarrow> expected_live f \<Longrightarrow> backed fs0 mid (f_services f)"
  by (auto simp: of_state_def under_def below_def backed_def writer_fence_def)

lemma under_lookup_id: "of_state (under fs0) b \<Longrightarrow> writer_fence b mid = Some f \<Longrightarrow> f_migration_id f = mid"
  by (auto simp: of_state_def under_def writer_fence_def intro: wf_lookup)

lemma keeps_bind_get:
  assumes "\<And>b. I b \<Longrightarrow> keeps I (k b)"
  shows "keeps I (State_Monad.bind get_state k)"
  unfolding keeps_def
proof (rule tripleI)
  fix s x t
  assume I: "I s" and run: "run_state (get_state \<bind> k) s = (x, t)"
  from run have "run_state (k s) s = (x, t)" by simp
  with assms [OF I] I show "I t" by (rule keeps_run)
qed

lemma keeps_bind_pure: "(\<And>x. keeps I (k x)) \<Longrightarrow> keeps I (State_Monad.bind time_now k)"
  by (intro keeps_intros)

lemma settled_fence_simps [simp]:
  "f_migration_id (settled_fence now u v w f) = f_migration_id f" "f_services (settled_fence now u v w f) = f_services f"
  "f_active (settled_fence now u v w f) = f_active f" "f_run_id (settled_fence now u v w f) = f_run_id f"
  by (auto simp: settled_fence_def Let_def verified_fence_def count_violation_def count_watchdog_error_def)

lemma keeps_under_settle:
  assumes "exclusive fs0"
  shows "keeps (of_state (under fs0)) (settle_fence sm f v w)"
proof -
  have put: "keeps (of_state (under fs0)) (modify (put_fence (f_migration_id f) (settled_fence now u v w current)))"
    if "of_state (under fs0) b" "writer_fence b (f_migration_id f) = Some current" "f_active current"
    for b now u current
    using that by (intro keeps_under_put) (simp_all add: under_lookup_id backed_lookup expected_live_def)
  show ?thesis
    unfolding settle_fence_def
    by (rule keeps_bind_pure, rule keeps_bind_get, rule keeps_case_option)
      (use assms in \<open>auto intro!: keeps_intros keeps_under_persist intro: put\<close>)
qed

lemma keeps_under_reconcile_all:
  "exclusive fs0 \<Longrightarrow> keeps (of_state (under fs0)) (reconcile_all sm fs)"
  by (induction fs) (auto simp: reconcile_fence_def intro!: keeps_intros keeps_under_settle)

lemma under_mark: "of_state (under fs0) b \<Longrightarrow> of_state (under fs0) (mark_unenforceable b)"
  unfolding mark_unenforceable_def of_state_def under_def
  by (auto intro!: wf_map below_map simp: count_watchdog_error_def count_violation_def expected_live_def split: if_splits)

lemma keeps_under_mark: "keeps (of_state (under fs0)) (modify mark_unenforceable)"
  by (rule keeps_modify) (rule under_mark)

lemma keeps_under_del: "keeps (of_state (under fs0)) (modify (del_fence mid))"
  by (rule keeps_modify) (rule under_del)

lemma keeps_under_reconcile:
  "exclusive fs0 \<Longrightarrow> keeps (of_state (under fs0)) (reconcileWriterFences sm)"
  unfolding reconcileWriterFences_def
  by (intro under_rules keeps_under_reconcile_all keeps_under_mark)

lemma keeps_under_resume:
  assumes "exclusive fs0"
  shows "keeps (of_state (under fs0)) (resumeAuthorizedWriterFenceReleases sm)"
  unfolding resumeAuthorizedWriterFenceReleases_def
proof (rule keeps_bind_get, intro keeps_intros)
  fix b :: "'a broker" and a
  assume b: "of_state (under fs0) b"
    and a: "a \<in> set (filter (\<lambda>f. \<not> f_active f \<and> f_phase f = writerFenceReleaseAuthorized) (map snd (s_writer_fences (b_state b))))"
  from a obtain n where n: "(n, a) \<in> set (s_writer_fences (b_state b))" by auto
  have wf: "wf_fences (s_writer_fences (b_state b))" using b by (simp add: of_state_def under_def)
  have "writer_fence b n = Some a" using wf_entry [OF wf n] by (simp add: writer_fence_def)
  then have "backed fs0 (f_migration_id a) (f_services a)"
    using backed_lookup [OF b] under_lookup_id [OF b] a by (auto simp: expected_live_def)
  with assms show "keeps (of_state (under fs0)) (completeAuthorizedWriterFenceRelease sm a)"
    by (rule keeps_under_complete)
qed

lemma keeps_under_release:
  assumes "exclusive fs0"
  shows "keeps (of_state (under fs0)) (releaseWriterFence sm task services)"
proof -
  have unowned: "keeps (of_state (under fs0)) (record_unowned_release sm task runID services v)" for runID v
    using assms unfolding record_unowned_release_def
    by (intro under_rules keeps_under_del) (simp_all add: expected_live_def)
  have repeated: "keeps (of_state (under fs0)) (record_repeated_release sm task services f v)"
    if "\<not> f_active f" "f_migration_id f = t_migration_id task" for f v
    using assms that unfolding record_repeated_release_def Let_def
    by (intro under_rules) (simp_all add: expected_live_def)
  have auth: "triple (of_state (under fs0)) (authorize_release task f)
      (\<lambda>r t. of_state (under fs0) t \<and> (\<forall>a. r = Inr a \<longrightarrow> f_migration_id a = f_migration_id f \<and> f_services a = f_services f))"
    if "backed fs0 (t_migration_id task) (f_services f)" "f_migration_id f = t_migration_id task" for f
  proof -
    have "keeps (of_state (under fs0)) (authorize_release task f)"
      using assms that unfolding authorize_release_def Let_def by (intro under_rules) simp_all
    moreover have "triple (of_state (under fs0)) (authorize_release task f)
      (\<lambda>r t. \<forall>a. r = Inr a \<longrightarrow> f_migration_id a = f_migration_id f \<and> f_services a = f_services f)"
      by (rule tripleI) (auto simp: authorize_release_def Let_def split: prod.splits sum.splits)
    ultimately show ?thesis unfolding keeps_def by (rule triple_conj)
  qed
  have active: "keeps (of_state (under fs0)) (tryE (authorize_release task f) (\<lambda>authorized.
             tryE (completeAuthorizedWriterFenceRelease sm authorized) (\<lambda>released.
             okE (released_outputs services released))))"
    if "backed fs0 (t_migration_id task) (f_services f)" "f_migration_id f = t_migration_id task" for f
    unfolding keeps_def
  proof (rule triple_tryE [OF auth [OF that]])
    fix a
    have "triple (of_state (under fs0)) (tryE (completeAuthorizedWriterFenceRelease sm a) (\<lambda>released. okE (released_outputs services released)))
      (\<lambda>_. of_state (under fs0))" if "f_migration_id a = f_migration_id f \<and> f_services a = f_services f"
      unfolding keeps_def [symmetric]
      using assms that \<open>backed fs0 _ _\<close> \<open>f_migration_id f = _\<close> by (intro keeps_intros keeps_under_complete) simp_all
    then show "triple (\<lambda>t. of_state (under fs0) t \<and> (\<forall>a'. Inr a = Inr a' \<longrightarrow> f_migration_id a' = f_migration_id f \<and> f_services a' = f_services f))
      (tryE (completeAuthorizedWriterFenceRelease sm a) (\<lambda>released. okE (released_outputs services released)))
      (\<lambda>_. of_state (under fs0))"
      by (auto simp: triple_def)
  qed simp
  show ?thesis
    unfolding releaseWriterFence_def
    apply (rule keeps_tryE, rule keeps_return)
    apply (rule keeps_bind_get)
    apply (rule keeps_bind_pure)
    apply (rule keeps_case_option)
     apply (rule unowned)
    apply (rule keeps_guardE, rule keeps_if, rule keeps_if)
      apply (rule keeps_tryE)
       apply (rule keeps_under_complete [OF assms])
       apply (frule (1) under_lookup_id, drule (1) backed_lookup, simp add: expected_live_def, simp)
      apply (rule keeps_okE)
     apply (rule repeated, assumption, erule (1) under_lookup_id)
    apply (rule keeps_bind)
     apply (rule keeps_verifyServicesInactive, simp)
    apply (rule keeps_guardE)
    apply (rule active)
     apply (drule (1) backed_lookup, simp add: expected_live_def, assumption)
    apply (erule (1) under_lookup_id)
    done
qed

lemma keeps_wait_until: "timeless I \<Longrightarrow> keeps I (wait_until dl)"
  unfolding wait_until_def Let_def timeless_def
  by (intro keeps_bind keeps_get keeps_attempt) auto

lemma keeps_poll:
  assumes "timeless I"
  shows "keeps I (State (poll_inactive sm ss dl))"
proof (rule keepsI)
  fix b :: "'a broker"
  assume "I b"
  then have "I (snd (poll_inactive sm ss dl b))"
  proof (induction sm ss dl b rule: poll_inactive.induct)
    case (1 sm ss dl b)
    obtain r c where c: "run_state (verifyServicesInactive sm ss) b = (r, c)" by fastforce
    have calm: "calm I" using assms by (simp add: timeless_def)
    have Ic: "I c" using keeps_run [OF keeps_verifyServicesInactive [OF calm] "1.prems" c] .
    obtain r' d where d: "run_state (wait_until dl) c = (r', d)" by fastforce
    have Id: "I d" using keeps_run [OF keeps_wait_until [OF assms] Ic d] .
    show ?case
    proof (cases "is_err r \<or> \<not> b_clock c < dl \<or> is_err r'")
      case True
      then show ?thesis
        by (subst poll_inactive.simps) (use c d Ic Id in \<open>auto simp: is_err_def split: sum.splits\<close>)
    next
      case False
      then obtain u u' where r: "r = Inr u" "r' = Inr u'" "b_clock c < dl"
        by (auto simp: is_err_def split: sum.splits)
      have "I (snd (poll_inactive sm ss dl d))"
        using "1.IH" [of r c u r' d u'] c d r Id by simp
      with r c d show ?thesis by (subst poll_inactive.simps) simp
    qed
  qed
  then show "I (snd (run_state (State (poll_inactive sm ss dl)) b))" by simp
qed

lemma keeps_of_state_poll [keeps_intros]: "keeps (of_state J) (State (poll_inactive sm ss dl))"
  by (rule keeps_poll) simp

lemma quiescent_fence_simps [simp]:
  "f_migration_id (quiescent_fence now f) = f_migration_id f" "f_services (quiescent_fence now f) = f_services f"
  "f_active (quiescent_fence now f) = f_active f" "f_run_id (quiescent_fence now f) = f_run_id f"
  by (auto simp: quiescent_fence_def Let_def)

text \<open>The last step of the quiescence proof, on the state it reads.\<close>

lemma keeps_verifyWriterFence:
  fixes sm :: "'w svcmgr"
  assumes "saves J"
    and "\<And>(b :: 'w broker) f now. of_state J b \<Longrightarrow> writer_fence b (t_migration_id task) = Some f \<Longrightarrow> f_active f \<Longrightarrow>
        keeps (of_state J :: 'w broker \<Rightarrow> bool) (modify (put_fence (t_migration_id task) (quiescent_fence now f)))"
  shows "keeps (of_state J) (verifyWriterFence sm task)"
  unfolding verifyWriterFence_def Let_def
  apply (rule keeps_tryE, rule keeps_return)
  apply (rule keeps_bind_get)
  apply (rule keeps_tryE, rule keeps_return, rule keeps_guardE, rule keeps_tryE, rule keeps_return)
  apply (rule keeps_bind, rule keeps_time_now)
  apply (rule keeps_tryE, rule keeps_of_state_poll)
  apply (rule keeps_bind_get)
  apply (rule keeps_case_option, rule keeps_errE)
  apply (rule keeps_guardE)
  apply (rule keeps_bind, rule assms(2), assumption, assumption, blast)
  apply (rule keeps_tryE, rule keeps_persistFences [OF assms(1)], rule keeps_okE)
  done

lemma keeps_under_verify:
  "exclusive fs0 \<Longrightarrow> keeps (of_state (under fs0)) (verifyWriterFence sm task)"
  by (rule keeps_verifyWriterFence)
    (auto intro!: under_saves keeps_under_put dest: under_lookup_id backed_lookup simp: expected_live_def)

section \<open>Activation adds the fence it has checked\<close>

text \<open>The migrations whose authorised release is unfinished lie in \<open>S\<close>.\<close>

definition unfinished_in :: "string set \<Rightarrow> brokerPersistentState \<Rightarrow> state_file option \<Rightarrow> bool" where
  "unfinished_in S s d \<longleftrightarrow>
     (\<forall>n g. map_of (s_writer_fences s) n = Some g \<longrightarrow> expected_live g \<longrightarrow> \<not> f_active g \<longrightarrow> n \<in> S)"

abbreviation settled_releases :: "brokerPersistentState \<Rightarrow> state_file option \<Rightarrow> bool" where
  "settled_releases \<equiv> unfinished_in {}"

definition sound :: "brokerPersistentState \<Rightarrow> state_file option \<Rightarrow> bool" where
  "sound s d \<longleftrightarrow> wf_fences (s_writer_fences s) \<and> exclusive (s_writer_fences s)
     \<and> wf_fences (file_fences d) \<and> exclusive (file_fences d)"

lemma sound_under: "sound s d \<longleftrightarrow> under (s_writer_fences s) s d \<and> exclusive (s_writer_fences s)"
  by (auto simp: sound_def under_def)

lemma under_sound: "exclusive fs0 \<Longrightarrow> of_state (under fs0) b \<Longrightarrow> of_state sound b"
  by (auto simp: of_state_def sound_def under_def intro: exclusive_below)

lemma keeps_sound:
  assumes "\<And>fs0. exclusive fs0 \<Longrightarrow> keeps (of_state (under fs0)) m"
  shows "keeps (of_state sound) m"
proof (rule keepsI)
  fix b :: "'a broker"
  assume "of_state sound b"
  then have ex: "exclusive (s_writer_fences (b_state b))"
    and un: "of_state (under (s_writer_fences (b_state b))) b"
    by (simp_all add: of_state_def sound_under)
  from keepsD [OF assms [OF ex] un] show "of_state sound (snd (run_state m b))"
    by (rule under_sound [OF ex])
qed

lemma intersects_sym: "intersectsServices ls rs \<Longrightarrow> intersectsServices rs ls"
  by (auto simp: intersectsServices_def list_ex_iff equal_fold_def) metis

lemma exclusive_put:
  assumes "exclusive fs" and "\<And>n g. map_of fs n = Some g \<Longrightarrow> n \<noteq> mid \<Longrightarrow> expected_live g \<Longrightarrow> \<not> intersectsServices (f_services g) (f_services f)"
  shows "exclusive (go_put mid f fs)"
  using assms unfolding exclusive_def by (auto split: if_splits dest: intersects_sym)

lemma activation_sound:
  assumes "of_state sound b" and "of_state settled_releases b"
  shows "of_state sound (snd (run_state (activateWriterFence sm task services) b))"
proof -
  obtain r t where run: "run_state (activateWriterFence sm task services) b = (r, t)" by fastforce
  then have "of_state sound t"
  proof (cases rule: activateWriterFence_shape)
    case refused
    show ?thesis by (rule refused(2) [OF calm_of_state assms(1)])
  next
    case (phases runID pa c)
    let ?mid = "t_migration_id task"
    let ?fs = "s_writer_fences (b_state b)"
    let ?prior = "writer_fence b ?mid"
    let ?intent = "intent_fence (case ?prior of Some p \<Rightarrow> p | None \<Rightarrow> zero_fence) task runID services pa"
    let ?new = "go_put ?mid ?intent ?fs"
    have live: "f_active g" if "map_of ?fs n = Some g" "expected_live g" for n g
      using assms(2) that by (auto simp: of_state_def unfinished_in_def)
    have ex: "exclusive ?new"
    proof (rule exclusive_put)
      show "exclusive ?fs" using assms(1) by (simp add: of_state_def sound_def)
      fix n g
      assume "map_of ?fs n = Some g" "n \<noteq> ?mid" "expected_live g"
      with phases(2) live show "\<not> intersectsServices (f_services g) (f_services ?intent)"
        by (auto simp: conflicting_def list_ex_iff dest: map_of_SomeD)
    qed
    have standing: "backed ?new ?mid services"
      by (simp add: backed_def expected_live_def)
    have "below ?new ?fs"
      using phases(3) live by (auto simp: below_def writer_fence_def expected_live_def)
    then have "of_state (under ?new) b"
      using assms(1) by (simp add: of_state_def sound_def under_def)
    from phases(4) [OF calm_of_state this] have c: "of_state (under ?new) c" .
    have id: "f_migration_id ?intent = ?mid" "f_migration_id (confirm_fence ?intent now) = ?mid"
      "f_migration_id (unconfirmed_fence (confirm_fence ?intent now)) = ?mid" for now
      by (simp_all add: intent_fence_def confirm_fence_def unconfirmed_fence_def)
    have prior: "keeps (of_state (under ?new)) (modify (case ?prior of Some p \<Rightarrow> put_fence ?mid p | None \<Rightarrow> del_fence ?mid))"
    proof (cases ?prior)
      case (Some p)
      have "f_migration_id p = ?mid"
        using assms(1) Some by (auto simp: of_state_def sound_def writer_fence_def intro: wf_lookup)
      moreover have "backed ?new ?mid (f_services p)" if "expected_live p"
        using phases(3) [OF Some] live that Some standing by (simp add: writer_fence_def)
      ultimately show ?thesis using Some by (simp add: keeps_under_put)
    qed (simp add: keeps_under_del)
    have "keeps (of_state (under ?new)) (tryE (activateServiceFenceInhibitors services) (\<lambda>_.
        tryE (install_intent sm task services ?prior ?intent) (\<lambda>_. confirm_activation sm task services ?intent)))"
      unfolding install_intent_def confirm_activation_def Let_def
      using ex standing id prior by (intro under_rules) simp_all
    from keeps_run [OF this c phases(5)] show ?thesis by (rule under_sound [OF ex])
  qed
  with run show ?thesis by simp
qed

section \<open>No unfinished release while serving\<close>

lemma unfinished_saves [simp]: "saves (unfinished_in S)"
  by (simp add: saves_def unfinished_in_def)

lemma keeps_unfinished_put:
  "(expected_live f \<Longrightarrow> f_active f \<or> mid \<in> S) \<Longrightarrow> keeps (of_state (unfinished_in S)) (modify (put_fence mid f))"
  by (rule keeps_modify) (auto simp: of_state_def unfinished_in_def put_fence_def)

lemma keeps_unfinished_del: "keeps (of_state (unfinished_in S)) (modify (del_fence mid))"
  by (rule keeps_modify) (auto simp: of_state_def unfinished_in_def del_fence_def)

lemmas unfinished_rules = keeps_intros keeps_unfinished_put keeps_unfinished_del

lemma keeps_unfinished_restore: "keeps (of_state (unfinished_in S)) (restoreActiveWriterFence sm a)"
  unfolding restoreActiveWriterFence_def by (intro unfinished_rules) simp_all

lemma keeps_unfinished_complete:
  "f_migration_id a \<in> S \<Longrightarrow> keeps (of_state (unfinished_in S)) (completeAuthorizedWriterFenceRelease sm a)"
  unfolding completeAuthorizedWriterFenceRelease_def Let_def
  by (intro unfinished_rules keeps_unfinished_restore) (simp_all add: expected_live_def)

lemma unfinished_drop:
  "of_state (unfinished_in S) b \<Longrightarrow> of_state (holds_fence mid (\<lambda>f. expected_live f \<longrightarrow> f_active f)) b \<Longrightarrow>
     of_state (unfinished_in (S - {mid})) b"
  by (auto simp: of_state_def unfinished_in_def holds_fence_def)

lemma complete_finishes:
  assumes "run_state (completeAuthorizedWriterFenceRelease sm a) b = (x, t)"
    and "\<not> f_active a" and "f_phase a = writerFenceReleaseAuthorized"
    and "of_state (unfinished_in (insert (f_migration_id a) S)) b"
  shows "of_state (unfinished_in (S - {f_migration_id a})) t"
proof -
  have "of_state (unfinished_in (insert (f_migration_id a) S)) t"
    by (rule keeps_run [OF keeps_unfinished_complete assms(4,1)]) simp
  moreover have "of_state (holds_fence (f_migration_id a) (\<lambda>f. expected_live f \<longrightarrow> f_active f)) t"
  proof (cases x)
    case (Inl e)
    from complete_release_fail_closed [OF assms(1) [unfolded Inl] assms(2,3)] show ?thesis
      by (auto simp: holds_fence_iff stands_def)
  next
    case (Inr f)
    from complete_release_Inr(1) [OF assms(1) [unfolded Inr]] show ?thesis
      by (auto simp: holds_fence_iff released_in_def expected_live_def)
  qed
  ultimately show ?thesis using unfinished_drop by fastforce
qed

lemma keeps_settled_settle: "keeps (of_state settled_releases) (settle_fence sm f v w)"
  unfolding settle_fence_def by (intro unfinished_rules) simp_all

lemma keeps_settled_reconcile_all: "keeps (of_state settled_releases) (reconcile_all sm fs)"
  by (induction fs) (auto simp: reconcile_fence_def intro!: keeps_intros keeps_settled_settle)

lemma keeps_settled_mark: "keeps (of_state settled_releases) (modify mark_unenforceable)"
  by (rule keeps_modify)
    (auto simp: of_state_def unfinished_in_def mark_unenforceable_def map_of_map_val count_watchdog_error_def
      count_violation_def expected_live_def split: if_splits)

lemma keeps_settled_reconcile: "keeps (of_state settled_releases) (reconcileWriterFences sm)"
  unfolding reconcileWriterFences_def
  by (intro unfinished_rules keeps_settled_reconcile_all keeps_settled_mark) simp

lemma keeps_settled_verify: "keeps (of_state settled_releases) (verifyWriterFence sm task)"
  by (rule keeps_verifyWriterFence) (auto intro!: keeps_unfinished_put)

lemma release_settled:
  assumes "of_state settled_releases b" and "of_state sound b"
  shows "of_state settled_releases (snd (run_state (releaseWriterFence sm task services) b))"
proof -
  let ?I = "of_state settled_releases :: 'a broker \<Rightarrow> bool"
  obtain r t where run: "run_state (releaseWriterFence sm task services) b = (r, t)" by fastforce
  have id: "f_migration_id f = t_migration_id task" if "writer_fence b (t_migration_id task) = Some f" for f
    using assms(2) that by (auto simp: of_state_def sound_def writer_fence_def intro: wf_lookup)
  have auth: "of_state (unfinished_in {t_migration_id task}) d"
    if "?I c" "run_state (authorize_release task f) c = (x, d)" for f c x d
  proof -
    have "of_state (unfinished_in {t_migration_id task}) c"
      using that(1) by (auto simp: of_state_def unfinished_in_def)
    then show ?thesis
      by (rule keeps_run [OF _ _ that(2), rotated], unfold authorize_release_def Let_def)
        (intro unfinished_rules; simp)
  qed
  have "?I t"
    using run
  proof (cases rule: releaseWriterFence_shape)
    case refused
    show ?thesis by (rule refused(2) [OF calm_of_state assms(1)])
  next
    case (unowned runID)
    show ?thesis
      by (rule keeps_run [where I = ?I, OF _ assms(1) unowned(3)], unfold record_unowned_release_def,
          intro unfinished_rules) (simp_all add: expected_live_def)
  next
    case (repeated f)
    show ?thesis
      by (rule keeps_run [where I = ?I, OF _ assms(1) repeated(5)], unfold record_repeated_release_def Let_def,
          intro unfinished_rules) (use repeated(4) in \<open>simp_all add: expected_live_def\<close>)
  next
    case (resumed f x)
    then show ?thesis using assms(1) by (auto simp: of_state_def unfinished_in_def writer_fence_def expected_live_def)
  next
    case (unauthorized f c e)
    have "of_state (unfinished_in {t_migration_id task}) t" by (rule auth [OF unauthorized(4) [OF calm_of_state assms(1)] unauthorized(5)])
    moreover have "of_state (holds_fence (t_migration_id task) (\<lambda>f. expected_live f \<longrightarrow> f_active f)) t"
      using unauthorized(3,5) by (auto simp: authorize_release_def Let_def split: prod.splits sum.splits)
    ultimately show ?thesis by (auto dest: unfinished_drop)
  next
    case (completed f c a d x)
    have "of_state (unfinished_in {t_migration_id task}) d" by (rule auth [OF completed(5) [OF calm_of_state assms(1)] completed(6)])
    moreover have "\<not> f_active a" "f_phase a = writerFenceReleaseAuthorized" "f_migration_id a = t_migration_id task"
      using completed(6) id [OF completed(2)] by (auto simp: authorize_release_def Let_def split: prod.splits sum.splits)
    ultimately show ?thesis using complete_finishes [OF completed(7), of "{}"] by simp
  qed
  with run show ?thesis by simp
qed

lemma activation_settled:
  assumes "of_state settled_releases b"
  shows "of_state settled_releases (snd (run_state (activateWriterFence sm task services) b))"
proof -
  let ?I = "of_state settled_releases :: 'a broker \<Rightarrow> bool"
  obtain r t where run: "run_state (activateWriterFence sm task services) b = (r, t)" by fastforce
  then have "?I t"
  proof (cases rule: activateWriterFence_shape)
    case refused
    show ?thesis by (rule refused(2) [OF calm_of_state assms])
  next
    case (phases runID pa c)
    let ?prior = "writer_fence b (t_migration_id task)"
    let ?intent = "intent_fence (case ?prior of Some p \<Rightarrow> p | None \<Rightarrow> zero_fence) task runID services pa"
    have prior: "keeps ?I (modify (case ?prior of Some p \<Rightarrow> put_fence (t_migration_id task) p | None \<Rightarrow> del_fence (t_migration_id task)))"
      using assms
      by (auto intro!: keeps_unfinished_put keeps_unfinished_del split: option.split
          simp: of_state_def unfinished_in_def writer_fence_def)
    have "keeps ?I (tryE (activateServiceFenceInhibitors services) (\<lambda>_.
        tryE (install_intent sm task services ?prior ?intent) (\<lambda>_. confirm_activation sm task services ?intent)))"
      unfolding install_intent_def confirm_activation_def Let_def
      using prior by (intro unfinished_rules) simp_all
    from keeps_run [where I = ?I, OF this phases(4) [OF calm_of_state assms] phases(5)] show ?thesis .
  qed
  with run show ?thesis by simp
qed

lemma resume_finishes:
  assumes "of_state sound b" and "run_state (resumeAuthorizedWriterFenceReleases sm) b = (Inr (), t)"
  shows "of_state settled_releases t"
proof -
  let ?pending = "filter (\<lambda>f. \<not> f_active f \<and> f_phase f = writerFenceReleaseAuthorized) (map snd (s_writer_fences (b_state b)))"
  let ?I = "\<lambda>finished :: writerFenceState list. of_state (unfinished_in (f_migration_id ` set ?pending - f_migration_id ` set finished)) :: 'a broker \<Rightarrow> bool"
  have wf: "wf_fences (s_writer_fences (b_state b))" using assms(1) by (simp add: of_state_def sound_def)
  have start: "?I [] b"
    unfolding of_state_def unfinished_in_def
  proof (intro allI impI)
    fix n g
    assume g: "map_of (s_writer_fences (b_state b)) n = Some g" "expected_live g" "\<not> f_active g"
    then have "g \<in> set ?pending" by (force simp: expected_live_def dest: map_of_SomeD)
    moreover have "f_migration_id g = n" using wf g(1) by (rule wf_lookup)
    ultimately show "n \<in> f_migration_id ` set ?pending - f_migration_id ` set []" by force
  qed
  have "triple (?I []) (forE ?pending (\<lambda>fence. tryE (completeAuthorizedWriterFenceRelease sm fence) (\<lambda>_. okE ())))
      (\<lambda>r t. is_err r \<or> of_state settled_releases t)"
  proof (rule triple_forE [where I = ?I])
    fix ys x zs
    assume x: "?pending = ys @ x # zs"
    then have "x \<in> set ?pending" by simp
    then have x': "\<not> f_active x" "f_phase x = writerFenceReleaseAuthorized" by auto
    show "triple (?I ys) (tryE (completeAuthorizedWriterFenceRelease sm x) (\<lambda>_. okE ()))
      (\<lambda>r s. case r of Inl e \<Rightarrow> is_err (Inl e) \<or> of_state settled_releases s | Inr _ \<Rightarrow> ?I (ys @ [x]) s)"
    proof (rule tripleI)
      fix c r u
      assume c: "?I ys c" and run: "run_state (tryE (completeAuthorizedWriterFenceRelease sm x) (\<lambda>_. okE ())) c = (r, u)"
      obtain y u' where y: "run_state (completeAuthorizedWriterFenceRelease sm x) c = (y, u')" by fastforce
      have "of_state (unfinished_in (insert (f_migration_id x) (f_migration_id ` set ?pending - f_migration_id ` set ys))) c"
        using c by (auto simp: of_state_def unfinished_in_def)
      from complete_finishes [OF y x' this] have "?I (ys @ [x]) u'"
        by (auto simp: of_state_def unfinished_in_def)
      moreover have "u' = u" using run y by (auto split: sum.splits)
      ultimately show "case r of Inl e \<Rightarrow> is_err (Inl e) \<or> of_state settled_releases u | Inr _ \<Rightarrow> ?I (ys @ [x]) u"
        by (simp split: sum.split)
    qed
  qed (simp add: of_state_def unfinished_in_def)
  moreover have "run_state (forE ?pending (\<lambda>fence. tryE (completeAuthorizedWriterFenceRelease sm fence) (\<lambda>_. okE ()))) b = (Inr (), t)"
    using assms(2) by (auto simp: resumeAuthorizedWriterFenceReleases_def split: if_splits)
  ultimately show ?thesis using start by (auto dest: tripleD)
qed

lemma resume_nothing:
  assumes "of_state sound b" and "of_state settled_releases b"
  shows "snd (run_state (resumeAuthorizedWriterFenceReleases sm) b) = b"
proof -
  have wf: "wf_fences (s_writer_fences (b_state b))" using assms(1) by (simp add: of_state_def sound_def)
  have "filter (\<lambda>f. \<not> f_active f \<and> f_phase f = writerFenceReleaseAuthorized) (map snd (s_writer_fences (b_state b))) = []"
    using assms(2) wf_entry [OF wf]
    by (fastforce simp: filter_empty_conv of_state_def unfinished_in_def expected_live_def)
  then show ?thesis by (simp add: resumeAuthorizedWriterFenceReleases_def)
qed

definition serving :: "brokerPersistentState \<Rightarrow> state_file option \<Rightarrow> bool" where
  "serving s d \<longleftrightarrow> sound s d \<and> settled_releases s d"

lemma serving_iff: "of_state serving b \<longleftrightarrow> of_state sound b \<and> of_state settled_releases b"
  by (simp add: of_state_def serving_def)

lemma keeps_serving:
  assumes "\<And>b. of_state sound b \<Longrightarrow> of_state settled_releases b \<Longrightarrow> of_state sound (snd (run_state m b))"
    and "\<And>b. of_state sound b \<Longrightarrow> of_state settled_releases b \<Longrightarrow> of_state settled_releases (snd (run_state m b))"
  shows "keeps (of_state serving) m"
  by (rule keepsI) (use assms in \<open>simp add: serving_iff\<close>)

lemma keeps_serving_activate: "keeps (of_state serving) (activateWriterFence sm task services)"
  by (rule keeps_serving) (auto intro: activation_sound activation_settled)

lemma keeps_serving_release: "keeps (of_state serving) (releaseWriterFence sm task services)"
  by (rule keeps_serving) (auto intro: release_settled keepsD [OF keeps_sound] keeps_under_release)

lemma keeps_serving_verify: "keeps (of_state serving) (verifyWriterFence sm task)"
  by (rule keeps_serving) (auto intro: keepsD [OF keeps_settled_verify] keepsD [OF keeps_sound] keeps_under_verify)

lemma keeps_serving_reconcile: "keeps (of_state serving) (reconcileWriterFences sm)"
  by (rule keeps_serving) (auto intro: keepsD [OF keeps_settled_reconcile] keepsD [OF keeps_sound] keeps_under_reconcile)

lemma keeps_serving_resume: "keeps (of_state serving) (resumeAuthorizedWriterFenceReleases sm)"
  by (rule keeps_serving) (simp_all add: resume_nothing)

lemma accept_state_fences: "s_writer_fences (snd (accept_state now task s)) = s_writer_fences s"
  by (simp add: accept_state_def Let_def split: option.split)

lemma sound_saves: "saves sound"
  by (auto simp: saves_def sound_def intro!: wf_map exclusive_below [OF _ below_map [OF _ _ below_refl]])

lemma keeps_serving_accept: "keeps (of_state serving) (acceptFence task)"
proof -
  have sv: "saves serving"
    using sound_saves by (auto simp: saves_def serving_def unfinished_in_def)
  have mod: "keeps (of_state serving) (modify (\<lambda>b :: 'a broker. b\<lparr>b_state := snd (accept_state (b_clock b0) task (b_state b0))\<rparr>))"
    if "of_state serving b0" for b0 :: "'a broker"
  proof (rule keeps_modify)
    fix c :: "'a broker"
    assume "of_state serving c"
    with that show "of_state serving (c\<lparr>b_state := snd (accept_state (b_clock b0) task (b_state b0))\<rparr>)"
      by (simp add: of_state_def serving_def sound_def unfinished_in_def accept_state_fences)
  qed
  show ?thesis
    unfolding acceptFence_def Let_def split_beta
    by (rule keeps_bind_get, rule keeps_bind, erule mod, rule keeps_tryE, rule keeps_return,
        rule keeps_persistFences [OF sv])
qed

section \<open>The broker as a state machine\<close>


text \<open>What is asked of the handlers that are not modelled here: they may take time, fail, be
  interrupted and change the world, but touch none of the broker's own state.\<close>

definition leaves_fences :: "(TaskEnvelope \<Rightarrow> ('w, jobj) bop) \<Rightarrow> bool" where
  "leaves_fences other \<longleftrightarrow> (\<forall>task I. timeless I \<longrightarrow> keeps I (other task))"

lemma keeps_serving_execute:
  assumes "leaves_fences other"
  shows "keeps (of_state serving) (execute cfg sm other request)"
proof -
  have prim: "keeps (of_state serving) (run_primitive sm other task)" for task
    using assms unfolding run_primitive_def serviceOperation_def Let_def leaves_fences_def
    by (intro keeps_intros keeps_serving_activate keeps_serving_release keeps_serving_verify calm_of_state) simp
  have attest: "keeps (of_state serving) (attestWriterFences sm)"
    unfolding attestWriterFences_def by (intro keeps_intros keeps_serving_reconcile)
  show ?thesis
    unfolding execute_def Let_def
    by (intro keeps_intros prim attest keeps_serving_accept)
qed

datatype mode = Down | Booting | Serving

definition watch :: "'w svcmgr \<Rightarrow> ('w broker, unit) state" where
  "watch sm = do {
     r \<leftarrow> reconcileWriterFences sm;
     if is_err r then return () else do { _ \<leftarrow> resumeAuthorizedWriterFenceReleases sm; return () } }"

text \<open>
  \<open>halt\<close>: the process or the host stops. \<open>weather\<close>: time passes, services change on their own, and
  the incidents of the next operation are drawn. \<open>boot\<close>, \<open>serve\<close> and \<open>serve_failed\<close>: start-up.
  \<open>request\<close>: one client request; \<open>watch\<close>: one round of the watchdog. An operation that
  the process did not survive ends in \<open>Down\<close>, with what it left on disk.
\<close>

inductive broker_step :: "broker_config \<Rightarrow> 'w svcmgr \<Rightarrow> (TaskEnvelope \<Rightarrow> ('w, jobj) bop) \<Rightarrow>
    mode \<times> 'w broker \<Rightarrow> mode \<times> 'w broker \<Rightarrow> bool" for cfg sm other where
  halt: "broker_step cfg sm other (m, b) (Down, b)"
| weather: "b_clock b \<le> c \<Longrightarrow> broker_step cfg sm other (m, b) (m, b\<lparr>b_env := e, b_clock := c, b_world := w\<rparr>)"
| boot: "NewBroker b = Inr c \<Longrightarrow> broker_step cfg sm other (Down, b) (Booting, c)"
| serve: "run_state (serve_start sm) b = (Inr (), c) \<Longrightarrow> \<not> b_dead c \<Longrightarrow>
    broker_step cfg sm other (Booting, b) (Serving, c)"
| serve_failed: "run_state (serve_start sm) b = (r, c) \<Longrightarrow> broker_step cfg sm other (Booting, b) (Down, c)"
| request: "run_state (execute cfg sm other req) b = (resp, c) \<Longrightarrow>
    broker_step cfg sm other (Serving, b) (if b_dead c then Down else Serving, c)"
| watchdog: "run_state (watch sm) b = (u, c) \<Longrightarrow>
    broker_step cfg sm other (Serving, b) (if b_dead c then Down else Serving, c)"

inductive_cases broker_stepE: "broker_step cfg sm other x y"

definition durable_exclusive :: "brokerPersistentState \<Rightarrow> state_file option \<Rightarrow> bool" where
  "durable_exclusive s d \<longleftrightarrow> wf_fences (file_fences d) \<and> exclusive (file_fences d)"

fun broker_inv :: "mode \<times> 'w broker \<Rightarrow> bool" where
  "broker_inv (Down, b) = of_state durable_exclusive b"
| "broker_inv (Booting, b) = of_state sound b"
| "broker_inv (Serving, b) = of_state serving b"

lemma inv_durable: "broker_inv (m, b) \<Longrightarrow> of_state durable_exclusive b"
  by (cases m) (simp_all add: of_state_def durable_exclusive_def sound_def serving_def)

lemma load_sound:
  assumes "of_state durable_exclusive b" and "NewBroker b = Inr c"
  shows "of_state sound c"
proof -
  from assms(2) obtain s where s: "loadFences (b_state_file b) = Inr s" and c: "c = b\<lparr>b_state := s, b_dead := False\<rparr>"
    by (auto simp: NewBroker_def Let_def split: sum.splits option.splits)
  have fences: "s_writer_fences s = map (map_prod id upgrade_fence) (file_fences (b_state_file b))"
    using s by (auto simp: loadFences_def initial_state_def file_fences_def split: option.splits state_file.splits if_splits)
  have "wf_fences (s_writer_fences s)"
    unfolding fences by (rule wf_map) (use assms(1) in \<open>simp_all add: live_upgrade of_state_def durable_exclusive_def\<close>)
  moreover have "exclusive (s_writer_fences s)"
    unfolding fences
    by (rule exclusive_below, rule conjunct2, rule assms(1) [unfolded of_state_def durable_exclusive_def])
      (auto intro: below_map [OF _ _ below_refl] dest: live_upgrade(1) simp: live_upgrade(2))
  ultimately show ?thesis using assms(1) by (simp add: c of_state_def sound_def durable_exclusive_def)
qed

lemma keeps_sound_reconcile: "keeps (of_state sound) (reconcileWriterFences sm)"
  by (rule keeps_sound) (rule keeps_under_reconcile)

lemma keeps_sound_resume: "keeps (of_state sound) (resumeAuthorizedWriterFenceReleases sm)"
  by (rule keeps_sound) (rule keeps_under_resume)

lemma broker_inv_step:
  assumes "leaves_fences other" and "broker_inv x" and "broker_step cfg sm other x y"
  shows "broker_inv y"
  using assms(3)
proof cases
  case (halt m b)
  with assms(2) show ?thesis by (auto dest: inv_durable)
next
  case (weather b c m e w)
  with assms(2) show ?thesis by (cases m) (simp_all add: of_state_def)
next
  case (boot b c)
  with assms(2) show ?thesis by (auto intro: load_sound)
next
  case (serve b c)
  from serve(3) obtain d where d: "run_state (reconcileWriterFences sm) b = (Inr (), d)"
    and c: "run_state (resumeAuthorizedWriterFenceReleases sm) d = (Inr (), c)"
    by (auto simp: serve_start_def split: prod.splits sum.splits)
  have "of_state sound d" using assms(2) serve(1) keeps_run [OF keeps_sound_reconcile _ d] by simp
  with keeps_run [OF keeps_sound_resume _ c] resume_finishes [OF _ c] show ?thesis
    using serve(2) by (simp add: serving_iff)
next
  case (serve_failed b r c)
  have "keeps (of_state sound) (serve_start sm)"
    unfolding serve_start_def by (intro keeps_intros keeps_sound_reconcile keeps_sound_resume)
  from keeps_run [OF this _ serve_failed(3)] assms(2) serve_failed(1,2) show ?thesis
    by (auto dest: inv_durable [of Booting, simplified])
next
  case (request req b resp c)
  from keeps_run [OF keeps_serving_execute [OF assms(1)] _ request(3)] assms(2) request(1,2) show ?thesis
    by (auto dest: inv_durable [of Serving, simplified])
next
  case (watchdog b u c)
  have "keeps (of_state serving) (watch sm)"
    unfolding watch_def by (intro keeps_intros keeps_serving_reconcile keeps_serving_resume)
  from keeps_run [OF this _ watchdog(3)] assms(2) watchdog(1,2) show ?thesis
    by (auto dest: inv_durable [of Serving, simplified])
qed

definition fresh_host :: "mode \<times> 'w broker \<Rightarrow> bool" where
  "fresh_host x \<longleftrightarrow> fst x = Down \<and> b_state_file (snd x) = None"

lemma fresh_host_inv: "fresh_host x \<Longrightarrow> broker_inv x"
  by (cases x) (auto simp: fresh_host_def of_state_def durable_exclusive_def file_fences_def wf_fences_def exclusive_def)

definition guarded_step :: "broker_config \<Rightarrow> 'w svcmgr \<Rightarrow> (TaskEnvelope \<Rightarrow> ('w, jobj) bop) \<Rightarrow>
    mode \<times> 'w broker \<Rightarrow> mode \<times> 'w broker \<Rightarrow> bool" where
  "guarded_step cfg sm other x y \<longleftrightarrow> leaves_fences other \<and> broker_step cfg sm other x y"

interpretation broker: machine fresh_host "guarded_step cfg sm other" broker_inv
  by unfold_locales (auto simp: guarded_step_def intro: fresh_host_inv broker_inv_step)

text \<open>
  \<^bold>\<open>C1\<close>. Mutual exclusion. Start from a host without a state file and let the broker be
  stopped, restarted and asked anything, with any incident at any action. In every reachable state the fences
  that are active or whose release is authorised but unfinished cover pairwise different services
  (service names compared without case), in the state file and in the memory of a running broker.
\<close>

theorem fences_exclusive:
  assumes "leaves_fences other" and "b_state_file b0 = None"
    and "(broker_step cfg sm other)\<^sup>*\<^sup>* (Down, b0) (m, b)"
  shows "exclusive (file_fences (b_state_file b)) \<and> (m \<noteq> Down \<longrightarrow> exclusive (s_writer_fences (b_state b)))"
proof -
  have "guarded_step cfg sm other = broker_step cfg sm other"
    using assms(1) by (auto simp: guarded_step_def fun_eq_iff)
  then have "broker_inv (m, b)"
    using broker.inv_reachable [of "(Down, b0)" cfg sm other "(m, b)"] assms(2,3) by (simp add: fresh_host_def)
  then show ?thesis
    by (cases m) (simp_all add: of_state_def durable_exclusive_def sound_def serving_def)
qed

end
