(* ===== verification/Replay.thy ===== *)
theory Replay
  imports Fence_Exclusion
begin

text \<open>
  Replay protection and fencing tokens. The interface \<open>replay_guard\<close> is what the code means by
  consuming a signed task; its client lemma, at most one acceptance per task, is proved once and
  used for the root broker, for which the property is then carried through crashes and restarts. The task runner, whose
  acceptance reads the clock twice, has its own argument in \<^theory_text>\<open>Runner_Safety\<close>.
\<close>

section \<open>The interface\<close>

locale replay_guard =
  fixes accept :: "int \<Rightarrow> 't \<Rightarrow> 's \<Rightarrow> bool \<times> 's"
    and inv :: "'s \<Rightarrow> bool"
    and remembers :: "'s \<Rightarrow> 't \<Rightarrow> bool"
    and expired :: "int \<Rightarrow> 't \<Rightarrow> bool"
  assumes accept_inv: "inv s \<Longrightarrow> inv (snd (accept now t s))"
    and accept_remembers: "inv s \<Longrightarrow> accept now t s = (True, s') \<Longrightarrow> remembers s' t"
    and remembers_stays: "inv s \<Longrightarrow> remembers s t \<Longrightarrow> remembers (snd (accept now t' s)) t \<or> expired now t"
    and expired_mono: "expired now t \<Longrightarrow> now \<le> now' \<Longrightarrow> expired now' t"
    and refuses: "inv s \<Longrightarrow> remembers s t \<or> expired now t \<Longrightarrow> \<not> fst (accept now t s)"
begin

fun accepted :: "'s \<Rightarrow> (int \<times> 't) list \<Rightarrow> 't list" where
  "accepted s [] = []"
| "accepted s ((now, t) # rest) =
     (if fst (accept now t s) then t # accepted (snd (accept now t s)) rest
      else accepted (snd (accept now t s)) rest)"

lemma not_again:
  "inv s \<Longrightarrow> remembers s t \<or> expired now0 t \<Longrightarrow> sorted (map fst xs) \<Longrightarrow> \<forall>x \<in> set xs. now0 \<le> fst x \<Longrightarrow>
     t \<notin> set (accepted s xs)"
proof (induction s xs arbitrary: now0 rule: accepted.induct)
  case (2 s now t' rest)
  have now: "now0 \<le> now" using 2 by simp
  have held: "remembers s t \<or> expired now t" using "2.prems"(2) expired_mono now by blast
  have here: "\<not> fst (accept now t s)" using refuses "2.prems"(1) held by blast
  have later: "remembers (snd (accept now t' s)) t \<or> expired now t"
    using "2.prems"(1) held remembers_stays by blast
  have "t \<notin> set (accepted (snd (accept now t' s)) rest)"
    using "2.IH" accept_inv [OF "2.prems"(1)] later "2.prems"(3) by (cases "fst (accept now t' s)") auto
  with here show ?case by auto
qed simp

lemma at_most_once: "inv s \<Longrightarrow> sorted (map fst xs) \<Longrightarrow> distinct (accepted s xs)"
proof (induction s xs rule: accepted.induct)
  case (2 s now t rest)
  have "t \<notin> set (accepted (snd (accept now t s)) rest)" if "fst (accept now t s)"
    using accept_remembers [of s now t "snd (accept now t s)"] accept_inv that "2.prems"
    by (intro not_again [of _ _ now]) (auto simp: prod_eq_iff)
  with 2 accept_inv show ?case by auto
qed simp

end

section \<open>The broker's acceptance\<close>

definition remembers_task :: "brokerPersistentState \<Rightarrow> TaskEnvelope \<Rightarrow> bool" where
  "remembers_task s task \<longleftrightarrow> (\<exists>e. parse_time (t_expires_at task) = Some e
     \<and> map_of (s_seen_nonce_expiries s) (t_nonce task) = Some (Stamp e))"

definition task_expired :: "int \<Rightarrow> TaskEnvelope \<Rightarrow> bool" where
  "task_expired now task \<longleftrightarrow> (\<forall>e. parse_time (t_expires_at task) = Some e \<longrightarrow> e \<le> now)"

definition nonces_ok :: "brokerPersistentState \<Rightarrow> bool" where
  "nonces_ok s \<longleftrightarrow> distinct (map fst (s_seen_nonce_expiries s))"

definition accept_ok :: "int \<Rightarrow> TaskEnvelope \<Rightarrow> brokerPersistentState \<Rightarrow> bool \<times> brokerPersistentState" where
  "accept_ok now task s = (case accept_state now task s of (r, s') \<Rightarrow> (\<not> is_err r, s'))"

lemma prune_lookup:
  "nonces_ok s \<Longrightarrow> map_of (prune_nonces now (s_seen_nonce_expiries s)) n =
     (case map_of (s_seen_nonce_expiries s) n of
        None \<Rightarrow> None
      | Some x \<Rightarrow> (case parse_time x of Some e \<Rightarrow> if e > now then Some x else None | None \<Rightarrow> Some x))"
  unfolding prune_nonces_def nonces_ok_def
  by (subst map_of_filter_val) (auto split: option.splits)

lemma prune_distinct: "nonces_ok s \<Longrightarrow> distinct (map fst (prune_nonces now (s_seen_nonce_expiries s)))"
  by (simp add: nonces_ok_def prune_nonces_def distinct_map_filter)

lemma accept_ok_inv: "nonces_ok s \<Longrightarrow> nonces_ok (snd (accept_ok now task s))"
  using prune_distinct [of s now]
  by (auto simp: accept_ok_def accept_state_def Let_def nonces_ok_def distinct_update split: option.split)

lemma accept_ok_stays:
  assumes "nonces_ok s" and "remembers_task s task"
  shows "remembers_task (snd (accept_ok now task' s)) task \<or> task_expired now task"
proof -
  from assms(2) obtain e where e: "parse_time (t_expires_at task) = Some e"
    "map_of (s_seen_nonce_expiries s) (t_nonce task) = Some (Stamp e)" by (auto simp: remembers_task_def)
  show ?thesis
  proof (cases "e > now")
    case True
    with e prune_lookup [OF assms(1), of now] show ?thesis
      by (auto simp: accept_ok_def accept_state_def Let_def remembers_task_def split: option.split)
  next
    case False
    with e show ?thesis by (simp add: task_expired_def)
  qed
qed

lemma accept_ok_refuses:
  assumes "nonces_ok s" and "remembers_task s task \<or> task_expired now task"
  shows "\<not> fst (accept_ok now task s)"
proof -
  have "fst (accept_state now task s) \<noteq> Inr ()"
    using assms prune_lookup [OF assms(1), of now "t_nonce task"]
    by (auto simp: accept_state_def Let_def remembers_task_def task_expired_def split: option.splits)
  then show ?thesis by (cases "fst (accept_state now task s)") (auto simp: accept_ok_def split: prod.split)
qed

lemma accept_ok_remembers: "accept_ok now task s = (True, s') \<Longrightarrow> remembers_task s' task"
  by (auto simp: accept_ok_def accept_state_def Let_def remembers_task_def split: if_splits option.splits prod.splits)

lemma task_expired_mono: "task_expired now task \<Longrightarrow> now \<le> now' \<Longrightarrow> task_expired now' task"
  by (fastforce simp: task_expired_def)

interpretation broker_guard: replay_guard accept_ok nonces_ok remembers_task task_expired
  using accept_ok_inv accept_ok_remembers accept_ok_stays accept_ok_refuses task_expired_mono
  by unfold_locales blast+

section \<open>What the fence operations leave alone\<close>

text \<open>A property of the broker that none of its fence bookkeeping can break.\<close>

definition fence_blind :: "('w broker \<Rightarrow> bool) \<Rightarrow> bool" where
  "fence_blind I \<longleftrightarrow> timeless I \<and> marker_blind I \<and> keeps I persistFences
     \<and> (\<forall>mid f. keeps I (modify (put_fence mid f))) \<and> (\<forall>mid. keeps I (modify (del_fence mid)))
     \<and> keeps I (modify mark_unenforceable)"

lemma fence_blindD:
  assumes "fence_blind I"
  shows "calm I" "marker_blind I" "keeps I persistFences" "keeps I (modify (put_fence mid f))"
    "keeps I (modify (del_fence mid))" "keeps I (modify mark_unenforceable)"
  using assms unfolding fence_blind_def timeless_def by blast+

text \<open>Every operation on fences keeps such a property.\<close>

lemma blind_restore: "fence_blind I \<Longrightarrow> keeps I (restoreActiveWriterFence sm a)"
  unfolding restoreActiveWriterFence_def by (intro keeps_intros fence_blindD) assumption+

lemma blind_complete: "fence_blind I \<Longrightarrow> keeps I (completeAuthorizedWriterFenceRelease sm a)"
  unfolding completeAuthorizedWriterFenceRelease_def Let_def
  by (intro keeps_intros fence_blindD blind_restore) assumption+

lemma blind_activate: "fence_blind I \<Longrightarrow> keeps I (activateWriterFence sm task ss)"
  unfolding activateWriterFence_def install_intent_def confirm_activation_def Let_def
  by (intro keeps_intros fence_blindD) (auto intro: fence_blindD split: option.split)

lemma blind_release: "fence_blind I \<Longrightarrow> keeps I (releaseWriterFence sm task ss)"
  unfolding releaseWriterFence_def record_unowned_release_def record_repeated_release_def authorize_release_def Let_def
  by (intro keeps_intros fence_blindD blind_complete) assumption+

lemma blind_verify: "fence_blind I \<Longrightarrow> keeps I (verifyWriterFence sm task)"
  unfolding verifyWriterFence_def Let_def
  by (intro keeps_intros fence_blindD keeps_poll) (assumption | simp add: fence_blind_def)+

lemma blind_settle: "fence_blind I \<Longrightarrow> keeps I (settle_fence sm f v w)"
  unfolding settle_fence_def by (intro keeps_intros fence_blindD) assumption+

lemma blind_reconcile_all: "fence_blind I \<Longrightarrow> keeps I (reconcile_all sm fs)"
  by (induction fs) (auto simp: reconcile_fence_def intro!: keeps_intros blind_settle dest: fence_blindD(1,2))

lemma blind_reconcile: "fence_blind I \<Longrightarrow> keeps I (reconcileWriterFences sm)"
  unfolding reconcileWriterFences_def by (intro keeps_intros fence_blindD blind_reconcile_all) assumption+

lemma blind_resume: "fence_blind I \<Longrightarrow> keeps I (resumeAuthorizedWriterFenceReleases sm)"
  unfolding resumeAuthorizedWriterFenceReleases_def by (intro keeps_intros blind_complete) assumption+

lemma blind_primitive: "fence_blind I \<Longrightarrow> leaves_fences other \<Longrightarrow> keeps I (run_primitive sm other task)"
  unfolding run_primitive_def serviceOperation_def Let_def leaves_fences_def
  by (intro keeps_intros blind_activate blind_release blind_verify)
    (auto intro: fence_blindD simp: fence_blind_def)

section \<open>Through crashes and restarts\<close>

definition schema_ok :: "brokerPersistentState \<Rightarrow> bool" where
  "schema_ok s \<longleftrightarrow> s_schema_version s = ''operations.migration.broker-state.v1''"

lemma load_marshal:
  "schema_ok s \<Longrightarrow> loadFences (Some (Document (marshal_state s))) =
     Inr (s\<lparr>s_writer_fences := map (map_prod id upgrade_fence) (map (map_prod id marshal_fence) (s_writer_fences s))\<rparr>)"
  by (simp add: loadFences_def marshal_state_def schema_ok_def omit_empty_def)

text \<open>A property of the acceptance record, at a given time, that an acceptance keeps.\<close>

definition stable :: "(int \<Rightarrow> brokerPersistentState \<Rightarrow> bool) \<Rightarrow> bool" where
  "stable P \<longleftrightarrow> (\<forall>now now' s. P now s \<longrightarrow> now \<le> now' \<longrightarrow> P now' s) \<and> (\<forall>now s. P now s \<longrightarrow> schema_ok s)
     \<and> (\<forall>now s fs. P now s \<longrightarrow> P now (s\<lparr>s_writer_fences := fs\<rparr>))
     \<and> (\<forall>now task s. P now s \<longrightarrow> P now (snd (accept_state now task s)))"

definition filed :: "(int \<Rightarrow> brokerPersistentState \<Rightarrow> bool) \<Rightarrow> 'w broker \<Rightarrow> bool" where
  "filed P b \<longleftrightarrow> (\<exists>s. loadFences (b_state_file b) = Inr s \<and> P (b_clock b) s)"

definition kept :: "(int \<Rightarrow> brokerPersistentState \<Rightarrow> bool) \<Rightarrow> 'w broker \<Rightarrow> bool" where
  "kept P b \<longleftrightarrow> P (b_clock b) (b_state b) \<and> filed P b"

lemma kept_clock:
  "stable P \<Longrightarrow> kept P b \<Longrightarrow> b_clock b \<le> b_clock c \<Longrightarrow> b_state c = b_state b \<Longrightarrow> b_state_file c = b_state_file b \<Longrightarrow> kept P c"
  by (auto simp: kept_def filed_def stable_def)

lemma kept_timeless: "stable P \<Longrightarrow> timeless (kept P)"
proof -
  assume P: "stable P"
  have "kept P (snd (next_incident b))" if "kept P b" for b :: "'a broker"
    by (rule kept_clock [OF P that]) (use next_incident_frame [of b "fst (next_incident b)" "snd (next_incident b)"] in auto)
  moreover have "kept P (b\<lparr>b_dead := True\<rparr>)" "kept P (b\<lparr>b_world := w\<rparr>)" if "kept P b" for b :: "'a broker" and w
    by (rule kept_clock [OF P that]; simp)+
  moreover have "kept P (b\<lparr>b_clock := c\<rparr>)" if "kept P b" "b_clock b \<le> c" for b :: "'a broker" and c
    by (rule kept_clock [OF P that(1)]) (use that(2) in simp_all)
  ultimately show ?thesis by (simp add: timeless_def calm_def)
qed

lemma kept_persist: "stable P \<Longrightarrow> keeps (kept P) persistFences"
  unfolding persistFences_def
proof (rule keeps_action)
  assume P: "stable P"
  then show "calm (kept P)" by (rule kept_timeless [unfolded timeless_def, THEN conjunct1])
  fix b :: "'a broker"
  assume b: "kept P b"
  then have "schema_ok (b_state b)" using P by (auto simp: kept_def stable_def)
  from load_marshal [OF this] b P show "kept P (b\<lparr>b_state_file := Some (Document (marshal_state (b_state b)))\<rparr>)"
    by (auto simp: kept_def filed_def stable_def)
qed

lemma kept_blind: "stable P \<Longrightarrow> fence_blind (kept P)"
  unfolding fence_blind_def
  by (intro conjI allI kept_timeless kept_persist keeps_modify)
    (auto simp: marker_blind_def kept_def filed_def stable_def put_fence_def del_fence_def mark_unenforceable_def)

lemma run_acceptFence:
  "run_state (acceptFence task) b =
     (case accept_state (b_clock b) task (b_state b) of
        (Inl e, s) \<Rightarrow> (Inl e, b\<lparr>b_state := s\<rparr>)
      | (Inr _, s) \<Rightarrow> run_state persistFences (b\<lparr>b_state := s\<rparr>))"
  by (simp add: acceptFence_def Let_def split: prod.split)

lemma kept_accept:
  assumes "stable P"
  shows "keeps (kept P) (acceptFence task)"
proof (rule keepsI)
  fix b :: "'a broker"
  assume "kept P b"
  with assms have "kept P (b\<lparr>b_state := snd (accept_state (b_clock b) task (b_state b))\<rparr>)"
    by (auto simp: kept_def filed_def stable_def)
  with keepsD [OF kept_persist [OF assms]] show "kept P (snd (run_state (acceptFence task) b))"
    by (auto simp: run_acceptFence split: prod.splits sum.splits)
qed

lemma kept_execute:
  assumes "stable P" and "leaves_fences other"
  shows "keeps (kept P) (execute cfg sm other req)"
proof -
  have attest: "keeps (kept P) (attestWriterFences sm)"
    unfolding attestWriterFences_def by (intro keeps_intros blind_reconcile kept_blind assms)
  show ?thesis
    unfolding execute_def Let_def
    by (intro keeps_intros attest kept_accept blind_primitive kept_blind assms)
qed

fun record_inv :: "(int \<Rightarrow> brokerPersistentState \<Rightarrow> bool) \<Rightarrow> mode \<times> 'w broker \<Rightarrow> bool" where
  "record_inv P (m, b) = (if m = Down then filed P b else kept P b)"

lemma record_inv_step:
  assumes "stable P" and "leaves_fences other" and "record_inv P x" and "broker_step cfg sm other x y"
  shows "record_inv P y"
proof -
  note blind = kept_blind [OF assms(1)]
  have serve: "keeps (kept P) (serve_start sm)" for sm :: "'a svcmgr"
    unfolding serve_start_def by (intro keeps_intros blind_reconcile blind_resume blind)
  have watch: "keeps (kept P) (watch sm)" for sm :: "'a svcmgr"
    unfolding watch_def by (intro keeps_intros blind_reconcile blind_resume blind)
  from assms(4) show ?thesis
  proof cases
    case (halt m b)
    with assms(3) show ?thesis by (simp add: kept_def split: if_splits)
  next
    case (weather b c m e w)
    with assms(1,3) show ?thesis by (auto simp: kept_def filed_def stable_def split: if_splits)
  next
    case (boot b c)
    then obtain s where "loadFences (b_state_file b) = Inr s" "c = b\<lparr>b_state := s, b_dead := False\<rparr>"
      by (auto simp: NewBroker_def Let_def split: sum.splits option.splits)
    with boot assms(3) show ?thesis by (auto simp: kept_def filed_def)
  next
    case (serve b c)
    with assms(3) keeps_run [OF \<open>keeps (kept P) (serve_start sm)\<close> _ serve(3)] show ?thesis by simp
  next
    case (serve_failed b r c)
    with assms(3) keeps_run [OF \<open>keeps (kept P) (serve_start sm)\<close> _ serve_failed(3)] show ?thesis by (simp add: kept_def)
  next
    case (request req b resp c)
    with assms(3) keeps_run [OF kept_execute [OF assms(1,2)] _ request(3)] show ?thesis by (simp add: kept_def)
  next
    case (watchdog b u c)
    with assms(3) keeps_run [OF watch _ watchdog(3)] show ?thesis by (simp add: kept_def)
  qed
qed

definition recorded_step :: "(int \<Rightarrow> brokerPersistentState \<Rightarrow> bool) \<Rightarrow> broker_config \<Rightarrow> 'w svcmgr \<Rightarrow>
    (TaskEnvelope \<Rightarrow> ('w, jobj) bop) \<Rightarrow> mode \<times> 'w broker \<Rightarrow> mode \<times> 'w broker \<Rightarrow> bool" where
  "recorded_step P cfg sm other x y \<longleftrightarrow> stable P \<and> leaves_fences other \<and> broker_step cfg sm other x y"

interpretation acceptance: machine "record_inv P" "recorded_step P cfg sm other" "record_inv P"
  by unfold_locales (auto simp: recorded_step_def intro: record_inv_step)

lemma record_inv_reachable:
  assumes "stable P" and "leaves_fences other" and "record_inv P x" and "(broker_step cfg sm other)\<^sup>*\<^sup>* x y"
  shows "record_inv P y"
proof -
  have "recorded_step P cfg sm other = broker_step cfg sm other"
    using assms(1,2) by (auto simp: recorded_step_def fun_eq_iff)
  with acceptance.inv_reachable [of P x cfg sm other y] assms(3,4) show ?thesis by simp
qed

section \<open>A privileged task runs at most once\<close>

definition well :: "int \<Rightarrow> brokerPersistentState \<Rightarrow> bool" where
  "well now s \<longleftrightarrow> schema_ok s \<and> nonces_ok s"

definition consumed :: "TaskEnvelope \<Rightarrow> int \<Rightarrow> brokerPersistentState \<Rightarrow> bool" where
  "consumed task now s \<longleftrightarrow> well now s \<and> (remembers_task s task \<or> task_expired now task)
     \<and> t_fencing_token task \<le> token_of s (fence_key task)"

lemma accept_schema: "schema_ok s \<Longrightarrow> schema_ok (snd (accept_state now task s))"
  by (simp add: schema_ok_def accept_state_def Let_def split: option.split)

lemma accept_nonces: "nonces_ok s \<Longrightarrow> nonces_ok (snd (accept_state now task s))"
  using accept_ok_inv [of s now task] by (simp add: accept_ok_def split: prod.splits)

lemma accept_token_mono: "token_of s k \<le> token_of (snd (accept_state now task s)) k"
  by (auto simp: accept_state_def Let_def token_of_def split: option.split)

lemma stable_well: "stable well"
  by (auto simp: stable_def well_def accept_schema accept_nonces) (auto simp: schema_ok_def nonces_ok_def)

lemma stable_consumed: "stable (consumed task)"
  unfolding stable_def
proof (intro conjI allI impI)
  fix now now' s
  assume "consumed task now s" "now \<le> now'"
  then show "consumed task now' s" using task_expired_mono by (auto simp: consumed_def well_def)
next
  fix now s and fs
  assume "consumed task now s"
  then show "schema_ok s" and "consumed task now (s\<lparr>s_writer_fences := fs\<rparr>)"
    by (auto simp: consumed_def well_def schema_ok_def nonces_ok_def remembers_task_def token_of_def)
next
  fix now t s
  assume c: "consumed task now s"
  have "remembers_task (snd (accept_state now t s)) task \<or> task_expired now task"
    using c accept_ok_stays [of s task now t] by (auto simp: consumed_def well_def accept_ok_def split: prod.splits)
  moreover have "t_fencing_token task \<le> token_of (snd (accept_state now t s)) (fence_key task)"
    using c accept_token_mono [of s "fence_key task" now t] by (simp add: consumed_def)
  ultimately show "consumed task now (snd (accept_state now t s))"
    using c by (simp add: consumed_def well_def accept_schema accept_nonces)
qed

text \<open>The answers after which the primitive of the task has been started.\<close>

fun ran :: "BrokerResponse \<Rightarrow> bool" where
  "ran (Accepted (Outputs _)) = True"
| "ran (Rejected OperationRejected) = True"
| "ran _ = False"

fun_cases ran_cases: "ran r"

lemma execute_ran:
  assumes "run_state (execute cfg sm other req) b = (resp, c)" and "ran resp"
  obtains t r where "run_state (acceptFence (q_task req)) b = (Inr (), t)"
    and "run_state (run_primitive sm other (q_task req)) t = (r, c)"
  using assms
  by (auto simp: execute_def Let_def split: if_splits prod.splits sum.splits)

lemma accept_consumes:
  assumes "well (b_clock b) (b_state b)" and "run_state (acceptFence task) b = (Inr (), t)"
  shows "kept (consumed task) t"
proof -
  from assms(2) obtain s where s: "accept_state (b_clock b) task (b_state b) = (Inr (), s)"
    and p: "run_state persistFences (b\<lparr>b_state := s\<rparr>) = (Inr (), t)"
    by (auto simp: run_acceptFence split: prod.splits sum.splits)
  from p obtain b' where b': "next_incident (b\<lparr>b_state := s\<rparr>) = (Done, b')"
    and t: "t = b'\<lparr>b_state_file := Some (Document (marshal_state (b_state b')))\<rparr>"
    unfolding persistFences_def by (rule attempt_Inr)
  have st: "b_state b' = s" using next_incident_frame [OF b'] by auto
  have w: "schema_ok s" "nonces_ok s"
    using assms(1) accept_schema [of "b_state b" "b_clock b" task] accept_nonces [of "b_state b" "b_clock b" task] s
    by (simp_all add: well_def)
  have "remembers_task s task"
    using s accept_ok_remembers [of "b_clock b" task "b_state b" s] by (simp add: accept_ok_def)
  moreover have "t_fencing_token task \<le> token_of s (fence_key task)"
    using s by (auto simp: accept_state_def Let_def token_of_def split: if_splits option.splits)
  ultimately have c: "consumed task now s" for now by (simp add: consumed_def well_def w)
  then have "filed (consumed task) t"
    using load_marshal [OF w(1)] stable_consumed [of task] by (auto simp: filed_def t st stable_def)
  then show ?thesis using c by (simp add: kept_def t st)
qed

lemma consumed_refuses:
  assumes "kept (consumed task) b" and "run_state (acceptFence task') b = (Inr (), t)"
  shows "task' \<noteq> task" and "fence_key task' = fence_key task \<Longrightarrow> t_fencing_token task \<le> t_fencing_token task'"
proof -
  from assms(2) have acc: "fst (accept_state (b_clock b) task' (b_state b)) = Inr ()"
    by (auto simp: run_acceptFence split: prod.splits sum.splits)
  have c: "consumed task (b_clock b) (b_state b)" using assms(1) by (simp add: kept_def)
  show "task' \<noteq> task"
    using accept_ok_refuses [of "b_state b" task "b_clock b"] acc c
    by (auto simp: consumed_def well_def accept_ok_def split: prod.splits)
  assume "fence_key task' = fence_key task"
  with acc c show "t_fencing_token task \<le> t_fencing_token task'"
    by (auto simp: accept_state_def Let_def consumed_def token_of_def split: if_splits option.splits)
qed

text \<open>
  \<^bold>\<open>C2\<close>. Replay safety of the root broker. Once the broker has started the primitive of a
  signed task, no later request ever starts that task again, whatever crashes, restarts, failed
  writes and other requests lie between; and every task started later in the same fencing domain
  carries a fencing token that is not smaller.
\<close>

theorem privileged_task_runs_once:
  assumes "leaves_fences other" and "b_state_file b0 = None"
    and "(broker_step cfg sm other)\<^sup>*\<^sup>* (Down, b0) (Serving, b)"
    and "run_state (execute cfg sm other req) b = (resp, c)" and "ran resp"
    and "(broker_step cfg sm other)\<^sup>*\<^sup>* (if b_dead c then Down else Serving, c) (Serving, d)"
    and "run_state (execute cfg sm other req') d = (resp', e)" and "ran resp'"
  shows "q_task req' \<noteq> q_task req
    \<and> (fence_key (q_task req') = fence_key (q_task req) \<longrightarrow> t_fencing_token (q_task req) \<le> t_fencing_token (q_task req'))"
proof -
  have "record_inv well (Down, b0)"
    using assms(2) by (simp add: filed_def loadFences_def initial_state_def well_def schema_ok_def nonces_ok_def)
  from record_inv_reachable [OF stable_well assms(1) this assms(3)] have "well (b_clock b) (b_state b)"
    by (simp add: kept_def)
  moreover obtain t r where t: "run_state (acceptFence (q_task req)) b = (Inr (), t)"
    and c: "run_state (run_primitive sm other (q_task req)) t = (r, c)"
    using assms(4,5) by (rule execute_ran)
  ultimately have "kept (consumed (q_task req)) t" by (intro accept_consumes)
  from keeps_run [OF blind_primitive [OF kept_blind [OF stable_consumed] assms(1)] this c]
  have "record_inv (consumed (q_task req)) (if b_dead c then Down else Serving, c)" by (simp add: kept_def)
  from record_inv_reachable [OF stable_consumed assms(1) this assms(6)]
  have d: "kept (consumed (q_task req)) d" by simp
  obtain t' r' where "run_state (acceptFence (q_task req')) d = (Inr (), t')"
    using assms(7,8) by (rule execute_ran)
  from consumed_refuses [OF d this] show ?thesis by blast
qed

end
