(* ===== verification/Fence_Watch.thy ===== *)
theory Fence_Watch
  imports Replay
begin

text \<open>
  The watchdog and the proofs it supports: an unexpected restart is recorded, an attestation that
  reports success is true, a quiescence proof covers its interval, a marker without an owner
  stops the broker, the state file survives a restart unchanged.
\<close>

section \<open>Observing a steady host\<close>

lemma keeps_steady_inhibitors: "keeps (steady_at P) (activateServiceFenceInhibitors ss)"
  unfolding activateServiceFenceInhibitors_def install_marker_def
  by (intro keeps_bind keeps_get keeps_guardE keeps_tryE keeps_forE keeps_case_option keeps_case_prod keeps_okE
      keeps_steady_action)
    (simp_all add: steady_at_def steady_def mkdir_markers_def chmod_markers_def write_marker_def split: option.split)

lemma enforce_finds:
  "triple (steady_at (\<lambda>w. \<exists>s \<in> set ss. sm_active sm w s)) (enforce_services sm writerFenceActive ss) (\<lambda>r t. fst r)"
proof (induction ss)
  case Nil
  then show ?case by (auto simp: triple_def steady_at_def)
next
  case (Cons x xs)
  show ?case
  proof (rule tripleI)
    fix b r t
    assume b: "steady_at (\<lambda>w. \<exists>s \<in> set (x # xs). sm_active sm w s) b"
      and run: "run_state (enforce_services sm writerFenceActive (x # xs)) b = (r, t)"
    obtain a c where c: "run_state (IsActive sm x) b = (a, c)" by fastforce
    show "fst r"
    proof (cases "a = Inr False")
      case True
      from tripleD [OF IsActive_observes b c] True
      have "steady_at (\<lambda>w. (\<exists>s \<in> set (x # xs). sm_active sm w s) \<and> sm_active sm w x = False) c" by simp
      then have "steady_at (\<lambda>w. \<exists>s \<in> set xs. sm_active sm w s) c" by (auto simp: steady_at_def)
      moreover obtain r' t' where rest: "run_state (enforce_services sm writerFenceActive xs) c = (r', t')" by fastforce
      ultimately have "fst r'" using Cons by (auto dest: tripleD)
      with run c True rest show ?thesis by (auto simp: enforce_service_def Let_def split: prod.splits)
    next
      case False
      then have "is_err a \<or> a = Inr True" by (auto simp: is_err_def split: sum.splits)
      with run c show ?thesis by (auto simp: enforce_service_def Let_def split: prod.splits)
    qed
  qed
qed


section \<open>A successful attestation is true\<close>

text \<open>The documented behaviour of the service manager the attestation relies on: a stop never
  starts a service.\<close>

definition stop_only_stops :: "'w svcmgr \<Rightarrow> bool" where
  "stop_only_stops sm \<longleftrightarrow> (\<forall>s x w. sm_active sm (sm_operate sm ''stop'' s w) x \<longrightarrow> sm_active sm w x)"

definition secured :: "'w svcmgr \<Rightarrow> string list \<Rightarrow> 'w broker \<Rightarrow> bool" where
  "secured sm ss b \<longleftrightarrow> steady_at (\<lambda>w. \<forall>s \<in> set ss. \<not> sm_active sm w s) b \<and> inhibited (marker_names b) ss"

lemma secured_append: "secured sm ss b \<Longrightarrow> secured sm ts b \<Longrightarrow> secured sm (ss @ ts) b"
  by (auto simp: secured_def steady_at_def inhibited_def)

lemma keeps_secured_action:
  assumes "\<And>b. secured sm ss b \<Longrightarrow> secured sm ss (eff b)" and "\<And>b. secured sm ss b \<Longrightarrow> secured sm ss (partial b)"
  shows "keeps (secured sm ss) (attempt eff partial)"
proof (rule keepsI)
  fix b :: "'a broker"
  assume b: "secured sm ss b"
  obtain oc b' where n: "next_incident b = (oc, b')" by fastforce
  have "b_markers b' = b_markers b" using next_incident_frame [OF n] by auto
  with b steady_next [OF _ n] have b': "secured sm ss b'" by (auto simp: secured_def)
  have dead: "secured sm ss (c\<lparr>b_dead := True\<rparr>)" if "secured sm ss c" for c :: "'a broker"
    using that by (simp add: secured_def steady_at_def steady_def)
  show "secured sm ss (snd (run_state (attempt eff partial) b))"
    using b b' assms dead by (auto simp: attempt_def n split: outcome.split)
qed

lemma secured_write_marker: "secured sm ss b \<Longrightarrow> secured sm ss (write_marker s c b)"
  by (auto simp: secured_def steady_at_def steady_def inhibited_def write_marker_def)

lemma keeps_secured_inhibitors: "keeps (secured sm ss) (activateServiceFenceInhibitors ts)"
  unfolding activateServiceFenceInhibitors_def install_marker_def
  by (intro keeps_bind keeps_get keeps_guardE keeps_tryE keeps_forE keeps_case_option keeps_case_prod keeps_okE
      keeps_secured_action secured_write_marker)
    (simp_all add: secured_def steady_at_def steady_def mkdir_markers_def chmod_markers_def split: option.split)

lemma keeps_secured_stop: "stop_only_stops sm \<Longrightarrow> keeps (secured sm ss) (Operate sm ''stop'' s)"
  unfolding Operate_def
  by (intro keeps_secured_action) (auto simp: secured_def steady_at_def steady_def stop_only_stops_def)

lemma keeps_secured_IsActive: "keeps (secured sm ss) (IsActive sm s)"
  unfolding IsActive_def by (intro keeps_intros keeps_secured_action) simp_all

lemma keeps_secured_verify: "keeps (secured sm ss) (verifyServicesInactive sm ts)"
  unfolding verifyServicesInactive_def by (intro keeps_intros keeps_secured_IsActive)

lemma keeps_secured_enforce:
  "stop_only_stops sm \<Longrightarrow> keeps (secured sm ss) (enforce_services sm ph ts)"
  by (induction ts)
    (auto simp: enforce_service_def Let_def
      intro!: keeps_bind keeps_return keeps_if keeps_case_prod keeps_secured_IsActive keeps_secured_stop)

lemma keeps_secured_persist: "keeps (secured sm ss) persistFences"
  unfolding persistFences_def
  by (intro keeps_secured_action) (simp_all add: secured_def steady_at_def steady_def)

lemma secured_put: "secured sm ss (put_fence mid f b) = secured sm ss b"
  by (simp add: secured_def steady_at_def steady_def put_fence_def)

lemma inhibitors_secure:
  "triple (\<lambda>_. True) (activateServiceFenceInhibitors ss) (\<lambda>r t. is_err r \<or> inhibited (marker_names t) ss)"
  (is "triple _ _ ?Q")
proof -
  let ?I = "\<lambda>ys b. inhibited (marker_names (b :: 'a broker)) ys"
  have calm: "calm (?I ys)" for ys by (rule calmI) simp_all
  have step: "triple (?I ys) (install_marker x) (\<lambda>r t. case r of Inl e \<Rightarrow> ?Q (Inl e) t | Inr _ \<Rightarrow> ?I (ys @ [x]) t)" for ys x
  proof (rule tripleI)
    fix b r and t :: "'a broker"
    assume b: "?I ys b" and run: "run_state (install_marker x) b = (r, t)"
    show "case r of Inl e \<Rightarrow> ?Q (Inl e) t | Inr _ \<Rightarrow> ?I (ys @ [x]) t"
    proof (cases r)
      case (Inr u)
      show ?thesis
      proof (cases "map_of (b_markers b) (marker_name x)")
        case None
        with run Inr obtain c where c: "run_state (attempt (write_marker x marker_content) (write_marker x [])) b = (Inr (), c)"
          and t: "run_state (action id) c = (Inr u, t)"
          by (auto simp: install_marker_def split: prod.splits sum.splits)
        from c obtain b' where "next_incident b = (Done, b')" "c = write_marker x marker_content b'" by (rule attempt_Inr)
        with calm_next [OF calm b] have "?I (ys @ [x]) c" by (auto simp: write_marker_def inhibited_def)
        with keeps_run [OF keeps_action_id [OF calm] _ t] Inr show ?thesis by auto
      next
        case (Some a)
        with run Inr have "t = b" by (auto simp: install_marker_def split: prod.splits if_splits)
        with Some b Inr show ?thesis by (force simp: inhibited_def dest: map_of_SomeD)
      qed
    qed simp
  qed
  have loop: "triple (?I []) (forE ss install_marker) ?Q"
    by (rule triple_forE [where I = ?I]) (rule step, simp)
  have last: "triple (?I ss) (action id) ?Q"
    using keeps_action_id [OF calm, of ss] unfolding keeps_def by (rule triple_conseq) simp_all
  have any: "triple (\<lambda>_. True) m (\<lambda>_. ?I [])" for m :: "('a broker, 'c) state"
    by (simp add: triple_def inhibited_def)
  have body: "triple (?I []) (tryE (forE ss install_marker) (\<lambda>_. action id)) ?Q"
    by (rule triple_tryE [OF loop]) (use last in auto)
  show ?thesis
    unfolding activateServiceFenceInhibitors_def
    apply (rule triple_bind [OF any])
    apply (rule triple_guardE, rule triple_guardE)
      apply (rule triple_tryE [where R = "\<lambda>_. ?I []"], simp add: triple_def inhibited_def, simp)
      apply (rule triple_tryE [where R = "\<lambda>_. ?I []"], simp add: triple_def inhibited_def, simp)
      apply (rule triple_bind [where R = "\<lambda>_. ?I []"], simp add: triple_def inhibited_def)
      apply (rule triple_guardE, rule body)
      apply simp_all
    done
qed

lemma verify_secures:
  assumes "steady_at (\<lambda>_. True) b" and "run_state (verifyServicesInactive sm ss) b = (Inr (), c)"
    and "inhibited (marker_names b) ss"
  shows "secured sm ss c"
proof -
  have "b_markers c = b_markers b"
    by (rule keeps_run [where I = "\<lambda>c. b_markers c = b_markers b", OF _ _ assms(2)])
      (rule keeps_verifyServicesInactive, rule calmI, simp_all)
  with tripleD [OF verifyServicesInactive_observes assms(1,2)] assms(3) show ?thesis
    by (simp add: secured_def)
qed

text \<open>The part of the fences a reconciliation round never changes.\<close>

definition shape :: "(string, writerFenceState) gomap \<Rightarrow> (string \<times> bool \<times> string list) list" where
  "shape fs = map (\<lambda>(k, f). (k, f_active f, f_services f)) fs"

lemma shape_put:
  "distinct (map fst fs) \<Longrightarrow> map_of fs mid = Some f \<Longrightarrow> f_active g = f_active f \<Longrightarrow> f_services g = f_services f \<Longrightarrow>
     shape (go_put mid g fs) = shape fs"
  by (induction fs) (auto simp: shape_def split: if_splits)

lemma map_of_shape: "map_of (shape fs) k = map_option (\<lambda>f. (f_active f, f_services f)) (map_of fs k)"
  by (induction fs) (auto simp: shape_def)

definition shaped :: "(string \<times> bool \<times> string list) list \<Rightarrow> brokerPersistentState \<Rightarrow> state_file option \<Rightarrow> bool" where
  "shaped sh s d \<longleftrightarrow> shape (s_writer_fences s) = sh \<and> wf_fences (s_writer_fences s)"

lemma shaped_saves: "saves (shaped sh)"
  by (simp add: saves_def shaped_def)

lemma shaped_lookup:
  assumes "of_state (shaped sh) b" and "map_of sh mid = Some (act, ss)"
  obtains g where "writer_fence b mid = Some g" and "f_active g = act" and "f_services g = ss" and "f_migration_id g = mid"
proof -
  from assms have "map_of (shape (s_writer_fences (b_state b))) mid = Some (act, ss)"
    by (simp add: of_state_def shaped_def)
  then obtain g where g: "writer_fence b mid = Some g" "f_active g = act" "f_services g = ss"
    by (auto simp: map_of_shape writer_fence_def)
  moreover have "f_migration_id g = mid"
    using g(1) assms(1) by (auto simp: of_state_def shaped_def writer_fence_def intro: wf_lookup)
  ultimately show ?thesis using that by blast
qed

lemma keeps_shaped_put:
  assumes "map_of sh mid = Some (f_active g, f_services g)" and "f_migration_id g = mid"
  shows "keeps (of_state (shaped sh)) (modify (put_fence mid g))"
proof (rule keeps_modify)
  fix c :: "'a broker"
  assume c: "of_state (shaped sh) c"
  from c assms(1) obtain f where f: "map_of (s_writer_fences (b_state c)) mid = Some f" "f_active f = f_active g" "f_services f = f_services g"
    by (rule shaped_lookup) (simp add: writer_fence_def)
  have wf: "wf_fences (s_writer_fences (b_state c))" using c by (simp add: of_state_def shaped_def)
  with f have "shape (go_put mid g (s_writer_fences (b_state c))) = shape (s_writer_fences (b_state c))"
    by (intro shape_put [of _ _ f]) (simp_all add: wf_fences_def)
  with c wf_put [OF wf assms(2)] show "of_state (shaped sh) (put_fence mid g c)"
    by (simp add: of_state_def shaped_def put_fence_def)
qed

lemma reconcile_fence_secures:
  assumes "stop_only_stops sm" and "map_of sh (f_migration_id f) = Some (True, f_services f)"
  shows "triple (\<lambda>b. secured sm ss b \<and> of_state (shaped sh) b) (reconcile_fence sm f)
    (\<lambda>failed t. of_state (shaped sh) t \<and> (failed \<or> secured sm (ss @ f_services f) t))"
proof (rule tripleI)
  fix b r and t :: "'a broker"
  assume b: "secured sm ss b \<and> of_state (shaped sh) b" and run: "run_state (reconcile_fence sm f) b = (r, t)"
  obtain i c where c: "run_state (activateServiceFenceInhibitors (f_services f)) b = (i :: berr + unit, c)" by fastforce
  obtain v w d where d: "run_state (enforce_services sm (f_phase f) (f_services f)) c = ((v, w), d)"
    by (metis prod.collapse)
  have t: "run_state (settle_fence sm f v (is_err i \<or> w)) d = (r, t)"
    using run c d by (simp add: reconcile_fence_def)
  have "of_state (shaped sh) c" by (rule keeps_run [OF _ _ c]) (use b in \<open>auto intro!: keeps_intros\<close>)
  then have shd: "of_state (shaped sh) d" by (rule keeps_run [OF _ _ d, rotated]) (intro keeps_intros; simp)
  have sec: "secured sm ss c" by (rule keeps_run [OF keeps_secured_inhibitors _ c]) (use b in simp)
  then have secd: "secured sm ss d" by (rule keeps_run [OF keeps_secured_enforce [OF assms(1)] _ d])
  have inh: "inhibited (marker_names d) (f_services f)" if "\<not> is_err i"
  proof -
    have "inhibited (marker_names c) (f_services f)" using tripleD [OF inhibitors_secure _ c] that by simp
    then show ?thesis
      by (rule keeps_run [where I = "\<lambda>b. inhibited (marker_names b) (f_services f)", OF _ _ d, rotated])
        (rule keeps_enforce_services, rule calmI, simp_all)
  qed
  from shd assms(2) obtain g where g: "writer_fence d (f_migration_id f) = Some g" "f_active g" "f_services g = f_services f"
    "f_migration_id g = f_migration_id f" by (rule shaped_lookup) simp
  obtain x e where e: "run_state (verifyServicesInactive sm (f_services f)) d = (x, e)" by fastforce
  let ?h = "settled_fence (b_clock d) (is_err x) v (is_err i \<or> w) g"
  obtain p where p: "run_state persistFences (put_fence (f_migration_id f) ?h e) = (p :: berr + unit, t)"
    and r: "r \<longleftrightarrow> is_err i \<or> w \<or> is_err x \<or> is_err p"
    using t g e by (auto simp: settle_fence_def time_now_def split: prod.splits)
  have "of_state (shaped sh) e" using shd by (rule keeps_run [OF _ _ e, rotated]) (intro keeps_intros; simp)
  then have "of_state (shaped sh) (put_fence (f_migration_id f) ?h e)"
    using keepsD [OF keeps_shaped_put [of sh "f_migration_id f" ?h]] assms(2) g by fastforce
  then have sht: "of_state (shaped sh) t"
    by (rule keeps_run [OF keeps_persistFences [OF shaped_saves] _ p])
  have "secured sm (ss @ f_services f) t" if "\<not> r"
  proof -
    have x: "x = Inr ()" using that r by (cases x) auto
    have "secured sm ss e" by (rule keeps_run [OF keeps_secured_verify secd e])
    moreover have "secured sm (f_services f) e"
      using verify_secures [OF _ e [unfolded x]] secd inh that r by (auto simp: secured_def steady_at_def)
    ultimately have "secured sm (ss @ f_services f) (put_fence (f_migration_id f) ?h e)"
      by (simp add: secured_put secured_append)
    then show ?thesis by (rule keeps_run [OF keeps_secured_persist _ p])
  qed
  with sht show "of_state (shaped sh) t \<and> (r \<or> secured sm (ss @ f_services f) t)" by blast
qed

lemma reconcile_all_secures:
  assumes "stop_only_stops sm" and "\<forall>f \<in> set fs. map_of sh (f_migration_id f) = Some (True, f_services f)"
  shows "triple (\<lambda>b. secured sm ss b \<and> of_state (shaped sh) b) (reconcile_all sm fs)
    (\<lambda>failed t. failed \<or> secured sm (ss @ concat (map f_services fs)) t \<and> of_state (shaped sh) t)"
  using assms(2)
proof (induction fs arbitrary: ss)
  case Nil
  then show ?case by (auto simp: triple_def)
next
  case (Cons f fs)
  show ?case
  proof (rule tripleI)
    fix b r and t :: "'a broker"
    assume b: "secured sm ss b \<and> of_state (shaped sh) b" and run: "run_state (reconcile_all sm (f # fs)) b = (r, t)"
    obtain r1 c where c: "run_state (reconcile_fence sm f) b = (r1, c)" by fastforce
    obtain r2 d where d: "run_state (reconcile_all sm fs) c = (r2, d)" by fastforce
    have rt: "r \<longleftrightarrow> r1 \<or> r2" "t = d" using run c d by auto
    have "of_state (shaped sh) c \<and> (r1 \<or> secured sm (ss @ f_services f) c)"
      using tripleD [OF reconcile_fence_secures [OF assms(1)] b c] Cons.prems by simp
    with tripleD [OF Cons.IH [of "ss @ f_services f"] _ d] Cons.prems rt
    show "r \<or> secured sm (ss @ concat (map f_services (f # fs))) t \<and> of_state (shaped sh) t" by auto
  qed
qed

text \<open>
  \<^bold>\<open>C28\<close>. Soundness of the writer-fence attestation. If the attestation reports success, then every service
  of every active fence is inactive and its boot inhibitor stands, the attestation lists exactly the
  active fences with their violation counts, and every marker on the host was owned.
  Assumed are distinct migration keys, a host nobody else changes meanwhile, and a service
  manager whose stop starts nothing.
\<close>

theorem attestation_sound:
  assumes "stop_only_stops sm" and "steady b" and "wf_fences (s_writer_fences (b_state b))"
    and "run_state (attestWriterFences sm) b = ((atts, True), t)"
  shows "(\<forall>f \<in> snd ` set (s_writer_fences (b_state t)). f_active f \<longrightarrow>
        (\<forall>s \<in> set (f_services f). \<not> sm_active sm (b_world t) s \<and> marker_name s \<in> marker_names t))
    \<and> set atts = attestation (b_clock t) ` {f \<in> snd ` set (s_writer_fences (b_state t)). f_active f}
    \<and> validateServiceFenceMarkers b = None"
proof -
  let ?fs = "s_writer_fences (b_state b)"
  let ?active = "filter f_active (map snd ?fs)"
  from assms(4) have rec: "run_state (reconcileWriterFences sm) b = (Inr (), t)"
    and atts: "set atts = attestation (b_clock t) ` {f \<in> snd ` set (s_writer_fences (b_state t)). f_active f}"
    by (force simp: attestWriterFences_def is_err_def split: prod.splits sum.splits)+
  from rec have val: "validateServiceFenceMarkers b = None" and all: "run_state (reconcile_all sm ?active) b = (False, t)"
    by (auto simp: reconcileWriterFences_def split: option.splits if_splits prod.splits sum.splits)
  have "\<forall>f \<in> set ?active. map_of (shape ?fs) (f_migration_id f) = Some (True, f_services f)"
    using wf_entry [OF assms(3)] assms(3) by (fastforce simp: map_of_shape wf_fences_def)
  from tripleD [OF reconcile_all_secures [OF assms(1) this, of "[]"] _ all]
  have sec: "secured sm (concat (map f_services ?active)) t" and sh: "of_state (shaped (shape ?fs)) t"
    using assms(2,3) by (auto simp: secured_def steady_at_def inhibited_def of_state_def shaped_def)
  have "\<not> sm_active sm (b_world t) s \<and> marker_name s \<in> marker_names t"
    if f: "f \<in> snd ` set (s_writer_fences (b_state t))" "f_active f" and s: "s \<in> set (f_services f)" for f s
  proof -
    from f obtain k where "(k, True, f_services f) \<in> set (shape (s_writer_fences (b_state t)))" by (force simp: shape_def)
    then have "(k, True, f_services f) \<in> set (shape ?fs)" using sh by (simp add: of_state_def shaped_def)
    then have "s \<in> set (concat (map f_services ?active))" using s by (force simp: shape_def)
    with sec show ?thesis by (auto simp: secured_def steady_at_def inhibited_def)
  qed
  with atts val show ?thesis by blast
qed

section \<open>The quiescence proof\<close>

lemma timeless_steady [simp]: "timeless (steady_at (\<lambda>_. True))"
  unfolding timeless_def by (simp add: calm_steady) (simp add: steady_at_def steady_def)

lemma poll_inactive_proves:
  "poll_inactive sm ss dl b = (Inr (), t) \<Longrightarrow> dl \<le> b_clock t \<and>
     (steady_at (\<lambda>_. True) b \<longrightarrow> steady_at (\<lambda>w. \<forall>s \<in> set ss. \<not> sm_active sm w s) t)"
proof (induction sm ss dl b rule: poll_inactive.induct)
  case (1 sm ss dl b)
  obtain c where c: "run_state (verifyServicesInactive sm ss) b = (Inr (), c)"
    using "1.prems" by (subst (asm) poll_inactive.simps) (auto split: prod.splits sum.splits)
  show ?case
  proof (cases "b_clock c < dl")
    case True
    with "1.prems" c obtain u d where d: "run_state (wait_until dl) c = (Inr u, d)" "poll_inactive sm ss dl d = (Inr (), t)"
      by (subst (asm) poll_inactive.simps) (auto split: prod.splits sum.splits)
    have "steady_at (\<lambda>_. True) d" if "steady_at (\<lambda>_. True) b"
    proof -
      have "steady_at (\<lambda>_. True) c" using that by (rule keeps_run [OF _ _ c, rotated]) (intro keeps_intros; simp)
      then show ?thesis by (rule keeps_run [OF keeps_wait_until [OF timeless_steady] _ d(1)])
    qed
    with "1.IH" [of "Inr ()" c "()" "Inr u" d u] True c d show ?thesis by simp
  next
    case False
    with "1.prems" c have "t = c" by (subst (asm) poll_inactive.simps) simp
    with False tripleD [OF verifyServicesInactive_observes [where P = "\<lambda>_. True"] _ c] show ?thesis by simp
  qed
qed

text \<open>
  What a quiescence proof proves. A successful \<open>verify-quiescence\<close> task returns no earlier than the
  interval it was asked for (at least five seconds) after it started; the fence is then active for
  the task's run, durable, and freshly verified; and, if nobody else acted on the host, every
  service of the task is inactive.
\<close>

theorem quiescence_proof:
  assumes "run_state (verifyWriterFence sm task) b = (Inr out, t)"
  shows "\<exists>f interval. writer_fence t (t_migration_id task) = Some f \<and> f_active f \<and> brokerTaskRunID task = Inr (f_run_id f)
    \<and> map_of (file_fences (b_state_file t)) (t_migration_id task) = Some (marshal_fence f)
    \<and> boundedIntegerInput (taskInputs task) ''interval_seconds'' 5 60 = Inr interval \<and> 5 \<le> interval
    \<and> b_clock b + seconds interval \<le> b_clock t \<and> scoped_services b task = Inr (f_services f)
    \<and> (steady b \<longrightarrow> (\<forall>s \<in> set (f_services f). \<not> sm_active sm (b_world t) s))"
proof -
  from assms obtain runID ss i c f where runID: "brokerTaskRunID task = Inr runID"
    and ss: "scoped_services b task = Inr ss"
    and i: "boundedIntegerInput (taskInputs task) ''interval_seconds'' 5 60 = Inr i"
    and c: "poll_inactive sm ss (b_clock b + seconds i) b = (Inr (), c)"
    and f: "writer_fence c (t_migration_id task) = Some f" "f_run_id f = runID" "f_active f" "f_services f = ss"
    and t: "run_state persistFences (put_fence (t_migration_id task) (quiescent_fence (b_clock c) f) c) = (Inr (), t)"
    by (auto simp: verifyWriterFence_def time_now_def Let_def split: if_splits prod.splits sum.splits option.splits)
  let ?g = "quiescent_fence (b_clock c) f"
  from t obtain b' where b': "next_incident (put_fence (t_migration_id task) ?g c) = (Done, b')"
    and t': "t = b'\<lparr>b_state_file := Some (Document (marshal_state (b_state b')))\<rparr>"
    unfolding persistFences_def by (rule attempt_Inr)
  have st: "b_state b' = b_state (put_fence (t_migration_id task) ?g c)" and clk: "b_clock c \<le> b_clock b'"
    using next_incident_frame [OF b'] by (auto simp: put_fence_def)
  have g: "writer_fence t (t_migration_id task) = Some ?g" by (simp add: writer_fence_def t' st put_fence_def)
  then have doc: "map_of (file_fences (b_state_file t)) (t_migration_id task) = Some (marshal_fence ?g)"
    by (simp add: t' map_of_map_val writer_fence_def)
  have "\<not> sm_active sm (b_world t) s" if "steady b" "s \<in> set ss" for s
  proof -
    have "steady_at (\<lambda>w. \<forall>s \<in> set ss. \<not> sm_active sm w s) (put_fence (t_migration_id task) ?g c)"
      using poll_inactive_proves [OF c] that(1) by (simp add: steady_at_def steady_def put_fence_def)
    from steady_next [OF this b'] that(2) show ?thesis by (simp add: t' steady_at_def)
  qed
  moreover have "5 \<le> i" using i by (auto simp: boundedIntegerInput_def split: option.splits if_splits)
  moreover have "b_clock b + seconds i \<le> b_clock t" using poll_inactive_proves [OF c] clk by (simp add: t')
  ultimately show ?thesis using g doc f runID ss i by (intro exI [of _ ?g] exI [of _ i]) simp
qed

section \<open>Markers have owners\<close>

lemma check_markers_None: "check_markers b ex ms = None \<Longrightarrow> m \<in> set ms \<Longrightarrow> check_marker b ex m = None"
  by (induction b ex ms rule: check_markers.induct) (auto split: option.splits)

text \<open>
  A broker that starts owns every marker: after \<open>NewBroker\<close> succeeds on a host with a
  marker directory, each file there is the intact marker of a preconfigured service with a valid
  drop-in, and that service belongs to a fence that is active or in an authorised release. A marker
  left by a crash before its fence was recorded therefore stops the broker instead of being
  reported as no fence at all.
\<close>

theorem started_broker_owns_markers:
  assumes "NewBroker b = Inr c" and "b_marker_dir b \<noteq> None" and "(name, info, content) \<in> set (b_markers b)"
  shows "\<exists>s \<in> set (live_services (s_writer_fences (b_state c))). name = marker_name s \<and> s \<in> set (b_allowed b)
    \<and> content = marker_content \<and> verifyServiceFenceDropIn c s"
proof -
  from assms(1) obtain s where c: "c = b\<lparr>b_state := s, b_dead := False\<rparr>" and val: "validateServiceFenceMarkers c = None"
    by (auto simp: NewBroker_def Let_def split: sum.splits option.splits)
  from val assms(2) have "check_markers c (live_services (s_writer_fences (b_state c))) (b_markers c) = None"
    by (auto simp: validateServiceFenceMarkers_def expectedServiceFenceMarkers_def Let_def c
        split: sum.splits option.splits if_splits)
  from check_markers_None [OF this, of "(name, info, content)"] assms(3)
  have "check_marker c (live_services (s_writer_fences (b_state c))) (name, info, content) = None" by (simp add: c)
  then have m: "has_suffix name ''.fenced''" "trim_suffix name ''.fenced'' \<in> set (b_allowed c)" "content = marker_content"
    "verifyServiceFenceDropIn c (trim_suffix name ''.fenced'')"
    "trim_suffix name ''.fenced'' \<in> set (live_services (s_writer_fences (b_state c)))"
    by (auto simp: check_marker_def Let_def split: if_splits)
  moreover have "name = marker_name (trim_suffix name ''.fenced'')"
    using m(1) by (auto simp: has_suffix_iff trim_suffix_def marker_name_def)
  ultimately show ?thesis by (auto simp: c)
qed

section \<open>The state file\<close>

definition phased :: "brokerPersistentState \<Rightarrow> bool" where
  "phased s \<longleftrightarrow> schema_ok s \<and> (\<forall>f \<in> snd ` set (s_writer_fences s). f_phase f \<noteq> NoPhase)"

definition filed_form :: "brokerPersistentState \<Rightarrow> brokerPersistentState" where
  "filed_form s = s\<lparr>s_writer_fences := map (map_prod id marshal_fence) (s_writer_fences s)\<rparr>"

lemma marshal_fence_idem [simp]: "marshal_fence (marshal_fence f) = marshal_fence f"
  by (simp add: marshal_fence_def omit_empty_def)

lemma load_save_state:
  assumes "phased s"
  shows "loadFences (Some (Document (marshal_state s))) = Inr (filed_form s)"
proof -
  have "map (map_prod id upgrade_fence) (map (map_prod id marshal_fence) (s_writer_fences s))
      = map (map_prod id marshal_fence) (s_writer_fences s)"
    using assms by (force simp: phased_def upgrade_fence_def map_prod_def)
  then show ?thesis using assms by (simp add: load_marshal phased_def filed_form_def)
qed

lemma filed_form_phased: "phased s \<Longrightarrow> phased (filed_form s)"
  by (auto simp: phased_def filed_form_def schema_ok_def)

lemma filed_form_idem: "filed_form (filed_form s) = filed_form s"
  by (simp add: filed_form_def comp_def map_prod_def split_beta)

interpretation broker_file: durable_document "\<lambda>s. Some (Document (marshal_state s))" loadFences phased filed_form
  by unfold_locales (simp_all add: load_save_state filed_form_phased filed_form_idem)

text \<open>
  \<^bold>\<open>C29\<close>. The state file round trip: loading a persisted broker state gives the state back, fencing tokens,
  fences, phases and consumed nonces included; only an empty list of previously active services
  reads back as an absent one. Persisting and loading again changes nothing more.
\<close>

theorem state_file_round_trip:
  assumes "phased s"
  shows "loadFences (Some (Document (marshal_state s))) = Inr (filed_form s)
    \<and> loadFences (Some (Document (marshal_state (filed_form s)))) = Inr (filed_form s)
    \<and> (\<forall>mid. map_of (s_writer_fences (filed_form s)) mid = map_option marshal_fence (map_of (s_writer_fences s) mid))"
  using broker_file.load_save [OF assms] broker_file.reload_fixed [OF assms]
  by (simp add: filed_form_def map_of_map_val)

section \<open>A fence that lost its run\<close>

text \<open>
  \<^bold>\<open>C30\<close>. A fence whose record has no run identifier is owned by nobody: every later attempt of any run to
  release it, to activate it again or to prove quiescence under it is refused. The literal that
  \<open>activateWriterFence\<close> keeps in memory when its final write fails has no run identifier, so
  an activation that failed at that point leaves such a fence; the next watchdog round makes it durable.
\<close>

theorem stranded_fence:
  assumes "writer_fence b (t_migration_id task) = Some f" and "f_active f" and "f_run_id f = []"
  shows "is_err (fst (run_state (releaseWriterFence sm task services) b))
    \<and> is_err (fst (run_state (activateWriterFence sm task services) b))
    \<and> is_err (fst (run_state (verifyWriterFence sm task) b))"
proof -
  have id: "runID \<noteq> []" if "brokerTaskRunID task = Inr runID" for runID
    using that by (auto simp: brokerTaskRunID_def split: option.splits if_splits)
  have "is_err (fst (run_state (releaseWriterFence sm task services) b))"
    using assms(1,3) id by (cases "brokerTaskRunID task") (auto simp: releaseWriterFence_def time_now_def)
  moreover have "is_err (fst (run_state (activateWriterFence sm task services) b))"
    using assms(1-3) id by (cases "brokerTaskRunID task") (auto simp: activateWriterFence_def Let_def)
  moreover have "is_err (fst (run_state (verifyWriterFence sm task) b))"
  proof (rule ccontr)
    assume "\<not> ?thesis"
    then obtain out t where run: "run_state (verifyWriterFence sm task) b = (Inr out, t)"
      by (cases "run_state (verifyWriterFence sm task) b") (auto simp: is_err_def split: sum.splits)
    then obtain ss i c g where "brokerTaskRunID task = Inr (f_run_id g)"
      and c: "poll_inactive sm ss (b_clock b + seconds i) b = (Inr (), c)"
      and g: "writer_fence c (t_migration_id task) = Some g"
      by (auto simp: verifyWriterFence_def time_now_def Let_def split: if_splits prod.splits sum.splits option.splits)
    moreover have "of_state (holds_fence (t_migration_id task) (\<lambda>g. g = f)) c"
      by (rule keeps_run [where m = "State (poll_inactive sm ss (b_clock b + seconds i))", OF keeps_of_state_poll])
        (use assms(1) c in \<open>simp_all add: holds_fence_iff\<close>)
    ultimately show False using id assms(3) by (auto simp: holds_fence_iff)
  qed
  ultimately show ?thesis by blast
qed

end
