(* ===== verification/Fence_Samples.thy ===== *)
theory Fence_Samples
  imports Fence_Watch
begin

text \<open>
  A host with one service and a service manager that does what it is told, on which the
  properties of the broker are instantiated: the definitions are evaluated on it, and every
  hypothesis is discharged there.
\<close>

section \<open>A sample host\<close>

definition sample_sm :: "string list svcmgr" where
  "sample_sm = \<lparr>sm_operate = (\<lambda>act s w. if act = ''stop'' then removeAll s w else List.insert s w),
     sm_active = (\<lambda>w s. s \<in> set w)\<rparr>"

definition sample_crypto :: crypto where
  "sample_crypto = \<lparr>float_text = (\<lambda>m k. int_str m), sha256_hex = (\<lambda>s. ''00''), sig_ok = (\<lambda>m s. s = ''sig'')\<rparr>"

definition sample_inputs :: jobj where
  "sample_inputs = [(''service_handles'', JArr [JStr ''db.service''])]"

definition sample_task :: "string \<Rightarrow> int \<Rightarrow> string \<Rightarrow> TaskEnvelope" where
  "sample_task prim token nonce = \<lparr>t_schema_version = ''operations.migration.task.v1'', t_key_id = ''k1'',
     t_algorithm = ''ed25519-v1'', t_audience = ''askio-monitor'', t_agent_id = ''agent'', t_endpoint_id = ''e1'',
     t_migration_id = ''m1'', t_run_id = Some ''run1'', t_run_step_id = Some ''step1'', t_attempt_id = ''a1'',
     t_attempt_token = replicate 32 (CHR ''t''), t_fencing_token = token, t_plan_digest = None,
     t_subject_digest = ''sha256:00'', t_primitive = \<lparr>p_id = prim, p_version = ''1.0.0''\<rparr>, t_resource_scope = None,
     t_inputs = Some sample_inputs, t_issued_at = Stamp 0, t_expires_at = Stamp 1000, t_nonce = nonce,
     t_signature = ''sig''\<rparr>"

definition sample_base :: "string list broker" where
  "sample_base = \<lparr>b_allowed = [''db.service''], b_state = initial_state, b_state_file = None, b_marker_root = ''/m'',
     b_marker_dir = None, b_markers = [], b_drop_ins = [], b_world = [''db.service''], b_systemctl = True,
     b_env = [], b_dead = False, b_clock = 5\<rparr>"

definition sample_host :: "string list broker" where
  "sample_host = sample_base\<lparr>b_drop_ins :=
     [(''db.service'', (\<lparr>fi_kind = FRegular, fi_perm = 420, fi_uid = 0\<rparr>, expectedServiceFenceDropIn sample_base ''db.service''))]\<rparr>"

definition sample_config :: broker_config where
  "sample_config = \<lparr>bc_backend_key_id = ''k1'', bc_agent_id = ''agent'', bc_crypto = sample_crypto\<rparr>"

definition fence_task :: TaskEnvelope where
  "fence_task = sample_task ''migration.host.fence-writers.v1'' 1 ''n1''"

definition unfence_task :: TaskEnvelope where
  "unfence_task = sample_task ''migration.host.unfence-writers.v1'' 2 ''n2''"

definition fenced_host :: "string list broker" where
  "fenced_host = snd (run_state (activateWriterFence sample_sm fence_task [''db.service'']) sample_host)"

definition incident :: "outcome \<Rightarrow> string list incident" where
  "incident oc = \<lparr>e_outcome = oc, e_world = None, e_delay = 0\<rparr>"

text \<open>An activation interrupted right after the fail-closed intent reached the disk.\<close>

definition crashed_host :: "string list broker" where
  "crashed_host = snd (run_state (activateWriterFence sample_sm fence_task [''db.service''])
     (sample_host\<lparr>b_env := map incident [Done, Done, Done, Done, Done, Done, Crash_dirty]\<rparr>))"

theorem activation_crash_safe_witness:
  "guarded crashed_host \<and> b_dead crashed_host
   \<and> map f_services (filter f_active (map snd (file_fences (b_state_file crashed_host)))) = [[''db.service'']]"
proof -
  have "guarded (sample_host\<lparr>b_env := map incident [Done, Done, Done, Done, Done, Done, Crash_dirty]\<rparr>)" by code_simp
  from activation_crash_safe [OF this] have "guarded crashed_host" unfolding crashed_host_def .
  moreover have "b_dead crashed_host" by code_simp
  moreover have "map f_services (filter f_active (map snd (file_fences (b_state_file crashed_host)))) = [[''db.service'']]"
    by code_simp
  ultimately show ?thesis by simp
qed

lemma sample_guarded: "guarded sample_host"
  by code_simp

lemma fence_run: "\<exists>out. run_state (activateWriterFence sample_sm fence_task [''db.service'']) sample_host = (Inr out, fenced_host)"
proof -
  have "\<not> is_err (fst (run_state (activateWriterFence sample_sm fence_task [''db.service'']) sample_host))" by code_simp
  then obtain out where "fst (run_state (activateWriterFence sample_sm fence_task [''db.service'']) sample_host) = Inr out"
    by (auto simp: is_err_def split: sum.splits)
  then show ?thesis by (intro exI [of _ out]) (simp add: fenced_host_def prod_eq_iff)
qed

theorem activation_success_witness:
  "\<exists>f. writer_fence fenced_host ''m1'' = Some f \<and> f_active f \<and> f_run_id f = ''run1'' \<and> f_fencing_token f = 1
     \<and> inhibited (marker_names fenced_host) [''db.service''] \<and> \<not> sm_active sample_sm (b_world fenced_host) ''db.service''"
proof -
  obtain out where run: "run_state (activateWriterFence sample_sm fence_task [''db.service'']) sample_host = (Inr out, fenced_host)"
    using fence_run by blast
  have "steady sample_host" and mid: "t_migration_id fence_task = ''m1''"
    and "brokerTaskRunID fence_task = Inr ''run1''" and "t_fencing_token fence_task = 1"
    by code_simp+
  with activation_success [OF sample_guarded run] show ?thesis by auto
qed

text \<open>The release of that fence, and one whose authorisation cannot be written.\<close>

definition released_host :: "string list broker" where
  "released_host = snd (run_state (releaseWriterFence sample_sm unfence_task [''db.service'']) fenced_host)"

definition unwritable_host :: "string list broker" where
  "unwritable_host = fenced_host\<lparr>b_env := map incident [Done, Fail_clean]\<rparr>"

lemma fenced_fence: "\<exists>f. writer_fence fenced_host ''m1'' = Some f \<and> f_active f \<and> f_migration_id f = ''m1'' \<and> f_services f = [''db.service'']"
proof -
  have "case writer_fence fenced_host ''m1'' of None \<Rightarrow> False
    | Some f \<Rightarrow> f_active f \<and> f_migration_id f = ''m1'' \<and> f_services f = [''db.service'']"
    by code_simp
  then show ?thesis by (simp split: option.splits)
qed

theorem release_fail_closed_witness:
  "\<exists>g. writer_fence (snd (run_state (releaseWriterFence sample_sm unfence_task [''db.service'']) unwritable_host)) ''m1'' = Some g
     \<and> f_active g \<and> f_services g = [''db.service'']"
proof -
  obtain f where f: "writer_fence fenced_host ''m1'' = Some f" "f_active f" "f_migration_id f = ''m1''" "f_services f = [''db.service'']"
    using fenced_fence by blast
  have mid: "t_migration_id unfence_task = ''m1''" by code_simp
  have here: "writer_fence unwritable_host (t_migration_id unfence_task) = Some f"
    using f(1) by (simp add: mid writer_fence_def unwritable_host_def)
  have "is_err (fst (run_state (releaseWriterFence sample_sm unfence_task [''db.service'']) unwritable_host))" by code_simp
  then obtain e t where "run_state (releaseWriterFence sample_sm unfence_task [''db.service'']) unwritable_host = (Inl e, t)"
    by (cases "run_state (releaseWriterFence sample_sm unfence_task [''db.service'']) unwritable_host")
      (auto simp: is_err_def split: sum.splits)
  from release_fail_closed [OF here f(2) _ this] f(3,4) this show ?thesis by (simp add: mid)
qed

theorem release_success_witness:
  "\<exists>f. released_in sample_sm fenced_host released_host ''m1'' f \<and> f_run_id f = ''run1'' \<and> cleared [''db.service''] released_host
     \<and> b_world released_host = [''db.service'']"
proof -
  have "\<not> is_err (fst (run_state (releaseWriterFence sample_sm unfence_task [''db.service'']) fenced_host))" by code_simp
  then obtain out where run: "run_state (releaseWriterFence sample_sm unfence_task [''db.service'']) fenced_host = (Inr out, released_host)"
    unfolding released_host_def
    by (cases "run_state (releaseWriterFence sample_sm unfence_task [''db.service'']) fenced_host")
      (auto simp: is_err_def split: sum.splits)
  have mid: "t_migration_id unfence_task = ''m1''" and r: "brokerTaskRunID unfence_task = Inr ''run1''"
    and w: "b_world released_host = [''db.service'']" by code_simp+
  obtain f where f: "writer_fence fenced_host ''m1'' = Some f" "f_active f" "f_migration_id f = ''m1''"
    using fenced_fence by blast
  from release_success [OF run] f mid r w show ?thesis by auto
qed

section \<open>Runs of the broker\<close>

definition sample_other :: "TaskEnvelope \<Rightarrow> (string list, jobj) bop" where
  "sample_other task = errE NotImplemented"

lemma sample_other_leaves: "leaves_fences sample_other"
  by (simp add: leaves_fences_def sample_other_def keeps_errE)

definition request_of :: "TaskEnvelope \<Rightarrow> BrokerRequest" where
  "request_of task = \<lparr>q_schema_version = ''operations.migration.broker.v1'', q_request_id = t_nonce task, q_action = [], q_task = task\<rparr>"

text \<open>What is left of a request once its envelope has been verified.\<close>

definition sample_run :: "TaskEnvelope \<Rightarrow> string list broker \<Rightarrow> BrokerResponse \<times> string list broker" where
  "sample_run task b =
     (case run_state (acceptFence task) b of
        (Inl _, c) \<Rightarrow> (Rejected Fenced, c)
      | (Inr _, c) \<Rightarrow>
          (case run_state (run_primitive sample_sm sample_other task) c of
             (Inl _, d) \<Rightarrow> (Rejected OperationRejected, d)
           | (Inr outs, d) \<Rightarrow> (Accepted (Outputs outs), d)))"

lemma sample_verified:
  "verifySignedTaskEnvelope sample_crypto 5 (sample_task prim token nonce) ''k1'' ''agent''
     = Inr (envelope_digest sample_crypto (sample_task prim token nonce))"
  if "prim \<noteq> []" "token \<ge> 1" "nonce \<noteq> []"
  using that
  by (simp add: verifySignedTaskEnvelope_def sample_crypto_def sample_task_def in_window_def seconds_def Digest_def)

lemma sample_execute:
  assumes "b_clock b = 5" and "task = fence_task \<or> task = unfence_task"
  shows "run_state (execute sample_config sample_sm sample_other (request_of task)) b = sample_run task b"
proof -
  have v: "verifySignedTaskEnvelope sample_crypto 5 task ''k1'' ''agent'' = Inr (envelope_digest sample_crypto task)"
    using assms(2) by (auto simp: fence_task_def unfence_task_def intro: sample_verified)
  have t: "t_nonce task \<noteq> []" "p_version (t_primitive task) = ''1.0.0''" "brokerTaskRunID task = Inr ''run1''"
    using assms(2) by (auto simp: fence_task_def unfence_task_def sample_task_def brokerTaskRunID_def)
  show ?thesis
    using t by (simp add: execute_def request_of_def sample_config_def assms(1) v sample_run_def Let_def split: prod.split sum.split)
qed

definition after_fence :: "string list broker" where
  "after_fence = snd (sample_run fence_task sample_host)"

lemma clocks: "b_clock sample_host = 5" "b_clock after_fence = 5"
  by code_simp+

abbreviation sample_step :: "mode \<times> string list broker \<Rightarrow> mode \<times> string list broker \<Rightarrow> bool" where
  "sample_step \<equiv> broker_step sample_config sample_sm sample_other"

lemma run_started: "sample_step\<^sup>*\<^sup>* (Down, sample_host) (Serving, sample_host)"
proof -
  have "NewBroker sample_host = Inr sample_host" by code_simp
  then have "sample_step (Down, sample_host) (Booting, sample_host)" by (rule boot)
  moreover have "run_state (serve_start sample_sm) sample_host = (Inr (), sample_host)" "\<not> b_dead sample_host"
    by code_simp+
  then have "sample_step (Booting, sample_host) (Serving, sample_host)" by (rule serve)
  ultimately show ?thesis by (meson converse_rtranclp_into_rtranclp rtranclp.rtrancl_refl)
qed

lemma run_fenced: "sample_step (Serving, sample_host) (Serving, after_fence)"
proof -
  have "run_state (execute sample_config sample_sm sample_other (request_of fence_task)) sample_host =
      (fst (sample_run fence_task sample_host), after_fence)"
    by (simp add: sample_execute clocks after_fence_def)
  from request [OF this] have "sample_step (Serving, sample_host) (if b_dead after_fence then Down else Serving, after_fence)" .
  moreover have "\<not> b_dead after_fence" by code_simp
  ultimately show ?thesis by simp
qed

theorem fences_exclusive_witness:
  "exclusive (s_writer_fences (b_state after_fence)) \<and> live_services (s_writer_fences (b_state after_fence)) = [''db.service'']"
proof -
  have "b_state_file sample_host = None" by code_simp
  from fences_exclusive [OF sample_other_leaves this rtranclp.rtrancl_into_rtrancl [OF run_started run_fenced]]
  have "exclusive (s_writer_fences (b_state after_fence))" by simp
  moreover have "live_services (s_writer_fences (b_state after_fence)) = [''db.service'']" by code_simp
  ultimately show ?thesis by simp
qed

theorem privileged_task_runs_once_witness:
  "q_task (request_of unfence_task) \<noteq> q_task (request_of fence_task)
   \<and> t_fencing_token (q_task (request_of fence_task)) \<le> t_fencing_token (q_task (request_of unfence_task))"
proof -
  let ?run = "\<lambda>task. run_state (execute sample_config sample_sm sample_other (request_of task))"
  note sample_execute [simp] and clocks [simp]
  have none: "b_state_file sample_host = None" by code_simp
  have r1: "?run fence_task sample_host = (fst (?run fence_task sample_host), after_fence)" by (simp add: after_fence_def)
  have r2: "?run unfence_task after_fence = (fst (?run unfence_task after_fence), snd (?run unfence_task after_fence))" by simp
  have "ran (fst (sample_run fence_task sample_host))" by code_simp
  then have ok1: "ran (fst (?run fence_task sample_host))" by simp
  have "ran (fst (sample_run unfence_task after_fence))" by code_simp
  then have ok2: "ran (fst (?run unfence_task after_fence))" by simp
  have alive: "\<not> b_dead after_fence" by code_simp
  have key: "fence_key (q_task (request_of unfence_task)) = fence_key (q_task (request_of fence_task))" by code_simp
  have "sample_step\<^sup>*\<^sup>* (if b_dead after_fence then Down else Serving, after_fence) (Serving, after_fence)"
    using alive by simp
  from privileged_task_runs_once [OF sample_other_leaves none run_started r1 ok1 this r2 ok2] key
  show ?thesis by simp
qed

section \<open>The watchdog on the sample host\<close>

text \<open>Somebody restarts the fenced service.\<close>

definition restarted_host :: "string list broker" where
  "restarted_host = fenced_host\<lparr>b_world := [''db.service'']\<rparr>"

definition sample_fence :: writerFenceState where
  "sample_fence = \<lparr>f_migration_id = ''m1'', f_run_id = ''run1'', f_services = [''db.service''],
     f_previously_active = Some [''db.service''], f_active = True, f_phase = writerFenceActive, f_fencing_token = 1,
     f_activated_at = Stamp 5, f_last_verified_at = Stamp 5, f_violation_count = 0, f_last_violation = Unset,
     f_watchdog_error_count = 0, f_last_watchdog_error = Unset\<rparr>"

lemma sample_fence_eq: "writer_fence fenced_host ''m1'' = Some sample_fence"
  by code_simp


lemma sample_stop: "stop_only_stops sample_sm"
  by (simp add: stop_only_stops_def sample_sm_def)

theorem attestation_sound_witness:
  "\<exists>atts t. run_state (attestWriterFences sample_sm) restarted_host = ((atts, True), t) \<and> length atts = 1
     \<and> \<not> sm_active sample_sm (b_world t) ''db.service''"
proof -
  let ?r = "run_state (attestWriterFences sample_sm) restarted_host"
  have ok: "snd (fst ?r)" and len: "length (fst (fst ?r)) = 1" by code_simp+
  then have run: "?r = ((fst (fst ?r), True), snd ?r)" by (simp add: prod_eq_iff)
  have st: "steady restarted_host" and wf: "wf_fences (s_writer_fences (b_state restarted_host))" by code_simp+
  have mem: "\<exists>f \<in> set (map snd (s_writer_fences (b_state (snd ?r)))). f_active f \<and> ''db.service'' \<in> set (f_services f)"
    by code_simp
  from attestation_sound [OF sample_stop st wf run] mem have "\<not> sm_active sample_sm (b_world (snd ?r)) ''db.service''"
    by auto
  with run len show ?thesis by (intro exI [of _ "fst (fst ?r)"] exI [of _ "snd ?r"]) simp
qed

definition quiesce_task :: TaskEnvelope where
  "quiesce_task = (sample_task ''migration.source.verify-quiescence.v1'' 3 ''n3'')
     \<lparr>t_inputs := Some ((''interval_seconds'', JInt 5) # sample_inputs)\<rparr>"

text \<open>The check of the services takes longer than the interval, so one round suffices.\<close>

definition slow_host :: "string list broker" where
  "slow_host = fenced_host\<lparr>b_env := [\<lparr>e_outcome = Done, e_world = None, e_delay = 10000000000\<rparr>]\<rparr>"

definition checked_host :: "string list broker" where
  "checked_host = fenced_host\<lparr>b_clock := 10000000005\<rparr>"

lemma slow_poll: "poll_inactive sample_sm [''db.service''] (5 + seconds 5) slow_host = (Inr (), checked_host)"
proof -
  have "b_world fenced_host = []" "b_clock fenced_host = 5" "\<not> b_dead fenced_host" "b_env fenced_host = []" by code_simp+
  then have "run_state (verifyServicesInactive sample_sm [''db.service'']) slow_host = (Inr (), checked_host)"
    by (simp add: verifyServicesInactive_def IsActive_def attempt_def next_incident_def slow_host_def checked_host_def
        sample_sm_def okE_def [symmetric])
  then show ?thesis
    by (subst poll_inactive.simps) (simp add: checked_host_def seconds_def)
qed

theorem quiescence_proof_witness:
  "\<exists>out t. run_state (verifyWriterFence sample_sm quiesce_task) slow_host = (Inr out, t)
     \<and> 5 + seconds 5 \<le> b_clock t \<and> \<not> sm_active sample_sm (b_world t) ''db.service''"
proof -
  let ?g = "quiescent_fence (b_clock checked_host) sample_fence"
  have facts: "brokerTaskRunID quiesce_task = Inr ''run1''"
    "boundedIntegerInput (taskInputs quiesce_task) ''interval_seconds'' 5 60 = Inr 5"
    "t_migration_id quiesce_task = ''m1''" "f_run_id sample_fence = ''run1''"
    "f_active sample_fence" "f_phase sample_fence = writerFenceActive" "f_services sample_fence = [''db.service'']"
    by code_simp+
  have same: "b_allowed slow_host = b_allowed fenced_host" by (simp add: slow_host_def)
  have host: "scoped_services slow_host quiesce_task = scoped_services fenced_host quiesce_task"
    "b_systemctl slow_host = b_systemctl fenced_host" "b_clock slow_host = b_clock fenced_host"
    unfolding scoped_services_def same by (simp_all add: slow_host_def)
  have "scoped_services fenced_host quiesce_task = Inr [''db.service'']" "b_systemctl fenced_host" "b_clock fenced_host = 5"
    by code_simp+
  note facts = facts this [folded host]
  have cur: "writer_fence checked_host ''m1'' = Some sample_fence"
    using sample_fence_eq by (simp add: writer_fence_def checked_host_def)
  have "\<not> is_err (fst (run_state (persistFences :: (string list, unit) bop) (put_fence ''m1'' ?g checked_host)))" by code_simp
  then obtain u t where p: "run_state persistFences (put_fence ''m1'' ?g checked_host) = (Inr u :: berr + unit, t)"
    by (cases "run_state (persistFences :: (string list, unit) bop) (put_fence ''m1'' ?g checked_host)")
      (auto simp: is_err_def split: sum.splits)
  then obtain out where run: "run_state (verifyWriterFence sample_sm quiesce_task) slow_host = (Inr out, t)"
    by (simp add: verifyWriterFence_def time_now_def Let_def facts slow_poll cur)
  have st: "steady slow_host" by (simp add: slow_host_def steady_def)
  from quiescence_proof [OF run] obtain f :: writerFenceState and interval where
      proof_facts: "boundedIntegerInput (taskInputs quiesce_task) ''interval_seconds'' 5 60 = Inr interval"
      "b_clock slow_host + seconds interval \<le> b_clock t" "scoped_services slow_host quiesce_task = Inr (f_services f)"
      "steady slow_host \<longrightarrow> (\<forall>s \<in> set (f_services f). \<not> sm_active sample_sm (b_world t) s)"
    by blast
  from facts(8) proof_facts(3) have "f_services f = [''db.service'']" by simp
  with st proof_facts(4) have "\<not> sm_active sample_sm (b_world t) ''db.service''" by simp
  moreover from facts(2,10) proof_facts(1,2) have "5 + seconds 5 \<le> b_clock t" by simp
  ultimately show ?thesis using run by blast
qed

theorem started_broker_owns_markers_witness:
  "\<exists>c. NewBroker fenced_host = Inr c \<and> (\<exists>s \<in> set (live_services (s_writer_fences (b_state c))). ''db.service.fenced'' = marker_name s)
     \<and> is_err (NewBroker (fenced_host\<lparr>b_state_file := None\<rparr>))"
proof -
  have "\<not> is_err (NewBroker fenced_host)" by code_simp
  then obtain c where c: "NewBroker fenced_host = Inr c" by (auto simp: is_err_def split: sum.splits)
  have d: "b_marker_dir fenced_host \<noteq> None"
    and m: "(''db.service.fenced'', \<lparr>fi_kind = FRegular, fi_perm = 384, fi_uid = 0\<rparr>, marker_content) \<in> set (b_markers fenced_host)"
    and orphan: "is_err (NewBroker (fenced_host\<lparr>b_state_file := None\<rparr>))"
    by code_simp+
  from started_broker_owns_markers [OF c d m] c orphan show ?thesis by blast
qed

theorem state_file_round_trip_witness:
  "loadFences (Some (Document (marshal_state (b_state fenced_host)))) = Inr (filed_form (b_state fenced_host))
   \<and> token_of (b_state fenced_host) ''none'' = 0"
proof -
  have "phased (b_state fenced_host)" by code_simp
  from state_file_round_trip [OF this] have "loadFences (Some (Document (marshal_state (b_state fenced_host)))) = Inr (filed_form (b_state fenced_host))"
    by simp
  moreover have "token_of (b_state fenced_host) ''none'' = 0" by code_simp
  ultimately show ?thesis by simp
qed

text \<open>An activation whose very last write fails.\<close>

definition stranded_host :: "string list broker" where
  "stranded_host = (snd (run_state (activateWriterFence sample_sm fence_task [''db.service''])
     (sample_host\<lparr>b_env := map incident (replicate 9 Done @ [Fail_clean])\<rparr>)))"

theorem stranded_fence_witness:
  "is_err (fst (run_state (releaseWriterFence sample_sm unfence_task [''db.service'']) stranded_host))
   \<and> map f_run_id (map snd (file_fences (b_state_file (snd (run_state (watch sample_sm) stranded_host))))) = [[]]"
proof -
  have "case writer_fence stranded_host (t_migration_id unfence_task) of None \<Rightarrow> False
    | Some f \<Rightarrow> f_active f \<and> f_run_id f = []" by code_simp
  then obtain f where f: "writer_fence stranded_host (t_migration_id unfence_task) = Some f" "f_active f" "f_run_id f = []"
    by (auto split: option.splits)
  have "map f_run_id (map snd (file_fences (b_state_file (snd (run_state (watch sample_sm) stranded_host))))) = [[]]"
    by code_simp
  with stranded_fence [OF f] show ?thesis by simp
qed

end
