(* ===== verification/Go_Results.thy ===== *)
theory Go_Results
  imports Go_Prelude
begin

text \<open>
  Pure Go code with early returns, and the anchored regular expressions it validates text with.

  \<open>requireR ok e k\<close> is \<open>if !ok { return e }\<close> followed by \<open>k\<close>; \<open>thenR m k\<close> is a call whose error is
  returned at once; \<open>foldR f xs s\<close> is a \<open>for range\<close> loop over \<open>xs\<close> with local state \<open>s\<close> that returns at
  the first error. Their inversion rules (collection \<open>result_inv\<close>) turn the success of a validator into
  the list of what it checked.
\<close>

named_theorems result_inv "inversion of successful pure computations"

section \<open>Early returns\<close>

definition requireR :: "bool \<Rightarrow> 'e \<Rightarrow> 'e + 'a \<Rightarrow> 'e + 'a" where
  "requireR ok e k = (if ok then k else Inl e)"

definition thenR :: "'e + 'a \<Rightarrow> ('a \<Rightarrow> 'e + 'b) \<Rightarrow> 'e + 'b" where
  "thenR m k = (case m of Inl e \<Rightarrow> Inl e | Inr x \<Rightarrow> k x)"

primrec foldR :: "('a \<Rightarrow> 's \<Rightarrow> 'e + 's) \<Rightarrow> 'a list \<Rightarrow> 's \<Rightarrow> 'e + 's" where
  "foldR f [] s = Inr s"
| "foldR f (x # xs) s = thenR (f x s) (foldR f xs)"

definition mapErr :: "('e \<Rightarrow> 'd) \<Rightarrow> 'e + 'a \<Rightarrow> 'd + 'a" where
  "mapErr h r = (case r of Inl e \<Rightarrow> Inl (h e) | Inr x \<Rightarrow> Inr x)"

definition eachR :: "('a \<Rightarrow> 'e + unit) \<Rightarrow> 'a list \<Rightarrow> 'e + unit" where
  "eachR f xs = foldR (\<lambda>x _. f x) xs ()"

lemma requireR_Inr [result_inv]: "requireR ok e k = Inr x \<longleftrightarrow> ok \<and> k = Inr x"
  by (simp add: requireR_def)

lemma thenR_Inr [result_inv]: "thenR m k = Inr y \<longleftrightarrow> (\<exists>x. m = Inr x \<and> k x = Inr y)"
  by (cases m) (simp_all add: thenR_def)

lemma mapErr_Inr [result_inv]: "mapErr h r = Inr x \<longleftrightarrow> r = Inr x"
  by (cases r) (simp_all add: mapErr_def)

lemma result_simps [simp]:
  "requireR True e k = k" "requireR False e k = Inl e" "thenR (Inr x) k' = k' x" "thenR (Inl e) k' = Inl e"
  "mapErr h (Inr x) = Inr x" "mapErr h (Inl d) = Inl (h d)"
  by (simp_all add: requireR_def thenR_def mapErr_def)

lemma foldR_append: "foldR f (xs @ ys) s = thenR (foldR f xs s) (foldR f ys)"
  by (induction xs arbitrary: s) (auto simp: thenR_def split: sum.split)

text \<open>Every iteration of a loop that did not return was run and succeeded.\<close>

lemma foldR_visits:
  assumes "foldR f xs s = Inr t" and "x \<in> set xs"
  obtains ys zs u v where "xs = ys @ x # zs" "foldR f ys s = Inr u" "f x u = Inr v" "foldR f zs v = Inr t"
  using assms split_list [OF assms(2)] by (auto simp: foldR_append result_inv)

lemma foldR_keeps:
  assumes "foldR f xs s = Inr t" and "I s" and "\<And>x u v. x \<in> set xs \<Longrightarrow> f x u = Inr v \<Longrightarrow> I u \<Longrightarrow> I v"
  shows "I t"
  using assms by (induction xs arbitrary: s) (auto simp: result_inv)

text \<open>What an iteration establishes and later ones keep holds at the end, for every element.\<close>

lemma foldR_establishes:
  assumes run: "foldR f xs s = Inr t" and x: "x \<in> set xs"
    and make: "\<And>u v. f x u = Inr v \<Longrightarrow> P v"
    and keep: "\<And>y u v. y \<in> set xs \<Longrightarrow> f y u = Inr v \<Longrightarrow> P u \<Longrightarrow> P v"
  shows "P t"
proof -
  from foldR_visits [OF run x] obtain ys zs u v where
    xs: "xs = ys @ x # zs" and v: "f x u = Inr v" and rest: "foldR f zs v = Inr t" by metis
  show ?thesis
    by (rule foldR_keeps [where I = P, OF rest make [OF v]]) (use keep xs in auto)
qed

lemma eachR_Inr [result_inv]: "eachR f xs = Inr u \<longleftrightarrow> (\<forall>x \<in> set xs. f x = Inr ())"
  unfolding eachR_def by (induction xs) (auto simp: result_inv)

section \<open>Decimal text\<close>

lemma digit_char: "n < 10 \<Longrightarrow> is_digit (char_of (48 + n)) \<and> digit_val (char_of (48 + n)) = int n"
  by (auto simp: is_digit_def digit_val_def)

lemma nat_str_0: "nat_str 0 = ''0''"
  by (subst nat_str.simps) (simp, code_simp)

lemma digits_val_append: "digits_val acc (xs @ ys) = Option.bind (digits_val acc xs) (\<lambda>v. digits_val v ys)"
  by (induction xs arbitrary: acc) auto

lemma digits_val_nat_str: "digits_val 0 (nat_str n) = Some (int n)"
proof (induction n rule: less_induct)
  case (less n)
  show ?case
  proof (cases "n < 10")
    case True
    then show ?thesis using digit_char [OF True] by (subst nat_str.simps) simp
  next
    case False
    then have "digits_val 0 (nat_str (n div 10)) = Some (int (n div 10))" by (intro less) simp
    then show ?thesis using False digit_char [of "n mod 10"]
      by (subst nat_str.simps) (simp add: digits_val_append, presburger)
  qed
qed

lemma nat_str_inj: "nat_str m = nat_str n \<Longrightarrow> m = n"
  using digits_val_nat_str [of m] digits_val_nat_str [of n] by (metis of_nat_eq_iff option.inject)

lemma int_str_inj: "0 \<le> i \<Longrightarrow> 0 \<le> j \<Longrightarrow> int_str i = int_str j \<longleftrightarrow> i = j"
  using nat_str_inj [of "nat i" "nat j"] by (metis int_nat_eq int_str_def linorder_not_less)

section \<open>Anchored patterns\<close>

definition is_lower :: "char \<Rightarrow> bool" where
  "is_lower c \<longleftrightarrow> 97 \<le> (of_char c :: nat) \<and> (of_char c :: nat) \<le> 122"

definition is_upper :: "char \<Rightarrow> bool" where
  "is_upper c \<longleftrightarrow> 65 \<le> (of_char c :: nat) \<and> (of_char c :: nat) \<le> 90"

definition is_alnum :: "char \<Rightarrow> bool" where
  "is_alnum c \<longleftrightarrow> is_lower c \<or> is_upper c \<or> is_digit c"

definition is_lower_hex :: "char \<Rightarrow> bool" where
  "is_lower_hex c \<longleftrightarrow> is_digit c \<or> 97 \<le> (of_char c :: nat) \<and> (of_char c :: nat) \<le> 102"

text \<open>\<open>^[first][rest]{lo,hi}$\<close>\<close>

fun head_run :: "(char \<Rightarrow> bool) \<Rightarrow> (char \<Rightarrow> bool) \<Rightarrow> nat \<Rightarrow> nat \<Rightarrow> string \<Rightarrow> bool" where
  "head_run first others lo hi [] = False"
| "head_run first others lo hi (c # cs) \<longleftrightarrow> first c \<and> list_all others cs \<and> lo \<le> length cs \<and> length cs \<le> hi"

lemma head_run_chars:
  assumes "head_run first others lo hi s" and "\<not> first c" and "\<not> others c"
  shows "c \<notin> set s"
  using assms by (cases s) (auto simp: list_all_iff)

lemma head_run_bounds: "head_run first others lo hi s \<Longrightarrow> s \<noteq> [] \<and> lo < length s \<and> length s \<le> Suc hi"
  by (cases s) auto

text \<open>\<open>prefix\<close> followed by a pattern.\<close>

definition after_prefix :: "string \<Rightarrow> (string \<Rightarrow> bool) \<Rightarrow> string \<Rightarrow> bool" where
  "after_prefix p m s \<longleftrightarrow> has_prefix s p \<and> m (drop (length p) s)"

text \<open>The identifiers of bindings: version 1 to 5 UUIDs in lower case.\<close>

definition opaqueBindingPattern :: "string \<Rightarrow> bool" where
  "opaqueBindingPattern s =
     (case split_on (CHR ''-'') s of
        [a, b, c, d, e] \<Rightarrow>
          list_all (list_all is_lower_hex) [a, b, c, d, e] \<and> map length [a, b, c, d, e] = [8, 4, 4, 4, 12]
          \<and> hd c \<in> set ''12345'' \<and> hd d \<in> set ''89ab''
      | _ \<Rightarrow> False)"

end
