(* ===== verification/Compose_Policy.thy ===== *)
theory Compose_Policy
  imports Scope Task_Envelope Go_Results
begin

text \<open>
  The Compose policy (\<open>internal/migration/compose.go\<close>): a rendered Compose document is accepted only
  when every service is confined (non-root user, read-only root, no capabilities, bounded resources),
  every network is an internal private \<open>/24\<close> with fixed addresses, and bind mounts stay below the migration
  root.

  The YAML library is a parameter (\<open>yaml\<close>): the syntax tree of a text, the strict decoding of its first
  document, whether a second document follows, and the rendering of a document. \<open>strconv.ParseFloat\<close> is a
  parameter too (\<open>parse_float\<close>), with values in \<open>gofloat\<close>. IPv4 addresses are numbers below \<open>2\<^sup>32\<close>. The
  texts an IPv6 parser would accept are refused by every caller here, so \<open>parse_ip\<close> and
  \<open>parse_cidr\<close> are the IPv4 parsers; the two messages about an unusable subnet are one error.
\<close>

section \<open>Data\<close>

datatype gofloat = NaN | PosInf | NegInf | Dyadic int nat

record composeDependsOn =
  d_condition :: string
  d_restart :: bool
  d_required :: "bool option"

record composeLogging =
  l_driver :: string
  l_options :: "(string, string) gomap"

record composeService =
  cs_image :: string
  cs_user :: string
  cs_read_only :: bool
  cs_init :: bool
  cs_restart :: string
  cs_environment :: "(string, string) gomap"
  cs_depends_on :: "(string, composeDependsOn) gomap"
  cs_volumes :: "string list"
  cs_ports :: "string list"
  cs_networks :: "(string, string) gomap"
  cs_secrets :: "string list"
  cs_tmpfs :: "string list"
  cs_cap_drop :: "string list"
  cs_security_opt :: "string list"
  cs_cpus :: string
  cs_mem_limit :: string
  cs_pids_limit :: int64
  cs_stop_grace_period :: string
  cs_logging :: "composeLogging option"

record composeIPAMConfig =
  ip_subnet :: string
  ip_gateway :: string

record composeNetwork =
  n_driver :: string
  n_internal :: bool
  n_ipam :: "composeIPAMConfig list option"

record composeDocument =
  doc_version :: string
  doc_services :: "(string, composeService) gomap"
  doc_networks :: "(string, composeNetwork) gomap"
  doc_volumes :: "(string, string) gomap"
  doc_secrets :: "(string, string) gomap"

record composePolicyResult =
  pr_document :: composeDocument
  pr_canonical :: string
  pr_digest :: string
  pr_published_ports :: "int list"
  pr_named_volumes :: "string list"
  pr_network_names :: "string list"
  pr_bind_mount_roots :: "string list"
  pr_secret_files :: "(string, string) gomap"

datatype compose_err =
    BindingInvalid | BindingTrailing | BindingContract | SecretValueInvalid | BindingLimit
  | AliasesUnsupported | CustomTag | CpuLimit | MemoryUnit | MemoryLimit | ContainerPathUnsafe
  | VolumeSyntax | VolumeEmptyPart | VolumeMode | BindAbsolute | BindEscaped
  | PortBinding | HostPort | PortProtocol | ContainerPort
  | EnvironmentSize | EnvironmentLiteral | EnvironmentSecret | Interpolation
  | IpamCount | SubnetInvalid | GatewayInvalid | GatewayNotFirst | StaticOutside | StaticReserved
  | DocumentBounds | NetworkPolicy | SubnetDuplicate | VolumePolicy | SecretPolicy | ServiceIdentity | RootUser
  | ServiceRoot | Capabilities | RestartPolicy | GracePeriod | SecretUndeclared | SecretDuplicate
  | DependencyPolicy | DependencyUnknown | NoNetwork | NetworkUnknown | StaticDuplicate | VolumeUndeclared
  | TmpfsUnsafe | PortsDeclared | LoggingPolicy | LoggingOption | UnusedDeclaration | RenderFailed
  | DocumentSize | YamlInvalid | UnknownField | ManyDocuments
  | FileHandle | ProjectName | ComposeInput input_err

section \<open>Patterns\<close>

definition compose_char :: "char \<Rightarrow> bool" where
  "compose_char c \<longleftrightarrow> is_lower c \<or> is_digit c \<or> c = CHR ''_'' \<or> c = CHR ''-''"

definition lower_digit :: "char \<Rightarrow> bool" where
  "lower_digit c \<longleftrightarrow> is_lower c \<or> is_digit c"

definition composeNamePattern :: "string \<Rightarrow> bool" where
  "composeNamePattern = head_run lower_digit compose_char 1 62"

definition composeProjectPattern :: "string \<Rightarrow> bool" where
  "composeProjectPattern = after_prefix ''askio_mig_'' (head_run lower_digit compose_char 1 31)"

definition composeImagePattern :: "string \<Rightarrow> bool" where
  "composeImagePattern s \<longleftrightarrow>
     (let n = length s - 64; name = take (n - 8) s in
      72 \<le> length s \<and> list_all is_lower_hex (drop n s) \<and> take 8 (drop (n - 8) s) = ''@sha256:''
      \<and> head_run is_alnum (\<lambda>c. is_alnum c \<or> c \<in> set ''._/:@-'') 1 255 name)"

definition composeDurationPattern :: "string \<Rightarrow> bool" where
  "composeDurationPattern s \<longleftrightarrow> s \<noteq> [] \<and> last s = CHR ''s''
     \<and> head_run (\<lambda>c. is_digit c \<and> c \<noteq> CHR ''0'') is_digit 0 2 (butlast s)"

definition composeEnvironmentKeyPattern :: "string \<Rightarrow> bool" where
  "composeEnvironmentKeyPattern = head_run is_upper (\<lambda>c. is_upper c \<or> is_digit c \<or> c = CHR ''_'') 0 127"

definition composeRuntimeSecretsRoot :: string where
  "composeRuntimeSecretsRoot = ''/run/askio-monitor/migration-secrets''"

definition composeRuntimeSecretPattern :: "string \<Rightarrow> bool" where
  "composeRuntimeSecretPattern = after_prefix (composeRuntimeSecretsRoot @ ''/'') (\<lambda>r.
     case split_on slash r of [project, name] \<Rightarrow> composeProjectPattern project \<and> composeNamePattern name | _ \<Rightarrow> False)"

definition fileNamePattern :: "string \<Rightarrow> bool" where
  "fileNamePattern = head_run is_alnum (\<lambda>c. is_alnum c \<or> c \<in> set ''._-'') 0 127"

section \<open>Runtime secret bindings\<close>

definition composeRuntimeSecretsBindingSchema :: string where
  "composeRuntimeSecretsBindingSchema = ''operations.migration.compose-runtime-secrets.v1''"

record composeRuntimeSecretsBinding =
  rb_schema_version :: string
  rb_secrets :: "(string, string) gomap"

text \<open>Decoding into the struct: member names match up to letter case, \<open>null\<close> keeps a string and clears
  the map, a string map takes strings and \<open>null\<close> (the empty string), any other member is refused.\<close>

definition secret_member :: "string \<times> jval \<Rightarrow> (string, string) gomap \<Rightarrow> compose_err + (string, string) gomap" where
  "secret_member kv m =
     (case snd kv of JStr s \<Rightarrow> Inr (go_put (fst kv) s m) | JNull \<Rightarrow> Inr (go_put (fst kv) [] m) | _ \<Rightarrow> Inl BindingInvalid)"

definition binding_member ::
  "string \<times> jval \<Rightarrow> composeRuntimeSecretsBinding \<Rightarrow> compose_err + composeRuntimeSecretsBinding" where
  "binding_member kv b =
     (if equal_fold (fst kv) ''schema_version'' then
        (case snd kv of JStr s \<Rightarrow> Inr (b\<lparr>rb_schema_version := s\<rparr>) | JNull \<Rightarrow> Inr b | _ \<Rightarrow> Inl BindingInvalid)
      else if equal_fold (fst kv) ''secrets'' then
        (case snd kv of
           JObj m \<Rightarrow> thenR (foldR secret_member m (rb_secrets b)) (\<lambda>s. Inr (b\<lparr>rb_secrets := s\<rparr>))
         | JNull \<Rightarrow> Inr (b\<lparr>rb_secrets := []\<rparr>)
         | _ \<Rightarrow> Inl BindingInvalid)
      else Inl BindingInvalid)"

definition decode_binding :: "jval \<Rightarrow> compose_err + composeRuntimeSecretsBinding" where
  "decode_binding v =
     (let zero = \<lparr>rb_schema_version = [], rb_secrets = []\<rparr> in
      case v of JObj kvs \<Rightarrow> foldR binding_member kvs zero | JNull \<Rightarrow> Inr zero | _ \<Rightarrow> Inl BindingInvalid)"

text \<open>The bytes of a binding: a JSON value, and whether anything but white space follows it.\<close>

type_synonym json_text = "(jval \<times> bool) option"

definition secret_ok :: "string \<times> string \<Rightarrow> bool" where
  "secret_ok nv \<longleftrightarrow> composeNamePattern (fst nv) \<and> snd nv \<noteq> [] \<and> length (snd nv) \<le> 16 * 1024 \<and> CHR 0x00 \<notin> set (snd nv)"

definition parseComposeRuntimeSecretsBinding :: "json_text \<Rightarrow> compose_err + composeRuntimeSecretsBinding" where
  "parseComposeRuntimeSecretsBinding raw =
     (case raw of
        None \<Rightarrow> Inl BindingInvalid
      | Some (v, trailing) \<Rightarrow>
          thenR (decode_binding v) (\<lambda>binding.
          requireR (\<not> trailing) BindingTrailing
          (requireR (rb_schema_version binding = composeRuntimeSecretsBindingSchema \<and> rb_secrets binding \<noteq> []
              \<and> length (rb_secrets binding) \<le> 32) BindingContract
          (requireR (list_all secret_ok (rb_secrets binding)) SecretValueInvalid
          (requireR (sum_list (map (length \<circ> snd) (rb_secrets binding)) \<le> 64 * 1024) BindingLimit
          (Inr binding))))))"

section \<open>Scalar limits\<close>

text \<open>The syntax tree of the YAML library: whether the node is an alias, its anchor, its tag, its children.\<close>

datatype ynode = YNode (y_alias: bool) (y_anchor: string) (y_tag: string) (y_content: "ynode list")

fun rejectYAMLAliases :: "ynode \<Rightarrow> compose_err option"
and reject_content :: "ynode list \<Rightarrow> compose_err option" where
  "rejectYAMLAliases (YNode alias anchor tag content) =
     (if alias \<or> anchor \<noteq> [] then Some AliasesUnsupported
      else if tag \<noteq> [] \<and> \<not> has_prefix tag ''!!'' then Some CustomTag
      else reject_content content)"
| "reject_content [] = None"
| "reject_content (c # cs) = (case rejectYAMLAliases c of Some e \<Rightarrow> Some e | None \<Rightarrow> reject_content cs)"

text \<open>\<open>0.05\<close> is the float \<open>3602879701896397 / 2\<^sup>56\<close>; every comparison with \<open>NaN\<close> is false.\<close>

fun below_limit :: "gofloat \<Rightarrow> bool" where
  "below_limit NaN = False"
| "below_limit PosInf = False"
| "below_limit NegInf = True"
| "below_limit (Dyadic m k) \<longleftrightarrow> m * 2 ^ 56 < 3602879701896397 * 2 ^ k"

fun above_limit :: "gofloat \<Rightarrow> bool" where
  "above_limit NaN = False"
| "above_limit PosInf = True"
| "above_limit NegInf = False"
| "above_limit (Dyadic m k) \<longleftrightarrow> m > 16 * 2 ^ k"

definition parseCPU :: "(string \<Rightarrow> gofloat option) \<Rightarrow> string \<Rightarrow> compose_err + gofloat" where
  "parseCPU parse_float value =
     (case parse_float value of
        None \<Rightarrow> Inl CpuLimit
      | Some parsed \<Rightarrow> requireR (\<not> (below_limit parsed \<or> above_limit parsed)) CpuLimit (Inr parsed))"

definition memory_unit :: "string \<Rightarrow> (string \<times> int64) option" where
  "memory_unit lower =
     (if has_suffix lower ''m'' then Some (trim_suffix lower ''m'', 1)
      else if has_suffix lower ''mb'' then Some (trim_suffix lower ''mb'', 1)
      else if has_suffix lower ''g'' then Some (trim_suffix lower ''g'', 1024)
      else if has_suffix lower ''gb'' then Some (trim_suffix lower ''gb'', 1024)
      else None)"

definition parseMemoryMiB :: "string \<Rightarrow> compose_err + int64" where
  "parseMemoryMiB value =
     (case memory_unit (to_lower (trim_space value)) of
        None \<Rightarrow> Inl MemoryUnit
      | Some (digits, multiplier) \<Rightarrow>
          (case parse_int64 digits of
             None \<Rightarrow> Inl MemoryLimit
           | Some amount \<Rightarrow>
               requireR (\<not> (wrap64 (amount * multiplier) < 16 \<or> wrap64 (amount * multiplier) > 64 * 1024)) MemoryLimit
                 (Inr (wrap64 (amount * multiplier)))))"

definition validateContainerPath :: "string \<Rightarrow> compose_err + unit" where
  "validateContainerPath value =
     requireR (is_abs value \<and> clean value = value \<and> value \<noteq> ''/'' \<and> CHR 0x00 \<notin> set value) ContainerPathUnsafe (Inr ())"

datatype mount = Named string | Bind string

definition mount_source :: "string \<Rightarrow> compose_err + mount" where
  "mount_source src =
     (if composeNamePattern src then Inr (Named src)
      else requireR (\<not> (is_abs src \<or> CHR 0x00 \<in> set src)) BindAbsolute
        (let rel = trim_prefix (clean src) ''./'' in
         requireR (\<not> (rel = dot \<or> rel = dotdot \<or> has_prefix rel ''../'')) BindEscaped (Inr (Bind rel))))"

definition validateBindMount :: "string \<Rightarrow> compose_err + mount" where
  "validateBindMount value =
     (let parts = split_on (CHR '':'') value in
      requireR (2 \<le> length parts \<and> length parts \<le> 3) VolumeSyntax
      (requireR (parts ! 0 \<noteq> [] \<and> parts ! 1 \<noteq> []) VolumeEmptyPart
      (thenR (validateContainerPath (parts ! 1)) (\<lambda>_.
       requireR (\<not> (length parts = 3 \<and> parts ! 2 \<noteq> ''ro'' \<and> parts ! 2 \<noteq> ''rw'')) VolumeMode
       (mount_source (parts ! 0))))))"

definition validatePublishedPort :: "string \<Rightarrow> compose_err + int" where
  "validatePublishedPort value =
     (let parts = split_on (CHR '':'') value in
      requireR (length parts = 3 \<and> parts ! 0 = ''127.0.0.1'') PortBinding
      (case parse_int64 (parts ! 1) of
         None \<Rightarrow> Inl HostPort
       | Some hostPort \<Rightarrow>
           requireR (\<not> (hostPort < 1024 \<or> hostPort > 65535)) HostPort
           (let containerPort = trim_suffix (parts ! 2) ''/tcp'' in
            requireR (\<not> contains_str containerPort ''/'') PortProtocol
            (case parse_int64 containerPort of
               None \<Rightarrow> Inl ContainerPort
             | Some p \<Rightarrow> requireR (\<not> (p < 1 \<or> p > 65535)) ContainerPort (Inr hostPort)))))"

definition secret_shaped :: "string \<Rightarrow> bool" where
  "secret_shaped key =
     (let lower = to_lower key in
      contains_str lower ''password'' \<or> contains_str lower ''secret'' \<or> contains_str lower ''token''
      \<or> contains_str lower ''private_key'' \<or> contains_str lower ''api_key'')"

definition secret_file :: "string set \<Rightarrow> string \<Rightarrow> string \<Rightarrow> bool" where
  "secret_file serviceSecrets key value \<longleftrightarrow>
     has_suffix key ''_FILE'' \<and> has_prefix value ''/run/secrets/'' \<and> trim_prefix value ''/run/secrets/'' \<in> serviceSecrets"

definition environment_entry :: "string set \<Rightarrow> string \<times> string \<Rightarrow> compose_err + unit" where
  "environment_entry serviceSecrets kv =
     (let key = fst kv; value = snd kv in
      requireR (composeEnvironmentKeyPattern key \<and> length value \<le> 4096 \<and> CHR 0x00 \<notin> set value) EnvironmentLiteral
      (requireR (\<not> (secret_shaped key \<and> \<not> secret_file serviceSecrets key value)) EnvironmentSecret
      (requireR (\<not> contains_str value ''${'') Interpolation (Inr ()))))"

definition validateEnvironment :: "(string, string) gomap \<Rightarrow> string set \<Rightarrow> compose_err + unit" where
  "validateEnvironment environment serviceSecrets =
     requireR (length environment \<le> 128) EnvironmentSize (eachR (environment_entry serviceSecrets) environment)"

section \<open>IPv4 addresses\<close>

text \<open>\<open>net.ParseIP\<close> on dotted quads: four fields of one to three digits, no leading zero, at most 255.\<close>

definition ip_field :: "string \<Rightarrow> nat option" where
  "ip_field f =
     (if f = [] \<or> length f > 3 \<or> (length f > 1 \<and> hd f = CHR ''0'') then None
      else case digits_val 0 f of
             Some v \<Rightarrow> if v \<le> 255 then Some (nat v) else None
           | None \<Rightarrow> None)"

definition parse_ip :: "string \<Rightarrow> nat option" where
  "parse_ip s =
     (case map ip_field (split_on (CHR ''.'') s) of
        [Some a, Some b, Some c, Some d] \<Rightarrow> Some (((a * 256 + b) * 256 + c) * 256 + d)
      | _ \<Rightarrow> None)"

definition ip_string :: "nat \<Rightarrow> string" where
  "ip_string ip = join_with ''.'' (map nat_str [ip div 256 ^ 3, ip div 256 ^ 2 mod 256, ip div 256 mod 256, ip mod 256])"

definition masked :: "nat \<Rightarrow> nat \<Rightarrow> nat" where
  "masked ones ip = ip div 2 ^ (32 - ones) * 2 ^ (32 - ones)"

text \<open>\<open>net.ParseCIDR\<close>: the address and the network (its masked address and its length).\<close>

definition parse_cidr :: "string \<Rightarrow> (nat \<times> (nat \<times> nat)) option" where
  "parse_cidr s =
     (let addr = takeWhile (\<lambda>c. c \<noteq> slash) s; mask = drop (Suc (length addr)) s in
      if slash \<notin> set s \<or> mask = [] then None
      else case (parse_ip addr, digits_val 0 mask) of
             (Some ip, Some n) \<Rightarrow> if n \<le> 32 then Some (ip, (masked (nat n) ip, nat n)) else None
           | _ \<Rightarrow> None)"

definition net_contains :: "nat \<times> nat \<Rightarrow> nat \<Rightarrow> bool" where
  "net_contains subnet ip \<longleftrightarrow> masked (snd subnet) ip = fst subnet"

definition is_private :: "nat \<Rightarrow> bool" where
  "is_private ip \<longleftrightarrow> ip div 256 ^ 3 = 10 \<or> (ip div 256 ^ 3 = 172 \<and> ip div 256 ^ 2 mod 256 div 16 = 1)
     \<or> ip div 256 ^ 2 = 192 * 256 + 168"

record composeNetworkScope =
  sc_subnet :: "nat \<times> nat"
  sc_gateway :: nat

definition parseComposeNetworkScope :: "composeNetwork \<Rightarrow> compose_err + composeNetworkScope" where
  "parseComposeNetworkScope network =
     (case n_ipam network of
        Some [config] \<Rightarrow>
          (case parse_cidr (ip_subnet config) of
             None \<Rightarrow> Inl SubnetInvalid
           | Some (parsed, base, ones) \<Rightarrow>
               requireR (ones = 24 \<and> parsed = base \<and> is_private base \<and> ip_subnet config = ip_string base @ ''/24'') SubnetInvalid
               (case parse_ip (ip_gateway config) of
                  None \<Rightarrow> Inl GatewayInvalid
                | Some gateway \<Rightarrow>
                    requireR (ip_string gateway = ip_gateway config \<and> net_contains (base, ones) gateway) GatewayInvalid
                    (requireR (gateway = base div 256 * 256 + (base mod 256 + 1) mod 256) GatewayNotFirst
                    (Inr \<lparr>sc_subnet = (base, ones), sc_gateway = gateway\<rparr>))))
      | _ \<Rightarrow> Inl IpamCount)"

definition validateComposeStaticIPv4 :: "string \<Rightarrow> composeNetworkScope \<Rightarrow> compose_err + string" where
  "validateComposeStaticIPv4 value scope =
     (case parse_ip value of
        None \<Rightarrow> Inl StaticOutside
      | Some address \<Rightarrow>
          requireR (ip_string address = value \<and> is_private address \<and> net_contains (sc_subnet scope) address) StaticOutside
          (requireR (\<not> (address = fst (sc_subnet scope) \<or> address = sc_gateway scope \<or> address mod 256 = 255)) StaticReserved
          (Inr (ip_string address))))"

section \<open>The document\<close>

definition scope_text :: "composeNetworkScope \<Rightarrow> string" where
  "scope_text scope = ip_string (fst (sc_subnet scope)) @ ''/'' @ nat_str (snd (sc_subnet scope))"

definition check_network ::
  "string \<times> composeNetwork \<Rightarrow> (string, composeNetworkScope) gomap \<Rightarrow> compose_err + (string, composeNetworkScope) gomap" where
  "check_network named scopes =
     (let name = fst named; network = snd named in
      requireR (composeNamePattern name \<and> n_internal network \<and> (n_driver network = [] \<or> n_driver network = ''bridge'')) NetworkPolicy
      (thenR (parseComposeNetworkScope network) (\<lambda>scope.
       requireR (scope_text scope \<notin> scope_text ` snd ` set scopes) SubnetDuplicate (Inr (go_put name scope scopes)))))"

definition check_volume :: "string \<times> string \<Rightarrow> compose_err + unit" where
  "check_volume named = requireR (composeNamePattern (fst named) \<and> (snd named = [] \<or> snd named = ''local'')) VolumePolicy (Inr ())"

definition check_secret :: "string \<times> string \<Rightarrow> compose_err + unit" where
  "check_secret named =
     requireR (composeNamePattern (fst named) \<and> composeRuntimeSecretPattern (snd named) \<and> base_name (snd named) = fst named)
       SecretPolicy (Inr ())"

text \<open>What the loop over the services accumulates.\<close>

record usage =
  u_networks :: "string set"
  u_volumes :: "string set"
  u_secrets :: "string set"
  u_addresses :: "string list"
  u_binds :: "string list"

definition service_limits :: "(string \<Rightarrow> gofloat option) \<Rightarrow> string \<times> composeService \<Rightarrow> compose_err + unit" where
  "service_limits parse_float named =
     (let service = snd named in
      requireR (composeNamePattern (fst named) \<and> composeImagePattern (cs_image service)) ServiceIdentity
      (requireR (\<not> (cs_user service = [] \<or> cs_user service = ''0'' \<or> cs_user service = ''root'' \<or> has_prefix (cs_user service) ''0:''))
         RootUser
      (requireR (cs_read_only service \<and> cs_init service \<and> 16 \<le> cs_pids_limit service \<and> cs_pids_limit service \<le> 4096) ServiceRoot
      (thenR (parseCPU parse_float (cs_cpus service)) (\<lambda>_.
       thenR (parseMemoryMiB (cs_mem_limit service)) (\<lambda>_.
       requireR (cs_cap_drop service = [''ALL''] \<and> cs_security_opt service = [''no-new-privileges:true'']) Capabilities
       (requireR (cs_restart service \<in> {[], ''no'', ''on-failure''}) RestartPolicy
       (requireR (cs_stop_grace_period service = [] \<or> composeDurationPattern (cs_stop_grace_period service)) GracePeriod
       (Inr ())))))))))"

definition service_secret :: "composeDocument \<Rightarrow> string \<Rightarrow> string list \<Rightarrow> compose_err + string list" where
  "service_secret document secret serviceSecrets =
     requireR (map_of (doc_secrets document) secret \<noteq> None) SecretUndeclared
     (requireR (secret \<notin> set serviceSecrets) SecretDuplicate (Inr (secret # serviceSecrets)))"

definition service_dependency :: "composeDocument \<Rightarrow> string \<times> composeDependsOn \<Rightarrow> compose_err + unit" where
  "service_dependency document dep =
     requireR (composeNamePattern (fst dep) \<and> d_condition (snd dep) \<in> {[], ''service_started'', ''service_healthy''}
        \<and> \<not> d_restart (snd dep)) DependencyPolicy
     (requireR (map_of (doc_services document) (fst dep) \<noteq> None) DependencyUnknown (Inr ()))"

definition service_network ::
  "(string, composeNetworkScope) gomap \<Rightarrow> string \<times> string \<Rightarrow> usage \<Rightarrow> compose_err + usage" where
  "service_network scopes attached u =
     (case map_of scopes (fst attached) of
        None \<Rightarrow> Inl NetworkUnknown
      | Some scope \<Rightarrow>
          thenR (validateComposeStaticIPv4 (snd attached) scope) (\<lambda>address.
          requireR (address \<notin> set (u_addresses u)) StaticDuplicate
          (Inr (u\<lparr>u_addresses := address # u_addresses u, u_networks := insert (fst attached) (u_networks u)\<rparr>))))"

definition service_volume :: "composeDocument \<Rightarrow> string \<Rightarrow> usage \<Rightarrow> compose_err + usage" where
  "service_volume document volume u =
     thenR (validateBindMount volume) (\<lambda>kind.
       case kind of
         Named name \<Rightarrow>
           requireR (map_of (doc_volumes document) name \<noteq> None) VolumeUndeclared (Inr (u\<lparr>u_volumes := insert name (u_volumes u)\<rparr>))
       | Bind rel \<Rightarrow> Inr (u\<lparr>u_binds := u_binds u @ [rel]\<rparr>))"

definition service_tmpfs :: "string \<Rightarrow> compose_err + unit" where
  "service_tmpfs path = mapErr (\<lambda>_. TmpfsUnsafe) (validateContainerPath (hd (split_on (CHR '':'') path)))"

definition service_logging :: "composeLogging option \<Rightarrow> compose_err + unit" where
  "service_logging logging =
     (case logging of
        None \<Rightarrow> Inr ()
      | Some l \<Rightarrow>
          requireR (l_driver l = ''json-file'' \<and> l_options l \<noteq> [] \<and> length (l_options l) \<le> 4
             \<and> map_of (l_options l) ''max-size'' \<notin> {None, Some []} \<and> map_of (l_options l) ''max-file'' \<notin> {None, Some []}) LoggingPolicy
          (eachR (\<lambda>(key, value). requireR ((key = ''max-size'' \<or> key = ''max-file'') \<and> length value \<le> 16) LoggingOption (Inr ()))
             (l_options l)))"

definition check_service ::
  "(string \<Rightarrow> gofloat option) \<Rightarrow> composeDocument \<Rightarrow> (string, composeNetworkScope) gomap \<Rightarrow> string \<times> composeService \<Rightarrow> usage \<Rightarrow> compose_err + usage" where
  "check_service parse_float document scopes named u =
     (let service = snd named in
      thenR (service_limits parse_float named) (\<lambda>_.
      thenR (foldR (service_secret document) (cs_secrets service) []) (\<lambda>serviceSecrets.
      thenR (validateEnvironment (cs_environment service) (set serviceSecrets)) (\<lambda>_.
      thenR (eachR (service_dependency document) (cs_depends_on service)) (\<lambda>_.
      requireR (cs_networks service \<noteq> []) NoNetwork
      (thenR (foldR (service_network scopes) (cs_networks service) (u\<lparr>u_secrets := u_secrets u \<union> set serviceSecrets\<rparr>)) (\<lambda>u1.
       thenR (foldR (service_volume document) (cs_volumes service) u1) (\<lambda>u2.
       thenR (eachR service_tmpfs (cs_tmpfs service)) (\<lambda>_.
       requireR (cs_ports service = []) PortsDeclared
       (thenR (service_logging (cs_logging service)) (\<lambda>_. Inr u2)))))))))))"

record yaml =
  y_syntax :: "string \<Rightarrow> ynode option"
  y_decode :: "string \<Rightarrow> composeDocument option"
  y_second :: "string \<Rightarrow> bool"
  y_marshal :: "composeDocument \<Rightarrow> string option"
  y_generic :: "jval \<Rightarrow> string option"

definition composePolicySchema :: string where
  "composePolicySchema = ''operations.migration.compose-policy.v2''"

definition fresh_usage :: usage where
  "fresh_usage = \<lparr>u_networks = {}, u_volumes = {}, u_secrets = {}, u_addresses = [], u_binds = []\<rparr>"

definition validateComposeDocument ::
  "crypto \<Rightarrow> (string \<Rightarrow> gofloat option) \<Rightarrow> yaml \<Rightarrow> composeDocument \<Rightarrow> compose_err + composePolicyResult" where
  "validateComposeDocument cr parse_float y document =
     requireR (doc_services document \<noteq> [] \<and> length (doc_services document) \<le> 64 \<and> doc_networks document \<noteq> []
        \<and> length (doc_networks document) \<le> 16 \<and> length (doc_volumes document) \<le> 64 \<and> length (doc_secrets document) \<le> 32) DocumentBounds
     (thenR (foldR check_network (doc_networks document) []) (\<lambda>scopes.
      thenR (eachR check_volume (doc_volumes document)) (\<lambda>_.
      thenR (eachR check_secret (doc_secrets document)) (\<lambda>_.
      thenR (foldR (check_service parse_float document scopes) (doc_services document) fresh_usage) (\<lambda>u.
      requireR (card (u_networks u) = length (doc_networks document) \<and> card (u_volumes u) = length (doc_volumes document)
         \<and> card (u_secrets u) = length (doc_secrets document)) UnusedDeclaration
      (case y_marshal y document of
         None \<Rightarrow> Inl RenderFailed
       | Some canonical \<Rightarrow>
           Inr \<lparr>pr_document = document, pr_canonical = canonical,
             pr_digest = Digest (float_text cr) (sha256_hex cr)
               (JObj [(''schema_version'', JStr composePolicySchema), (''compose_yaml'', JStr canonical)]),
             pr_published_ports = [], pr_named_volumes = sort (map fst (doc_volumes document)),
             pr_network_names = sort (map fst (doc_networks document)), pr_bind_mount_roots = sort (u_binds u),
             pr_secret_files = doc_secrets document\<rparr>))))))"

definition parseComposePolicy ::
  "crypto \<Rightarrow> (string \<Rightarrow> gofloat option) \<Rightarrow> yaml \<Rightarrow> string \<Rightarrow> compose_err + composePolicyResult" where
  "parseComposePolicy cr parse_float y data =
     requireR (data \<noteq> [] \<and> length data \<le> 256 * 1024) DocumentSize
     (requireR (\<not> contains_str data ''${'') Interpolation
     (case y_syntax y data of
        None \<Rightarrow> Inl YamlInvalid
      | Some syntax \<Rightarrow>
          (case rejectYAMLAliases syntax of
             Some e \<Rightarrow> Inl e
           | None \<Rightarrow>
               (case y_decode y data of
                  None \<Rightarrow> Inl UnknownField
                | Some document \<Rightarrow> requireR (\<not> y_second y data) ManyDocuments (validateComposeDocument cr parse_float y document)))))"

definition composeFileInput :: "jobj \<Rightarrow> compose_err + string" where
  "composeFileInput inputs =
     (case stringInput inputs ''compose_file'' of
        Inl _ \<Rightarrow> Inl FileHandle
      | Inr name \<Rightarrow>
          requireR (\<not> contains_str name ''/'' \<and> fileNamePattern name \<and> (has_suffix name ''.yaml'' \<or> has_suffix name ''.yml'')) FileHandle
            (Inr name))"

definition composeProjectInput :: "jobj \<Rightarrow> compose_err + string" where
  "composeProjectInput inputs =
     (case stringInput inputs ''project_name'' of
        Inl _ \<Rightarrow> Inl ProjectName
      | Inr project \<Rightarrow> requireR (composeProjectPattern project) ProjectName (Inr project))"

end
