(* ===== verification/Compose_Safety.thy ===== *)
theory Compose_Safety
  imports Compose_Policy
begin

text \<open>
  What the acceptance of a Compose document means: the confinement of its services, the isolation of its
  networks, the containment of its bind mounts, and the texts of addresses and limits it accepts.
\<close>

section \<open>Decimal text\<close>

lemma digit_is_char: "is_digit c \<Longrightarrow> \<exists>d < 10. c = char_of (48 + d) \<and> digit_val c = int d"
  by (rule exI [of _ "of_char c - 48"]) (auto simp: is_digit_def digit_val_def)

lemma digits_val_nonneg: "digits_val acc s = Some v \<Longrightarrow> 0 \<le> acc \<Longrightarrow> acc \<le> v"
proof (induction s arbitrary: acc)
  case (Cons c s)
  then have d: "is_digit c" and r: "digits_val (10 * acc + digit_val c) s = Some v" by (auto split: if_splits)
  from digit_is_char [OF d] have "0 \<le> digit_val c" by auto
  with Cons.IH [OF r] Cons.prems show ?case by simp
qed simp

text \<open>A digit string without a leading zero is the text of its value.\<close>

lemma nat_str_digits:
  assumes "digits_val 0 s = Some v" and "s \<noteq> []" and "hd s \<noteq> CHR ''0'' \<or> length s = 1"
  shows "nat_str (nat v) = s"
  using assms
proof (induction s arbitrary: v rule: rev_induct)
  case (snoc c s)
  show ?case
  proof (cases "s = []")
    case True
    with snoc.prems obtain d where d: "d < 10" "c = char_of (48 + d)" "v = int d"
      by (auto split: if_splits dest: digit_is_char)
    then show ?thesis using True by (subst nat_str.simps) simp
  next
    case False
    from snoc.prems(1) obtain u where u: "digits_val 0 s = Some u" and c: "is_digit c" and v: "v = 10 * u + digit_val c"
      by (auto simp: digits_val_append split: if_splits bind_splits)
    from digit_is_char [OF c] obtain d where d: "d < 10" "c = char_of (48 + d)" "digit_val c = int d" by auto
    have hd: "hd s \<noteq> CHR ''0''" using snoc.prems(3) False by (cases s) auto
    then have ih: "nat_str (nat u) = s" using snoc.IH [OF u False] by simp
    have "u \<noteq> 0"
    proof
      assume "u = 0"
      with ih have "s = nat_str 0" by simp
      also note nat_str_0
      finally show False using hd by simp
    qed
    then have "0 < u" using digits_val_nonneg [OF u] by simp
    moreover have "nat v = 10 * nat u + d" using v d(3) \<open>0 < u\<close> by simp
    ultimately show ?thesis using ih d by (subst nat_str.simps) simp
  qed
qed simp

section \<open>Addresses\<close>

lemma ip_field_text: "ip_field f = Some n \<Longrightarrow> nat_str n = f \<and> n \<le> 255"
  by (auto simp: ip_field_def split: if_splits option.splits
      intro!: nat_str_digits) (cases f; simp)

lemma nat_str_chars: "c \<in> set (nat_str n) \<Longrightarrow> is_digit c"
proof (induction n rule: less_induct)
  case (less n)
  from less.prems show ?case
    by (subst (asm) nat_str.simps) (auto split: if_splits dest: less.IH [rotated] simp: digit_char)
qed

lemma nat_str_hd: "n \<noteq> 0 \<Longrightarrow> nat_str n \<noteq> [] \<and> hd (nat_str n) \<noteq> CHR ''0''"
proof (induction n rule: less_induct)
  case (less n)
  show ?case
  proof (cases "n < 10")
    case True
    have "char_of (48 + n) \<noteq> CHR ''0''"
    proof
      assume "char_of (48 + n) = CHR ''0''"
      then have "digit_val (char_of (48 + n)) = 0" by (simp add: digit_val_def)
      with digit_char [OF True] less.prems show False by simp
    qed
    with True show ?thesis by (subst (1 2) nat_str.simps) simp
  next
    case False
    with less.IH [of "n div 10"] show ?thesis by (subst (1 2) nat_str.simps) simp
  qed
qed

lemma nat_str_length: "n < 10 ^ Suc k \<Longrightarrow> length (nat_str n) \<le> Suc k"
proof (induction k arbitrary: n)
  case 0
  then show ?case by (subst nat_str.simps) simp
next
  case (Suc k)
  then have "n div 10 < 10 ^ Suc k" by (simp add: div_less_iff_less_mult)
  with Suc.IH [of "n div 10"] show ?case by (subst nat_str.simps) simp
qed

lemma ip_field_nat_str: "n < 256 \<Longrightarrow> ip_field (nat_str n) = Some n"
  using nat_str_hd [of n] nat_str_length [of n 2] nat_str_length [of 0 0]
  by (cases "n = 0") (auto simp: ip_field_def digits_val_nat_str nat_str_0 is_digit_def digit_val_def)

lemma nat_str_no_dot: "CHR ''.'' \<notin> set (nat_str n)"
  using nat_str_chars [of "CHR ''.''" n] by (auto simp: is_digit_def)

lemma quad_fields:
  fixes a b c d :: nat
  assumes "a < 256" "b < 256" "c < 256" "d < 256"
  shows "((a * 256 + b) * 256 + c) * 256 + d < 2 ^ 32"
    "(((a * 256 + b) * 256 + c) * 256 + d) div 256 ^ 3 = a"
    "(((a * 256 + b) * 256 + c) * 256 + d) div 256 ^ 2 mod 256 = b"
    "(((a * 256 + b) * 256 + c) * 256 + d) div 256 mod 256 = c"
    "(((a * 256 + b) * 256 + c) * 256 + d) mod 256 = d"
proof -
  have last: "(x * 256 + y) div 256 = x" "(x * 256 + y) mod 256 = y" if "y < 256" for x y :: nat
    using that by simp_all
  have steps: "n div 256 ^ 2 = n div 256 div 256" "n div 256 ^ 3 = n div 256 div 256 div 256" for n :: nat
    by (simp_all add: power2_eq_square power3_eq_cube div_mult2_eq)
  show "((a * 256 + b) * 256 + c) * 256 + d < 2 ^ 32" using assms by simp
  show "(((a * 256 + b) * 256 + c) * 256 + d) div 256 ^ 3 = a" by (simp only: steps last assms)
  show "(((a * 256 + b) * 256 + c) * 256 + d) div 256 ^ 2 mod 256 = b" by (simp only: steps last assms)
  show "(((a * 256 + b) * 256 + c) * 256 + d) div 256 mod 256 = c" by (simp only: last assms)
  show "(((a * 256 + b) * 256 + c) * 256 + d) mod 256 = d" by (simp only: last assms)
qed

lemma quad_join:
  "((ip div 256 ^ 3 * 256 + ip div 256 ^ 2 mod 256) * 256 + ip div 256 mod 256) * 256 + ip mod 256 = (ip :: nat)"
proof -
  have "ip div 256 ^ 2 = ip div 256 div 256" "ip div 256 ^ 3 = ip div 256 div 256 div 256"
    by (simp_all add: power2_eq_square power3_eq_cube div_mult2_eq)
  then show ?thesis by (simp only: div_mult_mod_eq)
qed

lemma ip_text:
  "(ip < 2 ^ 32 \<longrightarrow> parse_ip (ip_string ip) = Some ip) \<and> (parse_ip s = Some ip \<longrightarrow> ip_string ip = s \<and> ip < 2 ^ 32)"
proof (intro conjI impI)
  assume ip: "ip < 2 ^ 32"
  let ?fs = "[ip div 256 ^ 3, ip div 256 ^ 2 mod 256, ip div 256 mod 256, ip mod 256]"
  have lt: "\<forall>f \<in> set ?fs. f < 256" using ip by (simp add: div_less_iff_less_mult)
  have "split_on (CHR ''.'') (ip_string ip) = map nat_str ?fs"
    unfolding ip_string_def by (rule split_on_join) (use lt nat_str_no_dot in auto)
  then have "map ip_field (split_on (CHR ''.'') (ip_string ip)) = map Some ?fs"
    using lt by (simp only: list.map ip_field_nat_str list.set_intros)
  then show "parse_ip (ip_string ip) = Some ip"
    by (simp only: parse_ip_def list.map list.case option.case quad_join)
next
  assume "parse_ip s = Some ip"
  then obtain f1 f2 f3 f4 a b c d where split: "split_on (CHR ''.'') s = [f1, f2, f3, f4]"
    and fields: "ip_field f1 = Some a" "ip_field f2 = Some b" "ip_field f3 = Some c" "ip_field f4 = Some d"
    and ip: "ip = ((a * 256 + b) * 256 + c) * 256 + d"
    by (auto simp: parse_ip_def split: list.splits option.splits)
  note texts = fields [THEN ip_field_text]
  have lt: "a < 256" "b < 256" "c < 256" "d < 256" using texts by simp_all
  have "ip_string ip = join_with ''.'' (split_on (CHR ''.'') s)"
    unfolding ip_string_def split ip quad_fields [OF lt] using texts by simp
  then show "ip_string ip = s" by (simp add: join_split_on)
  show "ip < 2 ^ 32" using quad_fields(1) [OF lt] ip by simp
qed

text \<open>
  Addresses and their texts correspond: the text of every 32-bit address parses back to it, and
  every accepted text is the text of the address it denotes, so the comparison of texts the policy makes is the comparison of
  addresses.
\<close>

theorem ip_text_round_trip:
  "(ip < 2 ^ 32 \<longrightarrow> parse_ip (ip_string ip) = Some ip) \<and> (parse_ip s = Some ip \<longrightarrow> ip_string ip = s \<and> ip < 2 ^ 32)"
  by (rule ip_text)

theorem ip_text_round_trip_witness:
  "parse_ip (ip_string 167772161) = Some 167772161 \<and> ip_string 3232235777 = ''192.168.1.1''"
proof -
  have "parse_ip ''192.168.1.1'' = Some 3232235777" by (simp add: parse_ip_def ip_field_def is_digit_def digit_val_def)
  then show ?thesis using ip_text_round_trip [of 167772161] ip_text_round_trip [of 3232235777 "''192.168.1.1''"] by simp
qed

section \<open>What acceptance checked\<close>

lemma accepted_document:
  assumes "parseComposePolicy cr pf y data = Inr r"
  obtains document scopes u where "y_decode y data = Some document" "pr_document r = document"
    "foldR check_network (doc_networks document) [] = Inr scopes"
    "\<forall>v \<in> set (doc_secrets document). check_secret v = Inr ()"
    "foldR (check_service pf document scopes) (doc_services document) fresh_usage = Inr u"
    "pr_bind_mount_roots r = sort (u_binds u)" "pr_secret_files r = doc_secrets document"
    "card (u_networks u) = length (doc_networks document)" "card (u_secrets u) = length (doc_secrets document)"
  using assms
  by (auto simp: parseComposePolicy_def validateComposeDocument_def result_inv split: option.splits)

lemma service_visited:
  assumes "foldR (check_service pf document scopes) services v = Inr u" and "named \<in> set services"
  obtains v1 v2 where "check_service pf document scopes named v1 = Inr v2"
  using foldR_visits [OF assms] by metis

lemma limits_checked:
  assumes "service_limits pf (name, service) = Inr ()"
  shows "composeImagePattern (cs_image service)" and "cs_user service \<notin> {[], ''0'', ''root''}"
    and "\<not> has_prefix (cs_user service) ''0:''" and "cs_read_only service" and "cs_init service"
    and "16 \<le> cs_pids_limit service" and "cs_pids_limit service \<le> 4096" and "\<exists>m. parseMemoryMiB (cs_mem_limit service) = Inr m"
    and "cs_cap_drop service = [''ALL'']" and "cs_security_opt service = [''no-new-privileges:true'']"
  using assms by (auto simp: service_limits_def result_inv Let_def)

text \<open>The literals that may stay in the environment of a service.\<close>

definition environment_clean :: "composeDocument \<Rightarrow> composeService \<Rightarrow> bool" where
  "environment_clean document service \<longleftrightarrow>
     (\<forall>(key, value) \<in> set (cs_environment service). secret_shaped key \<longrightarrow>
        (\<exists>secret \<in> set (cs_secrets service). value = ''/run/secrets/'' @ secret \<and> secret \<in> fst ` set (doc_secrets document)))"

lemma service_secrets_declared:
  assumes "foldR (service_secret document) secrets [] = Inr found"
  shows "set found \<subseteq> set secrets \<inter> fst ` set (doc_secrets document)"
proof (rule foldR_keeps [where I = "\<lambda>found. set found \<subseteq> set secrets \<inter> fst ` set (doc_secrets document)", OF assms])
  fix secret u v
  assume "secret \<in> set secrets" and "service_secret document secret u = Inr v"
    and "set u \<subseteq> set secrets \<inter> fst ` set (doc_secrets document)"
  moreover from this(2) have "v = secret # u" "secret \<in> fst ` set (doc_secrets document)"
    by (simp_all add: service_secret_def result_inv domIff [symmetric] dom_map_of_conv_image_fst del: not_None_eq)
  ultimately show "set v \<subseteq> set secrets \<inter> fst ` set (doc_secrets document)" by simp
qed simp

lemma environment_checked:
  assumes "validateEnvironment (cs_environment service) (set found) = Inr ()"
    and "set found \<subseteq> set (cs_secrets service) \<inter> fst ` set (doc_secrets document)"
  shows "environment_clean document service"
  unfolding environment_clean_def
proof (clarify)
  fix key v assume kv: "(key, v) \<in> set (cs_environment service)" and shaped: "secret_shaped key"
  with assms(1) have "secret_file (set found) key v"
    by (auto simp: validateEnvironment_def environment_entry_def result_inv Let_def)
  then obtain secret where "v = ''/run/secrets/'' @ secret" and "secret \<in> set found"
    by (auto simp: secret_file_def has_prefix_iff trim_prefix_def)
  with assms(2) show "\<exists>secret \<in> set (cs_secrets service). v = ''/run/secrets/'' @ secret \<and> secret \<in> fst ` set (doc_secrets document)"
    by (intro bexI [of _ secret]) auto
qed


section \<open>Networks\<close>

lemma scope_checked:
  assumes "parseComposeNetworkScope network = Inr scope"
  shows "snd (sc_subnet scope) = 24" and "is_private (fst (sc_subnet scope))" and "net_contains (sc_subnet scope) (sc_gateway scope)"
  using assms by (auto simp: parseComposeNetworkScope_def result_inv split: option.splits list.splits prod.splits)

text \<open>The scopes recorded so far belong to the networks visited, and no two have the same subnet.\<close>

definition scopes_of :: "(string \<times> composeNetwork) list \<Rightarrow> (string, composeNetworkScope) gomap \<Rightarrow> bool" where
  "scopes_of networks scopes \<longleftrightarrow>
     (\<forall>(name, scope) \<in> set scopes. \<exists>network. (name, network) \<in> set networks \<and> n_internal network
        \<and> parseComposeNetworkScope network = Inr scope)
     \<and> distinct (map (scope_text \<circ> snd) scopes) \<and> distinct (map fst scopes)"

lemma check_network_step:
  assumes "check_network (name, network) scopes = Inr scopes'"
  obtains scope where "n_internal network" "parseComposeNetworkScope network = Inr scope"
    "scope_text scope \<notin> set (map (scope_text \<circ> snd) scopes)" "scopes' = go_put name scope scopes"
  using assms by (auto simp: check_network_def result_inv Let_def)

lemma go_put_fresh: "k \<notin> fst ` set m \<Longrightarrow> go_put k v m = m @ [(k, v)]"
  by (induction m) auto

lemma networks_checked:
  assumes "foldR check_network networks scopes = Inr scopes'" and "scopes_of seen scopes"
    and "distinct (map fst (seen @ networks))" and "fst ` set scopes = fst ` set seen"
  shows "scopes_of (seen @ networks) scopes' \<and> fst ` set scopes' = fst ` set (seen @ networks)"
  using assms
proof (induction networks arbitrary: scopes seen)
  case Nil
  then show ?case by simp
next
  case (Cons nn networks)
  obtain name network where nn: "nn = (name, network)" by (cases nn)
  from Cons.prems(1) obtain mid where step: "check_network (name, network) scopes = Inr mid"
    and rest: "foldR check_network networks mid = Inr scopes'" by (auto simp: nn result_inv)
  from step obtain scope where internal: "n_internal network" and scope: "parseComposeNetworkScope network = Inr scope"
    and fresh: "scope_text scope \<notin> set (map (scope_text \<circ> snd) scopes)" and mid: "mid = go_put name scope scopes"
    by (rule check_network_step)
  have new: "name \<notin> fst ` set scopes" using Cons.prems(3,4) nn by auto
  then have mid: "mid = scopes @ [(name, scope)]" using mid by (simp add: go_put_fresh)
  have "scopes_of (seen @ [nn]) mid"
    using Cons.prems(2) new fresh internal scope by (fastforce simp: scopes_of_def mid nn)
  moreover have "fst ` set mid = fst ` set (seen @ [nn])" using Cons.prems(4) by (simp add: mid nn)
  ultimately show ?case using Cons.IH [OF rest, of "seen @ [nn]"] Cons.prems(3) by simp
qed

lemma accepted_scopes:
  assumes "foldR check_network networks [] = Inr scopes" and "distinct (map fst networks)"
  shows "scopes_of networks scopes" and "fst ` set scopes = fst ` set networks"
  using networks_checked [OF assms(1), of "[]"] assms(2) by (simp_all add: scopes_of_def)

text \<open>Two /24 networks with an address in common are the same network.\<close>

lemma shared_address:
  "snd n1 = 24 \<Longrightarrow> snd n2 = 24 \<Longrightarrow> net_contains n1 ip \<Longrightarrow> net_contains n2 ip \<Longrightarrow> n1 = n2"
  by (auto simp: net_contains_def prod_eq_iff)

lemma scopes_disjoint:
  assumes "scopes_of networks scopes" and "map_of scopes a = Some sa" and "map_of scopes b = Some sb" and "a \<noteq> b"
  shows "\<not> (net_contains (sc_subnet sa) ip \<and> net_contains (sc_subnet sb) ip)"
proof
  assume both: "net_contains (sc_subnet sa) ip \<and> net_contains (sc_subnet sb) ip"
  have mem: "(a, sa) \<in> set scopes" "(b, sb) \<in> set scopes" using assms(2,3) by (auto dest: map_of_SomeD)
  with assms(1) obtain na nb where "parseComposeNetworkScope na = Inr sa" "parseComposeNetworkScope nb = Inr sb"
    unfolding scopes_of_def by blast
  then have "sc_subnet sa = sc_subnet sb" using both shared_address scope_checked(1) by metis
  then have "scope_text sa = scope_text sb" by (simp add: scope_text_def)
  moreover have "inj_on (scope_text \<circ> snd) (set scopes)"
    using assms(1) by (simp add: scopes_of_def distinct_map)
  ultimately have "(a, sa) = (b, sb)" using inj_onD [of "scope_text \<circ> snd" "set scopes" "(a, sa)" "(b, sb)"] mem by simp
  with assms(4) show False by simp
qed

text \<open>The addresses handed out by the services visited so far are distinct and inside their network.\<close>

definition attached :: "composeService \<Rightarrow> string list" where
  "attached service = map snd (cs_networks service)"

lemma static_checked:
  assumes "validateComposeStaticIPv4 value scope = Inr address"
  shows "address = value" and "\<exists>ip. parse_ip value = Some ip \<and> is_private ip \<and> net_contains (sc_subnet scope) ip
    \<and> ip \<noteq> fst (sc_subnet scope) \<and> ip \<noteq> sc_gateway scope"
  using assms by (auto simp: validateComposeStaticIPv4_def result_inv split: option.splits)

lemma service_networks_addresses:
  assumes "foldR (service_network scopes) nets u = Inr v" and "distinct (u_addresses u)"
  shows "u_addresses v = rev (map snd nets) @ u_addresses u \<and> distinct (rev (map snd nets) @ u_addresses u)"
  using assms
proof (induction nets arbitrary: u)
  case (Cons n nets)
  then obtain mid where step: "service_network scopes n u = Inr mid" and rest: "foldR (service_network scopes) nets mid = Inr v"
    by (auto simp: result_inv)
  from step have mid: "u_addresses mid = snd n # u_addresses u" "snd n \<notin> set (u_addresses u)"
    by (auto simp: service_network_def result_inv split: option.splits dest: static_checked(1))
  with Cons.IH [OF rest] Cons.prems(2) show ?case by simp
qed simp

lemma service_volume_addresses:
  assumes "service_volume document volume u = Inr v"
  shows "u_addresses v = u_addresses u"
proof -
  from assms obtain kind where "validateBindMount volume = Inr kind" by (auto simp: result_inv service_volume_def)
  with assms show ?thesis by (cases kind) (auto simp: service_volume_def result_inv)
qed

lemma service_volumes_addresses:
  assumes "foldR (service_volume document) vs u = Inr v"
  shows "u_addresses v = u_addresses u"
  by (rule foldR_keeps [where I = "\<lambda>w. u_addresses w = u_addresses u", OF assms])
    (auto dest: service_volume_addresses)

lemma check_service_addresses:
  assumes "check_service pf document scopes (name, service) u = Inr v" and "distinct (u_addresses u)"
  shows "distinct (u_addresses v) \<and> set (u_addresses v) = set (attached service) \<union> set (u_addresses u)
    \<and> distinct (attached service) \<and> set (attached service) \<inter> set (u_addresses u) = {}"
proof -
  from assms(1) obtain found u1 where
    nets: "foldR (service_network scopes) (cs_networks service) (u\<lparr>u_secrets := u_secrets u \<union> set found\<rparr>) = Inr u1"
    and vols: "foldR (service_volume document) (cs_volumes service) u1 = Inr v"
    by (auto simp: check_service_def result_inv Let_def)
  from service_networks_addresses [OF nets] service_volumes_addresses [OF vols] assms(2)
  show ?thesis by (simp add: attached_def)
qed

lemma services_addresses:
  assumes "foldR (check_service pf document scopes) services u = Inr v" and "distinct (u_addresses u)"
  shows "distinct (concat (map (attached \<circ> snd) services)) \<and> set (concat (map (attached \<circ> snd) services)) \<inter> set (u_addresses u) = {}"
  using assms
proof (induction services arbitrary: u)
  case (Cons s services)
  obtain name service where s: "s = (name, service)" by (cases s)
  from Cons.prems obtain mid where step: "check_service pf document scopes (name, service) u = Inr mid"
    and rest: "foldR (check_service pf document scopes) services mid = Inr v" by (auto simp: s result_inv)
  note here = check_service_addresses [OF step Cons.prems(2)]
  then have "distinct (u_addresses mid)" by blast
  note there = Cons.IH [OF rest this]
  from here there have "set (attached service) \<inter> set (concat (map (attached \<circ> snd) services)) = {}" by blast
  with here there show ?case by (simp add: s) blast
qed simp

lemma service_attachment:
  assumes "check_service pf document scopes (name, service) u = Inr v" and "(net, address) \<in> set (cs_networks service)"
  obtains scope where "map_of scopes net = Some scope" "\<exists>ip. parse_ip address = Some ip \<and> is_private ip
    \<and> net_contains (sc_subnet scope) ip \<and> ip \<noteq> fst (sc_subnet scope) \<and> ip \<noteq> sc_gateway scope"
proof -
  from assms(1) obtain u0 u1 where nets: "foldR (service_network scopes) (cs_networks service) u0 = Inr u1"
    by (auto simp: check_service_def result_inv Let_def)
  from foldR_visits [OF nets assms(2)] obtain w1 w2 where "service_network scopes (net, address) w1 = Inr w2" by metis
  then show thesis
    by (auto simp: service_network_def result_inv split: option.splits dest: static_checked(2) intro!: that)
qed

text \<open>
  The networks of an accepted document isolate it: every network a service attaches to is
  declared, internal and a private /24; the address of the service lies inside it and is neither the network address nor the
  gateway; an address of one network lies in no other network of the document; and no two attachments of any services
  share an address. (The networks of a document are a map, so their names are distinct.)
\<close>

theorem compose_networks_isolated:
  assumes "parseComposePolicy cr pf y data = Inr r" and "distinct (map fst (doc_networks (pr_document r)))"
  shows "\<exists>scopes. scopes_of (doc_networks (pr_document r)) scopes
    \<and> (\<forall>(name, service) \<in> set (doc_services (pr_document r)). \<forall>(net, address) \<in> set (cs_networks service).
         \<exists>scope ip. map_of scopes net = Some scope \<and> parse_ip address = Some ip \<and> is_private ip
           \<and> net_contains (sc_subnet scope) ip \<and> ip \<noteq> fst (sc_subnet scope) \<and> ip \<noteq> sc_gateway scope
           \<and> (\<forall>other so. other \<noteq> net \<longrightarrow> map_of scopes other = Some so \<longrightarrow> \<not> net_contains (sc_subnet so) ip))
    \<and> distinct (concat (map (attached \<circ> snd) (doc_services (pr_document r))))"
proof -
  from assms(1) obtain document scopes u where doc: "pr_document r = document"
    and nets: "foldR check_network (doc_networks document) [] = Inr scopes"
    and run: "foldR (check_service pf document scopes) (doc_services document) fresh_usage = Inr u"
    by (rule accepted_document)
  have scopes: "scopes_of (doc_networks document) scopes"
    using accepted_scopes(1) [OF nets] assms(2) doc by simp
  have "\<exists>scope ip. map_of scopes net = Some scope \<and> parse_ip address = Some ip \<and> is_private ip
      \<and> net_contains (sc_subnet scope) ip \<and> ip \<noteq> fst (sc_subnet scope) \<and> ip \<noteq> sc_gateway scope
      \<and> (\<forall>other so. other \<noteq> net \<longrightarrow> map_of scopes other = Some so \<longrightarrow> \<not> net_contains (sc_subnet so) ip)"
    if "(name, service) \<in> set (doc_services document)" and att: "(net, address) \<in> set (cs_networks service)" for name service net address
  proof -
    from service_visited [OF run that(1)] obtain v1 v2 where "check_service pf document scopes (name, service) v1 = Inr v2" .
    from service_attachment [OF this att] obtain scope ip where "map_of scopes net = Some scope" "parse_ip address = Some ip"
      "is_private ip" "net_contains (sc_subnet scope) ip" "ip \<noteq> fst (sc_subnet scope)" "ip \<noteq> sc_gateway scope" by metis
    then show ?thesis using scopes_disjoint [OF scopes, of net scope] by blast
  qed
  moreover have "distinct (concat (map (attached \<circ> snd) (doc_services document)))"
    using services_addresses [OF run] by (simp add: fresh_usage_def)
  ultimately show ?thesis using scopes doc by blast
qed

section \<open>Bind mounts\<close>

lemma clean_no_dot_prefix:
  assumes "\<not> is_abs p" and "p \<noteq> []"
  shows "\<not> has_prefix (clean p) ''./''"
proof
  assume "has_prefix (clean p) ''./''"
  then obtain r where r: "clean p = dot @ slash # r" by (auto simp: has_prefix_iff path_consts)
  have nosep: "slash \<notin> set dot" by (simp add: path_consts)
  then have split: "split_on slash (clean p) = dot # split_on slash r" unfolding r by (rule split_on_append)
  have cl: "clean_list False (path_elems p)" using path_elems_clean [of p] assms(1) by simp
  have "path_elems p \<noteq> []"
  proof
    assume "path_elems p = []"
    then have "clean p = dot" using assms by (simp add: clean_def render_path_def)
    with r show False by simp
  qed
  then have "split_on slash (clean p) = path_elems p"
    using assms split_on_join [of "path_elems p" slash] clean_list_no_slash [OF cl] by (simp add: clean_def render_path_def)
  with split have "dot \<in> set (path_elems p)" by simp
  moreover from cl obtain n qs where "path_elems p = replicate n dotdot @ qs" "\<forall>q \<in> set qs. plain_elem q"
    unfolding clean_list_def by blast
  moreover have "dot \<noteq> dotdot" by (simp add: path_consts)
  ultimately show False by (auto simp: plain_elem_def)
qed

lemma bind_checked:
  assumes "validateBindMount value = Inr (Bind rel)"
  shows "\<not> is_abs rel" and "rel \<noteq> []" and "clean rel = rel" and "\<forall>e \<in> set (path_elems rel). plain_elem e" and "path_elems rel \<noteq> []"
proof -
  from assms obtain src where src: "src \<noteq> []" and ms: "mount_source src = Inr (Bind rel)"
    by (auto simp: validateBindMount_def Let_def result_inv)
  then have src: "src \<noteq> []" "\<not> is_abs src" and rel: "rel = trim_prefix (clean src) ''./''"
    and ok: "rel \<noteq> dot" "rel \<noteq> dotdot" "\<not> has_prefix rel ''../''"
    by (auto simp: mount_source_def Let_def result_inv split: if_splits)
  have eq: "rel = clean src" using rel clean_no_dot_prefix [OF src(2,1)] by (simp add: trim_prefix_def)
  have esc: "\<not> escapes (clean src)" using ok eq by (simp add: escapes_def path_consts)
  show plain: "\<forall>e \<in> set (path_elems rel). plain_elem e"
    using clean_relative_elems [OF src(2,1) esc] eq by simp
  show "\<not> is_abs rel" and "clean rel = rel" using eq src by (simp_all add: clean_idem)
  show ne: "path_elems rel \<noteq> []"
  proof
    assume "path_elems rel = []"
    then have "path_elems src = []" using eq by simp
    then have "clean src = dot" using src by (simp add: clean_def render_path_def)
    with ok eq show False by simp
  qed
  show "rel \<noteq> []"
  proof
    assume "rel = []"
    moreover have "path_elems [] = []" by (simp add: path_elems_def path_consts)
    ultimately show False using ne by simp
  qed
qed

lemma binds_checked:
  assumes "foldR (check_service pf document scopes) services u = Inr v"
    and "\<forall>b \<in> set (u_binds u). \<exists>value. validateBindMount value = Inr (Bind b)"
  shows "\<forall>b \<in> set (u_binds v). \<exists>value. validateBindMount value = Inr (Bind b)"
proof (rule foldR_keeps [where I = "\<lambda>w. \<forall>b \<in> set (u_binds w). \<exists>value. validateBindMount value = Inr (Bind b)", OF assms])
  fix named u v
  assume step: "check_service pf document scopes named u = Inr v"
    and inv: "\<forall>b \<in> set (u_binds u). \<exists>value. validateBindMount value = Inr (Bind b)"
  from step obtain found u1 where
    nets: "foldR (service_network scopes) (cs_networks (snd named)) (u\<lparr>u_secrets := u_secrets u \<union> set found\<rparr>) = Inr u1"
    and vols: "foldR (service_volume document) (cs_volumes (snd named)) u1 = Inr v"
    by (auto simp: check_service_def result_inv Let_def)
  have "u_binds u1 = u_binds u"
    by (rule foldR_keeps [where I = "\<lambda>x. u_binds x = u_binds u", OF nets])
      (auto simp: service_network_def result_inv split: option.splits)
  with inv have start: "\<forall>b \<in> set (u_binds u1). \<exists>value. validateBindMount value = Inr (Bind b)" by simp
  show "\<forall>b \<in> set (u_binds v). \<exists>value. validateBindMount value = Inr (Bind b)"
  proof (rule foldR_keeps [where I = "\<lambda>w. \<forall>b \<in> set (u_binds w). \<exists>value. validateBindMount value = Inr (Bind b)", OF vols start])
    fix volume x y
    assume "service_volume document volume x = Inr y" and "\<forall>b \<in> set (u_binds x). \<exists>value. validateBindMount value = Inr (Bind b)"
    then show "\<forall>b \<in> set (u_binds y). \<exists>value. validateBindMount value = Inr (Bind b)"
      by (cases "validateBindMount volume" rule: sum.exhaust)
        (auto simp: service_volume_def result_inv split: mount.split_asm)
  qed
qed

text \<open>
  The bind mounts of an accepted document stay inside the migration root: joined to any absolute
  root, each is that root followed by at least one plain path element, so no mount is the root itself or climbs out of it.
\<close>

theorem bind_mounts_contained:
  assumes "parseComposePolicy cr pf y data = Inr r" and "rel \<in> set (pr_bind_mount_roots r)" and "is_abs root"
  shows "path_elems (path_join root rel) = path_elems root @ path_elems rel \<and> path_elems rel \<noteq> []
    \<and> (\<forall>e \<in> set (path_elems rel). plain_elem e)"
proof -
  from assms(1) obtain document scopes u where mounts: "pr_bind_mount_roots r = sort (u_binds u)"
    and run: "foldR (check_service pf document scopes) (doc_services document) fresh_usage = Inr u"
    by (rule accepted_document)
  from binds_checked [OF run] assms(2) mounts obtain volume where "validateBindMount volume = Inr (Bind rel)"
    by (auto simp: fresh_usage_def)
  note rel = bind_checked [OF this]
  show ?thesis using path_join_elems(1) [OF assms(3) rel(1,2,4) rel(3) [symmetric]] rel by simp
qed

section \<open>Limits\<close>

lemma wrap64_exact: "\<bar>amount\<bar> < 2 ^ 53 \<Longrightarrow> multiplier \<in> {1, 1024} \<Longrightarrow> wrap64 (amount * multiplier) = amount * multiplier"
  by (rule wrap64_id) (auto simp: in_int64_def abs_less_iff)

text \<open>
  An accepted memory limit is between 16 MiB and 64 GiB, and it is the declared amount
  in mebibytes whenever that amount is below 2^53; beyond it the product of amount and unit is taken modulo 2^64.
\<close>

theorem memory_limit_bounds:
  assumes "parseMemoryMiB value = Inr n"
  shows "16 \<le> n \<and> n \<le> 64 * 1024 \<and>
    (\<exists>digits multiplier amount. memory_unit (to_lower (trim_space value)) = Some (digits, multiplier)
       \<and> parse_int64 digits = Some amount \<and> n mod 2 ^ 64 = amount * multiplier mod 2 ^ 64
       \<and> (\<bar>amount\<bar> < 2 ^ 53 \<longrightarrow> n = amount * multiplier))"
proof -
  from assms obtain digits multiplier amount where unit: "memory_unit (to_lower (trim_space value)) = Some (digits, multiplier)"
    and amount: "parse_int64 digits = Some amount" and n: "n = wrap64 (amount * multiplier)" "16 \<le> n" "n \<le> 64 * 1024"
    by (auto simp: parseMemoryMiB_def result_inv split: option.splits)
  from unit have "multiplier \<in> {1, 1024}" by (auto simp: memory_unit_def split: if_splits)
  then have "\<bar>amount\<bar> < 2 ^ 53 \<longrightarrow> n = amount * multiplier" using wrap64_exact n(1) by blast
  with unit amount n wrap64_mod show ?thesis by blast
qed

theorem memory_limit_bounds_witness: "\<exists>n. parseMemoryMiB ''2g'' = Inr n \<and> 16 \<le> n \<and> n \<le> 64 * 1024"
proof -
  have "parseMemoryMiB ''2g'' = Inr 2048" by code_simp
  with memory_limit_bounds [OF this] show ?thesis by blast
qed

text \<open>
  Three declarations that the policy means to refuse pass it: a memory limit of more than
  10^16 GiB whose product with the unit wraps to 1024 MiB; a CPU limit \<open>nan\<close>, for which both bound checks are false
  (\<open>ParseFloat\<close> is documented to accept it); and the user \<open>root:root\<close>, which is judged exactly as \<open>app\<close> is.
\<close>

theorem confinement_gaps:
  "parseMemoryMiB ''18014398509481985g'' = Inr 1024
   \<and> (pf ''nan'' = Some NaN \<longrightarrow> parseCPU pf ''nan'' = Inr NaN)
   \<and> service_limits pf (name, service\<lparr>cs_user := ''root:root''\<rparr>) = service_limits pf (name, service\<lparr>cs_user := ''app''\<rparr>)"
proof (intro conjI impI)
  show "parseMemoryMiB ''18014398509481985g'' = Inr 1024"
    by (simp add: parseMemoryMiB_def memory_unit_def to_lower_def to_lower_char_def trim_space_def is_space_def
        has_suffix_def trim_suffix_def parse_int64_def is_digit_def digit_val_def in_int64_def wrap64_def)
  show "parseCPU pf ''nan'' = Inr NaN" if "pf ''nan'' = Some NaN" using that by (simp add: parseCPU_def)
  show "service_limits pf (name, service\<lparr>cs_user := ''root:root''\<rparr>) = service_limits pf (name, service\<lparr>cs_user := ''app''\<rparr>)"
    by (simp add: service_limits_def has_prefix_def)
qed

theorem confinement_gaps_witness: "parseCPU (\<lambda>s. if s = ''nan'' then Some NaN else None) ''nan'' = Inr NaN"
  using confinement_gaps [of "\<lambda>s. if s = ''nan'' then Some NaN else None"] by simp

section \<open>A document\<close>

definition sample_service :: composeService where
  "sample_service =
     \<lparr>cs_image = ''app@sha256:'' @ replicate 64 (CHR ''a''), cs_user = ''app'', cs_read_only = True, cs_init = True, cs_restart = [],
      cs_environment = [], cs_depends_on = [], cs_volumes = [''./data/db:/data''], cs_ports = [], cs_networks = [(''net0'', ''10.1.2.5'')],
      cs_secrets = [], cs_tmpfs = [], cs_cap_drop = [''ALL''], cs_security_opt = [''no-new-privileges:true''], cs_cpus = ''1'',
      cs_mem_limit = ''512m'', cs_pids_limit = 64, cs_stop_grace_period = [], cs_logging = None\<rparr>"

definition sample_network :: composeNetwork where
  "sample_network = \<lparr>n_driver = [], n_internal = True, n_ipam = Some [\<lparr>ip_subnet = ''10.1.2.0/24'', ip_gateway = ''10.1.2.1''\<rparr>]\<rparr>"

definition sample_document :: composeDocument where
  "sample_document = \<lparr>doc_version = [], doc_services = [(''web'', sample_service)], doc_networks = [(''net0'', sample_network)],
     doc_volumes = [], doc_secrets = []\<rparr>"

definition sample_yaml :: yaml where
  "sample_yaml = \<lparr>y_syntax = (\<lambda>_. Some (YNode False [] [] [])), y_decode = (\<lambda>_. Some sample_document), y_second = (\<lambda>_. False),
     y_marshal = (\<lambda>_. Some ''yaml''), y_generic = (\<lambda>_. Some ''yaml'')\<rparr>"

definition sample_scope :: composeNetworkScope where
  "sample_scope = \<lparr>sc_subnet = (167838208, 24), sc_gateway = 167838209\<rparr>"

lemmas text_eval = is_digit_def digit_val_def is_lower_def is_upper_def is_alnum_def is_lower_hex_def lower_digit_def compose_char_def
  has_suffix_def trim_suffix_def has_prefix_def trim_prefix_def to_lower_def to_lower_char_def trim_space_def is_space_def

lemma ip_string_eq: "parse_ip s = Some ip \<Longrightarrow> ip_string ip = s"
  using ip_text by blast

lemma sample_network_ok: "check_network (''net0'', sample_network) [] = Inr [(''net0'', sample_scope)]"
proof -
  have ips: "parse_ip ''10.1.2.0'' = Some 167838208" "parse_ip ''10.1.2.1'' = Some 167838209"
    by (simp_all add: parse_ip_def ip_field_def text_eval)
  have cidr: "parse_cidr ''10.1.2.0/24'' = Some (167838208, 167838208, 24)"
    using ips by (simp add: parse_cidr_def slash_def text_eval masked_def)
  show ?thesis using cidr ips ips [THEN ip_string_eq]
    by (simp add: check_network_def sample_network_def parseComposeNetworkScope_def composeNamePattern_def text_eval
        is_private_def net_contains_def masked_def sample_scope_def)
qed

lemma sample_service_ok:
  "check_service (\<lambda>_. Some (Dyadic 1 0)) sample_document [(''net0'', sample_scope)] (''web'', sample_service) fresh_usage
    = Inr (fresh_usage\<lparr>u_networks := {''net0''}, u_addresses := [''10.1.2.5''], u_binds := [''data/db'']\<rparr>)"
proof -
  have ip: "parse_ip ''10.1.2.5'' = Some 167838213" by (simp add: parse_ip_def ip_field_def text_eval)
  have mount: "validateBindMount ''./data/db:/data'' = Inr (Bind ''data/db'')" by code_simp
  have "service_limits (\<lambda>_. Some (Dyadic 1 0)) (''web'', sample_service) = Inr ()"
    by (simp add: service_limits_def sample_service_def parseCPU_def parseMemoryMiB_def memory_unit_def parse_int64_def
        in_int64_def composeNamePattern_def composeImagePattern_def text_eval wrap64_def Let_def eval_nat_numeral)
  then show ?thesis using ip ip_string_eq [OF ip] mount
    by (simp add: check_service_def sample_service_def fresh_usage_def eachR_def service_network_def service_volume_def
        validateComposeStaticIPv4_def is_private_def net_contains_def masked_def sample_scope_def service_logging_def
        validateEnvironment_def)
qed

lemma sample_policy:
  "\<exists>r. parseComposePolicy cr (\<lambda>_. Some (Dyadic 1 0)) sample_yaml ''x'' = Inr r \<and> pr_document r = sample_document
     \<and> pr_bind_mount_roots r = [''data/db'']"
  using sample_network_ok sample_service_ok
  by (simp add: parseComposePolicy_def validateComposeDocument_def sample_yaml_def sample_document_def eachR_def text_eval
      fresh_usage_def)


theorem compose_networks_isolated_witness: "\<exists>scopes. scopes_of (doc_networks sample_document) scopes"
proof -
  from sample_policy obtain cr r where r: "parseComposePolicy (cr :: crypto) (\<lambda>_. Some (Dyadic 1 0)) sample_yaml ''x'' = Inr r"
    and doc: "pr_document r = sample_document" by blast
  have "distinct (map fst (doc_networks (pr_document r)))" by (simp add: doc sample_document_def)
  from compose_networks_isolated [OF r this] show ?thesis unfolding doc by blast
qed

theorem bind_mounts_contained_witness:
  "path_elems (path_join ''/srv'' ''data/db'') = path_elems ''/srv'' @ path_elems ''data/db''"
proof -
  from sample_policy obtain cr r where r: "parseComposePolicy (cr :: crypto) (\<lambda>_. Some (Dyadic 1 0)) sample_yaml ''x'' = Inr r"
    and roots: "pr_bind_mount_roots r = [''data/db'']" by blast
  have "is_abs ''/srv''" by (simp add: is_abs_def has_prefix_def slash_def)
  from bind_mounts_contained [OF r _ this, of "''data/db''"] roots show ?thesis by simp
qed

end
