(* ===== verification/Compose_Secrets.thy ===== *)
theory Compose_Secrets
  imports Compose_Policy Go_Effects
begin

text \<open>
  Runtime secrets of a Compose project (\<open>internal/migration/compose.go\<close>): they are staged as files of a memory
  file system for the time the broker starts the project, under the protection of a durable marker that says that a clean-up
  is required, and are overwritten and unlinked afterwards. A crash at any point leaves the marker, and the next start of the
  executor (or the next staging) cleans up.

  The state is what these functions see of the host: the marker in the state directory, the secret root with its project
  directories and their files, and the script \<open>k_env\<close> of the outcomes of the next system calls: one may succeed, fail
  with or without its effect, or be the point at which the process dies. \<open>k_unlinked\<close> records the content of every file at
  the moment it was unlinked. Nothing else writes below the secret root, so the checks that a file is still the one that was
  inspected can fail only as system calls fail.
\<close>

section \<open>The host\<close>

datatype call_outcome = Works | Fails | Fails_done | Dies | Dies_done

record secret_file =
  sf_safe :: bool
  sf_content :: string
  sf_mode :: nat

record project_dir =
  pd_safe :: bool
  pd_files :: "(string, secret_file) gomap"

record secret_root =
  rd_safe :: bool
  rd_projects :: "(string, project_dir) gomap"

record secret_host =
  k_marker :: bool
  k_root :: "secret_root option"
  k_unlinked :: "string list"
  k_env :: "call_outcome list"
  k_dead :: bool

datatype stage_err =
    HostCall | Stopped | BadPolicy compose_err | BindingIdentifier | ScopeRefused | ComposeUnavailable | NoSecrets
  | BindingUnavailable | NamesMismatch | RootUnsafe | UnknownProject | ProjectUnsafe | UnknownSecret | SecretUnsafe
  | DirectoryNotNew | PathEscaped | NotEmpty | StaleCleanup | MarkerNotPersisted | CleanupFailed
  | ResponseLost | StartRejected | StartedCleanupFailed | LostCleanupFailed | RejectedCleanupFailed

type_synonym 'a kop = "(secret_host, stage_err, 'a) op"

definition call :: "(secret_host \<Rightarrow> secret_host) \<Rightarrow> unit kop" where
  "call eff = State (\<lambda>h.
     if k_dead h then (Inl Stopped, h)
     else let h' = h\<lparr>k_env := tl (k_env h)\<rparr> in
       (case k_env h of
          [] \<Rightarrow> (Inr (), eff h)
        | Works # _ \<Rightarrow> (Inr (), eff h')
        | Fails # _ \<Rightarrow> (Inl HostCall, h')
        | Fails_done # _ \<Rightarrow> (Inl HostCall, eff h')
        | Dies # _ \<Rightarrow> (Inl Stopped, h'\<lparr>k_dead := True\<rparr>)
        | Dies_done # _ \<Rightarrow> (Inl Stopped, (eff h')\<lparr>k_dead := True\<rparr>)))"

text \<open>Calls that change nothing the model keeps: opening, inspecting, syncing and closing.\<close>

abbreviation probe :: "unit kop" where
  "probe \<equiv> call id"

definition projects :: "secret_host \<Rightarrow> (string, project_dir) gomap" where
  "projects h = (case k_root h of None \<Rightarrow> [] | Some r \<Rightarrow> rd_projects r)"

definition files_of :: "string \<Rightarrow> secret_host \<Rightarrow> (string, secret_file) gomap" where
  "files_of p h = (case map_of (projects h) p of None \<Rightarrow> [] | Some d \<Rightarrow> pd_files d)"

definition set_projects :: "(string, project_dir) gomap \<Rightarrow> secret_host \<Rightarrow> secret_host" where
  "set_projects ps h = h\<lparr>k_root := map_option (\<lambda>r. r\<lparr>rd_projects := ps\<rparr>) (k_root h)\<rparr>"

definition set_files :: "string \<Rightarrow> (string, secret_file) gomap \<Rightarrow> secret_host \<Rightarrow> secret_host" where
  "set_files p fs h =
     (case map_of (projects h) p of
        None \<Rightarrow> h
      | Some d \<Rightarrow> set_projects (go_put p (d\<lparr>pd_files := fs\<rparr>) (projects h)) h)"

definition change_file :: "string \<Rightarrow> string \<Rightarrow> (secret_file \<Rightarrow> secret_file) \<Rightarrow> secret_host \<Rightarrow> secret_host" where
  "change_file p n g h =
     (case map_of (files_of p h) n of None \<Rightarrow> h | Some f \<Rightarrow> set_files p (go_put n (g f) (files_of p h)) h)"

definition zeroed :: "secret_file \<Rightarrow> secret_file" where
  "zeroed f = f\<lparr>sf_content := replicate (length (sf_content f)) (CHR 0x00)\<rparr>"

definition unlink_file :: "string \<Rightarrow> string \<Rightarrow> secret_host \<Rightarrow> secret_host" where
  "unlink_file p n h =
     (case map_of (files_of p h) n of
        None \<Rightarrow> h
      | Some f \<Rightarrow> (set_files p (go_del n (files_of p h)) h)\<lparr>k_unlinked := sf_content f # k_unlinked h\<rparr>)"

section \<open>Wiping\<close>

text \<open>The write, the sync and the close all run; one error fails the three.\<close>

definition overwrite :: "string \<Rightarrow> string \<Rightarrow> unit kop" where
  "overwrite p n = do {
     writeErr \<leftarrow> call (change_file p n zeroed);
     syncErr \<leftarrow> probe;
     closeErr \<leftarrow> probe;
     if is_err writeErr \<or> is_err syncErr \<or> is_err closeErr then errE CleanupFailed else okE () }"

definition unlinkSameFileNoSymlink :: "string \<Rightarrow> string \<Rightarrow> unit kop" where
  "unlinkSameFileNoSymlink p n = tryE probe (\<lambda>_. call (unlink_file p n))"

definition file_unsafe :: "secret_file \<Rightarrow> bool" where
  "file_unsafe f \<longleftrightarrow> \<not> sf_safe f \<or> length (sf_content f) > 16 * 1024"

definition wipeAndRemoveComposeSecret :: "string \<Rightarrow> string \<Rightarrow> unit kop" where
  "wipeAndRemoveComposeSecret p n = do {
     h \<leftarrow> get_state;
     case map_of (files_of p h) n of
       None \<Rightarrow> okE ()
     | Some before \<Rightarrow>
         guardE (\<not> file_unsafe before) SecretUnsafe
         (tryE probe (\<lambda>_. tryE probe (\<lambda>_.
          tryE (call (change_file p n (\<lambda>f. f\<lparr>sf_mode := 384\<rparr>))) (\<lambda>_.
          tryE probe (\<lambda>_. tryE probe (\<lambda>_. tryE probe (\<lambda>_.
          tryE (overwrite p n) (\<lambda>_. unlinkSameFileNoSymlink p n)))))))) }"

definition wipeAndRemoveOpenComposeSecret :: "string \<Rightarrow> string \<Rightarrow> unit kop" where
  "wipeAndRemoveOpenComposeSecret p n = do {
     h \<leftarrow> get_state;
     tryE probe (\<lambda>_.
       guardE (\<forall>f \<in> set_option (map_of (files_of p h) n). \<not> file_unsafe f) SecretUnsafe
       (tryE (call (change_file p n (\<lambda>f. f\<lparr>sf_mode := 384\<rparr>))) (\<lambda>_.
        tryE (overwrite p n) (\<lambda>_. unlinkSameFileNoSymlink p n)))) }"

section \<open>The marker\<close>

text \<open>A temporary file is created, restricted, written, synced, closed and renamed; then the directory is synced.\<close>

definition writeComposeSecretCleanupMarker :: "unit kop" where
  "writeComposeSecretCleanupMarker =
     tryE probe (\<lambda>_. tryE probe (\<lambda>_. tryE probe (\<lambda>_. tryE probe (\<lambda>_. tryE probe (\<lambda>_.
     tryE (call (\<lambda>h. h\<lparr>k_marker := True\<rparr>)) (\<lambda>_. probe))))))"

definition clearComposeSecretCleanupMarker :: "unit kop" where
  "clearComposeSecretCleanupMarker = tryE (call (\<lambda>h. h\<lparr>k_marker := False\<rparr>)) (\<lambda>_. probe)"

section \<open>Recovery\<close>

definition remove_project :: "string \<Rightarrow> unit kop" where
  "remove_project p = do {
     h \<leftarrow> get_state;
     if files_of p h \<noteq> [] then tryE probe (\<lambda>_. errE NotEmpty)
     else call (\<lambda>h. set_projects (go_del p (projects h)) h) }"

definition recover_secret :: "string \<Rightarrow> string \<Rightarrow> unit kop" where
  "recover_secret p n = guardE (composeNamePattern n) UnknownSecret (wipeAndRemoveComposeSecret p n)"

definition recover_project :: "string \<Rightarrow> unit kop" where
  "recover_project p =
     guardE (composeProjectPattern p) UnknownProject
     (tryE probe (\<lambda>_. do {
        h \<leftarrow> get_state;
        guardE (case map_of (projects h) p of None \<Rightarrow> False | Some d \<Rightarrow> pd_safe d) ProjectUnsafe
        (tryE probe (\<lambda>_.
         tryE (forE (map fst (files_of p h)) (recover_secret p)) (\<lambda>_. remove_project p))) }))"

definition remove_root :: "unit kop" where
  "remove_root = do {
     h \<leftarrow> get_state;
     if projects h \<noteq> [] then tryE probe (\<lambda>_. errE NotEmpty) else call (\<lambda>h. h\<lparr>k_root := None\<rparr>) }"

definition recoverComposeRuntimeSecrets :: "unit kop" where
  "recoverComposeRuntimeSecrets = tryE probe (\<lambda>_. do {
     h \<leftarrow> get_state;
     case k_root h of
       None \<Rightarrow> clearComposeSecretCleanupMarker
     | Some root \<Rightarrow>
         guardE (rd_safe root) RootUnsafe
         (tryE probe (\<lambda>_.
          tryE (forE (map fst (rd_projects root)) recover_project) (\<lambda>_.
          tryE remove_root (\<lambda>_. clearComposeSecretCleanupMarker)))) })"

section \<open>Staging\<close>

text \<open>The clean-up continues after an error and clears the marker only when there was none.\<close>

definition remove_staging :: "string \<Rightarrow> unit kop" where
  "remove_staging p = do {
     h \<leftarrow> get_state;
     if map_of (projects h) p = None then tryE probe (\<lambda>_. okE ()) else remove_project p }"

definition cleanup :: "string \<Rightarrow> string list \<Rightarrow> unit kop" where
  "cleanup p staged = do {
     failed \<leftarrow> for_all staged (wipeAndRemoveOpenComposeSecret p);
     removed \<leftarrow> remove_staging p;
     if failed \<or> is_err removed then errE CleanupFailed else clearComposeSecretCleanupMarker }"

definition create_file :: "string \<Rightarrow> string \<Rightarrow> unit kop" where
  "create_file p n = do {
     h \<leftarrow> get_state;
     if map_of (files_of p h) n \<noteq> None then tryE probe (\<lambda>_. errE HostCall)
     else call (\<lambda>h. set_files p (go_put n \<lparr>sf_safe = True, sf_content = [], sf_mode = 384\<rparr> (files_of p h)) h) }"

definition fill_file :: "string \<Rightarrow> string \<Rightarrow> string \<Rightarrow> unit kop" where
  "fill_file p n secret = do {
     writeErr \<leftarrow> call (change_file p n (\<lambda>f. f\<lparr>sf_content := secret\<rparr>));
     syncErr \<leftarrow> probe;
     if is_err writeErr \<or> is_err syncErr then errE HostCall
     else call (change_file p n (\<lambda>f. f\<lparr>sf_mode := 292\<rparr>)) }"

text \<open>One round of the staging loop per name; every failure runs the clean-up over what is staged so far, whose
  result is dropped.\<close>

definition give_up :: "string \<Rightarrow> string list \<Rightarrow> stage_err \<Rightarrow> 'a kop" where
  "give_up p staged e = do { _ \<leftarrow> cleanup p staged; errE e }"

fun stage_files ::
  "string \<Rightarrow> (string, string) gomap \<Rightarrow> (string, string) gomap \<Rightarrow> string list \<Rightarrow> string list \<Rightarrow> string list kop" where
  "stage_files p paths secrets staged [] = okE staged"
| "stage_files p paths secrets staged (n # ns) =
     (let directory = path_join composeRuntimeSecretsRoot p; path = (case map_of paths n of None \<Rightarrow> [] | Some q \<Rightarrow> q) in
      if path \<noteq> path_join directory n \<or> dir_name path \<noteq> directory then give_up p staged PathEscaped
      else do {
        opened \<leftarrow> create_file p n;
        case opened of
          Inl _ \<Rightarrow> give_up p staged HostCall
        | Inr _ \<Rightarrow> do {
            filled \<leftarrow> fill_file p n (case map_of secrets n of None \<Rightarrow> [] | Some s \<Rightarrow> s);
            case filled of
              Inl _ \<Rightarrow> give_up p (staged @ [n]) HostCall
            | Inr _ \<Rightarrow> stage_files p paths secrets (staged @ [n]) ns } })"

definition make_root :: "unit kop" where
  "make_root = call (\<lambda>h. case k_root h of
     None \<Rightarrow> h\<lparr>k_root := Some \<lparr>rd_safe = True, rd_projects = []\<rparr>\<rparr> | Some _ \<Rightarrow> h)"

definition make_directory :: "string \<Rightarrow> unit kop" where
  "make_directory p = do {
     h \<leftarrow> get_state;
     if map_of (projects h) p \<noteq> None then tryE probe (\<lambda>_. errE DirectoryNotNew)
     else call (\<lambda>h. set_projects (go_put p \<lparr>pd_safe = True, pd_files = []\<rparr> (projects h)) h) }"

definition orElse :: "'a kop \<Rightarrow> stage_err \<Rightarrow> 'a kop" where
  "orElse m e = do { r \<leftarrow> m; return (mapErr (\<lambda>_. e) r) }"

record executor_env =
  x_crypto :: crypto
  x_parse_float :: "string \<Rightarrow> gofloat option"
  x_yaml :: yaml
  x_lstat :: "string \<Rightarrow> lstat_result"
  x_resolver :: ScopeResolver
  x_read :: "string \<Rightarrow> string option"
  x_binding :: "string \<Rightarrow> json_text option"

text \<open>The checks before anything is staged: the project, the paths of the policy and the secrets of the binding.\<close>

definition staging_request :: "executor_env \<Rightarrow> jobj \<Rightarrow> stage_err + (string \<times> (string, string) gomap \<times> (string, string) gomap)" where
  "staging_request x inputs =
     (case stringInput inputs ''runtime_secret_binding_id'' of
        Inl _ \<Rightarrow> Inl BindingIdentifier
      | Inr bindingID \<Rightarrow>
          requireR (opaqueBindingPattern bindingID) BindingIdentifier
          (thenR (mapErr (\<lambda>e. BadPolicy (ComposeInput e)) (stringInput inputs ''root_handle'')) (\<lambda>handle.
           thenR (mapErr BadPolicy (composeFileInput inputs)) (\<lambda>fileName.
           thenR (mapErr (\<lambda>_. ScopeRefused) (Resolve (x_lstat x) (x_resolver x) handle fileName False)) (\<lambda>composePath.
           case x_read x composePath of
             None \<Rightarrow> Inl ComposeUnavailable
           | Some data \<Rightarrow>
               thenR (mapErr BadPolicy (parseComposePolicy (x_crypto x) (x_parse_float x) (x_yaml x) data)) (\<lambda>policy.
               requireR (pr_secret_files policy \<noteq> []) NoSecrets
               (thenR (mapErr BadPolicy (composeProjectInput inputs)) (\<lambda>project.
                case x_binding x bindingID of
                  None \<Rightarrow> Inl BindingUnavailable
                | Some raw \<Rightarrow>
                    thenR (mapErr BadPolicy (parseComposeRuntimeSecretsBinding raw)) (\<lambda>binding.
                    requireR (length (rb_secrets binding) = length (pr_secret_files policy)
                       \<and> (\<forall>n \<in> fst ` set (pr_secret_files policy). map_of (rb_secrets binding) n \<noteq> None)) NamesMismatch
                    (Inr (project, pr_secret_files policy, rb_secrets binding)))))))))))"

definition stageComposeRuntimeSecrets :: "executor_env \<Rightarrow> jobj \<Rightarrow> (string \<times> string list) kop" where
  "stageComposeRuntimeSecrets x inputs =
     tryE (return (staging_request x inputs)) (\<lambda>(project, paths, secrets).
     tryE (orElse recoverComposeRuntimeSecrets StaleCleanup) (\<lambda>_.
     tryE (orElse writeComposeSecretCleanupMarker MarkerNotPersisted) (\<lambda>_.
     tryE make_root (\<lambda>_. tryE probe (\<lambda>_. do {
       h \<leftarrow> get_state;
       guardE (case k_root h of None \<Rightarrow> False | Some r \<Rightarrow> rd_safe r) RootUnsafe
       (tryE (make_directory project) (\<lambda>_.
        tryE (stage_files project paths secrets [] (sort (map fst paths))) (\<lambda>staged. okE (project, staged)))) })))))"

text \<open>The broker's answer: lost, refused, or the outputs of the start.\<close>

datatype broker_answer = Lost | Refused | Started jobj

definition composeStartWithRuntimeSecrets :: "executor_env \<Rightarrow> broker_answer \<Rightarrow> jobj \<Rightarrow> jobj kop" where
  "composeStartWithRuntimeSecrets x answer inputs =
     tryE (stageComposeRuntimeSecrets x inputs) (\<lambda>(project, staged). do {
       cleaned \<leftarrow> cleanup project staged;
       case answer of
         Lost \<Rightarrow> errE (if is_err cleaned then LostCleanupFailed else ResponseLost)
       | Refused \<Rightarrow> errE (if is_err cleaned then RejectedCleanupFailed else StartRejected)
       | Started outputs \<Rightarrow>
           if is_err cleaned then errE StartedCleanupFailed
           else okE (go_put ''runtime_secrets_in_memory'' (JBool True) outputs) })"

end
