(* ===== verification/Secret_Cleanup.thy ===== *)
theory Secret_Cleanup
  imports Compose_Secrets
begin

text \<open>
  Runtime secrets do not outlive the protection of the marker: whatever fails, and wherever the process dies, a
  secret file on the host implies a durable clean-up marker, a file is unlinked only after it was overwritten, and the recovery
  of a host without faults ends with the secret root gone.
\<close>

section \<open>Files of the secret root\<close>

definition live :: "secret_host \<Rightarrow> bool" where
  "live h \<longleftrightarrow> (\<exists>(p, d) \<in> set (projects h). pd_files d \<noteq> [])"

text \<open>Secret files imply the marker; nothing but zeros was ever unlinked.\<close>

definition marked :: "secret_host \<Rightarrow> bool" where
  "marked h \<longleftrightarrow> (live h \<longrightarrow> k_marker h)"

definition wiped :: "secret_host \<Rightarrow> bool" where
  "wiped h \<longleftrightarrow> (\<forall>c \<in> set (k_unlinked h). set c \<subseteq> {CHR 0x00})"

text \<open>While a project is staged, only its directory holds files and the marker is in place.\<close>

definition staging :: "string \<Rightarrow> secret_host \<Rightarrow> bool" where
  "staging p h \<longleftrightarrow> k_marker h \<and> (\<forall>(q, d) \<in> set (projects h). q \<noteq> p \<longrightarrow> pd_files d = [])"

lemma projects_set_projects: "projects (set_projects ps h) = (if k_root h = None then [] else ps)"
  by (simp add: projects_def set_projects_def split: option.split)

lemma projects_set_files:
  "projects (set_files p fs h) = (case map_of (projects h) p of None \<Rightarrow> projects h | Some d \<Rightarrow> go_put p (d\<lparr>pd_files := fs\<rparr>) (projects h))"
proof (cases "k_root h")
  case None
  then show ?thesis by (simp add: set_files_def projects_def)
next
  case (Some r)
  then show ?thesis by (simp add: set_files_def projects_set_projects split: option.split)
qed

lemma files_set_files:
  "files_of q (set_files p fs h) = (if q = p \<and> map_of (projects h) p \<noteq> None then fs else files_of q h)"
  by (auto simp: files_of_def projects_set_files split: option.splits)

lemma host_fields [simp]:
  "k_marker (set_projects ps h) = k_marker h" "k_unlinked (set_projects ps h) = k_unlinked h"
  "k_dead (set_projects ps h) = k_dead h" "k_env (set_projects ps h) = k_env h"
  "k_marker (set_files p fs h) = k_marker h" "k_unlinked (set_files p fs h) = k_unlinked h"
  "k_dead (set_files p fs h) = k_dead h" "k_env (set_files p fs h) = k_env h"
  "k_marker (change_file p n g h) = k_marker h" "k_unlinked (change_file p n g h) = k_unlinked h"
  "k_dead (change_file p n g h) = k_dead h" "k_env (change_file p n g h) = k_env h"
  "k_marker (unlink_file p n h) = k_marker h"
  "k_dead (unlink_file p n h) = k_dead h" "k_env (unlink_file p n h) = k_env h"
  by (simp_all add: set_projects_def set_files_def change_file_def unlink_file_def split: option.split)

lemma projects_fields [simp]:
  "projects (h\<lparr>k_env := e\<rparr>) = projects h" "projects (h\<lparr>k_dead := b\<rparr>) = projects h"
  "projects (h\<lparr>k_unlinked := u\<rparr>) = projects h" "projects (h\<lparr>k_marker := b\<rparr>) = projects h"
  by (simp_all add: projects_def)

lemma files_fields [simp]:
  "files_of p (h\<lparr>k_env := e\<rparr>) = files_of p h" "files_of p (h\<lparr>k_dead := b\<rparr>) = files_of p h"
  "files_of p (h\<lparr>k_unlinked := u\<rparr>) = files_of p h" "files_of p (h\<lparr>k_marker := b\<rparr>) = files_of p h"
  by (simp_all add: files_of_def)

lemma files_change_file:
  "map_of (files_of p (change_file p n g h)) m =
     (if m = n then map_option g (map_of (files_of p h) n) else map_of (files_of p h) m)"
proof (cases "map_of (projects h) p")
  case None
  then show ?thesis by (simp add: change_file_def files_of_def)
next
  case (Some d)
  then show ?thesis by (simp add: change_file_def files_set_files split: option.split)
qed

text \<open>Rewriting the files of a project never gives files to a project that had none.\<close>

lemma set_files_only:
  assumes "(q, d) \<in> set (projects (set_files p fs h))" and "pd_files d \<noteq> []" and "fs \<noteq> [] \<longrightarrow> files_of p h \<noteq> []"
  shows "\<exists>d'. (q, d') \<in> set (projects h) \<and> pd_files d' \<noteq> []"
proof (cases "map_of (projects h) p")
  case None
  with assms show ?thesis by (auto simp: projects_set_files)
next
  case (Some dp)
  with assms(1) set_go_put [of p "dp\<lparr>pd_files := fs\<rparr>" "projects h"]
  consider "(q, d) \<in> set (projects h)" | "q = p" "d = dp\<lparr>pd_files := fs\<rparr>" by (auto simp: projects_set_files)
  then show ?thesis
  proof cases
    case 2
    with assms(2,3) Some have "pd_files dp \<noteq> []" by (simp add: files_of_def)
    with Some 2 show ?thesis by (auto dest: map_of_SomeD)
  qed (use assms(2) in blast)
qed

definition shrinks :: "(secret_host \<Rightarrow> secret_host) \<Rightarrow> bool" where
  "shrinks eff \<longleftrightarrow> (\<forall>h. k_marker (eff h) = k_marker h \<and>
     (\<forall>q d. (q, d) \<in> set (projects (eff h)) \<longrightarrow> pd_files d \<noteq> [] \<longrightarrow> (\<exists>d'. (q, d') \<in> set (projects h) \<and> pd_files d' \<noteq> [])))"

lemma shrinks_change [intro!]: "shrinks (change_file p n g)"
  by (auto simp: shrinks_def change_file_def split: option.splits dest!: set_files_only)

lemma shrinks_unlink [intro!]: "shrinks (unlink_file p n)"
  by (auto simp: shrinks_def unlink_file_def split: option.splits dest!: set_files_only)

lemma shrinks_id [intro!]: "shrinks id"
  by (auto simp: shrinks_def)

lemma shrinks_remove [intro!]: "shrinks (\<lambda>h. set_projects (go_del p (projects h)) h)"
  by (auto simp: shrinks_def projects_set_projects set_go_del split: if_splits)

lemma shrinks_root [intro!]: "shrinks (\<lambda>h. h\<lparr>k_root := None\<rparr>)"
  by (auto simp: shrinks_def projects_def)

lemma shrinks_marked: "shrinks eff \<Longrightarrow> marked h \<Longrightarrow> marked (eff h)"
  by (fastforce simp: shrinks_def marked_def live_def)

lemma shrinks_staging: "shrinks eff \<Longrightarrow> staging p h \<Longrightarrow> staging p (eff h)"
  by (fastforce simp: shrinks_def staging_def)

section \<open>Calls\<close>

text \<open>A property of the host that does not look at the script or at whether the process lives.\<close>

definition durable :: "(secret_host \<Rightarrow> bool) \<Rightarrow> bool" where
  "durable I \<longleftrightarrow> (\<forall>h e b. I (h\<lparr>k_env := e\<rparr>) = I h \<and> I (h\<lparr>k_dead := b\<rparr>) = I h)"

lemma durable_marked [intro!]: "durable marked"
  by (simp add: durable_def marked_def live_def)

lemma durable_staging [intro!]: "durable (staging p)"
  by (simp add: durable_def staging_def)

lemma durable_wiped [intro!]: "durable wiped"
  by (simp add: durable_def wiped_def)

lemma run_call:
  "run_state (call eff) h =
     (if k_dead h then (Inl Stopped, h)
      else let h' = h\<lparr>k_env := tl (k_env h)\<rparr> in
       (case k_env h of
          [] \<Rightarrow> (Inr (), eff h)
        | Works # _ \<Rightarrow> (Inr (), eff h')
        | Fails # _ \<Rightarrow> (Inl HostCall, h')
        | Fails_done # _ \<Rightarrow> (Inl HostCall, eff h')
        | Dies # _ \<Rightarrow> (Inl Stopped, h'\<lparr>k_dead := True\<rparr>)
        | Dies_done # _ \<Rightarrow> (Inl Stopped, (eff h')\<lparr>k_dead := True\<rparr>)))"
  by (simp add: call_def)

lemma triple_call:
  assumes "durable I" and "durable J" and "\<And>h. I h \<Longrightarrow> J (eff h)" and "\<And>h. I h \<Longrightarrow> J' h" and "\<And>h. J h \<Longrightarrow> J' h"
    and "durable J'"
  shows "triple I (call eff) (\<lambda>r h. J' h \<and> (r = Inr () \<longrightarrow> J h))"
  using assms
  by (auto simp: triple_def run_call durable_def Let_def split: list.splits call_outcome.splits)

lemma keeps_call:
  assumes "durable I" and "\<And>h. I h \<Longrightarrow> I (eff h)"
  shows "keeps I (call eff)"
  using triple_call [of I I eff I] assms by (auto simp: keeps_def triple_def split: prod.splits)

lemma keeps_marked_call [keeps_intros]: "shrinks eff \<Longrightarrow> keeps marked (call eff)"
  by (rule keeps_call) (auto intro: shrinks_marked)

lemma keeps_staging_call [keeps_intros]: "shrinks eff \<Longrightarrow> keeps (staging p) (call eff)"
  by (rule keeps_call) (auto intro: shrinks_staging)

lemma call_Inr:
  assumes "run_state (call eff) h = (Inr (), t)"
  shows "\<exists>e. t = eff (h\<lparr>k_env := e\<rparr>) \<and> \<not> k_dead h"
proof (cases "k_env h")
  case Nil
  then have same: "h\<lparr>k_env := []\<rparr> = h" by simp
  from assms Nil have "t = eff h \<and> \<not> k_dead h" by (simp add: run_call split: if_splits)
  with same show ?thesis by metis
next
  case (Cons oc es)
  with assms show ?thesis by (auto simp: run_call Let_def split: if_splits call_outcome.splits)
qed

section \<open>Operations that only remove\<close>

lemmas removal_defs = wipeAndRemoveComposeSecret_def wipeAndRemoveOpenComposeSecret_def overwrite_def unlinkSameFileNoSymlink_def
  remove_project_def remove_staging_def recover_secret_def recover_project_def remove_root_def

lemma removal_keeps_marked:
  shows "keeps marked (wipeAndRemoveComposeSecret p n)" and "keeps marked (wipeAndRemoveOpenComposeSecret p n)"
    and "keeps marked (remove_project p)" and "keeps marked (remove_staging p)" and "keeps marked remove_root"
    and "keeps marked (recover_project p)"
  unfolding removal_defs by (intro keeps_intros shrinks_change shrinks_unlink shrinks_id shrinks_remove shrinks_root)+

lemma removal_keeps_staging:
  shows "keeps (staging p) (wipeAndRemoveOpenComposeSecret p n)" and "keeps (staging p) (remove_staging p)"
  unfolding removal_defs by (intro keeps_intros shrinks_change shrinks_unlink shrinks_id shrinks_remove shrinks_root)+

section \<open>Files are overwritten before they are unlinked\<close>

definition zero_file :: "string \<Rightarrow> string \<Rightarrow> secret_host \<Rightarrow> bool" where
  "zero_file p n h \<longleftrightarrow> (\<forall>f. map_of (files_of p h) n = Some f \<longrightarrow> set (sf_content f) \<subseteq> {CHR 0x00})"

lemma durable_conj [intro]: "durable I \<Longrightarrow> durable J \<Longrightarrow> durable (\<lambda>h. I h \<and> J h)"
  by (simp add: durable_def)

lemma durable_imp [intro]: "durable J \<Longrightarrow> durable (\<lambda>h. b \<longrightarrow> J h)"
  by (simp add: durable_def)

lemma durable_zero [intro!]: "durable (zero_file p n)"
  by (simp add: durable_def zero_file_def)

lemma triple_probe: "durable I \<Longrightarrow> triple I probe (\<lambda>_. I)"
  using keeps_call [of I id] by (simp add: keeps_def)

lemma zero_zeroed: "zero_file p n (change_file p n zeroed h)"
  by (auto simp: zero_file_def files_change_file zeroed_def)

lemma wiped_fields [simp]: "wiped (change_file p n g h) = wiped h" "wiped (set_files p fs h) = wiped h"
  "wiped (set_projects ps h) = wiped h" "wiped (h\<lparr>k_marker := b\<rparr>) = wiped h" "wiped (h\<lparr>k_root := r\<rparr>) = wiped h"
  by (simp_all add: wiped_def)

lemma overwrite_zero: "triple wiped (overwrite p n) (\<lambda>r h. wiped h \<and> (r = Inr () \<longrightarrow> zero_file p n h))"
  unfolding overwrite_def
proof (rule triple_bind)
  let ?R = "\<lambda>r h. wiped h \<and> (r = Inr () \<longrightarrow> zero_file p n h)"
  show "triple wiped (call (change_file p n zeroed)) ?R"
  proof -
    have "triple wiped (call (change_file p n zeroed)) (\<lambda>r h. wiped h \<and> (r = Inr () \<longrightarrow> wiped h \<and> zero_file p n h))"
      by (rule triple_call) (auto intro: zero_zeroed)
    then show ?thesis by (rule triple_conseq) auto
  qed
  fix writeErr
  have probe: "triple (?R writeErr) probe (\<lambda>_. ?R writeErr)" by (rule triple_probe) auto
  show "triple (?R writeErr) (do { syncErr \<leftarrow> probe; closeErr \<leftarrow> probe;
      if is_err writeErr \<or> is_err syncErr \<or> is_err closeErr then errE CleanupFailed else okE () }) ?R"
    by (intro triple_bind [OF probe] triple_if triple_errE triple_okE) (auto simp: is_err_def split: sum.splits)
qed

lemma unlink_wiped: "triple (\<lambda>h. wiped h \<and> zero_file p n h) (unlinkSameFileNoSymlink p n) (\<lambda>_. wiped)"
proof -
  have step: "wiped (unlink_file p n h)" if "wiped h \<and> zero_file p n h" for h
    using that by (auto simp: unlink_file_def wiped_def zero_file_def split: option.splits)
  have "triple (\<lambda>h. wiped h \<and> zero_file p n h) (call (unlink_file p n)) (\<lambda>r h. wiped h \<and> (r = Inr () \<longrightarrow> wiped h))"
    by (rule triple_call) (auto intro: step)
  then have call: "triple (\<lambda>h. wiped h \<and> zero_file p n h) (call (unlink_file p n)) (\<lambda>_. wiped)"
    by (rule triple_conseq) auto
  have "triple (\<lambda>h. wiped h \<and> zero_file p n h) probe (\<lambda>_ h. wiped h \<and> zero_file p n h)"
    by (rule triple_probe) auto
  then show ?thesis unfolding unlinkSameFileNoSymlink_def by (rule triple_tryE) (auto intro: call)
qed

lemma keeps_wiped_call [keeps_intros]: "(\<And>h. wiped (eff h) = wiped h) \<Longrightarrow> keeps wiped (call eff)"
  by (rule keeps_call) auto

lemma wipe_keeps [keeps_intros]: "keeps wiped (tryE (overwrite p n) (\<lambda>_. unlinkSameFileNoSymlink p n))"
  unfolding keeps_def by (rule triple_tryE [OF overwrite_zero]) (auto intro: triple_conseq [OF unlink_wiped])

lemma wiped_id [simp]: "wiped (id h) = wiped h"
  by simp

lemma removal_keeps_wiped [keeps_intros]:
  shows "keeps wiped (wipeAndRemoveComposeSecret p n)" and "keeps wiped (wipeAndRemoveOpenComposeSecret p n)"
    and "keeps wiped (remove_project p)" and "keeps wiped (remove_staging p)" and "keeps wiped remove_root"
  unfolding wipeAndRemoveComposeSecret_def wipeAndRemoveOpenComposeSecret_def remove_project_def remove_staging_def remove_root_def
  by (intro keeps_intros wiped_fields wiped_id)+

lemma recover_project_wiped [keeps_intros]: "keeps wiped (recover_project p)"
  unfolding recover_project_def recover_secret_def by (intro keeps_intros wiped_fields wiped_id)

lemma marker_wiped [keeps_intros]: "keeps wiped clearComposeSecretCleanupMarker" "keeps wiped writeComposeSecretCleanupMarker"
  unfolding clearComposeSecretCleanupMarker_def writeComposeSecretCleanupMarker_def
  by (intro keeps_intros wiped_fields wiped_id)+

lemma recover_wiped [keeps_intros]: "keeps wiped recoverComposeRuntimeSecrets"
  unfolding recoverComposeRuntimeSecrets_def by (intro keeps_intros wiped_fields wiped_id)

lemma cleanup_wiped [keeps_intros]: "keeps wiped (cleanup p staged)"
  unfolding cleanup_def by (intro keeps_intros)

lemma stage_files_wiped [keeps_intros]: "keeps wiped (stage_files p paths secrets staged ns)"
proof (induction p paths secrets staged ns rule: stage_files.induct)
  case (2 p paths secrets staged n ns)
  then show ?case
    unfolding stage_files.simps Let_def create_file_def fill_file_def give_up_def
    by (intro keeps_intros wiped_fields wiped_id) auto
qed (auto intro: keeps_intros)

lemma make_wiped [keeps_intros]: "keeps wiped make_root" "keeps wiped (make_directory p)"
proof -
  have "wiped (case k_root h of None \<Rightarrow> h\<lparr>k_root := r\<rparr> | Some _ \<Rightarrow> h) = wiped h" for h r
    by (simp split: option.split)
  then show "keeps wiped make_root" unfolding make_root_def by (intro keeps_intros)
  show "keeps wiped (make_directory p)" unfolding make_directory_def by (intro keeps_intros wiped_fields wiped_id)
qed

lemma start_wiped: "keeps wiped (composeStartWithRuntimeSecrets x answer inputs)"
  unfolding composeStartWithRuntimeSecrets_def stageComposeRuntimeSecrets_def orElse_def
  by (cases answer) (auto intro!: keeps_intros)

section \<open>The marker protects the files\<close>

definition gone :: "secret_host \<Rightarrow> bool" where
  "gone h \<longleftrightarrow> k_root h = None"

lemma gone_not_live: "gone h \<Longrightarrow> \<not> live h"
  by (simp add: gone_def live_def projects_def)

lemma not_live_marked: "\<not> live h \<Longrightarrow> marked h"
  by (simp add: marked_def)

lemma durable_gone [intro!]: "durable gone"
  by (simp add: durable_def gone_def)

lemma durable_not_live [intro!]: "durable (\<lambda>h. \<not> live h)"
  by (simp add: durable_def live_def)

lemma clear_marker:
  assumes "durable J" and "\<And>h b. J (h\<lparr>k_marker := b\<rparr>) = J h"
  shows "triple J clearComposeSecretCleanupMarker (\<lambda>r h. J h \<and> (r = Inr () \<longrightarrow> \<not> k_marker h))"
proof -
  let ?K = "\<lambda>h. J h \<and> \<not> k_marker h"
  have K: "durable ?K" using assms(1) by (simp add: durable_def)
  have "triple J (call (\<lambda>h. h\<lparr>k_marker := False\<rparr>)) (\<lambda>r h. J h \<and> (r = Inr () \<longrightarrow> ?K h))"
    by (rule triple_call) (use assms K in auto)
  moreover have "triple ?K probe (\<lambda>_. ?K)" by (rule triple_probe [OF K])
  ultimately show ?thesis
    unfolding clearComposeSecretCleanupMarker_def
    by (auto intro!: triple_tryE elim: triple_conseq)
qed

lemmas clear_gone = clear_marker [OF durable_gone]
lemmas clear_dead = clear_marker [OF durable_not_live]

lemma triple_keeps: "keeps I m \<Longrightarrow> triple I m (\<lambda>_. I)"
  by (simp add: keeps_def)

lemma remove_root_gone: "triple marked remove_root (\<lambda>r h. marked h \<and> (r = Inr () \<longrightarrow> gone h))"
proof (rule tripleI)
  fix h r t assume "marked h" and run: "run_state remove_root h = (r, t)"
  then have "marked t" using keeps_run [OF removal_keeps_marked(5)] by blast
  moreover have "gone t" if "r = Inr ()"
    using run that by (auto simp: remove_root_def gone_def split: if_splits prod.splits sum.splits dest!: call_Inr)
  ultimately show "marked t \<and> (r = Inr () \<longrightarrow> gone t)" by blast
qed

lemma gone_marked: "gone h \<Longrightarrow> marked h"
  by (rule not_live_marked [OF gone_not_live])

lemma recover_marked:
  "triple marked recoverComposeRuntimeSecrets (\<lambda>r h. marked h \<and> (r = Inr () \<longrightarrow> gone h \<and> \<not> k_marker h))"
  (is "triple _ _ ?Q")
proof -
  have clear: "triple gone clearComposeSecretCleanupMarker ?Q"
    by (rule triple_conseq [OF clear_gone]) (auto simp: gone_def marked_def live_def projects_def)
  have root: "triple marked (tryE remove_root (\<lambda>_. clearComposeSecretCleanupMarker)) ?Q"
    by (rule triple_tryE [OF remove_root_gone]) (auto intro: triple_conseq [OF clear])
  have loop: "triple marked (forE ps recover_project) (\<lambda>_. marked)" for ps
    by (intro triple_keeps keeps_forE removal_keeps_marked)
  have probe: "triple marked probe (\<lambda>_. marked)" by (rule triple_probe) auto
  have body: "triple (\<lambda>h. marked h \<and> k_root h = k) (case k of
       None \<Rightarrow> clearComposeSecretCleanupMarker
     | Some r \<Rightarrow> guardE (rd_safe r) RootUnsafe
         (tryE probe (\<lambda>_. tryE (forE (map fst (rd_projects r)) recover_project) (\<lambda>_.
          tryE remove_root (\<lambda>_. clearComposeSecretCleanupMarker))))) ?Q" for k
  proof (rule triple_case_option, goal_cases)
    case 1
    then show ?case by (intro triple_conseq [OF clear]) (auto simp: gone_def)
  next
    case (2 r)
    have "triple marked (tryE probe (\<lambda>_. tryE (forE (map fst (rd_projects r)) recover_project) (\<lambda>_.
          tryE remove_root (\<lambda>_. clearComposeSecretCleanupMarker)))) ?Q"
      by (rule triple_tryE [OF probe], simp, rule triple_tryE [OF loop], simp, rule root)
    then show ?case by (intro triple_guardE) (auto elim: triple_conseq)
  qed
  have "triple marked (do { h \<leftarrow> get_state; case k_root h of
       None \<Rightarrow> clearComposeSecretCleanupMarker
     | Some r \<Rightarrow> guardE (rd_safe r) RootUnsafe
         (tryE probe (\<lambda>_. tryE (forE (map fst (rd_projects r)) recover_project) (\<lambda>_.
          tryE remove_root (\<lambda>_. clearComposeSecretCleanupMarker)))) }) ?Q"
  proof (rule tripleI)
    fix h r t
    assume "marked h" and "run_state (do { h \<leftarrow> get_state; case k_root h of
       None \<Rightarrow> clearComposeSecretCleanupMarker
     | Some r \<Rightarrow> guardE (rd_safe r) RootUnsafe
         (tryE probe (\<lambda>_. tryE (forE (map fst (rd_projects r)) recover_project) (\<lambda>_.
          tryE remove_root (\<lambda>_. clearComposeSecretCleanupMarker)))) }) h = (r, t)"
    then show "?Q r t" using tripleD [OF body [of "k_root h"], of h r t] by simp
  qed
  then show ?thesis
    unfolding recoverComposeRuntimeSecrets_def by (rule triple_tryE [OF probe, rotated 1]) auto
qed

lemma not_live_staging: "staging p h \<Longrightarrow> p \<notin> fst ` set (projects h) \<Longrightarrow> \<not> live h"
  by (force simp: staging_def live_def)

lemma staging_marked: "staging p h \<Longrightarrow> marked h"
  by (simp add: staging_def marked_def)

lemma remove_staging_gone:
  "triple (staging p) (remove_staging p) (\<lambda>r h. staging p h \<and> (r = Inr () \<longrightarrow> p \<notin> fst ` set (projects h)))"
proof (rule tripleI)
  fix h r t assume st: "staging p h" and run: "run_state (remove_staging p) h = (r, t)"
  then have "staging p t" using keeps_run [OF removal_keeps_staging(2)] by blast
  moreover have "p \<notin> fst ` set (projects t)" if ok: "r = Inr ()"
  proof (cases "map_of (projects h) p")
    case None
    then show ?thesis using run ok
      by (auto simp: remove_staging_def map_of_eq_None_iff split: prod.splits sum.splits dest!: call_Inr)
  next
    case (Some d)
    then show ?thesis using run ok
      by (auto simp: remove_staging_def remove_project_def projects_set_projects set_go_del
          split: if_splits prod.splits sum.splits dest!: call_Inr)
  qed
  ultimately show "staging p t \<and> (r = Inr () \<longrightarrow> p \<notin> fst ` set (projects t))" by blast
qed

lemma cleanup_marked:
  "triple (staging p) (cleanup p staged) (\<lambda>r h. marked h \<and> (r = Inr () \<longrightarrow> \<not> live h \<and> \<not> k_marker h))"
  unfolding cleanup_def
proof (rule triple_bind)
  show "triple (staging p) (for_all staged (wipeAndRemoveOpenComposeSecret p)) (\<lambda>_. staging p)"
    by (intro triple_keeps keeps_for_all removal_keeps_staging)
  fix failed :: bool
  show "triple (staging p) (do { removed \<leftarrow> remove_staging p;
      if failed \<or> is_err removed then errE CleanupFailed else clearComposeSecretCleanupMarker })
    (\<lambda>r h. marked h \<and> (r = Inr () \<longrightarrow> \<not> live h \<and> \<not> k_marker h))"
  proof (rule triple_bind [OF remove_staging_gone])
    fix removed :: "stage_err + unit"
    let ?P = "\<lambda>h. staging p h \<and> (removed = Inr () \<longrightarrow> p \<notin> fst ` set (projects h))"
    have "triple ?P clearComposeSecretCleanupMarker (\<lambda>r h. marked h \<and> (r = Inr () \<longrightarrow> \<not> live h \<and> \<not> k_marker h))"
      if "\<not> is_err removed"
    proof (rule triple_conseq [OF clear_dead])
      show "(\<not> live (h\<lparr>k_marker := b\<rparr>)) = (\<not> live h)" for h b by (simp add: live_def)
      show "\<not> live h" if "?P h" for h
        using that \<open>\<not> is_err removed\<close> not_live_staging by (cases removed) auto
    qed (simp add: marked_def)
    then show "triple ?P (if failed \<or> is_err removed then errE CleanupFailed else clearComposeSecretCleanupMarker)
        (\<lambda>r h. marked h \<and> (r = Inr () \<longrightarrow> \<not> live h \<and> \<not> k_marker h))"
      by (intro triple_if triple_errE) (auto intro: staging_marked)
  qed
qed

section \<open>Staging and starting\<close>

lemma create_keeps_staging: "keeps (staging p) (create_file p n)"
proof -
  have "staging p (set_files p fs h)" if "staging p h" for fs h
    using that by (auto simp: staging_def projects_set_files split: option.split dest!: set_mp [OF set_go_put])
  then show ?thesis unfolding create_file_def by (intro keeps_intros keeps_call) auto
qed

lemma fill_keeps_staging: "keeps (staging p) (fill_file p n secret)"
  unfolding fill_file_def by (intro keeps_intros shrinks_change shrinks_id)

lemma give_up_marked: "triple (staging p) (give_up p staged e :: 'a kop) (\<lambda>r h. marked h \<and> is_err r)"
  unfolding give_up_def
  by (rule triple_bind [OF cleanup_marked]) (auto intro!: triple_errE)

lemma stage_files_marked:
  "triple (staging p) (stage_files p paths secrets staged ns) (\<lambda>r h. marked h \<and> (\<not> is_err r \<longrightarrow> staging p h))"
proof (induction p paths secrets staged ns rule: stage_files.induct)
  case (1 p paths secrets staged)
  then show ?case by (auto intro: triple_okE staging_marked)
next
  case (2 p paths secrets staged n ns)
  let ?Q = "\<lambda>(r :: stage_err + string list) h. marked h \<and> (\<not> is_err r \<longrightarrow> staging p h)"
  have quit: "triple (staging p) (give_up p st e) ?Q" for st e
    by (rule triple_conseq [OF give_up_marked]) auto
  note create = triple_keeps [OF create_keeps_staging] and fill = triple_keeps [OF fill_keeps_staging]
  show ?case
    unfolding stage_files.simps Let_def
    by (intro triple_if quit triple_bind [OF create] triple_case_sum triple_bind [OF fill])
      (rule "2.IH" [OF refl refl]; assumption)
qed

lemma write_marker: "triple gone writeComposeSecretCleanupMarker (\<lambda>r h. gone h \<and> (r = Inr () \<longrightarrow> staging p h))"
proof -
  have st: "staging p (h\<lparr>k_marker := True\<rparr>)" if "gone h" for h
    using that by (simp add: staging_def gone_def projects_def)
  have gone_marker: "gone (h\<lparr>k_marker := b\<rparr>) = gone h" for h b by (simp add: gone_def)
  let ?K = "\<lambda>h. gone h \<and> staging p h"
  have "triple gone (call (\<lambda>h. h\<lparr>k_marker := True\<rparr>)) (\<lambda>r h. gone h \<and> (r = Inr () \<longrightarrow> ?K h))"
    by (rule triple_call) (use st in \<open>auto simp: gone_marker\<close>)
  then have rename: "triple gone (tryE (call (\<lambda>h. h\<lparr>k_marker := True\<rparr>)) (\<lambda>_. probe)) (\<lambda>r h. gone h \<and> (r = Inr () \<longrightarrow> staging p h))"
  proof (rule triple_tryE)
    have "triple ?K probe (\<lambda>_. ?K)" by (rule triple_probe) auto
    then show "triple (\<lambda>h. gone h \<and> (Inr x = Inr () \<longrightarrow> ?K h)) probe (\<lambda>r h. gone h \<and> (r = Inr () \<longrightarrow> staging p h))" for x :: unit
      by (rule triple_conseq) auto
  qed auto
  have probe: "triple gone probe (\<lambda>_. gone)" by (rule triple_probe) auto
  show ?thesis
    unfolding writeComposeSecretCleanupMarker_def by (intro triple_tryE [OF probe] rename) auto
qed

lemma triple_orElse:
  "triple P m Q \<Longrightarrow> (\<And>d h. Q (Inl d) h \<Longrightarrow> R (Inl e) h) \<Longrightarrow> (\<And>x h. Q (Inr x) h \<Longrightarrow> R (Inr x) h) \<Longrightarrow> triple P (orElse m e) R"
  unfolding orElse_def by (rule triple_bind, assumption) (auto simp: triple_def mapErr_def split: sum.split)

lemma make_keeps_staging: "keeps (staging p) make_root" "keeps (staging p) (make_directory p)"
proof -
  have "staging p (case k_root h of None \<Rightarrow> h\<lparr>k_root := Some \<lparr>rd_safe = True, rd_projects = []\<rparr>\<rparr> | Some _ \<Rightarrow> h)"
    if "staging p h" for h using that by (auto simp: staging_def projects_def split: option.split)
  then show "keeps (staging p) make_root" unfolding make_root_def by (intro keeps_call) auto
  have "staging p (set_projects (go_put p \<lparr>pd_safe = True, pd_files = []\<rparr> (projects h)) h)" if "staging p h" for h
    using that by (auto simp: staging_def projects_set_projects dest!: set_mp [OF set_go_put])
  then show "keeps (staging p) (make_directory p)"
    unfolding make_directory_def by (intro keeps_intros keeps_call) auto
qed

lemma staging_after_marker:
  "triple (staging p) (tryE make_root (\<lambda>_. tryE probe (\<lambda>_. do {
       h \<leftarrow> get_state;
       guardE (case k_root h of None \<Rightarrow> False | Some r \<Rightarrow> rd_safe r) RootUnsafe
       (tryE (make_directory p) (\<lambda>_.
        tryE (stage_files p paths secrets [] names) (\<lambda>staged. okE (p, staged)))) })))
     (\<lambda>r h. marked h \<and> (\<forall>q staged. r = Inr (q, staged) \<longrightarrow> q = p \<and> staging p h))" (is "triple _ _ ?Q")
proof -
  have quiet: "staging p h \<Longrightarrow> ?Q (Inl e) h" for e h by (auto intro: staging_marked)
  have files: "triple (staging p) (tryE (stage_files p paths secrets [] names) (\<lambda>staged. okE (p, staged))) ?Q"
    by (rule triple_tryE [OF stage_files_marked]) (auto intro!: triple_okE)
  have dir: "triple (staging p) (tryE (make_directory p) (\<lambda>_. tryE (stage_files p paths secrets [] names) (\<lambda>staged. okE (p, staged)))) ?Q"
    by (rule triple_tryE [OF triple_keeps [OF make_keeps_staging(2)] quiet files])
  have read: "triple (staging p) get_state (\<lambda>_. staging p)" by (simp add: triple_get)
  have probe: "triple (staging p) probe (\<lambda>_. staging p)" by (rule triple_probe) auto
  show ?thesis
    by (intro triple_tryE [OF triple_keeps [OF make_keeps_staging(1)]] triple_tryE [OF probe] triple_bind [OF read]
        triple_guardE dir quiet)
qed

lemma stage_marked:
  "triple marked (stageComposeRuntimeSecrets x inputs)
     (\<lambda>r h. marked h \<and> (\<forall>p staged. r = Inr (p, staged) \<longrightarrow> staging p h))" (is "triple _ _ ?Q")
proof -
  have body: "triple marked (tryE (orElse recoverComposeRuntimeSecrets StaleCleanup) (\<lambda>_.
      tryE (orElse writeComposeSecretCleanupMarker MarkerNotPersisted) (\<lambda>_.
      tryE make_root (\<lambda>_. tryE probe (\<lambda>_. do {
       h \<leftarrow> get_state;
       guardE (case k_root h of None \<Rightarrow> False | Some r \<Rightarrow> rd_safe r) RootUnsafe
       (tryE (make_directory p) (\<lambda>_.
        tryE (stage_files p paths secrets [] names) (\<lambda>staged. okE (p, staged)))) }))))) ?Q" for p paths secrets names
  proof (rule triple_tryE [where R = "\<lambda>r h. marked h \<and> (r = Inr () \<longrightarrow> gone h)"])
    show "triple marked (orElse recoverComposeRuntimeSecrets StaleCleanup) (\<lambda>r h. marked h \<and> (r = Inr () \<longrightarrow> gone h))"
      by (rule triple_orElse [OF recover_marked]) auto
    have "triple gone (orElse writeComposeSecretCleanupMarker MarkerNotPersisted) (\<lambda>r h. gone h \<and> (r = Inr () \<longrightarrow> staging p h))"
      by (rule triple_orElse [OF write_marker]) auto
    then have "triple gone (tryE (orElse writeComposeSecretCleanupMarker MarkerNotPersisted) (\<lambda>_.
      tryE make_root (\<lambda>_. tryE probe (\<lambda>_. do {
       h \<leftarrow> get_state;
       guardE (case k_root h of None \<Rightarrow> False | Some r \<Rightarrow> rd_safe r) RootUnsafe
       (tryE (make_directory p) (\<lambda>_.
        tryE (stage_files p paths secrets [] names) (\<lambda>staged. okE (p, staged)))) })))) ?Q"
      by (rule triple_tryE) (auto intro: gone_marked intro!: triple_conseq [OF staging_after_marker])
    then show "triple (\<lambda>h. marked h \<and> (Inr u = Inr () \<longrightarrow> gone h)) (tryE (orElse writeComposeSecretCleanupMarker MarkerNotPersisted) (\<lambda>_.
      tryE make_root (\<lambda>_. tryE probe (\<lambda>_. do {
       h \<leftarrow> get_state;
       guardE (case k_root h of None \<Rightarrow> False | Some r \<Rightarrow> rd_safe r) RootUnsafe
       (tryE (make_directory p) (\<lambda>_.
        tryE (stage_files p paths secrets [] names) (\<lambda>staged. okE (p, staged)))) })))) ?Q" for u :: unit
      by (rule triple_conseq) auto
  qed auto
  have pure: "triple marked (return r) (\<lambda>_. marked)" for r :: "stage_err + 'a" by (rule triple_return)
  show ?thesis
    unfolding stageComposeRuntimeSecrets_def
  proof (rule triple_tryE [OF pure], simp)
    fix request :: "string \<times> (string, string) gomap \<times> (string, string) gomap"
    obtain p paths secrets where request: "request = (p, paths, secrets)" by (cases request)
    show "triple marked (case request of (project, paths, secrets) \<Rightarrow>
        tryE (orElse recoverComposeRuntimeSecrets StaleCleanup) (\<lambda>_.
        tryE (orElse writeComposeSecretCleanupMarker MarkerNotPersisted) (\<lambda>_.
        tryE make_root (\<lambda>_. tryE probe (\<lambda>_. do {
         h \<leftarrow> get_state;
         guardE (case k_root h of None \<Rightarrow> False | Some r \<Rightarrow> rd_safe r) RootUnsafe
         (tryE (make_directory project) (\<lambda>_.
          tryE (stage_files project paths secrets [] (sort (map fst paths))) (\<lambda>staged. okE (project, staged)))) }))))) ?Q"
      unfolding request prod.case by (rule body)
  qed
qed

lemma start_marked:
  "triple marked (composeStartWithRuntimeSecrets x answer inputs) (\<lambda>r h. marked h \<and> (\<not> is_err r \<longrightarrow> \<not> live h \<and> \<not> k_marker h))"
  unfolding composeStartWithRuntimeSecrets_def
proof (rule triple_tryE [OF stage_marked])
  fix ps :: "string \<times> string list"
  obtain p staged where ps: "ps = (p, staged)" by (cases ps)
  have clean: "triple (staging p) (do { cleaned \<leftarrow> cleanup p staged;
       case answer of
         Lost \<Rightarrow> errE (if is_err cleaned then LostCleanupFailed else ResponseLost)
       | Refused \<Rightarrow> errE (if is_err cleaned then RejectedCleanupFailed else StartRejected)
       | Started outputs \<Rightarrow>
           if is_err cleaned then errE StartedCleanupFailed
           else okE (go_put ''runtime_secrets_in_memory'' (JBool True) outputs) })
     (\<lambda>r h. marked h \<and> (\<not> is_err r \<longrightarrow> \<not> live h \<and> \<not> k_marker h))"
    by (rule triple_bind [OF cleanup_marked], cases answer)
      (auto intro!: triple_errE triple_okE triple_if simp: is_err_def split: sum.splits)
  show "triple (\<lambda>h. marked h \<and> (\<forall>q st. (Inr ps :: stage_err + _) = Inr (q, st) \<longrightarrow> staging q h))
     (case ps of (project, staged) \<Rightarrow> do { cleaned \<leftarrow> cleanup project staged;
       case answer of
         Lost \<Rightarrow> errE (if is_err cleaned then LostCleanupFailed else ResponseLost)
       | Refused \<Rightarrow> errE (if is_err cleaned then RejectedCleanupFailed else StartRejected)
       | Started outputs \<Rightarrow>
           if is_err cleaned then errE StartedCleanupFailed
           else okE (go_put ''runtime_secrets_in_memory'' (JBool True) outputs) })
     (\<lambda>r h. marked h \<and> (\<not> is_err r \<longrightarrow> \<not> live h \<and> \<not> k_marker h))"
    unfolding ps by (simp, rule triple_conseq [OF clean]) auto
qed auto

section \<open>Every reachable host\<close>

text \<open>
  The life of an executor: it starts (a restart after a crash, or after a reboot that emptied the memory file
  system) and recovers, or it runs a Compose start. The outcomes of the system calls of each step are arbitrary.
\<close>

inductive executor_step :: "secret_host \<Rightarrow> secret_host \<Rightarrow> bool" where
  restart: "executor_step h (snd (run_state recoverComposeRuntimeSecrets (h\<lparr>k_dead := False, k_env := env\<rparr>)))"
| reboot: "executor_step h (snd (run_state recoverComposeRuntimeSecrets (h\<lparr>k_root := None, k_dead := False, k_env := env\<rparr>)))"
| start: "executor_step h (snd (run_state (composeStartWithRuntimeSecrets x answer inputs) (h\<lparr>k_env := env\<rparr>)))"

inductive_cases executor_stepE: "executor_step h t"

definition fresh_host :: "secret_host \<Rightarrow> bool" where
  "fresh_host h \<longleftrightarrow> k_root h = None \<and> k_unlinked h = []"

interpretation executor: machine fresh_host executor_step "\<lambda>h. marked h \<and> wiped h"
proof unfold_locales
  show "marked h \<and> wiped h" if "fresh_host h" for h
    using that by (simp add: fresh_host_def marked_def live_def projects_def wiped_def)
  fix h t assume inv: "marked h \<and> wiped h" and step: "executor_step h t"
  have again: "marked (h\<lparr>k_dead := b, k_env := e\<rparr>) \<and> wiped (h\<lparr>k_dead := b, k_env := e\<rparr>)" for b e
    using inv by (simp add: marked_def live_def wiped_def)
  have env: "marked (h\<lparr>k_env := e\<rparr>) \<and> wiped (h\<lparr>k_env := e\<rparr>)" for e
    using inv by (simp add: marked_def live_def wiped_def)
  have boot: "marked (h\<lparr>k_root := None, k_dead := b, k_env := e\<rparr>) \<and> wiped (h\<lparr>k_root := None, k_dead := b, k_env := e\<rparr>)" for b e
    using inv by (simp add: marked_def live_def projects_def wiped_def)
  have recovered: "marked (snd (run_state recoverComposeRuntimeSecrets g)) \<and> wiped (snd (run_state recoverComposeRuntimeSecrets g))"
    if "marked g \<and> wiped g" for g
    using that tripleD [OF recover_marked] keepsD [OF recover_wiped] prod.collapse by metis
  have started: "marked (snd (run_state (composeStartWithRuntimeSecrets x a i) g)) \<and> wiped (snd (run_state (composeStartWithRuntimeSecrets x a i) g))"
    if "marked g \<and> wiped g" for g x a i
    using that tripleD [OF start_marked] keepsD [OF start_wiped] prod.collapse by metis
  from step show "marked t \<and> wiped t"
    by (cases rule: executor_stepE) (use recovered started again env boot in blast)+
qed

text \<open>
  \<^bold>\<open>C5\<close>. Runtime secrets never outlive their protection. In every state reachable by restarts, reboots and
  Compose starts, with any system call failing and the process dying at any point, a secret file on the host implies that the
  durable clean-up marker is present, and every file that was unlinked had been overwritten with zeros. A start that reports
  success leaves no secret file and no marker.
\<close>

theorem secrets_crash_safe:
  assumes "fresh_host h0" and "executor_step\<^sup>*\<^sup>* h0 h"
  shows "marked h \<and> wiped h
    \<and> (run_state (composeStartWithRuntimeSecrets x answer inputs) h = (Inr outputs, t) \<longrightarrow> \<not> live t \<and> \<not> k_marker t)"
proof -
  from executor.inv_reachable [OF assms] have inv: "marked h \<and> wiped h" .
  moreover have "\<not> live t \<and> \<not> k_marker t" if "run_state (composeStartWithRuntimeSecrets x answer inputs) h = (Inr outputs, t)"
    using tripleD [OF start_marked _ that] inv by simp
  ultimately show ?thesis by blast
qed

section \<open>Recovery ends\<close>

definition calm_host :: "secret_host \<Rightarrow> bool" where
  "calm_host h \<longleftrightarrow> k_env h = [] \<and> \<not> k_dead h"

lemma calm_call: "calm_host h \<Longrightarrow> run_state (call eff) h = (Inr (), eff h)"
  by (simp add: calm_host_def run_call)

lemma calm_fields [simp]:
  "calm_host (set_projects ps h) = calm_host h" "calm_host (set_files p fs h) = calm_host h"
  "calm_host (change_file p n g h) = calm_host h" "calm_host (unlink_file p n h) = calm_host h"
  "calm_host (h\<lparr>k_root := r\<rparr>) = calm_host h" "calm_host (h\<lparr>k_marker := b\<rparr>) = calm_host h"
  by (simp_all add: calm_host_def)

text \<open>A host that the recovery accepts: known names, safe directories and files.\<close>

definition tidy_project :: "string \<Rightarrow> project_dir \<Rightarrow> bool" where
  "tidy_project p d \<longleftrightarrow> composeProjectPattern p \<and> pd_safe d
     \<and> (\<forall>(n, f) \<in> set (pd_files d). composeNamePattern n \<and> \<not> file_unsafe f)"

definition tidy :: "secret_host \<Rightarrow> bool" where
  "tidy h \<longleftrightarrow> (\<forall>r \<in> set_option (k_root h). rd_safe r) \<and> distinct (map fst (projects h))
     \<and> (\<forall>(p, d) \<in> set (projects h). tidy_project p d)"

lemma wipe_result:
  assumes "calm_host h" and "map_of (files_of p h) n = Some f" and "\<not> file_unsafe f"
  shows "run_state (wipeAndRemoveComposeSecret p n) h =
    (Inr (), unlink_file p n (change_file p n zeroed (change_file p n (\<lambda>f. f\<lparr>sf_mode := 384\<rparr>) h)))"
  using assms by (simp add: wipeAndRemoveComposeSecret_def overwrite_def unlinkSameFileNoSymlink_def calm_call)

text \<open>What wiping does to the directories: one project loses files, everything else stays.\<close>

definition only_changes :: "string \<Rightarrow> project_dir \<Rightarrow> secret_host \<Rightarrow> secret_host \<Rightarrow> bool" where
  "only_changes p d h t \<longleftrightarrow> calm_host t \<and> map_of (projects t) = (map_of (projects h))(p \<mapsto> d)
     \<and> fst ` set (projects t) = fst ` set (projects h) \<and> map_option rd_safe (k_root t) = map_option rd_safe (k_root h)"

lemma only_changes_refl: "calm_host h \<Longrightarrow> map_of (projects h) p = Some d \<Longrightarrow> only_changes p d h h"
  by (auto simp: only_changes_def)

lemma only_changes_trans: "only_changes p d h t \<Longrightarrow> only_changes p d' t u \<Longrightarrow> only_changes p d' h u"
  by (simp add: only_changes_def)

lemma only_changes_set_files:
  assumes "calm_host h" and "map_of (projects h) p = Some d"
  shows "only_changes p (d\<lparr>pd_files := fs\<rparr>) h (set_files p fs h)"
proof -
  have "p \<in> fst ` set (projects h)" using assms(2) by (force dest: map_of_SomeD)
  then show ?thesis using assms
    by (auto simp: only_changes_def projects_set_files) (simp add: set_files_def set_projects_def option.map_comp comp_def)
qed

lemma only_changes_unlinked: "only_changes p d h (t\<lparr>k_unlinked := u\<rparr>) = only_changes p d h t"
  by (simp add: only_changes_def calm_host_def)

lemma change_file_found:
  assumes "map_of (projects h) p = Some d" and "map_of (pd_files d) n = Some f"
  shows "change_file p n g h = set_files p (go_put n (g f) (pd_files d)) h"
  using assms by (simp add: change_file_def files_of_def)

lemma go_del_put: "go_del k (go_put k v m) = go_del k m"
  by (induction m) auto

lemma wipe_effect:
  assumes "calm_host h" and "map_of (projects h) p = Some d" and "map_of (pd_files d) n = Some f"
  shows "only_changes p (d\<lparr>pd_files := go_del n (pd_files d)\<rparr>) h
    (unlink_file p n (change_file p n zeroed (change_file p n (\<lambda>f. f\<lparr>sf_mode := 384\<rparr>) h)))"
proof -
  let ?f1 = "f\<lparr>sf_mode := 384\<rparr>" and ?h1 = "change_file p n (\<lambda>f. f\<lparr>sf_mode := 384\<rparr>) h"
  let ?d1 = "d\<lparr>pd_files := go_put n ?f1 (pd_files d)\<rparr>"
  have s1: "only_changes p ?d1 h ?h1"
    unfolding change_file_found [OF assms(2,3)] by (rule only_changes_set_files [OF assms(1,2)])
  then have h1: "calm_host ?h1" "map_of (projects ?h1) p = Some ?d1" "map_of (pd_files ?d1) n = Some ?f1"
    by (simp_all add: only_changes_def)
  let ?h2 = "change_file p n zeroed ?h1" and ?d2 = "?d1\<lparr>pd_files := go_put n (zeroed ?f1) (pd_files ?d1)\<rparr>"
  have s2: "only_changes p ?d2 ?h1 ?h2"
    unfolding change_file_found [OF h1(2,3)] by (rule only_changes_set_files [OF h1(1,2)])
  then have h2: "calm_host ?h2" "map_of (projects ?h2) p = Some ?d2" "map_of (pd_files ?d2) n = Some (zeroed ?f1)"
    by (simp_all add: only_changes_def)
  have "only_changes p (?d2\<lparr>pd_files := go_del n (pd_files ?d2)\<rparr>) ?h2 (set_files p (go_del n (pd_files ?d2)) ?h2)"
    by (rule only_changes_set_files [OF h2(1,2)])
  then have "only_changes p (d\<lparr>pd_files := go_del n (pd_files d)\<rparr>) ?h2 (unlink_file p n ?h2)"
    using h2 by (simp add: unlink_file_def files_of_def only_changes_unlinked go_del_put)
  with s1 s2 show ?thesis by (meson only_changes_trans)
qed

lemma recover_secret_done:
  assumes "calm_host h" and "map_of (projects h) p = Some d" and "composeNamePattern n"
    and "\<forall>(n, f) \<in> set (pd_files d). \<not> file_unsafe f"
  obtains t where "run_state (recover_secret p n) h = (Inr (), t)" and "only_changes p (d\<lparr>pd_files := go_del n (pd_files d)\<rparr>) h t"
proof (cases "map_of (pd_files d) n")
  case None
  then have "n \<notin> fst ` set (pd_files d)" by (simp add: map_of_eq_None_iff)
  then have "d\<lparr>pd_files := go_del n (pd_files d)\<rparr> = d" by (simp add: delete_id)
  moreover have "run_state (recover_secret p n) h = (Inr (), h)"
    using assms None by (simp add: recover_secret_def wipeAndRemoveComposeSecret_def files_of_def)
  ultimately show thesis using that only_changes_refl assms(1,2) by metis
next
  case (Some f)
  then have "(n, f) \<in> set (pd_files d)" by (rule map_of_SomeD)
  with assms(4) have "\<not> file_unsafe f" by blast
  moreover have "map_of (files_of p h) n = Some f" using assms(2) Some by (simp add: files_of_def)
  ultimately show thesis
    using that wipe_result [OF assms(1)] wipe_effect [OF assms(1,2) Some] assms(3) by (simp add: recover_secret_def)
qed

lemma recover_secrets_done:
  assumes "calm_host h" and "map_of (projects h) p = Some d" and "\<forall>n \<in> set ns. composeNamePattern n"
    and "\<forall>(n, f) \<in> set (pd_files d). \<not> file_unsafe f"
  obtains t where "run_state (forE ns (recover_secret p)) h = (Inr (), t)"
    and "only_changes p (d\<lparr>pd_files := filter (\<lambda>e. fst e \<notin> set ns) (pd_files d)\<rparr>) h t"
  using assms
proof (induction ns arbitrary: h d thesis)
  case Nil
  show ?case by (rule Nil(1) [of h]) (use Nil in \<open>simp_all add: only_changes_refl\<close>)
next
  case (Cons n ns)
  let ?d = "d\<lparr>pd_files := go_del n (pd_files d)\<rparr>"
  have "composeNamePattern n" using Cons.prems(4) by simp
  from recover_secret_done [OF Cons.prems(2,3) this Cons.prems(5)] obtain u where
    u: "run_state (recover_secret p n) h = (Inr (), u)" and hu: "only_changes p ?d h u" .
  from hu have here: "calm_host u" "map_of (projects u) p = Some ?d" by (simp_all add: only_changes_def)
  have rest: "\<forall>n \<in> set ns. composeNamePattern n" "\<forall>(n, f) \<in> set (pd_files ?d). \<not> file_unsafe f"
    using Cons.prems(4,5) by (auto simp: set_go_del)
  from Cons.IH [OF _ here rest] obtain t where t: "run_state (forE ns (recover_secret p)) u = (Inr (), t)"
    and ut: "only_changes p (?d\<lparr>pd_files := filter (\<lambda>e. fst e \<notin> set ns) (pd_files ?d)\<rparr>) u t" by blast
  have "filter (\<lambda>e. fst e \<notin> set ns) (go_del n (pd_files d)) = filter (\<lambda>e. fst e \<notin> set (n # ns)) (pd_files d)"
    by (auto simp: AList.delete_eq intro: filter_cong)
  with ut have "only_changes p (d\<lparr>pd_files := filter (\<lambda>e. fst e \<notin> set (n # ns)) (pd_files d)\<rparr>) u t" by simp
  with hu have "only_changes p (d\<lparr>pd_files := filter (\<lambda>e. fst e \<notin> set (n # ns)) (pd_files d)\<rparr>) h t"
    by (rule only_changes_trans)
  moreover have "run_state (forE (n # ns) (recover_secret p)) h = (Inr (), t)" using u t by simp
  ultimately show ?case using Cons.prems(1) by blast
qed

lemma recover_project_done:
  assumes "calm_host h" and "map_of (projects h) p = Some d" and "tidy_project p d"
  obtains t where "run_state (recover_project p) h = (Inr (), t)" and "calm_host t"
    and "map_of (projects t) = (map_of (projects h))(p := None)" and "fst ` set (projects t) = fst ` set (projects h) - {p}"
    and "map_option rd_safe (k_root t) = map_option rd_safe (k_root h)"
proof -
  have names: "\<forall>n \<in> set (map fst (pd_files d)). composeNamePattern n" and files: "\<forall>(n, f) \<in> set (pd_files d). \<not> file_unsafe f"
    using assms(3) by (auto simp: tidy_project_def)
  from recover_secrets_done [OF assms(1,2) names files] obtain u where
    u: "run_state (forE (map fst (pd_files d)) (recover_secret p)) h = (Inr (), u)"
    and hu: "only_changes p (d\<lparr>pd_files := filter (\<lambda>e. fst e \<notin> set (map fst (pd_files d))) (pd_files d)\<rparr>) h u" .
  have "filter (\<lambda>e. fst e \<notin> set (map fst (pd_files d))) (pd_files d) = []" by (auto simp: filter_empty_conv)
  with hu have hu: "only_changes p (d\<lparr>pd_files := []\<rparr>) h u" by simp
  then have calm: "calm_host u" and empty: "files_of p u = []" by (simp_all add: only_changes_def files_of_def)
  let ?t = "set_projects (go_del p (projects u)) u"
  have "map_of (projects u) p \<noteq> None" using hu by (simp add: only_changes_def)
  then have root: "k_root u \<noteq> None" by (auto simp: projects_def split: option.splits)
  have fs: "files_of p h = pd_files d" using assms(2) by (simp add: files_of_def)
  have "run_state (recover_project p) h = (Inr (), ?t)"
    using assms u calm empty fs by (simp add: recover_project_def tidy_project_def remove_project_def calm_call)
  moreover have "map_of (projects ?t) = (map_of (projects h))(p := None)"
    using hu root by (auto simp: projects_set_projects only_changes_def fun_eq_iff)
  moreover have "fst ` set (projects ?t) = fst ` set (projects h) - {p}"
    using hu root by (auto simp: projects_set_projects only_changes_def)
  moreover have "map_option rd_safe (k_root ?t) = map_option rd_safe (k_root h)"
    using hu by (simp add: only_changes_def set_projects_def option.map_comp comp_def)
  ultimately show thesis using that calm by simp
qed

lemma recover_projects_done:
  assumes "calm_host h" and "distinct ps" and "\<forall>p \<in> set ps. \<exists>d. map_of (projects h) p = Some d \<and> tidy_project p d"
  obtains t where "run_state (forE ps recover_project) h = (Inr (), t)" and "calm_host t"
    and "fst ` set (projects t) = fst ` set (projects h) - set ps" and "map_option rd_safe (k_root t) = map_option rd_safe (k_root h)"
  using assms
proof (induction ps arbitrary: h thesis)
  case Nil
  show ?case by (rule Nil(1) [of h]) (use Nil in simp_all)
next
  case (Cons p ps)
  from Cons.prems(4) obtain d where d: "map_of (projects h) p = Some d" "tidy_project p d" by auto
  from recover_project_done [OF Cons.prems(2) d] obtain u where u: "run_state (recover_project p) h = (Inr (), u)" "calm_host u"
    "map_of (projects u) = (map_of (projects h))(p := None)" "fst ` set (projects u) = fst ` set (projects h) - {p}"
    "map_option rd_safe (k_root u) = map_option rd_safe (k_root h)" .
  have "\<forall>q \<in> set ps. \<exists>d. map_of (projects u) q = Some d \<and> tidy_project q d"
    using Cons.prems(3,4) u(3) by auto
  from Cons.IH [OF _ u(2) _ this] Cons.prems(3) obtain t where t: "run_state (forE ps recover_project) u = (Inr (), t)" "calm_host t"
    "fst ` set (projects t) = fst ` set (projects u) - set ps" "map_option rd_safe (k_root t) = map_option rd_safe (k_root u)" by auto
  show ?case by (rule Cons.prems(1) [of t]) (use u t in auto)
qed

text \<open>
  \<^bold>\<open>C31\<close>. Recovery ends with a clean host: when no system call fails and the recovery finds only known names and
  safe files, it succeeds, removes every project directory and the secret root, and clears the marker; every file it unlinked had been
  overwritten. Restarting the executor after a crash therefore removes what the crash left.
\<close>

theorem recovery_completes:
  assumes "k_env h = []" and "\<not> k_dead h" and "tidy h" and "wiped h"
  shows "\<exists>t. run_state recoverComposeRuntimeSecrets h = (Inr (), t) \<and> k_root t = None \<and> \<not> k_marker t \<and> wiped t"
proof -
  have calm: "calm_host h" using assms by (simp add: calm_host_def)
  have "\<exists>t. run_state recoverComposeRuntimeSecrets h = (Inr (), t) \<and> k_root t = None \<and> \<not> k_marker t"
  proof (cases "k_root h")
    case None
    with calm show ?thesis
      by (simp add: recoverComposeRuntimeSecrets_def clearComposeSecretCleanupMarker_def calm_call)
  next
    case (Some r)
    let ?ps = "map fst (rd_projects r)"
    have ps: "projects h = rd_projects r" using Some by (simp add: projects_def)
    have dist: "distinct ?ps" using assms(3) by (simp add: tidy_def ps)
    have each: "\<forall>p \<in> set ?ps. \<exists>d. map_of (projects h) p = Some d \<and> tidy_project p d"
    proof
      fix p assume "p \<in> set ?ps"
      then obtain d where "map_of (projects h) p = Some d" using ps by (metis map_of_eq_None_iff not_None_eq set_map)
      moreover then have "tidy_project p d" using assms(3) by (auto simp: tidy_def dest: map_of_SomeD)
      ultimately show "\<exists>d. map_of (projects h) p = Some d \<and> tidy_project p d" by blast
    qed
    from recover_projects_done [OF calm dist each] obtain t where t: "run_state (forE ?ps recover_project) h = (Inr (), t)" "calm_host t"
      "fst ` set (projects t) = fst ` set (projects h) - set ?ps" "map_option rd_safe (k_root t) = map_option rd_safe (k_root h)" .
    then have "projects t = []" using ps by simp
    moreover have "rd_safe r" using assms(3) Some by (simp add: tidy_def)
    ultimately show ?thesis using t(1,2) Some calm
      by (simp add: recoverComposeRuntimeSecrets_def clearComposeSecretCleanupMarker_def remove_root_def calm_call)
  qed
  with keeps_run [OF recover_wiped assms(4)] show ?thesis by blast
qed

definition crashed_host :: secret_host where
  "crashed_host = \<lparr>k_marker = True, k_root = Some \<lparr>rd_safe = True, rd_projects = [(''askio_mig_ab'', \<lparr>pd_safe = True,
     pd_files = [(''dbkey'', \<lparr>sf_safe = True, sf_content = ''s3cret'', sf_mode = 292\<rparr>)]\<rparr>)]\<rparr>, k_unlinked = [], k_env = [], k_dead = False\<rparr>"

theorem recovery_completes_witness:
  "\<exists>t. run_state recoverComposeRuntimeSecrets crashed_host = (Inr (), t) \<and> k_root t = None \<and> \<not> k_marker t"
proof -
  have "tidy crashed_host" by code_simp
  moreover have "k_env crashed_host = []" "\<not> k_dead crashed_host" "wiped crashed_host" by (simp_all add: crashed_host_def wiped_def)
  ultimately show ?thesis using recovery_completes [of crashed_host] by blast
qed

definition clean_host :: secret_host where
  "clean_host = \<lparr>k_marker = False, k_root = None, k_unlinked = [], k_env = [], k_dead = False\<rparr>"

theorem secrets_crash_safe_witness:
  "let h = snd (run_state recoverComposeRuntimeSecrets (clean_host\<lparr>k_dead := False, k_env := [Dies]\<rparr>)) in marked h \<and> wiped h \<and> k_dead h"
proof -
  let ?h = "snd (run_state recoverComposeRuntimeSecrets (clean_host\<lparr>k_dead := False, k_env := [Dies]\<rparr>))"
  have "fresh_host clean_host" by (simp add: fresh_host_def clean_host_def)
  moreover have "executor_step\<^sup>*\<^sup>* clean_host ?h" by (rule r_into_rtranclp) (rule restart)
  ultimately have "marked ?h \<and> wiped ?h" using secrets_crash_safe by blast
  moreover have "k_dead ?h" by code_simp
  ultimately show ?thesis by (simp add: Let_def)
qed

end
