(* ===== verification/File_Manifest.thy ===== *)
theory File_Manifest
  imports Scope Task_Envelope Go_Results
begin

text \<open>
  Manifests of file trees (\<open>internal/migration/files.go\<close>): the source walks a tree and lists its entries, the
  target accepts a list only when it is ordered, safe to unpack and within the signed limit, and both sides check
  that a file system has room.

  A tree is the list of the entries a walk visits below its root, each with what \<open>Lstat\<close> and the open file
  show of it. \<open>progress n\<close> says whether the caller lets the walk go on after \<open>n\<close> entries (it also stands
  for a cancelled context). Hashes and the digest of a manifest use the \<open>crypto\<close> parameters.
\<close>

section \<open>Data\<close>

definition maximumManifestEntries :: nat where
  "maximumManifestEntries = 250000"

definition maximumManifestBytes :: int64 where
  "maximumManifestBytes = 500 * 1024 * 1024 * 1024"

definition fileManifestSchema :: string where
  "fileManifestSchema = ''operations.migration.file-manifest.v1''"

record FileManifestEntry =
  me_relative :: string
  me_type :: string
  me_size :: int64
  me_mode :: nat
  me_modified :: int64
  me_sha256 :: string

record FileManifest =
  fm_schema_version :: string
  fm_entries :: "FileManifestEntry list"

record FileManifestSummary =
  ms_manifest :: FileManifest
  ms_digest :: string
  ms_file_count :: nat
  ms_directory_count :: nat
  ms_total_bytes :: int64

record stat_info =
  st_perm :: nat
  st_seconds :: int
  st_nlink :: nat

datatype fnode = DirNode stat_info | FileNode stat_info string | LinkNode | SpecialNode

type_synonym ftree = "(string \<times> fnode) list"

datatype manifest_err =
    RootUnavailable | TooManyEntries | RelativeInvalid | SymlinkBlocked | HardLinked | SizeLimit | SpecialFile | WalkStopped
  | ManifestContract | ManifestOrdering | ManifestPath | BelowFile | DirectoryEntry | FileDigestInvalid | SignedLimit
  | EntryType | ManifestDigest | JoinUnsafe | JoinEscaped | CacheScope | CacheRemoval | CacheUnsafe | CacheSymlink | CacheEntry

definition entry_json :: "FileManifestEntry \<Rightarrow> jval" where
  "entry_json e = JObj ([(''relative'', JStr (me_relative e)), (''type'', JStr (me_type e)), (''size_bytes'', JInt (me_size e)),
     (''mode'', JInt (int (me_mode e))), (''modified_unix_nano'', JInt (me_modified e))]
     @ (if me_sha256 e = [] then [] else [(''sha256'', JStr (me_sha256 e))]))"

definition manifest_json :: "FileManifest \<Rightarrow> jval" where
  "manifest_json m = JObj [(''schema_version'', JStr (fm_schema_version m)), (''entries'', JArr (map entry_json (fm_entries m)))]"

definition manifest_digest :: "crypto \<Rightarrow> FileManifest \<Rightarrow> string" where
  "manifest_digest cr m = Digest (float_text cr) (sha256_hex cr) (manifest_json m)"

definition hashOpenFile :: "crypto \<Rightarrow> string \<Rightarrow> string" where
  "hashOpenFile cr content = ''sha256:'' @ sha256_hex cr content"

definition fileDigestPattern :: "string \<Rightarrow> bool" where
  "fileDigestPattern = after_prefix ''sha256:'' (\<lambda>h. length h = 64 \<and> list_all is_lower_hex h)"

section \<open>Building a manifest\<close>

definition openRegularNoFollow :: "fnode \<Rightarrow> manifest_err + (stat_info \<times> string)" where
  "openRegularNoFollow node =
     (case node of
        FileNode info content \<Rightarrow> requireR (st_nlink info \<le> 1) HardLinked (Inr (info, content))
      | LinkNode \<Rightarrow> Inl SymlinkBlocked
      | _ \<Rightarrow> Inl SpecialFile)"

definition dir_entry :: "string \<Rightarrow> stat_info \<Rightarrow> FileManifestEntry" where
  "dir_entry relative info = \<lparr>me_relative = relative, me_type = ''directory'', me_size = 0, me_mode = st_perm info,
     me_modified = wrap64 (st_seconds info * 1000000000), me_sha256 = []\<rparr>"

definition file_entry :: "crypto \<Rightarrow> string \<Rightarrow> stat_info \<Rightarrow> string \<Rightarrow> FileManifestEntry" where
  "file_entry cr relative info content = \<lparr>me_relative = relative, me_type = ''file'', me_size = int (length content), me_mode = st_perm info,
     me_modified = wrap64 (st_seconds info * 1000000000), me_sha256 = hashOpenFile cr content\<rparr>"

definition add_entry :: "(nat \<Rightarrow> bool) \<Rightarrow> FileManifestEntry \<Rightarrow> FileManifestSummary \<Rightarrow> manifest_err + FileManifestSummary" where
  "add_entry progress e s =
     (let es = fm_entries (ms_manifest s) @ [e] in
      requireR (length es mod 1000 = 0 \<longrightarrow> progress (length es)) WalkStopped
        (Inr (s\<lparr>ms_manifest := (ms_manifest s)\<lparr>fm_entries := es\<rparr>\<rparr>)))"

definition visit :: "crypto \<Rightarrow> (nat \<Rightarrow> bool) \<Rightarrow> string \<times> fnode \<Rightarrow> FileManifestSummary \<Rightarrow> manifest_err + FileManifestSummary" where
  "visit cr progress named s =
     (let relative = fst named in
      requireR (length (fm_entries (ms_manifest s)) < maximumManifestEntries) TooManyEntries
      (requireR (relative \<noteq> dot \<and> CHR 0x00 \<notin> set relative) RelativeInvalid
      (case snd named of
         LinkNode \<Rightarrow> Inl SymlinkBlocked
       | SpecialNode \<Rightarrow> Inl SpecialFile
       | DirNode info \<Rightarrow> add_entry progress (dir_entry relative info) (s\<lparr>ms_directory_count := ms_directory_count s + 1\<rparr>)
       | FileNode info content \<Rightarrow>
           thenR (openRegularNoFollow (snd named)) (\<lambda>_.
             let total = wrap64 (ms_total_bytes s + int (length content)) in
             requireR (total \<le> maximumManifestBytes) SizeLimit
               (add_entry progress (file_entry cr relative info content)
                 (s\<lparr>ms_file_count := ms_file_count s + 1, ms_total_bytes := total\<rparr>))))))"

definition empty_summary :: FileManifestSummary where
  "empty_summary = \<lparr>ms_manifest = \<lparr>fm_schema_version = fileManifestSchema, fm_entries = []\<rparr>, ms_digest = [],
     ms_file_count = 0, ms_directory_count = 0, ms_total_bytes = 0\<rparr>"

text \<open>The root is given as \<^const>\<open>None\<close> when it is missing, no directory or a symbolic link.\<close>

definition buildFileManifest :: "crypto \<Rightarrow> (nat \<Rightarrow> bool) \<Rightarrow> ftree option \<Rightarrow> manifest_err + FileManifestSummary" where
  "buildFileManifest cr progress root =
     (case root of
        None \<Rightarrow> Inl RootUnavailable
      | Some tree \<Rightarrow>
          thenR (foldR (visit cr progress) tree empty_summary) (\<lambda>s.
          let manifest = (ms_manifest s)\<lparr>fm_entries := sort_key me_relative (fm_entries (ms_manifest s))\<rparr> in
          Inr (s\<lparr>ms_manifest := manifest, ms_digest := manifest_digest cr manifest\<rparr>)))"

section \<open>Accepting a manifest\<close>

text \<open>The loop \<open>for parent := filepath.Dir(clean); parent != "."; parent = filepath.Dir(parent)\<close>; every round drops an
  element, so the length of the path bounds the rounds.\<close>

fun parents :: "nat \<Rightarrow> string \<Rightarrow> string list" where
  "parents 0 p = []"
| "parents (Suc n) p = (let d = dir_name p in if d = dot then [] else d # parents n d)"

record acceptance =
  ac_previous :: string
  ac_types :: "(string, string) gomap"
  ac_summary :: FileManifestSummary

definition accept_kind :: "int64 \<Rightarrow> FileManifestEntry \<Rightarrow> FileManifestSummary \<Rightarrow> manifest_err + FileManifestSummary" where
  "accept_kind maximumBytes e s =
     (if me_type e = ''directory'' then
        requireR (me_size e = 0 \<and> me_sha256 e = []) DirectoryEntry (Inr (s\<lparr>ms_directory_count := ms_directory_count s + 1\<rparr>))
      else if me_type e = ''file'' then
        requireR (0 \<le> me_size e \<and> fileDigestPattern (me_sha256 e)) FileDigestInvalid
        (let total = wrap64 (ms_total_bytes s + me_size e) in
         requireR (\<not> (total > maximumBytes \<or> total > maximumManifestBytes)) SignedLimit
           (Inr (s\<lparr>ms_file_count := ms_file_count s + 1, ms_total_bytes := total\<rparr>)))
      else Inl EntryType)"

definition accept_entry :: "int64 \<Rightarrow> FileManifestEntry \<Rightarrow> acceptance \<Rightarrow> manifest_err + acceptance" where
  "accept_entry maximumBytes e a =
     requireR (me_relative e \<noteq> [] \<and> ac_previous a < me_relative e \<and> CHR 0x5C \<notin> set (me_relative e)
        \<and> me_mode e \<le> 511 \<and> 0 \<le> me_modified e) ManifestOrdering
     (thenR (mapErr (\<lambda>_. ManifestPath) (cleanRelative (me_relative e))) (\<lambda>cl.
      requireR (cl \<noteq> dot \<and> cl = me_relative e) ManifestPath
      (requireR (list_all (\<lambda>p. map_of (ac_types a) p \<noteq> Some ''file'') (parents (length cl) cl)) BelowFile
      (thenR (accept_kind maximumBytes e (ac_summary a)) (\<lambda>s.
       Inr \<lparr>ac_previous = me_relative e, ac_types = go_put (me_relative e) (me_type e) (ac_types a), ac_summary = s\<rparr>)))))"

definition validateTransferredManifest :: "crypto \<Rightarrow> FileManifest \<Rightarrow> string \<Rightarrow> int64 \<Rightarrow> manifest_err + FileManifestSummary" where
  "validateTransferredManifest cr manifest expectedDigest maximumBytes =
     requireR (fm_schema_version manifest = fileManifestSchema \<and> length (fm_entries manifest) \<le> maximumManifestEntries) ManifestContract
     (thenR (foldR (accept_entry maximumBytes) (fm_entries manifest)
        \<lparr>ac_previous = [], ac_types = [], ac_summary = empty_summary\<lparr>ms_manifest := manifest\<rparr>\<rparr>) (\<lambda>a.
      requireR (manifest_digest cr manifest = expectedDigest) ManifestDigest
        (Inr ((ac_summary a)\<lparr>ms_digest := manifest_digest cr manifest\<rparr>))))"

definition safeManifestJoin :: "string \<Rightarrow> string \<Rightarrow> manifest_err + string" where
  "safeManifestJoin root relative =
     thenR (mapErr (\<lambda>_. JoinUnsafe) (cleanRelative relative)) (\<lambda>cl.
     requireR (cl \<noteq> dot \<and> cl = relative) JoinUnsafe
     (let target = path_join root cl in
      case path_rel root target of
        None \<Rightarrow> Inl JoinEscaped
      | Some rel \<Rightarrow> requireR (\<not> escapes rel) JoinEscaped (Inr target)))"

section \<open>Capacity\<close>

definition maximumSignedInt64 :: int64 where
  "maximumSignedInt64 = 2 ^ 63 - 1"

definition fileSyncReserveBytes :: int64 where
  "fileSyncReserveBytes = 16 * 1024 * 1024"

definition fileSyncReservePercent :: int64 where
  "fileSyncReservePercent = 15"

text \<open>\<open>blocks\<close> and \<open>blockSize\<close> are unsigned 64-bit; their product is taken modulo \<open>2\<^bsup>64\<^esup>\<close> and converted.\<close>

definition saturatedFileSystemBytes :: "int \<Rightarrow> int \<Rightarrow> int64" where
  "saturatedFileSystemBytes blocks blockSize =
     (if blocks = 0 \<or> blockSize = 0 then 0
      else if blocks > maximumSignedInt64 div blockSize then maximumSignedInt64
      else wrap64 (blocks * blockSize mod 2 ^ 64))"

text \<open>Go's integer division truncates towards zero.\<close>

definition go_quot :: "int \<Rightarrow> int \<Rightarrow> int" where
  "go_quot a b = sgn a * sgn b * (\<bar>a\<bar> div \<bar>b\<bar>)"

definition go_rem :: "int \<Rightarrow> int \<Rightarrow> int" where
  "go_rem a b = a - b * go_quot a b"

definition capacityReserve :: "int64 \<Rightarrow> int64" where
  "capacityReserve totalBytes =
     (let reserve = wrap64 (wrap64 (go_quot totalBytes 100 * fileSyncReservePercent)
            + go_quot (wrap64 (go_rem totalBytes 100 * fileSyncReservePercent)) 100)
      in if reserve < fileSyncReserveBytes then fileSyncReserveBytes else reserve)"

definition hasFileSystemCapacity :: "int64 \<Rightarrow> int64 \<Rightarrow> int64 \<Rightarrow> bool" where
  "hasFileSystemCapacity availableBytes totalBytes requiredBytes =
     (if availableBytes < 0 \<or> totalBytes \<le> 0 \<or> requiredBytes < 0 then False
      else let reserve = capacityReserve totalBytes in
        if requiredBytes > wrap64 (maximumSignedInt64 - reserve) then False
        else availableBytes \<ge> wrap64 (requiredBytes + reserve))"

text \<open>\<open>statfs\<close>: blocks in total, blocks available, block size.\<close>

definition ensureFileSystemCapacity :: "(int \<times> int \<times> int) option \<Rightarrow> int64 \<Rightarrow> bool" where
  "ensureFileSystemCapacity statfs requiredBytes =
     (case statfs of
        None \<Rightarrow> False
      | Some (blocks, avail, bsize) \<Rightarrow>
          hasFileSystemCapacity (saturatedFileSystemBytes avail bsize) (saturatedFileSystemBytes blocks bsize) requiredBytes)"

text \<open>The entries of a transfer cache: directories, symbolic links, regular files with their block count, others.\<close>

datatype cache_node = CacheDir | CacheLink | CacheFile int | CacheOther

definition add_allocated :: "cache_node \<Rightarrow> int64 \<Rightarrow> manifest_err + int64" where
  "add_allocated node allocated =
     (case node of
        CacheLink \<Rightarrow> Inl CacheSymlink
      | CacheDir \<Rightarrow> Inr allocated
      | CacheOther \<Rightarrow> Inl CacheEntry
      | CacheFile blocks \<Rightarrow>
          requireR (0 \<le> blocks) CacheEntry
          (let entryBytes = saturatedFileSystemBytes blocks 512 in
           Inr (if allocated > wrap64 (maximumSignedInt64 - entryBytes) then maximumSignedInt64 else wrap64 (allocated + entryBytes))))"

datatype cache_root = NoCache | BadCache | CacheTree "cache_node list"

definition allocatedTransferCacheBytes :: "cache_root \<Rightarrow> manifest_err + int64" where
  "allocatedTransferCacheBytes root =
     (case root of NoCache \<Rightarrow> Inr 0 | BadCache \<Rightarrow> Inl CacheUnsafe | CacheTree nodes \<Rightarrow> foldR add_allocated nodes 0)"

definition is_hex :: "char \<Rightarrow> bool" where
  "is_hex c \<longleftrightarrow> is_lower_hex c \<or> 65 \<le> (of_char c :: nat) \<and> (of_char c :: nat) \<le> 70"

text \<open>\<open>remove_all\<close> is \<open>os.RemoveAll\<close>: whether it removed the path.\<close>

definition removeTransferCache :: "(string \<Rightarrow> bool) \<Rightarrow> string \<Rightarrow> string \<Rightarrow> manifest_err + unit" where
  "removeTransferCache remove_all stateDir cacheRoot =
     (let base = base_name cacheRoot in
      requireR (dir_name cacheRoot = path_join stateDir ''transfer-cache'' \<and> length base = 32 \<and> list_all is_hex base) CacheScope
        (requireR (remove_all cacheRoot) CacheRemoval (Inr ())))"

end
