(* ===== verification/Manifest_Safety.thy ===== *)
theory Manifest_Safety
  imports File_Manifest
begin

text \<open>
  An accepted manifest can be unpacked: its paths are safe, ordered and consistent, and its size is what it
  declares; the manifest a source builds of a well-formed tree is accepted by the target; the capacity check is exact.
\<close>

section \<open>Capacity\<close>

lemma quot_nonneg: "0 \<le> a \<Longrightarrow> 0 < b \<Longrightarrow> go_quot a b = a div b"
  by (cases "a = 0") (simp_all add: go_quot_def)

lemma rem_nonneg: "0 \<le> a \<Longrightarrow> 0 < b \<Longrightarrow> go_rem a b = a mod b"
  by (simp add: go_rem_def quot_nonneg minus_mult_div_eq_mod)

text \<open>The reserve, computed in two parts so that nothing overflows, is fifteen percent.\<close>

lemma capacityReserve_eq:
  assumes "0 \<le> whole" and "whole < 2 ^ 63"
  shows "capacityReserve whole = max (16 * 1024 * 1024) (whole * 15 div 100)"
proof -
  let ?q = "whole div 100" and ?r = "whole mod 100"
  have r: "0 \<le> ?r" "?r < 100" and q: "0 \<le> ?q" "?q \<le> whole div 100" using assms by simp_all
  have qb: "?q * 100 \<le> whole" by simp
  have fit1: "in_int64 (?q * 15)" using q qb assms by (simp add: in_int64_def)
  have "in_int64 (x * 15)" if "0 \<le> x" "x < 100" for x using that by (simp add: in_int64_def)
  then have fit2: "in_int64 (?r * 15)" using r by blast
  have t: "whole = ?q * 100 + ?r" by simp
  have "whole * 15 = ?q * 15 * 100 + ?r * 15" using t by linarith
  then have "whole * 15 div 100 = (?q * 15 * 100 + ?r * 15) div 100" by (rule arg_cong)
  also have "\<dots> = ?q * 15 + ?r * 15 div 100" by simp
  finally have eq: "whole * 15 div 100 = ?q * 15 + ?r * 15 div 100" .
  have "0 \<le> whole * 15 div 100" using assms(1) by (simp add: pos_imp_zdiv_nonneg_iff)
  moreover have "whole * 15 div 100 \<le> whole" using zdiv_mono1 [of "whole * 15" "whole * 100" 100] assms(1) by simp
  ultimately have "in_int64 (?q * 15 + ?r * 15 div 100)"
    unfolding eq [symmetric] using assms(2) by (intro in_int64_nonneg) linarith+
  with fit1 fit2 r show ?thesis
    unfolding capacityReserve_def
    by (simp add: quot_nonneg rem_nonneg assms(1) fileSyncReservePercent_def fileSyncReserveBytes_def eq Let_def)
qed

text \<open>
  \<^bold>\<open>C33\<close>. The capacity check is exact on every pair of 64-bit sizes: it answers yes exactly when the sizes are not negative, the
  file system is not empty, and the bytes available are at least the bytes required plus the reserve of fifteen percent (at least
  16 MiB), computed without overflow. The sizes themselves are the products of blocks and block size, capped at the largest
  64-bit integer.
\<close>

theorem capacity_check_exact:
  assumes "in_int64 available" and "in_int64 whole" and "in_int64 required"
    and "0 \<le> blocks" and "0 \<le> blockSize"
  shows "(hasFileSystemCapacity available whole required \<longleftrightarrow>
       0 \<le> available \<and> 0 < whole \<and> 0 \<le> required \<and> required + max (16 * 1024 * 1024) (whole * 15 div 100) \<le> available)
    \<and> saturatedFileSystemBytes blocks blockSize = min (blocks * blockSize) (2 ^ 63 - 1)"
proof
  let ?R = "max (16 * 1024 * 1024) (whole * 15 div 100)"
  show "hasFileSystemCapacity available whole required \<longleftrightarrow>
       0 \<le> available \<and> 0 < whole \<and> 0 \<le> required \<and> required + ?R \<le> available"
  proof (cases "available < 0 \<or> whole \<le> 0 \<or> required < 0")
    case True
    then show ?thesis by (auto simp: hasFileSystemCapacity_def)
  next
    case False
    have R: "capacityReserve whole = ?R" using capacityReserve_eq False assms(2) by (simp add: in_int64_def)
    have "0 < whole" using False by simp
    then have le: "whole * 15 div 100 \<le> whole" using zdiv_mono1 [of "whole * 15" "whole * 100" 100] by simp
    have top: "whole < 2 ^ 63" using assms(2) by (simp add: in_int64_def)
    have "0 \<le> max (16 * 1024 * 1024) d \<and> max (16 * 1024 * 1024) d < 2 ^ 63" if "d \<le> whole" for d
      using that top by (simp add: max_def)
    then have bound: "0 \<le> ?R" "?R < 2 ^ 63" using le by blast+
    then have w: "wrap64 (maximumSignedInt64 - ?R) = 2 ^ 63 - 1 - ?R"
      by (simp add: maximumSignedInt64_def in_int64_def)
    show ?thesis
    proof (cases "required > 2 ^ 63 - 1 - ?R")
      case True
      moreover have "available < 2 ^ 63" using assms(1) by (simp add: in_int64_def)
      ultimately have "\<not> required + ?R \<le> available" by linarith
      with True False R w show ?thesis by (simp add: hasFileSystemCapacity_def Let_def)
    next
      case fits: False
      then have "in_int64 (required + ?R)" using False bound by (simp add: in_int64_def)
      with fits False R w show ?thesis by (simp add: hasFileSystemCapacity_def Let_def)
    qed
  qed
  show "saturatedFileSystemBytes blocks blockSize = min (blocks * blockSize) (2 ^ 63 - 1)"
  proof (cases "blocks = 0 \<or> blockSize = 0")
    case True
    then show ?thesis by (auto simp: saturatedFileSystemBytes_def)
  next
    case False
    then have pos: "0 < blockSize" "0 < blocks" using assms(4,5) by auto
    have "blocks \<le> maximumSignedInt64 div blockSize \<longleftrightarrow> blocks * blockSize \<le> maximumSignedInt64"
    proof
      assume "blocks \<le> maximumSignedInt64 div blockSize"
      then have "blocks * blockSize \<le> maximumSignedInt64 div blockSize * blockSize" using pos by simp
      also have "\<dots> \<le> maximumSignedInt64" using pos div_mult_mod_eq [of maximumSignedInt64 blockSize]
        pos_mod_sign [of blockSize maximumSignedInt64] by linarith
      finally show "blocks * blockSize \<le> maximumSignedInt64" .
    next
      assume "blocks * blockSize \<le> maximumSignedInt64"
      then have "blocks * blockSize div blockSize \<le> maximumSignedInt64 div blockSize" using pos by (intro zdiv_mono1)
      then show "blocks \<le> maximumSignedInt64 div blockSize" using pos by simp
    qed
    moreover have "in_int64 (blocks * blockSize)" if "blocks * blockSize \<le> maximumSignedInt64"
      using that pos by (intro in_int64_nonneg) (simp_all add: maximumSignedInt64_def)
    ultimately show ?thesis using pos
      by (auto simp: saturatedFileSystemBytes_def maximumSignedInt64_def min_def not_less)
  qed
qed

theorem capacity_check_exact_witness:
  "\<not> hasFileSystemCapacity 100000000 1000000000 0 \<and> hasFileSystemCapacity 200000000 1000000000 50000000
   \<and> saturatedFileSystemBytes 18446744073709551615 4096 = 2 ^ 63 - 1"
  using capacity_check_exact [of 100000000 1000000000 0 0 0] capacity_check_exact [of 200000000 1000000000 50000000 18446744073709551615 4096]
  by (simp add: in_int64_def)

section \<open>Paths of entries\<close>

lemma split_plain: "es \<noteq> [] \<Longrightarrow> \<forall>e \<in> set es. plain_elem e \<Longrightarrow> split_on slash (render_path False es) = es"
  using split_on_join [of es slash] by (simp add: render_path_def plain_elem_def)

lemma elems_plain: "es \<noteq> [] \<Longrightarrow> \<forall>e \<in> set es. plain_elem e \<Longrightarrow> path_elems (render_path False es) = es"
  by (rule path_elems_render) (rule clean_listI [where n = 0 and qs = es]; simp)

lemma dir_plain:
  assumes "es \<noteq> []" and "\<forall>e \<in> set es. plain_elem e"
  shows "dir_name (render_path False es) = render_path False (butlast es)"
proof (cases "butlast es = []")
  case True
  then have "tl es = []" using assms(1) by (cases es) (auto split: if_splits)
  then have "dir_name (render_path False es) = dot" unfolding dir_name_def Let_def split_plain [OF assms] by simp
  with True show ?thesis by (simp add: render_path_def)
next
  case False
  then have tl: "tl es \<noteq> []" by (cases es) auto
  let ?j = "join_with [slash] (butlast es)"
  have plain: "\<forall>e \<in> set (butlast es). plain_elem e" using assms(2) by (meson in_set_butlastD)
  have j: "?j = render_path False (butlast es)" using False by (simp add: render_path_def)
  have abs: "\<not> is_abs ?j" unfolding j using is_abs_render [of False "butlast es"] plain
    by (simp add: clean_listI [where n = 0 and qs = "butlast es"])
  have "?j \<noteq> []" using join_with_hd [of "butlast es"] False plain by (auto simp: plain_elem_def)
  then have abs': "\<not> is_abs (?j @ [slash])" using abs by (cases ?j) (simp_all add: is_abs_def has_prefix_def)
  have "split_on slash (?j @ [slash]) = butlast es @ [[]]"
    using split_on_snoc [of slash ?j "[]"] split_plain [OF False plain] j by simp
  then have "path_elems (?j @ [slash]) = butlast es"
    unfolding path_elems_def using abs' plain by (simp add: clean_elems_append clean_elems_plain)
  then have "clean (?j @ [slash]) = render_path False (butlast es)"
    using abs' by (simp add: clean_def)
  then show ?thesis using tl by (simp add: dir_name_def split_plain [OF assms] Let_def)
qed

lemma render_dot_iff: "\<forall>e \<in> set es. plain_elem e \<Longrightarrow> render_path False es = dot \<longleftrightarrow> es = []"
proof
  assume plain: "\<forall>e \<in> set es. plain_elem e" and eq: "render_path False es = dot"
  show "es = []"
  proof (rule ccontr)
    assume "es \<noteq> []"
    then have "es = split_on slash dot" using split_plain plain eq by metis
    then have "es = [dot]" by (simp add: path_consts)
    with plain show False by (simp add: plain_elem_def)
  qed
qed (simp add: render_path_def)

text \<open>The parents the loop visits are the proper prefixes of the path.\<close>

lemma parents_plain:
  assumes "\<forall>e \<in> set es. plain_elem e" and "length es \<le> Suc n" and "0 < k" and "k < length es"
  shows "render_path False (take k es) \<in> set (parents n (render_path False es))"
  using assms
proof (induction n arbitrary: es)
  case 0
  then show ?case by simp
next
  case (Suc n)
  let ?b = "butlast es"
  have plain: "\<forall>e \<in> set ?b. plain_elem e" using Suc.prems(1) by (meson in_set_butlastD)
  have ne: "es \<noteq> []" and b: "?b \<noteq> []" using Suc.prems(3,4) by (cases es; auto)+
  have step: "parents (Suc n) (render_path False es) = render_path False ?b # parents n (render_path False ?b)"
    using dir_plain [OF ne Suc.prems(1)] render_dot_iff [OF plain] b by (simp add: Let_def)
  show ?case
  proof (cases "k = length ?b")
    case True
    then have "take k es = ?b" by (simp add: butlast_conv_take)
    with step show ?thesis by simp
  next
    case False
    then have k: "k < length ?b" using Suc.prems(4) by simp
    have "take k es = take k ?b" using k by (simp add: take_butlast)
    moreover have "length ?b \<le> Suc n" using Suc.prems(2) by simp
    ultimately show ?thesis using Suc.IH [OF plain _ Suc.prems(3) k] step by simp
  qed
qed

lemma length_render: "\<forall>e \<in> set es. plain_elem e \<Longrightarrow> length es \<le> length (render_path False es)"
proof (induction es)
  case (Cons e es)
  then have "e \<noteq> []" by (simp add: plain_elem_def)
  then have "0 < length e" by simp
  with Cons show ?case by (cases es) (auto simp: render_path_def Suc_le_eq)
qed simp

lemma relative_elems:
  assumes "cleanRelative r = Inr r" and "r \<noteq> dot"
  shows "path_elems r \<noteq> []" and "\<forall>e \<in> set (path_elems r). plain_elem e" and "render_path False (path_elems r) = r"
    and "\<not> is_abs r" and "r \<noteq> []" and "clean r = r"
proof -
  note r = cleanRelative_plain [OF assms(1)]
  show "\<forall>e \<in> set (path_elems r). plain_elem e" "\<not> is_abs r" "r \<noteq> []" "clean r = r" using r by simp_all
  show eq: "render_path False (path_elems r) = r" using r by (simp add: clean_def)
  show "path_elems r \<noteq> []"
  proof
    assume "path_elems r = []"
    with eq have "r = dot" by (simp add: render_path_def)
    with assms(2) show False by simp
  qed
qed

section \<open>What acceptance checked\<close>

lemma accept_entry_checked:
  assumes "accept_entry mx e a = Inr a'"
  shows "ac_previous a < me_relative e" "me_relative e \<noteq> []" "cleanRelative (me_relative e) = Inr (me_relative e)" "me_relative e \<noteq> dot"
    "list_all (\<lambda>p. map_of (ac_types a) p \<noteq> Some ''file'') (parents (length (me_relative e)) (me_relative e))"
    "me_type e = ''directory'' \<or> me_type e = ''file''" "accept_kind mx e (ac_summary a) = Inr (ac_summary a')"
    "ac_previous a' = me_relative e" "ac_types a' = go_put (me_relative e) (me_type e) (ac_types a)"
proof -
  from assms have kind: "accept_kind mx e (ac_summary a) = Inr (ac_summary a')"
    by (auto simp: accept_entry_def result_inv)
  then show "me_type e = ''directory'' \<or> me_type e = ''file''" by (auto simp: accept_kind_def split: if_splits)
  show "accept_kind mx e (ac_summary a) = Inr (ac_summary a')" by (rule kind)
qed (use assms in \<open>auto simp: accept_entry_def result_inv\<close>)

definition accepted_prefix :: "FileManifestEntry list \<Rightarrow> acceptance \<Rightarrow> bool" where
  "accepted_prefix ys a \<longleftrightarrow> sorted_wrt (<) (map me_relative ys) \<and> (\<forall>e \<in> set ys. me_relative e \<le> ac_previous a)
     \<and> (\<forall>e \<in> set ys. map_of (ac_types a) (me_relative e) = Some (me_type e))"

lemma accepted_prefix_fold:
  assumes "foldR (accept_entry mx) ys a = Inr b" and "accepted_prefix [] a"
  shows "accepted_prefix ys b"
  using assms(1)
proof (induction ys arbitrary: b rule: rev_induct)
  case Nil
  then show ?case using assms(2) by (simp add: accepted_prefix_def)
next
  case (snoc e ys)
  then obtain u where u: "foldR (accept_entry mx) ys a = Inr u" and e: "accept_entry mx e u = Inr b"
    by (auto simp: foldR_append result_inv)
  note inv = snoc.IH [OF u] and checked = accept_entry_checked [OF e]
  have less: "\<forall>x \<in> set ys. me_relative x < me_relative e"
    using inv checked(1) by (auto simp: accepted_prefix_def intro: le_less_trans)
  then have "\<forall>x \<in> set ys. me_relative x \<noteq> me_relative e" by auto
  with inv less checked(8,9) show ?case by (auto simp: accepted_prefix_def sorted_wrt_append intro: less_imp_le)
qed

lemma accepted_prefix_start: "accepted_prefix [] a"
  by (simp add: accepted_prefix_def)

lemma prefix_less: "zs \<noteq> [] \<Longrightarrow> xs < (xs @ zs :: 'a::linorder list)"
  by (induction xs) (simp_all add: neq_Nil_conv, auto)

lemma join_append: "xs \<noteq> [] \<Longrightarrow> ys \<noteq> [] \<Longrightarrow> join_with [c] (xs @ ys) = join_with [c] xs @ c # join_with [c] ys"
proof (induction xs)
  case (Cons x xs)
  then show ?case by (cases xs; cases ys) auto
qed simp

lemma render_prefix_less:
  assumes "0 < k" and "k < length es"
  shows "render_path False (take k es) < render_path False es"
proof -
  have ne: "take k es \<noteq> []" "drop k es \<noteq> []" using assms by auto
  have "render_path False es = join_with [slash] (take k es @ drop k es)" using assms by (auto simp: render_path_def)
  also have "\<dots> = render_path False (take k es) @ slash # join_with [slash] (drop k es)"
    using ne by (subst join_append) (simp_all add: render_path_def)
  finally have eq: "render_path False es = render_path False (take k es) @ slash # join_with [slash] (drop k es)" .
  show ?thesis by (subst eq) (rule prefix_less; simp)
qed

lemma manifest_fold:
  assumes "validateTransferredManifest cr m d mx = Inr s"
  obtains a where "foldR (accept_entry mx) (fm_entries m)
      \<lparr>ac_previous = [], ac_types = [], ac_summary = empty_summary\<lparr>ms_manifest := m\<rparr>\<rparr> = Inr a"
    and "manifest_digest cr m = d" and "s = (ac_summary a)\<lparr>ms_digest := d\<rparr>"
  using assms by (auto simp: validateTransferredManifest_def result_inv)

lemma accepted_below:
  assumes run: "foldR (accept_entry mx) es a = Inr b" and "accepted_prefix [] a"
    and e: "e \<in> set es" "me_type e = ''file''" and e': "e' \<in> set es"
  shows "\<not> strict_prefix (path_elems (me_relative e)) (path_elems (me_relative e'))"
proof
  assume pre: "strict_prefix (path_elems (me_relative e)) (path_elems (me_relative e'))"
  from foldR_visits [OF run e'] obtain ys zs u v where es: "es = ys @ e' # zs" and u: "foldR (accept_entry mx) ys a = Inr u"
    and v: "accept_entry mx e' u = Inr v" by metis
  note checked = accept_entry_checked [OF v]
  let ?es' = "path_elems (me_relative e')"
  note elems' = relative_elems [OF checked(3,4)]
  from foldR_visits [OF run e(1)] obtain w w' where "accept_entry mx e w = Inr w'" by metis
  note elems = relative_elems [OF accept_entry_checked(3,4) [OF this]]
  obtain rest where rest: "?es' = path_elems (me_relative e) @ rest" "rest \<noteq> []"
    using pre by (auto simp: strict_prefix_def prefix_def)
  define k where "k = length (path_elems (me_relative e))"
  have k: "0 < k" "k < length ?es'" using elems(1) rest by (auto simp: k_def)
  have rel: "me_relative e = render_path False (take k ?es')" using elems(3) rest by (simp add: k_def)
  have less: "me_relative e < me_relative e'"
    using render_prefix_less [OF k] rel elems'(3) by simp
  have inv: "accepted_prefix es b" and prior: "accepted_prefix ys u"
    using accepted_prefix_fold [OF run assms(2)] accepted_prefix_fold [OF u assms(2)] by simp_all
  have "e \<in> set ys"
  proof (rule ccontr)
    assume "e \<notin> set ys"
    then have "e = e' \<or> e \<in> set zs" using e(1) es by auto
    moreover have "\<forall>x \<in> set zs. me_relative e' < me_relative x"
      using inv es by (auto simp: accepted_prefix_def sorted_wrt_append)
    ultimately show False using less by auto
  qed
  then have "map_of (ac_types u) (me_relative e) = Some ''file''" using prior e(2) by (simp add: accepted_prefix_def)
  moreover have "me_relative e \<in> set (parents (length (me_relative e')) (me_relative e'))"
    unfolding rel using parents_plain [OF elems'(2) _ k, of "length (me_relative e')"] length_render [OF elems'(2)] elems'(3) by simp
  ultimately show False using checked(5) by (auto simp: list_all_iff)
qed

lemma join_relative:
  assumes "cleanRelative r = Inr r" and "r \<noteq> dot" and "is_abs root"
  shows "\<exists>t. safeManifestJoin root r = Inr t \<and> path_elems t = path_elems root @ path_elems r"
proof -
  note r = relative_elems [OF assms(1,2)]
  note join = path_join_elems [OF assms(3) r(4,5,2) r(6) [symmetric]]
  have "path_rel root (path_join root r) = Some (render_path False (path_elems r))"
    by (rule path_rel_below [OF assms(3) join(2,1)])
  then have "safeManifestJoin root r = Inr (path_join root r)"
    using assms(1,2) escapes_plain [OF r(2)] by (simp add: safeManifestJoin_def Let_def)
  with join(1) show ?thesis by blast
qed

text \<open>
  \<^bold>\<open>C14\<close>. An accepted manifest is safe to unpack: it has the expected digest; its entries are strictly
  ordered, so no path occurs twice; every entry is a file or a directory whose path consists of plain elements and, joined to any
  absolute root, lies below that root; and no entry lies below an entry that is a file, wherever it stands in the list.
\<close>

theorem manifest_accepted_safe:
  assumes "validateTransferredManifest cr m d mx = Inr s"
  shows "manifest_digest cr m = d \<and> ms_digest s = d \<and> sorted_wrt (<) (map me_relative (fm_entries m))
    \<and> (\<forall>e \<in> set (fm_entries m). (me_type e = ''directory'' \<or> me_type e = ''file'')
         \<and> path_elems (me_relative e) \<noteq> [] \<and> (\<forall>x \<in> set (path_elems (me_relative e)). plain_elem x)
         \<and> (\<forall>root. is_abs root \<longrightarrow> (\<exists>t. safeManifestJoin root (me_relative e) = Inr t
              \<and> path_elems t = path_elems root @ path_elems (me_relative e))))
    \<and> (\<forall>e \<in> set (fm_entries m). \<forall>e' \<in> set (fm_entries m). me_type e = ''file'' \<longrightarrow>
         \<not> strict_prefix (path_elems (me_relative e)) (path_elems (me_relative e')))"
proof -
  from assms obtain a where run: "foldR (accept_entry mx) (fm_entries m)
      \<lparr>ac_previous = [], ac_types = [], ac_summary = empty_summary\<lparr>ms_manifest := m\<rparr>\<rparr> = Inr a"
    and d: "manifest_digest cr m = d" and s: "s = (ac_summary a)\<lparr>ms_digest := d\<rparr>" by (rule manifest_fold)
  have sorted: "sorted_wrt (<) (map me_relative (fm_entries m))"
    using accepted_prefix_fold [OF run accepted_prefix_start] by (simp add: accepted_prefix_def)
  have each: "(me_type e = ''directory'' \<or> me_type e = ''file'')
         \<and> path_elems (me_relative e) \<noteq> [] \<and> (\<forall>x \<in> set (path_elems (me_relative e)). plain_elem x)
         \<and> (\<forall>root. is_abs root \<longrightarrow> (\<exists>t. safeManifestJoin root (me_relative e) = Inr t
              \<and> path_elems t = path_elems root @ path_elems (me_relative e)))" if "e \<in> set (fm_entries m)" for e
  proof -
    from foldR_visits [OF run that] obtain u v where "accept_entry mx e u = Inr v" by metis
    note checked = accept_entry_checked [OF this]
    show ?thesis using checked(6) relative_elems(1,2) [OF checked(3,4)] join_relative [OF checked(3,4)] by blast
  qed
  show ?thesis using d s sorted each accepted_below [OF run accepted_prefix_start] by simp
qed

section \<open>Sizes\<close>

definition declared_bytes :: "FileManifestEntry list \<Rightarrow> int" where
  "declared_bytes es = sum_list (map me_size (filter (\<lambda>e. me_type e = ''file'') es))"

lemma accept_kind_total:
  assumes "accept_kind mx e s = Inr t" and "0 \<le> ms_total_bytes s" and "ms_total_bytes s \<le> maximumManifestBytes" and "me_size e \<le> 2 ^ 62"
  shows "ms_total_bytes t = ms_total_bytes s + (if me_type e = ''file'' then me_size e else 0)"
    and "0 \<le> ms_total_bytes t" and "ms_total_bytes t \<le> maximumManifestBytes" and "me_type e = ''file'' \<Longrightarrow> ms_total_bytes t \<le> mx"
proof -
  have fits: "0 \<le> me_size e \<Longrightarrow> in_int64 (ms_total_bytes s + me_size e)"
    using assms(2-4) by (simp add: in_int64_def maximumManifestBytes_def)
  show "ms_total_bytes t = ms_total_bytes s + (if me_type e = ''file'' then me_size e else 0)"
    using assms(1) fits by (auto simp: accept_kind_def result_inv Let_def split: if_splits)
  show "0 \<le> ms_total_bytes t" "ms_total_bytes t \<le> maximumManifestBytes"
    using assms(1-3) fits by (auto simp: accept_kind_def result_inv Let_def split: if_splits)
  show "ms_total_bytes t \<le> mx" if "me_type e = ''file''"
    using assms(1) that by (auto simp: accept_kind_def result_inv Let_def split: if_splits)
qed

lemma accept_fold_total:
  assumes "foldR (accept_entry mx) es a = Inr b" and "ms_total_bytes (ac_summary a) = 0" and "\<forall>e \<in> set es. me_size e \<le> 2 ^ 62" and "0 \<le> mx"
  shows "ms_total_bytes (ac_summary b) = declared_bytes es \<and> 0 \<le> ms_total_bytes (ac_summary b)
    \<and> ms_total_bytes (ac_summary b) \<le> maximumManifestBytes \<and> ms_total_bytes (ac_summary b) \<le> mx"
  using assms(1,3)
proof (induction es arbitrary: b rule: rev_induct)
  case Nil
  then show ?case using assms(2,4) by (simp add: declared_bytes_def maximumManifestBytes_def)
next
  case (snoc e es)
  then obtain u where u: "foldR (accept_entry mx) es a = Inr u" and e: "accept_entry mx e u = Inr b"
    by (auto simp: foldR_append result_inv)
  have ih: "ms_total_bytes (ac_summary u) = declared_bytes es" "0 \<le> ms_total_bytes (ac_summary u)"
    "ms_total_bytes (ac_summary u) \<le> maximumManifestBytes" "ms_total_bytes (ac_summary u) \<le> mx"
    using snoc.IH [OF u] snoc.prems(2) by simp_all
  have small: "me_size e \<le> 2 ^ 62" using snoc.prems(2) by simp
  note kind = accept_kind_total [OF accept_entry_checked(7) [OF e] ih(2,3) small]
  show ?case using kind ih by (auto simp: declared_bytes_def)
qed

text \<open>
  The byte count of an accepted manifest is the sum of the declared file sizes and respects the signed
  limit and the 500 GiB limit, as long as no single declared size exceeds \<open>2\<^bsup>62\<^esup>\<close>.
\<close>

theorem manifest_total_exact:
  assumes "validateTransferredManifest cr m d mx = Inr s" and "\<forall>e \<in> set (fm_entries m). me_size e \<le> 2 ^ 62" and "0 \<le> mx"
  shows "ms_total_bytes s = declared_bytes (fm_entries m) \<and> 0 \<le> ms_total_bytes s
    \<and> ms_total_bytes s \<le> mx \<and> ms_total_bytes s \<le> 500 * 2 ^ 30"
proof -
  from assms(1) obtain a where run: "foldR (accept_entry mx) (fm_entries m)
      \<lparr>ac_previous = [], ac_types = [], ac_summary = empty_summary\<lparr>ms_manifest := m\<rparr>\<rparr> = Inr a"
    and s: "s = (ac_summary a)\<lparr>ms_digest := d\<rparr>" by (rule manifest_fold)
  from accept_fold_total [OF run _ assms(2,3)] show ?thesis
    using s by (simp add: empty_summary_def maximumManifestBytes_def)
qed

definition sample_file :: "string \<Rightarrow> int64 \<Rightarrow> FileManifestEntry" where
  "sample_file name bytes = \<lparr>me_relative = name, me_type = ''file'', me_size = bytes, me_mode = 420, me_modified = 0,
     me_sha256 = ''sha256:'' @ replicate 64 (CHR ''a'')\<rparr>"

definition sample_manifest :: "int64 \<Rightarrow> FileManifest" where
  "sample_manifest bytes = \<lparr>fm_schema_version = fileManifestSchema, fm_entries = [sample_file ''a'' 1, sample_file ''b'' bytes]\<rparr>"

lemma sample_entry:
  assumes "name \<in> {''a'', ''b''}"
  shows "cleanRelative name = Inr name" "name \<noteq> dot" "name \<noteq> []" "CHR 0x5C \<notin> set name" "parents (length name) name = []"
proof -
  have "cleanRelative ''a'' = Inr ''a''" "cleanRelative ''b'' = Inr ''b''" "parents 1 ''a'' = []" "parents 1 ''b'' = []" by code_simp+
  then show "cleanRelative name = Inr name" "name \<noteq> dot" "name \<noteq> []" "CHR 0x5C \<notin> set name" "parents (length name) name = []"
    using assms by (auto simp: dot_def)
qed

lemma sample_digest_ok: "fileDigestPattern (me_sha256 (sample_file name bytes))"
  by (simp add: sample_file_def fileDigestPattern_def after_prefix_def has_prefix_def is_lower_hex_def list_all_iff)

lemma sample_validated:
  assumes "0 \<le> bytes" and "wrap64 (1 + bytes) \<le> mx" and "wrap64 (1 + bytes) \<le> maximumManifestBytes" and "1 \<le> mx"
  shows "\<exists>s. validateTransferredManifest cr (sample_manifest bytes) (manifest_digest cr (sample_manifest bytes)) mx = Inr s
    \<and> ms_total_bytes s = wrap64 (1 + bytes)"
proof -
  note a = sample_entry [of "''a''", simplified] and b = sample_entry [of "''b''", simplified]
  have one: "wrap64 1 = 1" by (simp add: in_int64_def)
  show ?thesis
    using assms a b sample_digest_ok [of "''a''" 1] sample_digest_ok [of "''b''" bytes] one
    by (simp add: validateTransferredManifest_def sample_manifest_def accept_entry_def accept_kind_def sample_file_def
        maximumManifestEntries_def maximumManifestBytes_def empty_summary_def list_all_iff result_inv Let_def)
qed

definition sample_hash :: crypto where
  "sample_hash = \<lparr>float_text = (\<lambda>_ _. []), sha256_hex = (\<lambda>_. replicate 64 (CHR ''a'')), sig_ok = (\<lambda>_ _. True)\<rparr>"

theorem manifest_total_exact_witness:
  "\<exists>s. validateTransferredManifest sample_hash (sample_manifest 7) (manifest_digest sample_hash (sample_manifest 7)) 100 = Inr s
     \<and> ms_total_bytes s = 8"
proof -
  from sample_validated [of 7 100 sample_hash] obtain s where
    s: "validateTransferredManifest sample_hash (sample_manifest 7) (manifest_digest sample_hash (sample_manifest 7)) 100 = Inr s"
    by (auto simp: in_int64_def maximumManifestBytes_def)
  have "ms_total_bytes s = declared_bytes (fm_entries (sample_manifest 7))"
    using manifest_total_exact [OF s] by (simp add: sample_manifest_def sample_file_def)
  with s show ?thesis by (simp add: declared_bytes_def sample_manifest_def sample_file_def)
qed

theorem manifest_accepted_safe_witness:
  "sorted_wrt (<) (map me_relative (fm_entries (sample_manifest 7)))
   \<and> (\<exists>t. safeManifestJoin ''/cache'' ''a'' = Inr t \<and> path_elems t = path_elems ''/cache'' @ path_elems ''a'')"
proof -
  from sample_validated [of 7 100 sample_hash] obtain s where
    s: "validateTransferredManifest sample_hash (sample_manifest 7) (manifest_digest sample_hash (sample_manifest 7)) 100 = Inr s"
    by (auto simp: in_int64_def maximumManifestBytes_def)
  have a: "sample_file ''a'' 1 \<in> set (fm_entries (sample_manifest 7))" "me_relative (sample_file ''a'' 1) = ''a''"
    by (simp_all add: sample_manifest_def sample_file_def)
  have "is_abs ''/cache''" by (simp add: is_abs_def has_prefix_def slash_def)
  then show ?thesis using manifest_accepted_safe [OF s] a by metis
qed

text \<open>
  Without that bound the limit can be passed: a manifest with a one-byte file and a file that
  declares \<open>2\<^bsup>63\<^esup> - 1\<close> bytes is accepted under a signed limit of one byte, with a negative byte count, because the running sum wraps.
\<close>

theorem manifest_total_wraps:
  "\<exists>s. validateTransferredManifest cr (sample_manifest (2 ^ 63 - 1)) (manifest_digest cr (sample_manifest (2 ^ 63 - 1))) 1 = Inr s
     \<and> ms_total_bytes s = - (2 ^ 63)"
  using sample_validated [of "2 ^ 63 - 1" 1 cr] by (simp add: wrap64_def maximumManifestBytes_def)

end
