(* ===== verification/Manifest_Agreement.thy ===== *)
theory Manifest_Agreement
  imports Manifest_Safety
begin

text \<open>
  Source and target agree: the manifest that \<open>buildFileManifest\<close> computes of a well-formed tree passes
  \<open>validateTransferredManifest\<close> with the digest it announces and the counts it computed.
\<close>

section \<open>What the walk computes\<close>

fun entry_of :: "crypto \<Rightarrow> string \<times> fnode \<Rightarrow> FileManifestEntry" where
  "entry_of cr (r, FileNode info content) = file_entry cr r info content"
| "entry_of cr (r, DirNode info) = dir_entry r info"
| "entry_of cr (r, LinkNode) = dir_entry r \<lparr>st_perm = 0, st_seconds = 0, st_nlink = 0\<rparr>"
| "entry_of cr (r, SpecialNode) = dir_entry r \<lparr>st_perm = 0, st_seconds = 0, st_nlink = 0\<rparr>"

definition file_count :: "FileManifestEntry list \<Rightarrow> nat" where
  "file_count es = length (filter (\<lambda>e. me_type e = ''file'') es)"

lemma entry_of_relative [simp]: "me_relative (entry_of cr named) = fst named"
  by (cases "(cr, named)" rule: entry_of.cases) (simp_all add: file_entry_def dir_entry_def)

text \<open>Totals after a number of entries.\<close>

definition tallied :: "FileManifestEntry list \<Rightarrow> FileManifestSummary \<Rightarrow> bool" where
  "tallied es s \<longleftrightarrow> ms_file_count s = file_count es \<and> ms_directory_count s = length es - file_count es
     \<and> ms_total_bytes s = declared_bytes es"

lemma file_count_snoc: "file_count (es @ [e]) = file_count es + (if me_type e = ''file'' then 1 else 0)"
  by (simp add: file_count_def)

lemma file_count_le: "file_count es \<le> length es"
  by (simp add: file_count_def)

lemma declared_snoc: "declared_bytes (es @ [e]) = declared_bytes es + (if me_type e = ''file'' then me_size e else 0)"
  by (simp add: declared_bytes_def)

definition small_files :: "ftree \<Rightarrow> bool" where
  "small_files tree \<longleftrightarrow> (\<forall>(r, n) \<in> set tree. case n of FileNode info content \<Rightarrow> int (length content) \<le> 2 ^ 62 | _ \<Rightarrow> True)"

lemma small_files_append: "small_files (xs @ ys) \<longleftrightarrow> small_files xs \<and> small_files ys"
  unfolding small_files_def set_append ball_Un ..

lemma visit_step:
  assumes "visit cr progress (r, n) s = Inr t" and "0 \<le> ms_total_bytes s" and "ms_total_bytes s \<le> maximumManifestBytes"
    and "small_files [(r, n)]"
  shows "fm_entries (ms_manifest t) = fm_entries (ms_manifest s) @ [entry_of cr (r, n)]"
    and "fm_schema_version (ms_manifest t) = fm_schema_version (ms_manifest s)"
    and "tallied es s \<Longrightarrow> tallied (es @ [entry_of cr (r, n)]) t"
    and "0 \<le> ms_total_bytes t" and "ms_total_bytes t \<le> maximumManifestBytes"
    and "length (fm_entries (ms_manifest t)) \<le> maximumManifestEntries"
proof -
  have "fm_entries (ms_manifest t) = fm_entries (ms_manifest s) @ [entry_of cr (r, n)]
    \<and> fm_schema_version (ms_manifest t) = fm_schema_version (ms_manifest s)
    \<and> (tallied es s \<longrightarrow> tallied (es @ [entry_of cr (r, n)]) t)
    \<and> 0 \<le> ms_total_bytes t \<and> ms_total_bytes t \<le> maximumManifestBytes \<and> length (fm_entries (ms_manifest t)) \<le> maximumManifestEntries"
  proof (cases n)
    case (DirNode info)
    with assms show ?thesis
      by (auto simp: visit_def add_entry_def result_inv Let_def tallied_def file_count_snoc declared_snoc dir_entry_def Suc_diff_le file_count_le)
  next
    case (FileNode info content)
    have "in_int64 (ms_total_bytes s + int (length content))"
      using assms(2-4) FileNode by (simp add: in_int64_def maximumManifestBytes_def small_files_def)
    with FileNode assms show ?thesis
      by (auto simp: visit_def add_entry_def openRegularNoFollow_def result_inv Let_def tallied_def file_count_snoc declared_snoc file_entry_def)
  qed (use assms(1) in \<open>simp_all add: visit_def result_inv Let_def\<close>)
  then show "fm_entries (ms_manifest t) = fm_entries (ms_manifest s) @ [entry_of cr (r, n)]"
    "fm_schema_version (ms_manifest t) = fm_schema_version (ms_manifest s)"
    "tallied es s \<Longrightarrow> tallied (es @ [entry_of cr (r, n)]) t" "0 \<le> ms_total_bytes t" "ms_total_bytes t \<le> maximumManifestBytes"
    "length (fm_entries (ms_manifest t)) \<le> maximumManifestEntries" by blast+
qed

lemma walk_computes:
  assumes "foldR (visit cr progress) tree empty_summary = Inr s" and "small_files tree"
  shows "fm_entries (ms_manifest s) = map (entry_of cr) tree \<and> fm_schema_version (ms_manifest s) = fileManifestSchema
    \<and> tallied (map (entry_of cr) tree) s \<and> 0 \<le> ms_total_bytes s \<and> ms_total_bytes s \<le> maximumManifestBytes
    \<and> length tree \<le> maximumManifestEntries"
  using assms
proof (induction tree arbitrary: s rule: rev_induct)
  case Nil
  then show ?case by (auto simp: empty_summary_def tallied_def file_count_def declared_bytes_def maximumManifestBytes_def)
next
  case (snoc named tree)
  obtain r n where named: "named = (r, n)" by (cases named)
  from snoc.prems obtain u where u: "foldR (visit cr progress) tree empty_summary = Inr u" and v: "visit cr progress (r, n) u = Inr s"
    by (auto simp: foldR_append result_inv named)
  have small: "small_files tree" "small_files [(r, n)]" using snoc.prems(2) by (simp_all add: small_files_append named)
  note ih = snoc.IH [OF u small(1)]
  have pre: "0 \<le> ms_total_bytes u" "ms_total_bytes u \<le> maximumManifestBytes" using ih by simp_all
  note step = visit_step [OF v pre small(2)]
  show ?case using ih step(1,2,4,5,6) step(3) [of "map (entry_of cr) tree"] by (simp add: named)
qed

section \<open>Trees the source may have\<close>

definition entry_fits :: "string \<times> fnode \<Rightarrow> bool" where
  "entry_fits named \<longleftrightarrow>
     (let r = fst named in
      cleanRelative r = Inr r \<and> r \<noteq> dot \<and> CHR 0x5C \<notin> set r
      \<and> (case snd named of
           DirNode info \<Rightarrow> st_perm info \<le> 511 \<and> 0 \<le> st_seconds info \<and> st_seconds info \<le> 9223372036
         | FileNode info content \<Rightarrow> st_perm info \<le> 511 \<and> 0 \<le> st_seconds info \<and> st_seconds info \<le> 9223372036
             \<and> int (length content) \<le> 2 ^ 62
         | _ \<Rightarrow> False))"

definition wf_tree :: "ftree \<Rightarrow> bool" where
  "wf_tree tree \<longleftrightarrow> distinct (map fst tree) \<and> (\<forall>named \<in> set tree. entry_fits named)
     \<and> (\<forall>(r, n) \<in> set tree. \<forall>(r', n') \<in> set tree. (\<exists>info content. n = FileNode info content) \<longrightarrow>
          \<not> strict_prefix (path_elems r) (path_elems r'))"

definition hex_digests :: "crypto \<Rightarrow> bool" where
  "hex_digests cr \<longleftrightarrow> (\<forall>c. length (sha256_hex cr c) = 64 \<and> list_all is_lower_hex (sha256_hex cr c))"

lemma digest_pattern: "hex_digests cr \<Longrightarrow> fileDigestPattern (hashOpenFile cr content)"
  by (simp add: hex_digests_def fileDigestPattern_def hashOpenFile_def after_prefix_def has_prefix_def)

lemma entry_fields:
  assumes "entry_fits named" and "hex_digests cr"
  defines "e \<equiv> entry_of cr named"
  shows "cleanRelative (me_relative e) = Inr (me_relative e)" "me_relative e \<noteq> dot" "CHR 0x5C \<notin> set (me_relative e)"
    "me_mode e \<le> 511" "0 \<le> me_modified e" "me_size e \<le> 2 ^ 62" "0 \<le> me_size e"
    "me_type e = ''file'' \<longleftrightarrow> (\<exists>info content. snd named = FileNode info content)"
    "me_type e = ''file'' \<and> fileDigestPattern (me_sha256 e) \<or> me_type e = ''directory'' \<and> me_size e = 0 \<and> me_sha256 e = []"
proof -
  have time: "0 \<le> wrap64 (secs * 1000000000)" if "0 \<le> secs" "secs \<le> 9223372036" for secs
    using that by (subst wrap64_id) (simp_all add: in_int64_def)
  show "cleanRelative (me_relative e) = Inr (me_relative e)" "me_relative e \<noteq> dot" "CHR 0x5C \<notin> set (me_relative e)"
    using assms(1) by (simp_all add: e_def entry_fits_def Let_def)
  show "me_mode e \<le> 511" "0 \<le> me_modified e" "me_size e \<le> 2 ^ 62" "0 \<le> me_size e"
    "me_type e = ''file'' \<longleftrightarrow> (\<exists>info content. snd named = FileNode info content)"
    "me_type e = ''file'' \<and> fileDigestPattern (me_sha256 e) \<or> me_type e = ''directory'' \<and> me_size e = 0 \<and> me_sha256 e = []"
    using assms(1) time digest_pattern [OF assms(2)] unfolding e_def
    by (cases "(cr, named)" rule: entry_of.cases; simp add: entry_fits_def Let_def file_entry_def dir_entry_def)+
qed

section \<open>The target accepts them\<close>

lemma parents_prefix:
  assumes "p \<in> set (parents n (render_path False es))" and "\<forall>e \<in> set es. plain_elem e"
  shows "\<exists>k. 0 < k \<and> k < length es \<and> p = render_path False (take k es)"
  using assms
proof (induction n arbitrary: es)
  case (Suc n)
  show ?case
  proof (cases "es = []")
    case True
    have "dir_name dot = dot" by (simp add: dir_name_def path_consts)
    with True Suc.prems(1) show ?thesis by (simp add: render_path_def)
  next
    case False
    let ?b = "butlast es"
    have plain: "\<forall>e \<in> set ?b. plain_elem e" using Suc.prems(2) by (meson in_set_butlastD)
    note dir = dir_plain [OF False Suc.prems(2)]
    have b: "?b \<noteq> []" using Suc.prems(1) dir render_dot_iff [OF plain] by (auto simp: Let_def split: if_splits)
    then have "p = render_path False ?b \<or> p \<in> set (parents n (render_path False ?b))"
      using Suc.prems(1) dir render_dot_iff [OF plain] by (simp add: Let_def)
    then show ?thesis
    proof
      assume "p = render_path False ?b"
      then show ?thesis using b by (intro exI [of _ "length ?b"]) (auto simp: butlast_conv_take)
    next
      assume "p \<in> set (parents n (render_path False ?b))"
      from Suc.IH [OF this plain] obtain k where "0 < k" "k < length ?b" "p = render_path False (take k ?b)" by blast
      then show ?thesis by (intro exI [of _ k]) (simp add: take_butlast)
    qed
  qed
qed simp

lemma elems_inj:
  assumes "cleanRelative r = Inr r" "r \<noteq> dot" "\<forall>e \<in> set es. plain_elem e" "es \<noteq> []" "r = render_path False es"
  shows "path_elems r = es"
  using elems_plain [OF assms(4,3)] assms(5) by simp

text \<open>Entries that each pass alone, are strictly ordered and have no file above another entry are accepted together.\<close>

definition entry_alone :: "FileManifestEntry \<Rightarrow> bool" where
  "entry_alone e \<longleftrightarrow> cleanRelative (me_relative e) = Inr (me_relative e) \<and> me_relative e \<noteq> dot \<and> CHR 0x5C \<notin> set (me_relative e)
     \<and> me_mode e \<le> 511 \<and> 0 \<le> me_modified e \<and> me_size e \<le> 2 ^ 62 \<and> 0 \<le> me_size e
     \<and> (me_type e = ''file'' \<and> fileDigestPattern (me_sha256 e) \<or> me_type e = ''directory'' \<and> me_size e = 0 \<and> me_sha256 e = [])"

definition no_file_above :: "FileManifestEntry list \<Rightarrow> bool" where
  "no_file_above es \<longleftrightarrow> (\<forall>e \<in> set es. \<forall>e' \<in> set es. me_type e = ''file'' \<longrightarrow>
     \<not> strict_prefix (path_elems (me_relative e)) (path_elems (me_relative e')))"

lemma no_file_parent:
  assumes "entry_alone e" and "no_file_above es" and "e \<in> set es" and "\<forall>x \<in> set es. entry_alone x"
    and types: "\<forall>r t. map_of types r = Some t \<longrightarrow> (\<exists>x \<in> set es. me_relative x = r \<and> me_type x = t)"
  shows "list_all (\<lambda>p. map_of types p \<noteq> Some ''file'') (parents (length (me_relative e)) (me_relative e))"
  unfolding list_all_iff
proof
  fix p assume p: "p \<in> set (parents (length (me_relative e)) (me_relative e))"
  have rel: "cleanRelative (me_relative e) = Inr (me_relative e)" "me_relative e \<noteq> dot" using assms(1) by (simp_all add: entry_alone_def)
  note elems = relative_elems [OF rel]
  from parents_prefix [of p _ "path_elems (me_relative e)"] p elems(2,3) obtain k where
    k: "0 < k" "k < length (path_elems (me_relative e))" "p = render_path False (take k (path_elems (me_relative e)))" by auto
  show "map_of types p \<noteq> Some ''file''"
  proof
    assume "map_of types p = Some ''file''"
    with types obtain x where x: "x \<in> set es" "me_relative x = p" "me_type x = ''file''" by blast
    have plain: "\<forall>y \<in> set (take k (path_elems (me_relative e))). plain_elem y" using elems(2) by (meson in_set_takeD)
    have "take k (path_elems (me_relative e)) \<noteq> []" using k by auto
    then have "path_elems p = take k (path_elems (me_relative e))" unfolding k(3) by (rule elems_plain [OF _ plain])
    then have "strict_prefix (path_elems p) (path_elems (me_relative e))"
      using k(2) by (simp add: strict_prefix_def take_is_prefix)
    with assms(2,3) x show False by (auto simp: no_file_above_def)
  qed
qed

lemma declared_nonneg: "\<forall>e \<in> set ys. 0 \<le> me_size e \<Longrightarrow> 0 \<le> declared_bytes ys"
  by (induction ys) (simp_all add: declared_bytes_def)

lemma declared_mono: "\<forall>e \<in> set (ys @ zs). 0 \<le> me_size e \<Longrightarrow> declared_bytes ys \<le> declared_bytes (ys @ zs)"
  using declared_nonneg [of zs] by (simp add: declared_bytes_def)

definition acceptance_of :: "FileManifest \<Rightarrow> FileManifestEntry list \<Rightarrow> acceptance \<Rightarrow> bool" where
  "acceptance_of m ys a \<longleftrightarrow> (\<forall>r t. map_of (ac_types a) r = Some t \<longrightarrow> (\<exists>x \<in> set ys. me_relative x = r \<and> me_type x = t))
     \<and> ac_previous a = (if ys = [] then [] else me_relative (last ys)) \<and> tallied ys (ac_summary a)
     \<and> ms_manifest (ac_summary a) = m \<and> ms_digest (ac_summary a) = []"

lemma entry_accepted:
  assumes acc: "acceptance_of m ys a" and es: "\<forall>x \<in> set (ys @ e # zs). entry_alone x" and above: "no_file_above (ys @ e # zs)"
    and sorted: "sorted_wrt (<) (map me_relative (ys @ e # zs))"
    and mx: "declared_bytes (ys @ [e]) \<le> mx" and top: "declared_bytes (ys @ [e]) \<le> maximumManifestBytes"
  shows "\<exists>b. accept_entry mx e a = Inr b \<and> acceptance_of m (ys @ [e]) b"
proof -
  have alone: "entry_alone e" using es by simp
  then have rel: "cleanRelative (me_relative e) = Inr (me_relative e)" "me_relative e \<noteq> dot" by (simp_all add: entry_alone_def)
  note elems = relative_elems [OF rel]
  have prev: "ac_previous a < me_relative e"
  proof (cases "ys = []")
    case True
    then show ?thesis using acc elems(5) by (simp add: acceptance_of_def neq_Nil_conv) auto
  next
    case False
    then show ?thesis using acc sorted by (simp add: acceptance_of_def sorted_wrt_append)
  qed
  have par: "list_all (\<lambda>p. map_of (ac_types a) p \<noteq> Some ''file'') (parents (length (me_relative e)) (me_relative e))"
    by (rule no_file_parent [OF alone above _ es]) (use acc in \<open>fastforce simp: acceptance_of_def\<close>)+
  have nonneg: "0 \<le> declared_bytes (ys @ [e])" using es by (intro declared_nonneg) (simp add: entry_alone_def)
  have "wrap64 (declared_bytes (ys @ [e])) = declared_bytes (ys @ [e])"
    using nonneg top by (intro wrap64_id) (simp add: in_int64_def maximumManifestBytes_def)
  then have wrap: "me_type e = ''file'' \<Longrightarrow> wrap64 (declared_bytes ys + me_size e) = declared_bytes ys + me_size e"
    by (simp add: declared_snoc)
  have t: "tallied ys (ac_summary a)" using acc by (simp add: acceptance_of_def)
  have "\<exists>s. accept_kind mx e (ac_summary a) = Inr s \<and> tallied (ys @ [e]) s \<and> ms_manifest s = ms_manifest (ac_summary a)
      \<and> ms_digest s = ms_digest (ac_summary a)"
    using alone wrap mx top t
    by (auto simp: entry_alone_def accept_kind_def result_inv Let_def declared_snoc tallied_def file_count_snoc Suc_diff_le file_count_le)
  then obtain s where s: "accept_kind mx e (ac_summary a) = Inr s" "tallied (ys @ [e]) s" "ms_manifest s = ms_manifest (ac_summary a)"
      "ms_digest s = ms_digest (ac_summary a)" by blast
  have "accept_entry mx e a = Inr \<lparr>ac_previous = me_relative e, ac_types = go_put (me_relative e) (me_type e) (ac_types a), ac_summary = s\<rparr>"
    using alone rel elems(5) prev par s(1) by (simp add: accept_entry_def entry_alone_def)
  moreover have "acceptance_of m (ys @ [e]) \<lparr>ac_previous = me_relative e, ac_types = go_put (me_relative e) (me_type e) (ac_types a), ac_summary = s\<rparr>"
    using acc s by (auto simp: acceptance_of_def split: if_splits)
  ultimately show ?thesis by blast
qed

lemma entries_accepted:
  assumes "\<forall>x \<in> set es. entry_alone x" and "no_file_above es" and "sorted_wrt (<) (map me_relative es)"
    and "declared_bytes es \<le> mx" and "declared_bytes es \<le> maximumManifestBytes" and "acceptance_of m [] a"
  shows "\<exists>b. foldR (accept_entry mx) es a = Inr b \<and> acceptance_of m es b"
proof -
  have "\<exists>b. foldR (accept_entry mx) ys a = Inr b \<and> acceptance_of m ys b" if "es = ys @ zs" for ys zs
    using that
  proof (induction ys arbitrary: zs rule: rev_induct)
    case Nil
    then show ?case using assms(6) by simp
  next
    case (snoc e ys)
    then obtain u where u: "foldR (accept_entry mx) ys a = Inr u" "acceptance_of m ys u" by auto
    have es: "es = ys @ e # zs" using snoc.prems by simp
    have "\<forall>x \<in> set ((ys @ [e]) @ zs). 0 \<le> me_size x" using assms(1) es by (simp add: entry_alone_def)
    from declared_mono [OF this] have part: "declared_bytes (ys @ [e]) \<le> declared_bytes es" using es by simp
    have "\<exists>b. accept_entry mx e u = Inr b \<and> acceptance_of m (ys @ [e]) b"
      by (rule entry_accepted [OF u(2), of e zs]) (use assms es part in auto)
    with u(1) show ?case by (auto simp: foldR_append)
  qed
  then show ?thesis by simp
qed

text \<open>
  \<^bold>\<open>C32\<close>. Source and target agree on manifests: when a source builds the manifest of a tree whose names the target can
  take (relative, without backslashes), whose modes are permissions, whose times are between 1970 and 2262 and in which nothing lies
  below a file, the target accepts that manifest under the announced digest and any signed limit that covers the announced size, and
  computes the same summary.
\<close>

theorem source_manifest_accepted:
  assumes "buildFileManifest cr progress (Some tree) = Inr s" and "wf_tree tree" and "hex_digests cr" and "ms_total_bytes s \<le> mx"
  shows "validateTransferredManifest cr (ms_manifest s) (ms_digest s) mx = Inr s"
proof -
  from assms(1) obtain w where walk: "foldR (visit cr progress) tree empty_summary = Inr w"
    and s: "s = w\<lparr>ms_manifest := (ms_manifest w)\<lparr>fm_entries := sort_key me_relative (fm_entries (ms_manifest w))\<rparr>,
        ms_digest := manifest_digest cr ((ms_manifest w)\<lparr>fm_entries := sort_key me_relative (fm_entries (ms_manifest w))\<rparr>)\<rparr>"
    by (auto simp: buildFileManifest_def result_inv Let_def)
  have "small_files tree"
    unfolding small_files_def using assms(2) by (fastforce simp: wf_tree_def entry_fits_def Let_def split: fnode.splits)
  note w = walk_computes [OF walk this]
  let ?es = "sort_key me_relative (map (entry_of cr) tree)" and ?m = "ms_manifest s"
  have m: "fm_entries ?m = ?es" "fm_schema_version ?m = fileManifestSchema" using w s by simp_all
  have fields: "entry_alone (entry_of cr named)" if "named \<in> set tree" for named
  proof -
    have "entry_fits named" using assms(2) that by (simp add: wf_tree_def)
    from entry_fields [OF this assms(3)] show ?thesis unfolding entry_alone_def by blast
  qed
  then have alone: "\<forall>x \<in> set ?es. entry_alone x" by auto
  have above: "no_file_above ?es"
    unfolding no_file_above_def
  proof (intro ballI impI)
    fix e e' assume "e \<in> set ?es" "e' \<in> set ?es" and isfile: "me_type e = ''file''"
    then obtain named named' where named: "named \<in> set tree" "e = entry_of cr named" "named' \<in> set tree" "e' = entry_of cr named'" by auto
    have fits: "entry_fits named" using assms(2) named(1) by (simp add: wf_tree_def)
    obtain r n where rn: "named = (r, n)" by (cases named)
    obtain r' n' where rn': "named' = (r', n')" by (cases named')
    have "\<exists>info content. n = FileNode info content" using entry_fields(8) [OF fits assms(3)] isfile named(2) rn by simp
    with assms(2) named(1,3) rn rn' have "\<not> strict_prefix (path_elems r) (path_elems r')" unfolding wf_tree_def by blast
    then show "\<not> strict_prefix (path_elems (me_relative e)) (path_elems (me_relative e'))" using named(2,4) rn rn' by simp
  qed
  have perm: "mset ?es = mset (map (entry_of cr) tree)" by simp
  have "distinct (map me_relative (map (entry_of cr) tree))" using assms(2) by (simp add: wf_tree_def comp_def)
  moreover have "mset (map me_relative ?es) = mset (map me_relative (map (entry_of cr) tree))"
    by (metis mset_map perm)
  ultimately have "distinct (map me_relative ?es)" by (metis mset_eq_imp_distinct_iff)
  then have sorted: "sorted_wrt (<) (map me_relative ?es)" by (simp add: strict_sorted_iff)
  have total: "declared_bytes ?es = ms_total_bytes s" and tally: "tallied ?es s"
  proof -
    have f: "mset (filter P ?es) = mset (filter P (map (entry_of cr) tree))" for P using perm by (metis mset_filter)
    have "sum_list (map me_size (filter P ?es)) = sum_list (map me_size (filter P (map (entry_of cr) tree)))" for P
      using f [of P] by (metis mset_map sum_mset_sum_list)
    then have d: "declared_bytes ?es = declared_bytes (map (entry_of cr) tree)" by (simp add: declared_bytes_def)
    have c: "file_count ?es = file_count (map (entry_of cr) tree)" unfolding file_count_def using f by (metis size_mset)
    show "declared_bytes ?es = ms_total_bytes s" using d w s by (simp add: tallied_def)
    show "tallied ?es s" using d c w s by (simp add: tallied_def)
  qed
  let ?a = "\<lparr>ac_previous = [], ac_types = [], ac_summary = empty_summary\<lparr>ms_manifest := ?m\<rparr>\<rparr>"
  have "acceptance_of ?m [] ?a" by (simp add: acceptance_of_def tallied_def empty_summary_def file_count_def declared_bytes_def)
  with entries_accepted [OF alone above sorted] total assms(4) w s obtain b where
    b: "foldR (accept_entry mx) ?es ?a = Inr b" "acceptance_of ?m ?es b" by fastforce
  have "(ac_summary b)\<lparr>ms_digest := ms_digest s\<rparr> = s"
    using b(2) tally by (simp add: acceptance_of_def tallied_def FileManifestSummary.equality)
  moreover have "manifest_digest cr ?m = ms_digest s" using s by simp
  ultimately show ?thesis using b(1) m w by (simp add: validateTransferredManifest_def)
qed

definition sample_stat :: stat_info where
  "sample_stat = \<lparr>st_perm = 420, st_seconds = 1700000000, st_nlink = 1\<rparr>"

definition sample_tree :: ftree where
  "sample_tree = [(''b'', FileNode sample_stat ''hello''), (''a'', DirNode sample_stat)]"

theorem source_manifest_accepted_witness:
  "\<exists>s. buildFileManifest sample_hash (\<lambda>_. True) (Some sample_tree) = Inr s
     \<and> validateTransferredManifest sample_hash (ms_manifest s) (ms_digest s) 5 = Inr s \<and> ms_total_bytes s = 5"
proof -
  have build: "\<exists>s. buildFileManifest sample_hash (\<lambda>_. True) (Some sample_tree) = Inr s \<and> ms_total_bytes s = 5"
    by (simp add: buildFileManifest_def sample_tree_def visit_def add_entry_def openRegularNoFollow_def sample_stat_def empty_summary_def
        maximumManifestEntries_def maximumManifestBytes_def in_int64_def dot_def Let_def)
  then obtain s where s: "buildFileManifest sample_hash (\<lambda>_. True) (Some sample_tree) = Inr s" "ms_total_bytes s = 5" by blast
  have elems: "path_elems ''a'' = [''a'']" "path_elems ''b'' = [''b'']" by code_simp+
  have "wf_tree sample_tree"
    using sample_entry [of "''a''", simplified] sample_entry [of "''b''", simplified]
    by (simp add: wf_tree_def sample_tree_def entry_fits_def sample_stat_def elems)
  moreover have "hex_digests sample_hash" by (simp add: hex_digests_def sample_hash_def is_lower_hex_def list_all_iff)
  ultimately have "validateTransferredManifest sample_hash (ms_manifest s) (ms_digest s) 5 = Inr s"
    using source_manifest_accepted [OF s(1)] s(2) by simp
  with s show ?thesis by blast
qed

end
