(* ===== verification/Data_Plane.thy ===== *)
theory Data_Plane
  imports File_Manifest
begin

text \<open>
  The direct data plane (\<open>internal/migration/dataplane.go\<close>): a source agent serves the manifest and the chunks of a
  file tree over mutual TLS to the one target agent a signed ticket names; the client on the target checks what it receives
  and renews its ticket.

  Parameters: \<open>pem_block\<close> and \<open>pkix_key\<close> (decoding of a public key), \<open>lstat\<close>, the tree below a resolved path
  (\<open>tree_at\<close>) at the moment it is listed, and \<open>open_at\<close>, what is found at a path when it is opened afterwards, so that
  a file may change between the two. A request body is given decoded; \<^const>\<open>None\<close> stands for one that the strict decoder refuses.
\<close>

section \<open>Tickets\<close>

definition dataPlaneTicketSchema :: string where
  "dataPlaneTicketSchema = ''operations.migration.data-plane-ticket.v1''"

definition transferBindingSchema :: string where
  "transferBindingSchema = ''operations.migration.transfer-binding.v1''"

definition dataPlaneAudience :: string where
  "dataPlaneAudience = ''askio-migration-data-plane''"

definition transferChunkSize :: int64 where
  "transferChunkSize = 4 * 1024 * 1024"

record DataPlaneTicket =
  dt_schema_version :: string
  dt_key_id :: string
  dt_algorithm :: string
  dt_audience :: string
  dt_migration_id :: string
  dt_run_id :: string
  dt_attempt_id :: string
  dt_fencing_token :: int64
  dt_binding_id :: string
  dt_source_agent_id :: string
  dt_target_agent_id :: string
  dt_source_signing_key_id :: string
  dt_source_signing_public_pem :: string
  dt_target_signing_key_id :: string
  dt_target_signing_public_pem :: string
  dt_source_root_handle :: string
  dt_source_relative_handle :: string
  dt_manifest_digest :: string
  dt_chunk_size_bytes :: int64
  dt_maximum_bytes :: int64
  dt_issued_at :: stamp
  dt_expires_at :: stamp
  dt_nonce :: string
  dt_signature :: string

definition dataPlaneTicketUnsigned :: "DataPlaneTicket \<Rightarrow> jval" where
  "dataPlaneTicketUnsigned ticket = JObj [
     (''schema_version'', JStr (dt_schema_version ticket)), (''key_id'', JStr (dt_key_id ticket)),
     (''algorithm'', JStr (dt_algorithm ticket)), (''audience'', JStr (dt_audience ticket)),
     (''migration_id'', JStr (dt_migration_id ticket)), (''run_id'', JStr (dt_run_id ticket)),
     (''attempt_id'', JStr (dt_attempt_id ticket)), (''fencing_token'', JInt (dt_fencing_token ticket)),
     (''binding_id'', JStr (dt_binding_id ticket)), (''source_agent_id'', JStr (dt_source_agent_id ticket)),
     (''target_agent_id'', JStr (dt_target_agent_id ticket)),
     (''source_signing_key_id'', JStr (dt_source_signing_key_id ticket)),
     (''source_signing_public_key_pem'', JStr (dt_source_signing_public_pem ticket)),
     (''target_signing_key_id'', JStr (dt_target_signing_key_id ticket)),
     (''target_signing_public_key_pem'', JStr (dt_target_signing_public_pem ticket)),
     (''source_root_handle'', JStr (dt_source_root_handle ticket)),
     (''source_relative_handle'', JStr (dt_source_relative_handle ticket)),
     (''manifest_digest'', JStr (dt_manifest_digest ticket)), (''chunk_size_bytes'', JInt (dt_chunk_size_bytes ticket)),
     (''maximum_bytes'', JInt (dt_maximum_bytes ticket)), (''issued_at'', JStr (stamp_text (dt_issued_at ticket))),
     (''expires_at'', JStr (stamp_text (dt_expires_at ticket))), (''nonce'', JStr (dt_nonce ticket))]"

datatype public_key = Ed25519Key string | OtherKey

record key_codec =
  pem_block :: "string \<Rightarrow> string option"
  pkix_key :: "string \<Rightarrow> public_key option"

datatype plane_err =
    KeyInvalid | KeyNotEd25519 | TicketContract | TicketWindow | TicketScope | TicketSourceScope | TicketSignature
  | RequestTransport | RequestInvalid | SourceAudience | SourceKey | PeerMismatch | SourceScope scope_err
  | SourceManifest manifest_err | SourceDrifted | BindingContract | BindingAddress | BindingPort | BindingDenied
  | TicketExpiry | NoRefreshPath | RefreshFailed | RefreshScope | TransportFailed | ManifestRequest | ManifestResponse
  | ManifestMismatch | ChunkRequest | ChunkBound | ChunkMismatch

definition parseEd25519PublicKey :: "key_codec \<Rightarrow> string \<Rightarrow> plane_err + string" where
  "parseEd25519PublicKey codec pemText =
     requireR (length pemText \<le> 4096) KeyInvalid
     (case pem_block codec pemText of
        None \<Rightarrow> Inl KeyInvalid
      | Some block \<Rightarrow>
          (case pkix_key codec block of
             None \<Rightarrow> Inl KeyInvalid
           | Some (Ed25519Key key) \<Rightarrow> requireR (length key = 32) KeyNotEd25519 (Inr key)
           | Some OtherKey \<Rightarrow> Inl KeyNotEd25519))"

definition ticket_in_window :: "int \<Rightarrow> DataPlaneTicket \<Rightarrow> bool" where
  "ticket_in_window now ticket =
     (case (parse_time (dt_issued_at ticket), parse_time (dt_expires_at ticket)) of
        (Some issuedAt, Some expiresAt) \<Rightarrow>
          \<not> (expiresAt < now \<or> issuedAt > now + seconds 30 \<or> expiresAt - issuedAt > seconds 600)
      | _ \<Rightarrow> False)"

definition validateDataPlaneTicket :: "crypto \<Rightarrow> key_codec \<Rightarrow> int \<Rightarrow> DataPlaneTicket \<Rightarrow> string \<Rightarrow> plane_err + unit" where
  "validateDataPlaneTicket cr codec now ticket backendKeyID =
     requireR (dt_schema_version ticket = dataPlaneTicketSchema \<and> dt_key_id ticket = backendKeyID
        \<and> dt_algorithm ticket = ''ed25519-v1'' \<and> dt_audience ticket = dataPlaneAudience) TicketContract
     (requireR (ticket_in_window now ticket) TicketWindow
     (requireR (dt_migration_id ticket \<noteq> [] \<and> dt_run_id ticket \<noteq> [] \<and> dt_attempt_id ticket \<noteq> [] \<and> 1 \<le> dt_fencing_token ticket
        \<and> opaqueBindingPattern (dt_binding_id ticket) \<and> dt_source_agent_id ticket \<noteq> [] \<and> dt_target_agent_id ticket \<noteq> []
        \<and> dt_source_agent_id ticket \<noteq> dt_target_agent_id ticket \<and> dt_source_signing_key_id ticket \<noteq> []
        \<and> dt_target_signing_key_id ticket \<noteq> [] \<and> dt_chunk_size_bytes ticket = transferChunkSize
        \<and> 0 \<le> dt_maximum_bytes ticket \<and> dt_maximum_bytes ticket \<le> maximumManifestBytes
        \<and> has_prefix (dt_manifest_digest ticket) ''sha256:''
        \<and> 22 \<le> length (dt_nonce ticket) \<and> length (dt_nonce ticket) \<le> 128) TicketScope
     (thenR (mapErr (\<lambda>_. TicketSourceScope) (cleanRelative (dt_source_relative_handle ticket))) (\<lambda>_.
      thenR (parseEd25519PublicKey codec (dt_source_signing_public_pem ticket)) (\<lambda>_.
      thenR (parseEd25519PublicKey codec (dt_target_signing_public_pem ticket)) (\<lambda>_.
      requireR (sig_ok cr (CanonicalJSON (float_text cr) (dataPlaneTicketUnsigned ticket)) (dt_signature ticket)) TicketSignature
        (Inr ())))))))"

section \<open>The server\<close>

record dataPlaneRequest =
  dr_ticket :: DataPlaneTicket
  dr_relative :: string
  dr_chunk_index :: int64

record DataPlaneServer =
  ds_agent_id :: string
  ds_signing_key_id :: string
  ds_signing_public_pem :: string
  ds_backend_key_id :: string
  ds_resolver :: ScopeResolver

record http_request =
  rq_post :: bool
  rq_tls :: "public_key list option"
  rq_body :: "dataPlaneRequest option"

record source_host =
  sh_lstat :: "string \<Rightarrow> lstat_result"
  tree_at :: "string \<Rightarrow> ftree option"
  open_at :: "string \<Rightarrow> fnode option"

definition peerMatchesPublicKey :: "public_key list option \<Rightarrow> string \<Rightarrow> bool" where
  "peerMatchesPublicKey peers expected =
     (case peers of Some [Ed25519Key actual] \<Rightarrow> actual = expected | _ \<Rightarrow> False)"

definition authorize ::
  "crypto \<Rightarrow> key_codec \<Rightarrow> int \<Rightarrow> source_host \<Rightarrow> DataPlaneServer \<Rightarrow> http_request
     \<Rightarrow> plane_err + (dataPlaneRequest \<times> string \<times> FileManifestSummary)" where
  "authorize cr codec now host s request =
     requireR (rq_post request \<and> rq_tls request \<noteq> None) RequestTransport
     (case rq_body request of
        None \<Rightarrow> Inl RequestInvalid
      | Some body \<Rightarrow>
          let ticket = dr_ticket body in
          thenR (validateDataPlaneTicket cr codec now ticket (ds_backend_key_id s)) (\<lambda>_.
          requireR (dt_source_agent_id ticket = ds_agent_id s \<and> dt_source_signing_key_id ticket = ds_signing_key_id s) SourceAudience
          (thenR (mapErr (\<lambda>_. SourceKey) (parseEd25519PublicKey codec (ds_signing_public_pem s))) (\<lambda>localPublic.
           thenR (mapErr (\<lambda>_. SourceKey) (parseEd25519PublicKey codec (dt_source_signing_public_pem ticket))) (\<lambda>ticketPublic.
           requireR (localPublic = ticketPublic) SourceKey
           (thenR (mapErr (\<lambda>_. PeerMismatch) (parseEd25519PublicKey codec (dt_target_signing_public_pem ticket))) (\<lambda>targetPublic.
            requireR (peerMatchesPublicKey (rq_tls request) targetPublic) PeerMismatch
            (thenR (mapErr SourceScope
                (Resolve (sh_lstat host) (ds_resolver s) (dt_source_root_handle ticket) (dt_source_relative_handle ticket) False)) (\<lambda>base.
             thenR (mapErr SourceManifest (buildFileManifest cr (\<lambda>_. True) (tree_at host base))) (\<lambda>summary.
             requireR (ms_digest summary = dt_manifest_digest ticket \<and> ms_total_bytes summary \<le> dt_maximum_bytes ticket) SourceDrifted
               (Inr (body, base, summary))))))))))))"

datatype 'a reply = Refused nat | Answered 'a | Panics

definition handleManifest ::
  "crypto \<Rightarrow> key_codec \<Rightarrow> int \<Rightarrow> source_host \<Rightarrow> DataPlaneServer \<Rightarrow> http_request \<Rightarrow> (string \<times> FileManifest) reply" where
  "handleManifest cr codec now host s request =
     (case authorize cr codec now host s request of
        Inl _ \<Rightarrow> Refused 403
      | Inr (body, _, summary) \<Rightarrow>
          if dr_relative body \<noteq> [] \<or> dr_chunk_index body \<noteq> 0 then Refused 403
          else Answered (ms_digest summary, ms_manifest summary))"

text \<open>\<open>sort.Search\<close>: the bisection of package \<open>sort\<close>, with \<open>h := int(uint(i+j) >> 1)\<close>.\<close>

function search_between :: "(nat \<Rightarrow> bool) \<Rightarrow> nat \<Rightarrow> nat \<Rightarrow> nat" where
  "search_between f i j =
     (if i < j then let h = (i + j) div 2 in if \<not> f h then search_between f (h + 1) j else search_between f i h else i)"
  by pat_completeness auto
termination by (relation "measure (\<lambda>(f, i, j). j - i)") auto

declare search_between.simps [simp del]

definition findManifestEntry :: "FileManifestEntry list \<Rightarrow> string \<Rightarrow> FileManifestEntry option" where
  "findManifestEntry es relative =
     (let index = search_between (\<lambda>i. relative \<le> me_relative (es ! i)) 0 (length es) in
      if index < length es \<and> me_relative (es ! index) = relative then Some (es ! index) else None)"

record chunk_answer =
  ca_chunk_digest :: string
  ca_file_digest :: string
  ca_data :: string

text \<open>\<open>file.ReadAt(make([]byte, length), offset)\<close>: a negative length panics, a negative offset is an error, a short read is
  not.\<close>

definition read_at :: "string \<Rightarrow> int \<Rightarrow> int \<Rightarrow> string option" where
  "read_at content len offset = (if offset < 0 then None else Some (take (nat len) (drop (nat offset) content)))"

definition handleChunk ::
  "crypto \<Rightarrow> key_codec \<Rightarrow> int \<Rightarrow> source_host \<Rightarrow> DataPlaneServer \<Rightarrow> http_request \<Rightarrow> chunk_answer reply" where
  "handleChunk cr codec now host s request =
     (case authorize cr codec now host s request of
        Inl _ \<Rightarrow> Refused 403
      | Inr (body, base, summary) \<Rightarrow>
          if dr_chunk_index body < 0 then Refused 403
          else (case cleanRelative (dr_relative body) of
            Inl _ \<Rightarrow> Refused 400
          | Inr relative \<Rightarrow>
              if relative = dot then Refused 400
              else (case findManifestEntry (fm_entries (ms_manifest summary)) relative of
                None \<Rightarrow> Refused 404
              | Some entry \<Rightarrow>
                  let offset = wrap64 (dr_chunk_index body * transferChunkSize) in
                  if me_type entry \<noteq> ''file'' \<or> offset \<ge> me_size entry then Refused 404
                  else (case open_at host (path_join base relative) of
                    None \<Rightarrow> Refused 409
                  | Some node \<Rightarrow>
                      (case openRegularNoFollow node of
                         Inl _ \<Rightarrow> Refused 409
                       | Inr (info, content) \<Rightarrow>
                           if int (length content) \<noteq> me_size entry then Refused 409
                           else let remaining = wrap64 (me_size entry - offset);
                                    len = (if remaining < transferChunkSize then remaining else transferChunkSize) in
                             if len < 0 then Panics
                             else (case read_at content len offset of
                               None \<Rightarrow> Refused 409
                             | Some buffer \<Rightarrow>
                                 Answered \<lparr>ca_chunk_digest = ''sha256:'' @ sha256_hex cr buffer, ca_file_digest = me_sha256 entry,
                                   ca_data = buffer\<rparr>))))))"

section \<open>The client\<close>

text \<open>\<open>net.SplitHostPort\<close>; the index of the last colon is taken first.\<close>

definition last_index :: "char \<Rightarrow> string \<Rightarrow> nat option" where
  "last_index c s = (if c \<in> set s then Some (length s - 1 - length (takeWhile (\<lambda>x. x \<noteq> c) (rev s))) else None)"

definition first_index :: "char \<Rightarrow> string \<Rightarrow> nat option" where
  "first_index c s = (if c \<in> set s then Some (length (takeWhile (\<lambda>x. x \<noteq> c) s)) else None)"

definition split_host_port :: "string \<Rightarrow> (string \<times> string) option" where
  "split_host_port hp =
     (case last_index (CHR '':'') hp of
        None \<Rightarrow> None
      | Some i \<Rightarrow>
          let port = drop (Suc i) hp in
          if hd hp = CHR ''['' then
            (case first_index (CHR '']'') hp of
               None \<Rightarrow> None
             | Some e \<Rightarrow>
                 if Suc e \<noteq> i \<or> CHR ''['' \<in> set (drop 1 hp) \<or> CHR '']'' \<in> set (drop (Suc e) hp) then None
                 else Some (drop 1 (take e hp), port))
          else if CHR '':'' \<in> set (take i hp) \<or> CHR ''['' \<in> set hp \<or> CHR '']'' \<in> set hp then None
          else Some (take i hp, port))"

text \<open>Addresses in their 16-byte form; an IPv4 address is mapped below \<open>::ffff\<close>.\<close>

definition v4_mapped :: "nat list \<Rightarrow> bool" where
  "v4_mapped ip \<longleftrightarrow> length ip = 16 \<and> take 12 ip = replicate 10 0 @ [255, 255]"

definition ip_unspecified :: "nat list \<Rightarrow> bool" where
  "ip_unspecified ip \<longleftrightarrow> ip = replicate 16 0 \<or> ip = replicate 10 0 @ [255, 255] @ replicate 4 0"

definition ip_multicast :: "nat list \<Rightarrow> bool" where
  "ip_multicast ip \<longleftrightarrow> (if v4_mapped ip then ip ! 12 div 16 = 14 else length ip = 16 \<and> ip ! 0 = 255)"

record transferBinding =
  tb_schema_version :: string
  tb_source_address :: string

definition parseTransferBinding :: "(string \<Rightarrow> nat list option) \<Rightarrow> transferBinding option \<Rightarrow> plane_err + transferBinding" where
  "parseTransferBinding parse_ip raw =
     (case raw of
        None \<Rightarrow> Inl BindingContract
      | Some binding \<Rightarrow>
          requireR (tb_schema_version binding = transferBindingSchema) BindingContract
          (case split_host_port (tb_source_address binding) of
             None \<Rightarrow> Inl BindingAddress
           | Some (host, port) \<Rightarrow>
               requireR (host \<noteq> [] \<and> port \<noteq> [] \<and> \<not> list_ex (\<lambda>c. c \<in> {CHR 0x00, CHR 0x0D, CHR 0x0A, CHR 0x09}) host) BindingAddress
               (case parse_int64 port of
                  None \<Rightarrow> Inl BindingPort
                | Some n \<Rightarrow>
                    requireR (1 \<le> n \<and> n \<le> 65535) BindingPort
                    (requireR (\<forall>ip \<in> set_option (parse_ip host). \<not> (ip_unspecified ip \<or> ip_multicast ip)) BindingDenied
                      (Inr binding)))))"

definition sameDataPlaneScope :: "DataPlaneTicket \<Rightarrow> DataPlaneTicket \<Rightarrow> bool" where
  "sameDataPlaneScope left right \<longleftrightarrow>
     dt_schema_version left = dt_schema_version right \<and> dt_key_id left = dt_key_id right \<and> dt_algorithm left = dt_algorithm right
     \<and> dt_audience left = dt_audience right \<and> dt_migration_id left = dt_migration_id right \<and> dt_run_id left = dt_run_id right
     \<and> dt_attempt_id left = dt_attempt_id right \<and> dt_fencing_token left = dt_fencing_token right
     \<and> dt_binding_id left = dt_binding_id right \<and> dt_source_agent_id left = dt_source_agent_id right
     \<and> dt_target_agent_id left = dt_target_agent_id right \<and> dt_source_signing_key_id left = dt_source_signing_key_id right
     \<and> dt_source_signing_public_pem left = dt_source_signing_public_pem right
     \<and> dt_target_signing_key_id left = dt_target_signing_key_id right
     \<and> dt_target_signing_public_pem left = dt_target_signing_public_pem right
     \<and> dt_source_root_handle left = dt_source_root_handle right \<and> dt_source_relative_handle left = dt_source_relative_handle right
     \<and> dt_manifest_digest left = dt_manifest_digest right \<and> dt_chunk_size_bytes left = dt_chunk_size_bytes right
     \<and> dt_maximum_bytes left = dt_maximum_bytes right"

text \<open>
  One use of the client: the instant, the renewal path if the client has one, and what the transport brings back for a
  request (\<^const>\<open>None\<close> when the exchange fails, among others because the peer does not hold the expected key).
\<close>

record manifest_response =
  mr_status :: nat
  mr_digest :: string
  mr_manifest :: "FileManifest option"

record chunk_response =
  cs_status :: nat
  cs_file_digest :: string
  cs_chunk_digest :: string
  cs_data :: "string option"

record exchange =
  x_now :: int
  x_refresh :: "(DataPlaneTicket \<Rightarrow> DataPlaneTicket option) option"
  x_manifest :: "dataPlaneRequest \<Rightarrow> manifest_response option"
  x_chunk :: "dataPlaneRequest \<Rightarrow> chunk_response option"

text \<open>The client is its current ticket; an operation returns the error or result beside the ticket the client then holds.\<close>

definition ensureTicket :: "exchange \<Rightarrow> DataPlaneTicket \<Rightarrow> plane_err + DataPlaneTicket" where
  "ensureTicket x ticket =
     (case parse_time (dt_expires_at ticket) of
        None \<Rightarrow> Inl TicketExpiry
      | Some expiresAt \<Rightarrow>
          if expiresAt - x_now x > seconds 75 then Inr ticket
          else (case x_refresh x of
            None \<Rightarrow> Inl NoRefreshPath
          | Some refresh \<Rightarrow>
              (case refresh ticket of
                 None \<Rightarrow> Inl RefreshFailed
               | Some refreshed \<Rightarrow> requireR (sameDataPlaneScope ticket refreshed) RefreshScope (Inr refreshed))))"

definition client_manifest :: "crypto \<Rightarrow> exchange \<Rightarrow> DataPlaneTicket \<Rightarrow> (plane_err + FileManifest) \<times> DataPlaneTicket" where
  "client_manifest cr x ticket =
     (case ensureTicket x ticket of
        Inl e \<Rightarrow> (Inl e, ticket)
      | Inr t \<Rightarrow>
          (case x_manifest x \<lparr>dr_ticket = t, dr_relative = [], dr_chunk_index = 0\<rparr> of
             None \<Rightarrow> Inl TransportFailed
           | Some r \<Rightarrow>
               requireR (mr_status r = 200 \<and> mr_digest r = dt_manifest_digest t) ManifestRequest
               (case mr_manifest r of
                  None \<Rightarrow> Inl ManifestResponse
                | Some m \<Rightarrow>
                    requireR (fm_schema_version m = fileManifestSchema \<and> length (fm_entries m) \<le> maximumManifestEntries) ManifestResponse
                    (requireR (manifest_digest cr m = dt_manifest_digest t) ManifestMismatch (Inr m))), t))"

definition client_chunk ::
  "crypto \<Rightarrow> exchange \<Rightarrow> DataPlaneTicket \<Rightarrow> string \<Rightarrow> int64 \<Rightarrow> string \<Rightarrow> (plane_err + (string \<times> string)) \<times> DataPlaneTicket" where
  "client_chunk cr x ticket relative index expectedFileDigest =
     (case ensureTicket x ticket of
        Inl e \<Rightarrow> (Inl e, ticket)
      | Inr t \<Rightarrow>
          (case x_chunk x \<lparr>dr_ticket = t, dr_relative = relative, dr_chunk_index = index\<rparr> of
             None \<Rightarrow> Inl TransportFailed
           | Some r \<Rightarrow>
               requireR (cs_status r = 200 \<and> cs_file_digest r = expectedFileDigest) ChunkRequest
               (case map_option (take (nat (transferChunkSize + 1))) (cs_data r) of
                  None \<Rightarrow> Inl ChunkBound
                | Some chunk \<Rightarrow>
                    requireR (int (length chunk) \<le> transferChunkSize) ChunkBound
                    (let actualDigest = ''sha256:'' @ sha256_hex cr chunk in
                     requireR (actualDigest = cs_chunk_digest r) ChunkMismatch (Inr (chunk, actualDigest)))), t))"

end
