(* ===== verification/File_Transfer.thy ===== *)
theory File_Transfer
  imports Data_Plane Go_Effects
begin

text \<open>
  Downloading a tree (\<open>downloadManifestTree\<close> of \<open>internal/migration/files.go\<close>): chunk by chunk into partial files of a cache, with
  a checkpoint that lets an interrupted transfer go on, and a final comparison with the signed manifest.

  The state \<open>download\<close> holds the cache (the nodes by the elements of their absolute paths, and the checkpoint file), what the
  function keeps in variables (the checkpoint in memory, the byte counts, the instant of the last progress report, the client's ticket)
  and the environment: \<open>dl_env\<close> lists how long each coming system call takes and whether it fails, with or without its effect;
  \<open>net n\<close> is the exchange of the client's \<open>n\<close>-th request. Cancellation of the context is such a failing call. The
  duration that the rate limit allots to a number of bytes (a float computation) is the parameter \<open>allot\<close>.
\<close>

section \<open>The cache\<close>

datatype cnode = CDir nat int | CFile nat int string

type_synonym cache = "(string list, cnode) gomap"

record fileTransferCheckpoint =
  ck_schema_version :: string
  ck_manifest_digest :: string
  ck_chunks :: "(string, (string, string) gomap) gomap option"

datatype sys_outcome = Succeeds | Refuses | Refuses_done

record download =
  dl_nodes :: cache
  dl_doc :: "fileTransferCheckpoint option"
  dl_checkpoint :: "(string, (string, string) gomap) gomap"
  dl_ticket :: DataPlaneTicket
  dl_requests :: nat
  dl_completed :: int64
  dl_downloaded :: int64
  dl_last :: "int option"
  dl_now :: int
  dl_env :: "(sys_outcome \<times> nat) list"

datatype transfer_err =
    SysFailed | PathUnsafe manifest_err | DirectoryCollision | ChunkTransfer | AssembledDigest | TreeVerification

type_synonym 'a dop = "(download, transfer_err, 'a) op"

text \<open>A system call with the change it makes; \<^const>\<open>None\<close> is a refusal of the file system itself.\<close>

definition sys :: "(download \<Rightarrow> download option) \<Rightarrow> unit dop" where
  "sys eff = State (\<lambda>d.
     let (out, elapsed) = (case dl_env d of [] \<Rightarrow> (Succeeds, 0) | x # _ \<Rightarrow> x);
         d' = d\<lparr>dl_env := tl (dl_env d), dl_now := dl_now d + int elapsed\<rparr> in
     case out of
       Succeeds \<Rightarrow> (case eff d' of None \<Rightarrow> (Inl SysFailed, d') | Some e \<Rightarrow> (Inr (), e))
     | Refuses \<Rightarrow> (Inl SysFailed, d')
     | Refuses_done \<Rightarrow> (Inl SysFailed, case eff d' of None \<Rightarrow> d' | Some e \<Rightarrow> e))"

abbreviation sys_probe :: "unit dop" where
  "sys_probe \<equiv> sys Some"

definition on_nodes :: "(cache \<Rightarrow> cache option) \<Rightarrow> download \<Rightarrow> download option" where
  "on_nodes f d = map_option (\<lambda>ns. d\<lparr>dl_nodes := ns\<rparr>) (f (dl_nodes d))"

text \<open>\<open>os.MkdirAll\<close>: every missing directory on the way to the path is created.\<close>

fun mkdir_from :: "nat \<Rightarrow> string list \<Rightarrow> string list \<Rightarrow> cache \<Rightarrow> cache option" where
  "mkdir_from mode parent [] ns = Some ns"
| "mkdir_from mode parent (e # es) ns =
     (let key = parent @ [e] in
      case map_of ns key of
        Some (CDir _ _) \<Rightarrow> mkdir_from mode key es ns
      | Some (CFile _ _ _) \<Rightarrow> None
      | None \<Rightarrow> mkdir_from mode key es (go_put key (CDir mode 0) ns))"

definition mkdir_all :: "nat \<Rightarrow> string \<Rightarrow> cache \<Rightarrow> cache option" where
  "mkdir_all mode path ns = mkdir_from mode [] (path_elems path) ns"

text \<open>\<open>os.OpenFile(path, O_CREATE|O_RDWR, 0600)\<close>, \<open>Truncate\<close>, \<open>WriteAt\<close>, \<open>Chmod\<close>, \<open>Chtimes\<close>, \<open>Rename\<close>.\<close>

definition open_create :: "string \<Rightarrow> cache \<Rightarrow> cache option" where
  "open_create path ns =
     (case map_of ns (path_elems path) of
        None \<Rightarrow> Some (go_put (path_elems path) (CFile 384 0 []) ns)
      | Some (CFile _ _ _) \<Rightarrow> Some ns
      | Some (CDir _ _) \<Rightarrow> None)"

definition change_content :: "string \<Rightarrow> (string \<Rightarrow> string) \<Rightarrow> cache \<Rightarrow> cache option" where
  "change_content path f ns =
     (case map_of ns (path_elems path) of
        Some (CFile mode time content) \<Rightarrow> Some (go_put (path_elems path) (CFile mode time (f content)) ns)
      | _ \<Rightarrow> None)"

definition truncate_to :: "nat \<Rightarrow> string \<Rightarrow> string" where
  "truncate_to n content = take n content @ replicate (n - length content) (CHR 0x00)"

definition write_at :: "nat \<Rightarrow> string \<Rightarrow> string \<Rightarrow> string" where
  "write_at offset bytes content =
     truncate_to offset content @ bytes @ drop (offset + length bytes) content"

fun with_mode :: "nat \<Rightarrow> cnode \<Rightarrow> cnode" where
  "with_mode m (CDir _ t) = CDir m t"
| "with_mode m (CFile _ t c) = CFile m t c"

fun with_time :: "int \<Rightarrow> cnode \<Rightarrow> cnode" where
  "with_time t (CDir m _) = CDir m t"
| "with_time t (CFile m _ c) = CFile m t c"

definition change_node :: "string \<Rightarrow> (cnode \<Rightarrow> cnode) \<Rightarrow> cache \<Rightarrow> cache option" where
  "change_node path f ns =
     (case map_of ns (path_elems path) of None \<Rightarrow> None | Some n \<Rightarrow> Some (go_put (path_elems path) (f n) ns))"

definition rename_file :: "string \<Rightarrow> string \<Rightarrow> cache \<Rightarrow> cache option" where
  "rename_file old new ns =
     (case (map_of ns (path_elems old), map_of ns (path_elems new)) of
        (Some (CFile m t c), Some (CDir _ _)) \<Rightarrow> None
      | (Some (CFile m t c), _) \<Rightarrow> Some (go_put (path_elems new) (CFile m t c) (go_del (path_elems old) ns))
      | _ \<Rightarrow> None)"

definition fileSHA256 :: "crypto \<Rightarrow> string \<Rightarrow> cache \<Rightarrow> (string \<times> int) option" where
  "fileSHA256 cr path ns =
     (case map_of ns (path_elems path) of
        Some (CFile _ _ content) \<Rightarrow> Some (''sha256:'' @ sha256_hex cr content, int (length content))
      | _ \<Rightarrow> None)"

definition hashFileRegion :: "crypto \<Rightarrow> string \<Rightarrow> int \<Rightarrow> int \<Rightarrow> cache \<Rightarrow> string option" where
  "hashFileRegion cr path offset len ns =
     (case map_of ns (path_elems path) of
        Some (CFile _ _ content) \<Rightarrow> Some (''sha256:'' @ sha256_hex cr (take (nat len) (drop (nat offset) content)))
      | _ \<Rightarrow> None)"

section \<open>The checkpoint\<close>

definition checkpointSchema :: string where
  "checkpointSchema = ''operations.migration.file-transfer-checkpoint.v1''"

definition loadTransferCheckpoint :: "fileTransferCheckpoint option \<Rightarrow> string \<Rightarrow> (string, (string, string) gomap) gomap" where
  "loadTransferCheckpoint doc manifestDigest =
     (case doc of
        None \<Rightarrow> []
      | Some stored \<Rightarrow>
          if ck_schema_version stored = checkpointSchema \<and> ck_manifest_digest stored = manifestDigest
          then (case ck_chunks stored of None \<Rightarrow> [] | Some chunks \<Rightarrow> chunks)
          else [])"

definition transferCachePath :: "crypto \<Rightarrow> string \<Rightarrow> TaskEnvelope \<Rightarrow> string \<Rightarrow> string" where
  "transferCachePath cr stateDir task manifestDigest =
     path_join (path_join stateDir ''transfer-cache'')
       (take 32 (sha256_hex cr (t_migration_id task @ CHR 0x00 # manifestDigest)))"

section \<open>One file\<close>

definition chunk_offset :: "int64 \<Rightarrow> int64" where
  "chunk_offset index = wrap64 (index * transferChunkSize)"

definition chunk_length :: "int64 \<Rightarrow> int64 \<Rightarrow> int64" where
  "chunk_length bytes index =
     (let remaining = wrap64 (bytes - chunk_offset index) in if remaining < transferChunkSize then remaining else transferChunkSize)"

definition chunkCount :: "int64 \<Rightarrow> int64" where
  "chunkCount bytes = go_quot (wrap64 (wrap64 (bytes + transferChunkSize) - 1)) transferChunkSize"

definition recorded :: "string \<Rightarrow> int64 \<Rightarrow> download \<Rightarrow> string" where
  "recorded relative index d =
     (case map_of (dl_checkpoint d) relative of
        None \<Rightarrow> []
      | Some chunks \<Rightarrow> (case map_of chunks (int_str index) of None \<Rightarrow> [] | Some digest \<Rightarrow> digest))"

definition record_chunk :: "string \<Rightarrow> int64 \<Rightarrow> string option \<Rightarrow> download \<Rightarrow> download" where
  "record_chunk relative index digest d =
     (let chunks = (case map_of (dl_checkpoint d) relative of None \<Rightarrow> [] | Some c \<Rightarrow> c);
          chunks' = (case digest of None \<Rightarrow> go_del (int_str index) chunks | Some x \<Rightarrow> go_put (int_str index) x chunks) in
      d\<lparr>dl_checkpoint := go_put relative chunks' (dl_checkpoint d)\<rparr>)"

text \<open>A chunk of the partial file that the checkpoint vouches for is kept; otherwise its record is dropped.\<close>

definition reuse_chunk :: "crypto \<Rightarrow> FileManifestEntry \<Rightarrow> string \<Rightarrow> int64 \<Rightarrow> (download, bool) state" where
  "reuse_chunk cr entry partialPath index = do {
     d \<leftarrow> get_state;
     let expected = recorded (me_relative entry) index d in
     if expected = [] then return False
     else do {
       hashErr \<leftarrow> sys_probe;
       if \<not> is_err hashErr
          \<and> hashFileRegion cr partialPath (chunk_offset index) (chunk_length (me_size entry) index) (dl_nodes d) = Some expected
       then do { modify (\<lambda>d. d\<lparr>dl_completed := wrap64 (dl_completed d + chunk_length (me_size entry) index)\<rparr>); return True }
       else do { modify (record_chunk (me_relative entry) index None); return False } } }"

definition report_progress :: "int64 \<Rightarrow> unit dop" where
  "report_progress totalBytes = do {
     d \<leftarrow> get_state;
     if (case dl_last d of None \<Rightarrow> True | Some t \<Rightarrow> dl_now d - t \<ge> seconds 5) \<or> dl_completed d = totalBytes
     then tryE sys_probe (\<lambda>_. do { modify (\<lambda>d. d\<lparr>dl_last := Some (dl_now d)\<rparr>); okE () })
     else okE () }"

definition waitForTransferRate :: "(int \<Rightarrow> int \<Rightarrow> int) \<Rightarrow> int \<Rightarrow> int64 \<Rightarrow> unit dop" where
  "waitForTransferRate allot started bytesPerSecond = do {
     d \<leftarrow> get_state;
     if dl_downloaded d \<le> 0 \<or> bytesPerSecond \<le> 0 then okE ()
     else let remaining = allot (dl_downloaded d) bytesPerSecond - (dl_now d - started) in
       if remaining \<le> 0 then okE ()
       else sys (\<lambda>d. Some (d\<lparr>dl_now := dl_now d + remaining\<rparr>)) }"

text \<open>\<open>client.chunk\<close> inside the download.\<close>

definition request_chunk :: "crypto \<Rightarrow> (nat \<Rightarrow> exchange) \<Rightarrow> string \<Rightarrow> int64 \<Rightarrow> string \<Rightarrow> (string \<times> string) dop" where
  "request_chunk cr net relative index expectedFileDigest = do {
     d \<leftarrow> get_state;
     let (result, ticket) = client_chunk cr ((net (dl_requests d))\<lparr>x_now := dl_now d\<rparr>) (dl_ticket d) relative index expectedFileDigest in
     do { modify (\<lambda>d. d\<lparr>dl_ticket := ticket, dl_requests := dl_requests d + 1\<rparr>);
          case result of Inl _ \<Rightarrow> errE ChunkTransfer | Inr x \<Rightarrow> okE x } }"

definition save_checkpoint :: "string \<Rightarrow> unit dop" where
  "save_checkpoint manifestDigest = sys (\<lambda>d. Some (d\<lparr>dl_doc := Some \<lparr>ck_schema_version = checkpointSchema,
     ck_manifest_digest = manifestDigest, ck_chunks = Some (dl_checkpoint d)\<rparr>\<rparr>))"

definition fetch_chunk ::
  "crypto \<Rightarrow> (int \<Rightarrow> int \<Rightarrow> int) \<Rightarrow> (nat \<Rightarrow> exchange) \<Rightarrow> FileManifestSummary \<Rightarrow> int64 \<Rightarrow> int \<Rightarrow> FileManifestEntry \<Rightarrow> string \<Rightarrow> int64 \<Rightarrow> unit dop" where
  "fetch_chunk cr allot net summary bytesPerSecond started entry partialPath index = do {
     kept \<leftarrow> reuse_chunk cr entry partialPath index;
     if kept then okE ()
     else
       tryE (request_chunk cr net (me_relative entry) index (me_sha256 entry)) (\<lambda>(bytes, chunkDigest).
       guardE (int (length bytes) = chunk_length (me_size entry) index) ChunkTransfer
       (tryE (sys (on_nodes (change_content partialPath (write_at (nat (chunk_offset index)) bytes)))) (\<lambda>_.
        tryE sys_probe (\<lambda>_. do {
          modify (record_chunk (me_relative entry) index (Some chunkDigest));
          tryE (save_checkpoint (ms_digest summary)) (\<lambda>_. do {
            modify (\<lambda>d. d\<lparr>dl_completed := wrap64 (dl_completed d + chunk_length (me_size entry) index),
              dl_downloaded := wrap64 (dl_downloaded d + chunk_length (me_size entry) index)\<rparr>);
            tryE (report_progress (ms_total_bytes summary)) (\<lambda>_.
              waitForTransferRate allot started bytesPerSecond) }) })))) }"

text \<open>The chunks of a file in order, the digest of the assembled file, its metadata and the final rename.\<close>

definition assemble_file ::
  "crypto \<Rightarrow> (int \<Rightarrow> int \<Rightarrow> int) \<Rightarrow> (nat \<Rightarrow> exchange) \<Rightarrow> FileManifestSummary \<Rightarrow> int64 \<Rightarrow> int \<Rightarrow> FileManifestEntry \<Rightarrow> string \<Rightarrow> unit dop" where
  "assemble_file cr allot net summary bytesPerSecond started entry path =
     (let partialPath = path @ ''.partial'' in
      tryE (sys (on_nodes (open_create partialPath))) (\<lambda>_.
      tryE (sys (on_nodes (change_content partialPath (truncate_to (nat (me_size entry)))))) (\<lambda>_.
      tryE (forE (map int [0..<nat (chunkCount (me_size entry))])
             (fetch_chunk cr allot net summary bytesPerSecond started entry partialPath)) (\<lambda>_.
      tryE sys_probe (\<lambda>_. do {
        r \<leftarrow> sys_probe;
        d \<leftarrow> get_state;
        guardE (\<not> is_err r \<and> fileSHA256 cr partialPath (dl_nodes d) = Some (me_sha256 entry, me_size entry)) AssembledDigest
        (tryE (sys (on_nodes (change_node partialPath (with_mode (me_mode entry))))) (\<lambda>_.
         tryE (sys (on_nodes (change_node partialPath (with_time (me_modified entry))))) (\<lambda>_.
         sys (on_nodes (rename_file partialPath path))))) })))))"

definition fetch_file ::
  "crypto \<Rightarrow> (int \<Rightarrow> int \<Rightarrow> int) \<Rightarrow> (nat \<Rightarrow> exchange) \<Rightarrow> FileManifestSummary \<Rightarrow> int64 \<Rightarrow> int \<Rightarrow> FileManifestEntry \<Rightarrow> string \<Rightarrow> unit dop" where
  "fetch_file cr allot net summary bytesPerSecond started entry path =
     tryE (sys (on_nodes (mkdir_all 448 (dir_name path)))) (\<lambda>_. do {
       r \<leftarrow> sys_probe;
       d \<leftarrow> get_state;
       if \<not> is_err r \<and> fileSHA256 cr path (dl_nodes d) = Some (me_sha256 entry, me_size entry)
       then do {
         modify (\<lambda>d. d\<lparr>dl_completed := wrap64 (dl_completed d + me_size entry)\<rparr>);
         report_progress (ms_total_bytes summary) }
       else assemble_file cr allot net summary bytesPerSecond started entry path })"

section \<open>The tree\<close>

definition joined :: "string \<Rightarrow> FileManifestEntry \<Rightarrow> (string \<Rightarrow> 'a dop) \<Rightarrow> 'a dop" where
  "joined root entry k = (case safeManifestJoin root (me_relative entry) of Inl e \<Rightarrow> errE (PathUnsafe e) | Inr path \<Rightarrow> k path)"

definition fetch_entry ::
  "crypto \<Rightarrow> (int \<Rightarrow> int \<Rightarrow> int) \<Rightarrow> (nat \<Rightarrow> exchange) \<Rightarrow> FileManifestSummary \<Rightarrow> int64 \<Rightarrow> int \<Rightarrow> string \<Rightarrow> FileManifestEntry \<Rightarrow> unit dop" where
  "fetch_entry cr allot net summary bytesPerSecond started treeRoot entry =
     tryE sys_probe (\<lambda>_.
     joined treeRoot entry (\<lambda>path.
       if me_type entry = ''directory'' then do {
         d \<leftarrow> get_state;
         guardE (case map_of (dl_nodes d) (path_elems path) of Some (CFile _ _ _) \<Rightarrow> False | _ \<Rightarrow> True) DirectoryCollision
           (sys (on_nodes (mkdir_all (me_mode entry) path))) }
       else fetch_file cr allot net summary bytesPerSecond started entry path))"

definition finish_directory :: "string \<Rightarrow> FileManifestEntry \<Rightarrow> unit dop" where
  "finish_directory treeRoot entry =
     (if me_type entry \<noteq> ''directory'' then okE ()
      else joined treeRoot entry (\<lambda>path.
        tryE (sys (on_nodes (change_node path (with_mode (me_mode entry))))) (\<lambda>_.
        sys (on_nodes (change_node path (with_time (me_modified entry)))))))"

text \<open>What a walk below a root finds in the cache; an instant is read in whole seconds.\<close>

definition stat_of :: "nat \<Rightarrow> int \<Rightarrow> stat_info" where
  "stat_of mode time = \<lparr>st_perm = mode mod 512, st_seconds = time div 1000000000, st_nlink = 1\<rparr>"

definition cache_tree :: "string \<Rightarrow> cache \<Rightarrow> ftree" where
  "cache_tree root ns =
     (let base = path_elems root in
      map (\<lambda>(key, n). (render_path False (drop (length base) key),
             case n of CDir m t \<Rightarrow> DirNode (stat_of m t) | CFile m t c \<Rightarrow> FileNode (stat_of m t) c))
        (filter (\<lambda>(key, n). strict_prefix base key) ns))"

definition downloadManifestTree ::
  "crypto \<Rightarrow> (int \<Rightarrow> int \<Rightarrow> int) \<Rightarrow> (nat \<Rightarrow> exchange) \<Rightarrow> string \<Rightarrow> TaskEnvelope \<Rightarrow> FileManifestSummary \<Rightarrow> int64 \<Rightarrow> string dop" where
  "downloadManifestTree cr allot net stateDir task summary bytesPerSecond =
     (let cacheRoot = transferCachePath cr stateDir task (ms_digest summary);
          treeRoot = path_join cacheRoot ''tree'';
          es = fm_entries (ms_manifest summary) in
      tryE (sys (on_nodes (mkdir_all 448 treeRoot))) (\<lambda>_. do {
        modify (\<lambda>d. d\<lparr>dl_checkpoint := loadTransferCheckpoint (dl_doc d) (ms_digest summary),
          dl_completed := 0, dl_downloaded := 0, dl_last := None\<rparr>);
        d0 \<leftarrow> get_state;
        tryE (forE es (fetch_entry cr allot net summary bytesPerSecond (dl_now d0) treeRoot)) (\<lambda>_.
        tryE (forE (rev es) (finish_directory treeRoot)) (\<lambda>_. do {
          r \<leftarrow> sys_probe;
          d \<leftarrow> get_state;
          guardE (\<not> is_err r) TreeVerification
          (case buildFileManifest cr (\<lambda>_. True) (Some (cache_tree treeRoot (dl_nodes d))) of
             Inl _ \<Rightarrow> errE TreeVerification
           | Inr verified \<Rightarrow> guardE (ms_digest verified = ms_digest summary) TreeVerification (okE treeRoot)) })) }))"

end
