(* ===== verification/Plane_Safety.thy ===== *)
theory Plane_Safety
  imports Data_Plane Manifest_Agreement
begin

text \<open>
  What the data plane guarantees: who is served and what, that the bisection finds the entry a linear search finds, that a
  client's ticket changes only in its validity, and where the arithmetic on chunk indices wraps.
\<close>

section \<open>Search\<close>

definition splits_at :: "(nat \<Rightarrow> bool) \<Rightarrow> nat \<Rightarrow> nat \<Rightarrow> nat \<Rightarrow> bool" where
  "splits_at f i j n \<longleftrightarrow> i \<le> n \<and> n \<le> j \<and> (\<forall>k \<in> {i..<n}. \<not> f k) \<and> (\<forall>k \<in> {n..<j}. f k)"

definition rising :: "(nat \<Rightarrow> bool) \<Rightarrow> nat \<Rightarrow> nat \<Rightarrow> bool" where
  "rising f i j \<longleftrightarrow> (\<forall>a \<in> {i..<j}. \<forall>b \<in> {a..<j}. f a \<longrightarrow> f b)"

lemma splits_left: "splits_at f i h n \<Longrightarrow> rising f i j \<Longrightarrow> i \<le> h \<Longrightarrow> h < j \<Longrightarrow> f h \<Longrightarrow> splits_at f i j n"
  unfolding splits_at_def rising_def by (metis atLeastLessThan_iff le_trans less_imp_le not_le order.refl)

lemma splits_right: "splits_at f (h + 1) j n \<Longrightarrow> rising f i j \<Longrightarrow> i \<le> h \<Longrightarrow> h < j \<Longrightarrow> \<not> f h \<Longrightarrow> splits_at f i j n"
  unfolding splits_at_def rising_def
  by (metis Suc_eq_plus1 atLeastLessThan_iff le_Suc_eq le_less_trans le_trans not_less_eq_eq order.refl)

lemma search_between_least: "i \<le> j \<Longrightarrow> rising f i j \<Longrightarrow> splits_at f i j (search_between f i j)"
proof (induction f i j rule: search_between.induct)
  case (1 f i j)
  let ?h = "(i + j) div 2"
  consider (stop) "i = j" | (left) "i < j" "f ?h" | (right) "i < j" "\<not> f ?h" using 1(3) by fastforce
  then show ?case
  proof cases
    case stop
    then show ?thesis by (subst search_between.simps) (simp add: splits_at_def)
  next
    case left
    then have h: "i \<le> ?h" "?h < j" by auto
    have "rising f i ?h" using 1(4) h by (auto simp: rising_def)
    from 1(2) [OF left(1) refl _ h(1) this] left have "splits_at f i ?h (search_between f i ?h)" by blast
    from splits_left [OF this 1(4) h left(2)] left show ?thesis by (subst search_between.simps) simp
  next
    case right
    then have h: "i \<le> ?h" "?h < j" by auto
    have "rising f (?h + 1) j" using 1(4) h by (auto simp: rising_def)
    with 1(1) [OF right(1) refl right(2)] h(2) have "splits_at f (?h + 1) j (search_between f (?h + 1) j)" by simp
    from splits_right [OF this 1(4) h right(2)] right show ?thesis by (subst search_between.simps) simp
  qed
qed

lemma find_sorted:
  assumes "sorted (map me_relative es)"
  shows "findManifestEntry es r = find (\<lambda>e. me_relative e = r) es"
proof -
  define n where "n = search_between (\<lambda>i. r \<le> me_relative (es ! i)) 0 (length es)"
  have mono: "r \<le> me_relative (es ! b)" if "a \<le> b" "b < length es" "r \<le> me_relative (es ! a)" for a b
    using that sorted_nth_mono [OF assms, of a b] by simp
  have least: "n \<le> length es" "\<And>k. k < n \<Longrightarrow> \<not> r \<le> me_relative (es ! k)" "\<And>k. n \<le> k \<Longrightarrow> k < length es \<Longrightarrow> r \<le> me_relative (es ! k)"
  proof -
    have "rising (\<lambda>i. r \<le> me_relative (es ! i)) 0 (length es)"
      unfolding rising_def by (intro ballI impI) (rule mono; simp)
    from search_between_least [OF le0 this] have "splits_at (\<lambda>i. r \<le> me_relative (es ! i)) 0 (length es) n" unfolding n_def .
    then show "n \<le> length es" "\<And>k. k < n \<Longrightarrow> \<not> r \<le> me_relative (es ! k)" "\<And>k. n \<le> k \<Longrightarrow> k < length es \<Longrightarrow> r \<le> me_relative (es ! k)"
      unfolding splits_at_def by (meson atLeastLessThan_iff le0)+
  qed
  have def: "findManifestEntry es r = (if n < length es \<and> me_relative (es ! n) = r then Some (es ! n) else None)"
    unfolding findManifestEntry_def n_def by (simp add: Let_def)
  show ?thesis
  proof (cases "n < length es \<and> me_relative (es ! n) = r")
    case True
    moreover have "\<forall>k<n. me_relative (es ! k) \<noteq> r" using least(2) by auto
    ultimately have "find (\<lambda>e. me_relative e = r) es = Some (es ! n)" by (auto simp: find_Some_iff)
    with True show ?thesis by (simp add: def)
  next
    case False
    have "me_relative (es ! k) \<noteq> r" if "k < length es" for k
    proof
      assume eq: "me_relative (es ! k) = r"
      with least(2) have nk: "n \<le> k" by (meson not_le order_refl)
      then have "r \<le> me_relative (es ! n)" "me_relative (es ! n) \<le> me_relative (es ! k)"
        using least(3) that sorted_nth_mono [OF assms nk] by simp_all
      with eq False nk that show False by simp
    qed
    then have "find (\<lambda>e. me_relative e = r) es = None" by (auto simp: find_None_iff in_set_conv_nth)
    with False show ?thesis by (simp add: def)
  qed
qed

lemma built_sorted:
  "buildFileManifest cr progress root = Inr s \<Longrightarrow> sorted (map me_relative (fm_entries (ms_manifest s)))"
  by (auto simp: buildFileManifest_def result_inv Let_def split: option.splits)

text \<open>
  The optimised lookup agrees with its specification: in the entries of a manifest that the source
  built, the bisection of \<open>findManifestEntry\<close> returns exactly what a search through all the entries returns, for every path.
\<close>

theorem find_entry_equivalence:
  assumes "buildFileManifest cr progress root = Inr s"
  shows "findManifestEntry (fm_entries (ms_manifest s)) r = find (\<lambda>e. me_relative e = r) (fm_entries (ms_manifest s))"
  using find_sorted [OF built_sorted [OF assms]] .

theorem find_entry_equivalence_witness:
  "\<exists>s. buildFileManifest sample_hash (\<lambda>_. True) (Some sample_tree) = Inr s
     \<and> findManifestEntry (fm_entries (ms_manifest s)) ''c'' = None"
proof -
  obtain s where s: "buildFileManifest sample_hash (\<lambda>_. True) (Some sample_tree) = Inr s"
      "map me_relative (fm_entries (ms_manifest s)) = [''a'', ''b'']"
    by (simp add: buildFileManifest_def sample_tree_def visit_def add_entry_def openRegularNoFollow_def sample_stat_def empty_summary_def
        maximumManifestEntries_def maximumManifestBytes_def in_int64_def dot_def Let_def dir_entry_def file_entry_def)
  have "''c'' \<notin> set (map me_relative (fm_entries (ms_manifest s)))" unfolding s(2) by simp
  then have "find (\<lambda>e. me_relative e = ''c'') (fm_entries (ms_manifest s)) = None"
    unfolding find_None_iff by (metis image_eqI list.set_map)
  with find_entry_equivalence [OF s(1), of "''c''"] s(1) show ?thesis by metis
qed

section \<open>Authorization\<close>

lemma peer_matches [result_inv]: "peerMatchesPublicKey peers key \<longleftrightarrow> peers = Some [Ed25519Key key]"
proof (cases peers)
  case (Some ps)
  then show ?thesis
  proof (cases "\<exists>p. ps = [p]")
    case True
    then obtain p where "ps = [p]" by blast
    with Some show ?thesis by (cases p) (auto simp: peerMatchesPublicKey_def)
  next
    case False
    then consider "ps = []" | p q qs where "ps = p # q # qs" by (metis neq_Nil_conv)
    then show ?thesis
    proof cases
      case (2 p q qs)
      with Some show ?thesis by (cases p) (simp_all add: peerMatchesPublicKey_def)
    qed (use Some in \<open>simp add: peerMatchesPublicKey_def\<close>)
  qed
qed (simp add: peerMatchesPublicKey_def)

lemma authorizeE:
  assumes "authorize cr codec now host s request = Inr (body, base, summary)"
  obtains key where "rq_body request = Some body" "rq_post request"
    "validateDataPlaneTicket cr codec now (dr_ticket body) (ds_backend_key_id s) = Inr ()"
    "dt_source_agent_id (dr_ticket body) = ds_agent_id s"
    "parseEd25519PublicKey codec (dt_target_signing_public_pem (dr_ticket body)) = Inr key"
    "rq_tls request = Some [Ed25519Key key]"
    "Resolve (sh_lstat host) (ds_resolver s) (dt_source_root_handle (dr_ticket body)) (dt_source_relative_handle (dr_ticket body)) False = Inr base"
    "buildFileManifest cr (\<lambda>_. True) (tree_at host base) = Inr summary"
    "ms_digest summary = dt_manifest_digest (dr_ticket body)" "ms_total_bytes summary \<le> dt_maximum_bytes (dr_ticket body)"
  using assms
  by (auto simp: authorize_def result_inv Let_def split: option.splits)

lemma ticket_checked:
  assumes "validateDataPlaneTicket cr codec now t kid = Inr u"
  shows "dt_key_id t = kid" "dt_audience t = dataPlaneAudience" "ticket_in_window now t" "1 \<le> dt_fencing_token t"
    "dt_source_agent_id t \<noteq> dt_target_agent_id t" "dt_maximum_bytes t \<le> maximumManifestBytes"
    "sig_ok cr (CanonicalJSON (float_text cr) (dataPlaneTicketUnsigned t)) (dt_signature t)"
  using assms by (auto simp: validateDataPlaneTicket_def result_inv)

lemma window_times:
  "ticket_in_window now t \<Longrightarrow> \<exists>i e. dt_issued_at t = Stamp i \<and> dt_expires_at t = Stamp e \<and> now \<le> e \<and> e - i \<le> seconds 600"
  by (cases "dt_issued_at t"; cases "dt_expires_at t") (auto simp: ticket_in_window_def)

lemma served_chunkE:
  assumes "handleChunk cr codec now host s request = Answered a"
  obtains body base summary relative entry info content n off where
    "authorize cr codec now host s request = Inr (body, base, summary)"
    "cleanRelative (dr_relative body) = Inr relative" "relative \<noteq> dot"
    "findManifestEntry (fm_entries (ms_manifest summary)) relative = Some entry" "me_type entry = ''file''"
    "open_at host (path_join base relative) = Some (FileNode info content)" "st_nlink info \<le> 1" "int (length content) = me_size entry"
    "ca_file_digest a = me_sha256 entry" "ca_data a = take n (drop off content)" "n \<le> nat transferChunkSize"
proof -
  from assms obtain body base summary relative entry node info content where
    main: "authorize cr codec now host s request = Inr (body, base, summary)"
    "cleanRelative (dr_relative body) = Inr relative" "relative \<noteq> dot"
    "findManifestEntry (fm_entries (ms_manifest summary)) relative = Some entry" "me_type entry = ''file''"
    "open_at host (path_join base relative) = Some node" "openRegularNoFollow node = Inr (info, content)" "int (length content) = me_size entry"
    and rest: "(let offset = wrap64 (dr_chunk_index body * transferChunkSize); remaining = wrap64 (me_size entry - offset);
        len = (if remaining < transferChunkSize then remaining else transferChunkSize) in
      if len < 0 then Panics else case read_at content len offset of None \<Rightarrow> Refused 409
        | Some buffer \<Rightarrow> Answered \<lparr>ca_chunk_digest = ''sha256:'' @ sha256_hex cr buffer, ca_file_digest = me_sha256 entry, ca_data = buffer\<rparr>) = Answered a"
    unfolding handleChunk_def Let_def by (auto split: sum.splits option.splits if_splits prod.splits)
  define offset where "offset = wrap64 (dr_chunk_index body * transferChunkSize)"
  define remaining where "remaining = wrap64 (me_size entry - offset)"
  define len where "len = (if remaining < transferChunkSize then remaining else transferChunkSize)"
  from rest have a: "0 \<le> len" "0 \<le> offset" "ca_file_digest a = me_sha256 entry" "ca_data a = take (nat len) (drop (nat offset) content)"
    unfolding Let_def offset_def [symmetric] remaining_def [symmetric] len_def [symmetric]
    by (auto simp: read_at_def split: if_splits)
  from main(7) have node: "node = FileNode info content" "st_nlink info \<le> 1"
    by (auto simp: openRegularNoFollow_def result_inv split: fnode.splits)
  have "nat len \<le> nat transferChunkSize" unfolding len_def by auto
  with main node a(3,4) show ?thesis using that by blast
qed

section \<open>Who is served, and what\<close>

text \<open>
  \<^bold>\<open>C9\<close>. A chunk leaves the source only under the ticket's authority: the request carries a ticket signed by
  the backend, within its validity, issued for this source; the TLS peer holds the key of the target the ticket names; the path
  that is served lies below the root the ticket names, reached through plain names only; the tree below it had the manifest digest
  and at most the bytes of the ticket when it was listed; and the bytes are at most one chunk of a regular, singly linked file that this
  manifest lists, with the size it lists and the digest that is announced.
\<close>

theorem served_chunk_authorized:
  assumes "NewScopeResolver lstat0 roots = Inr (ds_resolver s)" and "handleChunk cr codec now host s request = Answered a"
  shows "\<exists>body base summary key root es r e info content n off.
     rq_body request = Some body
     \<and> sig_ok cr (CanonicalJSON (float_text cr) (dataPlaneTicketUnsigned (dr_ticket body))) (dt_signature (dr_ticket body))
     \<and> ticket_in_window now (dr_ticket body) \<and> dt_source_agent_id (dr_ticket body) = ds_agent_id s
     \<and> parseEd25519PublicKey codec (dt_target_signing_public_pem (dr_ticket body)) = Inr key \<and> rq_tls request = Some [Ed25519Key key]
     \<and> map_of (ds_resolver s) (dt_source_root_handle (dr_ticket body)) = Some root
     \<and> path_elems base = path_elems root @ es \<and> (\<forall>x \<in> set es. plain_elem x)
     \<and> buildFileManifest cr (\<lambda>_. True) (tree_at host base) = Inr summary
     \<and> ms_digest summary = dt_manifest_digest (dr_ticket body) \<and> ms_total_bytes summary \<le> dt_maximum_bytes (dr_ticket body)
     \<and> e \<in> set (fm_entries (ms_manifest summary)) \<and> me_relative e = r \<and> me_type e = ''file'' \<and> cleanRelative (dr_relative body) = Inr r
     \<and> open_at host (path_join base r) = Some (FileNode info content) \<and> st_nlink info \<le> 1 \<and> int (length content) = me_size e
     \<and> ca_file_digest a = me_sha256 e \<and> ca_data a = take n (drop off content) \<and> n \<le> nat transferChunkSize"
proof -
  from assms(2) obtain body base summary r e info content n off where
    auth: "authorize cr codec now host s request = Inr (body, base, summary)"
    and rel: "cleanRelative (dr_relative body) = Inr r"
    and found: "findManifestEntry (fm_entries (ms_manifest summary)) r = Some e"
    and served: "me_type e = ''file''" "open_at host (path_join base r) = Some (FileNode info content)" "st_nlink info \<le> 1"
      "int (length content) = me_size e" "ca_file_digest a = me_sha256 e" "ca_data a = take n (drop off content)" "n \<le> nat transferChunkSize"
    by (rule served_chunkE)
  from auth obtain key where a: "rq_body request = Some body" "rq_post request"
    "validateDataPlaneTicket cr codec now (dr_ticket body) (ds_backend_key_id s) = Inr ()"
    "dt_source_agent_id (dr_ticket body) = ds_agent_id s"
    "parseEd25519PublicKey codec (dt_target_signing_public_pem (dr_ticket body)) = Inr key"
    "rq_tls request = Some [Ed25519Key key]"
    "Resolve (sh_lstat host) (ds_resolver s) (dt_source_root_handle (dr_ticket body)) (dt_source_relative_handle (dr_ticket body)) False = Inr base"
    "buildFileManifest cr (\<lambda>_. True) (tree_at host base) = Inr summary"
    "ms_digest summary = dt_manifest_digest (dr_ticket body)" "ms_total_bytes summary \<le> dt_maximum_bytes (dr_ticket body)"
    by (rule authorizeE)
  note ticket = ticket_checked [OF a(3)]
  from a(7) NewScopeResolver_wf [OF assms(1)] obtain root es where below:
    "map_of (ds_resolver s) (dt_source_root_handle (dr_ticket body)) = Some root"
    "\<forall>x \<in> set es. plain_elem x" "path_elems base = path_elems root @ es" by (rule Resolve_InrE)
  have e: "e \<in> set (fm_entries (ms_manifest summary))" "me_relative e = r"
    using found unfolding find_sorted [OF built_sorted [OF a(8)]] by (auto simp: find_Some_iff)
  show ?thesis
    by (rule exI [of _ body], rule exI [of _ base], rule exI [of _ summary], rule exI [of _ key], rule exI [of _ root], rule exI [of _ es],
        rule exI [of _ r], rule exI [of _ e], rule exI [of _ info], rule exI [of _ content], rule exI [of _ n], rule exI [of _ off])
      (intro conjI a below e ticket(3,7) rel served)
qed

section \<open>Renewal of tickets\<close>

lemma same_scope_refl: "sameDataPlaneScope t t"
  by (simp add: sameDataPlaneScope_def)

lemma same_scope_trans: "sameDataPlaneScope t u \<Longrightarrow> sameDataPlaneScope u v \<Longrightarrow> sameDataPlaneScope t v"
  unfolding sameDataPlaneScope_def by metis

lemma ensure_same_scope: "ensureTicket x t = Inr u \<Longrightarrow> sameDataPlaneScope t u"
  by (auto simp: ensureTicket_def same_scope_refl result_inv split: option.splits if_splits)

lemma chunk_same_scope: "client_chunk cr x t r i d = (res, u) \<Longrightarrow> sameDataPlaneScope t u"
  by (auto simp: client_chunk_def same_scope_refl ensure_same_scope split: sum.splits)

lemma manifest_same_scope: "client_manifest cr x t = (res, u) \<Longrightarrow> sameDataPlaneScope t u"
  by (auto simp: client_manifest_def same_scope_refl ensure_same_scope split: sum.splits)

text \<open>One use of the client, whatever the network, the clock and the renewal path do.\<close>

inductive client_step :: "crypto \<Rightarrow> DataPlaneTicket \<Rightarrow> DataPlaneTicket \<Rightarrow> bool" for cr where
  asks_manifest: "client_step cr t (snd (client_manifest cr x t))"
| asks_chunk: "client_step cr t (snd (client_chunk cr x t r i d))"

interpretation client: machine "\<lambda>u. u = t" "client_step cr" "sameDataPlaneScope t" for cr t
proof
  show "sameDataPlaneScope t s" if "s = t" for s using that by (simp add: same_scope_refl)
  show "sameDataPlaneScope t v" if "sameDataPlaneScope t u" "client_step cr u v" for u v
    using that(2)
  proof cases
    case (asks_manifest x)
    then show ?thesis using manifest_same_scope [of cr x u] same_scope_trans [OF that(1)] by (metis prod.collapse)
  next
    case (asks_chunk x r i d)
    then show ?thesis using chunk_same_scope [of cr x u r i d] same_scope_trans [OF that(1)] by (metis prod.collapse)
  qed
qed

text \<open>
  However often a client asks, and whatever its renewal path returns, the ticket it holds is the one it
  started with except for the instants, the nonce and the signature: migration, run, attempt, fencing token, binding, agents, keys,
  source scope, manifest digest and byte limit never change.
\<close>

theorem client_ticket_scope:
  assumes "(client_step cr)\<^sup>*\<^sup>* t u"
  shows "u = t\<lparr>dt_issued_at := dt_issued_at u, dt_expires_at := dt_expires_at u, dt_nonce := dt_nonce u, dt_signature := dt_signature u\<rparr>"
proof -
  have "sameDataPlaneScope t u" using client.inv_reachable [OF refl assms] .
  then show ?thesis unfolding sameDataPlaneScope_def by (intro DataPlaneTicket.equality) simp_all
qed

section \<open>Chunk indices\<close>

definition at_index :: "int64 \<Rightarrow> http_request \<Rightarrow> http_request" where
  "at_index i request = request\<lparr>rq_body := map_option (\<lambda>b. b\<lparr>dr_chunk_index := i\<rparr>) (rq_body request)\<rparr>"

lemma authorize_at_index:
  assumes "authorize cr codec now host s request = Inr (body, base, summary)"
  shows "authorize cr codec now host s (at_index i request) = Inr (body\<lparr>dr_chunk_index := i\<rparr>, base, summary)"
  using assms by (auto simp: authorize_def at_index_def Let_def result_inv split: option.splits)

text \<open>
  The multiplication of a chunk index by the chunk size is not protected against overflow. A client that
  may read the first chunk of a file also gets that chunk under the index \<open>2\<^bsup>42\<^esup>\<close>, and the index \<open>2\<^bsup>41\<^esup>\<close>
  makes the handler panic on a buffer of negative length.
\<close>

theorem chunk_index_wraps:
  assumes "handleChunk cr codec now host s (at_index 0 request) = Answered a"
    and sizes: "\<And>p info content. open_at host p = Some (FileNode info content) \<Longrightarrow> int (length content) < 2 ^ 63"
  shows "handleChunk cr codec now host s (at_index (2 ^ 42) request) = Answered a
    \<and> handleChunk cr codec now host s (at_index (2 ^ 41) request) = Panics"
proof -
  from assms(1) obtain body base summary r e info content where
    auth: "authorize cr codec now host s (at_index 0 request) = Inr (body, base, summary)"
    and rest: "cleanRelative (dr_relative body) = Inr r" "r \<noteq> dot"
      "findManifestEntry (fm_entries (ms_manifest summary)) r = Some e" "me_type e = ''file''"
      "open_at host (path_join base r) = Some (FileNode info content)" "st_nlink info \<le> 1" "int (length content) = me_size e"
    by (rule served_chunkE)
  have again: "at_index i (at_index 0 request) = at_index i request" for i
    by (cases request) (simp add: at_index_def option.map_comp comp_def)
  note auth' = authorize_at_index [OF auth, unfolded again]
  have offset: "wrap64 (4398046511104 * transferChunkSize) = 0" "wrap64 (2199023255552 * transferChunkSize) = - (2 ^ 63)" "wrap64 0 = 0"
    by (simp_all add: wrap64_def transferChunkSize_def)
  have "dr_chunk_index body = 0" using authorize_at_index [OF auth, of 0] auth again [of 0] by (metis (no_types) Inr_inject prod.inject dataPlaneRequest.select_convs(3) dataPlaneRequest.update_convs(3) dataPlaneRequest.surjective)
  then have one: "handleChunk cr codec now host s (at_index (2 ^ 42) request) = handleChunk cr codec now host s (at_index 0 request)"
    using auth auth' [of "2 ^ 42"] rest by (simp add: handleChunk_def offset openRegularNoFollow_def Let_def)
  have size: "0 \<le> me_size e" "me_size e < 2 ^ 63" using sizes [OF rest(5)] rest(7) by simp_all
  have small: "me_size e - 2 ^ 63 < transferChunkSize" using size(2) by (simp add: transferChunkSize_def)
  from size have "wrap64 (me_size e - - (2 ^ 63)) = me_size e - 2 ^ 63" by (simp add: wrap64_def)
  then have two: "handleChunk cr codec now host s (at_index (2 ^ 41) request) = Panics"
    using auth' [of "2 ^ 41"] rest size small by (simp add: handleChunk_def offset openRegularNoFollow_def Let_def)
  show ?thesis using one two assms(1) by simp
qed

section \<open>A source that serves\<close>

definition sample_ticket :: DataPlaneTicket where
  "sample_ticket = \<lparr>dt_schema_version = dataPlaneTicketSchema, dt_key_id = ''k1'', dt_algorithm = ''ed25519-v1'', dt_audience = dataPlaneAudience,
     dt_migration_id = ''m'', dt_run_id = ''r'', dt_attempt_id = ''a'', dt_fencing_token = 1,
     dt_binding_id = ''12345678-1234-1234-8234-123456789012'', dt_source_agent_id = ''src'', dt_target_agent_id = ''dst'',
     dt_source_signing_key_id = ''sk'', dt_source_signing_public_pem = ''S'', dt_target_signing_key_id = ''tk'',
     dt_target_signing_public_pem = ''T'', dt_source_root_handle = ''data'', dt_source_relative_handle = ''app'',
     dt_manifest_digest = ''sha256:'' @ replicate 64 (CHR ''a''), dt_chunk_size_bytes = transferChunkSize, dt_maximum_bytes = 100,
     dt_issued_at = Stamp 0, dt_expires_at = Stamp (seconds 300), dt_nonce = replicate 22 (CHR ''n''), dt_signature = ''sig''\<rparr>"

definition sample_codec :: key_codec where
  "sample_codec = \<lparr>pem_block = Some, pkix_key = (\<lambda>b. Some (Ed25519Key (replicate 32 (hd b))))\<rparr>"

definition sample_server :: DataPlaneServer where
  "sample_server = \<lparr>ds_agent_id = ''src'', ds_signing_key_id = ''sk'', ds_signing_public_pem = ''S'', ds_backend_key_id = ''k1'',
     ds_resolver = [(''data'', ''/srv/data'')]\<rparr>"

definition sample_host :: source_host where
  "sample_host = \<lparr>sh_lstat = (\<lambda>_. StatOk FDir), tree_at = (\<lambda>_. Some sample_tree), open_at = (\<lambda>_. Some (FileNode sample_stat ''hello''))\<rparr>"

definition sample_ask :: http_request where
  "sample_ask = \<lparr>rq_post = True, rq_tls = Some [Ed25519Key (replicate 32 (CHR ''T''))],
     rq_body = Some \<lparr>dr_ticket = sample_ticket, dr_relative = ''b'', dr_chunk_index = 0\<rparr>\<rparr>"

lemma sample_ticket_valid: "validateDataPlaneTicket sample_hash sample_codec 5 sample_ticket ''k1'' = Inr ()"
proof -
  have "opaqueBindingPattern ''12345678-1234-1234-8234-123456789012''" by code_simp
  moreover have "cleanRelative ''app'' = Inr ''app''" by code_simp
  ultimately show ?thesis
    by (simp add: validateDataPlaneTicket_def sample_ticket_def sample_hash_def ticket_in_window_def seconds_def parseEd25519PublicKey_def
        sample_codec_def maximumManifestBytes_def has_prefix_def)
qed

lemma sample_manifest_built:
  obtains s where "buildFileManifest sample_hash (\<lambda>_. True) (Some sample_tree) = Inr s"
    "map me_relative (fm_entries (ms_manifest s)) = [''a'', ''b'']" "fm_entries (ms_manifest s) ! 1 = file_entry sample_hash ''b'' sample_stat ''hello''"
    "ms_digest s = ''sha256:'' @ replicate 64 (CHR ''a'')" "ms_total_bytes s = 5"
  by (simp add: buildFileManifest_def sample_tree_def visit_def add_entry_def openRegularNoFollow_def sample_stat_def empty_summary_def
      maximumManifestEntries_def maximumManifestBytes_def in_int64_def dot_def Let_def dir_entry_def file_entry_def manifest_digest_def Digest_def
      sample_hash_def)

lemma sample_authorized:
  obtains s where "authorize sample_hash sample_codec 5 sample_host sample_server sample_ask
      = Inr (\<lparr>dr_ticket = sample_ticket, dr_relative = ''b'', dr_chunk_index = 0\<rparr>, ''/srv/data/app'', s)"
    "findManifestEntry (fm_entries (ms_manifest s)) ''b'' = Some (file_entry sample_hash ''b'' sample_stat ''hello'')"
proof -
  obtain s where s: "buildFileManifest sample_hash (\<lambda>_. True) (Some sample_tree) = Inr s"
    "map me_relative (fm_entries (ms_manifest s)) = [''a'', ''b'']" "fm_entries (ms_manifest s) ! 1 = file_entry sample_hash ''b'' sample_stat ''hello''"
    "ms_digest s = ''sha256:'' @ replicate 64 (CHR ''a'')" "ms_total_bytes s = 5"
    by (rule sample_manifest_built)
  have res: "Resolve (\<lambda>_. StatOk FDir) [(''data'', ''/srv/data'')] ''data'' ''app'' False = Inr ''/srv/data/app''" by code_simp
  have "authorize sample_hash sample_codec 5 sample_host sample_server sample_ask
      = Inr (\<lparr>dr_ticket = sample_ticket, dr_relative = ''b'', dr_chunk_index = 0\<rparr>, ''/srv/data/app'', s)"
    using sample_ticket_valid s res
    by (simp add: authorize_def sample_ask_def sample_server_def sample_host_def parseEd25519PublicKey_def sample_codec_def
        sample_ticket_def peer_matches)
  moreover have "find (\<lambda>e. me_relative e = ''b'') (fm_entries (ms_manifest s)) = Some (file_entry sample_hash ''b'' sample_stat ''hello'')"
  proof -
    from s(2,3) obtain e1 e2 where "fm_entries (ms_manifest s) = [e1, e2]" "me_relative e1 = ''a''" "e2 = file_entry sample_hash ''b'' sample_stat ''hello''"
      by (auto simp: map_eq_Cons_conv)
    then show ?thesis by (simp add: file_entry_def)
  qed
  ultimately show ?thesis using that find_sorted [OF built_sorted [OF s(1)], of "''b''"] by simp
qed

lemma sample_served:
  "handleChunk sample_hash sample_codec 5 sample_host sample_server sample_ask =
     Answered \<lparr>ca_chunk_digest = ''sha256:'' @ replicate 64 (CHR ''a''), ca_file_digest = ''sha256:'' @ replicate 64 (CHR ''a''), ca_data = ''hello''\<rparr>"
proof -
  obtain s where auth: "authorize sample_hash sample_codec 5 sample_host sample_server sample_ask
      = Inr (\<lparr>dr_ticket = sample_ticket, dr_relative = ''b'', dr_chunk_index = 0\<rparr>, ''/srv/data/app'', s)"
    "findManifestEntry (fm_entries (ms_manifest s)) ''b'' = Some (file_entry sample_hash ''b'' sample_stat ''hello'')"
    by (rule sample_authorized)
  have "cleanRelative ''b'' = Inr ''b''" by code_simp
  then show ?thesis
    using auth by (simp add: handleChunk_def dot_def file_entry_def sample_host_def openRegularNoFollow_def sample_stat_def read_at_def
        transferChunkSize_def in_int64_def hashOpenFile_def sample_hash_def Let_def)
qed

theorem served_chunk_authorized_witness:
  "\<exists>es. path_elems ''/srv/data/app'' = path_elems ''/srv/data'' @ es \<and> es = [''app'']
     \<and> rq_tls sample_ask = Some [Ed25519Key (replicate 32 (CHR ''T''))]
     \<and> handleChunk sample_hash sample_codec 5 sample_host sample_server sample_ask \<noteq> Panics"
proof -
  have "NewScopeResolver (\<lambda>_. StatOk FDir) [(''data'', ''/srv/data'')] = Inr (ds_resolver sample_server)"
    unfolding sample_server_def by simp code_simp
  from served_chunk_authorized [OF this sample_served] obtain key where "rq_tls sample_ask = Some [Ed25519Key key]" by blast
  moreover have "path_elems ''/srv/data/app'' = [''srv'', ''data'', ''app'']" "path_elems ''/srv/data'' = [''srv'', ''data'']" by code_simp+
  ultimately show ?thesis using sample_served by (simp add: sample_ask_def)
qed

theorem chunk_index_wraps_witness:
  "handleChunk sample_hash sample_codec 5 sample_host sample_server (at_index (2 ^ 41) sample_ask) = Panics"
proof -
  have "at_index 0 sample_ask = sample_ask" by (simp add: at_index_def sample_ask_def)
  then show ?thesis
    using chunk_index_wraps [of sample_hash sample_codec 5 sample_host sample_server sample_ask] sample_served by (simp add: sample_host_def)
qed

theorem client_ticket_scope_witness:
  "\<exists>u. (client_step sample_hash)\<^sup>*\<^sup>* sample_ticket u \<and> dt_nonce u = replicate 30 (CHR ''x'') \<and> dt_maximum_bytes u = 100"
proof -
  let ?u = "sample_ticket\<lparr>dt_nonce := replicate 30 (CHR ''x'')\<rparr>"
  let ?x = "\<lparr>x_now = seconds 250, x_refresh = Some (\<lambda>_. Some ?u), x_manifest = (\<lambda>_. None), x_chunk = (\<lambda>_. None)\<rparr>"
  have "snd (client_manifest sample_hash ?x sample_ticket) = ?u"
    by (simp add: client_manifest_def ensureTicket_def sample_ticket_def seconds_def sameDataPlaneScope_def)
  then have "client_step sample_hash sample_ticket ?u" using asks_manifest [of sample_hash sample_ticket ?x] by simp
  then have run: "(client_step sample_hash)\<^sup>*\<^sup>* sample_ticket ?u" by blast
  from client_ticket_scope [OF run] have "dt_maximum_bytes ?u = dt_maximum_bytes sample_ticket" by simp
  with run show ?thesis by (auto simp: sample_ticket_def)
qed

end
