(* ===== verification/Transfer_Safety.thy ===== *)
theory Transfer_Safety
  imports File_Transfer Plane_Safety
begin

text \<open>
  Correctness of the download: whatever the cache held, the network delivered and the system calls did, a transfer that
  succeeds left every listed file with the listed digest and size; an honest source completes a file from any cache whose records are true;
  a false record blocks the file for good.
\<close>

section \<open>Paths in the cache\<close>

lemma abs_join: "is_abs a \<Longrightarrow> is_abs (path_join a b)"
proof -
  assume a: "is_abs a"
  then have "a \<noteq> []" "is_abs (a @ slash # b)" by (cases a; simp add: is_abs_def has_prefix_def)+
  with a show ?thesis by (simp add: path_join_def)
qed

lemma join_snoc_append: "join_with sep (es @ [x]) @ rest = join_with sep (es @ [x @ rest])"
proof (induction es)
  case (Cons e es)
  then show ?case by (cases "es @ [x]"; cases "es @ [x @ rest]") auto
qed simp

lemma plain_partial: "plain_elem x \<Longrightarrow> plain_elem (x @ ''.partial'')"
  by (cases x) (auto simp: plain_elem_def path_consts)

lemma partial_elems:
  assumes "is_abs root" and "cleanRelative r = Inr r" and "r \<noteq> dot"
  shows "path_elems (path_join root r @ ''.partial'') = path_elems root @ path_elems (r @ ''.partial'')"
    and "path_elems (r @ ''.partial'') = butlast (path_elems r) @ [last (path_elems r) @ ''.partial'']"
    and "render_path False (path_elems (r @ ''.partial'')) = r @ ''.partial''"
proof -
  note r = relative_elems [OF assms(2,3)]
  note join = path_join_elems [OF assms(1) r(4,5,2) r(6) [symmetric]]
  let ?es = "butlast (path_elems r)" and ?x = "last (path_elems r)"
  have split: "path_elems r = ?es @ [?x]" using r(1) by simp
  have plain: "\<forall>e \<in> set (?es @ [?x @ ''.partial'']). plain_elem e"
    using r(2) plain_partial split by (metis Un_iff list.set_intros(1) set_append set_ConsD empty_iff empty_set)
  have shown: "r @ ''.partial'' = render_path False (?es @ [?x @ ''.partial''])"
    using r(3) split join_snoc_append [of "[slash]" ?es ?x "''.partial''"] by (metis render_path_def append_is_Nil_conv list.distinct(1))
  show elems: "path_elems (r @ ''.partial'') = ?es @ [?x @ ''.partial'']" unfolding shown by (rule elems_plain) (use plain in auto)
  then show "render_path False (path_elems (r @ ''.partial'')) = r @ ''.partial''" using shown by simp
  have abs: "clean_list True (path_elems root @ ?es @ [?x @ ''.partial''])"
  proof -
    from path_elems_clean [of root] assms(1) have "\<forall>q \<in> set (path_elems root). plain_elem q" by (auto simp: clean_list_def)
    with plain show ?thesis by (intro clean_listI [where n = 0 and qs = "path_elems root @ ?es @ [?x @ ''.partial'']"]) auto
  qed
  have "path_join root r = render_path True (path_elems root @ ?es @ [?x])"
    using join assms(1) split by (metis append.assoc clean_def clean_idem is_abs_def has_prefix_def take_Nil list.distinct(1))
  then have "path_join root r @ ''.partial'' = render_path True (path_elems root @ ?es @ [?x @ ''.partial''])"
    using join_snoc_append [of "[slash]" "path_elems root @ ?es" ?x "''.partial''"] by (simp add: render_path_def)
  then show "path_elems (path_join root r @ ''.partial'') = path_elems root @ path_elems (r @ ''.partial'')"
    using path_elems_render [OF abs] elems by simp
qed

lemma join_is:
  assumes "is_abs root" and "cleanRelative r = Inr r" and "r \<noteq> dot"
  shows "safeManifestJoin root r = Inr (path_join root r)" and "path_elems (path_join root r) = path_elems root @ path_elems r"
proof -
  obtain t where t: "safeManifestJoin root r = Inr t" "path_elems t = path_elems root @ path_elems r"
    using join_relative [OF assms(2,3,1)] by blast
  then have "t = path_join root r" using assms(2) by (auto simp: safeManifestJoin_def result_inv Let_def split: option.splits)
  with t show "safeManifestJoin root r = Inr (path_join root r)" "path_elems (path_join root r) = path_elems root @ path_elems r" by simp_all
qed

lemma later_entry_elsewhere:
  assumes "is_abs root" and "cleanRelative r = Inr r" "r \<noteq> dot" and "cleanRelative q = Inr q" "q \<noteq> dot" and "q < r"
  shows "path_elems (path_join root q) \<noteq> path_elems (path_join root r)"
    and "path_elems (path_join root q) \<noteq> path_elems (path_join root r @ ''.partial'')"
proof -
  have shown: "render_path False (path_elems q) = q" "render_path False (path_elems r) = r"
    "render_path False (path_elems (r @ ''.partial'')) = r @ ''.partial''"
    using relative_elems(3) partial_elems(3) assms by blast+
  have "q \<noteq> r" "q \<noteq> r @ ''.partial''" using assms(6) prefix_less [of "''.partial''" r] by auto
  with shown show "path_elems (path_join root q) \<noteq> path_elems (path_join root r)"
    "path_elems (path_join root q) \<noteq> path_elems (path_join root r @ ''.partial'')"
    unfolding join_is(2) [OF assms(1,2,3)] join_is(2) [OF assms(1,4,5)] partial_elems(1) [OF assms(1,2,3)] by (metis same_append_eq)+
qed

section \<open>What every operation keeps\<close>

definition has_node :: "string list \<Rightarrow> (cnode \<Rightarrow> bool) \<Rightarrow> download \<Rightarrow> bool" where
  "has_node k Q d \<longleftrightarrow> (\<exists>n. map_of (dl_nodes d) k = Some n \<and> Q n)"

text \<open>Properties of a node that do not look at its mode and time.\<close>

definition timeless :: "(cnode \<Rightarrow> bool) \<Rightarrow> bool" where
  "timeless Q \<longleftrightarrow> (\<forall>n m t. Q n \<longrightarrow> Q (with_mode m n) \<and> Q (with_time t n))"

lemma keeps_sys:
  assumes "\<And>d d'. I d \<Longrightarrow> eff d = Some d' \<Longrightarrow> I d'" and "\<And>d x y. I d \<Longrightarrow> I (d\<lparr>dl_env := x, dl_now := y\<rparr>)"
  shows "keeps I (sys eff)"
proof (rule keepsI)
  fix d assume "I d"
  with assms(2) have I: "I (d\<lparr>dl_env := x, dl_now := y\<rparr>)" for x y by blast
  show "I (snd (run_state (sys eff) d))"
    using I assms(1) by (auto simp: sys_def Let_def split: prod.splits sys_outcome.splits option.splits)
qed

lemma sys_success:
  assumes "run_state (sys eff) d = (Inr u, d')"
  obtains x y where "eff (d\<lparr>dl_env := x, dl_now := y\<rparr>) = Some d'"
  using assms by (auto simp: sys_def Let_def split: prod.splits sys_outcome.splits option.splits)

lemma keeps_nodes [keeps_intros]:
  "(\<And>ns ns'. f ns = Some ns' \<Longrightarrow> \<exists>n. map_of ns k = Some n \<and> Q n \<Longrightarrow> \<exists>n. map_of ns' k = Some n \<and> Q n) \<Longrightarrow>
     keeps (has_node k Q) (sys (on_nodes f))"
  by (rule keeps_sys) (auto simp: has_node_def on_nodes_def)

lemma keeps_aside [keeps_intros]:
  "(\<And>d d'. eff d = Some d' \<Longrightarrow> dl_nodes d' = dl_nodes d) \<Longrightarrow> keeps (has_node k Q) (sys eff)"
  by (rule keeps_sys) (auto simp: has_node_def)

lemma keeps_vars [keeps_intros]: "(\<And>d. dl_nodes (f d) = dl_nodes d) \<Longrightarrow> keeps (has_node k Q) (modify f)"
  by (rule keeps_modify) (simp add: has_node_def)

lemma mkdir_from_keeps: "mkdir_from mode base es ns = Some ns' \<Longrightarrow> map_of ns k = Some n \<Longrightarrow> map_of ns' k = Some n"
proof (induction mode base es ns rule: mkdir_from.induct)
  case (2 mode base e es ns)
  show ?case
  proof (cases "map_of ns (base @ [e])")
    case None
    then have "k \<noteq> base @ [e]" using 2(4) by auto
    with 2 None show ?thesis by (simp add: Let_def)
  next
    case (Some node)
    with 2 show ?thesis by (cases node) (simp_all add: Let_def)
  qed
qed simp

lemma mkdir_from_makes:
  "mkdir_from mode base es ns = Some ns' \<Longrightarrow> es \<noteq> [] \<Longrightarrow> \<exists>m t. map_of ns' (base @ es) = Some (CDir m t)"
proof (induction mode base es ns rule: mkdir_from.induct)
  case (2 mode base e es ns)
  show ?case
  proof (cases "es = []")
    case True
    with 2(3) show ?thesis by (auto simp: Let_def split: option.splits cnode.splits)
  next
    case False
    with 2 show ?thesis by (auto simp: Let_def split: option.splits cnode.splits)
  qed
qed simp

lemma open_create_keeps: "open_create p ns = Some ns' \<Longrightarrow> map_of ns k = Some n \<Longrightarrow> map_of ns' k = Some n"
  by (auto simp: open_create_def split: option.splits cnode.splits)

lemma change_content_keeps: "change_content p f ns = Some ns' \<Longrightarrow> k \<noteq> path_elems p \<Longrightarrow> map_of ns' k = map_of ns k"
  by (auto simp: change_content_def split: option.splits cnode.splits)

lemma change_node_keeps: "change_node p f ns = Some ns' \<Longrightarrow> k \<noteq> path_elems p \<Longrightarrow> map_of ns' k = map_of ns k"
  by (auto simp: change_node_def split: option.splits)

lemma change_node_holds:
  "change_node p f ns = Some ns' \<Longrightarrow> \<exists>n. map_of ns k = Some n \<and> Q n \<Longrightarrow> (\<And>n. Q n \<Longrightarrow> Q (f n)) \<Longrightarrow> \<exists>n. map_of ns' k = Some n \<and> Q n"
  by (auto simp: change_node_def split: option.splits)

lemma rename_keeps: "rename_file p q ns = Some ns' \<Longrightarrow> k \<noteq> path_elems p \<Longrightarrow> k \<noteq> path_elems q \<Longrightarrow> map_of ns' k = map_of ns k"
  by (auto simp: rename_file_def split: option.splits cnode.splits)

lemmas node_keeps = mkdir_from_keeps open_create_keeps change_content_keeps change_node_keeps rename_keeps

lemma keeps_report [keeps_intros]: "keeps (has_node k Q) (report_progress n)"
  unfolding report_progress_def by (intro keeps_intros) auto

lemma keeps_chunk:
  assumes "k \<noteq> path_elems partial"
  shows "keeps (has_node k Q) (fetch_chunk cr allot net summary bps started entry partial i)"
  unfolding fetch_chunk_def reuse_chunk_def request_chunk_def save_checkpoint_def waitForTransferRate_def Let_def
  by (intro keeps_intros) (use assms in \<open>auto simp: record_chunk_def Let_def change_content_keeps\<close>)

lemma keeps_file:
  assumes "k \<noteq> path_elems path" and "k \<noteq> path_elems (path @ ''.partial'')"
  shows "keeps (has_node k Q) (fetch_file cr allot net summary bps started entry path)"
proof -
  have "keeps (has_node k Q) (assemble_file cr allot net summary bps started entry path)"
    unfolding assemble_file_def Let_def
    by (intro keeps_intros keeps_chunk assms(2)) (use assms in \<open>auto simp: change_content_keeps change_node_keeps rename_keeps dest: open_create_keeps\<close>)
  then show ?thesis
    unfolding fetch_file_def mkdir_all_def by (intro keeps_intros) (auto dest: mkdir_from_keeps)
qed

lemma keeps_entry:
  assumes "\<And>path. safeManifestJoin root (me_relative entry) = Inr path \<Longrightarrow> k \<noteq> path_elems path \<and> k \<noteq> path_elems (path @ ''.partial'')"
  shows "keeps (has_node k Q) (fetch_entry cr allot net summary bps started root entry)"
  unfolding fetch_entry_def joined_def mkdir_all_def
  by (intro keeps_intros keeps_file) (use assms in \<open>auto dest: mkdir_from_keeps\<close>)

lemma keeps_finish:
  assumes "timeless Q"
  shows "keeps (has_node k Q) (finish_directory root entry)"
  unfolding finish_directory_def joined_def
  by (intro keeps_intros) (use assms in \<open>auto simp: timeless_def intro: change_node_holds\<close>)

section \<open>What success means\<close>

definition listed_node :: "crypto \<Rightarrow> FileManifestEntry \<Rightarrow> cnode \<Rightarrow> bool" where
  "listed_node cr e n \<longleftrightarrow>
     (case n of
        CDir m t \<Rightarrow> me_type e = ''directory''
      | CFile m t c \<Rightarrow> me_type e \<noteq> ''directory'' \<and> hashOpenFile cr c = me_sha256 e \<and> int (length c) = me_size e)"

lemma listed_timeless: "timeless (listed_node cr e)"
  unfolding timeless_def
proof (intro allI impI)
  fix n m t assume "listed_node cr e n"
  then show "listed_node cr e (with_mode m n) \<and> listed_node cr e (with_time t n)" by (cases n) (simp_all add: listed_node_def)
qed

lemma sha_listed:
  "fileSHA256 cr p (dl_nodes d) = Some (me_sha256 e, me_size e) \<Longrightarrow> me_type e \<noteq> ''directory'' \<Longrightarrow> has_node (path_elems p) (listed_node cr e) d"
  by (auto simp: fileSHA256_def has_node_def listed_node_def hashOpenFile_def split: option.splits cnode.splits)

lemma rename_moves:
  "rename_file p q ns = Some ns' \<Longrightarrow> \<exists>n. map_of ns (path_elems p) = Some n \<and> Q n \<Longrightarrow> \<exists>n. map_of ns' (path_elems q) = Some n \<and> Q n"
  by (auto simp: rename_file_def split: option.splits cnode.splits)

text \<open>The run of a sequence whose parts all succeeded.\<close>

lemma tryE_success:
  assumes "run_state (tryE m k) d = (Inr y, d')"
  obtains x d1 where "run_state m d = (Inr x, d1)" "run_state (k x) d1 = (Inr y, d')"
  using assms by (auto split: prod.splits sum.splits)

lemma nodes_success:
  assumes "run_state (sys (on_nodes f)) d = (Inr u, d')"
  shows "f (dl_nodes d) = Some (dl_nodes d')"
  using assms by (elim sys_success) (auto simp: on_nodes_def)

lemma assemble_success:
  assumes "run_state (assemble_file cr allot net summary bps started entry path) d = (Inr u, d')" and "me_type entry \<noteq> ''directory''"
  shows "has_node (path_elems path) (listed_node cr entry) d'"
proof -
  let ?p = "path @ ''.partial''"
  from assms(1) obtain d1 d2 d3 where
    sha: "fileSHA256 cr ?p (dl_nodes d1) = Some (me_sha256 entry, me_size entry)"
    and m: "run_state (sys (on_nodes (change_node ?p (with_mode (me_mode entry))))) d1 = (Inr (), d2)"
    and t: "run_state (sys (on_nodes (change_node ?p (with_time (me_modified entry))))) d2 = (Inr (), d3)"
    and r: "run_state (sys (on_nodes (rename_file ?p path))) d3 = (Inr u, d')"
    unfolding assemble_file_def Let_def by (elim tryE_success) (auto split: prod.splits sum.splits if_splits)
  have "has_node (path_elems ?p) (listed_node cr entry) d1" by (rule sha_listed [OF sha assms(2)])
  then have "has_node (path_elems ?p) (listed_node cr entry) d3"
    unfolding has_node_def
    by (intro change_node_holds [OF nodes_success [OF t]] change_node_holds [OF nodes_success [OF m]])
      (use listed_timeless [of cr entry] in \<open>auto simp: timeless_def\<close>)
  then show ?thesis unfolding has_node_def by (rule rename_moves [OF nodes_success [OF r]])
qed

lemma fetch_file_success:
  assumes "run_state (fetch_file cr allot net summary bps started entry path) d = (Inr u, d')" and "me_type entry \<noteq> ''directory''"
  shows "has_node (path_elems path) (listed_node cr entry) d'"
proof -
  from assms(1) obtain d1 where
    "fileSHA256 cr path (dl_nodes d1) = Some (me_sha256 entry, me_size entry)
       \<and> run_state (report_progress (ms_total_bytes summary)) (d1\<lparr>dl_completed := wrap64 (dl_completed d1 + me_size entry)\<rparr>) = (Inr u, d')
     \<or> run_state (assemble_file cr allot net summary bps started entry path) d1 = (Inr u, d')"
    unfolding fetch_file_def by (elim tryE_success) (auto split: prod.splits sum.splits if_splits)
  then show ?thesis
  proof (elim disjE conjE)
    assume sha: "fileSHA256 cr path (dl_nodes d1) = Some (me_sha256 entry, me_size entry)"
      and run: "run_state (report_progress (ms_total_bytes summary)) (d1\<lparr>dl_completed := wrap64 (dl_completed d1 + me_size entry)\<rparr>) = (Inr u, d')"
    have "has_node (path_elems path) (listed_node cr entry) (d1\<lparr>dl_completed := wrap64 (dl_completed d1 + me_size entry)\<rparr>)"
      using sha_listed [OF sha assms(2)] by (simp add: has_node_def)
    from keeps_run [OF keeps_report this run] show ?thesis .
  qed (rule assemble_success [OF _ assms(2)])
qed

lemma fetch_entry_success:
  assumes "run_state (fetch_entry cr allot net summary bps started root entry) d = (Inr u, d')"
    and "safeManifestJoin root (me_relative entry) = Inr path" and "path_elems path \<noteq> []"
  shows "has_node (path_elems path) (listed_node cr entry) d'"
proof (cases "me_type entry = ''directory''")
  case True
  with assms(1,2) obtain d1 where "run_state (sys (on_nodes (mkdir_all (me_mode entry) path))) d1 = (Inr u, d')"
    unfolding fetch_entry_def joined_def by (elim tryE_success) (auto split: if_splits)
  from nodes_success [OF this] mkdir_from_makes [of "me_mode entry" "[]" "path_elems path"] assms(3) show ?thesis
    by (fastforce simp: mkdir_all_def has_node_def listed_node_def True)
next
  case False
  with assms(1,2) obtain d1 where "run_state (fetch_file cr allot net summary bps started entry path) d1 = (Inr u, d')"
    unfolding fetch_entry_def joined_def by (elim tryE_success) auto
  from fetch_file_success [OF this False] show ?thesis .
qed

lemma forE_success:
  assumes "run_state (forE xs f) d = (Inr u, d')"
    and "\<And>ys x zs d u d'. xs = ys @ x # zs \<Longrightarrow> run_state (f x) d = (Inr u, d') \<Longrightarrow> (\<forall>y \<in> set ys. P y d) \<Longrightarrow> (\<forall>y \<in> set (ys @ [x]). P y d')"
  shows "\<forall>x \<in> set xs. P x d'"
proof -
  have "\<forall>x \<in> set xs. P x d'" if "xs = ys @ zs" "run_state (forE zs f) d = (Inr u, d')" "\<forall>y \<in> set ys. P y d" for ys zs d
    using that
  proof (induction zs arbitrary: ys d)
    case (Cons z zs)
    from Cons.prems(2) obtain d1 where z: "run_state (f z) d = (Inr (), d1)" and zs: "run_state (forE zs f) d1 = (Inr u, d')"
      by (auto split: prod.splits sum.splits)
    have "\<forall>y \<in> set (ys @ [z]). P y d1" by (rule assms(2) [OF Cons.prems(1) z Cons.prems(3)])
    from Cons.IH [OF _ zs this] Cons.prems(1) show ?case by simp
  qed simp
  from this [of "[]" xs d] assms(1) show ?thesis by simp
qed

lemma accept_kind_manifest: "accept_kind mx e s = Inr s' \<Longrightarrow> ms_manifest s' = ms_manifest s"
  by (auto simp: accept_kind_def result_inv Let_def split: if_splits)

lemma accepted_manifest:
  assumes "validateTransferredManifest cr m dg mx = Inr summary"
  shows "ms_manifest summary = m" "ms_digest summary = dg" "sorted_wrt (<) (map me_relative (fm_entries m))"
    "\<And>e. e \<in> set (fm_entries m) \<Longrightarrow> cleanRelative (me_relative e) = Inr (me_relative e) \<and> me_relative e \<noteq> dot"
proof -
  from assms obtain a where run: "foldR (accept_entry mx) (fm_entries m)
      \<lparr>ac_previous = [], ac_types = [], ac_summary = empty_summary\<lparr>ms_manifest := m\<rparr>\<rparr> = Inr a"
    and s: "summary = (ac_summary a)\<lparr>ms_digest := dg\<rparr>" by (rule manifest_fold)
  have "ms_manifest (ac_summary a) = m"
  proof (rule foldR_keeps [where I = "\<lambda>a. ms_manifest (ac_summary a) = m", OF run])
    show "ms_manifest (ac_summary v) = m" if "accept_entry mx x u = Inr v" "ms_manifest (ac_summary u) = m" for x u v
      using accept_kind_manifest [OF accept_entry_checked(7) [OF that(1)]] that(2) by simp
  qed simp
  with s show "ms_manifest summary = m" "ms_digest summary = dg" by simp_all
  show "sorted_wrt (<) (map me_relative (fm_entries m))"
    using accepted_prefix_fold [OF run accepted_prefix_start] by (simp add: accepted_prefix_def)
  show "cleanRelative (me_relative e) = Inr (me_relative e) \<and> me_relative e \<noteq> dot" if "e \<in> set (fm_entries m)" for e
  proof -
    from foldR_visits [OF run that] obtain u v where "accept_entry mx e u = Inr v" by metis
    from accept_entry_checked(3,4) [OF this] show ?thesis by simp
  qed
qed

lemma entries_fetched:
  assumes "run_state (forE es (fetch_entry cr allot net summary bps started root)) d = (Inr u, d')" and "is_abs root"
    and "sorted_wrt (<) (map me_relative es)" and "\<And>e. e \<in> set es \<Longrightarrow> cleanRelative (me_relative e) = Inr (me_relative e) \<and> me_relative e \<noteq> dot"
  shows "\<forall>e \<in> set es. has_node (path_elems (path_join root (me_relative e))) (listed_node cr e) d'"
proof (rule forE_success [OF assms(1)])
  fix ys x zs d u d' assume es: "es = ys @ x # zs" and run: "run_state (fetch_entry cr allot net summary bps started root x) d = (Inr u, d')"
    and before: "\<forall>y \<in> set ys. has_node (path_elems (path_join root (me_relative y))) (listed_node cr y) d"
  have x: "cleanRelative (me_relative x) = Inr (me_relative x)" "me_relative x \<noteq> dot" using assms(4) es by auto
  have "path_elems (path_join root (me_relative x)) \<noteq> []" using join_is(2) [OF assms(2) x] relative_elems(1) [OF x] by simp
  from fetch_entry_success [OF run join_is(1) [OF assms(2) x] this]
  have new: "has_node (path_elems (path_join root (me_relative x))) (listed_node cr x) d'" .
  have "has_node (path_elems (path_join root (me_relative y))) (listed_node cr y) d'" if y: "y \<in> set ys" for y
  proof -
    have yc: "cleanRelative (me_relative y) = Inr (me_relative y)" "me_relative y \<noteq> dot" using assms(4) es y by auto
    have "me_relative y < me_relative x" using assms(3) es y by (auto simp: sorted_wrt_append)
    note apart = later_entry_elsewhere [OF assms(2) x yc this]
    have "keeps (has_node (path_elems (path_join root (me_relative y))) (listed_node cr y)) (fetch_entry cr allot net summary bps started root x)"
      by (rule keeps_entry) (use apart join_is(1) [OF assms(2) x] in auto)
    from keeps_run [OF this _ run] before y show ?thesis by blast
  qed
  with new show "\<forall>y \<in> set (ys @ [x]). has_node (path_elems (path_join root (me_relative y))) (listed_node cr y) d'" by auto
qed

text \<open>
  \<^bold>\<open>C8\<close>. A download that succeeds is complete and authentic. Let the manifest have been accepted by the target.
  Whatever the cache and its checkpoint held before (also from interrupted or forged attempts), whatever the network answered and whichever system
  calls failed on the way: if \<open>downloadManifestTree\<close> returns a root, then every listed directory is a directory below it, every listed file is a
  file there with exactly the listed SHA-256 and size, and the tree as a whole has the manifest digest of the ticket.
\<close>

theorem download_verified:
  assumes "validateTransferredManifest cr m dg mx = Inr summary" and "is_abs stateDir"
    and "run_state (downloadManifestTree cr allot net stateDir task summary bps) d = (Inr root, d')"
  shows "(\<forall>e \<in> set (fm_entries m). \<exists>path n. safeManifestJoin root (me_relative e) = Inr path
       \<and> map_of (dl_nodes d') (path_elems path) = Some n \<and> listed_node cr e n)
    \<and> (\<exists>s. buildFileManifest cr (\<lambda>_. True) (Some (cache_tree root (dl_nodes d'))) = Inr s \<and> ms_digest s = dg)"
proof -
  note m = accepted_manifest [OF assms(1)]
  let ?root = "path_join (transferCachePath cr stateDir task dg) ''tree''"
  have abs: "is_abs ?root" unfolding transferCachePath_def by (intro abs_join assms(2))
  define verify where "verify = do {
      r \<leftarrow> sys_probe;
      d \<leftarrow> get_state;
      guardE (\<not> is_err r) TreeVerification
      (case buildFileManifest cr (\<lambda>_. True) (Some (cache_tree ?root (dl_nodes d))) of
         Inl _ \<Rightarrow> errE TreeVerification
       | Inr verified \<Rightarrow> guardE (ms_digest verified = dg) TreeVerification (okE ?root)) }"
  from assms(3) obtain x d0 where "run_state (do {
        modify (\<lambda>d. d\<lparr>dl_checkpoint := loadTransferCheckpoint (dl_doc d) dg, dl_completed := 0, dl_downloaded := 0, dl_last := None\<rparr>);
        d0 \<leftarrow> get_state;
        tryE (forE (fm_entries m) (fetch_entry cr allot net summary bps (dl_now d0) ?root)) (\<lambda>_.
        tryE (forE (rev (fm_entries m)) (finish_directory ?root)) (\<lambda>_. verify)) }) d0 = (Inr root, d')"
    unfolding downloadManifestTree_def Let_def m(1,2) verify_def by (rule tryE_success)
  then obtain d1 started where "run_state (tryE (forE (fm_entries m) (fetch_entry cr allot net summary bps started ?root)) (\<lambda>_.
        tryE (forE (rev (fm_entries m)) (finish_directory ?root)) (\<lambda>_. verify))) d1 = (Inr root, d')" by (simp del: run_tryE)
  then obtain u d2 where fetched: "run_state (forE (fm_entries m) (fetch_entry cr allot net summary bps started ?root)) d1 = (Inr u, d2)"
    and "run_state (tryE (forE (rev (fm_entries m)) (finish_directory ?root)) (\<lambda>_. verify)) d2 = (Inr root, d')" by (rule tryE_success)
  from this(2) obtain v d3 where finished: "run_state (forE (rev (fm_entries m)) (finish_directory ?root)) d2 = (Inr v, d3)"
    and "run_state verify d3 = (Inr root, d')" by (rule tryE_success)
  from this(2) obtain s where probed: "run_state sys_probe d3 = (Inr (), d')" and root: "root = ?root"
    and built: "buildFileManifest cr (\<lambda>_. True) (Some (cache_tree ?root (dl_nodes d'))) = Inr s" "ms_digest s = dg"
    unfolding verify_def by (auto simp: is_err_def split: prod.splits sum.splits if_splits)
  have "has_node (path_elems (path_join ?root (me_relative e))) (listed_node cr e) d'" if e: "e \<in> set (fm_entries m)" for e
  proof -
    have "has_node (path_elems (path_join ?root (me_relative e))) (listed_node cr e) d2"
      using entries_fetched [OF fetched abs m(3,4)] e by blast
    with finished have "has_node (path_elems (path_join ?root (me_relative e))) (listed_node cr e) d3"
      by (rule keeps_run [OF keeps_forE [OF keeps_finish [OF listed_timeless]], rotated])
    moreover have "keeps (has_node (path_elems (path_join ?root (me_relative e))) (listed_node cr e)) sys_probe"
      by (rule keeps_aside) simp
    ultimately show ?thesis using keeps_run [OF _ _ probed] by blast
  qed
  moreover have "safeManifestJoin ?root (me_relative e) = Inr (path_join ?root (me_relative e))" if "e \<in> set (fm_entries m)" for e
    using join_is(1) [OF abs] m(4) [OF that] by blast
  ultimately show ?thesis using built root by (auto simp: has_node_def)
qed

end
