(* ===== verification/Transfer_Liveness.thy ===== *)
theory Transfer_Liveness
  imports Transfer_Safety
begin

text \<open>
  Completion of a transfer. The chunks of a file cover it exactly; with an honest source a file is completed from any partial
  file whose checkpoint records are true; a checkpoint record of wrong bytes is never corrected.
\<close>

section \<open>Chunks\<close>

definition chunk_bytes :: nat where
  "chunk_bytes = 4194304"

lemma chunk_bytes_pos [simp]: "0 < chunk_bytes"
  by (simp add: chunk_bytes_def)

lemma transferChunkSize_eq: "transferChunkSize = int chunk_bytes"
  by (simp add: transferChunkSize_def chunk_bytes_def)

definition chunk_at :: "string \<Rightarrow> nat \<Rightarrow> string" where
  "chunk_at content k = take chunk_bytes (drop (k * chunk_bytes) content)"

definition chunk_total :: "nat \<Rightarrow> nat" where
  "chunk_total n = (n + chunk_bytes - 1) div chunk_bytes"

lemma chunkCount_eq:
  assumes "int n \<le> 2 ^ 62"
  shows "chunkCount (int n) = int (chunk_total n)"
proof -
  have "wrap64 (wrap64 (int n + transferChunkSize) - 1) = int (n + chunk_bytes - 1)"
    using assms by (simp add: transferChunkSize_def chunk_bytes_def in_int64_def)
  then show ?thesis unfolding chunkCount_def
    by (simp add: quot_nonneg transferChunkSize_eq chunk_total_def zdiv_int)
qed

lemma chunk_total_bound: "k < chunk_total n \<longleftrightarrow> k * chunk_bytes < n"
  unfolding chunk_total_def by (simp add: less_eq_div_iff_mult_less_eq Suc_le_eq [symmetric] flip: Suc_le_eq) (simp add: chunk_bytes_def; arith)

lemma chunk_total_covers: "n \<le> chunk_total n * chunk_bytes"
  using chunk_total_bound [of "chunk_total n" n] by simp

lemma in_int64_diff: "0 \<le> a \<Longrightarrow> a \<le> b \<Longrightarrow> b \<le> 2 ^ 62 \<Longrightarrow> in_int64 (b - a)"
  by (simp add: in_int64_def)

lemma chunk_region:
  assumes "int n \<le> 2 ^ 62" and "k < chunk_total n"
  shows "chunk_offset (int k) = int (k * chunk_bytes)" and "chunk_length (int n) (int k) = int (min chunk_bytes (n - k * chunk_bytes))"
proof -
  have k: "k * chunk_bytes < n" using assms(2) by (simp add: chunk_total_bound)
  have "in_int64 (int k * transferChunkSize)"
    using k assms(1) by (simp add: transferChunkSize_eq in_int64_def flip: of_nat_mult)
  then show off: "chunk_offset (int k) = int (k * chunk_bytes)" unfolding chunk_offset_def by (simp add: transferChunkSize_eq)
  have "int (k * chunk_bytes) < int n" using k by (simp only: of_nat_less_iff)
  then have "in_int64 (int n - int (k * chunk_bytes))" using assms(1) by (intro in_int64_diff) simp_all
  then show "chunk_length (int n) (int k) = int (min chunk_bytes (n - k * chunk_bytes))"
    unfolding chunk_length_def off Let_def transferChunkSize_eq using k by (auto simp: min_def simp del: of_nat_mult)
qed

lemma length_chunk_at: "length (chunk_at c k) = min chunk_bytes (length c - k * chunk_bytes)"
  by (simp add: chunk_at_def min.commute)

lemma region_is_chunk:
  assumes "int (length c) \<le> 2 ^ 62" and "k < chunk_total (length c)"
  shows "take (nat (chunk_length (int (length c)) (int k))) (drop (nat (chunk_offset (int k))) c) = chunk_at c k"
  unfolding chunk_region [OF assms] chunk_at_def nat_int by (simp add: min_def)

lemma take_chunk: "take (Suc k * chunk_bytes) c = take (k * chunk_bytes) c @ chunk_at c k"
proof -
  have "Suc k * chunk_bytes = k * chunk_bytes + chunk_bytes" by simp
  then show ?thesis by (simp only: take_add chunk_at_def)
qed

lemma chunks_cover: "concat (map (chunk_at c) [0..<n]) = take (n * chunk_bytes) c"
proof (induction n)
  case (Suc n)
  then show ?case unfolding take_chunk by simp
qed simp

text \<open>A partial file into which the first chunks of the content have been written.\<close>

definition mixed :: "string \<Rightarrow> string \<Rightarrow> nat \<Rightarrow> string" where
  "mixed content before k = take (k * chunk_bytes) content @ drop (k * chunk_bytes) before"

lemma length_mixed: "length before = length content \<Longrightarrow> length (mixed content before k) = length content"
  by (simp add: mixed_def)

lemma mixed_0 [simp]: "mixed content before 0 = before"
  by (simp add: mixed_def)

lemma mixed_done: "length before = length content \<Longrightarrow> mixed content before (chunk_total (length content)) = content"
  using chunk_total_covers [of "length content"] by (simp add: mixed_def)

lemma mixed_chunk:
  assumes "length before = length content" and "k * chunk_bytes < length content"
  shows "chunk_at (mixed content before k) k = chunk_at before k"
  using assms by (simp add: mixed_def chunk_at_def)

lemma mixed_kept:
  assumes "length before = length content" and "chunk_at before k = chunk_at content k"
  shows "mixed content before (Suc k) = mixed content before k"
proof -
  have "drop (k * chunk_bytes) before = chunk_at before k @ drop (Suc k * chunk_bytes) before"
    unfolding chunk_at_def by (metis add.commute append_take_drop_id drop_drop mult_Suc)
  then show ?thesis unfolding mixed_def take_chunk by (simp add: assms(2))
qed

lemma mixed_written:
  assumes "length before = length content" and "k * chunk_bytes < length content"
  shows "write_at (k * chunk_bytes) (chunk_at content k) (mixed content before k) = mixed content before (Suc k)"
proof -
  have len: "length (mixed content before k) = length content" by (rule length_mixed [OF assms(1)])
  have "truncate_to (k * chunk_bytes) (mixed content before k) = take (k * chunk_bytes) content"
    using assms len unfolding truncate_to_def by (simp add: mixed_def)
  moreover have "drop (k * chunk_bytes + length (chunk_at content k)) (mixed content before k) = drop (Suc k * chunk_bytes) before"
    using assms by (auto simp: mixed_def length_chunk_at min_def add.commute)
  ultimately show ?thesis unfolding write_at_def by (simp add: mixed_def take_chunk del: mult_Suc)
qed

section \<open>Runs without faults\<close>

lemma run_sys_calm:
  assumes "dl_env d = []"
  shows "run_state (sys eff) d = (case eff d of None \<Rightarrow> (Inl SysFailed, d) | Some e \<Rightarrow> (Inr (), e))"
  using assms by (cases d) (simp add: sys_def Let_def split: option.split)

lemma run_probe_calm: "dl_env d = [] \<Longrightarrow> run_state sys_probe d = (Inr (), d)"
  by (simp add: run_sys_calm)

lemma run_report_calm:
  assumes "dl_env d = []"
  shows "\<exists>x. run_state (report_progress n) d = (Inr (), d\<lparr>dl_last := x\<rparr>)"
proof -
  have "d = d\<lparr>dl_last := dl_last d\<rparr>" by (cases d) simp
  then have "\<exists>x. d = d\<lparr>dl_last := x\<rparr>" by blast
  with assms show ?thesis unfolding report_progress_def by (auto simp: run_probe_calm)
qed

lemma run_wait_calm:
  assumes "dl_env d = []"
  shows "\<exists>x. run_state (waitForTransferRate allot started bps) d = (Inr (), d\<lparr>dl_now := x\<rparr>)"
proof -
  have "d = d\<lparr>dl_now := dl_now d\<rparr>" by (cases d) simp
  then have "\<exists>x. d = d\<lparr>dl_now := x\<rparr>" by blast
  with assms show ?thesis unfolding waitForTransferRate_def by (auto simp: run_sys_calm Let_def)
qed

lemma recorded_record_chunk:
  assumes "0 \<le> i" and "0 \<le> j" and "i \<noteq> j"
  shows "recorded r j (record_chunk r i x d) = recorded r j d"
proof -
  have "int_str i \<noteq> int_str j" using assms by (simp add: int_str_inj)
  then show ?thesis by (cases x) (auto simp: recorded_def record_chunk_def Let_def split: option.splits)
qed

text \<open>
  A source is honest about a file when it answers every request for one of its chunks with that chunk. The tickets of \<open>T\<close> are those
  the client may come to hold.
\<close>

definition honest_source :: "crypto \<Rightarrow> (nat \<Rightarrow> exchange) \<Rightarrow> DataPlaneTicket set \<Rightarrow> FileManifestEntry \<Rightarrow> string \<Rightarrow> bool" where
  "honest_source cr net T e content \<longleftrightarrow>
     (\<forall>n now t k. t \<in> T \<longrightarrow> k < chunk_total (length content) \<longrightarrow>
        (\<exists>t' \<in> T. client_chunk cr ((net n)\<lparr>x_now := now\<rparr>) t (me_relative e) (int k) (me_sha256 e)
           = (Inr (chunk_at content k, ''sha256:'' @ sha256_hex cr (chunk_at content k)), t')))"

text \<open>A record is true when a partial file that it vouches for holds the right bytes.\<close>

definition true_records :: "crypto \<Rightarrow> FileManifestEntry \<Rightarrow> string \<Rightarrow> string \<Rightarrow> download \<Rightarrow> bool" where
  "true_records cr e content before d \<longleftrightarrow>
     (\<forall>k < chunk_total (length content). recorded (me_relative e) (int k) d = ''sha256:'' @ sha256_hex cr (chunk_at before k)
        \<longrightarrow> chunk_at before k = chunk_at content k)"

text \<open>The state between chunks: the first \<open>k\<close> chunks are in place, the records from chunk \<open>l\<close> on are true, and the node at another
  path is untouched.\<close>

definition resumed ::
  "crypto \<Rightarrow> DataPlaneTicket set \<Rightarrow> FileManifestEntry \<Rightarrow> string \<Rightarrow> string \<Rightarrow> string list \<Rightarrow> string list \<Rightarrow> cnode option \<Rightarrow> nat \<Rightarrow> nat \<Rightarrow> download \<Rightarrow> bool" where
  "resumed cr T e content before key other node k l d \<longleftrightarrow>
     dl_env d = [] \<and> dl_ticket d \<in> T \<and> (\<exists>m t. map_of (dl_nodes d) key = Some (CFile m t (mixed content before k)))
     \<and> map_of (dl_nodes d) other = node
     \<and> (\<forall>j < chunk_total (length content). l \<le> j \<longrightarrow> recorded (me_relative e) (int j) d = ''sha256:'' @ sha256_hex cr (chunk_at before j)
          \<longrightarrow> chunk_at before j = chunk_at content j)"

lemma resumed_vars:
  assumes "resumed cr T e content before key other node k l d"
    and "dl_env d' = []" "dl_ticket d' \<in> T" "dl_nodes d' = dl_nodes d" "dl_checkpoint d' = dl_checkpoint d" and "l \<le> l'"
  shows "resumed cr T e content before key other node k l' d'"
  using assms by (simp add: resumed_def recorded_def)

lemma resumed_record:
  assumes "resumed cr T e content before key other node k l d" and "l \<le> Suc i"
  shows "resumed cr T e content before key other node k (Suc i) (record_chunk (me_relative e) (int i) x d)"
proof -
  have "recorded (me_relative e) (int j) (record_chunk (me_relative e) (int i) x d) = recorded (me_relative e) (int j) d" if "Suc i \<le> j" for j
    using that by (intro recorded_record_chunk) simp_all
  moreover have "dl_env (record_chunk (me_relative e) (int i) x d) = dl_env d" "dl_ticket (record_chunk (me_relative e) (int i) x d) = dl_ticket d"
    "dl_nodes (record_chunk (me_relative e) (int i) x d) = dl_nodes d" by (simp_all add: record_chunk_def Let_def)
  ultimately show ?thesis using assms by (simp add: resumed_def)
qed

lemma reuse_chunk_calm:
  assumes inv: "resumed cr T e content before (path_elems p) other node k k d"
    and k: "k < chunk_total (length content)" and size: "me_size e = int (length content)" "int (length content) \<le> 2 ^ 62"
    and before: "length before = length content"
  shows "\<exists>d'. run_state (reuse_chunk cr e p (int k)) d = (True, d') \<and> resumed cr T e content before (path_elems p) other node (Suc k) (Suc k) d'
     \<or> run_state (reuse_chunk cr e p (int k)) d = (False, d') \<and> resumed cr T e content before (path_elems p) other node k (Suc k) d'"
proof -
  have kb: "k * chunk_bytes < length content" using k by (simp add: chunk_total_bound)
  from inv obtain m t where calm: "dl_env d = []" and T: "dl_ticket d \<in> T"
    and node: "map_of (dl_nodes d) (path_elems p) = Some (CFile m t (mixed content before k))" unfolding resumed_def by blast
  let ?r = "recorded (me_relative e) (int k) d"
  have len: "length (mixed content before k) = length content" by (rule length_mixed [OF before])
  have hash: "hashFileRegion cr p (chunk_offset (int k)) (chunk_length (me_size e) (int k)) (dl_nodes d)
      = Some (''sha256:'' @ sha256_hex cr (chunk_at before k))"
    using region_is_chunk [of "mixed content before k" k] mixed_chunk [OF before kb] k size
    unfolding hashFileRegion_def node len by simp
  consider (keep) "?r = ''sha256:'' @ sha256_hex cr (chunk_at before k)" | (none) "?r = []"
    | (drop) "?r \<noteq> []" "?r \<noteq> ''sha256:'' @ sha256_hex cr (chunk_at before k)" by blast
  then show ?thesis
  proof cases
    case keep
    then have "chunk_at before k = chunk_at content k" using inv k unfolding resumed_def by blast
    from mixed_kept [OF before this] inv have "resumed cr T e content before (path_elems p) other node (Suc k) k d"
      by (simp add: resumed_def)
    then have "resumed cr T e content before (path_elems p) other node (Suc k) (Suc k)
        (d\<lparr>dl_completed := wrap64 (dl_completed d + chunk_length (me_size e) (int k))\<rparr>)"
      by (rule resumed_vars) (use calm T in simp_all)
    moreover have "run_state (reuse_chunk cr e p (int k)) d = (True, d\<lparr>dl_completed := wrap64 (dl_completed d + chunk_length (me_size e) (int k))\<rparr>)"
      using keep hash calm by (simp add: reuse_chunk_def run_probe_calm Let_def)
    ultimately show ?thesis by blast
  next
    case none
    then have "run_state (reuse_chunk cr e p (int k)) d = (False, d)" by (simp add: reuse_chunk_def Let_def)
    moreover have "resumed cr T e content before (path_elems p) other node k (Suc k) d"
      by (rule resumed_vars [OF inv]) (use calm T in simp_all)
    ultimately show ?thesis by blast
  next
    case drop
    then have "run_state (reuse_chunk cr e p (int k)) d = (False, record_chunk (me_relative e) (int k) None d)"
      using hash calm by (simp add: reuse_chunk_def run_probe_calm Let_def)
    with resumed_record [OF inv, of k None] show ?thesis by auto
  qed
qed

lemma fetch_chunk_completes:
  assumes inv: "resumed cr T e content before (path_elems p) other node k k d" and other: "other \<noteq> path_elems p"
    and k: "k < chunk_total (length content)" and size: "me_size e = int (length content)" "int (length content) \<le> 2 ^ 62"
    and before: "length before = length content" and honest: "honest_source cr net T e content"
  shows "\<exists>d'. run_state (fetch_chunk cr allot net summary bps started e p (int k)) d = (Inr (), d')
    \<and> resumed cr T e content before (path_elems p) other node (Suc k) (Suc k) d'"
proof -
  from reuse_chunk_calm [OF inv k size before] obtain d1 where
    "run_state (reuse_chunk cr e p (int k)) d = (True, d1) \<and> resumed cr T e content before (path_elems p) other node (Suc k) (Suc k) d1
     \<or> run_state (reuse_chunk cr e p (int k)) d = (False, d1) \<and> resumed cr T e content before (path_elems p) other node k (Suc k) d1" by blast
  then show ?thesis
  proof (elim disjE conjE)
    assume "run_state (reuse_chunk cr e p (int k)) d = (True, d1)" "resumed cr T e content before (path_elems p) other node (Suc k) (Suc k) d1"
    then show ?thesis by (simp add: fetch_chunk_def)
  next
    assume reuse: "run_state (reuse_chunk cr e p (int k)) d = (False, d1)" and inv1: "resumed cr T e content before (path_elems p) other node k (Suc k) d1"
    have kb: "k * chunk_bytes < length content" using k by (simp add: chunk_total_bound)
    from inv1 obtain m t where calm: "dl_env d1 = []" and T: "dl_ticket d1 \<in> T"
      and file_: "map_of (dl_nodes d1) (path_elems p) = Some (CFile m t (mixed content before k))" unfolding resumed_def by blast
    let ?data = "chunk_at content k"
    define sha where "sha = ''sha256:'' @ sha256_hex cr (chunk_at content k)"
    from honest T k obtain t' where t': "t' \<in> T"
      and ans: "client_chunk cr ((net (dl_requests d1))\<lparr>x_now := dl_now d1\<rparr>) (dl_ticket d1) (me_relative e) (int k) (me_sha256 e) = (Inr (?data, sha), t')"
      unfolding honest_source_def sha_def by blast
    define d2 where "d2 = d1\<lparr>dl_ticket := t', dl_requests := dl_requests d1 + 1\<rparr>"
    define d3 where "d3 = d2\<lparr>dl_nodes := go_put (path_elems p) (CFile m t (mixed content before (Suc k))) (dl_nodes d2)\<rparr>"
    define d4 where "d4 = record_chunk (me_relative e) (int k) (Some sha) d3"
    have "resumed cr T e content before (path_elems p) other node k (Suc k) d2"
      by (rule resumed_vars [OF inv1]) (use calm t' in \<open>simp_all add: d2_def\<close>)
    then have "resumed cr T e content before (path_elems p) other node (Suc k) (Suc k) d3"
      using other by (simp add: resumed_def d3_def recorded_def)
    then have inv4: "resumed cr T e content before (path_elems p) other node (Suc k) (Suc k) d4"
      unfolding d4_def by (rule resumed_record) simp
    have calm4: "dl_env d4 = []" "dl_ticket d4 \<in> T" using inv4 by (simp_all add: resumed_def)
    note region = chunk_region [OF size(2) k]
    have len: "int (length ?data) = chunk_length (me_size e) (int k)" using region(2) size(1) by (simp add: length_chunk_at)
    have written: "on_nodes (change_content p (write_at (nat (chunk_offset (int k))) ?data)) d2 = Some d3"
      unfolding region nat_int
      using file_ mixed_written [OF before kb] by (simp add: on_nodes_def change_content_def d3_def d2_def)
    define d5 where "d5 = d4\<lparr>dl_doc := Some \<lparr>ck_schema_version = checkpointSchema, ck_manifest_digest = ms_digest summary, ck_chunks = Some (dl_checkpoint d4)\<rparr>,
        dl_completed := wrap64 (dl_completed d4 + chunk_length (me_size e) (int k)), dl_downloaded := wrap64 (dl_downloaded d4 + chunk_length (me_size e) (int k))\<rparr>"
    have "dl_env d5 = []" using calm4 by (simp add: d5_def)
    then obtain x where "run_state (report_progress (ms_total_bytes summary)) d5 = (Inr (), d5\<lparr>dl_last := x\<rparr>)" using run_report_calm by blast
    moreover have "dl_env (d5\<lparr>dl_last := x\<rparr>) = []" using \<open>dl_env d5 = []\<close> by simp
    then obtain y where "run_state (waitForTransferRate allot started bps) (d5\<lparr>dl_last := x\<rparr>) = (Inr (), d5\<lparr>dl_last := x, dl_now := y\<rparr>)"
      using run_wait_calm by blast
    moreover have "dl_env d2 = []" "dl_env d3 = []" using calm by (simp_all add: d2_def d3_def)
    moreover have "run_state (request_chunk cr net (me_relative e) (int k) (me_sha256 e)) d1 = (Inr (?data, sha), d2)"
      using ans by (simp add: request_chunk_def d2_def)
    ultimately have "run_state (fetch_chunk cr allot net summary bps started e p (int k)) d = (Inr (), d5\<lparr>dl_last := x, dl_now := y\<rparr>)"
      using reuse len written calm4
      by (simp add: fetch_chunk_def run_sys_calm save_checkpoint_def d5_def d4_def [symmetric])
    moreover have "resumed cr T e content before (path_elems p) other node (Suc k) (Suc k) (d5\<lparr>dl_last := x, dl_now := y\<rparr>)"
      by (rule resumed_vars [OF inv4]) (use calm4 in \<open>simp_all add: d5_def\<close>)
    ultimately show ?thesis by blast
  qed
qed

lemma chunks_complete:
  assumes "resumed cr T e content before (path_elems p) other node k k d" and "k \<le> chunk_total (length content)" and "other \<noteq> path_elems p"
    and "me_size e = int (length content)" "int (length content) \<le> 2 ^ 62" and "length before = length content" and "honest_source cr net T e content"
  shows "\<exists>d'. run_state (forE (map int [k..<chunk_total (length content)]) (fetch_chunk cr allot net summary bps started e p)) d = (Inr (), d')
    \<and> resumed cr T e content before (path_elems p) other node (chunk_total (length content)) (chunk_total (length content)) d'"
  using assms(1,2)
proof (induction "chunk_total (length content) - k" arbitrary: k d)
  case 0
  then show ?case by simp
next
  case (Suc n)
  then have k: "k < chunk_total (length content)" by simp
  from fetch_chunk_completes [OF Suc.prems(1) assms(3) k assms(4-7)] obtain d1 where
    d1: "run_state (fetch_chunk cr allot net summary bps started e p (int k)) d = (Inr (), d1)"
    "resumed cr T e content before (path_elems p) other node (Suc k) (Suc k) d1" by blast
  have "n = chunk_total (length content) - Suc k" using Suc.hyps(2) by simp
  from Suc.hyps(1) [OF this d1(2)] k obtain d' where
    "run_state (forE (map int [Suc k..<chunk_total (length content)]) (fetch_chunk cr allot net summary bps started e p)) d1 = (Inr (), d')"
    "resumed cr T e content before (path_elems p) other node (chunk_total (length content)) (chunk_total (length content)) d'" by auto
  moreover have "[k..<chunk_total (length content)] = k # [Suc k..<chunk_total (length content)]" using k by (rule upt_conv_Cons)
  ultimately show ?case using d1 by simp
qed

definition bytes_at :: "string \<Rightarrow> download \<Rightarrow> string" where
  "bytes_at path d = (case map_of (dl_nodes d) (path_elems path) of Some (CFile m t c) \<Rightarrow> c | _ \<Rightarrow> [])"

lemma opened:
  assumes "dl_env d = []" and "\<forall>m t. map_of (dl_nodes d) (path_elems p) \<noteq> Some (CDir m t)"
  shows "\<exists>d' m t. run_state (tryE (sys (on_nodes (open_create p))) (\<lambda>_. sys (on_nodes (change_content p (truncate_to n))))) d = (Inr (), d')
    \<and> dl_env d' = [] \<and> dl_ticket d' = dl_ticket d \<and> dl_checkpoint d' = dl_checkpoint d \<and> dl_doc d' = dl_doc d \<and> dl_requests d' = dl_requests d
    \<and> map_of (dl_nodes d') = (map_of (dl_nodes d))(path_elems p \<mapsto> CFile m t (truncate_to n (bytes_at p d)))
    \<and> (bytes_at p d \<noteq> [] \<longrightarrow> map_of (dl_nodes d) (path_elems p) = Some (CFile m t (bytes_at p d)))"
proof (cases "map_of (dl_nodes d) (path_elems p)")
  case None
  then show ?thesis using assms by (auto simp: run_sys_calm on_nodes_def open_create_def change_content_def bytes_at_def)
next
  case (Some x)
  with assms(2) obtain m t c where "x = CFile m t c" by (cases x) auto
  with Some show ?thesis using assms by (auto simp: run_sys_calm on_nodes_def open_create_def change_content_def bytes_at_def)
qed

lemma length_truncate [simp]: "length (truncate_to n c) = n"
  by (simp add: truncate_to_def)

text \<open>
  \<^bold>\<open>C34\<close>. An interrupted transfer is completed. When no system call fails, the source answers honestly, and whatever
  chunk of the partial file the checkpoint vouches for is right, then assembling the file succeeds from any partial file, however much of it was
  written before: the file is renamed into place with exactly the source's content and the listed mode and time, and the partial file is gone.
\<close>

theorem file_transfer_completes:
  assumes calm: "dl_env d = []" and T: "dl_ticket d \<in> T" and honest: "honest_source cr net T e content"
    and size: "me_size e = int (length content)" "int (length content) \<le> 2 ^ 62" and sha: "me_sha256 e = hashOpenFile cr content"
    and apart: "path_elems (path @ ''.partial'') \<noteq> path_elems path"
    and free: "\<forall>m t. map_of (dl_nodes d) (path_elems path) \<noteq> Some (CDir m t)" "\<forall>m t. map_of (dl_nodes d) (path_elems (path @ ''.partial'')) \<noteq> Some (CDir m t)"
    and recs: "true_records cr e content (truncate_to (length content) (bytes_at (path @ ''.partial'') d)) d"
  shows "\<exists>d'. run_state (assemble_file cr allot net summary bps started e path) d = (Inr (), d')
    \<and> map_of (dl_nodes d') (path_elems path) = Some (CFile (me_mode e) (me_modified e) content)
    \<and> map_of (dl_nodes d') (path_elems (path @ ''.partial'')) = None"
proof -
  let ?p = "path @ ''.partial''" and ?n = "chunk_total (length content)"
  define before where "before = truncate_to (length content) (bytes_at ?p d)"
  define node where "node = map_of (dl_nodes d) (path_elems path)"
  from opened [OF calm free(2), of "length content"] obtain d1 m t where
    d1: "run_state (tryE (sys (on_nodes (open_create ?p))) (\<lambda>_. sys (on_nodes (change_content ?p (truncate_to (length content)))))) d = (Inr (), d1)"
    and s1: "dl_env d1 = []" "dl_ticket d1 = dl_ticket d" "dl_checkpoint d1 = dl_checkpoint d"
      "map_of (dl_nodes d1) = (map_of (dl_nodes d))(path_elems ?p \<mapsto> CFile m t before)" unfolding before_def by blast
  have "resumed cr T e content before (path_elems ?p) (path_elems path) node 0 0 d1"
    using s1 T recs apart unfolding resumed_def true_records_def before_def [symmetric] by (auto simp: recorded_def node_def)
  from chunks_complete [OF this _ apart [symmetric] size _ honest, of allot summary bps started] obtain d2 where
    d2: "run_state (forE (map int [0..<?n]) (fetch_chunk cr allot net summary bps started e ?p)) d1 = (Inr (), d2)"
    "resumed cr T e content before (path_elems ?p) (path_elems path) node ?n ?n d2" by (auto simp: before_def)
  from d2(2) mixed_done [of before content] obtain m' t' where s2: "dl_env d2 = []"
    "map_of (dl_nodes d2) (path_elems ?p) = Some (CFile m' t' content)" "map_of (dl_nodes d2) (path_elems path) = node"
    unfolding resumed_def by (auto simp: before_def)
  have count: "nat (chunkCount (int (length content))) = ?n" using chunkCount_eq [OF size(2)] by simp
  have start: "run_state (sys (on_nodes (open_create ?p))) d = (Inr (), d0) \<Longrightarrow>
      run_state (sys (on_nodes (change_content ?p (truncate_to (length content))))) d0 = (Inr (), d1)" for d0 using d1 by simp
  obtain d0 where d0: "run_state (sys (on_nodes (open_create ?p))) d = (Inr (), d0)" using d1 by (auto split: prod.splits sum.splits)
  have whole: "fileSHA256 cr ?p (dl_nodes d2) = Some (me_sha256 e, me_size e)" using s2(2) sha size(1) by (simp add: fileSHA256_def hashOpenFile_def)
  define d3 where "d3 = d2\<lparr>dl_nodes := go_put (path_elems ?p) (CFile (me_mode e) t' content) (dl_nodes d2)\<rparr>"
  define d4 where "d4 = d3\<lparr>dl_nodes := go_put (path_elems ?p) (CFile (me_mode e) (me_modified e) content) (dl_nodes d3)\<rparr>"
  define d5 where "d5 = d4\<lparr>dl_nodes := go_put (path_elems path) (CFile (me_mode e) (me_modified e) content) (go_del (path_elems ?p) (dl_nodes d4))\<rparr>"
  have steps: "on_nodes (change_node ?p (with_mode (me_mode e))) d2 = Some d3" "on_nodes (change_node ?p (with_time (me_modified e))) d3 = Some d4"
    using s2 by (simp_all add: on_nodes_def change_node_def d3_def d4_def)
  have "rename_file ?p path (dl_nodes d4) = Some (dl_nodes d5)"
  proof (cases node)
    case None
    with s2 apart show ?thesis by (simp add: rename_file_def d5_def d4_def d3_def)
  next
    case (Some x)
    with free(1) obtain a b c where "x = CFile a b c" by (cases x) (auto simp: node_def)
    with Some s2 apart show ?thesis by (simp add: rename_file_def d5_def d4_def d3_def)
  qed
  then have rename: "on_nodes (rename_file ?p path) d4 = Some d5" by (simp add: on_nodes_def d5_def)
  have "dl_env d3 = []" "dl_env d4 = []" using s2 by (simp_all add: d3_def d4_def)
  then have "run_state (assemble_file cr allot net summary bps started e path) d = (Inr (), d5)"
    using d0 start [OF d0] d2(1) s2(1) whole steps rename size(1)
    by (simp add: assemble_file_def count run_sys_calm Let_def)
  moreover have "map_of (dl_nodes d5) (path_elems path) = Some (CFile (me_mode e) (me_modified e) content)"
    "map_of (dl_nodes d5) (path_elems ?p) = None" using apart by (simp_all add: d5_def)
  ultimately show ?thesis by blast
qed

section \<open>False records\<close>

lemma chunks_all_kept:
  assumes "\<And>k. k < n \<Longrightarrow> recorded (me_relative e) (int k) d = ''sha256:'' @ sha256_hex cr (chunk_at c k)" and "dl_env d = []"
    and "map_of (dl_nodes d) (path_elems p) = Some (CFile m t c)" and "me_size e = int (length c)" "int (length c) \<le> 2 ^ 62" "n = chunk_total (length c)"
    and "k \<le> n"
  shows "\<exists>z. run_state (forE (map int [k..<n]) (fetch_chunk cr allot net summary bps started e p)) d = (Inr (), d\<lparr>dl_completed := z\<rparr>)"
  using assms(1-3,7)
proof (induction "n - k" arbitrary: k d)
  case 0
  have "d = d\<lparr>dl_completed := dl_completed d\<rparr>" by (cases d) simp
  then have "\<exists>z. d = d\<lparr>dl_completed := z\<rparr>" by blast
  with 0 show ?case by simp
next
  case (Suc j)
  then have k: "k < n" by simp
  let ?d = "d\<lparr>dl_completed := wrap64 (dl_completed d + chunk_length (me_size e) (int k))\<rparr>"
  have "hashFileRegion cr p (chunk_offset (int k)) (chunk_length (me_size e) (int k)) (dl_nodes d) = Some (''sha256:'' @ sha256_hex cr (chunk_at c k))"
    using region_is_chunk [of c k] k assms(4-6) Suc.prems(3) by (simp add: hashFileRegion_def)
  then have "run_state (reuse_chunk cr e p (int k)) d = (True, ?d)"
    using Suc.prems(1) [OF k] Suc.prems(2) by (simp add: reuse_chunk_def run_probe_calm Let_def)
  then have step: "run_state (fetch_chunk cr allot net summary bps started e p (int k)) d = (Inr (), ?d)" by (simp add: fetch_chunk_def)
  have j: "j = n - Suc k" using Suc.hyps(2) by simp
  have "\<exists>z. run_state (forE (map int [Suc k..<n]) (fetch_chunk cr allot net summary bps started e p)) ?d = (Inr (), ?d\<lparr>dl_completed := z\<rparr>)"
    by (rule Suc.hyps(1) [OF j]) (use Suc.prems k in \<open>simp_all add: recorded_def\<close>)
  with step upt_conv_Cons [OF k] show ?case by simp
qed

text \<open>
  A false record is never corrected. When every chunk of the partial file agrees with the checkpoint but the file does
  not have the listed digest (wrong bytes were once delivered under their own chunk digest and recorded), assembling the file fails although
  nothing else does, without a single request to the source, and leaves the partial file, the checkpoint in memory and the checkpoint file as they were:
  every later attempt fails in the same way, however honest the source has become.
\<close>

theorem false_record_blocks:
  assumes calm: "dl_env d = []" and partial: "map_of (dl_nodes d) (path_elems (path @ ''.partial'')) = Some (CFile m t c)"
    and size: "me_size e = int (length c)" "int (length c) \<le> 2 ^ 62" and wrong: "hashOpenFile cr c \<noteq> me_sha256 e"
    and recs: "\<And>k. k < chunk_total (length c) \<Longrightarrow> recorded (me_relative e) (int k) d = ''sha256:'' @ sha256_hex cr (chunk_at c k)"
  shows "\<exists>d'. run_state (assemble_file cr allot net summary bps started e path) d = (Inl AssembledDigest, d')
    \<and> map_of (dl_nodes d') = map_of (dl_nodes d) \<and> dl_checkpoint d' = dl_checkpoint d \<and> dl_doc d' = dl_doc d \<and> dl_requests d' = dl_requests d"
proof -
  let ?p = "path @ ''.partial''" and ?n = "chunk_total (length c)"
  have "truncate_to (length c) c = c" by (simp add: truncate_to_def)
  define d1 where "d1 = d\<lparr>dl_nodes := go_put (path_elems ?p) (CFile m t c) (dl_nodes d)\<rparr>"
  have entered: "on_nodes (open_create ?p) d = Some d" "on_nodes (change_content ?p (truncate_to (length c))) d = Some d1"
    using partial \<open>truncate_to (length c) c = c\<close> by (simp_all add: on_nodes_def open_create_def change_content_def d1_def)
  have s1: "dl_env d1 = []" "map_of (dl_nodes d1) (path_elems ?p) = Some (CFile m t c)" "map_of (dl_nodes d1) = map_of (dl_nodes d)"
    using calm partial by (auto simp: d1_def)
  have "\<exists>z. run_state (forE (map int [0..<?n]) (fetch_chunk cr allot net summary bps started e ?p)) d1 = (Inr (), d1\<lparr>dl_completed := z\<rparr>)"
    by (rule chunks_all_kept [OF _ s1(1,2) size refl]) (use recs in \<open>simp_all add: d1_def recorded_def\<close>)
  then obtain z where loop: "run_state (forE (map int [0..<?n]) (fetch_chunk cr allot net summary bps started e ?p)) d1 = (Inr (), d1\<lparr>dl_completed := z\<rparr>)" ..
  have count: "nat (chunkCount (int (length c))) = ?n" using chunkCount_eq [OF size(2)] by simp
  have "fileSHA256 cr ?p (dl_nodes d1) \<noteq> Some (me_sha256 e, int (length c))" using s1(2) wrong by (simp add: fileSHA256_def hashOpenFile_def)
  then have "run_state (assemble_file cr allot net summary bps started e path) d = (Inl AssembledDigest, d1\<lparr>dl_completed := z\<rparr>)"
    using calm entered s1 loop size(1) by (simp add: assemble_file_def count run_sys_calm Let_def)
  then show ?thesis using s1(3) by (auto simp: d1_def)
qed

section \<open>Server and client together\<close>

definition asking :: "string \<Rightarrow> int64 \<Rightarrow> http_request \<Rightarrow> http_request" where
  "asking r i request = request\<lparr>rq_body := map_option (\<lambda>b. b\<lparr>dr_relative := r, dr_chunk_index := i\<rparr>) (rq_body request)\<rparr>"

definition delivered :: "chunk_answer reply \<Rightarrow> chunk_response option" where
  "delivered r =
     (case r of
        Refused n \<Rightarrow> Some \<lparr>cs_status = n, cs_file_digest = [], cs_chunk_digest = [], cs_data = None\<rparr>
      | Answered a \<Rightarrow> Some \<lparr>cs_status = 200, cs_file_digest = ca_file_digest a, cs_chunk_digest = ca_chunk_digest a, cs_data = Some (ca_data a)\<rparr>
      | Panics \<Rightarrow> None)"

lemma authorize_asking:
  assumes "authorize cr codec now host s request = Inr (body, base, summary)"
  shows "authorize cr codec now host s (asking r i request) = Inr (body\<lparr>dr_relative := r, dr_chunk_index := i\<rparr>, base, summary)"
  using assms by (auto simp: authorize_def asking_def Let_def result_inv split: option.splits)

lemma served_in_range:
  assumes "authorize cr codec now host s request = Inr (body, base, summary)"
    and "findManifestEntry (fm_entries (ms_manifest summary)) r = Some e" "me_type e = ''file''" and "cleanRelative r = Inr r" "r \<noteq> dot"
    and "open_at host (path_join base r) = Some (FileNode info content)" "st_nlink info \<le> 1"
    and size: "me_size e = int (length content)" "int (length content) \<le> 2 ^ 62" and k: "k < chunk_total (length content)"
  shows "handleChunk cr codec now host s (asking r (int k) request) = Answered \<lparr>ca_chunk_digest = ''sha256:'' @ sha256_hex cr (chunk_at content k),
    ca_file_digest = me_sha256 e, ca_data = chunk_at content k\<rparr>"
proof -
  note region = chunk_region [OF size(2) k]
  have kb: "int (k * chunk_bytes) < int (length content)" using k by (simp only: chunk_total_bound of_nat_less_iff)
  have len: "0 \<le> chunk_length (int (length content)) (int k)" unfolding region by simp
  have "read_at content (chunk_length (int (length content)) (int k)) (chunk_offset (int k)) = Some (chunk_at content k)"
    using region_is_chunk [OF size(2) k] by (simp add: read_at_def region(1) del: of_nat_mult)
  then show ?thesis
    using authorize_asking [OF assms(1), of r "int k"] assms(2-7) size(1) kb len region(1)
    unfolding chunk_offset_def chunk_length_def
    by (simp add: handleChunk_def openRegularNoFollow_def Let_def split del: if_split)
qed

text \<open>
  The chunks of a file put together are the file. For a source that authorized a request, every file its manifest lists
  that is unchanged when it is opened, and the number of chunks the target computes from the listed size: each chunk request is answered, what
  the server sends passes every check of the client under any ticket it may use, and the concatenation of the chunks is the content of the file.
\<close>

theorem chunks_reassemble:
  assumes "authorize cr codec now host s request = Inr (body, base, summary)"
    and "findManifestEntry (fm_entries (ms_manifest summary)) r = Some e" "me_type e = ''file''" and "cleanRelative r = Inr r" "r \<noteq> dot"
    and "open_at host (path_join base r) = Some (FileNode info content)" "st_nlink info \<le> 1"
    and size: "me_size e = int (length content)" "int (length content) \<le> 2 ^ 62"
  shows "\<exists>cs. int (length cs) = chunkCount (me_size e) \<and> concat cs = content
    \<and> (\<forall>k < length cs. \<exists>a. handleChunk cr codec now host s (asking r (int k) request) = Answered a \<and> ca_data a = cs ! k
        \<and> (\<forall>x t t'. ensureTicket x t = Inr t' \<longrightarrow> x_chunk x \<lparr>dr_ticket = t', dr_relative = r, dr_chunk_index = int k\<rparr> = delivered (Answered a)
             \<longrightarrow> client_chunk cr x t r (int k) (me_sha256 e) = (Inr (cs ! k, ca_chunk_digest a), t')))"
proof (intro exI conjI allI impI)
  let ?cs = "map (chunk_at content) [0..<chunk_total (length content)]"
  show "int (length ?cs) = chunkCount (me_size e)" using chunkCount_eq [OF size(2)] size(1) by simp
  show "concat ?cs = content" using chunks_cover chunk_total_covers by simp
  fix k assume "k < length ?cs"
  then have k: "k < chunk_total (length content)" by simp
  let ?a = "\<lparr>ca_chunk_digest = ''sha256:'' @ sha256_hex cr (chunk_at content k), ca_file_digest = me_sha256 e, ca_data = chunk_at content k\<rparr>"
  show "handleChunk cr codec now host s (asking r (int k) request) = Answered ?a" by (rule served_in_range [OF assms k])
  show "ca_data ?a = ?cs ! k" using k by simp
  fix x t t' assume ticket: "ensureTicket x t = Inr t'"
    and sent: "x_chunk x \<lparr>dr_ticket = t', dr_relative = r, dr_chunk_index = int k\<rparr> = delivered (Answered ?a)"
  have len: "length (chunk_at content k) \<le> chunk_bytes" by (simp add: chunk_at_def)
  then have "take (nat (transferChunkSize + 1)) (chunk_at content k) = chunk_at content k" by (simp add: transferChunkSize_eq nat_add_distrib)
  then show "client_chunk cr x t r (int k) (me_sha256 e) = (Inr (?cs ! k, ca_chunk_digest ?a), t')"
    using ticket sent k len by (simp add: client_chunk_def delivered_def transferChunkSize_eq)
qed

section \<open>A transfer\<close>

definition hello_entry :: FileManifestEntry where
  "hello_entry = file_entry sample_hash ''b'' sample_stat ''hello''"

definition hello_summary :: FileManifestSummary where
  "hello_summary = \<lparr>ms_manifest = \<lparr>fm_schema_version = fileManifestSchema, fm_entries = [hello_entry]\<rparr>,
     ms_digest = ''sha256:'' @ replicate 64 (CHR ''a''), ms_file_count = 1, ms_directory_count = 0, ms_total_bytes = 5\<rparr>"

definition sample_net :: "nat \<Rightarrow> exchange" where
  "sample_net n = \<lparr>x_now = 0, x_refresh = Some (\<lambda>_. Some sample_ticket), x_manifest = (\<lambda>_. None),
     x_chunk = (\<lambda>_. Some \<lparr>cs_status = 200, cs_file_digest = me_sha256 hello_entry, cs_chunk_digest = ''sha256:'' @ replicate 64 (CHR ''a''),
       cs_data = Some ''hello''\<rparr>)\<rparr>"

definition empty_cache :: download where
  "empty_cache = \<lparr>dl_nodes = [], dl_doc = None, dl_checkpoint = [], dl_ticket = sample_ticket, dl_requests = 0, dl_completed = 0,
     dl_downloaded = 0, dl_last = None, dl_now = 0, dl_env = []\<rparr>"

lemma sample_net_honest: "honest_source sample_hash sample_net {sample_ticket} hello_entry ''hello''"
  by (auto simp: honest_source_def sample_net_def client_chunk_def ensureTicket_def sample_ticket_def sameDataPlaneScope_def chunk_at_def chunk_bytes_def
      chunk_total_def transferChunkSize_def sample_hash_def hello_entry_def file_entry_def)

lemma hello_fields: "me_relative hello_entry = ''b''" "me_type hello_entry = ''file''" "me_size hello_entry = 5"
  "me_sha256 hello_entry = hashOpenFile sample_hash ''hello''" "me_mode hello_entry = 420"
  by (simp_all add: hello_entry_def file_entry_def sample_stat_def)

theorem file_transfer_completes_witness:
  "\<exists>d'. run_state (assemble_file sample_hash (\<lambda>_ _. 0) sample_net hello_summary 5 0 hello_entry ''/c/b'') empty_cache = (Inr (), d')
     \<and> map_of (dl_nodes d') [''c'', ''b''] = Some (CFile 420 (me_modified hello_entry) ''hello'')"
proof -
  have elems: "path_elems ''/c/b.partial'' = [''c'', ''b.partial'']" "path_elems ''/c/b'' = [''c'', ''b'']" by code_simp+
  have recs: "true_records sample_hash hello_entry ''hello'' (truncate_to (length ''hello'') (bytes_at (''/c/b'' @ ''.partial'') empty_cache)) empty_cache"
    by (simp add: true_records_def recorded_def empty_cache_def)
  from file_transfer_completes [OF _ _ sample_net_honest _ _ _ _ _ _ recs, of "\<lambda>_ _. 0" hello_summary 5 0] show ?thesis
    by (simp add: empty_cache_def hello_fields elems) blast
qed

definition poisoned_cache :: download where
  "poisoned_cache = empty_cache\<lparr>dl_nodes := [([''c'', ''b.partial''], CFile 384 0 ''wrong'')],
     dl_checkpoint := [(''b'', [(''0'', ''sha256:'' @ replicate 64 (CHR ''a''))])]\<rparr>"

theorem false_record_blocks_witness:
  "\<exists>d'. run_state (assemble_file sample_hash (\<lambda>_ _. 0) sample_net hello_summary 5 0 (hello_entry\<lparr>me_sha256 := ''other''\<rparr>) ''/c/b'') poisoned_cache
     = (Inl AssembledDigest, d') \<and> dl_requests d' = 0"
proof -
  let ?e = "hello_entry\<lparr>me_sha256 := ''other''\<rparr>"
  have elems: "path_elems (''/c/b'' @ ''.partial'') = [''c'', ''b.partial'']" by code_simp
  have partial: "map_of (dl_nodes poisoned_cache) (path_elems (''/c/b'' @ ''.partial'')) = Some (CFile 384 0 ''wrong'')"
    unfolding elems by (simp add: poisoned_cache_def)
  have recs: "recorded (me_relative ?e) (int k) poisoned_cache = ''sha256:'' @ sha256_hex sample_hash (chunk_at ''wrong'' k)"
    if "k < chunk_total (length ''wrong'')" for k
  proof -
    have "k = 0" using that by (simp add: chunk_total_def chunk_bytes_def)
    then show ?thesis by (simp add: recorded_def poisoned_cache_def hello_fields int_str_def nat_str_0 sample_hash_def)
  qed
  have wrong: "hashOpenFile sample_hash ''wrong'' \<noteq> me_sha256 ?e" by (simp add: hashOpenFile_def)
  from false_record_blocks [OF _ partial _ _ wrong recs, of "\<lambda>_ _. 0" sample_net hello_summary 5 0] show ?thesis
    by (simp add: hello_fields poisoned_cache_def empty_cache_def) blast
qed

theorem chunks_reassemble_witness:
  "\<exists>cs. concat cs = ''hello'' \<and> (\<forall>k < length cs. \<exists>a. handleChunk sample_hash sample_codec 5 sample_host sample_server (asking ''b'' (int k) sample_ask) = Answered a
     \<and> ca_data a = cs ! k)"
proof -
  obtain s where auth: "authorize sample_hash sample_codec 5 sample_host sample_server sample_ask
      = Inr (\<lparr>dr_ticket = sample_ticket, dr_relative = ''b'', dr_chunk_index = 0\<rparr>, ''/srv/data/app'', s)"
    "findManifestEntry (fm_entries (ms_manifest s)) ''b'' = Some (file_entry sample_hash ''b'' sample_stat ''hello'')"
    by (rule sample_authorized)
  have "cleanRelative ''b'' = Inr ''b''" by code_simp
  moreover have "open_at sample_host (path_join ''/srv/data/app'' ''b'') = Some (FileNode sample_stat ''hello'')" by (simp add: sample_host_def)
  ultimately show ?thesis
    using chunks_reassemble [OF auth, of sample_stat "''hello''"] by (simp add: file_entry_def sample_stat_def dot_def) blast
qed

definition sample_task :: TaskEnvelope where
  "sample_task = \<lparr>t_schema_version = [], t_key_id = [], t_algorithm = [], t_audience = [], t_agent_id = [], t_endpoint_id = [], t_migration_id = ''m'',
     t_run_id = None, t_run_step_id = None, t_attempt_id = [], t_attempt_token = [], t_fencing_token = 1, t_plan_digest = None, t_subject_digest = [],
     t_primitive = \<lparr>p_id = [], p_version = []\<rparr>, t_resource_scope = None, t_inputs = None, t_issued_at = Unset, t_expires_at = Unset,
     t_nonce = [], t_signature = []\<rparr>"

definition cache_name :: string where
  "cache_name = ''aaaaaaaaaaaaaaaaaaaaaaaaaaaaaaaa''"

definition resumed_cache :: download where
  "resumed_cache = empty_cache\<lparr>dl_nodes := [([''st'', ''transfer-cache'', cache_name, ''tree'', ''b''], CFile 420 1700000000000000000 ''hello'')]\<rparr>"

definition sample_root :: string where
  "sample_root = ''/st/transfer-cache/'' @ cache_name @ ''/tree''"

lemma sample_paths:
  "path_join (path_join (path_join ''/st'' ''transfer-cache'') (take 32 (replicate 64 (CHR ''a'')))) ''tree'' = sample_root"
  "path_elems sample_root = [''st'', ''transfer-cache'', cache_name, ''tree'']"
  "safeManifestJoin sample_root ''b'' = Inr (sample_root @ ''/b'')"
  "path_elems (sample_root @ ''/b'') = [''st'', ''transfer-cache'', cache_name, ''tree'', ''b'']"
  "dir_name (sample_root @ ''/b'') = sample_root"
  by code_simp+

lemma sample_tree_verified:
  "\<exists>v. buildFileManifest sample_hash (\<lambda>_. True) (Some [(''b'', FileNode (stat_of 420 1700000000000000000) ''hello'')]) = Inr v
     \<and> ms_digest v = ''sha256:'' @ replicate 64 (CHR ''a'')"
  by (simp add: buildFileManifest_def visit_def add_entry_def openRegularNoFollow_def stat_of_def empty_summary_def
      maximumManifestEntries_def maximumManifestBytes_def in_int64_def dot_def Let_def file_entry_def manifest_digest_def Digest_def sample_hash_def)

lemma sample_download:
  "\<exists>d'. run_state (downloadManifestTree sample_hash (\<lambda>_ _. 0) sample_net ''/st'' sample_task hello_summary 5) resumed_cache = (Inr sample_root, d')"
proof -
  have root: "path_join (transferCachePath sample_hash ''/st'' sample_task (ms_digest hello_summary)) ''tree'' = sample_root"
    using sample_paths(1) by (simp add: transferCachePath_def sample_hash_def)
  obtain v where v: "buildFileManifest sample_hash (\<lambda>_. True) (Some [(''b'', FileNode (stat_of 420 1700000000000000000) ''hello'')]) = Inr v"
     "ms_digest v = ''sha256:'' @ replicate 64 (CHR ''a'')" using sample_tree_verified by blast
  show ?thesis
    unfolding downloadManifestTree_def Let_def root
    using v
    by (simp add: resumed_cache_def empty_cache_def hello_summary_def run_sys_calm on_nodes_def mkdir_all_def sample_paths fetch_entry_def joined_def
        hello_fields fetch_file_def fileSHA256_def hashOpenFile_def report_progress_def finish_directory_def cache_tree_def strict_prefix_def render_path_def)
qed

lemma hello_validated:
  "\<exists>s. validateTransferredManifest sample_hash (ms_manifest hello_summary) (ms_digest hello_summary) 5 = Inr s \<and> s = hello_summary"
proof -
  have "cleanRelative ''b'' = Inr ''b''" by code_simp
  moreover have "parents 1 ''b'' = []" by code_simp
  moreover have "fileDigestPattern (''sha256:'' @ replicate 64 (CHR ''a''))"
    by (simp add: fileDigestPattern_def after_prefix_def has_prefix_def is_lower_hex_def list_all_iff)
  ultimately show ?thesis
    by (simp add: validateTransferredManifest_def hello_summary_def hello_entry_def accept_entry_def accept_kind_def file_entry_def sample_stat_def
        maximumManifestEntries_def maximumManifestBytes_def in_int64_def dot_def Let_def manifest_digest_def Digest_def sample_hash_def hashOpenFile_def
        empty_summary_def)
qed

theorem download_verified_witness:
  "\<exists>d' path n. run_state (downloadManifestTree sample_hash (\<lambda>_ _. 0) sample_net ''/st'' sample_task hello_summary 5) resumed_cache = (Inr sample_root, d')
     \<and> map_of (dl_nodes d') (path_elems path) = Some n \<and> listed_node sample_hash hello_entry n"
proof -
  have abs: "is_abs ''/st''" by code_simp
  from hello_validated have valid: "validateTransferredManifest sample_hash (ms_manifest hello_summary) (ms_digest hello_summary) 5 = Inr hello_summary" by auto
  obtain d' where run: "run_state (downloadManifestTree sample_hash (\<lambda>_ _. 0) sample_net ''/st'' sample_task hello_summary 5) resumed_cache = (Inr sample_root, d')"
    using sample_download by blast
  have "hello_entry \<in> set (fm_entries (ms_manifest hello_summary))" by (simp add: hello_summary_def)
  with download_verified [OF valid abs run] run show ?thesis by blast
qed

end
