(* ===== verification/File_Swap.thy ===== *)
theory File_Swap
  imports Data_Plane Compose_Policy Go_Effects
begin

text \<open>
  Applying a downloaded tree (\<open>applyFileTree\<close>, \<open>recoverFileSwap\<close> and \<open>copyManifestTree\<close> of \<open>internal/migration/files.go\<close>): the
  new tree is copied beside the target, verified, and put in its place by two renames under the protection of a marker file,
  from which an interrupted swap is finished or undone.

  The state is the directory that holds the target (its nodes by the elements of their paths, a directory with its tree), the marker
  file, and the script \<open>w_env\<close> of the outcomes of the coming system calls: a call may run, fail, or be the point before or after
  which the process dies; a recursive removal may also stop half-way and leave any part of a tree. Renames and the replacement of the marker
  file are atomic; nothing else changes these paths. What a power failure reorders is outside the model.
\<close>

section \<open>The host\<close>

datatype tnode = TDir ftree | TOther

datatype swap_outcome = Runs | Errs | Dies_before | Dies_after | Errs_partial ftree | Dies_partial ftree

record fileSyncMarker =
  sm_schema_version :: string
  sm_migration_id :: string
  sm_target_root_handle :: string
  sm_target_relative :: string
  sm_state :: string
  sm_active_digest :: string
  sm_pending_digest :: string
  sm_apply_name :: string
  sm_backup_name :: string
  sm_updated_at :: stamp

datatype marker_file = NoMarker | Unreadable | Marker fileSyncMarker

record swap_host =
  w_nodes :: "(string list, tnode) gomap"
  w_marker :: marker_file
  w_now :: int
  w_env :: "swap_outcome list"
  w_dead :: bool

datatype swap_err =
    SwapCall | Halted | SwapUnsafe | SwapNotDirectory | TargetChanged | TargetUnsafe | NothingToRecover | RecoveryFuel
  | TargetScope scope_err | TargetLeaf | MarkerScope | MarkerUnreadable | TargetCollides | TargetUnlisted manifest_err | TargetNotEmpty
  | OutsideLineage | TargetDisappeared | NoCapacity | ApplyCollision | BackupCollision | CopyPath manifest_err | SourceChanged
  | CopyFailed | ApplyVerification

type_synonym 'a sop = "(swap_host, swap_err, 'a) op"

text \<open>A system call: its effect (\<^const>\<open>None\<close> when the file system refuses it) and what it may leave when it stops half-way.\<close>

definition act_or :: "(ftree \<Rightarrow> swap_host \<Rightarrow> swap_host) \<Rightarrow> (swap_host \<Rightarrow> swap_host option) \<Rightarrow> unit sop" where
  "act_or part eff = State (\<lambda>h.
     if w_dead h then (Inl Halted, h)
     else let h' = h\<lparr>w_env := tl (w_env h)\<rparr> in
       (case (case w_env h of [] \<Rightarrow> Runs | x # _ \<Rightarrow> x) of
          Runs \<Rightarrow> (case eff h' of None \<Rightarrow> (Inl SwapCall, h') | Some g \<Rightarrow> (Inr (), g))
        | Errs \<Rightarrow> (Inl SwapCall, h')
        | Dies_before \<Rightarrow> (Inl Halted, h'\<lparr>w_dead := True\<rparr>)
        | Dies_after \<Rightarrow> (Inl Halted, (case eff h' of None \<Rightarrow> h' | Some g \<Rightarrow> g)\<lparr>w_dead := True\<rparr>)
        | Errs_partial t \<Rightarrow> (Inl SwapCall, part t h')
        | Dies_partial t \<Rightarrow> (Inl Halted, (part t h')\<lparr>w_dead := True\<rparr>)))"

abbreviation act :: "(swap_host \<Rightarrow> swap_host option) \<Rightarrow> unit sop" where
  "act \<equiv> act_or (\<lambda>_ h. h)"

abbreviation look :: "unit sop" where
  "look \<equiv> act Some"

definition lstat_at :: "string \<Rightarrow> tnode option sop" where
  "lstat_at path = tryE look (\<lambda>_. do { h \<leftarrow> get_state; okE (map_of (w_nodes h) (path_elems path)) })"

definition set_tree :: "string \<Rightarrow> ftree \<Rightarrow> swap_host \<Rightarrow> swap_host" where
  "set_tree path t h = h\<lparr>w_nodes := go_put (path_elems path) (TDir t) (w_nodes h)\<rparr>"

text \<open>\<open>os.RemoveAll\<close> of a directory; when it stops half-way some part of the tree remains.\<close>

definition remove_all :: "string \<Rightarrow> unit sop" where
  "remove_all path = act_or (\<lambda>t. set_tree path t) (\<lambda>h. Some (h\<lparr>w_nodes := go_del (path_elems path) (w_nodes h)\<rparr>))"

text \<open>\<open>os.Rename\<close> of a directory: the new name must be free or an empty directory.\<close>

definition rename_dir :: "string \<Rightarrow> string \<Rightarrow> unit sop" where
  "rename_dir old new = act (\<lambda>h.
     case map_of (w_nodes h) (path_elems old) of
       None \<Rightarrow> None
     | Some n \<Rightarrow>
         if map_of (w_nodes h) (path_elems new) \<in> {None, Some (TDir [])}
         then Some (h\<lparr>w_nodes := go_put (path_elems new) n (go_del (path_elems old) (w_nodes h))\<rparr>)
         else None)"

text \<open>\<open>atomicJSONFile(markerPath, marker)\<close>.\<close>

definition save_marker :: "fileSyncMarker \<Rightarrow> unit sop" where
  "save_marker m = act (\<lambda>h. Some (h\<lparr>w_marker := Marker m\<rparr>))"

definition list_tree :: "crypto \<Rightarrow> string \<Rightarrow> FileManifestSummary sop" where
  "list_tree cr path = tryE look (\<lambda>_. do {
     h \<leftarrow> get_state;
     case buildFileManifest cr (\<lambda>_. True) (case map_of (w_nodes h) (path_elems path) of Some (TDir t) \<Rightarrow> Some t | _ \<Rightarrow> None) of
       Inl e \<Rightarrow> errE (TargetUnlisted e)
     | Inr s \<Rightarrow> okE s })"

definition fileSyncMarkerPath :: "crypto \<Rightarrow> string \<Rightarrow> string \<Rightarrow> string \<Rightarrow> string" where
  "fileSyncMarkerPath cr stateDir handle relative =
     path_join (path_join stateDir ''file-sync-markers'') (take 32 (sha256_hex cr (handle @ CHR 0x00 # relative)) @ ''.json'')"

section \<open>Copying\<close>

definition at_tree :: "string \<Rightarrow> (ftree \<Rightarrow> ftree option) \<Rightarrow> unit sop" where
  "at_tree path f = act (\<lambda>h. case map_of (w_nodes h) (path_elems path) of
     Some (TDir t) \<Rightarrow> map_option (\<lambda>t'. set_tree path t' h) (f t) | _ \<Rightarrow> None)"

definition new_stat :: "nat \<Rightarrow> int \<Rightarrow> stat_info" where
  "new_stat mode now = \<lparr>st_perm = mode, st_seconds = now div 1000000000, st_nlink = 1\<rparr>"

text \<open>\<open>os.MkdirAll\<close> below the root of the copy: missing directories are created from the top down.\<close>

fun make_dirs :: "nat \<Rightarrow> int \<Rightarrow> string list \<Rightarrow> ftree \<Rightarrow> ftree option" where
  "make_dirs mode now [] t = Some t"
| "make_dirs mode now (p # ps) t =
     (case map_of t p of
        None \<Rightarrow> make_dirs mode now ps (t @ [(p, DirNode (new_stat mode now))])
      | Some (DirNode _) \<Rightarrow> make_dirs mode now ps t
      | Some _ \<Rightarrow> None)"

definition create_output :: "int \<Rightarrow> string \<Rightarrow> ftree \<Rightarrow> ftree option" where
  "create_output now r t = (case map_of t r of None \<Rightarrow> Some (t @ [(r, FileNode (new_stat 384 now) [])]) | Some _ \<Rightarrow> None)"

fun put_content :: "string \<Rightarrow> fnode \<Rightarrow> fnode" where
  "put_content c (FileNode info _) = FileNode info c"
| "put_content c n = n"

fun put_stat :: "(stat_info \<Rightarrow> stat_info) \<Rightarrow> fnode \<Rightarrow> fnode" where
  "put_stat f (FileNode info c) = FileNode (f info) c"
| "put_stat f (DirNode info) = DirNode (f info)"
| "put_stat f n = n"

definition change_entry :: "string \<Rightarrow> (fnode \<Rightarrow> fnode) \<Rightarrow> ftree \<Rightarrow> ftree option" where
  "change_entry r f t = (case map_of t r of None \<Rightarrow> None | Some n \<Rightarrow> Some (go_put r (f n) t))"

definition chmod_entry :: "string \<Rightarrow> FileManifestEntry \<Rightarrow> unit sop" where
  "chmod_entry copy entry = at_tree copy (change_entry (me_relative entry) (put_stat (\<lambda>i. i\<lparr>st_perm := me_mode entry\<rparr>)))"

definition chtimes_entry :: "string \<Rightarrow> FileManifestEntry \<Rightarrow> unit sop" where
  "chtimes_entry copy entry =
     at_tree copy (change_entry (me_relative entry) (put_stat (\<lambda>i. i\<lparr>st_seconds := me_modified entry div 1000000000\<rparr>)))"

definition copy_file :: "ftree \<Rightarrow> string \<Rightarrow> FileManifestEntry \<Rightarrow> unit sop" where
  "copy_file source copy entry =
     (case map_of source (me_relative entry) of
        None \<Rightarrow> errE SourceChanged
      | Some node \<Rightarrow>
          (case openRegularNoFollow node of
             Inl _ \<Rightarrow> errE SourceChanged
           | Inr (info, content) \<Rightarrow>
               guardE (int (length content) = me_size entry) SourceChanged (do {
                 h \<leftarrow> get_state;
                 tryE (at_tree copy (create_output (w_now h) (me_relative entry))) (\<lambda>_. do {
                   copyErr \<leftarrow> at_tree copy (change_entry (me_relative entry) (put_content content));
                   syncErr \<leftarrow> look;
                   closeOutputErr \<leftarrow> look;
                   closeInputErr \<leftarrow> look;
                   guardE (\<not> (is_err copyErr \<or> is_err syncErr \<or> is_err closeOutputErr \<or> is_err closeInputErr)) CopyFailed
                     (tryE (chmod_entry copy entry) (\<lambda>_. chtimes_entry copy entry)) }) })))"

definition copy_entry :: "ftree \<Rightarrow> string \<Rightarrow> string \<Rightarrow> FileManifestEntry \<Rightarrow> unit sop" where
  "copy_entry source sourceRoot copy entry =
     (case (safeManifestJoin sourceRoot (me_relative entry), safeManifestJoin copy (me_relative entry)) of
        (Inl e, _) \<Rightarrow> errE (CopyPath e)
      | (_, Inl e) \<Rightarrow> errE (CopyPath e)
      | (Inr _, Inr _) \<Rightarrow> do {
          h \<leftarrow> get_state;
          let above = rev (parents (length (me_relative entry)) (me_relative entry)) in
          if me_type entry = ''directory'' then at_tree copy (make_dirs (me_mode entry) (w_now h) (above @ [me_relative entry]))
          else tryE (at_tree copy (make_dirs 448 (w_now h) above)) (\<lambda>_. copy_file source copy entry) })"

definition finish_entry :: "string \<Rightarrow> FileManifestEntry \<Rightarrow> unit sop" where
  "finish_entry copy entry =
     (if me_type entry \<noteq> ''directory'' then okE () else tryE (chmod_entry copy entry) (\<lambda>_. chtimes_entry copy entry))"

definition make_copy_root :: "string \<Rightarrow> unit sop" where
  "make_copy_root copy = act (\<lambda>h. if map_of (w_nodes h) (path_elems copy) = None then Some (set_tree copy [] h) else None)"

definition copyManifestTree :: "ftree \<Rightarrow> string \<Rightarrow> string \<Rightarrow> FileManifest \<Rightarrow> unit sop" where
  "copyManifestTree source sourceRoot copy manifest =
     tryE (make_copy_root copy) (\<lambda>_.
     tryE (forE (fm_entries manifest) (copy_entry source sourceRoot copy)) (\<lambda>_.
     forE (rev (fm_entries manifest)) (finish_entry copy)))"

section \<open>Recovery\<close>

definition safeRemoveSwapPath :: "string \<Rightarrow> string \<Rightarrow> string \<Rightarrow> unit sop" where
  "safeRemoveSwapPath parent path stem =
     guardE (dir_name path = parent \<and> has_prefix (base_name path) stem) SwapUnsafe (do {
       r \<leftarrow> lstat_at path;
       case r of
         Inr None \<Rightarrow> okE ()
       | Inr (Some (TDir _)) \<Rightarrow> remove_all path
       | _ \<Rightarrow> errE SwapNotDirectory })"

definition settled :: "fileSyncMarker \<Rightarrow> fileSyncMarker" where
  "settled m = m\<lparr>sm_state := ''active'', sm_pending_digest := [], sm_apply_name := [], sm_backup_name := []\<rparr>"

text \<open>The marker the caller goes on with, when the write of the file succeeds.\<close>

definition settle :: "fileSyncMarker \<Rightarrow> fileSyncMarker sop" where
  "settle m = tryE (save_marker m) (\<lambda>_. okE m)"

definition recover_present :: "crypto \<Rightarrow> string \<Rightarrow> string \<Rightarrow> fileSyncMarker \<Rightarrow> fileSyncMarker sop" where
  "recover_present cr target parent m = do {
     listed \<leftarrow> list_tree cr target;
     let applyPath = path_join parent (sm_apply_name m); backupPath = path_join parent (sm_backup_name m) in
     case listed of
       Inl _ \<Rightarrow> errE TargetChanged
     | Inr current \<Rightarrow>
         if ms_digest current = sm_pending_digest m then
           tryE (safeRemoveSwapPath parent backupPath ''.askio-backup-'') (\<lambda>_. do {
             _ \<leftarrow> safeRemoveSwapPath parent applyPath ''.askio-apply-'';
             h \<leftarrow> get_state;
             settle ((settled m)\<lparr>sm_active_digest := sm_pending_digest m, sm_updated_at := Stamp (w_now h)\<rparr>) })
         else if sm_active_digest m \<noteq> [] \<and> ms_digest current = sm_active_digest m then do {
           _ \<leftarrow> safeRemoveSwapPath parent applyPath ''.askio-apply-'';
           _ \<leftarrow> safeRemoveSwapPath parent backupPath ''.askio-backup-'';
           settle (settled m) }
         else errE TargetChanged }"

text \<open>The recursive call follows a rename that made the target exist; the fuel bounds the depth.\<close>

primrec recoverFileSwap :: "nat \<Rightarrow> crypto \<Rightarrow> string \<Rightarrow> string \<Rightarrow> fileSyncMarker \<Rightarrow> fileSyncMarker sop" where
  "recoverFileSwap 0 cr target parent m = errE RecoveryFuel"
| "recoverFileSwap (Suc fuel) cr target parent m =
     (if sm_state m \<noteq> ''swapping'' then okE m
      else do {
        r \<leftarrow> lstat_at target;
        let applyPath = path_join parent (sm_apply_name m); backupPath = path_join parent (sm_backup_name m) in
        case r of
          Inr (Some (TDir _)) \<Rightarrow> recover_present cr target parent m
        | Inr None \<Rightarrow> do {
            a \<leftarrow> lstat_at applyPath;
            case a of
              Inr (Some (TDir _)) \<Rightarrow> tryE (rename_dir applyPath target) (\<lambda>_. recoverFileSwap fuel cr target parent m)
            | _ \<Rightarrow> do {
                b \<leftarrow> lstat_at backupPath;
                case b of
                  Inr (Some (TDir _)) \<Rightarrow> tryE (rename_dir backupPath target) (\<lambda>_. settle (settled m))
                | _ \<Rightarrow> errE NothingToRecover } }
        | _ \<Rightarrow> errE TargetUnsafe })"

section \<open>Applying\<close>

record apply_request =
  ar_task :: TaskEnvelope
  ar_handle :: string
  ar_relative :: string
  ar_source :: ftree
  ar_source_root :: string
  ar_summary :: FileManifestSummary
  ar_capacity :: bool

definition fileSyncMarkerSchema :: string where
  "fileSyncMarkerSchema = ''operations.migration.file-sync-marker.v1''"

definition recoveryFuel :: nat where
  "recoveryFuel = 2"

definition load_marker :: "crypto \<Rightarrow> apply_request \<Rightarrow> string \<Rightarrow> fileSyncMarker option sop" where
  "load_marker cr q target = do {
     r \<leftarrow> look;
     h \<leftarrow> get_state;
     if is_err r then errE MarkerUnreadable
     else (case w_marker h of
       NoMarker \<Rightarrow> okE None
     | Unreadable \<Rightarrow> errE MarkerUnreadable
     | Marker m \<Rightarrow>
         guardE (sm_schema_version m = fileSyncMarkerSchema \<and> sm_migration_id m = t_migration_id (ar_task q)
             \<and> sm_target_root_handle m = ar_handle q \<and> sm_target_relative m = ar_relative q) MarkerScope
           (tryE (recoverFileSwap recoveryFuel cr target (dir_name target) m) (\<lambda>m'. okE (Some m')))) }"

text \<open>The check of the present target: \<open>None\<close> when there is none, otherwise its digest and whether the work was done before.\<close>

definition inspect_target :: "crypto \<Rightarrow> apply_request \<Rightarrow> string \<Rightarrow> fileSyncMarker option \<Rightarrow> (string \<times> bool) option sop" where
  "inspect_target cr q target marker = do {
     r \<leftarrow> lstat_at target;
     case r of
       Inl e \<Rightarrow> errE e
     | Inr (Some TOther) \<Rightarrow> errE TargetCollides
     | Inr (Some (TDir _)) \<Rightarrow>
         tryE (list_tree cr target) (\<lambda>current.
         case marker of
           None \<Rightarrow> guardE (fm_entries (ms_manifest current) = []) TargetNotEmpty (okE (Some (ms_digest current, False)))
         | Some m \<Rightarrow>
             guardE (ms_digest current = sm_active_digest m) OutsideLineage
               (okE (Some (ms_digest current, sm_active_digest m = ms_digest (ar_summary q)))))
     | Inr None \<Rightarrow>
         (case marker of
            Some m \<Rightarrow> guardE (sm_active_digest m = []) TargetDisappeared (okE None)
          | None \<Rightarrow> okE None) }"

definition require_absent :: "string \<Rightarrow> swap_err \<Rightarrow> unit sop" where
  "require_absent path e = tryE (lstat_at path) (\<lambda>r. guardE (r = None) e (okE ()))"

definition abandon :: "string \<Rightarrow> string \<Rightarrow> swap_err \<Rightarrow> 'a sop" where
  "abandon parent applyPath e = do { _ \<leftarrow> safeRemoveSwapPath parent applyPath ''.askio-apply-''; errE e }"

text \<open>The swap itself, once the copy has been verified.\<close>

definition swap_trees :: "string \<Rightarrow> string \<Rightarrow> string \<Rightarrow> string \<Rightarrow> bool \<Rightarrow> fileSyncMarker \<Rightarrow> bool sop" where
  "swap_trees parent target applyPath backupPath targetExists m = do {
     moved \<leftarrow> (if targetExists then rename_dir target backupPath else okE ());
     case moved of
       Inl e \<Rightarrow> errE e
     | Inr _ \<Rightarrow> do {
         placed \<leftarrow> rename_dir applyPath target;
         case placed of
           Inl e \<Rightarrow> do { _ \<leftarrow> (if targetExists then rename_dir backupPath target else okE ()); errE e }
         | Inr _ \<Rightarrow> do {
             h \<leftarrow> get_state;
             tryE (save_marker ((settled m)\<lparr>sm_active_digest := sm_pending_digest m, sm_updated_at := Stamp (w_now h)\<rparr>)) (\<lambda>_.
             tryE (if targetExists then safeRemoveSwapPath parent backupPath ''.askio-backup-'' else okE ()) (\<lambda>_. okE False)) } } }"

definition stage_copy :: "crypto \<Rightarrow> apply_request \<Rightarrow> string \<Rightarrow> string \<Rightarrow> unit sop" where
  "stage_copy cr q parent applyPath = do {
     copied \<leftarrow> copyManifestTree (ar_source q) (ar_source_root q) applyPath (ms_manifest (ar_summary q));
     case copied of
       Inl e \<Rightarrow> abandon parent applyPath e
     | Inr _ \<Rightarrow> do {
         listed \<leftarrow> list_tree cr applyPath;
         case listed of
           Inl _ \<Rightarrow> abandon parent applyPath ApplyVerification
         | Inr verified \<Rightarrow>
             if ms_digest verified \<noteq> ms_digest (ar_summary q) then abandon parent applyPath ApplyVerification else okE () } }"

definition swap_token :: "crypto \<Rightarrow> apply_request \<Rightarrow> string" where
  "swap_token cr q = take 16 (sha256_hex cr (t_migration_id (ar_task q) @ ms_digest (ar_summary q)))"

definition swap_marker :: "crypto \<Rightarrow> apply_request \<Rightarrow> string \<Rightarrow> int \<Rightarrow> fileSyncMarker" where
  "swap_marker cr q activeDigest now = \<lparr>sm_schema_version = fileSyncMarkerSchema, sm_migration_id = t_migration_id (ar_task q),
     sm_target_root_handle = ar_handle q, sm_target_relative = ar_relative q, sm_state = ''swapping'', sm_active_digest = activeDigest,
     sm_pending_digest = ms_digest (ar_summary q), sm_apply_name = ''.askio-apply-'' @ swap_token cr q,
     sm_backup_name = ''.askio-backup-'' @ swap_token cr q, sm_updated_at = Stamp now\<rparr>"

definition replace_target :: "crypto \<Rightarrow> apply_request \<Rightarrow> string \<Rightarrow> fileSyncMarker option \<Rightarrow> string option \<Rightarrow> bool sop" where
  "replace_target cr q target marker current =
     (let parent = dir_name target;
          applyPath = path_join parent (''.askio-apply-'' @ swap_token cr q);
          backupPath = path_join parent (''.askio-backup-'' @ swap_token cr q);
          activeDigest = (case marker of Some m \<Rightarrow> sm_active_digest m | None \<Rightarrow> (case current of Some d \<Rightarrow> d | None \<Rightarrow> [])) in
      guardE (ar_capacity q) NoCapacity
      (tryE (require_absent applyPath ApplyCollision) (\<lambda>_.
       tryE (require_absent backupPath BackupCollision) (\<lambda>_.
       tryE (stage_copy cr q parent applyPath) (\<lambda>_. do {
         h \<leftarrow> get_state;
         saved \<leftarrow> save_marker (swap_marker cr q activeDigest (w_now h));
         case saved of
           Inl e \<Rightarrow> abandon parent applyPath e
         | Inr _ \<Rightarrow> swap_trees parent target applyPath backupPath (current \<noteq> None) (swap_marker cr q activeDigest (w_now h)) })))))"

definition applyFileTree :: "crypto \<Rightarrow> (string \<Rightarrow> lstat_result) \<Rightarrow> ScopeResolver \<Rightarrow> apply_request \<Rightarrow> bool sop" where
  "applyFileTree cr lstat resolver q =
     (case Resolve lstat resolver (ar_handle q) (ar_relative q) True of
        Inl e \<Rightarrow> errE (TargetScope e)
      | Inr target \<Rightarrow>
          guardE (target \<noteq> dir_name target \<and> fileNamePattern (base_name target)) TargetLeaf
          (tryE (load_marker cr q target) (\<lambda>marker.
           tryE (inspect_target cr q target marker) (\<lambda>present.
           case present of
             Some (_, True) \<Rightarrow> okE True
           | Some (d, False) \<Rightarrow> replace_target cr q target marker (Some d)
           | None \<Rightarrow> replace_target cr q target marker None))))"

end
