(* ===== verification/Swap_Safety.thy ===== *)
theory Swap_Safety
  imports File_Swap Manifest_Agreement
begin

text \<open>
  Crash safety of the swap. At every point at which the process may die, the tree the migration owns is complete somewhere: at the target,
  or beside it in the place from which the recovery restores it.
\<close>

section \<open>Names beside the target\<close>

lemma plain_path:
  assumes "plain_elem n"
  shows "path_elems n = [n]" "clean n = n" "\<not> is_abs n" "n \<noteq> []"
proof -
  have r: "render_path False [n] = n" by (simp add: render_path_def)
  show n: "n \<noteq> []" using assms by (simp add: plain_elem_def)
  show e: "path_elems n = [n]" using elems_plain [of "[n]"] assms r by simp
  show abs: "\<not> is_abs n" using assms n by (cases n) (auto simp: plain_elem_def is_abs_def has_prefix_def)
  show "clean n = n" using e abs n r by (simp add: clean_def)
qed

lemma abs_rendered:
  assumes "is_abs target" and "clean target = target"
  shows "target = render_path True (path_elems target)" and "\<forall>e \<in> set (path_elems target). plain_elem e"
proof -
  have "target \<noteq> []" using assms(1) by (auto simp: is_abs_def has_prefix_def)
  then show "target = render_path True (path_elems target)" using assms by (simp add: clean_def)
  show "\<forall>e \<in> set (path_elems target). plain_elem e" using path_elems_clean [of target] assms(1) by (auto simp: clean_list_def)
qed

lemma split_abs:
  assumes "\<forall>e \<in> set es. plain_elem e" and "es \<noteq> []"
  shows "split_on slash (render_path True es) = [] # es"
  using assms split_on_join [of es slash] by (simp add: render_path_def plain_elem_def)

lemma dir_abs:
  assumes "\<forall>e \<in> set (ps @ [x]). plain_elem e"
  shows "dir_name (render_path True (ps @ [x])) = render_path True ps"
proof -
  have plain: "\<forall>e \<in> set ps. plain_elem e" using assms by simp
  let ?j = "join_with [slash] ([] # ps) @ [slash]"
  have abs: "is_abs ?j" by (cases ps) (simp_all add: is_abs_def has_prefix_def)
  have sp: "split_on slash ?j = [] # ps @ [[]]"
  proof (cases ps)
    case (Cons p qs)
    then have "?j = render_path True ps @ [slash]" by (simp add: render_path_def)
    then show ?thesis using split_on_snoc [of slash "render_path True ps" "[]"] split_abs [OF plain] Cons by simp
  qed simp
  have elems: "path_elems ?j = ps" unfolding path_elems_def sp using abs plain by (simp add: clean_elems_append clean_elems_plain)
  have "clean ?j = render_path True ps" using abs elems by (auto simp: clean_def)
  moreover have "dir_name (render_path True (ps @ [x])) = clean ?j"
    using split_abs [OF assms] by (simp add: dir_name_def Let_def)
  ultimately show ?thesis by simp
qed

lemma base_abs:
  assumes "\<forall>e \<in> set (ps @ [x]). plain_elem e"
  shows "base_name (render_path True (ps @ [x])) = x"
proof -
  let ?t = "render_path True (ps @ [x])"
  have x: "x \<noteq> []" "slash \<notin> set x" using assms by (simp_all add: plain_elem_def)
  have "last (split_on slash ?t) = x" using split_abs [OF assms] by simp
  moreover obtain a where a: "?t = a @ x"
  proof (cases "ps = []")
    case True
    then show ?thesis using that [of "[slash]"] by (simp add: render_path_def)
  next
    case False
    then show ?thesis using that [of "slash # join_with [slash] ps @ [slash]"] join_append [of ps "[x]" slash] by (simp add: render_path_def)
  qed
  have "rev (dropWhile (\<lambda>c. c = slash) (rev ?t)) = ?t"
  proof -
    from x have "rev x \<noteq> []" "hd (rev x) \<noteq> slash" by (metis rev_is_Nil_conv) (metis hd_in_set rev_is_Nil_conv set_rev x)
    then have "dropWhile (\<lambda>c. c = slash) (rev x @ rev a) = rev x @ rev a" by (cases "rev x") simp_all
    then show ?thesis using a by (simp del: rev_append add: rev_append)
  qed
  moreover have "?t \<noteq> []" by (simp add: render_path_def)
  ultimately show ?thesis by (simp add: base_name_def)
qed

lemma target_leaf:
  assumes "is_abs target" and "clean target = target" and "fileNamePattern (base_name target)"
  obtains ps x where "path_elems target = ps @ [x]" "x \<noteq> []" "hd x \<noteq> CHR ''.''" "dir_name target = render_path True ps" "\<forall>e \<in> set ps. plain_elem e"
proof (cases "path_elems target" rule: rev_cases)
  case Nil
  then have "target = [slash]" using abs_rendered(1) [OF assms(1,2)] by (simp add: render_path_def)
  then have "base_name target = [slash]" by (simp add: base_name_def)
  with assms(3) show ?thesis
    by (simp add: fileNamePattern_def is_alnum_def is_lower_def is_upper_def is_digit_def slash_def)
next
  case (snoc ps x)
  note r = abs_rendered [OF assms(1,2), unfolded snoc]
  have "base_name target = x" using base_abs [OF r(2)] r(1) by simp
  with assms(3) have "x \<noteq> [] \<and> hd x \<noteq> CHR ''.''"
    by (cases x) (auto simp: fileNamePattern_def is_alnum_def is_lower_def is_upper_def is_digit_def)
  with that [of ps x] snoc dir_abs [OF r(2)] r show ?thesis by auto
qed

definition beside :: "string \<Rightarrow> string \<Rightarrow> string list" where
  "beside target name = path_elems (path_join (dir_name target) name)"

lemma beside_elems:
  assumes "dir_name target = render_path True ps" "\<forall>e \<in> set ps. plain_elem e" and "plain_elem name"
  shows "beside target name = ps @ [name]"
proof -
  have c: "clean_list True ps" using assms(2) by (intro clean_listI [where n = 0 and qs = ps]) simp_all
  have abs: "is_abs (render_path True ps)" using is_abs_render [OF c] by simp
  note n = plain_path [OF assms(3)]
  have "path_elems (path_join (render_path True ps) name) = path_elems (render_path True ps) @ path_elems name"
    by (rule path_join_elems [OF abs n(3,4)]) (use n assms(3) in simp_all)
  then show ?thesis using path_elems_render [OF c] n(1) by (simp add: beside_def assms(1))
qed

definition names_apart :: "string \<Rightarrow> string \<Rightarrow> string \<Rightarrow> bool" where
  "names_apart target a b \<longleftrightarrow> beside target a \<noteq> path_elems target \<and> beside target b \<noteq> path_elems target \<and> beside target a \<noteq> beside target b"

lemma swap_names_apart:
  assumes "is_abs target" and "clean target = target" and "fileNamePattern (base_name target)" and "slash \<notin> set tok"
  shows "names_apart target (''.askio-apply-'' @ tok) (''.askio-backup-'' @ tok)"
proof -
  from assms(1-3) obtain ps x where t: "path_elems target = ps @ [x]" "x \<noteq> []" "hd x \<noteq> CHR ''.''"
    "dir_name target = render_path True ps" "\<forall>e \<in> set ps. plain_elem e" by (rule target_leaf)
  have plain: "plain_elem (''.askio-apply-'' @ tok)" "plain_elem (''.askio-backup-'' @ tok)"
    using assms(4) by (simp_all add: plain_elem_def path_consts)
  show ?thesis
    unfolding names_apart_def beside_elems [OF t(4,5) plain(1)] beside_elems [OF t(4,5) plain(2)] t(1) using t(3) by auto
qed

section \<open>Rules for calls that may be the last\<close>

text \<open>An assertion about nodes and marker alone.\<close>

definition static :: "(swap_host \<Rightarrow> bool) \<Rightarrow> bool" where
  "static P \<longleftrightarrow> (\<forall>h e d. P (h\<lparr>w_env := e\<rparr>) = P h \<and> P (h\<lparr>w_dead := d\<rparr>) = P h)"

text \<open>A call that fails has had no effect, unless it was the one after which the process died; a process that has died does nothing more.\<close>

lemma act_rule:
  assumes "static P" "static Q" and "\<And>h g. P h \<Longrightarrow> eff h = Some g \<Longrightarrow> Q g"
  shows "triple P (act eff) (\<lambda>r h. case r of Inr _ \<Rightarrow> Q h | Inl _ \<Rightarrow> P h \<or> Q h \<and> w_dead h)"
proof (rule tripleI)
  fix h x t assume P: "P h" and run: "run_state (act eff) h = (x, t)"
  have P': "P (h\<lparr>w_env := e\<rparr>)" "P (h\<lparr>w_env := e, w_dead := d\<rparr>)" for e d using P assms(1) by (simp_all add: static_def)
  have Q': "Q (g\<lparr>w_dead := d\<rparr>)" if "eff (h\<lparr>w_env := e\<rparr>) = Some g" for g e d
    using assms(3) [OF P'(1) that] assms(2) by (simp add: static_def)
  from run P P' Q' assms(3) [OF P'(1)] show "case x of Inr _ \<Rightarrow> Q t | Inl _ \<Rightarrow> P t \<or> Q t \<and> w_dead t"
    by (auto simp: act_or_def Let_def split: if_splits swap_outcome.splits option.splits list.splits)
qed

lemma dead_act: "triple (\<lambda>h. P h \<and> w_dead h) (act_or part eff) (\<lambda>r h. is_err r \<and> P h \<and> w_dead h)"
  by (rule tripleI) (auto simp: act_or_def)

lemma look_rule: "static P \<Longrightarrow> keeps P look"
  unfolding keeps_def by (rule triple_conseq [OF act_rule [of P P]]) (auto split: sum.splits)

lemma keeps_act_or:
  assumes "static P" and "\<And>h g. P h \<Longrightarrow> eff h = Some g \<Longrightarrow> P g" and "\<And>t h. P h \<Longrightarrow> P (part t h)"
  shows "keeps P (act_or part eff)"
proof (rule keepsI)
  fix h assume P: "P h"
  have P': "P (h\<lparr>w_env := e\<rparr>)" for e using P assms(1) by (simp add: static_def)
  have D: "P (g\<lparr>w_dead := True\<rparr>)" if "P g" for g using that assms(1) by (simp add: static_def)
  show "P (snd (run_state (act_or part eff) h))"
    using P P' D assms(2) [OF P'] assms(3) [OF P'] by (auto simp: act_or_def Let_def split: swap_outcome.splits option.splits)
qed

lemma keeps_lstat [keeps_intros]: "static P \<Longrightarrow> keeps P (lstat_at path)"
  unfolding lstat_at_def by (intro keeps_intros look_rule)

lemma keeps_list [keeps_intros]: "static P \<Longrightarrow> keeps P (list_tree cr path)"
  unfolding list_tree_def by (intro keeps_intros look_rule)

section \<open>The invariant\<close>

definition has_tree :: "crypto \<Rightarrow> string list \<Rightarrow> string \<Rightarrow> swap_host \<Rightarrow> bool" where
  "has_tree cr k d h \<longleftrightarrow> (\<exists>t s. map_of (w_nodes h) k = Some (TDir t) \<and> buildFileManifest cr (\<lambda>_. True) (Some t) = Inr s \<and> ms_digest s = d)"

definition gone :: "string list \<Rightarrow> swap_host \<Rightarrow> bool" where
  "gone k h \<longleftrightarrow> map_of (w_nodes h) k = None"

text \<open>During a swap the target holds the new tree, or the old one, or is missing while the new tree waits beside it and the old one, if there was
  one, is kept as a backup.\<close>

definition mid_swap :: "crypto \<Rightarrow> string \<Rightarrow> fileSyncMarker \<Rightarrow> swap_host \<Rightarrow> bool" where
  "mid_swap cr target m h \<longleftrightarrow>
     has_tree cr (path_elems target) (sm_pending_digest m) h
     \<or> sm_active_digest m \<noteq> [] \<and> has_tree cr (path_elems target) (sm_active_digest m) h
     \<or> gone (path_elems target) h \<and> has_tree cr (beside target (sm_apply_name m)) (sm_pending_digest m) h
       \<and> (if sm_active_digest m = [] then gone (beside target (sm_backup_name m)) h
           else has_tree cr (beside target (sm_backup_name m)) (sm_active_digest m) h)"

definition marker_inv :: "crypto \<Rightarrow> string \<Rightarrow> fileSyncMarker \<Rightarrow> swap_host \<Rightarrow> bool" where
  "marker_inv cr target m h \<longleftrightarrow>
     (if sm_state m = ''swapping'' then names_apart target (sm_apply_name m) (sm_backup_name m) \<and> mid_swap cr target m h
      else has_tree cr (path_elems target) (sm_active_digest m) h)"

definition swap_inv :: "crypto \<Rightarrow> string \<Rightarrow> swap_host \<Rightarrow> bool" where
  "swap_inv cr target h \<longleftrightarrow> (case w_marker h of Marker m \<Rightarrow> marker_inv cr target m h | _ \<Rightarrow> True)"

definition marked :: "fileSyncMarker \<Rightarrow> swap_host \<Rightarrow> bool" where
  "marked m h \<longleftrightarrow> w_marker h = Marker m"

lemma marked_inv: "marked m h \<Longrightarrow> swap_inv cr target h \<longleftrightarrow> marker_inv cr target m h"
  by (simp add: marked_def swap_inv_def)

lemma static_simps:
  "has_tree cr k d (h\<lparr>w_env := e\<rparr>) = has_tree cr k d h" "has_tree cr k d (h\<lparr>w_dead := b\<rparr>) = has_tree cr k d h"
  "gone k (h\<lparr>w_env := e\<rparr>) = gone k h" "gone k (h\<lparr>w_dead := b\<rparr>) = gone k h"
  "marked m (h\<lparr>w_env := e\<rparr>) = marked m h" "marked m (h\<lparr>w_dead := b\<rparr>) = marked m h"
  "swap_inv cr target (h\<lparr>w_env := e\<rparr>) = swap_inv cr target h" "swap_inv cr target (h\<lparr>w_dead := b\<rparr>) = swap_inv cr target h"
  by (simp_all add: has_tree_def gone_def marked_def swap_inv_def marker_inv_def mid_swap_def split: marker_file.split)

lemmas staticI = static_def [THEN iffD2]

lemma node_simps:
  "map_of (w_nodes (set_tree path t h)) k = (if k = path_elems path then Some (TDir t) else map_of (w_nodes h) k)"
  "w_marker (set_tree path t h) = w_marker h"
  by (simp_all add: set_tree_def)

section \<open>Removing what lies beside\<close>

text \<open>Assertions that do not look at a node.\<close>

definition blind :: "string list \<Rightarrow> (swap_host \<Rightarrow> bool) \<Rightarrow> bool" where
  "blind k P \<longleftrightarrow> (\<forall>h h'. w_marker h' = w_marker h \<longrightarrow> (\<forall>j. j \<noteq> k \<longrightarrow> map_of (w_nodes h') j = map_of (w_nodes h) j) \<longrightarrow> P h \<longrightarrow> P h')"

lemma blindD: "blind k P \<Longrightarrow> P h \<Longrightarrow> w_marker h' = w_marker h \<Longrightarrow> (\<And>j. j \<noteq> k \<Longrightarrow> map_of (w_nodes h') j = map_of (w_nodes h) j) \<Longrightarrow> P h'"
  by (simp add: blind_def)

lemma keeps_remove:
  assumes "static P" and "blind (path_elems path) P"
  shows "keeps P (safeRemoveSwapPath parent path stem)"
  unfolding safeRemoveSwapPath_def remove_all_def
proof (intro keeps_guardE keeps_bind keeps_lstat assms(1))
  fix r :: "swap_err + tnode option"
  have act: "keeps P (act_or (\<lambda>t. set_tree path t) (\<lambda>h. Some (h\<lparr>w_nodes := go_del (path_elems path) (w_nodes h)\<rparr>)))"
    by (rule keeps_act_or [OF assms(1)]) (auto intro: blindD [OF assms(2)] simp: node_simps)
  show "keeps P (case r of Inr None \<Rightarrow> okE () | Inr (Some (TDir _)) \<Rightarrow> act_or (\<lambda>t. set_tree path t) (\<lambda>h. Some (h\<lparr>w_nodes := go_del (path_elems path) (w_nodes h)\<rparr>))
      | _ \<Rightarrow> errE SwapNotDirectory)"
    by (auto intro: keeps_okE keeps_errE act split: sum.split option.split tnode.split)
qed

lemma blind_has: "k \<noteq> j \<Longrightarrow> blind j (\<lambda>h. marked m h \<and> has_tree cr k d h)"
  unfolding blind_def marked_def has_tree_def by metis

section \<open>The swap\<close>

text \<open>The stages of a swap: the copy is ready; the target has been moved away; the new tree is in place; the old tree has been put back.\<close>

definition ready :: "crypto \<Rightarrow> string \<Rightarrow> fileSyncMarker \<Rightarrow> swap_host \<Rightarrow> bool" where
  "ready cr target m h \<longleftrightarrow> has_tree cr (beside target (sm_apply_name m)) (sm_pending_digest m) h \<and> gone (beside target (sm_backup_name m)) h
     \<and> (if sm_active_digest m = [] then gone (path_elems target) h else has_tree cr (path_elems target) (sm_active_digest m) h)"

definition moved_away :: "crypto \<Rightarrow> string \<Rightarrow> fileSyncMarker \<Rightarrow> swap_host \<Rightarrow> bool" where
  "moved_away cr target m h \<longleftrightarrow> gone (path_elems target) h \<and> has_tree cr (beside target (sm_apply_name m)) (sm_pending_digest m) h
     \<and> (if sm_active_digest m = [] then gone (beside target (sm_backup_name m)) h
         else has_tree cr (beside target (sm_backup_name m)) (sm_active_digest m) h)"

definition stage :: "(swap_host \<Rightarrow> bool) \<Rightarrow> fileSyncMarker \<Rightarrow> swap_host \<Rightarrow> bool" where
  "stage P m h \<longleftrightarrow> marked m h \<and> P h"

lemmas stage_defs = stage_def ready_def moved_away_def

lemma static_stage:
  "static (stage (ready cr target m) n)" "static (stage (moved_away cr target m) n)" "static (stage (has_tree cr k d) n)"
  "static (swap_inv cr target)" "static (\<lambda>h. marked m h \<and> swap_inv cr target h)"
  by (simp_all add: static_def static_simps stage_defs)

lemma stages_inv:
  assumes "names_apart target (sm_apply_name m) (sm_backup_name m)" and "sm_state m = ''swapping''"
  shows "stage (ready cr target m) m h \<Longrightarrow> swap_inv cr target h" "stage (moved_away cr target m) m h \<Longrightarrow> swap_inv cr target h"
    "stage (has_tree cr (path_elems target) (sm_pending_digest m)) m h \<Longrightarrow> swap_inv cr target h"
    "sm_active_digest m \<noteq> [] \<Longrightarrow> stage (has_tree cr (path_elems target) (sm_active_digest m)) m h \<Longrightarrow> swap_inv cr target h"
  using assms by (auto simp: stage_defs marked_inv marker_inv_def mid_swap_def split: if_splits)

lemma move_away:
  assumes "names_apart target (sm_apply_name m) (sm_backup_name m)" and "sm_active_digest m \<noteq> []"
  shows "triple (stage (ready cr target m) m) (rename_dir target (path_join (dir_name target) (sm_backup_name m)))
    (\<lambda>r h. case r of Inr _ \<Rightarrow> stage (moved_away cr target m) m h | Inl _ \<Rightarrow> stage (ready cr target m) m h \<or> stage (moved_away cr target m) m h \<and> w_dead h)"
  unfolding rename_dir_def
  by (rule act_rule [OF static_stage(1,2)]) (use assms in \<open>auto simp: stage_defs has_tree_def gone_def marked_def names_apart_def beside_def split: option.splits if_splits\<close>)

lemma put_in_place:
  assumes "names_apart target (sm_apply_name m) (sm_backup_name m)"
  shows "triple (stage (moved_away cr target m) m) (rename_dir (path_join (dir_name target) (sm_apply_name m)) target)
    (\<lambda>r h. case r of Inr _ \<Rightarrow> stage (has_tree cr (path_elems target) (sm_pending_digest m)) m h
      | Inl _ \<Rightarrow> stage (moved_away cr target m) m h \<or> stage (has_tree cr (path_elems target) (sm_pending_digest m)) m h \<and> w_dead h)"
  unfolding rename_dir_def
  by (rule act_rule [OF static_stage(2,3)]) (use assms in \<open>auto simp: stage_defs has_tree_def gone_def marked_def names_apart_def beside_def split: option.splits if_splits\<close>)

lemma put_back:
  assumes "names_apart target (sm_apply_name m) (sm_backup_name m)" and "sm_active_digest m \<noteq> []"
  shows "triple (stage (moved_away cr target m) m) (rename_dir (path_join (dir_name target) (sm_backup_name m)) target)
    (\<lambda>r h. case r of Inr _ \<Rightarrow> stage (has_tree cr (path_elems target) (sm_active_digest m)) m h
      | Inl _ \<Rightarrow> stage (moved_away cr target m) m h \<or> stage (has_tree cr (path_elems target) (sm_active_digest m)) m h \<and> w_dead h)"
  unfolding rename_dir_def
  by (rule act_rule [OF static_stage(2,3)]) (use assms in \<open>auto simp: stage_defs has_tree_def gone_def marked_def names_apart_def beside_def split: option.splits if_splits\<close>)

lemma replace_marker:
  assumes "static P" and "\<And>h. P h \<Longrightarrow> P (h\<lparr>w_marker := x\<rparr>)" and "x = Marker m'"
  shows "triple (\<lambda>h. marked m h \<and> P h) (save_marker m')
    (\<lambda>r h. case r of Inr _ \<Rightarrow> marked m' h \<and> P h | Inl _ \<Rightarrow> (marked m h \<and> P h) \<or> (marked m' h \<and> P h) \<and> w_dead h)"
  unfolding save_marker_def
  by (rule act_rule) (use assms in \<open>auto simp: static_def static_simps marked_def\<close>)

text \<open>What a run leaves when the invariant is all that is known of a failure.\<close>

definition outcome :: "crypto \<Rightarrow> string \<Rightarrow> ('a \<Rightarrow> swap_host \<Rightarrow> bool) \<Rightarrow> swap_err + 'a \<Rightarrow> swap_host \<Rightarrow> bool" where
  "outcome cr target Q r h \<longleftrightarrow> swap_inv cr target h \<and> (case r of Inl _ \<Rightarrow> True | Inr x \<Rightarrow> Q x h)"

lemma dead_rename: "triple (\<lambda>h. P h \<and> w_dead h) (rename_dir a b) (\<lambda>r h. is_err r \<and> P h \<and> w_dead h)"
  unfolding rename_dir_def by (rule dead_act)

lemma put_back_any:
  assumes apart: "names_apart target (sm_apply_name m) (sm_backup_name m)" and st: "sm_state m = ''swapping''" and old: "ex \<longleftrightarrow> sm_active_digest m \<noteq> []"
  shows "triple (\<lambda>h. stage (moved_away cr target m) m h \<or> stage (has_tree cr (path_elems target) (sm_pending_digest m)) m h \<and> w_dead h)
    (if ex then rename_dir (path_join (dir_name target) (sm_backup_name m)) target else okE ()) (\<lambda>_. swap_inv cr target)"
proof (cases ex)
  case True
  then have ne: "sm_active_digest m \<noteq> []" using old by simp
  note inv = stages_inv [OF apart st]
  have "triple (stage (moved_away cr target m) m) (rename_dir (path_join (dir_name target) (sm_backup_name m)) target) (\<lambda>_. swap_inv cr target)"
    by (rule triple_conseq [OF put_back [OF apart ne]]) (auto intro: inv(1-3) inv(4) [OF ne] split: sum.splits)
  moreover have "triple (\<lambda>h. stage (has_tree cr (path_elems target) (sm_pending_digest m)) m h \<and> w_dead h)
      (rename_dir (path_join (dir_name target) (sm_backup_name m)) target) (\<lambda>_. swap_inv cr target)"
    by (rule triple_conseq [OF dead_rename [of "stage (has_tree cr (path_elems target) (sm_pending_digest m)) m"]]) (auto intro: inv)
  ultimately show ?thesis using True by (auto simp: triple_def)
next
  case False
  then show ?thesis by (auto intro!: triple_okE intro: stages_inv [OF apart st])
qed

lemma active_marker_inv:
  "marked m h \<Longrightarrow> sm_state m \<noteq> ''swapping'' \<Longrightarrow> has_tree cr (path_elems target) (sm_active_digest m) h \<Longrightarrow> swap_inv cr target h"
  by (simp add: marked_inv marker_inv_def)

lemma settled_simps [simp]:
  "sm_state (settled m) = ''active''" "sm_active_digest (settled m) = sm_active_digest m"
  by (simp_all add: settled_def)

lemma has_tree_marker [simp]: "has_tree cr k d (h\<lparr>w_marker := x\<rparr>) = has_tree cr k d h"
  by (simp add: has_tree_def)

text \<open>The write of a marker that records the tree at the target as the active one.\<close>

lemma settle_rule:
  assumes "sm_state m' \<noteq> ''swapping''" and inv: "\<And>h. stage (has_tree cr (path_elems target) (sm_active_digest m')) m h \<Longrightarrow> swap_inv cr target h"
  shows "triple (stage (has_tree cr (path_elems target) (sm_active_digest m')) m) (save_marker m')
    (outcome cr target (\<lambda>_ h. stage (has_tree cr (path_elems target) (sm_active_digest m')) m' h))"
proof -
  have "triple (\<lambda>h. marked m h \<and> has_tree cr (path_elems target) (sm_active_digest m') h) (save_marker m')
    (\<lambda>r h. case r of Inr _ \<Rightarrow> marked m' h \<and> has_tree cr (path_elems target) (sm_active_digest m') h
       | Inl _ \<Rightarrow> (marked m h \<and> has_tree cr (path_elems target) (sm_active_digest m') h)
          \<or> (marked m' h \<and> has_tree cr (path_elems target) (sm_active_digest m') h) \<and> w_dead h)"
    by (rule replace_marker) (simp_all add: static_def static_simps)
  then show ?thesis
    by (rule triple_conseq) (use assms active_marker_inv in \<open>auto simp: stage_def outcome_def split: sum.splits\<close>)
qed

lemma keeps_stage_remove:
  "k \<noteq> path_elems path \<Longrightarrow> keeps (stage (has_tree cr k d) m) (safeRemoveSwapPath parent path stem)"
  by (rule keeps_remove [OF static_stage(3)]) (use blind_has in \<open>simp add: stage_def [abs_def]\<close>)

lemma swap_trees_safe:
  assumes apart: "names_apart target (sm_apply_name m) (sm_backup_name m)" and st: "sm_state m = ''swapping''" and old: "ex \<longleftrightarrow> sm_active_digest m \<noteq> []"
  shows "triple (stage (ready cr target m) m)
    (swap_trees (dir_name target) target (path_join (dir_name target) (sm_apply_name m)) (path_join (dir_name target) (sm_backup_name m)) ex m)
    (outcome cr target (\<lambda>b h. \<not> b \<and> has_tree cr (path_elems target) (sm_pending_digest m) h))"
proof -
  note inv = stages_inv [OF apart st]
  let ?new = "stage (has_tree cr (path_elems target) (sm_pending_digest m)) m"
  have move: "triple (stage (ready cr target m) m) (if ex then rename_dir target (path_join (dir_name target) (sm_backup_name m)) else okE ())
      (\<lambda>r h. case r of Inr _ \<Rightarrow> stage (moved_away cr target m) m h | Inl _ \<Rightarrow> swap_inv cr target h)"
  proof (cases ex)
    case True
    then have "sm_active_digest m \<noteq> []" using old by simp
    have "triple (stage (ready cr target m) m) (rename_dir target (path_join (dir_name target) (sm_backup_name m)))
        (\<lambda>r h. case r of Inr _ \<Rightarrow> stage (moved_away cr target m) m h | Inl _ \<Rightarrow> swap_inv cr target h)"
      by (rule triple_conseq [OF move_away [OF apart \<open>sm_active_digest m \<noteq> []\<close>]]) (auto intro: inv(1-3) split: sum.splits)
    then show ?thesis using True by simp
  next
    case False
    then show ?thesis using old by (auto intro!: triple_okE simp: stage_defs)
  qed
  have finish: "triple ?new (do { h \<leftarrow> get_state;
      tryE (save_marker ((settled m)\<lparr>sm_active_digest := sm_pending_digest m, sm_updated_at := Stamp (w_now h)\<rparr>)) (\<lambda>_.
      tryE (if ex then safeRemoveSwapPath (dir_name target) (path_join (dir_name target) (sm_backup_name m)) ''.askio-backup-'' else okE ()) (\<lambda>_. okE False)) })
      (outcome cr target (\<lambda>b h. \<not> b \<and> has_tree cr (path_elems target) (sm_pending_digest m) h))"
  proof (rule triple_any_state)
    fix h :: swap_host
    let ?m = "(settled m)\<lparr>sm_active_digest := sm_pending_digest m, sm_updated_at := Stamp (w_now h)\<rparr>"
    have done_: "marked ?m g \<Longrightarrow> has_tree cr (path_elems target) (sm_pending_digest m) g \<Longrightarrow> swap_inv cr target g" for g
      by (rule active_marker_inv [of ?m]) simp_all
    have "keeps (stage (has_tree cr (path_elems target) (sm_pending_digest m)) ?m)
        (if ex then safeRemoveSwapPath (dir_name target) (path_join (dir_name target) (sm_backup_name m)) ''.askio-backup-'' else okE ())"
      using apart by (intro keeps_if keeps_okE keeps_stage_remove) (auto simp: names_apart_def beside_def)
    then have remove: "triple (stage (has_tree cr (path_elems target) (sm_pending_digest m)) ?m)
        (tryE (if ex then safeRemoveSwapPath (dir_name target) (path_join (dir_name target) (sm_backup_name m)) ''.askio-backup-'' else okE ()) (\<lambda>_. okE False))
        (outcome cr target (\<lambda>b h. \<not> b \<and> has_tree cr (path_elems target) (sm_pending_digest m) h))"
      unfolding keeps_def by (rule triple_tryE) (auto simp: outcome_def intro: done_ intro!: triple_okE simp: stage_def)
    have "triple ?new (save_marker ?m) (outcome cr target (\<lambda>_ h. stage (has_tree cr (path_elems target) (sm_active_digest ?m)) ?m h))"
      using settle_rule [of ?m cr target m] inv(3) by simp
    then show "triple ?new (tryE (save_marker ?m) (\<lambda>_. tryE (if ex then safeRemoveSwapPath (dir_name target) (path_join (dir_name target) (sm_backup_name m)) ''.askio-backup-'' else okE ()) (\<lambda>_. okE False)))
        (outcome cr target (\<lambda>b h. \<not> b \<and> has_tree cr (path_elems target) (sm_pending_digest m) h))"
      by (rule triple_tryE) (simp add: outcome_def, rule triple_conseq [OF remove], simp_all add: outcome_def)
  qed
  have failed: "triple (\<lambda>h. stage (moved_away cr target m) m h \<or> ?new h \<and> w_dead h)
      (do { _ \<leftarrow> (if ex then rename_dir (path_join (dir_name target) (sm_backup_name m)) target else okE ()); errE e })
      (outcome cr target (\<lambda>b h. \<not> b \<and> has_tree cr (path_elems target) (sm_pending_digest m) h))" for e
    by (rule triple_bind [OF put_back_any [OF apart st old]], rule triple_errE) (simp add: outcome_def)
  have placing: "triple (stage (moved_away cr target m) m) (do {
      placed \<leftarrow> rename_dir (path_join (dir_name target) (sm_apply_name m)) target;
      case placed of
        Inl e \<Rightarrow> do { _ \<leftarrow> (if ex then rename_dir (path_join (dir_name target) (sm_backup_name m)) target else okE ()); errE e }
      | Inr _ \<Rightarrow> do { h \<leftarrow> get_state;
          tryE (save_marker ((settled m)\<lparr>sm_active_digest := sm_pending_digest m, sm_updated_at := Stamp (w_now h)\<rparr>)) (\<lambda>_.
          tryE (if ex then safeRemoveSwapPath (dir_name target) (path_join (dir_name target) (sm_backup_name m)) ''.askio-backup-'' else okE ()) (\<lambda>_. okE False)) } })
      (outcome cr target (\<lambda>b h. \<not> b \<and> has_tree cr (path_elems target) (sm_pending_digest m) h))"
    by (rule triple_bind [OF put_in_place [OF apart]], rule triple_case_sum)
      (hypsubst, simp only: sum.case, rule failed, hypsubst, simp only: sum.case, rule finish)
  show ?thesis unfolding swap_trees_def
    by (rule triple_bind [OF move], rule triple_case_sum)
      (hypsubst, simp only: sum.case, rule triple_errE, simp add: outcome_def, hypsubst, simp only: sum.case, rule placing)
qed

section \<open>Recovery\<close>

lemma lstat_result:
  "static P \<Longrightarrow> triple P (lstat_at path) (\<lambda>r h. P h \<and> (\<forall>n. r = Inr n \<longrightarrow> map_of (w_nodes h) (path_elems path) = n))"
  unfolding lstat_at_def
  by (rule triple_tryE [OF look_rule [unfolded keeps_def]]) (auto intro!: triple_state triple_okE)

lemma list_result:
  "static P \<Longrightarrow> triple P (list_tree cr path) (\<lambda>r h. P h \<and> (\<forall>s. r = Inr s \<longrightarrow> has_tree cr (path_elems path) (ms_digest s) h))"
  unfolding list_tree_def
proof (rule triple_tryE [OF look_rule [unfolded keeps_def]])
  fix u :: unit
  show "triple P (get_state \<bind> (\<lambda>h. case buildFileManifest cr (\<lambda>_. True) (case map_of (w_nodes h) (path_elems path) of Some (TDir t) \<Rightarrow> Some t | _ \<Rightarrow> None) of
       Inl e \<Rightarrow> errE (TargetUnlisted e) | Inr s \<Rightarrow> okE s)) (\<lambda>r h. P h \<and> (\<forall>s. r = Inr s \<longrightarrow> has_tree cr (path_elems path) (ms_digest s) h))"
  proof (rule tripleI)
    fix h x t assume P: "P h" and run: "run_state (get_state \<bind> (\<lambda>h. case buildFileManifest cr (\<lambda>_. True)
        (case map_of (w_nodes h) (path_elems path) of Some (TDir t) \<Rightarrow> Some t | _ \<Rightarrow> None) of Inl e \<Rightarrow> errE (TargetUnlisted e) | Inr s \<Rightarrow> okE s)) h = (x, t)"
    have none: "buildFileManifest cr (\<lambda>_. True) None = Inl manifest_err.RootUnavailable" by (simp add: buildFileManifest_def)
    show "P t \<and> (\<forall>s. x = Inr s \<longrightarrow> has_tree cr (path_elems path) (ms_digest s) t)"
    proof (cases "\<exists>tree. map_of (w_nodes h) (path_elems path) = Some (TDir tree)")
      case True
      with P run show ?thesis by (auto simp: has_tree_def split: sum.splits)
    next
      case False
      then have "(case map_of (w_nodes h) (path_elems path) of Some (TDir t) \<Rightarrow> Some t | _ \<Rightarrow> None) = None"
        by (auto split: option.splits tnode.splits)
      with P run none show ?thesis by auto
    qed
  qed
qed auto

definition at_rest :: "fileSyncMarker \<Rightarrow> swap_host \<Rightarrow> bool" where
  "at_rest m h \<longleftrightarrow> marked m h \<and> sm_state m \<noteq> ''swapping''"

lemma settle_safe:
  assumes "sm_state m' \<noteq> ''swapping''" and "\<And>h. stage (has_tree cr (path_elems target) (sm_active_digest m')) m h \<Longrightarrow> swap_inv cr target h"
  shows "triple (stage (has_tree cr (path_elems target) (sm_active_digest m')) m) (settle m') (outcome cr target at_rest)"
  unfolding settle_def
  by (rule triple_tryE [OF settle_rule [OF assms]]) (use assms(1) in \<open>auto simp: outcome_def at_rest_def stage_def intro!: triple_okE\<close>)

lemma recover_present_safe:
  assumes apart: "names_apart target (sm_apply_name m) (sm_backup_name m)" and st: "sm_state m = ''swapping''"
  shows "triple (\<lambda>h. marked m h \<and> swap_inv cr target h) (recover_present cr target (dir_name target) m) (outcome cr target at_rest)"
proof -
  note inv = stages_inv [OF apart st]
  let ?a = "path_join (dir_name target) (sm_apply_name m)" and ?b = "path_join (dir_name target) (sm_backup_name m)"
  have keys: "path_elems target \<noteq> path_elems ?a" "path_elems target \<noteq> path_elems ?b" using apart by (auto simp: names_apart_def beside_def)
  have remove: "triple (stage (has_tree cr (path_elems target) d) m) (safeRemoveSwapPath (dir_name target) p stem)
      (\<lambda>_. stage (has_tree cr (path_elems target) d) m)" if "p = ?a \<or> p = ?b" for d p stem
    using keeps_stage_remove keys that by (auto simp: keeps_def)
  have pending: "triple (stage (has_tree cr (path_elems target) (sm_pending_digest m)) m)
     (tryE (safeRemoveSwapPath (dir_name target) ?b ''.askio-backup-'') (\<lambda>_. do {
        _ \<leftarrow> safeRemoveSwapPath (dir_name target) ?a ''.askio-apply-'';
        h \<leftarrow> get_state;
        settle ((settled m)\<lparr>sm_active_digest := sm_pending_digest m, sm_updated_at := Stamp (w_now h)\<rparr>) })) (outcome cr target at_rest)"
  proof (rule triple_tryE [OF remove])
    fix u
    show "triple (stage (has_tree cr (path_elems target) (sm_pending_digest m)) m) (do {
        _ \<leftarrow> safeRemoveSwapPath (dir_name target) ?a ''.askio-apply-'';
        h \<leftarrow> get_state;
        settle ((settled m)\<lparr>sm_active_digest := sm_pending_digest m, sm_updated_at := Stamp (w_now h)\<rparr>) }) (outcome cr target at_rest)"
    proof (rule triple_bind [OF remove])
      fix r
      show "triple (stage (has_tree cr (path_elems target) (sm_pending_digest m)) m)
          (get_state \<bind> (\<lambda>h. settle ((settled m)\<lparr>sm_active_digest := sm_pending_digest m, sm_updated_at := Stamp (w_now h)\<rparr>))) (outcome cr target at_rest)"
      proof (rule triple_any_state)
        fix h
        show "triple (stage (has_tree cr (path_elems target) (sm_pending_digest m)) m)
            (settle ((settled m)\<lparr>sm_active_digest := sm_pending_digest m, sm_updated_at := Stamp (w_now h)\<rparr>)) (outcome cr target at_rest)"
          using settle_safe [of "(settled m)\<lparr>sm_active_digest := sm_pending_digest m, sm_updated_at := Stamp (w_now h)\<rparr>" cr target m] inv(3) by simp
      qed
    qed simp
  qed (auto simp: outcome_def intro: inv(3))
  have active: "triple (stage (has_tree cr (path_elems target) (sm_active_digest m)) m) (do {
        _ \<leftarrow> safeRemoveSwapPath (dir_name target) ?a ''.askio-apply-'';
        _ \<leftarrow> safeRemoveSwapPath (dir_name target) ?b ''.askio-backup-'';
        settle (settled m) }) (outcome cr target at_rest)" if "sm_active_digest m \<noteq> []"
    by (rule triple_bind [OF remove], simp, rule triple_bind [OF remove], simp)
      (use settle_safe [of "settled m" cr target m] inv(4) [OF that] in simp)
  show ?thesis
    unfolding recover_present_def Let_def
    by (rule triple_bind [OF list_result [OF static_stage(5)]], rule triple_case_sum)
      (auto simp: outcome_def stage_def intro!: triple_errE triple_if triple_conseq [OF pending] triple_conseq [OF active])
qed

lemma no_target_stage:
  assumes "sm_state m = ''swapping''" and "marked m h" and "swap_inv cr target h" and "map_of (w_nodes h) (path_elems target) = None"
  shows "stage (moved_away cr target m) m h"
  using assms by (auto simp: stage_defs marked_inv marker_inv_def mid_swap_def has_tree_def)

lemma recover_safe:
  "triple (\<lambda>h. marked m h \<and> swap_inv cr target h) (recoverFileSwap fuel cr target (dir_name target) m) (outcome cr target at_rest)"
proof (cases "sm_state m = ''swapping'' \<and> names_apart target (sm_apply_name m) (sm_backup_name m)")
  case True
  then have st: "sm_state m = ''swapping''" and apart: "names_apart target (sm_apply_name m) (sm_backup_name m)" by simp_all
  note inv = stages_inv [OF apart st]
  let ?a = "path_join (dir_name target) (sm_apply_name m)" and ?b = "path_join (dir_name target) (sm_backup_name m)"
  let ?away = "stage (moved_away cr target m) m"
  have restore: "triple ?away (do {
      b \<leftarrow> lstat_at ?b;
      case b of Inr (Some (TDir _)) \<Rightarrow> tryE (rename_dir ?b target) (\<lambda>_. settle (settled m)) | _ \<Rightarrow> errE NothingToRecover }) (outcome cr target at_rest)"
  proof (rule triple_bind [OF lstat_result [OF static_stage(2)]])
    fix b :: "swap_err + tnode option"
    have undone: "triple (\<lambda>h. ?away h \<and> (\<forall>n. b = Inr n \<longrightarrow> map_of (w_nodes h) (path_elems ?b) = n)) (tryE (rename_dir ?b target) (\<lambda>_. settle (settled m))) (outcome cr target at_rest)"
      if "b = Inr (Some (TDir t))" for t
    proof (cases "sm_active_digest m = []")
      case True
      then show ?thesis using that by (auto simp: triple_def stage_defs gone_def beside_def)
    next
      case False
      have "triple ?away (tryE (rename_dir ?b target) (\<lambda>_. settle (settled m))) (outcome cr target at_rest)"
        by (rule triple_tryE [OF put_back [OF apart False]])
          (use settle_safe [of "settled m" cr target m] in \<open>auto simp: outcome_def intro: inv(2) inv(4) [OF False]\<close>)
      then show ?thesis by (rule triple_conseq) simp_all
    qed
    show "triple (\<lambda>h. ?away h \<and> (\<forall>n. b = Inr n \<longrightarrow> map_of (w_nodes h) (path_elems ?b) = n))
        (case b of Inr (Some (TDir _)) \<Rightarrow> tryE (rename_dir ?b target) (\<lambda>_. settle (settled m)) | _ \<Rightarrow> errE NothingToRecover) (outcome cr target at_rest)"
      using undone by (auto simp: outcome_def intro!: triple_errE intro: inv(2) split: sum.split option.split tnode.split)
  qed
  show ?thesis
  proof (induction fuel)
    case 0
    then show ?case by (auto simp: outcome_def intro!: triple_errE)
  next
    case (Suc fuel)
    have again: "triple (stage (has_tree cr (path_elems target) (sm_pending_digest m)) m) (recoverFileSwap fuel cr target (dir_name target) m) (outcome cr target at_rest)"
      by (rule triple_conseq [OF Suc]) (auto simp: stage_def intro: inv(3))
    have place: "triple ?away (tryE (rename_dir ?a target) (\<lambda>_. recoverFileSwap fuel cr target (dir_name target) m)) (outcome cr target at_rest)"
      by (rule triple_tryE [OF put_in_place [OF apart]]) (auto simp: outcome_def intro: inv(2,3) again)
    have absent: "triple ?away (do {
        a \<leftarrow> lstat_at ?a;
        case a of Inr (Some (TDir _)) \<Rightarrow> tryE (rename_dir ?a target) (\<lambda>_. recoverFileSwap fuel cr target (dir_name target) m)
        | _ \<Rightarrow> do { b \<leftarrow> lstat_at ?b;
            case b of Inr (Some (TDir _)) \<Rightarrow> tryE (rename_dir ?b target) (\<lambda>_. settle (settled m)) | _ \<Rightarrow> errE NothingToRecover } }) (outcome cr target at_rest)"
      by (rule triple_bind [OF keeps_lstat [OF static_stage(2), unfolded keeps_def]])
        (use place restore in \<open>auto split: sum.split option.split tnode.split\<close>)
    show ?case
      using st unfolding recoverFileSwap.simps Let_def
    proof (simp, intro triple_bind [OF lstat_result [OF static_stage(5)]])
      fix r :: "swap_err + tnode option"
      let ?P = "\<lambda>h. (marked m h \<and> swap_inv cr target h) \<and> (\<forall>n. r = Inr n \<longrightarrow> map_of (w_nodes h) (path_elems target) = n)"
      have present: "triple ?P (recover_present cr target (dir_name target) m) (outcome cr target at_rest)"
        by (rule triple_conseq [OF recover_present_safe [OF apart st]]) auto
      have missing: "?away h" if "?P h" "r = Inr None" for h using that by (intro no_target_stage [OF st]) auto
      show "triple ?P (case r of Inr (Some (TDir _)) \<Rightarrow> recover_present cr target (dir_name target) m
          | Inr None \<Rightarrow> do {
            a \<leftarrow> lstat_at ?a;
            case a of Inr (Some (TDir _)) \<Rightarrow> tryE (rename_dir ?a target) (\<lambda>_. recoverFileSwap fuel cr target (dir_name target) m)
            | _ \<Rightarrow> do { b \<leftarrow> lstat_at ?b;
                case b of Inr (Some (TDir _)) \<Rightarrow> tryE (rename_dir ?b target) (\<lambda>_. settle (settled m)) | _ \<Rightarrow> errE NothingToRecover } }
          | _ \<Rightarrow> errE TargetUnsafe) (outcome cr target at_rest)"
      proof (cases "r = Inr None")
        case True
        then show ?thesis using triple_conseq [OF absent, of ?P] missing by simp
      next
        case False
        then show ?thesis using present by (auto simp: outcome_def intro!: triple_errE split: sum.split option.split tnode.split)
      qed
    qed
  qed
next
  case False
  show ?thesis
  proof (rule tripleI)
    fix h x t assume pre: "marked m h \<and> swap_inv cr target h" and run: "run_state (recoverFileSwap fuel cr target (dir_name target) m) h = (x, t)"
    then have "sm_state m \<noteq> ''swapping''" using False by (auto simp: marked_inv marker_inv_def)
    with pre run show "outcome cr target at_rest x t" by (cases fuel) (auto simp: outcome_def at_rest_def)
  qed
qed

end
