(* ===== verification/Swap_Apply.thy ===== *)
theory Swap_Apply
  imports Swap_Safety
begin

text \<open>
  The whole operation \<open>applyFileTree\<close>, run again and again on a host whose calls fail and whose process dies at arbitrary points.
\<close>

section \<open>Applying a tree\<close>

lemma built_digest: "buildFileManifest cr progress root = Inr s \<Longrightarrow> ms_digest s \<noteq> []"
  by (auto simp: buildFileManifest_def result_inv Let_def manifest_digest_def Digest_def split: option.splits)

lemma has_tree_digest: "has_tree cr k d h \<Longrightarrow> d \<noteq> []"
  by (auto simp: has_tree_def dest: built_digest)

text \<open>The marker as the caller holds it, and the digest of the present target.\<close>

definition marker_is :: "fileSyncMarker option \<Rightarrow> swap_host \<Rightarrow> bool" where
  "marker_is marker h \<longleftrightarrow> (case marker of None \<Rightarrow> w_marker h = NoMarker | Some m \<Rightarrow> at_rest m h)"

definition target_is :: "crypto \<Rightarrow> string \<Rightarrow> fileSyncMarker option \<Rightarrow> string option \<Rightarrow> swap_host \<Rightarrow> bool" where
  "target_is cr target marker current h \<longleftrightarrow> marker_is marker h
     \<and> (case current of
          None \<Rightarrow> marker = None \<and> gone (path_elems target) h
        | Some d \<Rightarrow> has_tree cr (path_elems target) d h \<and> (\<forall>m. marker = Some m \<longrightarrow> sm_active_digest m = d))"

lemma target_is_inv: "target_is cr target marker current h \<Longrightarrow> swap_inv cr target h"
  by (cases marker; cases current) (auto simp: target_is_def marker_is_def at_rest_def swap_inv_def marker_inv_def marked_def)

lemma static_target: "static (target_is cr target marker current)" "static (marker_is marker)"
  by (cases marker; cases current; simp add: static_def static_simps target_is_def marker_is_def at_rest_def; simp add: marked_def)+

lemma blind_conj: "blind k P \<Longrightarrow> blind k Q \<Longrightarrow> blind k (\<lambda>h. P h \<and> Q h)"
  by (simp add: blind_def)

lemma blind_const: "blind k (\<lambda>_. b)"
  by (simp add: blind_def)

lemma blind_node: "j \<noteq> k \<Longrightarrow> blind k (gone j)" "j \<noteq> k \<Longrightarrow> blind k (has_tree cr j d)"
  by (simp_all add: blind_def gone_def has_tree_def)

lemma blind_marker: "blind k (marker_is marker)"
  by (cases marker) (simp_all add: blind_def marker_is_def at_rest_def marked_def)

lemma blind_target:
  assumes "k \<noteq> path_elems target"
  shows "blind k (target_is cr target marker current)"
proof (cases current)
  case None
  have "blind k (\<lambda>h. marker_is marker h \<and> marker = None \<and> gone (path_elems target) h)"
    using assms by (intro blind_conj blind_marker blind_const blind_node) auto
  then show ?thesis using None by (simp add: target_is_def [abs_def])
next
  case (Some d)
  have "blind k (\<lambda>h. marker_is marker h \<and> has_tree cr (path_elems target) d h \<and> (\<forall>m. marker = Some m \<longrightarrow> sm_active_digest m = d))"
    using assms by (intro blind_conj blind_marker blind_const blind_node) auto
  then show ?thesis using Some by (simp add: target_is_def [abs_def])
qed

lemma load_marker_safe:
  "triple (swap_inv cr target) (load_marker cr q target) (outcome cr target marker_is)"
  unfolding load_marker_def
proof (rule triple_bind [OF look_rule [OF static_stage(4), unfolded keeps_def]], rule triple_state)
  fix r :: "swap_err + unit" and h
  show "triple (\<lambda>s. swap_inv cr target s \<and> s = h) (if is_err r then errE MarkerUnreadable else case w_marker h of
       NoMarker \<Rightarrow> okE None | Unreadable \<Rightarrow> errE MarkerUnreadable
     | Marker m \<Rightarrow> guardE (sm_schema_version m = fileSyncMarkerSchema \<and> sm_migration_id m = t_migration_id (ar_task q)
             \<and> sm_target_root_handle m = ar_handle q \<and> sm_target_relative m = ar_relative q) MarkerScope
           (tryE (recoverFileSwap recoveryFuel cr target (dir_name target) m) (\<lambda>m'. okE (Some m')))) (outcome cr target marker_is)"
  proof (cases "w_marker h")
    case (Marker m)
    have "triple (\<lambda>s. swap_inv cr target s \<and> s = h) (tryE (recoverFileSwap recoveryFuel cr target (dir_name target) m) (\<lambda>m'. okE (Some m'))) (outcome cr target marker_is)"
    proof (rule triple_tryE)
      show "triple (\<lambda>s. swap_inv cr target s \<and> s = h) (recoverFileSwap recoveryFuel cr target (dir_name target) m) (outcome cr target at_rest)"
        by (rule triple_conseq [OF recover_safe]) (use Marker in \<open>simp_all add: marked_def\<close>)
    qed (auto simp: outcome_def marker_is_def intro!: triple_okE)
    then show ?thesis using Marker by (auto simp: outcome_def intro!: triple_if triple_errE triple_guardE)
  qed (auto simp: outcome_def marker_is_def intro!: triple_if triple_errE triple_okE)
qed

lemma inspect_target_safe:
  "triple (\<lambda>h. swap_inv cr target h \<and> marker_is marker h) (inspect_target cr q target marker)
    (outcome cr target (\<lambda>p h. target_is cr target marker (map_option fst p) h
       \<and> (case p of Some (d, True) \<Rightarrow> d = ms_digest (ar_summary q) | _ \<Rightarrow> True)))"
proof -
  let ?P = "\<lambda>h. swap_inv cr target h \<and> marker_is marker h"
  have st: "static ?P" using static_stage(4) static_target(2) by (simp add: static_def)
  have rest: "has_tree cr (path_elems target) (sm_active_digest m) h" if "?P h" "marker = Some m" for m h
    using that by (auto simp: marker_is_def at_rest_def marked_inv marker_inv_def)
  let ?Q = "outcome cr target (\<lambda>p h. target_is cr target marker (map_option fst p) h
       \<and> (case p of Some (d, True) \<Rightarrow> d = ms_digest (ar_summary q) | _ \<Rightarrow> True))"
  have listed: "triple ?P (tryE (list_tree cr target) (\<lambda>current. case marker of
           None \<Rightarrow> guardE (fm_entries (ms_manifest current) = []) TargetNotEmpty (okE (Some (ms_digest current, False)))
         | Some m \<Rightarrow> guardE (ms_digest current = sm_active_digest m) OutsideLineage
               (okE (Some (ms_digest current, sm_active_digest m = ms_digest (ar_summary q)))))) ?Q"
    by (rule triple_tryE [OF list_result [OF st]])
      (cases marker; auto simp: outcome_def target_is_def intro!: triple_guardE triple_okE split: bool.splits)+
  have absent: "triple (\<lambda>h. ?P h \<and> map_of (w_nodes h) (path_elems target) = None) (case marker of
            Some m \<Rightarrow> guardE (sm_active_digest m = []) TargetDisappeared (okE None) | None \<Rightarrow> okE None) ?Q"
  proof (cases marker)
    case None
    then show ?thesis by (auto simp: outcome_def target_is_def gone_def intro!: triple_okE)
  next
    case (Some m)
    then have "\<not> (?P h \<and> map_of (w_nodes h) (path_elems target) = None)" for h using rest [of h m] by (auto simp: has_tree_def)
    then show ?thesis by (intro tripleI) (use \<open>\<And>h. \<not> (?P h \<and> map_of (w_nodes h) (path_elems target) = None)\<close> in metis)
  qed
  show ?thesis
    unfolding inspect_target_def
  proof (rule triple_bind [OF lstat_result [OF st]])
    fix r :: "swap_err + tnode option"
    let ?R = "\<lambda>h. ?P h \<and> (\<forall>n. r = Inr n \<longrightarrow> map_of (w_nodes h) (path_elems target) = n)"
    show "triple ?R (case r of Inl e \<Rightarrow> errE e | Inr (Some TOther) \<Rightarrow> errE TargetCollides
     | Inr (Some (TDir _)) \<Rightarrow> tryE (list_tree cr target) (\<lambda>current. case marker of
           None \<Rightarrow> guardE (fm_entries (ms_manifest current) = []) TargetNotEmpty (okE (Some (ms_digest current, False)))
         | Some m \<Rightarrow> guardE (ms_digest current = sm_active_digest m) OutsideLineage
               (okE (Some (ms_digest current, sm_active_digest m = ms_digest (ar_summary q)))))
     | Inr None \<Rightarrow> (case marker of Some m \<Rightarrow> guardE (sm_active_digest m = []) TargetDisappeared (okE None) | None \<Rightarrow> okE None)) ?Q"
    proof (cases "r = Inr None")
      case True
      then show ?thesis using triple_conseq [OF absent, of ?R] by simp
    next
      case False
      have "triple ?R (tryE (list_tree cr target) (\<lambda>current. case marker of
           None \<Rightarrow> guardE (fm_entries (ms_manifest current) = []) TargetNotEmpty (okE (Some (ms_digest current, False)))
         | Some m \<Rightarrow> guardE (ms_digest current = sm_active_digest m) OutsideLineage
               (okE (Some (ms_digest current, sm_active_digest m = ms_digest (ar_summary q)))))) ?Q"
        by (rule triple_conseq [OF listed]) auto
      with False show ?thesis by (auto simp: outcome_def intro!: triple_errE split: sum.split option.split tnode.split)
    qed
  qed
qed

section \<open>The copy touches only the directory it fills\<close>

lemma keeps_at_tree:
  assumes "static P" and "blind (path_elems path) P"
  shows "keeps P (at_tree path f)"
  unfolding at_tree_def
  by (rule keeps_act_or [OF assms(1)]) (auto split: option.splits tnode.splits intro: blindD [OF assms(2)] simp: node_simps)

lemma keeps_make_copy_root:
  assumes "static P" and "blind (path_elems path) P"
  shows "keeps P (make_copy_root path)"
  unfolding make_copy_root_def
  by (rule keeps_act_or [OF assms(1)]) (auto split: if_splits intro: blindD [OF assms(2)] simp: node_simps)

lemma keeps_copy:
  assumes "static P" and "blind (path_elems path) P"
  shows "keeps P (copyManifestTree source root path manifest)"
  unfolding copyManifestTree_def copy_entry_def copy_file_def finish_entry_def chmod_entry_def chtimes_entry_def Let_def
  by (intro keeps_intros keeps_at_tree keeps_make_copy_root look_rule assms)

lemma keeps_abandon: "static P \<Longrightarrow> blind (path_elems path) P \<Longrightarrow> keeps P (abandon parent path e)"
  unfolding abandon_def by (intro keeps_intros keeps_remove)

lemma stage_copy_safe:
  assumes "static P" and "blind (path_elems path) P"
  shows "triple P (stage_copy cr q parent path) (\<lambda>r h. P h \<and> (r = Inr () \<longrightarrow> has_tree cr (path_elems path) (ms_digest (ar_summary q)) h))"
proof -
  have abandoned: "triple P (abandon parent path e) (\<lambda>r h. P h \<and> (r = Inr () \<longrightarrow> has_tree cr (path_elems path) (ms_digest (ar_summary q)) h))" for e
    unfolding abandon_def by (rule triple_bind [OF keeps_remove [OF assms, unfolded keeps_def]]) (auto intro: triple_errE)
  show ?thesis unfolding stage_copy_def
  proof (rule triple_bind [OF keeps_copy [OF assms, unfolded keeps_def]], rule triple_case_sum)
    fix u
    show "triple P (list_tree cr path \<bind> (\<lambda>listed. case listed of Inl _ \<Rightarrow> abandon parent path ApplyVerification
        | Inr verified \<Rightarrow> if ms_digest verified \<noteq> ms_digest (ar_summary q) then abandon parent path ApplyVerification else okE ()))
      (\<lambda>r h. P h \<and> (r = Inr () \<longrightarrow> has_tree cr (path_elems path) (ms_digest (ar_summary q)) h))"
      by (rule triple_bind [OF list_result [OF assms(1)]], rule triple_case_sum)
        (auto intro!: triple_if triple_okE triple_conseq [OF abandoned])
  qed (rule abandoned)
qed

lemma dead_remove: "w_dead h \<Longrightarrow> snd (run_state (safeRemoveSwapPath parent path stem) h) = h"
  by (simp add: safeRemoveSwapPath_def lstat_at_def act_or_def)

lemma require_absent_rule:
  "static P \<Longrightarrow> triple P (require_absent path e) (\<lambda>r h. P h \<and> (r = Inr () \<longrightarrow> gone (path_elems path) h))"
  unfolding require_absent_def
  by (rule triple_tryE [OF lstat_result]) (auto intro!: triple_guardE triple_okE simp: gone_def)

section \<open>The operation\<close>

definition staged :: "crypto \<Rightarrow> apply_request \<Rightarrow> string \<Rightarrow> fileSyncMarker option \<Rightarrow> string option \<Rightarrow> swap_host \<Rightarrow> bool" where
  "staged cr q target marker current h \<longleftrightarrow> target_is cr target marker current h
     \<and> gone (beside target (''.askio-backup-'' @ swap_token cr q)) h
     \<and> has_tree cr (beside target (''.askio-apply-'' @ swap_token cr q)) (ms_digest (ar_summary q)) h"

definition active_of :: "fileSyncMarker option \<Rightarrow> string option \<Rightarrow> string" where
  "active_of marker current = (case marker of Some m \<Rightarrow> sm_active_digest m | None \<Rightarrow> (case current of Some d \<Rightarrow> d | None \<Rightarrow> []))"

lemma active_of_present: "target_is cr target marker current h \<Longrightarrow> (current \<noteq> None \<longleftrightarrow> active_of marker current \<noteq> [])"
  by (cases marker; cases current) (auto simp: target_is_def active_of_def dest: has_tree_digest)

lemma swap_marker_simps [simp]:
  "sm_state (swap_marker cr q a now) = ''swapping''" "sm_active_digest (swap_marker cr q a now) = a"
  "sm_pending_digest (swap_marker cr q a now) = ms_digest (ar_summary q)"
  "sm_apply_name (swap_marker cr q a now) = ''.askio-apply-'' @ swap_token cr q"
  "sm_backup_name (swap_marker cr q a now) = ''.askio-backup-'' @ swap_token cr q"
  by (simp_all add: swap_marker_def)

lemma gone_marker [simp]: "gone k (h\<lparr>w_marker := x\<rparr>) = gone k h"
  by (simp add: gone_def)

lemma staged_ready:
  assumes "staged cr q target marker current h"
  shows "stage (ready cr target (swap_marker cr q (active_of marker current) now)) (swap_marker cr q (active_of marker current) now)
    (h\<lparr>w_marker := Marker (swap_marker cr q (active_of marker current) now)\<rparr>)"
  using assms active_of_present [of cr target marker current h]
  by (cases marker; cases current) (auto simp: staged_def stage_defs marked_def target_is_def active_of_def)

lemma save_swap_marker:
  assumes apart: "names_apart target (''.askio-apply-'' @ swap_token cr q) (''.askio-backup-'' @ swap_token cr q)"
  shows "triple (staged cr q target marker current)
    (do { saved \<leftarrow> save_marker (swap_marker cr q (active_of marker current) now);
          case saved of
            Inl e \<Rightarrow> abandon (dir_name target) (path_join (dir_name target) (''.askio-apply-'' @ swap_token cr q)) e
          | Inr _ \<Rightarrow> swap_trees (dir_name target) target (path_join (dir_name target) (''.askio-apply-'' @ swap_token cr q))
              (path_join (dir_name target) (''.askio-backup-'' @ swap_token cr q)) (current \<noteq> None) (swap_marker cr q (active_of marker current) now) })
    (outcome cr target (\<lambda>b h. \<not> b \<and> has_tree cr (path_elems target) (ms_digest (ar_summary q)) h))"
proof -
  let ?m = "swap_marker cr q (active_of marker current) now"
  let ?ready = "stage (ready cr target ?m) ?m"
  let ?a = "path_join (dir_name target) (''.askio-apply-'' @ swap_token cr q)"
  let ?Q = "outcome cr target (\<lambda>b h. \<not> b \<and> has_tree cr (path_elems target) (ms_digest (ar_summary q)) h)"
  have apart': "names_apart target (sm_apply_name ?m) (sm_backup_name ?m)" using apart by simp
  have key: "path_elems ?a \<noteq> path_elems target" using apart by (simp add: names_apart_def beside_def)
  have static: "static (staged cr q target marker current)"
    using static_target(1) [of cr target marker current] by (simp add: static_def staged_def static_simps)
  have save: "triple (staged cr q target marker current) (save_marker ?m)
      (\<lambda>r h. case r of Inr _ \<Rightarrow> ?ready h | Inl _ \<Rightarrow> staged cr q target marker current h \<or> ?ready h \<and> w_dead h)"
    unfolding save_marker_def by (rule act_rule [OF static static_stage(1)]) (auto intro: staged_ready)
  have "triple (\<lambda>h. staged cr q target marker current h \<or> ?ready h \<and> w_dead h) (abandon (dir_name target) ?a e) ?Q" for e
  proof (rule tripleI)
    fix h t and x :: "swap_err + bool"
    assume pre: "staged cr q target marker current h \<or> ?ready h \<and> w_dead h" and run: "run_state (abandon (dir_name target) ?a e) h = (x, t)"
    have err: "x = Inl e" and t: "t = snd (run_state (safeRemoveSwapPath (dir_name target) ?a ''.askio-apply-'') h)"
      using run by (auto simp: abandon_def split: prod.splits)
    from pre have "swap_inv cr target t"
    proof
      assume "staged cr q target marker current h"
      then have "target_is cr target marker current t"
        using keepsD [OF keeps_remove [OF static_target(1) blind_target [OF key]]] t by (simp add: staged_def)
      then show ?thesis by (rule target_is_inv)
    next
      assume "?ready h \<and> w_dead h"
      then show ?thesis using t stages_inv(1) [OF apart'] by (simp add: dead_remove)
    qed
    with err show "?Q x t" by (simp add: outcome_def)
  qed
  moreover have "triple ?ready (swap_trees (dir_name target) target ?a (path_join (dir_name target) (''.askio-backup-'' @ swap_token cr q)) (current \<noteq> None) ?m) ?Q"
    if "current \<noteq> None \<longleftrightarrow> active_of marker current \<noteq> []"
    using swap_trees_safe [OF apart', of "current \<noteq> None" cr] that by simp
  ultimately have main: "triple (staged cr q target marker current)
      (do { saved \<leftarrow> save_marker ?m;
          case saved of Inl e \<Rightarrow> abandon (dir_name target) ?a e
          | Inr _ \<Rightarrow> swap_trees (dir_name target) target ?a (path_join (dir_name target) (''.askio-backup-'' @ swap_token cr q)) (current \<noteq> None) ?m }) ?Q"
    if "current \<noteq> None \<longleftrightarrow> active_of marker current \<noteq> []"
    using that by (intro triple_bind [OF save] triple_case_sum) (hypsubst, simp only: sum.case)+
  show ?thesis
  proof (rule tripleI)
    fix h x t
    assume "staged cr q target marker current h"
    then show "?Q x t" if "run_state (do { saved \<leftarrow> save_marker ?m;
          case saved of Inl e \<Rightarrow> abandon (dir_name target) ?a e
          | Inr _ \<Rightarrow> swap_trees (dir_name target) target ?a (path_join (dir_name target) (''.askio-backup-'' @ swap_token cr q)) (current \<noteq> None) ?m }) h = (x, t)"
      using tripleD [OF main _ that] active_of_present [of cr target marker current h] unfolding staged_def by blast
  qed
qed

lemma replace_target_safe:
  assumes apart: "names_apart target (''.askio-apply-'' @ swap_token cr q) (''.askio-backup-'' @ swap_token cr q)"
  shows "triple (target_is cr target marker current) (replace_target cr q target marker current)
    (outcome cr target (\<lambda>b h. \<not> b \<and> has_tree cr (path_elems target) (ms_digest (ar_summary q)) h))"
proof -
  let ?a = "path_join (dir_name target) (''.askio-apply-'' @ swap_token cr q)" and ?b = "path_join (dir_name target) (''.askio-backup-'' @ swap_token cr q)"
  let ?T = "target_is cr target marker current"
  let ?P = "\<lambda>h. ?T h \<and> gone (path_elems ?b) h"
  have keys: "path_elems ?a \<noteq> path_elems target" "path_elems ?a \<noteq> path_elems ?b" using apart by (simp_all add: names_apart_def beside_def)
  note inv = target_is_inv [of cr target marker current]
  have static: "static ?P" using static_target(1) [of cr target marker current] by (simp add: static_def static_simps)
  have blind: "blind (path_elems ?a) ?P" using keys by (intro blind_conj blind_target blind_node) auto
  let ?Q = "outcome cr target (\<lambda>b h. \<not> b \<and> has_tree cr (path_elems target) (ms_digest (ar_summary q)) h)"
  let ?k = "do { h \<leftarrow> get_state;
         saved \<leftarrow> save_marker (swap_marker cr q (active_of marker current) (w_now h));
         case saved of
           Inl e \<Rightarrow> abandon (dir_name target) ?a e
         | Inr _ \<Rightarrow> swap_trees (dir_name target) target ?a ?b (current \<noteq> None) (swap_marker cr q (active_of marker current) (w_now h)) }"
  have "triple (staged cr q target marker current) ?k ?Q"
    by (rule triple_any_state) (rule save_swap_marker [OF apart])
  then have copied: "triple (\<lambda>h. ?P h \<and> has_tree cr (path_elems ?a) (ms_digest (ar_summary q)) h) ?k ?Q"
    by (rule triple_conseq) (simp_all add: staged_def beside_def)
  have "triple ?P (tryE (stage_copy cr q (dir_name target) ?a) (\<lambda>_. ?k)) ?Q"
    by (rule triple_tryE [OF stage_copy_safe [OF static blind]]) (use copied in \<open>simp_all add: outcome_def inv\<close>)
  then have "triple ?T (tryE (require_absent ?b BackupCollision) (\<lambda>_. tryE (stage_copy cr q (dir_name target) ?a) (\<lambda>_. ?k))) ?Q"
    by (intro triple_tryE [OF require_absent_rule [OF static_target(1)]]) (simp_all add: outcome_def inv)
  then have "triple ?T (tryE (require_absent ?a ApplyCollision) (\<lambda>_. tryE (require_absent ?b BackupCollision) (\<lambda>_. tryE (stage_copy cr q (dir_name target) ?a) (\<lambda>_. ?k)))) ?Q"
    by (intro triple_tryE [OF require_absent_rule [OF static_target(1)]]) (auto simp: outcome_def inv elim: triple_conseq)
  then show ?thesis
    unfolding replace_target_def Let_def active_of_def [symmetric] by (rule triple_guardE) (simp add: outcome_def inv)
qed

lemma apply_safe:
  assumes "Resolve lstat resolver (ar_handle q) (ar_relative q) True = Inr target" and "wf_resolver resolver" and "hex_digests cr"
  shows "triple (swap_inv cr target) (applyFileTree cr lstat resolver q)
    (outcome cr target (\<lambda>_ h. has_tree cr (path_elems target) (ms_digest (ar_summary q)) h))"
proof -
  let ?Q = "outcome cr target (\<lambda>_ :: bool. has_tree cr (path_elems target) (ms_digest (ar_summary q)))"
  have "list_all is_lower_hex (swap_token cr q)"
    using assms(3) by (auto simp: swap_token_def hex_digests_def list_all_iff dest: in_set_takeD)
  then have tok: "slash \<notin> set (swap_token cr q)" by (auto simp: list_all_iff is_lower_hex_def is_digit_def slash_def)
  have replace: "triple (\<lambda>h. swap_inv cr target h \<and> target_is cr target marker current h) (replace_target cr q target marker current) ?Q"
    if "fileNamePattern (base_name target)" for marker current
  proof -
    from Resolve_InrE [OF assms(1,2)] have "is_abs target" "clean target = target" by blast+
    then show ?thesis
      by (intro triple_conseq [OF replace_target_safe [OF swap_names_apart [OF _ _ that tok]]]) (auto simp: outcome_def split: sum.splits)
  qed
  have chosen: "triple (outcome cr target (\<lambda>p h. target_is cr target marker (map_option fst p) h
       \<and> (case p of Some (d, True) \<Rightarrow> d = ms_digest (ar_summary q) | _ \<Rightarrow> True)) (Inr p))
     (case p of Some (_, True) \<Rightarrow> okE True | Some (d, False) \<Rightarrow> replace_target cr q target marker (Some d) | None \<Rightarrow> replace_target cr q target marker None) ?Q"
    if "fileNamePattern (base_name target)" for marker p
  proof -
    have pick: "triple (outcome cr target (\<lambda>p h. target_is cr target marker (map_option fst p) h
       \<and> (case p of Some (d, True) \<Rightarrow> d = ms_digest (ar_summary q) | _ \<Rightarrow> True)) (Inr p)) (replace_target cr q target marker (map_option fst p)) ?Q"
      by (rule triple_conseq [OF replace [OF that]]) (simp_all add: outcome_def)
    consider "p = None" | d where "p = Some (d, True)" | d where "p = Some (d, False)" by (metis option.exhaust surj_pair)
    then show ?thesis
    proof cases
      case 2
      then show ?thesis by (auto simp: outcome_def target_is_def intro!: triple_okE)
    qed (use pick in simp_all)
  qed
  have inspect: "triple (outcome cr target marker_is (Inr marker)) (inspect_target cr q target marker)
     (outcome cr target (\<lambda>p h. target_is cr target marker (map_option fst p) h \<and> (case p of Some (d, True) \<Rightarrow> d = ms_digest (ar_summary q) | _ \<Rightarrow> True)))" for marker
    using inspect_target_safe by (rule triple_conseq) (simp_all add: outcome_def)
  show ?thesis
    unfolding applyFileTree_def
    by (simp only: assms(1) sum.case, rule triple_guardE, rule triple_tryE [OF load_marker_safe], simp add: outcome_def,
        rule triple_tryE [OF inspect], simp add: outcome_def, rule chosen) (simp_all add: outcome_def)
qed

lemma resolve_same:
  "Resolve lstat s handle relative a = Inr t \<Longrightarrow> Resolve lstat' s handle relative b = Inr t' \<Longrightarrow> t = t'"
  by (auto simp: Resolve_def Let_def split: option.splits sum.splits if_splits)

section \<open>Attempts on a host that crashes\<close>

text \<open>One attempt: a process, started afresh at some instant on what the last one left, applies some tree to the same target; the script decides which of its
  calls fail and where it dies.\<close>

inductive swap_step :: "crypto \<Rightarrow> ScopeResolver \<Rightarrow> string \<Rightarrow> string \<Rightarrow> swap_host \<Rightarrow> swap_host \<Rightarrow> bool" for cr resolver handle relative where
  attempt: "ar_handle q = handle \<Longrightarrow> ar_relative q = relative \<Longrightarrow>
    swap_step cr resolver handle relative h
      (snd (run_state (applyFileTree cr lstat resolver q) (h\<lparr>w_now := now, w_env := script, w_dead := False\<rparr>)))"

definition swap_site :: "crypto \<Rightarrow> ScopeResolver \<Rightarrow> string \<Rightarrow> string \<Rightarrow> string \<Rightarrow> bool" where
  "swap_site cr resolver handle relative target \<longleftrightarrow> hex_digests cr \<and> wf_resolver resolver
     \<and> (\<exists>lstat. Resolve lstat resolver handle relative True = Inr target)"

lemma swap_inv_now: "swap_inv cr target (h\<lparr>w_now := now, w_env := script, w_dead := d\<rparr>) = swap_inv cr target h"
  by (simp add: swap_inv_def marker_inv_def mid_swap_def has_tree_def gone_def split: marker_file.split)

lemma attempt_outcome:
  assumes "swap_site cr resolver handle relative target" and "swap_inv cr target h" and "ar_handle q = handle" and "ar_relative q = relative"
    and "run_state (applyFileTree cr lstat resolver q) (h\<lparr>w_now := now, w_env := script, w_dead := False\<rparr>) = (r, h')"
  shows "outcome cr target (\<lambda>_ h. has_tree cr (path_elems target) (ms_digest (ar_summary q)) h) r h'"
proof (cases "Resolve lstat resolver (ar_handle q) (ar_relative q) True")
  case (Inl e)
  with assms(2,5) show ?thesis by (auto simp: applyFileTree_def outcome_def swap_inv_now)
next
  case (Inr t)
  with assms(1,3,4) have t: "t = target" and env: "wf_resolver resolver" "hex_digests cr" by (auto simp: swap_site_def dest: resolve_same)
  show ?thesis by (rule tripleD [OF apply_safe [OF Inr [unfolded t] env] _ assms(5)]) (simp add: swap_inv_now assms(2))
qed

interpretation swap: machine "\<lambda>h. w_marker h = NoMarker" "swap_step cr resolver handle relative"
  "\<lambda>h. swap_site cr resolver handle relative target \<longrightarrow> swap_inv cr target h" for cr resolver handle relative target
proof
  fix h
  show "swap_site cr resolver handle relative target \<longrightarrow> swap_inv cr target h" if "w_marker h = NoMarker" using that by (simp add: swap_inv_def)
next
  fix h h'
  assume "swap_site cr resolver handle relative target \<longrightarrow> swap_inv cr target h" and "swap_step cr resolver handle relative h h'"
  from this(2,1) show "swap_site cr resolver handle relative target \<longrightarrow> swap_inv cr target h'"
    by cases (auto simp: outcome_def dest: attempt_outcome [OF _ _ _ _ surjective_pairing])
qed

text \<open>
  \<^bold>\<open>C3\<close>. Start with no marker and let processes apply trees to the target one after the other, each of whose calls may fail and each of
  which may die at any call. Whenever a marker exists, the tree it records is complete: at rest the target holds the active tree; during a
  swap the target holds the new tree or the old one, or is missing while the new tree is complete beside it and so is the backup of the old one.
  An attempt that reports success has left the tree of its own manifest at the target.
\<close>

theorem apply_crash_safe:
  assumes "swap_site cr resolver handle relative target" and "w_marker h0 = NoMarker" and "(swap_step cr resolver handle relative)\<^sup>*\<^sup>* h0 h"
  shows "(\<forall>m. w_marker h = Marker m \<longrightarrow>
        (if sm_state m = ''swapping'' then mid_swap cr target m h else has_tree cr (path_elems target) (sm_active_digest m) h))
    \<and> (\<forall>lstat q now script already h'. ar_handle q = handle \<and> ar_relative q = relative
        \<and> run_state (applyFileTree cr lstat resolver q) (h\<lparr>w_now := now, w_env := script, w_dead := False\<rparr>) = (Inr already, h')
        \<longrightarrow> has_tree cr (path_elems target) (ms_digest (ar_summary q)) h')"
proof -
  have inv: "swap_inv cr target h" using swap.inv_reachable [OF assms(2,3)] assms(1) by blast
  have "if sm_state m = ''swapping'' then mid_swap cr target m h else has_tree cr (path_elems target) (sm_active_digest m) h"
    if "w_marker h = Marker m" for m using inv that by (simp add: swap_inv_def marker_inv_def split: if_splits)
  moreover have "has_tree cr (path_elems target) (ms_digest (ar_summary q)) h'"
    if "ar_handle q = handle" "ar_relative q = relative"
      "run_state (applyFileTree cr lstat resolver q) (h\<lparr>w_now := now, w_env := script, w_dead := False\<rparr>) = (Inr already, h')"
    for lstat q now script already h'
    using attempt_outcome [OF assms(1) inv that] by (simp add: outcome_def)
  ultimately show ?thesis by blast
qed

end
