(* ===== verification/Swap_Liveness.thy ===== *)
theory Swap_Liveness
  imports Swap_Apply
begin

text \<open>
  The recovery of a swap ends, and on a host without faults it ends with the target in place. A copy that an attempt left behind when it died
  is the one thing that no later attempt removes.
\<close>

section \<open>Depth of the recovery\<close>

lemma run_lstat:
  obtains r h1 where "run_state (lstat_at p) h = (r, h1)" and "w_nodes h1 = w_nodes h" and "r = Inr (map_of (w_nodes h) (path_elems p)) \<or> (\<exists>e. r = Inl e)"
proof -
  obtain r h1 where run: "run_state (lstat_at p) h = (r, h1)" by (cases "run_state (lstat_at p) h")
  have "w_nodes h1 = w_nodes h \<and> (r = Inr (map_of (w_nodes h) (path_elems p)) \<or> (\<exists>e. r = Inl e))"
    using run by (auto simp: lstat_at_def act_or_def Let_def split: if_splits swap_outcome.splits)
  with run that show ?thesis by blast
qed

lemma rename_makes:
  assumes "run_state (rename_dir a b) h = (Inr u, h1)" and "map_of (w_nodes h) (path_elems a) = Some n"
  shows "map_of (w_nodes h1) (path_elems b) = Some n"
  using assms by (auto simp: rename_dir_def act_or_def Let_def split: if_splits swap_outcome.splits option.splits)

lemma present_once:
  assumes "map_of (w_nodes h) (path_elems target) = Some (TDir t)"
  shows "run_state (recoverFileSwap (Suc n) cr target parent m) h = run_state (recoverFileSwap 1 cr target parent m) h"
proof -
  obtain r h1 where "run_state (lstat_at target) h = (r, h1)" "r = Inr (Some (TDir t)) \<or> (\<exists>e. r = Inl e)"
    using run_lstat [of target h] assms by metis
  then show ?thesis by (auto simp: Let_def)
qed

lemma recovery_depth:
  "run_state (recoverFileSwap (Suc (Suc n)) cr target parent m) h = run_state (recoverFileSwap 2 cr target parent m) h"
proof -
  let ?a = "path_join parent (sm_apply_name m)"
  obtain r h1 where r: "run_state (lstat_at target) h = (r, h1)" by (cases "run_state (lstat_at target) h")
  obtain a h2 where a: "run_state (lstat_at ?a) h1 = (a, h2)" "w_nodes h2 = w_nodes h1" "a = Inr (map_of (w_nodes h1) (path_elems ?a)) \<or> (\<exists>e. a = Inl e)"
    by (rule run_lstat)
  have again: "run_state (recoverFileSwap (Suc n) cr target parent m) h3 = run_state (recoverFileSwap 1 cr target parent m) h3"
    if "run_state (rename_dir ?a target) h2 = (Inr u, h3)" "a = Inr (Some (TDir t))" for u h3 t
    by (rule present_once [of _ _ t]) (rule rename_makes [OF that(1)], use a(2,3) that(2) in auto)
  obtain p h3 where p: "run_state (rename_dir ?a target) h2 = (p, h3)" by (cases "run_state (rename_dir ?a target) h2")
  show ?thesis
    using r a(1) p again unfolding numeral_2_eq_2
    by (subst (1 2) recoverFileSwap.simps)
      (cases p; auto simp: Let_def split: sum.splits option.splits tnode.splits simp del: recoverFileSwap.simps)
qed

definition out_of_fuel :: "swap_err + 'a \<Rightarrow> bool" where
  "out_of_fuel r \<longleftrightarrow> r = Inl RecoveryFuel"

lemma never_try:
  "triple P m (\<lambda>r _. \<not> out_of_fuel r) \<Longrightarrow> (\<And>x. triple (\<lambda>_. True) (k x) (\<lambda>r _. \<not> out_of_fuel r)) \<Longrightarrow> triple P (tryE m k) (\<lambda>r _. \<not> out_of_fuel r)"
  by (rule triple_tryE [where R = "\<lambda>r _. \<not> out_of_fuel r"]) (auto simp: out_of_fuel_def)

lemma never_bind:
  "(\<And>x. triple (\<lambda>_. True) (k x) (\<lambda>r _. \<not> out_of_fuel r)) \<Longrightarrow> triple P (State_Monad.bind m k) (\<lambda>r _. \<not> out_of_fuel r)"
  by (rule triple_bind [where R = "\<lambda>_ _. True"]) (auto simp: triple_def)

lemma never_act: "triple P (act_or part eff) (\<lambda>r _. \<not> out_of_fuel r)"
  by (rule tripleI) (auto simp: act_or_def out_of_fuel_def Let_def split: if_splits swap_outcome.splits option.splits)

lemma never_simple: "triple P (okE x) (\<lambda>r _. \<not> out_of_fuel r)" "e \<noteq> RecoveryFuel \<Longrightarrow> triple P (errE e) (\<lambda>r _. \<not> out_of_fuel r)"
  by (auto simp: out_of_fuel_def intro: triple_okE triple_errE)

lemmas never_rules = never_try never_bind never_act never_simple triple_if triple_case_sum triple_guardE

lemma never_remove: "triple P (safeRemoveSwapPath parent path stem) (\<lambda>r _. \<not> out_of_fuel r)"
  unfolding safeRemoveSwapPath_def remove_all_def
  by (auto simp: out_of_fuel_def intro!: never_rules [unfolded out_of_fuel_def] split: sum.split option.split tnode.split)

lemma never_settle: "triple P (settle m) (\<lambda>r _. \<not> out_of_fuel r)"
  unfolding settle_def save_marker_def by (intro never_rules)

lemma never_present: "triple P (recover_present cr target parent m) (\<lambda>r _. \<not> out_of_fuel r)"
  unfolding recover_present_def Let_def
  by (intro never_rules never_remove never_settle; simp)

lemma present_never:
  assumes "map_of (w_nodes h) (path_elems target) = Some (TDir t)"
  shows "\<not> out_of_fuel (fst (run_state (recoverFileSwap (Suc n) cr target parent m) h))"
proof -
  obtain r h1 where r: "run_state (lstat_at target) h = (r, h1)" "r = Inr (Some (TDir t)) \<or> (\<exists>e. r = Inl e)"
    using run_lstat [of target h] assms by metis
  moreover have "\<not> out_of_fuel (fst (run_state (recover_present cr target parent m) h1))"
    using tripleD [OF never_present [of "\<lambda>_. True"], OF TrueI surjective_pairing] .
  ultimately show ?thesis by (auto simp: Let_def out_of_fuel_def)
qed

lemma recovery_fuel_enough: "\<not> out_of_fuel (fst (run_state (recoverFileSwap 2 cr target parent m) h))"
proof -
  let ?a = "path_join parent (sm_apply_name m)" and ?b = "path_join parent (sm_backup_name m)"
  obtain r h1 where r: "run_state (lstat_at target) h = (r, h1)" by (cases "run_state (lstat_at target) h")
  obtain a h2 where a: "run_state (lstat_at ?a) h1 = (a, h2)" "w_nodes h2 = w_nodes h1" "a = Inr (map_of (w_nodes h1) (path_elems ?a)) \<or> (\<exists>e. a = Inl e)"
    by (rule run_lstat)
  obtain p h3 where p: "run_state (rename_dir ?a target) h2 = (p, h3)" by (cases "run_state (rename_dir ?a target) h2")
  have again: "\<not> out_of_fuel (fst (run_state (recoverFileSwap 1 cr target parent m) h3))" if "p = Inr u" "a = Inr (Some (TDir t))" for u t
    unfolding One_nat_def by (rule present_never [of _ _ t], rule rename_makes [OF p [unfolded that(1)]]) (use a(2,3) that(2) in auto)
  have here: "\<not> out_of_fuel (fst (run_state (recover_present cr target parent m) h1))"
    using tripleD [OF never_present [of "\<lambda>_. True"], OF TrueI surjective_pairing] .
  have failed: "\<not> out_of_fuel p" using tripleD [OF never_act [of "\<lambda>_. True"] TrueI p [unfolded rename_dir_def]] .
  have "triple (\<lambda>_. True) (do { b \<leftarrow> lstat_at ?b;
      case b of Inr (Some (TDir _)) \<Rightarrow> tryE (rename_dir ?b target) (\<lambda>_. settle (settled m)) | _ \<Rightarrow> errE NothingToRecover }) (\<lambda>r _. \<not> out_of_fuel r)"
    unfolding rename_dir_def
    by (rule never_bind) (auto intro!: never_rules never_settle split: sum.split option.split tnode.split)
  from tripleD [OF this TrueI surjective_pairing]
  have restore: "\<not> out_of_fuel (fst (run_state (do { b \<leftarrow> lstat_at ?b;
      case b of Inr (Some (TDir _)) \<Rightarrow> tryE (rename_dir ?b target) (\<lambda>_. settle (settled m)) | _ \<Rightarrow> errE NothingToRecover }) h2))" .
  show ?thesis
    using r a(1) p again here failed restore unfolding numeral_2_eq_2 recoverFileSwap.simps(2) [of "Suc 0"]
    by (cases p; auto simp: Let_def out_of_fuel_def split: sum.splits option.splits tnode.splits simp del: recoverFileSwap.simps)
qed

text \<open>
  \<^bold>\<open>C36\<close>. The recovery terminates: the recursive call comes only after a rename that made the target a directory, so it makes no
  recursive call itself. With the fuel the caller gives, two, the recovery never runs out of fuel, and more fuel changes nothing.
\<close>

theorem recovery_terminates:
  "fst (run_state (recoverFileSwap recoveryFuel cr target parent m) h) \<noteq> Inl RecoveryFuel
   \<and> run_state (recoverFileSwap (recoveryFuel + n) cr target parent m) h = run_state (recoverFileSwap recoveryFuel cr target parent m) h"
  using recovery_fuel_enough [of cr target parent m h] recovery_depth [of n cr target parent m h]
  by (simp add: recoveryFuel_def out_of_fuel_def numeral_2_eq_2 del: recoverFileSwap.simps)

section \<open>A host without faults\<close>

definition calm :: "swap_host \<Rightarrow> bool" where
  "calm h \<longleftrightarrow> w_env h = [] \<and> \<not> w_dead h"

lemma calm_act: "calm h \<Longrightarrow> run_state (act_or part eff) h = (case eff h of None \<Rightarrow> (Inl SwapCall, h) | Some g \<Rightarrow> (Inr (), g))"
  by (cases h) (auto simp: act_or_def calm_def split: option.split)

lemma calm_lstat: "calm h \<Longrightarrow> run_state (lstat_at p) h = (Inr (map_of (w_nodes h) (path_elems p)), h)"
  by (simp add: lstat_at_def calm_act)

lemma calm_list: "calm h \<Longrightarrow> has_tree cr (path_elems p) d h \<Longrightarrow> \<exists>s. run_state (list_tree cr p) h = (Inr s, h) \<and> ms_digest s = d"
  by (auto simp: list_tree_def calm_act has_tree_def)

text \<open>The state as the recovery sees it: the nodes as a map.\<close>

definition swap_view :: "(string list \<rightharpoonup> tnode) \<Rightarrow> marker_file \<Rightarrow> swap_host \<Rightarrow> bool" where
  "swap_view nodes marker h \<longleftrightarrow> calm h \<and> map_of (w_nodes h) = nodes \<and> w_marker h = marker"

lemma calm_remove:
  assumes "swap_view nodes marker h" and "dir_name path = parent" and "has_prefix (base_name path) stem" and "nodes (path_elems path) \<noteq> Some TOther"
  shows "\<exists>g. run_state (safeRemoveSwapPath parent path stem) h = (Inr (), g) \<and> swap_view (nodes(path_elems path := None)) marker g"
proof -
  have calm: "calm h" using assms(1) by (simp add: swap_view_def)
  show ?thesis
  proof (cases "nodes (path_elems path)")
    case None
    with assms show ?thesis by (auto simp: safeRemoveSwapPath_def calm_lstat [OF calm] swap_view_def fun_upd_idem)
  next
    case (Some n)
    with assms obtain t where "nodes (path_elems path) = Some (TDir t)" by (cases n) auto
    with assms show ?thesis by (auto simp: safeRemoveSwapPath_def calm_lstat [OF calm] remove_all_def calm_act [OF calm] swap_view_def calm_def)
  qed
qed

lemma calm_rename:
  assumes "swap_view nodes marker h" and "nodes (path_elems a) = Some n" and "nodes (path_elems b) = None"
  shows "\<exists>g. run_state (rename_dir a b) h = (Inr (), g) \<and> swap_view (nodes(path_elems a := None, path_elems b := Some n)) marker g"
  using assms by (auto simp: rename_dir_def swap_view_def calm_act) (auto simp: calm_def)

lemma calm_settle:
  assumes "swap_view nodes marker h"
  shows "\<exists>g. run_state (settle m) h = (Inr m, g) \<and> swap_view nodes (Marker m) g"
  using assms by (auto simp: settle_def save_marker_def swap_view_def calm_act calm_def)

definition tree_here :: "crypto \<Rightarrow> string list \<Rightarrow> string \<Rightarrow> (string list \<rightharpoonup> tnode) \<Rightarrow> bool" where
  "tree_here cr k d nodes \<longleftrightarrow> (\<exists>t s. nodes k = Some (TDir t) \<and> buildFileManifest cr (\<lambda>_. True) (Some t) = Inr s \<and> ms_digest s = d)"

lemma has_tree_view: "swap_view nodes marker h \<Longrightarrow> has_tree cr k d h = tree_here cr k d nodes"
  by (auto simp: swap_view_def has_tree_def tree_here_def)

lemma beside_path:
  assumes "is_abs target" and "clean target = target" and "fileNamePattern (base_name target)" and "plain_elem name"
  shows "dir_name (path_join (dir_name target) name) = dir_name target" and "base_name (path_join (dir_name target) name) = name"
proof -
  from assms(1-3) obtain ps x where t: "dir_name target = render_path True ps" "\<forall>e \<in> set ps. plain_elem e" by (rule target_leaf)
  have c: "clean_list True ps" using t(2) by (intro clean_listI [where n = 0 and qs = ps]) simp_all
  have abs: "is_abs (render_path True ps)" using is_abs_render [OF c] by simp
  note n = plain_path [OF assms(4)]
  have plain: "\<forall>e \<in> set (path_elems name). plain_elem e" using n assms(4) by simp
  note j = path_join_elems [OF abs n(3,4) plain n(2) [symmetric]]
  have "path_join (render_path True ps) name = render_path True (ps @ [name])"
    using abs_rendered(1) [OF j(2,3)] j(1) path_elems_render [OF c] n(1) by simp
  then show "dir_name (path_join (dir_name target) name) = dir_name target" "base_name (path_join (dir_name target) name) = name"
    using dir_abs [of ps name] base_abs [of ps name] t assms(4) by simp_all
qed

definition swap_names :: "string \<Rightarrow> fileSyncMarker \<Rightarrow> string \<Rightarrow> bool" where
  "swap_names target m token \<longleftrightarrow> is_abs target \<and> clean target = target \<and> fileNamePattern (base_name target) \<and> slash \<notin> set token
     \<and> sm_apply_name m = ''.askio-apply-'' @ token \<and> sm_backup_name m = ''.askio-backup-'' @ token"

lemma swap_names_paths:
  assumes "swap_names target m token"
  shows "dir_name (path_join (dir_name target) (sm_apply_name m)) = dir_name target" "has_prefix (base_name (path_join (dir_name target) (sm_apply_name m))) ''.askio-apply-''"
    "dir_name (path_join (dir_name target) (sm_backup_name m)) = dir_name target" "has_prefix (base_name (path_join (dir_name target) (sm_backup_name m))) ''.askio-backup-''"
    "names_apart target (sm_apply_name m) (sm_backup_name m)"
proof -
  have t: "is_abs target" "clean target = target" "fileNamePattern (base_name target)" and tok: "slash \<notin> set token"
    and n: "sm_apply_name m = ''.askio-apply-'' @ token" "sm_backup_name m = ''.askio-backup-'' @ token"
    using assms by (simp_all add: swap_names_def)
  have plain: "plain_elem (''.askio-apply-'' @ token)" "plain_elem (''.askio-backup-'' @ token)"
    using tok by (simp_all add: plain_elem_def path_consts)
  show "dir_name (path_join (dir_name target) (sm_apply_name m)) = dir_name target" "has_prefix (base_name (path_join (dir_name target) (sm_apply_name m))) ''.askio-apply-''"
    unfolding n(1) using beside_path [OF t plain(1)] by (simp_all add: has_prefix_def)
  show "dir_name (path_join (dir_name target) (sm_backup_name m)) = dir_name target" "has_prefix (base_name (path_join (dir_name target) (sm_backup_name m))) ''.askio-backup-''"
    unfolding n(2) using beside_path [OF t plain(2)] by (simp_all add: has_prefix_def)
  show "names_apart target (sm_apply_name m) (sm_backup_name m)" unfolding n by (rule swap_names_apart [OF t tok])
qed

text \<open>What the recovery reaches: the marker at rest, its tree at the target, nothing beside it.\<close>

definition recovered :: "crypto \<Rightarrow> string \<Rightarrow> fileSyncMarker \<Rightarrow> (string list \<rightharpoonup> tnode) \<Rightarrow> fileSyncMarker \<Rightarrow> swap_host \<Rightarrow> bool" where
  "recovered cr target m nodes m' g \<longleftrightarrow> sm_state m' = ''active'' \<and> sm_active_digest m' \<in> {sm_pending_digest m, sm_active_digest m}
     \<and> tree_here cr (path_elems target) (sm_active_digest m') nodes
     \<and> swap_view (nodes(beside target (sm_apply_name m) := None, beside target (sm_backup_name m) := None)) (Marker m') g"

lemma calm_present:
  assumes names: "swap_names target m token" and view: "swap_view nodes (Marker m) h"
    and tree: "tree_here cr (path_elems target) d nodes" and d: "d = sm_pending_digest m \<or> sm_active_digest m \<noteq> [] \<and> d = sm_active_digest m"
    and dirs: "nodes (beside target (sm_apply_name m)) \<noteq> Some TOther" "nodes (beside target (sm_backup_name m)) \<noteq> Some TOther"
  shows "\<exists>m' g. run_state (recover_present cr target (dir_name target) m) h = (Inr m', g) \<and> recovered cr target m nodes m' g"
proof -
  let ?a = "path_join (dir_name target) (sm_apply_name m)" and ?b = "path_join (dir_name target) (sm_backup_name m)"
  note p = swap_names_paths [OF names]
  have keys: "beside target (sm_apply_name m) = path_elems ?a" "beside target (sm_backup_name m) = path_elems ?b" by (simp_all add: beside_def)
  have apart: "path_elems ?a \<noteq> path_elems ?b" using p(5) by (simp add: names_apart_def keys)
  obtain s where s: "run_state (list_tree cr target) h = (Inr s, h)" "ms_digest s = d"
    using calm_list [of h cr target d] view tree has_tree_view [OF view] by (auto simp: swap_view_def)
  show ?thesis
  proof (cases "d = sm_pending_digest m")
    case True
    obtain g1 where g1: "run_state (safeRemoveSwapPath (dir_name target) ?b ''.askio-backup-'') h = (Inr (), g1)" "swap_view (nodes(path_elems ?b := None)) (Marker m) g1"
      using calm_remove [OF view p(3,4)] dirs keys by auto
    obtain g2 where g2: "run_state (safeRemoveSwapPath (dir_name target) ?a ''.askio-apply-'') g1 = (Inr (), g2)"
      "swap_view (nodes(path_elems ?b := None, path_elems ?a := None)) (Marker m) g2"
      using calm_remove [OF g1(2) p(1,2)] dirs keys apart by auto
    let ?m = "(settled m)\<lparr>sm_active_digest := sm_pending_digest m, sm_updated_at := Stamp (w_now g2)\<rparr>"
    obtain g3 where g3: "run_state (settle ?m) g2 = (Inr ?m, g3)" "swap_view (nodes(path_elems ?b := None, path_elems ?a := None)) (Marker ?m) g3"
      using calm_settle [OF g2(2)] by blast
    have "run_state (recover_present cr target (dir_name target) m) h = (Inr ?m, g3)"
      using s True g1(1) g2(1) g3(1) by (simp add: recover_present_def Let_def)
    moreover have "recovered cr target m nodes ?m g3"
      using g3(2) tree True p(5) by (simp add: recovered_def keys fun_upd_twist [OF apart])
    ultimately show ?thesis by blast
  next
    case False
    then have act: "sm_active_digest m \<noteq> []" "d = sm_active_digest m" using d by auto
    obtain g1 where g1: "run_state (safeRemoveSwapPath (dir_name target) ?a ''.askio-apply-'') h = (Inr (), g1)" "swap_view (nodes(path_elems ?a := None)) (Marker m) g1"
      using calm_remove [OF view p(1,2)] dirs keys by auto
    obtain g2 where g2: "run_state (safeRemoveSwapPath (dir_name target) ?b ''.askio-backup-'') g1 = (Inr (), g2)"
      "swap_view (nodes(path_elems ?a := None, path_elems ?b := None)) (Marker m) g2"
      using calm_remove [OF g1(2) p(3,4)] dirs keys apart by auto
    obtain g3 where g3: "run_state (settle (settled m)) g2 = (Inr (settled m), g3)" "swap_view (nodes(path_elems ?a := None, path_elems ?b := None)) (Marker (settled m)) g3"
      using calm_settle [OF g2(2)] by blast
    have "run_state (recover_present cr target (dir_name target) m) h = (Inr (settled m), g3)"
      using s False act g1(1) g2(1) g3(1) by (simp add: recover_present_def Let_def)
    moreover have "recovered cr target m nodes (settled m) g3" using g3(2) tree act by (simp add: recovered_def keys)
    ultimately show ?thesis by blast
  qed
qed

text \<open>
  \<^bold>\<open>C35\<close>. Wherever a process died during a swap, the recovery succeeds on a host without faults: from every state of the invariant with a marker
  of a swap, as \<open>applyFileTree\<close> writes it, and no foreign file under the two temporary names, it ends with the new tree or the old tree complete at
  the target, recorded as active in the marker, and with neither temporary directory left.
\<close>

theorem swap_recovers:
  assumes "swap_names target m token" and "sm_state m = ''swapping''" and "w_marker h = Marker m" and "mid_swap cr target m h"
    and "w_env h = []" and "\<not> w_dead h"
    and "map_of (w_nodes h) (beside target (sm_apply_name m)) \<noteq> Some TOther" and "map_of (w_nodes h) (beside target (sm_backup_name m)) \<noteq> Some TOther"
  shows "\<exists>m' g. run_state (recoverFileSwap recoveryFuel cr target (dir_name target) m) h = (Inr m', g) \<and> w_marker g = Marker m'
     \<and> sm_state m' = ''active'' \<and> sm_active_digest m' \<in> {sm_pending_digest m, sm_active_digest m}
     \<and> has_tree cr (path_elems target) (sm_active_digest m') g
     \<and> gone (beside target (sm_apply_name m)) g \<and> gone (beside target (sm_backup_name m)) g"
proof -
  let ?a = "path_join (dir_name target) (sm_apply_name m)"
  let ?n = "map_of (w_nodes h)"
  have view: "swap_view ?n (Marker m) h" using assms by (simp add: swap_view_def calm_def)
  have keys: "path_elems ?a \<noteq> path_elems target" "beside target (sm_apply_name m) = path_elems ?a" "beside target (sm_backup_name m) \<noteq> path_elems target"
    "beside target (sm_backup_name m) \<noteq> path_elems ?a"
    using swap_names_paths(5) [OF assms(1)] by (auto simp: names_apart_def beside_def)
  have post: ?thesis if "run_state (recoverFileSwap recoveryFuel cr target (dir_name target) m) h = (Inr m', g)" "recovered cr target m nodes m' g" for m' g nodes
  proof -
    have v: "swap_view (nodes(beside target (sm_apply_name m) := None, beside target (sm_backup_name m) := None)) (Marker m') g"
      and rest: "sm_state m' = ''active''" "sm_active_digest m' \<in> {sm_pending_digest m, sm_active_digest m}"
      and "tree_here cr (path_elems target) (sm_active_digest m') nodes"
      using that(2) by (simp_all add: recovered_def)
    then have "has_tree cr (path_elems target) (sm_active_digest m') g"
      unfolding has_tree_view [OF v] using keys by (simp add: tree_here_def)
    then show ?thesis using v rest that(1) by (auto simp: swap_view_def gone_def)
  qed
  show ?thesis
  proof (cases "?n (path_elems target)")
    case None
    with assms(4) have "tree_here cr (path_elems ?a) (sm_pending_digest m) ?n"
      by (auto simp: mid_swap_def has_tree_view [OF view] tree_here_def gone_def keys(2))
    then obtain t where t: "?n (path_elems ?a) = Some (TDir t)" and ok: "\<exists>s. buildFileManifest cr (\<lambda>_. True) (Some t) = Inr s \<and> ms_digest s = sm_pending_digest m"
      by (auto simp: tree_here_def)
    let ?n' = "?n(path_elems ?a := None, path_elems target := Some (TDir t))"
    obtain g where g: "run_state (rename_dir ?a target) h = (Inr (), g)" "swap_view ?n' (Marker m) g"
      using calm_rename [OF view t None] by blast
    have tree: "tree_here cr (path_elems target) (sm_pending_digest m) ?n'" using ok by (auto simp: tree_here_def)
    have dirs: "?n' (beside target (sm_apply_name m)) \<noteq> Some TOther" "?n' (beside target (sm_backup_name m)) \<noteq> Some TOther" using keys assms(8) by simp_all
    obtain m' g' where r: "run_state (recover_present cr target (dir_name target) m) g = (Inr m', g')" "recovered cr target m ?n' m' g'"
      using calm_present [OF assms(1) g(2) tree disjI1 [OF refl] dirs] by blast
    have "run_state (recoverFileSwap recoveryFuel cr target (dir_name target) m) h = (Inr m', g')"
      using view g r(1) None t assms(2) by (simp add: recoveryFuel_def numeral_2_eq_2 Let_def calm_lstat swap_view_def)
    then show ?thesis using post r(2) by blast
  next
    case (Some n)
    with assms(4) obtain d where d: "tree_here cr (path_elems target) d ?n" "d = sm_pending_digest m \<or> sm_active_digest m \<noteq> [] \<and> d = sm_active_digest m"
      by (auto simp: mid_swap_def has_tree_view [OF view] gone_def)
    obtain m' g' where r: "run_state (recover_present cr target (dir_name target) m) h = (Inr m', g')" "recovered cr target m ?n m' g'"
      using calm_present [OF assms(1) view d assms(7,8)] by blast
    from d(1) obtain t where "?n (path_elems target) = Some (TDir t)" by (auto simp: tree_here_def)
    then have "run_state (recoverFileSwap recoveryFuel cr target (dir_name target) m) h = (Inr m', g')"
      using view r(1) assms(2) by (simp add: recoveryFuel_def numeral_2_eq_2 Let_def calm_lstat swap_view_def)
    then show ?thesis using post r(2) by blast
  qed
qed

section \<open>A copy left behind\<close>

text \<open>
  A copy that is found under the name of the apply directory, while no marker exists (an attempt that died while it copied leaves both
  so), blocks the target: no later attempt with the same manifest succeeds, whatever its calls do, and none removes the copy.
\<close>

theorem stale_copy_blocks:
  assumes "Resolve lstat resolver (ar_handle q) (ar_relative q) True = Inr target" and "w_marker h = NoMarker"
    and "map_of (w_nodes h) (beside target (''.askio-apply-'' @ swap_token cr q)) \<noteq> None"
    and "run_state (applyFileTree cr lstat resolver q) h = (r, h')"
  shows "is_err r \<and> w_nodes h' = w_nodes h \<and> w_marker h' = NoMarker"
proof -
  let ?P = "\<lambda>s. w_nodes s = w_nodes h \<and> w_marker s = NoMarker"
  let ?Q = "\<lambda>(r :: swap_err + bool) s. is_err r \<and> ?P s"
  have st: "static ?P" by (simp add: static_def)
  have collision: "triple ?P (require_absent (path_join (dir_name target) (''.askio-apply-'' @ swap_token cr q)) ApplyCollision) (\<lambda>r s. is_err r \<and> ?P s)"
    by (rule triple_conseq [OF require_absent_rule [OF st]]) (use assms(3) in \<open>auto simp: beside_def gone_def is_err_def split: sum.split\<close>)
  have replace: "triple ?P (replace_target cr q target marker current) ?Q" for marker current
    unfolding replace_target_def Let_def
    by (rule triple_guardE, rule triple_tryE [OF collision]) (auto simp: triple_def)
  have load: "triple ?P (load_marker cr q target) (\<lambda>r s. ?P s \<and> (\<forall>m. r = Inr m \<longrightarrow> m = None))"
    unfolding load_marker_def
    by (rule triple_bind [OF look_rule [OF st, unfolded keeps_def]]) (simp add: triple_def)
  have listed: "triple ?P (tryE (list_tree cr target) (\<lambda>current. guardE (fm_entries (ms_manifest current) = []) TargetNotEmpty (okE (Some (ms_digest current, False)))))
      (\<lambda>r s. ?P s \<and> (\<forall>d b. r = Inr (Some (d, b)) \<longrightarrow> \<not> b))"
    by (rule triple_tryE [OF list_result [OF st]]) (auto intro!: triple_guardE triple_okE)
  have inspect: "triple ?P (inspect_target cr q target None) (\<lambda>r s. ?P s \<and> (\<forall>d b. r = Inr (Some (d, b)) \<longrightarrow> \<not> b))"
    unfolding inspect_target_def option.case
    by (rule triple_bind [OF keeps_lstat [OF st, unfolded keeps_def]])
      (use listed in \<open>auto intro!: triple_errE triple_okE split: sum.split option.split tnode.split\<close>)
  have chosen: "triple (\<lambda>s. ?P s \<and> (\<forall>d b. Inr p = Inr (Some (d, b)) \<longrightarrow> \<not> b))
      (case p of Some (_, True) \<Rightarrow> okE True | Some (d, False) \<Rightarrow> replace_target cr q target None (Some d) | None \<Rightarrow> replace_target cr q target None None) ?Q" for p
    using replace by (auto simp: triple_def split: option.split bool.split)
  have rest: "triple ?P (tryE (inspect_target cr q target None) (\<lambda>present. case present of
      Some (_, True) \<Rightarrow> okE True | Some (d, False) \<Rightarrow> replace_target cr q target None (Some d) | None \<Rightarrow> replace_target cr q target None None)) ?Q"
    by (rule triple_tryE [OF inspect]) (simp, rule chosen)
  have "triple ?P (applyFileTree cr lstat resolver q) ?Q"
    unfolding applyFileTree_def sum.case assms(1)
  proof (rule triple_guardE, rule triple_tryE [OF load], simp)
    fix x :: "fileSyncMarker option"
    show "triple (\<lambda>s. ?P s \<and> (\<forall>m. Inr x = Inr m \<longrightarrow> m = None)) (tryE (inspect_target cr q target x) (\<lambda>present. case present of
      Some (_, True) \<Rightarrow> okE True | Some (d, False) \<Rightarrow> replace_target cr q target x (Some d) | None \<Rightarrow> replace_target cr q target x None)) ?Q"
    proof (cases x)
      case None
      show ?thesis unfolding None using rest by simp
    qed (simp add: triple_def)
  qed simp
  from tripleD [OF this _ assms(4)] assms(2) show ?thesis by simp
qed

end
