(* ===== verification/Swap_Samples.thy ===== *)
theory Swap_Samples
  imports Swap_Liveness Transfer_Liveness
begin

text \<open>Concrete runs of the swap: an attempt that dies between the marker and the rename, one that dies while it copies, and their successors.\<close>

definition sample_resolver :: ScopeResolver where
  "sample_resolver = [(''data'', ''/srv'')]"

definition everywhere :: "string \<Rightarrow> lstat_result" where
  "everywhere _ = StatOk FDir"

definition empty_tree_summary :: FileManifestSummary where
  "empty_tree_summary = (case buildFileManifest sample_hash (\<lambda>_. True) (Some []) of Inr s \<Rightarrow> s | Inl _ \<Rightarrow> empty_summary)"

definition sample_apply :: apply_request where
  "sample_apply = \<lparr>ar_task = sample_task, ar_handle = ''data'', ar_relative = ''app'', ar_source = [], ar_source_root = ''/cache'',
     ar_summary = empty_tree_summary, ar_capacity = True\<rparr>"

definition bare_host :: swap_host where
  "bare_host = \<lparr>w_nodes = [], w_marker = NoMarker, w_now = 0, w_env = [], w_dead = False\<rparr>"

definition interrupted :: swap_host where
  "interrupted = snd (run_state (applyFileTree sample_hash everywhere sample_resolver sample_apply)
     (bare_host\<lparr>w_now := 7, w_env := [Runs, Runs, Runs, Runs, Runs, Runs, Dies_after], w_dead := False\<rparr>))"

lemma sample_site: "swap_site sample_hash sample_resolver ''data'' ''app'' ''/srv/app''"
proof -
  have new: "NewScopeResolver everywhere sample_resolver = Inr sample_resolver" by code_simp
  have "Resolve everywhere sample_resolver ''data'' ''app'' True = Inr ''/srv/app''" by code_simp
  moreover have "hex_digests sample_hash" by (simp add: hex_digests_def sample_hash_def is_lower_hex_def list_all_iff)
  ultimately show ?thesis using NewScopeResolver_wf [OF new] by (auto simp: swap_site_def)
qed

lemma sample_request [simp]: "ar_handle sample_apply = ''data''" "ar_relative sample_apply = ''app''"
  by (simp_all add: sample_apply_def)

lemma interrupted_reached: "(swap_step sample_hash sample_resolver ''data'' ''app'')\<^sup>*\<^sup>* bare_host interrupted"
  unfolding interrupted_def by (rule r_into_rtranclp, rule attempt) simp_all

lemma interrupted_state:
  "w_marker interrupted = Marker (swap_marker sample_hash sample_apply [] 7)"
  "w_nodes interrupted = [([''srv'', ''.askio-apply-aaaaaaaaaaaaaaaa''], TDir [])]"
  by code_simp+

lemma resumed_run:
  "fst (run_state (applyFileTree sample_hash everywhere sample_resolver sample_apply) (interrupted\<lparr>w_now := 8, w_env := [], w_dead := False\<rparr>)) = Inr True"
  by code_simp

theorem apply_crash_safe_witness:
  "\<exists>m. w_marker interrupted = Marker m \<and> sm_state m = ''swapping'' \<and> mid_swap sample_hash ''/srv/app'' m interrupted
     \<and> (\<exists>h. run_state (applyFileTree sample_hash everywhere sample_resolver sample_apply) (interrupted\<lparr>w_now := 8, w_env := [], w_dead := False\<rparr>) = (Inr True, h)
          \<and> has_tree sample_hash (path_elems ''/srv/app'') (ms_digest (ar_summary sample_apply)) h)"
proof -
  have fresh: "w_marker bare_host = NoMarker" by (simp add: bare_host_def)
  note safe = apply_crash_safe [OF sample_site fresh interrupted_reached]
  let ?m = "swap_marker sample_hash sample_apply [] 7"
  have "mid_swap sample_hash ''/srv/app'' ?m interrupted" using conjunct1 [OF safe] interrupted_state(1) by auto
  moreover obtain h where "run_state (applyFileTree sample_hash everywhere sample_resolver sample_apply) (interrupted\<lparr>w_now := 8, w_env := [], w_dead := False\<rparr>) = (Inr True, h)"
    using resumed_run by (metis prod.collapse)
  moreover from this have "has_tree sample_hash (path_elems ''/srv/app'') (ms_digest (ar_summary sample_apply)) h"
    using conjunct2 [OF safe] by (meson sample_request)
  ultimately show ?thesis using interrupted_state(1) by auto
qed

lemma sample_names: "swap_names ''/srv/app'' (swap_marker sample_hash sample_apply [] 7) (swap_token sample_hash sample_apply)"
  by code_simp

theorem swap_recovers_witness:
  "\<exists>m' g. run_state (recoverFileSwap recoveryFuel sample_hash ''/srv/app'' (dir_name ''/srv/app'') (swap_marker sample_hash sample_apply [] 7))
       (interrupted\<lparr>w_env := [], w_dead := False\<rparr>) = (Inr m', g)
     \<and> sm_state m' = ''active'' \<and> has_tree sample_hash (path_elems ''/srv/app'') (sm_active_digest m') g"
proof -
  let ?m = "swap_marker sample_hash sample_apply [] 7" and ?h = "interrupted\<lparr>w_env := [], w_dead := False\<rparr>"
  have keys: "path_elems ''/srv/app'' = [''srv'', ''app'']" "beside ''/srv/app'' (sm_apply_name ?m) = [''srv'', ''.askio-apply-aaaaaaaaaaaaaaaa'']"
    "beside ''/srv/app'' (sm_backup_name ?m) = [''srv'', ''.askio-backup-aaaaaaaaaaaaaaaa'']"
    by code_simp+
  obtain s where s: "buildFileManifest sample_hash (\<lambda>_. True) (Some []) = Inr s" "ms_digest s = sm_pending_digest ?m"
  proof -
    have "\<exists>s. buildFileManifest sample_hash (\<lambda>_. True) (Some []) = Inr s" by (simp add: buildFileManifest_def Let_def)
    then show ?thesis using that by (auto simp: sample_apply_def empty_tree_summary_def)
  qed
  have mid: "mid_swap sample_hash ''/srv/app'' ?m ?h"
    using s by (auto simp: mid_swap_def keys gone_def has_tree_def interrupted_state(2) simp del: swap_marker_simps(4,5))
  have "\<exists>m' g. run_state (recoverFileSwap recoveryFuel sample_hash ''/srv/app'' (dir_name ''/srv/app'') ?m) ?h = (Inr m', g) \<and> w_marker g = Marker m'
     \<and> sm_state m' = ''active'' \<and> sm_active_digest m' \<in> {sm_pending_digest ?m, sm_active_digest ?m}
     \<and> has_tree sample_hash (path_elems ''/srv/app'') (sm_active_digest m') g
     \<and> gone (beside ''/srv/app'' (sm_apply_name ?m)) g \<and> gone (beside ''/srv/app'' (sm_backup_name ?m)) g"
    by (rule swap_recovers [OF sample_names _ _ mid]) (simp_all add: interrupted_state keys del: swap_marker_simps(4,5))
  then show ?thesis by blast
qed

text \<open>The attempt that dies right after it has made the apply directory.\<close>

definition abandoned :: swap_host where
  "abandoned = snd (run_state (applyFileTree sample_hash everywhere sample_resolver sample_apply)
     (bare_host\<lparr>w_now := 7, w_env := [Runs, Runs, Runs, Runs, Dies_after], w_dead := False\<rparr>))"

theorem stale_copy_blocks_witness:
  "w_nodes abandoned = [([''srv'', ''.askio-apply-aaaaaaaaaaaaaaaa''], TDir [])]
   \<and> is_err (fst (run_state (applyFileTree sample_hash everywhere sample_resolver sample_apply) (abandoned\<lparr>w_dead := False\<rparr>)))"
proof -
  have nodes: "w_nodes abandoned = [([''srv'', ''.askio-apply-aaaaaaaaaaaaaaaa''], TDir [])]" and marker: "w_marker abandoned = NoMarker"
    by code_simp+
  have key: "beside ''/srv/app'' (''.askio-apply-'' @ swap_token sample_hash sample_apply) = [''srv'', ''.askio-apply-aaaaaaaaaaaaaaaa'']" by code_simp
  have res: "Resolve everywhere sample_resolver (ar_handle sample_apply) (ar_relative sample_apply) True = Inr ''/srv/app''" by code_simp
  show ?thesis
    using stale_copy_blocks [OF res _ _ surjective_pairing, of "abandoned\<lparr>w_dead := False\<rparr>" sample_hash] by (simp add: nodes marker key del: append.simps)
qed

end
