(* ===== verification/Task_Runner.thy ===== *)
theory Task_Runner
  imports Go_Effects Task_Envelope
begin

text \<open>
  The agent's task runner (\<open>Runner\<close> of \<open>internal/migration/task.go\<close>) and the request of \<open>internal/api/client.go\<close> it uses: it claims one signed
  task, records its nonce, executes it under a heartbeat and delivers the result, which is kept in the state file until the
  backend has taken it.

  The host holds the state in memory and the state file, the clock, the trace of what an observer sees, and scripts for what the
  environment decides: how long each step takes, whether a write of the state file succeeds or the process dies at it, the
  answers of the backend, the random nonces, and how many heartbeats fall between two actions of the executor. The executor is a parameter:
  the tree of its progress reports, each of which continues with the answer it gets, down to its result.
\<close>

section \<open>Data\<close>

definition RouteTaskClaim :: string where
  "RouteTaskClaim = ''monitor-agent-migration-task-claim''"

definition RouteTaskProgress :: string where
  "RouteTaskProgress = ''monitor-agent-migration-task-progress''"

definition RouteTaskResult :: string where
  "RouteTaskResult = ''monitor-agent-migration-task-result''"

record SafeError =
  se_code :: string
  se_safe_message :: string
  se_retryable :: bool

record PrimitiveResult =
  pr_state :: string
  pr_outputs :: "jobj option"
  pr_evidence_digests :: "string list option"
  pr_checkpoint :: "jobj option"
  pr_error :: "SafeError option"

record persistentState =
  ps_schema_version :: string
  ps_accepted_digest :: string
  ps_active_attempt_id :: string
  ps_active_primitive :: string
  ps_current_phase :: string
  ps_progress_sequence :: int64
  ps_pending_route :: string
  ps_pending_result_body :: "jobj option"
  ps_seen_nonces :: "string list"
  ps_seen_nonce_expiries :: "(string, stamp) gomap"

text \<open>The state file: a document whose member \<open>schema_version\<close> may be missing.\<close>

datatype task_file = BrokenFile | StateDoc "string option" persistentState

text \<open>A decoded answer: the members the runner reads, zero when absent.\<close>

record reply_doc =
  ry_task :: "TaskEnvelope option"
  ry_cancel_requested :: bool
  ry_control :: string

text \<open>The backend's answer: status, body text and what the body decodes to.\<close>

record http_answer =
  ha_status :: int
  ha_body :: string
  ha_doc :: "reply_doc option"

datatype net_outcome = Net_dies_before | Net_dies_after | Net_lost | Net_answers http_answer

datatype save_outcome = Save_works | Save_fails | Save_dies_before | Save_dies_after

datatype post_err = NoRoute | Transport | StatusError int string | Undecodable_answer

datatype run_err =
    SaveFailed | ProcessDied | NonceFailed | Post post_err | BadEnvelope envelope_err | UnsupportedPrimitive | NonceSeen
  | PauseRequested | CancelRequested | InvalidControl | StateUnreadable | StateSchema

datatype exec_tree = Finish PrimitiveResult | Report string int64 "int64 option" "run_err option \<Rightarrow> exec_tree"

datatype event = Sent string jobj "http_answer option" | Ran TaskEnvelope | Activity bool

text \<open>The variables of \<open>RunOnce\<close> that its callback and its heartbeat share.\<close>

record progress_vars =
  pv_phase :: string
  pv_completed :: int64
  pv_total :: "int64 option"
  pv_err :: "run_err option"

record runner_host =
  rh_state :: persistentState
  rh_file :: "task_file option"
  rh_now :: int
  rh_delays :: "nat list"
  rh_saves :: "save_outcome list"
  rh_net :: "net_outcome list"
  rh_random :: "string option list"
  rh_beats :: "nat list"
  rh_vars :: progress_vars
  rh_trace :: "event list"
  rh_dead :: bool

record runner =
  rn_agent_id :: string
  rn_signing_key_id :: string
  rn_backend_key_id :: string
  rn_crypto :: crypto
  rn_sign :: "string \<Rightarrow> string"
  rn_supports :: "PrimitiveRef \<Rightarrow> bool"
  rn_execute :: "TaskEnvelope \<Rightarrow> exec_tree"
  rn_hook :: bool

type_synonym 'a rop = "(runner_host, run_err, 'a) op"

section \<open>The environment\<close>

definition time_now :: "(runner_host, int) state" where
  "time_now = State (\<lambda>h. let now = rh_now h + (case rh_delays h of [] \<Rightarrow> 0 | d # _ \<Rightarrow> int d) in
     (now, h\<lparr>rh_now := now, rh_delays := tl (rh_delays h)\<rparr>))"

definition randomNonce :: "string rop" where
  "randomNonce = State (\<lambda>h. (case rh_random h of Some n # _ \<Rightarrow> Inr n | _ \<Rightarrow> Inl NonceFailed, h\<lparr>rh_random := tl (rh_random h)\<rparr>))"

text \<open>What the JSON encoder writes: an empty pending body is omitted, numbers become their tokens when the file is read back.\<close>

definition marshal_task_state :: "crypto \<Rightarrow> persistentState \<Rightarrow> persistentState" where
  "marshal_task_state c s = s\<lparr>ps_pending_result_body :=
     (case ps_pending_result_body s of
        Some (kv # kvs) \<Rightarrow> (case canon (float_text c) (JObj (kv # kvs)) of JObj m \<Rightarrow> Some m | _ \<Rightarrow> None)
      | _ \<Rightarrow> None)\<rparr>"

text \<open>\<open>saveState\<close> writes a temporary file, syncs it and renames it over the state file: before the rename nothing has changed, and
  nothing follows it.\<close>

definition saveState :: "runner \<Rightarrow> unit rop" where
  "saveState r = State (\<lambda>h.
     if rh_dead h then (Inl ProcessDied, h)
     else let h' = h\<lparr>rh_saves := tl (rh_saves h)\<rparr>;
              saved = h'\<lparr>rh_file := Some (StateDoc (Some (ps_schema_version (rh_state h))) (marshal_task_state (rn_crypto r) (rh_state h)))\<rparr> in
       (case (case rh_saves h of [] \<Rightarrow> Save_works | x # _ \<Rightarrow> x) of
          Save_works \<Rightarrow> (Inr (), saved)
        | Save_fails \<Rightarrow> (Inl SaveFailed, h')
        | Save_dies_before \<Rightarrow> (Inl ProcessDied, h'\<lparr>rh_dead := True\<rparr>)
        | Save_dies_after \<Rightarrow> (Inl ProcessDied, saved\<lparr>rh_dead := True\<rparr>)))"

definition log_event :: "event \<Rightarrow> (runner_host, unit) state" where
  "log_event e = modify (\<lambda>h. if rh_dead h then h else h\<lparr>rh_trace := rh_trace h @ [e]\<rparr>)"

definition set_state :: "(persistentState \<Rightarrow> persistentState) \<Rightarrow> (runner_host, unit) state" where
  "set_state f = modify (\<lambda>h. h\<lparr>rh_state := f (rh_state h)\<rparr>)"

section \<open>Requests\<close>

definition no_reply :: reply_doc where
  "no_reply = \<lparr>ry_task = None, ry_cancel_requested = False, ry_control = []\<rparr>"

text \<open>\<open>PostMigration\<close> after the answer is there: status and what the caller's document holds.\<close>

definition read_answer :: "bool \<Rightarrow> http_answer \<Rightarrow> post_err + (int \<times> reply_doc)" where
  "read_answer out a =
     (if ha_status a = 204 then Inr (204, no_reply)
      else if ha_status a < 200 \<or> ha_status a \<ge> 300 then Inl (StatusError (ha_status a) (ha_body a))
      else if out \<and> ha_body a \<noteq> [] then (case ha_doc a of None \<Rightarrow> Inl Undecodable_answer | Some d \<Rightarrow> Inr (ha_status a, d))
      else Inr (ha_status a, no_reply))"

definition PostMigration :: "string \<Rightarrow> jobj \<Rightarrow> bool \<Rightarrow> (int \<times> reply_doc) rop" where
  "PostMigration route payload out =
     guardE (route \<noteq> []) (Post NoRoute) (State (\<lambda>h.
       if rh_dead h then (Inl ProcessDied, h)
       else let h' = h\<lparr>rh_net := tl (rh_net h)\<rparr>;
                sent = (\<lambda>a. h'\<lparr>rh_trace := rh_trace h @ [Sent route payload a]\<rparr>) in
         (case (case rh_net h of [] \<Rightarrow> Net_lost | x # _ \<Rightarrow> x) of
            Net_dies_before \<Rightarrow> (Inl ProcessDied, h'\<lparr>rh_dead := True\<rparr>)
          | Net_dies_after \<Rightarrow> (Inl ProcessDied, (sent None)\<lparr>rh_dead := True\<rparr>)
          | Net_lost \<Rightarrow> (Inl (Post Transport), sent None)
          | Net_answers a \<Rightarrow>
              (case read_answer out a of Inl e \<Rightarrow> (Inl (Post e), sent (Some a)) | Inr x \<Rightarrow> (Inr x, sent (Some a))))))"

definition signedBody :: "runner \<Rightarrow> string \<Rightarrow> jobj \<Rightarrow> jobj rop" where
  "signedBody r route members = tryE randomNonce (\<lambda>nonce. do {
     now \<leftarrow> time_now;
     let body = go_put ''request_nonce'' (JStr nonce) (go_put ''request_timestamp'' (JStr (stamp_text (Stamp now)))
           (go_put ''key_id'' (JStr (rn_signing_key_id r)) members));
     let canonical = CanonicalJSON (float_text (rn_crypto r))
           (JObj [(''route'', JStr route), (''agent_id'', JStr (rn_agent_id r)), (''body'', JObj body)]);
     okE (go_put ''request_signature'' (JStr (rn_sign r canonical)) body) })"

definition postSigned :: "runner \<Rightarrow> string \<Rightarrow> jobj \<Rightarrow> bool \<Rightarrow> (int \<times> reply_doc) rop" where
  "postSigned r route members out = tryE (signedBody r route members) (\<lambda>body. PostMigration route body out)"

section \<open>The state file\<close>

definition agentStateSchema :: string where
  "agentStateSchema = ''operations.migration.agent-state.v1''"

definition initial_task_state :: persistentState where
  "initial_task_state = \<lparr>ps_schema_version = agentStateSchema, ps_accepted_digest = [], ps_active_attempt_id = [], ps_active_primitive = [],
     ps_current_phase = [], ps_progress_sequence = 0, ps_pending_route = [], ps_pending_result_body = None, ps_seen_nonces = [],
     ps_seen_nonce_expiries = []\<rparr>"

definition loadState :: "task_file option \<Rightarrow> run_err + persistentState" where
  "loadState file =
     (case file of
        None \<Rightarrow> Inr initial_task_state
      | Some BrokenFile \<Rightarrow> Inl StateUnreadable
      | Some (StateDoc schema s) \<Rightarrow>
          let s' = s\<lparr>ps_schema_version := (case schema of None \<Rightarrow> ps_schema_version initial_task_state | Some v \<Rightarrow> v)\<rparr> in
          if ps_schema_version s' \<noteq> agentStateSchema then Inl StateSchema else Inr s')"

section \<open>Acceptance\<close>

definition prune_expired :: "int \<Rightarrow> (string, stamp) gomap \<Rightarrow> (string, stamp) gomap" where
  "prune_expired now m = filter (\<lambda>(n, x). \<not> (case parse_time x of None \<Rightarrow> False | Some e \<Rightarrow> e < now)) m"

text \<open>The clock is read twice: inside \<open>verifySignedTaskEnvelope\<close> and for the pruning of the nonces.\<close>

definition verifyEnvelope :: "runner \<Rightarrow> TaskEnvelope \<Rightarrow> string rop" where
  "verifyEnvelope r task = do {
     verified_at \<leftarrow> time_now;
     case verifySignedTaskEnvelope (rn_crypto r) verified_at task (rn_backend_key_id r) (rn_agent_id r) of
       Inl e \<Rightarrow> errE (BadEnvelope e)
     | Inr digest \<Rightarrow>
         guardE (rn_supports r (t_primitive task)) UnsupportedPrimitive (do {
           h \<leftarrow> get_state;
           guardE (t_nonce task \<notin> set (ps_seen_nonces (rh_state h))) NonceSeen (do {
             now \<leftarrow> time_now;
             set_state (\<lambda>s. s\<lparr>ps_seen_nonce_expiries := prune_expired now (ps_seen_nonce_expiries s)\<rparr>);
             h \<leftarrow> get_state;
             guardE (map_of (ps_seen_nonce_expiries (rh_state h)) (t_nonce task) = None) NonceSeen (okE digest) }) }) }"

definition accept_task :: "string \<Rightarrow> TaskEnvelope \<Rightarrow> persistentState \<Rightarrow> persistentState" where
  "accept_task digest task s = s\<lparr>ps_accepted_digest := digest, ps_active_attempt_id := t_attempt_id task,
     ps_active_primitive := p_id (t_primitive task), ps_current_phase := ''accepted'', ps_progress_sequence := 0,
     ps_seen_nonce_expiries := go_put (t_nonce task) (t_expires_at task) (ps_seen_nonce_expiries s)\<rparr>"

section \<open>Progress\<close>

definition opt_int :: "int64 option \<Rightarrow> jval" where
  "opt_int n = (case n of None \<Rightarrow> JNull | Some i \<Rightarrow> JInt i)"

definition progress_fields :: "TaskEnvelope \<Rightarrow> int64 \<Rightarrow> string \<Rightarrow> int64 \<Rightarrow> int64 option \<Rightarrow> jobj" where
  "progress_fields task sequence phase completed tot =
     [(''attempt_id'', JStr (t_attempt_id task)), (''attempt_token'', JStr (t_attempt_token task)), (''fencing_token'', JInt (t_fencing_token task)),
      (''sequence'', JInt sequence), (''phase'', JStr phase),
      (''units'', JObj [(''completed'', JInt completed), (''total'', opt_int tot), (''name'', JStr ''items'')]),
      (''rate_per_second'', JNull), (''estimated_seconds_remaining'', JNull)]"

definition control_of :: "reply_doc \<Rightarrow> run_err option" where
  "control_of d =
     (if ry_control d = ''pause'' then Some PauseRequested
      else if ry_control d = ''cancel_safe'' then Some CancelRequested
      else if ry_control d = [] then (if ry_cancel_requested d then Some PauseRequested else None)
      else Some InvalidControl)"

definition progressCallback :: "runner \<Rightarrow> TaskEnvelope \<Rightarrow> string \<Rightarrow> int64 \<Rightarrow> int64 option \<Rightarrow> unit rop" where
  "progressCallback r task phase completed tot = do {
     set_state (\<lambda>s. s\<lparr>ps_progress_sequence := wrap64 (ps_progress_sequence s + 1), ps_current_phase := phase\<rparr>);
     tryE (saveState r) (\<lambda>_. do {
       h \<leftarrow> get_state;
       tryE (postSigned r RouteTaskProgress (progress_fields task (ps_progress_sequence (rh_state h)) phase completed tot) True) (\<lambda>(_, d).
         case control_of d of None \<Rightarrow> okE () | Some e \<Rightarrow> errE e) }) }"

definition set_vars :: "(progress_vars \<Rightarrow> progress_vars) \<Rightarrow> (runner_host, unit) state" where
  "set_vars f = modify (\<lambda>h. h\<lparr>rh_vars := f (rh_vars h)\<rparr>)"

definition reportProgress :: "runner \<Rightarrow> TaskEnvelope \<Rightarrow> string \<Rightarrow> int64 \<Rightarrow> int64 option \<Rightarrow> unit rop" where
  "reportProgress r task phase completed tot = do {
     h \<leftarrow> get_state;
     case pv_err (rh_vars h) of
       Some e \<Rightarrow> errE e
     | None \<Rightarrow> do {
         set_vars (\<lambda>v. v\<lparr>pv_phase := phase, pv_completed := completed, pv_total := tot\<rparr>);
         x \<leftarrow> progressCallback r task phase completed tot;
         case x of
           Inl e \<Rightarrow> do { set_vars (\<lambda>v. v\<lparr>pv_err := Some e\<rparr>); errE e }
         | Inr _ \<Rightarrow> okE () } }"

text \<open>One tick of the heartbeat.\<close>

definition heartbeat :: "runner \<Rightarrow> TaskEnvelope \<Rightarrow> (runner_host, unit) state" where
  "heartbeat r task = do {
     h \<leftarrow> get_state;
     case pv_err (rh_vars h) of
       Some _ \<Rightarrow> return ()
     | None \<Rightarrow> do {
         x \<leftarrow> progressCallback r task (pv_phase (rh_vars h)) (pv_completed (rh_vars h)) (pv_total (rh_vars h));
         case x of
           Inl e \<Rightarrow> set_vars (\<lambda>v. v\<lparr>pv_err := Some e\<rparr>)
         | Inr _ \<Rightarrow> return () } }"

primrec heartbeats :: "runner \<Rightarrow> TaskEnvelope \<Rightarrow> nat \<Rightarrow> (runner_host, unit) state" where
  "heartbeats r task 0 = return ()"
| "heartbeats r task (Suc n) = do { heartbeat r task; heartbeats r task n }"

definition beats :: "runner \<Rightarrow> TaskEnvelope \<Rightarrow> (runner_host, unit) state" where
  "beats r task = do {
     h \<leftarrow> get_state;
     modify (\<lambda>h. h\<lparr>rh_beats := tl (rh_beats h)\<rparr>);
     heartbeats r task (case rh_beats h of [] \<Rightarrow> 0 | n # _ \<Rightarrow> n) }"

text \<open>The executor at work: heartbeats may fall before each of its reports and before its end.\<close>

primrec run_executor :: "runner \<Rightarrow> TaskEnvelope \<Rightarrow> exec_tree \<Rightarrow> (runner_host, PrimitiveResult) state" where
  "run_executor r task (Finish result) = do { beats r task; return result }"
| "run_executor r task (Report phase completed tot k) = do {
     beats r task;
     x \<leftarrow> reportProgress r task phase completed tot;
     run_executor r task (k (case x of Inl e \<Rightarrow> Some e | Inr _ \<Rightarrow> None)) }"

section \<open>Results\<close>

definition plain_result :: "string \<Rightarrow> jobj \<Rightarrow> PrimitiveResult" where
  "plain_result st checkpoint = \<lparr>pr_state = st, pr_outputs = Some [], pr_evidence_digests = Some [], pr_checkpoint = Some checkpoint, pr_error = None\<rparr>"

definition controlledResult :: "run_err \<Rightarrow> string \<Rightarrow> string \<Rightarrow> PrimitiveResult" where
  "controlledResult control phase digest =
     plain_result (if control = CancelRequested then ''cancelled'' else ''paused_at_checkpoint'')
       [(''phase'', JStr phase), (''envelope_digest'', JStr digest)]"

definition normalizeResult :: "PrimitiveResult \<Rightarrow> PrimitiveResult" where
  "normalizeResult result =
     (let filled = result\<lparr>pr_outputs := Some (entries (pr_outputs result)), pr_evidence_digests := Some (entries (pr_evidence_digests result))\<rparr> in
      if pr_state filled = [] then filled\<lparr>pr_state := ''failed'',
        pr_error := Some \<lparr>se_code = ''MIGRATION_PRIMITIVE_EMPTY_RESULT'', se_safe_message = ''The primitive returned no terminal state.'', se_retryable = False\<rparr>\<rparr>
      else filled)"

definition json_error :: "SafeError option \<Rightarrow> jval" where
  "json_error e = (case e of None \<Rightarrow> JNull
     | Some x \<Rightarrow> JObj [(''code'', JStr (se_code x)), (''safe_message'', JStr (se_safe_message x)), (''retryable'', JBool (se_retryable x))])"

definition result_material :: "TaskEnvelope \<Rightarrow> PrimitiveResult \<Rightarrow> jobj" where
  "result_material task result =
     [(''attempt_id'', JStr (t_attempt_id task)), (''fencing_token'', JInt (t_fencing_token task)), (''state'', JStr (pr_state result)),
      (''outputs'', opt_obj (pr_outputs result)),
      (''evidence_digests'', (case pr_evidence_digests result of None \<Rightarrow> JNull | Some ds \<Rightarrow> JArr (map JStr ds))),
      (''checkpoint'', opt_obj (pr_checkpoint result)), (''error'', json_error (pr_error result))]"

definition result_body :: "crypto \<Rightarrow> TaskEnvelope \<Rightarrow> PrimitiveResult \<Rightarrow> jobj" where
  "result_body c task result =
     result_material task result @ [(''attempt_token'', JStr (t_attempt_token task)),
       (''result_digest'', JStr (Digest (float_text c) (sha256_hex c) (JObj (result_material task result))))]"

definition idle :: "persistentState \<Rightarrow> persistentState" where
  "idle s = s\<lparr>ps_pending_route := [], ps_pending_result_body := None, ps_active_attempt_id := [], ps_active_primitive := [],
     ps_current_phase := ''idle'', ps_progress_sequence := 0\<rparr>"

definition persistAndPostResult :: "runner \<Rightarrow> TaskEnvelope \<Rightarrow> PrimitiveResult \<Rightarrow> unit rop" where
  "persistAndPostResult r task result =
     (let body = result_body (rn_crypto r) task result in do {
        set_state (\<lambda>s. s\<lparr>ps_pending_route := RouteTaskResult, ps_pending_result_body := Some body, ps_current_phase := ''result_pending''\<rparr>);
        tryE (saveState r) (\<lambda>_.
        tryE (postSigned r RouteTaskResult body False) (\<lambda>_. do { set_state idle; saveState r })) })"

definition has_substring :: "string \<Rightarrow> string \<Rightarrow> bool" where
  "has_substring s t \<longleftrightarrow> list_ex (\<lambda>i. has_prefix (drop i s) t) [0..<Suc (length s)]"

definition fenced_status :: "run_err \<Rightarrow> bool" where
  "fenced_status e = (case e of Post (StatusError code body) \<Rightarrow> code = 409 \<and> has_substring body ''MIGRATION_ATTEMPT_FENCED'' | _ \<Rightarrow> False)"

definition fenced :: "persistentState \<Rightarrow> persistentState" where
  "fenced s = s\<lparr>ps_pending_route := [], ps_pending_result_body := None, ps_active_attempt_id := [], ps_active_primitive := [],
     ps_current_phase := ''fenced''\<rparr>"

text \<open>The two results of the Go functions: whether there was work, and the error.\<close>

type_synonym outcome_pair = "bool \<times> run_err option"

definition err_of :: "run_err + 'a \<Rightarrow> run_err option" where
  "err_of x = (case x of Inl e \<Rightarrow> Some e | Inr _ \<Rightarrow> None)"

definition flushPending :: "runner \<Rightarrow> (runner_host, outcome_pair) state" where
  "flushPending r = do {
     h \<leftarrow> get_state;
     case ps_pending_result_body (rh_state h) of
       None \<Rightarrow> return (False, None)
     | Some body \<Rightarrow>
         if ps_pending_route (rh_state h) = [] then return (False, None)
         else do {
           x \<leftarrow> postSigned r (ps_pending_route (rh_state h)) body False;
           case x of
             Inl e \<Rightarrow> if fenced_status e then do { set_state fenced; y \<leftarrow> saveState r; return (True, err_of y) } else return (True, Some e)
           | Inr _ \<Rightarrow> do { set_state idle; y \<leftarrow> saveState r; return (True, err_of y) } } }"

section \<open>One round\<close>

definition finish_task :: "runner \<Rightarrow> TaskEnvelope \<Rightarrow> string \<Rightarrow> PrimitiveResult \<Rightarrow> unit rop" where
  "finish_task r task digest result = do {
     h \<leftarrow> get_state;
     let last = pv_phase (rh_vars h) in
     case pv_err (rh_vars h) of
       Some e \<Rightarrow>
         persistAndPostResult r task
           (if e = PauseRequested \<or> e = CancelRequested then controlledResult e last digest
            else plain_result ''paused_at_checkpoint''
              [(''phase'', JStr last), (''envelope_digest'', JStr digest), (''reason'', JStr ''lease_heartbeat_lost'')])
     | None \<Rightarrow> do {
         x \<leftarrow> reportProgress r task ''finalizing_result'' 1 (Some 1);
         persistAndPostResult r task
           (case x of
              Inl PauseRequested \<Rightarrow> controlledResult PauseRequested ''finalizing_result'' digest
            | Inl CancelRequested \<Rightarrow> controlledResult CancelRequested ''finalizing_result'' digest
            | _ \<Rightarrow> result) } }"

definition perform_task :: "runner \<Rightarrow> TaskEnvelope \<Rightarrow> string \<Rightarrow> unit rop" where
  "perform_task r task digest = do {
     set_vars (\<lambda>_. \<lparr>pv_phase = ''starting'', pv_completed = 0, pv_total = None, pv_err = None\<rparr>);
     x \<leftarrow> reportProgress r task ''starting'' 0 None;
     case x of
       Inl e \<Rightarrow>
         if e = PauseRequested \<or> e = CancelRequested then persistAndPostResult r task (controlledResult e ''starting'' digest) else errE e
     | Inr _ \<Rightarrow> do {
         log_event (Ran task);
         result \<leftarrow> run_executor r task (rn_execute r task);
         finish_task r task digest (normalizeResult result) } }"

definition activity :: "runner \<Rightarrow> bool \<Rightarrow> (runner_host, unit) state" where
  "activity r on = (if rn_hook r then log_event (Activity on) else return ())"

definition admit_task :: "runner \<Rightarrow> TaskEnvelope \<Rightarrow> string \<Rightarrow> (runner_host, outcome_pair) state" where
  "admit_task r task digest = do {
     set_state (accept_task digest task);
     s \<leftarrow> saveState r;
     case s of
       Inl e \<Rightarrow> return (True, Some e)
     | Inr _ \<Rightarrow> do {
         activity r True;
         x \<leftarrow> perform_task r task digest;
         activity r False;
         return (True, err_of x) } }"

definition RunOnce :: "runner \<Rightarrow> (runner_host, outcome_pair) state" where
  "RunOnce r = do {
     p \<leftarrow> flushPending r;
     case p of (handled, err) \<Rightarrow>
       if handled \<or> err \<noteq> None then return (handled, err)
       else do {
         claim \<leftarrow> postSigned r RouteTaskClaim [] True;
         case claim of
           Inl e \<Rightarrow> return (False, Some e)
         | Inr (status, d) \<Rightarrow>
             (case ry_task d of
                None \<Rightarrow> return (False, None)
              | Some task \<Rightarrow>
                  if status = 204 then return (False, None)
                  else do {
                    v \<leftarrow> verifyEnvelope r task;
                    case v of
                      Inl e \<Rightarrow> return (True, Some e)
                    | Inr digest \<Rightarrow> admit_task r task digest }) } }"

text \<open>A new process: \<open>NewRunner\<close> loads the state file.\<close>

definition restart_runner :: "runner_host \<Rightarrow> run_err + runner_host" where
  "restart_runner h = (case loadState (rh_file h) of Inl e \<Rightarrow> Inl e | Inr s \<Rightarrow> Inr (h\<lparr>rh_state := s, rh_dead := False\<rparr>))"

end
