(* ===== verification/Runner_Safety.thy ===== *)
theory Runner_Safety
  imports Task_Runner
begin

text \<open>
  A signed task is executed at most once while it is valid, across crashes and restarts: its nonce is in the state file before the executor
  starts. The exception is the instant between two readings of the clock.
\<close>

section \<open>Steps that leave the record of nonces alone\<close>

definition times_run :: "TaskEnvelope \<Rightarrow> runner_host \<Rightarrow> nat" where
  "times_run t h = length (filter (\<lambda>e. e = Ran t) (rh_trace h))"

definition noted :: "TaskEnvelope \<Rightarrow> persistentState \<Rightarrow> bool" where
  "noted t s \<longleftrightarrow> map_of (ps_seen_nonce_expiries s) (t_nonce t) = Some (t_expires_at t)"

definition filed :: "TaskEnvelope \<Rightarrow> task_file option \<Rightarrow> bool" where
  "filed t f \<longleftrightarrow> (\<exists>v s. f = Some (StateDoc v s) \<and> noted t s)"

definition quiet :: "TaskEnvelope \<Rightarrow> runner_host \<Rightarrow> runner_host \<Rightarrow> bool" where
  "quiet t h h' \<longleftrightarrow> rh_now h \<le> rh_now h' \<and> ps_seen_nonce_expiries (rh_state h') = ps_seen_nonce_expiries (rh_state h)
     \<and> times_run t h' = times_run t h \<and> (rh_file h' = rh_file h \<or> (filed t (rh_file h') \<longleftrightarrow> noted t (rh_state h)))"

lemma quiet_refl: "quiet t h h"
  by (simp add: quiet_def)

lemma marshal_noted: "noted t (marshal_task_state c s) = noted t s"
  by (simp add: noted_def marshal_task_state_def)

lemma filed_saved: "filed t (Some (StateDoc v (marshal_task_state c s))) = noted t s"
  by (simp add: filed_def marshal_noted)

lemma noted_expiries: "ps_seen_nonce_expiries s = ps_seen_nonce_expiries s' \<Longrightarrow> noted t s = noted t s'"
  by (simp add: noted_def)

named_theorems quiet_intros "operations that leave the record of nonces alone"

lemma quiet_time [quiet_intros]: "keeps (quiet t h0) time_now"
  by (rule keepsI) (auto simp: time_now_def quiet_def times_run_def Let_def split: list.split)

lemma quiet_random [quiet_intros]: "keeps (quiet t h0) randomNonce"
  by (rule keepsI) (auto simp: randomNonce_def quiet_def times_run_def)

lemma quiet_save [quiet_intros]: "keeps (quiet t h0) (saveState r)"
proof (rule keepsI)
  fix h assume q: "quiet t h0 h"
  then have "noted t (rh_state h) = noted t (rh_state h0)" by (intro noted_expiries) (simp add: quiet_def)
  then show "quiet t h0 (snd (run_state (saveState r) h))"
    using q by (auto simp: saveState_def quiet_def times_run_def Let_def filed_saved split: save_outcome.split list.split)
qed

lemma quiet_vars [quiet_intros]: "keeps (quiet t h0) (set_vars f)"
  by (rule keepsI) (auto simp: set_vars_def quiet_def times_run_def)

lemma quiet_set [quiet_intros]:
  "(\<And>s. ps_seen_nonce_expiries (f s) = ps_seen_nonce_expiries s) \<Longrightarrow> keeps (quiet t h0) (set_state f)"
  by (rule keepsI) (auto simp: set_state_def quiet_def times_run_def)

lemma quiet_activity [quiet_intros]: "keeps (quiet t h0) (log_event (Activity b))"
  by (rule keepsI) (auto simp: log_event_def quiet_def times_run_def)

lemma quiet_post [quiet_intros]: "keeps (quiet t h0) (PostMigration route payload out)"
  unfolding PostMigration_def
  by (rule keeps_guardE, rule keepsI) (auto simp: quiet_def times_run_def Let_def split: net_outcome.split list.split sum.split)

lemma quiet_signed [quiet_intros]: "keeps (quiet t h0) (postSigned r route members out)"
  unfolding postSigned_def signedBody_def Let_def by (intro keeps_intros quiet_intros)

lemma quiet_callback [quiet_intros]: "keeps (quiet t h0) (progressCallback r task phase completed tot)"
  unfolding progressCallback_def by (intro keeps_intros quiet_intros) simp

lemma quiet_report [quiet_intros]: "keeps (quiet t h0) (reportProgress r task phase completed tot)"
  unfolding reportProgress_def by (intro keeps_intros quiet_intros)

lemma quiet_heartbeat: "keeps (quiet t h0) (heartbeat r task)"
  unfolding heartbeat_def by (intro keeps_intros quiet_intros)

lemma quiet_beats [quiet_intros]: "keeps (quiet t h0) (beats r task)"
proof -
  have n: "keeps (quiet t h0) (heartbeats r task n)" for n
    by (induction n) (auto intro: keeps_intros quiet_heartbeat)
  have "keeps (quiet t h0) (modify (\<lambda>h. h\<lparr>rh_beats := tl (rh_beats h)\<rparr>))"
    by (rule keepsI) (auto simp: quiet_def times_run_def)
  then show ?thesis unfolding beats_def by (intro keeps_intros n)
qed

lemma quiet_executor [quiet_intros]: "keeps (quiet t h0) (run_executor r task tree)"
  by (induction tree) (auto intro!: keeps_intros quiet_intros)

lemma quiet_result [quiet_intros]: "keeps (quiet t h0) (persistAndPostResult r task result)"
  unfolding persistAndPostResult_def Let_def by (intro keeps_intros quiet_intros) (simp_all add: idle_def)

lemma quiet_finish [quiet_intros]: "keeps (quiet t h0) (finish_task r task digest result)"
  unfolding finish_task_def Let_def by (intro keeps_intros quiet_intros)

lemma quiet_flush [quiet_intros]: "keeps (quiet t h0) (flushPending r)"
  unfolding flushPending_def by (intro keeps_intros quiet_intros) (simp_all add: idle_def fenced_def)

section \<open>Execution at most once\<close>

definition once :: "TaskEnvelope \<Rightarrow> int \<Rightarrow> runner_host \<Rightarrow> bool" where
  "once t e h \<longleftrightarrow> (rh_now h \<le> e \<longrightarrow> times_run t h = 0 \<or> times_run t h = 1 \<and> noted t (rh_state h) \<and> filed t (rh_file h))"

lemma once_quiet: "quiet t h h' \<Longrightarrow> once t e h \<Longrightarrow> once t e h'"
  using noted_expiries [of "rh_state h'" "rh_state h" t] by (auto simp: once_def quiet_def)

lemma keeps_once: "(\<And>h0. keeps (quiet t h0) m) \<Longrightarrow> keeps (once t e) m"
  by (rule keepsI) (metis keepsD once_quiet quiet_refl)

text \<open>A task that has been accepted and not yet started.\<close>

definition accepted :: "TaskEnvelope \<Rightarrow> TaskEnvelope \<Rightarrow> int \<Rightarrow> runner_host \<Rightarrow> bool" where
  "accepted t task e h \<longleftrightarrow> once t e h \<and> (task = t \<longrightarrow> rh_now h \<le> e \<longrightarrow> times_run t h = 0 \<and> noted t (rh_state h) \<and> filed t (rh_file h))"

lemma accepted_quiet: "quiet t h h' \<Longrightarrow> accepted t task e h \<Longrightarrow> accepted t task e h'"
  using noted_expiries [of "rh_state h'" "rh_state h" t] once_quiet [of t h h' e] by (auto simp: accepted_def quiet_def)

lemma keeps_accepted: "(\<And>h0. keeps (quiet t h0) m) \<Longrightarrow> keeps (accepted t task e) m"
  by (rule keepsI) (metis keepsD accepted_quiet quiet_refl)

lemma prune_noted:
  assumes "t_expires_at t = Stamp e" and "now \<le> e"
  shows "noted t (s\<lparr>ps_seen_nonce_expiries := prune_expired now (ps_seen_nonce_expiries s)\<rparr>) \<or> \<not> noted t s"
proof (cases "noted t s")
  case True
  have "map_of (filter (\<lambda>(n, x). \<not> (case parse_time x of None \<Rightarrow> False | Some e \<Rightarrow> e < now)) m) n = Some (Stamp e)"
    if "map_of m n = Some (Stamp e)" for m :: "(string, stamp) gomap" and n
    using that assms(2) by (induction m) (auto split: if_splits)
  with True assms(1) show ?thesis by (simp add: noted_def prune_expired_def)
qed simp

lemma prune_once:
  assumes "t_expires_at t = Stamp e" and "rh_now h = now" and "once t e h"
  shows "once t e (h\<lparr>rh_state := (rh_state h)\<lparr>ps_seen_nonce_expiries := prune_expired now (ps_seen_nonce_expiries (rh_state h))\<rparr>\<rparr>)"
  using assms prune_noted [OF assms(1), of now "rh_state h"] by (auto simp: once_def times_run_def)

definition unseen :: "TaskEnvelope \<Rightarrow> runner_host \<Rightarrow> bool" where
  "unseen task h \<longleftrightarrow> map_of (ps_seen_nonce_expiries (rh_state h)) (t_nonce task) = None"

lemma time_now_result: "triple (once t e) time_now (\<lambda>now h. once t e h \<and> rh_now h = now)"
proof (rule tripleI)
  fix h now h' assume "once t e h" and run: "run_state time_now h = (now, h')"
  moreover from run have "h' = snd (run_state time_now h)" by simp
  ultimately have "once t e h'" using keepsD [OF keeps_once [OF quiet_time]] by metis
  with run show "once t e h' \<and> rh_now h' = now" by (auto simp: time_now_def Let_def)
qed

lemma verify_once:
  assumes "t_expires_at t = Stamp e"
  shows "triple (once t e) (verifyEnvelope r task) (\<lambda>x h. once t e h \<and> (\<forall>d. x = Inr d \<longrightarrow> unseen task h))"
proof -
  let ?Q = "\<lambda>(x :: run_err + string) h. once t e h \<and> (\<forall>d. x = Inr d \<longrightarrow> unseen task h)"
  have last: "triple (once t e) (do {
      now \<leftarrow> time_now;
      set_state (\<lambda>s. s\<lparr>ps_seen_nonce_expiries := prune_expired now (ps_seen_nonce_expiries s)\<rparr>);
      h \<leftarrow> get_state;
      guardE (map_of (ps_seen_nonce_expiries (rh_state h)) (t_nonce task) = None) NonceSeen (okE digest) }) ?Q" for digest
    by (rule triple_bind [OF time_now_result]) (auto simp: triple_def set_state_def unseen_def prune_once [OF assms])
  have "triple (once t e) (do {
      h \<leftarrow> get_state;
      guardE (t_nonce task \<notin> set (ps_seen_nonces (rh_state h))) NonceSeen (do {
        now \<leftarrow> time_now;
        set_state (\<lambda>s. s\<lparr>ps_seen_nonce_expiries := prune_expired now (ps_seen_nonce_expiries s)\<rparr>);
        h \<leftarrow> get_state;
        guardE (map_of (ps_seen_nonce_expiries (rh_state h)) (t_nonce task) = None) NonceSeen (okE digest) }) }) ?Q" for digest
    by (rule triple_bind [OF triple_get [where Q = "\<lambda>_. once t e"]]) (use last in \<open>auto intro!: triple_guardE\<close>)
  then show ?thesis
    unfolding verifyEnvelope_def
    by (intro triple_bind [OF keeps_once [OF quiet_time, unfolded keeps_def]] triple_case_sum triple_guardE) (auto intro: triple_errE)
qed

lemma accept_noted: "noted task (accept_task d task s)" "t_nonce t \<noteq> t_nonce task \<Longrightarrow> noted t (accept_task d task s) = noted t s"
  by (auto simp: noted_def accept_task_def)

lemma accept_once:
  assumes "once t e h" and "unseen task h"
  shows "once t e (h\<lparr>rh_state := accept_task d task (rh_state h)\<rparr>)"
    and "task = t \<Longrightarrow> rh_now h \<le> e \<Longrightarrow> times_run t h = 0"
proof -
  show "task = t \<Longrightarrow> rh_now h \<le> e \<Longrightarrow> times_run t h = 0" using assms by (auto simp: once_def unseen_def noted_def)
  have "times_run t h = 0" if "times_run t h = 0 \<or> noted t (rh_state h)" "t_nonce t = t_nonce task"
    using that assms(2) by (auto simp: unseen_def noted_def)
  then show "once t e (h\<lparr>rh_state := accept_task d task (rh_state h)\<rparr>)"
    using assms(1) accept_noted(2) [of t task d "rh_state h"] by (auto simp: once_def times_run_def)
qed

lemma save_success: "run_state (saveState r) h = (Inr u, h') \<Longrightarrow> rh_now h' = rh_now h \<and> rh_state h' = rh_state h \<and> rh_trace h' = rh_trace h
    \<and> rh_file h' = Some (StateDoc (Some (ps_schema_version (rh_state h))) (marshal_task_state (rn_crypto r) (rh_state h)))"
  by (auto simp: saveState_def Let_def split: if_splits save_outcome.splits)

lemma accept_saved:
  "triple (\<lambda>h. once t e h \<and> unseen task h) (do { set_state (accept_task d task); saveState r })
    (\<lambda>x h. once t e h \<and> (\<forall>u. x = Inr u \<longrightarrow> accepted t task e h))"
proof (rule tripleI)
  fix h x h'
  assume pre: "once t e h \<and> unseen task h" and run: "run_state (do { set_state (accept_task d task); saveState r }) h = (x, h')"
  let ?h = "h\<lparr>rh_state := accept_task d task (rh_state h)\<rparr>"
  have run': "run_state (saveState r) ?h = (x, h')" using run by (simp add: set_state_def)
  note acc = accept_once [OF conjunct1 [OF pre] conjunct2 [OF pre]]
  have "once t e h'" using keepsD [OF keeps_once [OF quiet_save] acc(1), of r d] run' by simp
  moreover have "accepted t task e h'" if "x = Inr u" for u
  proof -
    note s = save_success [OF run' [unfolded that]]
    have "noted t (rh_state h') \<and> filed t (rh_file h')" if "task = t" using s that by (simp add: accept_noted(1) filed_saved)
    moreover have "times_run t h' = times_run t h" using s by (simp add: times_run_def)
    ultimately show ?thesis using \<open>once t e h'\<close> acc(2) s by (auto simp: accepted_def)
  qed
  ultimately show "once t e h' \<and> (\<forall>u. x = Inr u \<longrightarrow> accepted t task e h')" by blast
qed

lemma start_once: "triple (accepted t task e) (log_event (Ran task)) (\<lambda>_. once t e)"
  by (rule tripleI) (auto simp: log_event_def accepted_def once_def times_run_def split: if_splits)

lemma accepted_once: "accepted t task e h \<Longrightarrow> once t e h"
  by (simp add: accepted_def)

lemma perform_once: "triple (accepted t task e) (perform_task r task digest) (\<lambda>_. once t e)"
proof -
  have started: "triple (accepted t task e) (do {
      log_event (Ran task);
      result \<leftarrow> run_executor r task (rn_execute r task);
      finish_task r task digest (normalizeResult result) }) (\<lambda>_. once t e)"
    by (rule triple_bind [OF start_once], rule triple_bind [OF keeps_once [OF quiet_executor, unfolded keeps_def]])
      (rule keeps_once [OF quiet_finish, unfolded keeps_def])
  have ended: "triple (accepted t task e) (persistAndPostResult r task result) (\<lambda>_. once t e)" for result
    by (rule triple_conseq [OF keeps_once [OF quiet_result, unfolded keeps_def]]) (simp_all add: accepted_once)
  show ?thesis
    unfolding perform_task_def
    by (intro triple_bind [OF keeps_accepted [OF quiet_vars, unfolded keeps_def]] triple_bind [OF keeps_accepted [OF quiet_report, unfolded keeps_def]]
        triple_case_sum triple_if started ended) (auto intro: triple_errE accepted_once)
qed

lemma quiet_hook [quiet_intros]: "keeps (quiet t h0) (activity r on)"
  unfolding activity_def by (intro keeps_intros quiet_intros)

lemma admit_once: "triple (\<lambda>h. once t e h \<and> unseen task h) (admit_task r task digest) (\<lambda>_. once t e)"
proof -
  have perform: "triple (accepted t task e) (do { activity r True; x \<leftarrow> perform_task r task digest; activity r False; return (True, err_of x) }) (\<lambda>_. once t e)"
    by (intro triple_bind [OF keeps_accepted [OF quiet_hook, unfolded keeps_def]] triple_bind [OF perform_once]
        triple_bind [OF keeps_once [OF quiet_hook, unfolded keeps_def]] triple_return)
  show ?thesis
    unfolding admit_task_def
  proof (subst State_Monad.bind_assoc [symmetric], rule triple_bind [OF accept_saved], rule triple_case_sum)
    fix x :: "run_err + unit" and u
    assume "x = Inr u"
    then show "triple (\<lambda>h. once t e h \<and> (\<forall>u. x = Inr u \<longrightarrow> accepted t task e h))
        (do { activity r True; x \<leftarrow> perform_task r task digest; activity r False; return (True, err_of x) }) (\<lambda>_. once t e)"
      by (intro triple_conseq [OF perform]) simp_all
  qed (auto intro: triple_return)
qed

lemma round_once:
  assumes "t_expires_at t = Stamp e"
  shows "keeps (once t e) (RunOnce r)"
proof -
  have checked: "triple (once t e) (do {
      v \<leftarrow> verifyEnvelope r task;
      case v of Inl err \<Rightarrow> return (True, Some err) | Inr digest \<Rightarrow> admit_task r task digest }) (\<lambda>_. once t e)" for task
    by (rule triple_bind [OF verify_once [OF assms]], rule triple_case_sum) (auto intro: triple_return triple_conseq [OF admit_once])
  show ?thesis
    unfolding RunOnce_def keeps_def
    by (intro triple_bind [OF keeps_once [OF quiet_flush, unfolded keeps_def]] triple_case_prod triple_if triple_return
        triple_bind [OF keeps_once [OF quiet_signed, unfolded keeps_def]] triple_case_sum triple_case_option checked) auto
qed

section \<open>The runner as a state machine\<close>

text \<open>A round of a living process, with any executor and any behaviour of the environment; or a new process after a crash.\<close>

definition environment :: "nat list \<Rightarrow> save_outcome list \<Rightarrow> net_outcome list \<Rightarrow> string option list \<Rightarrow> nat list \<Rightarrow> runner_host \<Rightarrow> runner_host" where
  "environment ds ss ns rs bs h = h\<lparr>rh_delays := ds, rh_saves := ss, rh_net := ns, rh_random := rs, rh_beats := bs\<rparr>"

inductive runner_step :: "runner_host \<Rightarrow> runner_host \<Rightarrow> bool" where
  round: "\<not> rh_dead h \<Longrightarrow> runner_step h (snd (run_state (RunOnce r) (environment ds ss ns rs bs h)))"
| restart: "restart_runner h = Inr h' \<Longrightarrow> runner_step h h'"

lemma once_environment: "once t e (environment ds ss ns rs bs h) = once t e h"
  by (simp add: once_def environment_def times_run_def)

lemma load_noted: "loadState f = Inr s \<Longrightarrow> filed t f \<Longrightarrow> noted t s"
  by (auto simp: loadState_def filed_def noted_def Let_def split: option.splits task_file.splits if_splits)

lemma restart_once: "restart_runner h = Inr h' \<Longrightarrow> once t e h \<Longrightarrow> once t e h'"
  by (auto simp: restart_runner_def once_def times_run_def intro: load_noted split: sum.splits)

interpretation task_runner: machine "\<lambda>h. rh_trace h = []" runner_step "\<lambda>h. \<forall>t e. t_expires_at t = Stamp e \<longrightarrow> once t e h"
proof
  show "\<forall>t e. t_expires_at t = Stamp e \<longrightarrow> once t e h" if "rh_trace h = []" for h
    using that by (simp add: once_def times_run_def)
  show "\<forall>t e. t_expires_at t = Stamp e \<longrightarrow> once t e h'" if "\<forall>t e. t_expires_at t = Stamp e \<longrightarrow> once t e h" "runner_step h h'" for h h'
    using that(2)
  proof cases
    case (round r ds ss ns rs bs)
    then show ?thesis using that(1) keepsD [OF round_once] by (metis once_environment)
  next
    case restart
    then show ?thesis using that(1) restart_once by blast
  qed
qed

text \<open>
  \<^bold>\<open>C4\<close>. Whatever the backend answers, whichever writes of the state file fail and wherever the process dies and is started again: as long as a
  signed task has not expired it has been handed to the executor at most once, and when it has, its nonce and expiry are in the
  state file.
\<close>

theorem task_runs_once:
  assumes "rh_trace h0 = []" and "runner_step\<^sup>*\<^sup>* h0 h" and "t_expires_at t = Stamp e" and "rh_now h \<le> e"
  shows "length (filter (\<lambda>x. x = Ran t) (rh_trace h)) \<le> 1
    \<and> (Ran t \<in> set (rh_trace h) \<longrightarrow> (\<exists>v s. rh_file h = Some (StateDoc v s) \<and> map_of (ps_seen_nonce_expiries s) (t_nonce t) = Some (t_expires_at t)))"
proof -
  have "once t e h" using task_runner.inv_reachable [OF assms(1,2)] assms(3) by blast
  then show ?thesis using assms(4) by (auto simp: once_def times_run_def filed_def noted_def filter_empty_conv)
qed

text \<open>
  The clock is read once for the validity of the envelope and again for the pruning of old nonces. When a task expires between the two
  readings, its record is pruned before it is looked up, and a task that was executed before is accepted a second time.
\<close>

theorem replay_between_readings:
  assumes "verifySignedTaskEnvelope (rn_crypto r) (rh_now h + int d1) task (rn_backend_key_id r) (rn_agent_id r) = Inr digest"
    and "rn_supports r (t_primitive task)" and "t_nonce task \<notin> set (ps_seen_nonces (rh_state h))"
    and "ps_seen_nonce_expiries (rh_state h) = [(t_nonce task, t_expires_at task)]"
    and "t_expires_at task = Stamp e" and "rh_delays h = [d1, d2]" and "e < rh_now h + int d1 + int d2"
  shows "fst (run_state (verifyEnvelope r task) h) = Inr digest"
  using assms by (simp add: verifyEnvelope_def time_now_def Let_def Task_Runner.set_state_def prune_expired_def)

end
