(* ===== verification/Runner_Mailbox.thy ===== *)
theory Runner_Mailbox
  imports Runner_Safety
begin

text \<open>
  What the backend may rely on, as an abstract machine: a mailbox that is empty, works on a task, or owes a result. Every round of the runner
  is a run of this machine, with the requests and the start of the executor as its labels.
\<close>

section \<open>The abstract machine\<close>

datatype mailbox = Empty | Working TaskEnvelope | Owing jobj

definition acknowledged :: "http_answer \<Rightarrow> bool" where
  "acknowledged a \<longleftrightarrow> 200 \<le> ha_status a \<and> ha_status a < 300"

definition withdrawn :: "http_answer \<Rightarrow> bool" where
  "withdrawn a \<longleftrightarrow> ha_status a = 409 \<and> has_substring (ha_body a) ''MIGRATION_ATTEMPT_FENCED''"

text \<open>A request carries a body when it has all its members, apart from those of the request signature.\<close>

definition carries :: "jobj \<Rightarrow> jobj \<Rightarrow> bool" where
  "carries payload b \<longleftrightarrow> (\<forall>k v. map_of b k = Some v \<longrightarrow>
     k \<in> {''key_id'', ''request_timestamp'', ''request_nonce'', ''request_signature''} \<or> map_of payload k = Some v)"

inductive mail_step :: "mailbox \<Rightarrow> event \<Rightarrow> mailbox \<Rightarrow> bool" where
  claims: "mail_step Empty (Sent RouteTaskClaim p a) Empty"
| reports: "m \<noteq> Owing b \<Longrightarrow> m = Empty \<or> m = Working t \<Longrightarrow> mail_step m (Sent RouteTaskProgress p a) m"
| starts: "mail_step Empty (Ran t) (Working t)"
| signals: "mail_step m (Activity on) m"
| delivers: "carries p b \<Longrightarrow> acknowledged a \<Longrightarrow> mail_step (Owing b) (Sent RouteTaskResult p (Some a)) Empty"
| withdraws: "carries p b \<Longrightarrow> withdrawn a \<Longrightarrow> mail_step (Owing b) (Sent RouteTaskResult p (Some a)) Empty"
| retains: "carries p b \<Longrightarrow> \<forall>x. a = Some x \<longrightarrow> \<not> acknowledged x \<Longrightarrow> mail_step (Owing b) (Sent RouteTaskResult p a) (Owing b)"

text \<open>Steps no observer sees: a task ends with a result for its attempt, or is declined before it starts.\<close>

inductive mail_turn :: "mailbox \<Rightarrow> mailbox \<Rightarrow> bool" where
  finishes: "map_of b ''attempt_id'' = Some (JStr (t_attempt_id t)) \<Longrightarrow> mail_turn (Working t) (Owing b)"
| declines: "mail_turn Empty (Owing b)"

inductive mail_run :: "mailbox \<Rightarrow> event list \<Rightarrow> mailbox \<Rightarrow> bool" for m0 where
  run_start: "mail_run m0 [] m0"
| run_turn: "mail_run m0 evs m \<Longrightarrow> mail_turn m m' \<Longrightarrow> mail_run m0 evs m'"
| run_step: "mail_run m0 evs m \<Longrightarrow> mail_step m e m' \<Longrightarrow> mail_run m0 (evs @ [e]) m'"

definition abs_state :: "persistentState \<Rightarrow> mailbox" where
  "abs_state s = (case ps_pending_result_body s of Some b \<Rightarrow> if ps_pending_route s = [] then Empty else Owing b | None \<Rightarrow> Empty)"

definition routed :: "persistentState \<Rightarrow> bool" where
  "routed s \<longleftrightarrow> ps_pending_route s \<in> {[], RouteTaskResult}"

section \<open>The simulation\<close>

definition tracks :: "mailbox \<Rightarrow> event list \<Rightarrow> mailbox \<Rightarrow> mailbox \<Rightarrow> runner_host \<Rightarrow> bool" where
  "tracks m0 tr m n h \<longleftrightarrow> (\<exists>evs. rh_trace h = tr @ evs \<and> mail_run m0 evs m) \<and> abs_state (rh_state h) = n \<and> routed (rh_state h)"

named_theorems track_intros "operations that leave trace and pending result alone"

lemma track_time [track_intros]: "keeps (tracks m0 tr m n) time_now"
  by (rule keepsI) (auto simp: time_now_def tracks_def Let_def)

lemma track_random [track_intros]: "keeps (tracks m0 tr m n) randomNonce"
  by (rule keepsI) (auto simp: randomNonce_def tracks_def)

lemma track_save [track_intros]: "keeps (tracks m0 tr m n) (saveState r)"
  by (rule keepsI) (auto simp: saveState_def tracks_def Let_def split: save_outcome.split)

lemma track_vars [track_intros]: "keeps (tracks m0 tr m n) (set_vars f)"
  by (rule keepsI) (auto simp: set_vars_def tracks_def)

lemma track_set [track_intros]:
  "(\<And>s. ps_pending_route (f s) = ps_pending_route s) \<Longrightarrow> (\<And>s. ps_pending_result_body (f s) = ps_pending_result_body s) \<Longrightarrow>
     keeps (tracks m0 tr m n) (set_state f)"
  by (rule keepsI) (auto simp: Task_Runner.set_state_def tracks_def abs_state_def routed_def split: option.split)

lemma track_log: "mail_step m e m' \<Longrightarrow> triple (\<lambda>h. tracks m0 tr m n h \<and> \<not> rh_dead h) (log_event e) (\<lambda>_. tracks m0 tr m' n)"
  by (rule tripleI) (auto simp: log_event_def tracks_def intro: run_step)

lemma track_activity [track_intros]: "keeps (tracks m0 tr m n) (activity r on)"
proof -
  have "keeps (tracks m0 tr m n) (log_event (Activity on))"
    by (rule keepsI) (auto simp: log_event_def tracks_def intro!: run_step signals)
  then show ?thesis unfolding activity_def by (intro keeps_intros)
qed

lemma signed_carries:
  "triple (tracks m0 tr m n) (signedBody r route members) (\<lambda>x h. tracks m0 tr m n h \<and> (case x of Inl e \<Rightarrow> \<not> fenced_status e | Inr p \<Rightarrow> carries p members))"
proof -
  have random: "triple (tracks m0 tr m n) randomNonce (\<lambda>x h. tracks m0 tr m n h \<and> (\<forall>e. x = Inl e \<longrightarrow> \<not> fenced_status e))"
    by (rule tripleI) (auto simp: randomNonce_def tracks_def fenced_status_def split: list.splits option.splits)
  show ?thesis
    unfolding signedBody_def Let_def
    by (rule triple_tryE [OF random], simp, rule triple_conseq [OF triple_bind [OF track_time [unfolded keeps_def]]])
      (auto intro!: triple_okE simp: carries_def split: if_splits)
qed

lemma routes_distinct: "RouteTaskClaim \<noteq> []" "RouteTaskProgress \<noteq> []" "RouteTaskResult \<noteq> []"
  by (simp_all add: RouteTaskClaim_def RouteTaskProgress_def RouteTaskResult_def)

text \<open>A request that is a step of the abstract machine whatever the answer.\<close>

lemma track_post:
  assumes "\<And>p a. mail_step m (Sent route p a) m"
  shows "keeps (tracks m0 tr m n) (postSigned r route members out)"
proof -
  have post: "keeps (tracks m0 tr m n) (PostMigration route p out)" for p
    unfolding PostMigration_def
    by (rule keeps_guardE, rule keepsI)
      (auto simp: tracks_def Let_def split: net_outcome.split sum.split intro!: run_step intro: assms)
  show ?thesis
    unfolding postSigned_def keeps_def
    by (rule triple_tryE [OF signed_carries]) (auto intro: triple_conseq [OF post [unfolded keeps_def]])
qed

lemma track_callback:
  assumes "m = Empty \<or> m = Working t"
  shows "keeps (tracks m0 tr m n) (progressCallback r task phase completed tot)"
proof -
  have "mail_step m (Sent RouteTaskProgress p a) m" for p a using assms by (intro reports) auto
  then show ?thesis unfolding progressCallback_def by (intro keeps_intros track_intros track_post) simp_all
qed

lemma track_report:
  assumes "m = Empty \<or> m = Working t"
  shows "keeps (tracks m0 tr m n) (reportProgress r task phase completed tot)"
  unfolding reportProgress_def by (intro keeps_intros track_intros track_callback [OF assms])

lemma track_beats:
  assumes "m = Empty \<or> m = Working t"
  shows "keeps (tracks m0 tr m n) (beats r task)"
proof -
  have "keeps (tracks m0 tr m n) (heartbeat r task)"
    unfolding heartbeat_def by (intro keeps_intros track_intros track_callback [OF assms])
  then have n: "keeps (tracks m0 tr m n) (heartbeats r task k)" for k by (induction k) (auto intro: keeps_intros)
  have "keeps (tracks m0 tr m n) (modify (\<lambda>h. h\<lparr>rh_beats := tl (rh_beats h)\<rparr>))" by (rule keepsI) (auto simp: tracks_def)
  then show ?thesis unfolding beats_def by (intro keeps_intros n)
qed

lemma track_executor:
  assumes "m = Empty \<or> m = Working t"
  shows "keeps (tracks m0 tr m n) (run_executor r task tree)"
  by (induction tree) (auto intro!: keeps_intros track_beats [OF assms] track_report [OF assms])

text \<open>The delivery of a result.\<close>

lemma post_result:
  "triple (tracks m0 tr (Owing b) n) (postSigned r RouteTaskResult b False)
    (\<lambda>x h. case x of Inr _ \<Rightarrow> tracks m0 tr Empty n h | Inl e \<Rightarrow> tracks m0 tr (Owing b) n h \<and> (fenced_status e \<longrightarrow> tracks m0 tr Empty n h))"
proof -
  have sent: "triple (\<lambda>h. tracks m0 tr (Owing b) n h \<and> carries p b) (PostMigration RouteTaskResult p False)
    (\<lambda>x h. case x of Inr _ \<Rightarrow> tracks m0 tr Empty n h | Inl e \<Rightarrow> tracks m0 tr (Owing b) n h \<and> (fenced_status e \<longrightarrow> tracks m0 tr Empty n h))" for p
  proof (rule tripleI)
    fix h x h'
    assume pre: "tracks m0 tr (Owing b) n h \<and> carries p b" and run: "run_state (PostMigration RouteTaskResult p False) h = (x, h')"
    then obtain evs where evs: "rh_trace h = tr @ evs" "mail_run m0 evs (Owing b)" by (auto simp: tracks_def)
    have stays: "mail_run m0 (evs @ [Sent RouteTaskResult p a]) (Owing b)" if "\<forall>x. a = Some x \<longrightarrow> \<not> acknowledged x" for a
      using run_step [OF evs(2) retains] pre that by blast
    have ends: "mail_run m0 (evs @ [Sent RouteTaskResult p (Some a)]) Empty" if "acknowledged a \<or> withdrawn a" for a
      using run_step [OF evs(2)] pre that by (blast intro: delivers withdraws)
    have status: "acknowledged a" if "read_answer False a = Inr y" for a y
      using that by (auto simp: read_answer_def acknowledged_def split: if_splits)
    have refused: "\<not> acknowledged a" "fenced_status (Post e) \<Longrightarrow> withdrawn a" if "read_answer False a = Inl e" for a e
      using that by (auto simp: read_answer_def acknowledged_def fenced_status_def withdrawn_def split: if_splits)
    from run pre evs stays ends status refused
    show "case x of Inr _ \<Rightarrow> tracks m0 tr Empty n h' | Inl e \<Rightarrow> tracks m0 tr (Owing b) n h' \<and> (fenced_status e \<longrightarrow> tracks m0 tr Empty n h')"
      by (auto simp: PostMigration_def routes_distinct tracks_def Let_def fenced_status_def split: if_splits net_outcome.splits sum.splits)
  qed
  show ?thesis
    unfolding postSigned_def by (rule triple_tryE [OF signed_carries]) (auto intro: triple_conseq [OF sent])
qed

text \<open>A round ends with nothing pending or with a result owed, in memory as in the abstract machine.\<close>

definition rests :: "mailbox \<Rightarrow> event list \<Rightarrow> runner_host \<Rightarrow> bool" where
  "rests m0 tr h \<longleftrightarrow> (\<exists>m. (\<forall>t. m \<noteq> Working t) \<and> tracks m0 tr m m h)"

lemma restsI: "tracks m0 tr Empty Empty h \<Longrightarrow> rests m0 tr h" "tracks m0 tr (Owing b) (Owing b) h \<Longrightarrow> rests m0 tr h"
  by (auto simp: rests_def)

lemma track_clear:
  assumes "f = idle \<or> f = fenced"
  shows "triple (tracks m0 tr Empty n) (do { set_state f; saveState r }) (\<lambda>_. tracks m0 tr Empty Empty)"
proof (rule triple_bind)
  show "triple (tracks m0 tr Empty n) (set_state f) (\<lambda>_. tracks m0 tr Empty Empty)"
    using assms by (intro tripleI) (auto simp: Task_Runner.set_state_def tracks_def abs_state_def routed_def idle_def fenced_def)
qed (rule track_save [unfolded keeps_def])

lemma track_owe:
  assumes "m = Empty \<or> m = Working task" and "b = result_body (rn_crypto r) task result"
  shows "triple (tracks m0 tr m Empty)
    (set_state (\<lambda>s. s\<lparr>ps_pending_route := RouteTaskResult, ps_pending_result_body := Some b, ps_current_phase := ''result_pending''\<rparr>))
    (\<lambda>_. tracks m0 tr (Owing b) (Owing b))"
proof -
  have "map_of b ''attempt_id'' = Some (JStr (t_attempt_id task))" by (simp add: assms(2) result_body_def result_material_def)
  then have "mail_turn m (Owing b)" using assms(1) by (auto intro: finishes declines)
  then show ?thesis
    by (intro tripleI) (auto simp: Task_Runner.set_state_def tracks_def abs_state_def routed_def routes_distinct intro: run_turn)
qed

lemma result_rests:
  assumes "m = Empty \<or> m = Working task"
  shows "triple (tracks m0 tr m Empty) (persistAndPostResult r task result) (\<lambda>_. rests m0 tr)"
proof -
  let ?b = "result_body (rn_crypto r) task result"
  have done_: "triple (tracks m0 tr Empty n) (do { set_state idle; saveState r }) (\<lambda>_. rests m0 tr)" for n
    by (rule triple_conseq [OF track_clear]) (auto intro: restsI)
  have post: "triple (tracks m0 tr (Owing ?b) (Owing ?b)) (tryE (postSigned r RouteTaskResult ?b False) (\<lambda>_. do { set_state idle; saveState r })) (\<lambda>_. rests m0 tr)"
    by (rule triple_tryE [OF post_result]) (auto intro: restsI done_)
  show ?thesis
    unfolding persistAndPostResult_def Let_def
    by (rule triple_bind [OF track_owe [OF assms refl]], rule triple_tryE [OF track_save [unfolded keeps_def]]) (auto intro: restsI post)
qed

lemma finish_rests:
  assumes "m = Empty \<or> m = Working task"
  shows "triple (tracks m0 tr m Empty) (finish_task r task digest result) (\<lambda>_. rests m0 tr)"
  unfolding finish_task_def Let_def
  by (rule triple_any_state, rule triple_case_option)
    (auto intro!: triple_bind [OF track_report [OF assms, unfolded keeps_def]] result_rests [OF assms])

definition busy :: "mailbox \<Rightarrow> event list \<Rightarrow> TaskEnvelope \<Rightarrow> runner_host \<Rightarrow> bool" where
  "busy m0 tr task h \<longleftrightarrow> (\<exists>m. (m = Empty \<or> m = Working task) \<and> tracks m0 tr m Empty h)"

lemma busy_triple:
  assumes "\<And>m. m = Empty \<or> m = Working task \<Longrightarrow> triple (tracks m0 tr m Empty) op Q"
  shows "triple (busy m0 tr task) op Q"
proof (rule tripleI)
  fix h x h' assume "busy m0 tr task h" and run: "run_state op h = (x, h')"
  then obtain m where "m = Empty \<or> m = Working task" "tracks m0 tr m Empty h" by (auto simp: busy_def)
  then show "Q x h'" using tripleD [OF assms _ run] by blast
qed

lemma keeps_busy:
  assumes "\<And>m. m = Empty \<or> m = Working task \<Longrightarrow> keeps (tracks m0 tr m Empty) op"
  shows "keeps (busy m0 tr task) op"
proof (rule keepsI)
  fix h assume "busy m0 tr task h"
  then obtain m where "m = Empty \<or> m = Working task" "tracks m0 tr m Empty h" by (auto simp: busy_def)
  then show "busy m0 tr task (snd (run_state op h))" using keepsD [OF assms] unfolding busy_def by blast
qed

lemma start_busy: "triple (tracks m0 tr Empty Empty) (log_event (Ran task)) (\<lambda>_. busy m0 tr task)"
proof (rule tripleI)
  fix h x h'
  assume pre: "tracks m0 tr Empty Empty h" and run: "run_state (log_event (Ran task)) h = (x, h')"
  show "busy m0 tr task h'"
  proof (cases "rh_dead h")
    case True
    then show ?thesis using pre run by (auto simp: log_event_def busy_def)
  next
    case False
    from pre obtain evs where "rh_trace h = tr @ evs" "mail_run m0 evs Empty" by (auto simp: tracks_def)
    with run False pre have "tracks m0 tr (Working task) Empty h'"
      by (auto simp: log_event_def tracks_def intro!: exI [of _ "evs @ [Ran task]"] run_step starts)
    then show ?thesis by (auto simp: busy_def)
  qed
qed

lemma perform_rests: "triple (tracks m0 tr Empty Empty) (perform_task r task digest) (\<lambda>_. rests m0 tr)"
proof -
  have run: "triple (busy m0 tr task) (do { result \<leftarrow> run_executor r task (rn_execute r task); finish_task r task digest (normalizeResult result) }) (\<lambda>_. rests m0 tr)"
    by (rule triple_bind [OF keeps_busy [OF track_executor, unfolded keeps_def]]) (auto intro: busy_triple finish_rests)
  show ?thesis
    unfolding perform_task_def
    by (rule triple_bind [OF track_vars [unfolded keeps_def]], rule triple_bind [OF track_report [unfolded keeps_def]], simp, rule triple_case_sum)
      (auto intro!: triple_if triple_bind [OF start_busy] run intro: result_rests triple_errE restsI)
qed

lemma admit_rests: "triple (tracks m0 tr Empty Empty) (admit_task r task digest) (\<lambda>_. rests m0 tr)"
proof -
  have hook: "keeps (rests m0 tr) (activity r on)" for on
    by (rule keepsI) (auto simp: rests_def dest: keepsD [OF track_activity])
  have accept: "keeps (tracks m0 tr Empty Empty) (set_state (accept_task digest task))" by (rule track_set) (simp_all add: accept_task_def)
  show ?thesis
    unfolding admit_task_def
    by (rule triple_bind [OF accept [unfolded keeps_def]], rule triple_bind [OF track_save [unfolded keeps_def]], rule triple_case_sum)
      (auto intro!: triple_return triple_bind [OF track_activity [unfolded keeps_def]] triple_bind [OF perform_rests] triple_bind [OF hook [unfolded keeps_def]]
        intro: restsI)
qed

lemma track_verify: "keeps (tracks m0 tr m n) (verifyEnvelope r task)"
  unfolding verifyEnvelope_def by (intro keeps_intros track_intros) simp_all

lemma claim_rests:
  "triple (tracks m0 tr Empty Empty) (do {
     v \<leftarrow> verifyEnvelope r task;
     case v of Inl e \<Rightarrow> return (True, Some e) | Inr digest \<Rightarrow> admit_task r task digest }) (\<lambda>_. rests m0 tr)"
  by (rule triple_bind [OF track_verify [unfolded keeps_def]], rule triple_case_sum) (auto intro: triple_return restsI admit_rests)

lemma triple_branch:
  "(b \<Longrightarrow> triple P m R) \<Longrightarrow> (\<not> b \<Longrightarrow> triple P' n R) \<Longrightarrow> triple (\<lambda>h. if b then P h else P' h) (if b then m else n) R"
  by (cases b) simp_all

lemma flush_rests:
  "triple (tracks m0 tr m m) (flushPending r)
     (\<lambda>(handled, err) h. if handled \<or> err \<noteq> None then rests m0 tr h else tracks m0 tr Empty Empty h)"
  if "\<forall>t. m \<noteq> Working t"
proof -
  let ?Q = "\<lambda>(handled, err) h. if handled \<or> err \<noteq> None then rests m0 tr h else tracks m0 tr Empty Empty h"
  have clear: "triple (tracks m0 tr Empty n) (do { set_state f; y \<leftarrow> saveState r; return (True, err_of y) }) ?Q" if "f = idle \<or> f = fenced" for f n
    by (subst State_Monad.bind_assoc [symmetric], rule triple_bind [OF track_clear [OF that]], rule triple_return) (auto simp: restsI(1))
  have post: "triple (tracks m0 tr (Owing b) (Owing b)) (do {
       x \<leftarrow> postSigned r RouteTaskResult b False;
       case x of
         Inl e \<Rightarrow> if fenced_status e then do { set_state fenced; y \<leftarrow> saveState r; return (True, err_of y) } else return (True, Some e)
       | Inr _ \<Rightarrow> do { set_state idle; y \<leftarrow> saveState r; return (True, err_of y) } }) ?Q" for b
  proof (rule triple_bind [OF post_result], rule triple_case_sum)
    fix x :: "run_err + int \<times> reply_doc" and e
    assume x: "x = Inl e"
    show "triple (\<lambda>h. case x of Inr _ \<Rightarrow> tracks m0 tr Empty (Owing b) h | Inl e \<Rightarrow> tracks m0 tr (Owing b) (Owing b) h \<and> (fenced_status e \<longrightarrow> tracks m0 tr Empty (Owing b) h))
      (if fenced_status e then do { set_state fenced; y \<leftarrow> saveState r; return (True, err_of y) } else return (True, Some e)) ?Q"
      unfolding x sum.case
      by (rule triple_if) (rule triple_conseq [OF clear], auto intro!: triple_return restsI(2))
  next
    fix x :: "run_err + int \<times> reply_doc" and y
    assume x: "x = Inr y"
    show "triple (\<lambda>h. case x of Inr _ \<Rightarrow> tracks m0 tr Empty (Owing b) h | Inl e \<Rightarrow> tracks m0 tr (Owing b) (Owing b) h \<and> (fenced_status e \<longrightarrow> tracks m0 tr Empty (Owing b) h))
      (do { set_state idle; y \<leftarrow> saveState r; return (True, err_of y) }) ?Q"
      unfolding x sum.case by (rule clear) simp
  qed
  show ?thesis unfolding flushPending_def
  proof (rule tripleI)
    fix h x h'
    assume pre: "tracks m0 tr m m h" and run: "run_state (do { h \<leftarrow> get_state;
     case ps_pending_result_body (rh_state h) of
       None \<Rightarrow> return (False, None)
     | Some body \<Rightarrow>
         if ps_pending_route (rh_state h) = [] then return (False, None)
         else do {
           x \<leftarrow> postSigned r (ps_pending_route (rh_state h)) body False;
           case x of
             Inl e \<Rightarrow> if fenced_status e then do { set_state fenced; y \<leftarrow> saveState r; return (True, err_of y) } else return (True, Some e)
           | Inr _ \<Rightarrow> do { set_state idle; y \<leftarrow> saveState r; return (True, err_of y) } } }) h = (x, h')"
    show "?Q x h'"
    proof (cases m)
      case Empty
      with pre run show ?thesis by (auto simp: tracks_def abs_state_def split: option.splits if_splits)
    next
      case (Owing b)
      with pre have "ps_pending_result_body (rh_state h) = Some b" "ps_pending_route (rh_state h) = RouteTaskResult"
        by (auto simp: tracks_def abs_state_def routed_def split: option.splits if_splits)
      with run show ?thesis using tripleD [OF post pre [unfolded Owing]] routes_distinct(3) by simp
    qed (use that in simp)
  qed
qed

text \<open>
  \<^bold>\<open>C6\<close>. A round of the runner refines the mailbox: from the mailbox its pending result stands for, the requests it sends and the task it
  hands to the executor are a run of the abstract machine that ends in the mailbox of the new state. So nothing is claimed while a result is
  owed; what was started ends in a result of the same attempt; and a result stays owed until a request that carried it was acknowledged or answered as fenced.
\<close>

theorem runner_refines_mailbox:
  assumes "routed (rh_state h)" and "run_state (RunOnce r) h = (x, h')"
  shows "routed (rh_state h') \<and> (\<exists>evs. rh_trace h' = rh_trace h @ evs \<and> mail_run (abs_state (rh_state h)) evs (abs_state (rh_state h')))"
proof -
  let ?m = "abs_state (rh_state h)" and ?tr = "rh_trace h"
  have idle: "\<forall>t. ?m \<noteq> Working t" by (auto simp: abs_state_def split: option.split)
  have claim: "triple (tracks ?m ?tr Empty Empty) (do {
      claim \<leftarrow> postSigned r RouteTaskClaim [] True;
      case claim of
        Inl e \<Rightarrow> return (False, Some e)
      | Inr (status, d) \<Rightarrow>
          (case ry_task d of
             None \<Rightarrow> return (False, None)
           | Some task \<Rightarrow>
               if status = 204 then return (False, None)
               else do {
                 v \<leftarrow> verifyEnvelope r task;
                 case v of Inl e \<Rightarrow> return (True, Some e) | Inr digest \<Rightarrow> admit_task r task digest }) }) (\<lambda>_. rests ?m ?tr)"
    by (rule triple_bind [OF track_post [OF claims, unfolded keeps_def]])
      (intro triple_case_sum triple_case_prod triple_case_option triple_if triple_return claim_rests restsI; assumption)
  have "triple (tracks ?m ?tr ?m ?m) (RunOnce r) (\<lambda>_. rests ?m ?tr)"
    unfolding RunOnce_def
    by (rule triple_bind [OF flush_rests [OF idle]], rule triple_case_prod, hypsubst, unfold prod.case, rule triple_branch)
      (rule triple_return, assumption, rule claim)
  moreover have "tracks ?m ?tr ?m ?m h" using assms(1) run_start [of ?m] by (simp add: tracks_def)
  ultimately have "rests ?m ?tr h'" by (rule tripleD) (rule assms(2))
  then show ?thesis by (auto simp: rests_def tracks_def)
qed

end
