(* ===== verification/Runner_Samples.thy ===== *)
theory Runner_Samples
  imports Runner_Mailbox
begin

text \<open>Concrete rounds of the runner: a task that is delivered, one whose result the backend does not take, and a replay between two readings of the clock.\<close>

definition test_crypto :: crypto where
  "test_crypto = \<lparr>float_text = (\<lambda>_ _. []), sha256_hex = (\<lambda>_. replicate 64 (CHR ''a'')), sig_ok = (\<lambda>_ _. True)\<rparr>"

definition due_task :: TaskEnvelope where
  "due_task = \<lparr>t_schema_version = ''operations.migration.task.v1'', t_key_id = ''k'', t_algorithm = ''ed25519-v1'', t_audience = ''askio-monitor'',
     t_agent_id = ''a'', t_endpoint_id = ''e'', t_migration_id = ''m'', t_run_id = None, t_run_step_id = None, t_attempt_id = ''x'',
     t_attempt_token = replicate 32 (CHR ''t''), t_fencing_token = 1, t_plan_digest = None,
     t_subject_digest = ''sha256:'' @ replicate 64 (CHR ''a''), t_primitive = \<lparr>p_id = ''p'', p_version = ''1''\<rparr>, t_resource_scope = None,
     t_inputs = None, t_issued_at = Stamp 0, t_expires_at = Stamp 9, t_nonce = ''n'', t_signature = ''s''\<rparr>"

definition test_runner :: runner where
  "test_runner = \<lparr>rn_agent_id = ''a'', rn_signing_key_id = ''q'', rn_backend_key_id = ''k'', rn_crypto = test_crypto, rn_sign = (\<lambda>_. ''sig''),
     rn_supports = (\<lambda>_. True),
     rn_execute = (\<lambda>_. Finish \<lparr>pr_state = ''succeeded'', pr_outputs = None, pr_evidence_digests = None, pr_checkpoint = None, pr_error = None\<rparr>),
     rn_hook = False\<rparr>"

definition new_host :: runner_host where
  "new_host = \<lparr>rh_state = initial_task_state, rh_file = None, rh_now = 1, rh_delays = [], rh_saves = [], rh_net = [], rh_random = [], rh_beats = [],
     rh_vars = \<lparr>pv_phase = [], pv_completed = 0, pv_total = None, pv_err = None\<rparr>, rh_trace = [], rh_dead = False\<rparr>"

definition answer :: "reply_doc \<Rightarrow> net_outcome" where
  "answer d = Net_answers \<lparr>ha_status = 200, ha_body = ''{}'', ha_doc = Some d\<rparr>"

definition offer :: net_outcome where
  "offer = answer (no_reply\<lparr>ry_task := Some due_task\<rparr>)"

text \<open>The round in which the request with the result is lost.\<close>

definition after_loss :: runner_host where
  "after_loss = snd (run_state (RunOnce test_runner)
     (environment [] [] [offer, answer no_reply, answer no_reply, Net_lost] [Some ''1'', Some ''2'', Some ''3'', Some ''4''] [] new_host))"

lemma runner_fields [simp]:
  "rn_agent_id test_runner = ''a''" "rn_signing_key_id test_runner = ''q''" "rn_backend_key_id test_runner = ''k''" "rn_crypto test_runner = test_crypto"
  "rn_sign test_runner = (\<lambda>_. ''sig'')" "rn_supports test_runner = (\<lambda>_. True)" "rn_hook test_runner = False"
  "rn_execute test_runner = (\<lambda>_. Finish \<lparr>pr_state = ''succeeded'', pr_outputs = None, pr_evidence_digests = None, pr_checkpoint = None, pr_error = None\<rparr>)"
  by (simp_all add: test_runner_def)

lemma due_verified: "0 \<le> now \<Longrightarrow> now \<le> 9 \<Longrightarrow> verifySignedTaskEnvelope test_crypto now due_task ''k'' ''a'' = Inr (envelope_digest test_crypto due_task)"
proof -
  assume "0 \<le> now" "now \<le> 9"
  then have "in_window now due_task" by (simp add: in_window_def due_task_def seconds_def)
  moreover have "Digest (float_text test_crypto) (sha256_hex test_crypto) (opt_obj (t_inputs due_task)) = t_subject_digest due_task"
    by (simp add: Digest_def test_crypto_def due_task_def)
  ultimately show ?thesis unfolding verifySignedTaskEnvelope_def by simp (simp add: due_task_def test_crypto_def)
qed

lemmas run_defs = RunOnce_def flushPending_def postSigned_def signedBody_def randomNonce_def time_now_def PostMigration_def read_answer_def
  verifyEnvelope_def Task_Runner.set_state_def prune_expired_def admit_task_def activity_def saveState_def perform_task_def set_vars_def reportProgress_def
  progressCallback_def control_of_def log_event_def beats_def finish_task_def persistAndPostResult_def routes_distinct accept_task_def

lemma after_loss_facts:
  "rh_now after_loss = 1 \<and> Ran due_task \<in> set (rh_trace after_loss) \<and> abs_state (rh_state after_loss) \<noteq> Empty"
  unfolding after_loss_def environment_def new_host_def offer_def answer_def no_reply_def initial_task_state_def
  by (simp add: run_defs Let_def due_verified abs_state_def del: map_of_go_put)

theorem task_runs_once_witness:
  "Ran due_task \<in> set (rh_trace after_loss) \<and> length (filter (\<lambda>x. x = Ran due_task) (rh_trace after_loss)) \<le> 1
   \<and> (\<exists>v s. rh_file after_loss = Some (StateDoc v s) \<and> map_of (ps_seen_nonce_expiries s) ''n'' = Some (Stamp 9))"
proof -
  have ran: "Ran due_task \<in> set (rh_trace after_loss)" and now: "rh_now after_loss \<le> 9"
    using after_loss_facts by simp_all
  have "runner_step new_host after_loss" unfolding after_loss_def by (rule round) (simp add: new_host_def)
  then have reached: "runner_step\<^sup>*\<^sup>* new_host after_loss" by (rule r_into_rtranclp)
  have "rh_trace new_host = []" "t_expires_at due_task = Stamp 9" "t_nonce due_task = ''n''" by (simp_all add: new_host_def due_task_def)
  with task_runs_once [OF _ reached _ now, of due_task] ran show ?thesis by simp
qed

theorem runner_refines_mailbox_witness:
  "\<exists>b. abs_state (rh_state after_loss) = Owing b \<and> mail_run Empty (rh_trace after_loss) (Owing b)"
proof -
  let ?h = "environment [] [] [offer, answer no_reply, answer no_reply, Net_lost] [Some ''1'', Some ''2'', Some ''3'', Some ''4''] [] new_host"
  have h: "rh_trace ?h = []" "abs_state (rh_state ?h) = Empty" "routed (rh_state ?h)"
    by (simp_all add: environment_def new_host_def initial_task_state_def abs_state_def routed_def)
  have "run_state (RunOnce test_runner) ?h = (fst (run_state (RunOnce test_runner) ?h), after_loss)" by (simp add: after_loss_def)
  from runner_refines_mailbox [OF h(3) this] have "mail_run Empty (rh_trace after_loss) (abs_state (rh_state after_loss))" using h by auto
  moreover obtain b where "abs_state (rh_state after_loss) = Owing b"
    using after_loss_facts by (auto simp: abs_state_def split: option.splits if_splits)
  ultimately show ?thesis by auto
qed

text \<open>The clock shows 8 when the signature is checked and 10 when the nonces are pruned; the task expires at 9.\<close>

theorem replay_between_readings_witness:
  "fst (run_state (verifyEnvelope test_runner due_task)
     (new_host\<lparr>rh_delays := [7, 2], rh_state := initial_task_state\<lparr>ps_seen_nonce_expiries := [(''n'', Stamp 9)]\<rparr>\<rparr>)) = Inr (envelope_digest test_crypto due_task)"
proof -
  let ?h = "new_host\<lparr>rh_delays := [7, 2], rh_state := initial_task_state\<lparr>ps_seen_nonce_expiries := [(''n'', Stamp 9)]\<rparr>\<rparr>"
  have ok: "verifySignedTaskEnvelope (rn_crypto test_runner) (rh_now ?h + int 7) due_task (rn_backend_key_id test_runner) (rn_agent_id test_runner)
      = Inr (envelope_digest test_crypto due_task)"
    by (simp add: new_host_def due_verified)
  show ?thesis
    by (rule replay_between_readings [OF ok, of 9 2]) (simp_all add: new_host_def initial_task_state_def due_task_def)
qed

end
