(* ===== verification/Secret_Binding.thy ===== *)
theory Secret_Binding
  imports Go_Results Task_Envelope Data_Plane
begin

text \<open>
  Delivery of attempt-scoped bindings to the agent (\<open>resolveBinding\<close>, \<open>expectedBindingPurpose\<close> and \<open>resolveDataPlaneTicket\<close> of
  \<open>internal/migration/task.go\<close>): which secret a task may ask for, and what the runner checks before it returns the plaintext.

  Parameters: the exchange with the backend (\<open>deliver\<close>, from the members of the request), the random nonce, the two readings of the clock and the
  cryptography (\<open>sealing\<close>: PEM and PKIX decoding, base64url, X25519 with the agent's private key, HMAC-SHA-256 and AES-GCM).
\<close>

section \<open>Data\<close>

record sealedSecretEnvelope =
  sx_schema_version :: string
  sx_binding_id :: string
  sx_purpose :: string
  sx_attempt_id :: string
  sx_agent_id :: string
  sx_agent_key_id :: string
  sx_delivery_nonce :: string
  sx_expires_at :: stamp
  sx_algorithm :: string
  sx_ephemeral_public_pem :: string
  sx_nonce :: string
  sx_ciphertext :: string
  sx_auth_tag :: string

record sealedSecretResponse =
  sr_sealed_secret :: sealedSecretEnvelope
  sr_digest :: string

datatype agreement_key = X25519Key string | OtherCurve string | NotAgreement

record sealing =
  sl_pem_block :: "string \<Rightarrow> string option"
  sl_pkix :: "string \<Rightarrow> agreement_key option"
  sl_base64 :: "string \<Rightarrow> string option"
  sl_ecdh :: "string \<Rightarrow> string option"
  sl_hmac :: "string \<Rightarrow> string \<Rightarrow> string"
  sl_gcm_open :: "string \<Rightarrow> string \<Rightarrow> string \<Rightarrow> string \<Rightarrow> string option"

datatype binding_err =
    BindingUnavailable | BindingNonce | DeliveryFailed | DigestMissing | DigestMismatch | BindingExpired | BindingAudience | EphemeralKeyInvalid
  | EphemeralKeyCurve | AgreementFailed | CipherSetup | CiphertextInvalid | AuthenticationFailed | PlaintextInvalid | TicketScope | TicketFailed

section \<open>Purposes\<close>

definition family_of_engine :: "string \<Rightarrow> string" where
  "family_of_engine engine =
     (if engine = ''postgresql'' then ''postgres''
      else if engine \<in> {''mysql'', ''mariadb''} then ''mysql''
      else if engine = ''mongodb'' then ''mongodb''
      else if engine \<in> {''redis'', ''valkey''} then ''redis''
      else [])"

definition binding_family :: "string \<Rightarrow> jobj \<Rightarrow> string" where
  "binding_family pid inputs =
     (if has_prefix pid ''migration.postgres.'' then ''postgres''
      else if has_prefix pid ''migration.mysql.'' then ''mysql''
      else if has_prefix pid ''migration.mongodb.'' then ''mongodb''
      else if has_prefix pid ''migration.redis.'' then ''redis''
      else if pid = ''migration.source.estimate.v1'' \<or> pid = ''migration.source.verify-quiescence.v1''
        then family_of_engine (string_of inputs ''database_engine'')
      else [])"

definition source_primitive :: "string \<Rightarrow> bool" where
  "source_primitive pid \<longleftrightarrow> has_suffix pid ''.inspect.v1'' \<or> has_suffix pid ''.dump.v1''
     \<or> pid \<in> {''migration.source.estimate.v1'', ''migration.source.verify-quiescence.v1'', ''migration.postgres.logical-preflight.v1'',
          ''migration.postgres.logical-schema-dump.v1'', ''migration.postgres.logical-prepare-source.v1'',
          ''migration.postgres.logical-finalize-source.v1'', ''migration.postgres.logical-cleanup-source.v1''}"

definition target_primitive :: "string \<Rightarrow> bool" where
  "target_primitive pid \<longleftrightarrow> has_suffix pid ''.inspect.v1'' \<or> has_suffix pid ''.reset-empty-target.v1'' \<or> has_suffix pid ''.restore.v1''
     \<or> has_suffix pid ''.verify.v1''
     \<or> pid \<in> {''migration.postgres.logical-preflight.v1'', ''migration.postgres.logical-restore-schema.v1'',
          ''migration.postgres.logical-start-subscription.v1'', ''migration.postgres.logical-finalize-target.v1'',
          ''migration.postgres.logical-cleanup-target.v1''}"

definition expectedBindingPurpose :: "TaskEnvelope \<Rightarrow> string \<Rightarrow> string" where
  "expectedBindingPurpose task bindingID =
     (let inputs = taskInputs task; pid = p_id (t_primitive task);
          endpointRole = string_of (entries (t_inputs task)) ''endpoint_role'' in
      if string_of inputs ''transfer_binding_id'' = bindingID \<and> pid = ''migration.files.sync.v1'' \<and> endpointRole = ''target''
        then ''transfer.source-address''
      else if string_of inputs ''runtime_secret_binding_id'' = bindingID \<and> pid = ''migration.compose.start-isolated.v1'' \<and> endpointRole = ''target''
        then ''compose.runtime-secrets''
      else if string_of inputs ''logical_source_binding_id'' = bindingID \<and> endpointRole = ''target'' \<and> has_prefix pid ''migration.postgres.logical-''
        then ''postgres.logical-source''
      else if string_of inputs ''database_binding_id'' \<noteq> bindingID then []
      else let family = binding_family pid inputs in
        if family = [] then []
        else if endpointRole = ''source'' \<and> source_primitive pid then family @ ''.source''
        else if endpointRole = ''target'' \<and> target_primitive pid then family @ ''.target''
        else [])"

section \<open>Delivery\<close>

definition hkdfSHA256SingleBlock :: "sealing \<Rightarrow> string \<Rightarrow> string \<Rightarrow> string \<Rightarrow> string" where
  "hkdfSHA256SingleBlock sl secret salt info = sl_hmac sl (sl_hmac sl salt secret) (info @ [CHR 0x01])"

definition parseX25519PublicKey :: "sealing \<Rightarrow> string \<Rightarrow> binding_err + string" where
  "parseX25519PublicKey sl pemText =
     (case sl_pem_block sl pemText of
        None \<Rightarrow> Inl EphemeralKeyInvalid
      | Some block \<Rightarrow>
          (case sl_pkix sl block of
             None \<Rightarrow> Inl EphemeralKeyInvalid
           | Some (X25519Key k) \<Rightarrow> Inr k
           | Some _ \<Rightarrow> Inl EphemeralKeyCurve))"

definition sealedSecretAAD :: "sealedSecretEnvelope \<Rightarrow> jobj" where
  "sealedSecretAAD envelope =
     [(''schema_version'', JStr (sx_schema_version envelope)), (''binding_id'', JStr (sx_binding_id envelope)),
      (''purpose'', JStr (sx_purpose envelope)), (''attempt_id'', JStr (sx_attempt_id envelope)), (''agent_id'', JStr (sx_agent_id envelope)),
      (''agent_key_id'', JStr (sx_agent_key_id envelope)), (''delivery_nonce'', JStr (sx_delivery_nonce envelope)),
      (''expires_at'', JStr (stamp_text (sx_expires_at envelope)))]"

text \<open>The JSON of the whole envelope, whose digest the response carries.\<close>

definition envelope_json :: "sealedSecretEnvelope \<Rightarrow> jval" where
  "envelope_json envelope = JObj (sealedSecretAAD envelope @
     [(''algorithm'', JStr (sx_algorithm envelope)), (''ephemeral_public_key_pem'', JStr (sx_ephemeral_public_pem envelope)),
      (''nonce'', JStr (sx_nonce envelope)), (''ciphertext'', JStr (sx_ciphertext envelope)), (''auth_tag'', JStr (sx_auth_tag envelope))])"

definition binding_request :: "TaskEnvelope \<Rightarrow> string \<Rightarrow> string \<Rightarrow> jobj" where
  "binding_request task bindingID deliveryNonce =
     [(''attempt_id'', JStr (t_attempt_id task)), (''attempt_token'', JStr (t_attempt_token task)), (''fencing_token'', JInt (t_fencing_token task)),
      (''binding_id'', JStr bindingID), (''delivery_nonce'', JStr deliveryNonce)]"

record binding_agent =
  ba_agent_id :: string
  ba_encryption_key :: bool
  ba_encryption_key_id :: string
  ba_crypto :: crypto
  ba_sealing :: sealing

definition check_audience :: "binding_agent \<Rightarrow> TaskEnvelope \<Rightarrow> string \<Rightarrow> string \<Rightarrow> sealedSecretEnvelope \<Rightarrow> bool" where
  "check_audience a task bindingID deliveryNonce envelope \<longleftrightarrow>
     expectedBindingPurpose task bindingID \<noteq> [] \<and> sx_schema_version envelope = ''operations.migration.sealed-secret.v1''
     \<and> sx_algorithm envelope = ''x25519-hkdf-sha256-aes-256-gcm-v1'' \<and> sx_purpose envelope = expectedBindingPurpose task bindingID
     \<and> sx_binding_id envelope = bindingID \<and> sx_attempt_id envelope = t_attempt_id task \<and> sx_agent_id envelope = ba_agent_id a
     \<and> sx_agent_key_id envelope = ba_encryption_key_id a \<and> sx_delivery_nonce envelope = deliveryNonce"

definition open_sealed :: "binding_agent \<Rightarrow> TaskEnvelope \<Rightarrow> sealedSecretEnvelope \<Rightarrow> binding_err + string" where
  "open_sealed a task envelope =
     (let sl = ba_sealing a in
      thenR (parseX25519PublicKey sl (sx_ephemeral_public_pem envelope)) (\<lambda>ephemeralPublic.
      case sl_ecdh sl ephemeralPublic of
        None \<Rightarrow> Inl AgreementFailed
      | Some shared \<Rightarrow>
          let key = hkdfSHA256SingleBlock sl shared (t_attempt_id task) ''askio-migration-secret-v1'' in
          requireR (length key \<in> {16, 24, 32}) CipherSetup
          (case (sl_base64 sl (sx_nonce envelope), sl_base64 sl (sx_ciphertext envelope), sl_base64 sl (sx_auth_tag envelope)) of
             (Some nonce, Some ciphertext, Some tag) \<Rightarrow>
               requireR (length nonce = 12 \<and> length tag = 16) CiphertextInvalid
               (let aad = CanonicalJSON (float_text (ba_crypto a)) (JObj (sealedSecretAAD envelope)) in
                case sl_gcm_open sl key nonce (ciphertext @ tag) aad of
                  None \<Rightarrow> Inl AuthenticationFailed
                | Some plaintext \<Rightarrow> requireR (plaintext \<noteq> [] \<and> length plaintext \<le> 65536) PlaintextInvalid (Inr plaintext))
           | _ \<Rightarrow> Inl CiphertextInvalid)))"

definition resolveBinding ::
  "binding_agent \<Rightarrow> (jobj \<Rightarrow> sealedSecretResponse option) \<Rightarrow> string option \<Rightarrow> int \<Rightarrow> int \<Rightarrow> TaskEnvelope \<Rightarrow> string \<Rightarrow> binding_err + string" where
  "resolveBinding a deliver random now1 now2 task bindingID =
     requireR (bindingID \<noteq> [] \<and> ba_encryption_key a) BindingUnavailable
     (case random of
        None \<Rightarrow> Inl BindingNonce
      | Some deliveryNonce \<Rightarrow>
          (case deliver (binding_request task bindingID deliveryNonce) of
             None \<Rightarrow> Inl DeliveryFailed
           | Some response \<Rightarrow>
               let envelope = sr_sealed_secret response in
               requireR (sr_digest response \<noteq> []) DigestMissing
               (requireR (Digest (float_text (ba_crypto a)) (sha256_hex (ba_crypto a)) (envelope_json envelope) = sr_digest response) DigestMismatch
               (requireR (case parse_time (sx_expires_at envelope) of None \<Rightarrow> False
                   | Some expiresAt \<Rightarrow> \<not> (now1 > expiresAt) \<and> \<not> (expiresAt > now2 + seconds 120)) BindingExpired
               (requireR (check_audience a task bindingID deliveryNonce envelope) BindingAudience
               (open_sealed a task envelope))))))"

definition resolveDataPlaneTicket :: "(jobj \<Rightarrow> DataPlaneTicket option) \<Rightarrow> TaskEnvelope \<Rightarrow> binding_err + DataPlaneTicket" where
  "resolveDataPlaneTicket deliver task =
     requireR (p_id (t_primitive task) = ''migration.files.sync.v1'' \<and> t_run_id task \<noteq> None \<and> t_run_step_id task \<noteq> None) TicketScope
     (case deliver [(''attempt_id'', JStr (t_attempt_id task)), (''attempt_token'', JStr (t_attempt_token task)), (''fencing_token'', JInt (t_fencing_token task))] of
        None \<Rightarrow> Inl TicketFailed
      | Some ticket \<Rightarrow> Inr ticket)"

section \<open>Scope of a binding\<close>

definition database_families :: "string set" where
  "database_families = {''postgres'', ''mysql'', ''mongodb'', ''redis''}"

definition binding_inputs :: "string set" where
  "binding_inputs = {''transfer_binding_id'', ''runtime_secret_binding_id'', ''logical_source_binding_id'', ''database_binding_id''}"

lemma family_known: "binding_family pid inputs = [] \<or> binding_family pid inputs \<in> database_families"
  by (simp add: binding_family_def family_of_engine_def database_families_def)

lemma purpose_cases:
  assumes "expectedBindingPurpose task b = p" and "p \<noteq> []" and "role = string_of (entries (t_inputs task)) ''endpoint_role''"
  shows "(\<exists>k \<in> binding_inputs. b = string_of (taskInputs task) k) \<and>
    (role = ''target'' \<and> p \<in> {''transfer.source-address'', ''compose.runtime-secrets'', ''postgres.logical-source''}
     \<or> (\<exists>f \<in> database_families. role = ''source'' \<and> p = f @ ''.source'' \<or> role = ''target'' \<and> p = f @ ''.target''))"
  using assms family_known [of "p_id (t_primitive task)" "taskInputs task"]
  unfolding expectedBindingPurpose_def Let_def binding_inputs_def by (simp split: if_splits) blast+

lemma source_purposes:
  "p \<in> {''transfer.source-address'', ''compose.runtime-secrets'', ''postgres.logical-source''} \<Longrightarrow> f \<in> database_families \<Longrightarrow> p \<noteq> f @ ''.source''"
  "f \<in> database_families \<Longrightarrow> g \<in> database_families \<Longrightarrow> f @ ''.target'' \<noteq> g @ ''.source''"
  by (auto simp: database_families_def)

lemma purpose_role:
  assumes "expectedBindingPurpose task b = p" and "p \<noteq> []"
  shows "string_of (entries (t_inputs task)) ''endpoint_role'' = (if \<exists>f \<in> database_families. p = f @ ''.source'' then ''source'' else ''target'')"
proof -
  let ?role = "string_of (entries (t_inputs task)) ''endpoint_role''"
  from purpose_cases [OF assms refl] consider
      "?role = ''target''" "p \<in> {''transfer.source-address'', ''compose.runtime-secrets'', ''postgres.logical-source''}"
    | f where "f \<in> database_families" "?role = ''source''" "p = f @ ''.source''" | f where "f \<in> database_families" "?role = ''target''" "p = f @ ''.target''"
    by blast
  then show ?thesis
  proof cases
    case 1
    have "p \<noteq> f @ ''.source''" if "f \<in> database_families" for f using source_purposes(1) [OF 1(2) that] .
    then have "\<not> (\<exists>f \<in> database_families. p = f @ ''.source'')" by (simp only: bex_simps ball_simps) simp
    then show ?thesis by (simp only: 1(1) if_False)
  next
    case 2
    then show ?thesis by auto
  next
    case (3 f)
    have "p \<noteq> g @ ''.source''" if "g \<in> database_families" for g using source_purposes(2) [OF 3(1) that] unfolding 3(3) .
    then have "\<not> (\<exists>g \<in> database_families. p = g @ ''.source'')" by (simp only: bex_simps ball_simps) simp
    then show ?thesis by (simp only: 3(2) if_False)
  qed
qed

lemma opened_sealed:
  assumes "open_sealed a task x = Inr plaintext"
  obtains shared n c tag where "sl_gcm_open (ba_sealing a) (hkdfSHA256SingleBlock (ba_sealing a) shared (t_attempt_id task) ''askio-migration-secret-v1'') n (c @ tag)
      (CanonicalJSON (float_text (ba_crypto a)) (JObj (sealedSecretAAD x))) = Some plaintext"
    and "plaintext \<noteq> []" and "length plaintext \<le> 65536"
proof -
  let ?sl = "ba_sealing a"
  from assms obtain eph where "parseX25519PublicKey ?sl (sx_ephemeral_public_pem x) = Inr eph" by (auto simp: open_sealed_def result_inv Let_def)
  moreover from assms calculation obtain shared where "sl_ecdh ?sl eph = Some shared"
    by (cases "sl_ecdh ?sl eph") (auto simp: open_sealed_def result_inv Let_def)
  moreover from assms calculation obtain n c tag where "sl_base64 ?sl (sx_nonce x) = Some n" "sl_base64 ?sl (sx_ciphertext x) = Some c" "sl_base64 ?sl (sx_auth_tag x) = Some tag"
    by (cases "sl_base64 ?sl (sx_nonce x)"; cases "sl_base64 ?sl (sx_ciphertext x)"; cases "sl_base64 ?sl (sx_auth_tag x)")
      (auto simp: open_sealed_def result_inv Let_def)
  ultimately show ?thesis using assms that [of shared n c tag]
    by (cases "sl_gcm_open ?sl (hkdfSHA256SingleBlock ?sl shared (t_attempt_id task) ''askio-migration-secret-v1'') n (c @ tag)
      (CanonicalJSON (float_text (ba_crypto a)) (JObj (sealedSecretAAD x)))") (auto simp: open_sealed_def result_inv Let_def)
qed


section \<open>A concrete delivery\<close>

definition plain_sealing :: sealing where
  "plain_sealing = \<lparr>sl_pem_block = Some, sl_pkix = (\<lambda>k. Some (X25519Key k)), sl_base64 = Some, sl_ecdh = Some, sl_hmac = (\<lambda>_ _. replicate 32 (CHR ''k'')),
     sl_gcm_open = (\<lambda>_ _ sealed _. Some (take (length sealed - 16) sealed))\<rparr>"

definition plain_agent :: binding_agent where
  "plain_agent = \<lparr>ba_agent_id = ''a'', ba_encryption_key = True, ba_encryption_key_id = ''k'',
     ba_crypto = \<lparr>float_text = (\<lambda>_ _. []), sha256_hex = (\<lambda>_. ''00''), sig_ok = (\<lambda>_ _. True)\<rparr>, ba_sealing = plain_sealing\<rparr>"

definition dump_task :: TaskEnvelope where
  "dump_task = \<lparr>t_schema_version = [], t_key_id = [], t_algorithm = [], t_audience = [], t_agent_id = ''a'', t_endpoint_id = [], t_migration_id = ''m'',
     t_run_id = None, t_run_step_id = None, t_attempt_id = ''x'', t_attempt_token = [], t_fencing_token = 1, t_plan_digest = None, t_subject_digest = [],
     t_primitive = \<lparr>p_id = ''migration.mysql.dump.v1'', p_version = ''1''\<rparr>, t_resource_scope = None,
     t_inputs = Some [(''endpoint_role'', JStr ''source''), (''inputs'', JObj [(''database_binding_id'', JStr ''b'')])],
     t_issued_at = Stamp 0, t_expires_at = Stamp 9, t_nonce = ''n'', t_signature = []\<rparr>"

definition sealed_password :: sealedSecretEnvelope where
  "sealed_password = \<lparr>sx_schema_version = ''operations.migration.sealed-secret.v1'', sx_binding_id = ''b'', sx_purpose = ''mysql.source'', sx_attempt_id = ''x'',
     sx_agent_id = ''a'', sx_agent_key_id = ''k'', sx_delivery_nonce = ''d'', sx_expires_at = Stamp 5, sx_algorithm = ''x25519-hkdf-sha256-aes-256-gcm-v1'',
     sx_ephemeral_public_pem = ''pem'', sx_nonce = ''123456789012'', sx_ciphertext = ''pw'', sx_auth_tag = ''1234567890123456''\<rparr>"

lemma password_delivered:
  "resolveBinding plain_agent (\<lambda>_. Some \<lparr>sr_sealed_secret = sealed_password, sr_digest = ''sha256:00''\<rparr>) (Some ''d'') 1 1 dump_task ''b'' = Inr ''pw''"
proof -
  have "expectedBindingPurpose dump_task ''b'' = ''mysql.source''" by code_simp
  then have "check_audience plain_agent dump_task ''b'' ''d'' sealed_password" by (simp add: check_audience_def sealed_password_def dump_task_def plain_agent_def)
  moreover have "open_sealed plain_agent dump_task sealed_password = Inr ''pw''"
    by (simp add: open_sealed_def thenR_def requireR_def parseX25519PublicKey_def plain_agent_def plain_sealing_def sealed_password_def hkdfSHA256SingleBlock_def)
  ultimately show ?thesis by (simp add: resolveBinding_def requireR_def plain_agent_def Digest_def sealed_password_def seconds_def)
qed


end
