(* ===== verification/Command_Exec.thy ===== *)
theory Command_Exec
  imports Go_Effects Go_Results
begin

text \<open>
  How the agent runs commands for operations and remediation: \<open>internal/remediation/exec.go\<close>, \<open>executor.go\<close> and \<open>redact.go\<close>,
  and the probes of \<open>internal/checks\<close>.

  The host holds the clock, the files the code writes, the trace of the commands handed to the operating system with their
  time limits and of the probes sent, and scripts for what the environment decides: how long each step takes, how each command
  ends, what each probe finds, and whether a write of a file succeeds. A script that is used up stands for a command that could
  not be started, a probe without an answer, and a write that succeeds.
\<close>

section \<open>Data\<close>

text \<open>How a command ends: its combined output, the error of \<open>cmd.Run\<close>, the exit code when a process existed, and whether the
  deadline of its context had passed.\<close>

record proc_outcome =
  po_output :: string
  po_error :: "string option"
  po_exit :: "int option"
  po_expired :: bool

text \<open>What a probe finds: a request that cannot be built, no connection, or an answer with its status and the first bytes of its body.\<close>

datatype probe_outcome = Probe_invalid string | Probe_refused | Probe_answered int string

datatype host_call = Command string "string list" int | Probe string int64

record command_host =
  ch_now :: int
  ch_delays :: "nat list"
  ch_outcomes :: "proc_outcome list"
  ch_probes :: "probe_outcome list"
  ch_writes :: "bool list"
  ch_files :: "string \<rightharpoonup> string"
  ch_calls :: "host_call list"

record ExecResult =
  er_exit :: int
  er_output :: string
  er_duration :: int

datatype Executor = RootExecutor | SudoExecutor | SystemdRunExecutor

type_synonym 'a cmd = "(command_host, 'a) state"

section \<open>The environment\<close>

definition clock_now :: "int cmd" where
  "clock_now = State (\<lambda>h. let now = ch_now h + (case ch_delays h of [] \<Rightarrow> 0 | d # _ \<Rightarrow> int d) in
     (now, h\<lparr>ch_now := now, ch_delays := tl (ch_delays h)\<rparr>))"

definition not_started :: proc_outcome where
  "not_started = \<lparr>po_output = [], po_error = Some ''executable file not found'', po_exit = None, po_expired = False\<rparr>"

definition run_process :: "string \<Rightarrow> string list \<Rightarrow> int \<Rightarrow> proc_outcome cmd" where
  "run_process command args secs = State (\<lambda>h.
     (case ch_outcomes h of [] \<Rightarrow> not_started | x # _ \<Rightarrow> x,
      h\<lparr>ch_outcomes := tl (ch_outcomes h), ch_calls := ch_calls h @ [Command command args secs]\<rparr>))"

definition send_probe :: "string \<Rightarrow> int64 \<Rightarrow> probe_outcome cmd" where
  "send_probe address timeout = State (\<lambda>h.
     (case ch_probes h of [] \<Rightarrow> Probe_refused | x # _ \<Rightarrow> x,
      h\<lparr>ch_probes := tl (ch_probes h), ch_calls := ch_calls h @ [Probe address timeout]\<rparr>))"

text \<open>\<open>os.WriteFile\<close>; its error is ignored by every caller here.\<close>

definition write_file :: "string \<Rightarrow> string \<Rightarrow> unit cmd" where
  "write_file path content = modify (\<lambda>h.
     (if (case ch_writes h of [] \<Rightarrow> True | ok # _ \<Rightarrow> ok) then h\<lparr>ch_files := (ch_files h)(path \<mapsto> content)\<rparr> else h)
       \<lparr>ch_writes := tl (ch_writes h)\<rparr>)"

text \<open>\<open>int(d.Seconds())\<close>: whole seconds of a duration in nanoseconds, towards zero.\<close>

definition whole_seconds :: "int \<Rightarrow> int" where
  "whole_seconds d = (if d < 0 then - ((- d) div 1000000000) else d div 1000000000)"

text \<open>\<open>d.Milliseconds()\<close>\<close>

definition milliseconds :: "int \<Rightarrow> int" where
  "milliseconds d = (if d < 0 then - ((- d) div 1000000) else d div 1000000)"

text \<open>\<open>time.Duration(n) * time.Second\<close>\<close>

definition seconds64 :: "int64 \<Rightarrow> int64" where
  "seconds64 n = wrap64 (n * 1000000000)"

section \<open>Executors\<close>

definition ExecSimple :: "string \<Rightarrow> string list \<Rightarrow> int \<Rightarrow> (ExecResult \<times> string option) cmd" where
  "ExecSimple command args timeoutSeconds = do {
     start \<leftarrow> clock_now;
     outcome \<leftarrow> run_process command args (if timeoutSeconds \<le> 0 then 30 else timeoutSeconds);
     finish \<leftarrow> clock_now;
     let res = \<lparr>er_exit = 0, er_output = po_output outcome, er_duration = finish - start\<rparr> in
     return (if po_expired outcome then (res\<lparr>er_exit := 124\<rparr>, Some (''command timeout: '' @ command @ '' '' @ join_with '' '' args))
       else case po_error outcome of
           Some e \<Rightarrow> (res\<lparr>er_exit := (case po_exit outcome of Some c \<Rightarrow> c | None \<Rightarrow> 1)\<rparr>, Some e)
         | None \<Rightarrow> (res, None)) }"

definition NewExecutor :: "bool \<Rightarrow> string \<Rightarrow> string + Executor" where
  "NewExecutor has_systemd_run mode =
     (if mode = ''root'' then Inr RootExecutor
      else if mode = ''sudo'' then Inr (if has_systemd_run then SystemdRunExecutor else SudoExecutor)
      else Inl (''unknown privilege mode: '' @ mode))"

definition isSystemdRunTransientFailure :: "string \<Rightarrow> bool" where
  "isSystemdRunTransientFailure output \<longleftrightarrow>
     (let normalized = to_lower output in
      contains_str normalized ''failed to start transient service unit'' \<or> contains_str normalized ''connection reset by peer''
      \<or> contains_str normalized ''transport endpoint is not connected'')"

definition sudo_run :: "string \<Rightarrow> string list \<Rightarrow> int \<Rightarrow> (ExecResult \<times> string option) cmd" where
  "sudo_run command args timeoutSeconds = ExecSimple ''sudo'' ([''-n'', command] @ args) timeoutSeconds"

definition systemd_run_arguments :: "string \<Rightarrow> string \<Rightarrow> string list \<Rightarrow> string list" where
  "systemd_run_arguments unit_name command args =
     [''-n'', ''systemd-run'', ''--wait'', ''--collect'', ''--pipe'', ''--quiet'', ''--unit'', unit_name, command] @ args"

definition systemd_run :: "string \<Rightarrow> string list \<Rightarrow> int \<Rightarrow> (ExecResult \<times> string option) cmd" where
  "systemd_run command args timeoutSeconds = do {
     now \<leftarrow> clock_now;
     (result, err) \<leftarrow> ExecSimple ''sudo'' (systemd_run_arguments (''askio-cmd-'' @ int_str now) command args) timeoutSeconds;
     if err = None \<or> \<not> isSystemdRunTransientFailure (er_output result) then return (result, err)
     else do {
       (directResult, directErr) \<leftarrow> ExecSimple command args timeoutSeconds;
       if directErr = None then return (directResult, None)
       else do {
         (sudoResult, sudoErr) \<leftarrow> sudo_run command args timeoutSeconds;
         return (if sudoErr = None then (sudoResult, None)
           else if er_output directResult \<noteq> [] then (directResult, directErr)
           else (sudoResult, sudoErr)) } } }"

fun run_command :: "Executor \<Rightarrow> string \<Rightarrow> string list \<Rightarrow> int \<Rightarrow> (ExecResult \<times> string option) cmd" where
  "run_command RootExecutor command args timeoutSeconds = ExecSimple command args timeoutSeconds"
| "run_command SudoExecutor command args timeoutSeconds = sudo_run command args timeoutSeconds"
| "run_command SystemdRunExecutor command args timeoutSeconds = systemd_run command args timeoutSeconds"

fun format_command :: "Executor \<Rightarrow> string \<Rightarrow> string list \<Rightarrow> string" where
  "format_command RootExecutor command args = command @ '' '' @ join_with '' '' args"
| "format_command SudoExecutor command args = ''sudo -n '' @ command @ '' '' @ join_with '' '' args"
| "format_command SystemdRunExecutor command args =
     ''sudo -n systemd-run --wait --collect --pipe --quiet --unit askio-cmd-<ts> '' @ command @ '' '' @ join_with '' '' args"

text \<open>\<open>StepExec.Run\<close> of \<open>internal/operations/executor.go\<close>.\<close>

definition step_run :: "Executor \<Rightarrow> string \<Rightarrow> string list \<Rightarrow> int64 \<Rightarrow> (ExecResult \<times> string option) cmd" where
  "step_run ex command args timeout =
     (let sec = whole_seconds timeout in run_command ex command args (if sec \<le> 0 then 30 else sec))"

text \<open>The calls by which an executor runs a command: directly, through \<open>sudo\<close>, or through \<open>systemd-run\<close> and its fall-backs.\<close>

inductive runs :: "Executor \<Rightarrow> string \<Rightarrow> string list \<Rightarrow> host_call \<Rightarrow> bool" where
  direct: "ex \<noteq> SudoExecutor \<Longrightarrow> runs ex command args (Command command args secs)"
| sudo: "ex \<noteq> RootExecutor \<Longrightarrow> runs ex command args (Command ''sudo'' ([''-n'', command] @ args) secs)"
| transient: "ex = SystemdRunExecutor \<Longrightarrow> runs ex command args (Command ''sudo'' (systemd_run_arguments u command args) secs)"

section \<open>Probes\<close>

record HTTPResult =
  hr_status :: int
  hr_latency :: int
  hr_body :: string

definition HTTPGet :: "string \<Rightarrow> int64 \<Rightarrow> (string + HTTPResult) cmd" where
  "HTTPGet url timeout =
     (if url = [] then return (Inl ''http url empty'')
      else do {
        start \<leftarrow> clock_now;
        answer \<leftarrow> send_probe url (if timeout \<le> 0 then seconds64 3 else timeout);
        finish \<leftarrow> clock_now;
        return (case answer of
            Probe_invalid e \<Rightarrow> Inl e
          | Probe_refused \<Rightarrow> Inr \<lparr>hr_status = 0, hr_latency = milliseconds (finish - start), hr_body = []\<rparr>
          | Probe_answered code body \<Rightarrow>
              Inr \<lparr>hr_status = code, hr_latency = milliseconds (finish - start), hr_body = take 256 body\<rparr>) })"

definition PortOpen :: "string \<Rightarrow> int64 \<Rightarrow> int64 \<Rightarrow> (string + bool \<times> int) cmd" where
  "PortOpen host port timeout =
     (if port \<le> 0 \<or> 65535 < port then return (Inl (''invalid port: '' @ int_str port))
      else do {
        start \<leftarrow> clock_now;
        answer \<leftarrow> send_probe ((if host = [] then ''127.0.0.1'' else host) @ '':'' @ int_str port)
          (if timeout \<le> 0 then seconds64 2 else timeout);
        finish \<leftarrow> clock_now;
        return (Inr (case answer of Probe_answered _ _ \<Rightarrow> True | _ \<Rightarrow> False, milliseconds (finish - start))) })"

end
