(* ===== verification/Redaction.thy ===== *)
theory Redaction
  imports Go_Results
begin

text \<open>
  The redaction of command output (\<open>internal/remediation/redact.go\<close>) and \<open>strings.ReplaceAll\<close>.

  A replacement walks the text from the left; \<open>pat\<close> looks for a match at the head of the remaining text and returns what
  follows it. Both regular expressions are deterministic at a position: no alternative is a prefix of another, and the
  repetitions range over disjoint classes of characters, so the leftmost-first choice of package \<open>regexp\<close> is the only one.
\<close>

section \<open>Replacement\<close>

function replace_matches :: "(string \<Rightarrow> string option) \<Rightarrow> (string \<Rightarrow> string) \<Rightarrow> string \<Rightarrow> string" where
  "replace_matches pat repl [] = []"
| "replace_matches pat repl (c # cs) =
     (case pat (c # cs) of
        None \<Rightarrow> c # replace_matches pat repl cs
      | Some r \<Rightarrow>
          if length r \<le> length cs
          then repl (take (length (c # cs) - length r) (c # cs)) @ replace_matches pat repl r
          else c # replace_matches pat repl cs)"
  by pat_completeness auto

termination replace_matches
  by (relation "measure (\<lambda>(pat, repl, s). length s)") auto

definition after_literal :: "string \<Rightarrow> string \<Rightarrow> string option" where
  "after_literal old s = (if old \<noteq> [] \<and> has_prefix s old then Some (drop (length old) s) else None)"

text \<open>\<open>strings.ReplaceAll\<close> for a non-empty \<open>old\<close>\<close>

definition ReplaceAll :: "string \<Rightarrow> string \<Rightarrow> string \<Rightarrow> string" where
  "ReplaceAll s old new = replace_matches (after_literal old) (\<lambda>_. new) s"

section \<open>Patterns\<close>

text \<open>\<open>\s\<close>\<close>

definition re_space :: "char \<Rightarrow> bool" where
  "re_space c \<longleftrightarrow> c \<in> {CHR '' '', CHR 0x09, CHR 0x0A, CHR 0x0C, CHR 0x0D}"

definition secret_words :: "string list" where
  "secret_words = [''password'', ''secret'', ''token'', ''api_key'', ''api-key'', ''apikey'', ''private_key'', ''private-key'', ''privatekey'']"

definition after_word :: "string \<Rightarrow> string option" where
  "after_word s = (case filter (\<lambda>w. to_lower (take (length w) s) = w) secret_words of
     [] \<Rightarrow> None | w # _ \<Rightarrow> Some (drop (length w) s))"

text \<open>\<open>(?i)(password|secret|token|api[_-]?key|private[_-]?key)\s*[:=]\s*[^\s]+\<close>\<close>

definition reEnvSecret :: "string \<Rightarrow> string option" where
  "reEnvSecret s =
     (case after_word s of
        None \<Rightarrow> None
      | Some r \<Rightarrow> (case dropWhile re_space r of
          [] \<Rightarrow> None
        | c # t \<Rightarrow>
            let u = dropWhile re_space t in
            if (c = CHR '':'' \<or> c = CHR ''='') \<and> u \<noteq> [] then Some (dropWhile (\<lambda>x. \<not> re_space x) u) else None))"

definition key_kinds :: "string list" where
  "key_kinds = [''OPENSSH'', ''RSA'', ''EC'', ''DSA'']"

definition after_line :: "string \<Rightarrow> string \<Rightarrow> string option" where
  "after_line start s =
     (case filter (has_prefix s) (map (\<lambda>k. start @ k @ '' PRIVATE KEY-----'') key_kinds) of
        [] \<Rightarrow> None | w # _ \<Rightarrow> Some (drop (length w) s))"

text \<open>\<open>.*?-----END (\<dots>) PRIVATE KEY-----\<close>: up to the first end line.\<close>

fun after_end :: "string \<Rightarrow> string option" where
  "after_end [] = None"
| "after_end (c # cs) = (case after_line ''-----END '' (c # cs) of Some r \<Rightarrow> Some r | None \<Rightarrow> after_end cs)"

definition reSSHKey :: "string \<Rightarrow> string option" where
  "reSSHKey s = (case after_line ''-----BEGIN '' s of None \<Rightarrow> None | Some r \<Rightarrow> after_end r)"

section \<open>Redaction\<close>

text \<open>The replacement of a match: \<open>strings.SplitN\<close> at the first equals sign, or else at the first colon.\<close>

definition hide_value :: "string \<Rightarrow> string" where
  "hide_value m =
     (if CHR ''='' \<in> set m then takeWhile (\<lambda>c. c \<noteq> CHR ''='') m @ ''=[REDACTED]''
      else if CHR '':'' \<in> set m then takeWhile (\<lambda>c. c \<noteq> CHR '':'') m @ '':[REDACTED]''
      else ''[REDACTED]'')"

definition Redact :: "string \<Rightarrow> string" where
  "Redact s =
     (if s = [] then s
      else replace_matches reEnvSecret hide_value (replace_matches reSSHKey (\<lambda>_. ''[REDACTED_SSH_KEY]'') s))"

section \<open>Walking to a match\<close>

text \<open>No match starts in the prefix \<open>pre\<close> of \<open>pre @ s\<close>.\<close>

primrec no_match_in :: "(string \<Rightarrow> string option) \<Rightarrow> string \<Rightarrow> string \<Rightarrow> bool" where
  "no_match_in pat [] s \<longleftrightarrow> True"
| "no_match_in pat (c # pre) s \<longleftrightarrow> pat (c # pre @ s) = None \<and> no_match_in pat pre s"

lemma replace_skips: "no_match_in pat pre s \<Longrightarrow> replace_matches pat repl (pre @ s) = pre @ replace_matches pat repl s"
  by (induction pre) simp_all

lemma replace_at_match:
  assumes "pat (m @ r) = Some r" and "m \<noteq> []"
  shows "replace_matches pat repl (m @ r) = repl m @ replace_matches pat repl r"
  using assms by (cases m) simp_all

lemma replace_none: "no_match_in pat s [] \<Longrightarrow> replace_matches pat repl s = s"
  using replace_skips [of pat s "[]" repl] by simp

section \<open>The values of secrets\<close>

lemma secret_words_prefix_free:
  assumes "v \<in> set secret_words" and "w \<in> set secret_words" and "take (length v) w = v"
  shows "v = w"
proof -
  have "list_all (\<lambda>v. list_all (\<lambda>w. take (length v) w = v \<longrightarrow> v = w) secret_words) secret_words" by code_simp
  then show ?thesis using assms by (simp add: list_all_iff)
qed

lemma length_to_lower [simp]: "length (to_lower s) = length s"
  by (simp add: to_lower_def)

lemma to_lower_append: "to_lower (a @ b) = to_lower a @ to_lower b"
  by (simp add: to_lower_def)

lemma word_unique:
  assumes kw: "to_lower kw \<in> set secret_words" and w: "w \<in> set secret_words" and m: "to_lower (take (length w) (kw @ r)) = w"
  shows "w = to_lower kw"
proof (cases "length w \<le> length kw")
  case True
  then have "take (length w) (to_lower kw) = w" using m by (simp add: to_lower_def take_map)
  then show ?thesis using secret_words_prefix_free w kw by blast
next
  case False
  then have "w = to_lower kw @ to_lower (take (length w - length kw) r)" using m by (simp add: to_lower_append)
  then have "take (length (to_lower kw)) w = to_lower kw" by (metis append_eq_conv_conj)
  then show ?thesis using secret_words_prefix_free [OF kw w] by simp
qed

lemma single_hit: "x \<in> set xs \<Longrightarrow> \<forall>y \<in> set xs. y = x \<Longrightarrow> \<exists>ys. xs = x # ys"
  by (cases xs) auto

lemma after_word_found: "to_lower kw \<in> set secret_words \<Longrightarrow> after_word (kw @ r) = Some r"
proof -
  assume kw: "to_lower kw \<in> set secret_words"
  let ?hits = "filter (\<lambda>w. to_lower (take (length w) (kw @ r)) = w) secret_words"
  have "to_lower kw \<in> set ?hits" using kw by simp
  moreover have "\<forall>w \<in> set ?hits. w = to_lower kw" using word_unique [OF kw] by (simp only: set_filter mem_Collect_eq) blast
  ultimately obtain ws where "?hits = to_lower kw # ws" using single_hit [of "to_lower kw" ?hits] by iprover
  then show ?thesis by (simp add: after_word_def)
qed

definition word_char :: "char \<Rightarrow> bool" where
  "word_char c \<longleftrightarrow> to_lower_char c \<in> set (concat secret_words)"

lemma word_chars: "to_lower kw \<in> set secret_words \<Longrightarrow> list_all word_char kw"
  by (auto simp: list_all_iff word_char_def to_lower_def intro!: bexI)

lemma separators_outside_words: "\<not> word_char CHR ''=''" "\<not> word_char CHR '':''"
  by code_simp+

lemma reEnvSecret_found:
  assumes kw: "to_lower kw \<in> set secret_words" and gap: "list_all re_space gap" and sep: "sep = CHR '':'' \<or> sep = CHR ''=''"
    and pad: "list_all re_space pad" and val: "v \<noteq> []" "list_all (\<lambda>c. \<not> re_space c) v" and rest: "rest = [] \<or> re_space (hd rest)"
  shows "reEnvSecret (kw @ gap @ sep # pad @ v @ rest) = Some rest"
proof -
  have sep': "\<not> re_space sep" using sep by (auto simp: re_space_def)
  have "dropWhile re_space (gap @ sep # pad @ v @ rest) = sep # pad @ v @ rest"
    using gap sep' by (simp add: dropWhile_append2 list_all_iff)
  moreover have "dropWhile re_space (pad @ v @ rest) = v @ rest"
    using pad val by (cases v) (simp_all add: dropWhile_append2 list_all_iff)
  moreover have "dropWhile (\<lambda>x. \<not> re_space x) (v @ rest) = rest"
    using val rest by (cases rest) (simp_all add: dropWhile_append2 list_all_iff)
  ultimately show ?thesis using sep val by (simp add: reEnvSecret_def after_word_found [OF kw] del: dropWhile_eq_Nil_conv)
qed

text \<open>What is shown of a matched assignment.\<close>

definition shown :: "string \<Rightarrow> string \<Rightarrow> string \<Rightarrow> string" where
  "shown kept pad v =
     (if CHR ''='' \<in> set v then kept @ '':'' @ pad @ takeWhile (\<lambda>c. c \<noteq> CHR ''='') v @ ''=[REDACTED]'' else kept @ '':[REDACTED]'')"

lemma separators_no_space: "\<not> re_space CHR ''=''" "\<not> re_space CHR '':''"
  by (simp_all add: re_space_def)

lemma space_no_separator: "list_all re_space s \<Longrightarrow> CHR ''='' \<notin> set s \<and> CHR '':'' \<notin> set s"
  using separators_no_space unfolding list_all_iff by blast

lemma takeWhile_until: "x \<notin> set a \<Longrightarrow> takeWhile (\<lambda>c. c \<noteq> x) (a @ t) = a @ takeWhile (\<lambda>c. c \<noteq> x) t"
  by (induction a) auto

lemma hide_value_match:
  assumes kw: "list_all word_char kw" and gap: "list_all re_space gap" and pad: "list_all re_space pad"
  shows "hide_value (kw @ gap @ CHR ''='' # pad @ v) = kw @ gap @ ''=[REDACTED]''"
    and "hide_value (kw @ gap @ CHR '':'' # pad @ v) = shown (kw @ gap) pad v"
proof -
  have kw': "CHR ''='' \<notin> set kw" "CHR '':'' \<notin> set kw"
    using kw separators_outside_words unfolding list_all_iff by blast+
  note plain = kw' space_no_separator [OF gap] space_no_separator [OF pad]
  show "hide_value (kw @ gap @ CHR ''='' # pad @ v) = kw @ gap @ ''=[REDACTED]''"
    using plain by (simp add: hide_value_def takeWhile_until)
  show "hide_value (kw @ gap @ CHR '':'' # pad @ v) = shown (kw @ gap) pad v"
    using plain by (simp add: hide_value_def shown_def takeWhile_until)
qed

section \<open>Properties\<close>

definition assignment :: "string \<Rightarrow> string \<Rightarrow> string \<Rightarrow> char \<Rightarrow> string \<Rightarrow> string \<Rightarrow> string \<Rightarrow> string" where
  "assignment pre kw gap sep pad rest v = pre @ kw @ gap @ sep # pad @ v @ rest"

text \<open>A secret word, a separator and a value without white space, the first match of the text, and no private key block.\<close>

definition first_assignment :: "string \<Rightarrow> string \<Rightarrow> string \<Rightarrow> char \<Rightarrow> string \<Rightarrow> string \<Rightarrow> string \<Rightarrow> bool" where
  "first_assignment pre kw gap sep pad rest v \<longleftrightarrow>
     to_lower kw \<in> set secret_words \<and> list_all re_space gap \<and> (sep = CHR '':'' \<or> sep = CHR ''='') \<and> list_all re_space pad
     \<and> v \<noteq> [] \<and> list_all (\<lambda>c. \<not> re_space c) v \<and> (rest = [] \<or> re_space (hd rest))
     \<and> no_match_in reSSHKey (assignment pre kw gap sep pad rest v) []
     \<and> no_match_in reEnvSecret pre (kw @ gap @ sep # pad @ v @ rest)"

lemma Redact_assignment:
  assumes first: "first_assignment pre kw gap sep pad rest v"
  shows "Redact (assignment pre kw gap sep pad rest v) =
    pre @ (if sep = CHR ''='' then kw @ gap @ ''=[REDACTED]'' else shown (kw @ gap) pad v) @ replace_matches reEnvSecret hide_value rest"
proof -
  let ?m = "kw @ gap @ sep # pad @ v"
  have kw: "to_lower kw \<in> set secret_words" and sep: "sep = CHR '':'' \<or> sep = CHR ''=''" and spaces: "list_all re_space gap" "list_all re_space pad"
    and v: "v \<noteq> []" "list_all (\<lambda>c. \<not> re_space c) v" and rest: "rest = [] \<or> re_space (hd rest)"
    and ssh: "no_match_in reSSHKey (assignment pre kw gap sep pad rest v) []"
    and pre: "no_match_in reEnvSecret pre (?m @ rest)"
    using first by (auto simp: first_assignment_def)
  have "reEnvSecret (?m @ rest) = Some rest" using reEnvSecret_found [OF kw spaces(1) sep spaces(2) v rest] by simp
  then have "replace_matches reEnvSecret hide_value (pre @ ?m @ rest) = pre @ hide_value ?m @ replace_matches reEnvSecret hide_value rest"
    using replace_skips [OF pre] replace_at_match [of reEnvSecret ?m rest] by simp
  moreover have "hide_value ?m = (if sep = CHR ''='' then kw @ gap @ ''=[REDACTED]'' else shown (kw @ gap) pad v)"
    using sep hide_value_match [OF word_chars [OF kw] spaces] by auto
  ultimately show ?thesis using replace_none [OF ssh] by (simp add: Redact_def assignment_def)
qed

lemmas redact_eval = first_assignment_def assignment_def reSSHKey_def reEnvSecret_def after_line_def after_word_def key_kinds_def
  secret_words_def has_prefix_def to_lower_def to_lower_char_def re_space_def



text \<open>After a colon a value that contains an equals sign, as padded Base64 does, is shown up to that sign: the text is cut at the
  first equals sign of the match, which lies in the value.\<close>

theorem padded_secret_shown:
  assumes "first_assignment pre kw gap CHR '':'' pad rest (a @ CHR ''='' # b)" and "CHR ''='' \<notin> set a"
  shows "\<exists>x y. Redact (assignment pre kw gap CHR '':'' pad rest (a @ CHR ''='' # b)) = x @ a @ y"
proof -
  have "Redact (assignment pre kw gap CHR '':'' pad rest (a @ CHR ''='' # b)) =
      (pre @ kw @ gap @ '':'' @ pad) @ a @ ''=[REDACTED]'' @ replace_matches reEnvSecret hide_value rest"
    using Redact_assignment [OF assms(1)] assms(2) by (simp add: shown_def takeWhile_until)
  then show ?thesis by blast
qed

theorem padded_secret_shown_witness:
  "\<exists>x y. Redact (assignment [] ''token'' [] CHR '':'' '' '' [] (''c2VjcmV0'' @ CHR ''='' # ''='')) = x @ ''c2VjcmV0'' @ y"
proof (rule padded_secret_shown)
  show "first_assignment [] ''token'' [] CHR '':'' '' '' [] (''c2VjcmV0'' @ CHR ''='' # ''='')" by (simp add: redact_eval)
qed simp

end
