(* ===== verification/Operations.thy ===== *)
theory Operations
  imports Command_Exec Redaction Scope Canonical
begin

text \<open>
  The operations runner (\<open>internal/operations\<close>): a pending action of the backend is a script, a plan of handler steps, a
  playbook of shell commands or an Ansible playbook; it is executed for real or as a dry run, and its result names every step.

  What \<open>fmt.Sprint\<close> and \<open>json.Marshal\<close> write for a float, and the directory for temporary files, are parameters of the
  runner. A context's deadline has passed when a reading of the clock is not before it.
\<close>

section \<open>Data\<close>

record OperationsConfig =
  oc_allow_shell :: bool
  oc_allowlist :: "string list"

record HandlerResult =
  hx_status :: string
  hx_output :: string
  hx_changed :: bool
  hx_error :: "string option"

datatype Handler = serviceHandler string | pkgHandler string | httpCheckHandler | portCheckHandler | commandRunHandler

type_synonym Registry = "(string, Handler) gomap"

record PlanStep =
  pl_id :: string
  pl_action :: string
  pl_params :: jobj
  pl_on_failure :: string

record ActionPlan =
  ap_version :: string
  ap_steps :: "PlanStep list"
  ap_rollback :: "PlanStep list"

record OperationsPlaybookStep =
  os_id :: string
  os_command :: string
  os_timeout_seconds :: int64
  os_fail_action :: string

record OperationsPlaybook =
  pb_steps :: "OperationsPlaybookStep list"
  pb_verification_command :: string
  pb_rollback_steps :: "OperationsPlaybookStep list"

record AnsiblePlaybook =
  an_content :: string
  an_inventory :: string
  an_extra_vars :: "jobj option"

record PendingAction =
  pa_run_id :: string
  pa_action_name :: string
  pa_action_type :: string
  pa_timeout_seconds :: int64
  pa_execution_mode :: string
  pa_parameters :: jobj
  pa_enable_rollback :: bool
  pa_script_content :: string
  pa_rollback_script :: string
  pa_action_plan :: "ActionPlan option"
  pa_playbook :: "OperationsPlaybook option"
  pa_ansible_playbook :: "AnsiblePlaybook option"

record OperationsStepResult =
  sr_step_id :: string
  sr_action :: string
  sr_status :: string
  sr_output :: string
  sr_error :: string
  sr_started_at :: int
  sr_finished_at :: int
  sr_changed :: bool

record OperationsAgentResult =
  ar_run_id :: string
  ar_server_id :: string
  ar_status :: string
  ar_step_results :: "OperationsStepResult list"
  ar_output :: string
  ar_error :: string
  ar_started_at :: int
  ar_finished_at :: int

record operations_runner =
  or_exec :: Executor
  or_cfg :: "OperationsConfig option"
  or_reg :: Registry
  or_sprint_float :: "int \<Rightarrow> nat \<Rightarrow> string"
  or_json_float :: "int \<Rightarrow> nat \<Rightarrow> string"
  or_temp_dir :: string

definition ExecutionModeLive :: string where
  "ExecutionModeLive = ''live''"

definition ExecutionModeDryRun :: string where
  "ExecutionModeDryRun = ''dry_run''"

definition IsDryRun :: "string \<Rightarrow> bool" where
  "IsDryRun m \<longleftrightarrow> m = ExecutionModeDryRun"

section \<open>Text of values\<close>

text \<open>\<open>fmt.Sprint\<close>; maps are printed in key order.\<close>

primrec sprint :: "(int \<Rightarrow> nat \<Rightarrow> string) \<Rightarrow> jval \<Rightarrow> string" where
  "sprint ffmt JNull = ''<nil>''"
| "sprint ffmt (JBool b) = (if b then ''true'' else ''false'')"
| "sprint ffmt (JFloat m k) = ffmt m k"
| "sprint ffmt (JNumber t) = t"
| "sprint ffmt (JInt i) = int_str i"
| "sprint ffmt (JStr s) = s"
| "sprint ffmt (JArr vs) = CHR ''['' # join_with '' '' (map (sprint ffmt) vs) @ '']''"
| "sprint ffmt (JObj kvs) =
     ''map['' @ join_with '' '' (map (\<lambda>(k, s). k @ CHR '':'' # s) (sort_key fst (map (map_prod id (sprint ffmt)) kvs))) @ '']''"

text \<open>\<open>fmt.Sprint(params[key])\<close>: a missing key reads as nil.\<close>

definition param_text :: "operations_runner \<Rightarrow> jobj \<Rightarrow> string \<Rightarrow> string" where
  "param_text r params key = sprint (or_sprint_float r) (case map_of params key of None \<Rightarrow> JNull | Some v \<Rightarrow> v)"

definition html_escape :: "char \<Rightarrow> string" where
  "html_escape c =
     (if c = CHR ''<'' then CHR 0x5C # ''u003c'' else if c = CHR ''>'' then CHR 0x5C # ''u003e''
      else if c = CHR ''&'' then CHR 0x5C # ''u0026'' else [c])"

text \<open>\<open>json.Marshal\<close>: the sorted encoding with the three HTML characters escaped; they occur in strings only.\<close>

definition marshal_json :: "(int \<Rightarrow> nat \<Rightarrow> string) \<Rightarrow> jval \<Rightarrow> string" where
  "marshal_json ffmt v = concat (map html_escape (CanonicalJSON ffmt v))"

definition substituteParams :: "operations_runner \<Rightarrow> string \<Rightarrow> jobj \<Rightarrow> string" where
  "substituteParams r s params =
     foldl (\<lambda>out (k, v). ReplaceAll out (''{{'' @ k @ ''}}'') (sprint (or_sprint_float r) v)) s params"

fun parse_digits :: "int64 \<Rightarrow> string \<Rightarrow> int64 option" where
  "parse_digits n [] = Some n"
| "parse_digits n (c # cs) = (if is_digit c then parse_digits (wrap64 (wrap64 (n * 10) + digit_val c)) cs else None)"

definition parseInt :: "string \<Rightarrow> int64 option" where
  "parseInt s =
     (if s \<noteq> [] \<and> hd s = CHR ''-'' then map_option (\<lambda>n. wrap64 (- n)) (parse_digits 0 (tl s)) else parse_digits 0 s)"

section \<open>Handlers\<close>

definition failed_with :: "string \<Rightarrow> HandlerResult" where
  "failed_with e = \<lparr>hx_status = ''failed'', hx_output = [], hx_changed = False, hx_error = Some e\<rparr>"

definition planned :: "string \<Rightarrow> HandlerResult" where
  "planned what = \<lparr>hx_status = ''success'', hx_output = ''[DRY RUN] '' @ what, hx_changed = False, hx_error = None\<rparr>"

text \<open>The end of a handler that ran a command: whether a failure and a success count as a change differs.\<close>

definition command_result :: "bool \<Rightarrow> bool \<Rightarrow> ExecResult \<times> string option \<Rightarrow> HandlerResult" where
  "command_result changed_on_error changed_on_success r =
     (case r of (res, err) \<Rightarrow>
        \<lparr>hx_status = (if err = None then ''success'' else ''failed''), hx_output = Redact (er_output res),
          hx_changed = (if err = None then changed_on_success else changed_on_error), hx_error = err\<rparr>)"

definition unit_name :: "string \<Rightarrow> string" where
  "unit_name name = (if has_suffix name ''.service'' then name else name @ ''.service'')"

definition service_execute :: "operations_runner \<Rightarrow> string \<Rightarrow> jobj \<Rightarrow> string \<Rightarrow> HandlerResult cmd" where
  "service_execute r action params mode =
     (let name = trim_space (param_text r params ''name'') in
      if name = [] then return (failed_with ''missing param: name'')
      else let args = [action, unit_name name, ''--no-pager''] in
        if IsDryRun mode then return (planned (format_command (or_exec r) ''systemctl'' args))
        else do {
          res \<leftarrow> step_run (or_exec r) ''systemctl'' args (seconds64 30);
          return (command_result False (action \<noteq> ''status'') res) })"

definition package_args :: "string \<Rightarrow> string \<Rightarrow> string + string list" where
  "package_args action name =
     (if action = ''install'' then (if name = [] then Inl ''missing param: name'' else Inr [''install'', ''-y'', name])
      else if action = ''remove'' then (if name = [] then Inl ''missing param: name'' else Inr [''remove'', ''-y'', name])
      else if action = ''upgrade'' then Inr (if name = [] then [''upgrade'', ''-y''] else [''install'', ''-y'', ''--only-upgrade'', name])
      else Inl (''unknown package op: '' @ action))"

definition package_execute :: "operations_runner \<Rightarrow> string \<Rightarrow> jobj \<Rightarrow> string \<Rightarrow> HandlerResult cmd" where
  "package_execute r action params mode =
     (case package_args action (trim_space (param_text r params ''name'')) of
        Inl e \<Rightarrow> return (failed_with e)
      | Inr args \<Rightarrow>
          if IsDryRun mode then return (planned (format_command (or_exec r) ''apt-get'' args))
          else do {
            res \<leftarrow> step_run (or_exec r) ''apt-get'' args (seconds64 600);
            return (command_result False True res) })"

text \<open>An optional integer parameter read by \<open>strconv.Atoi\<close>.\<close>

definition int_param :: "operations_runner \<Rightarrow> jobj \<Rightarrow> string \<Rightarrow> int64 option" where
  "int_param r params key = (case map_of params key of None \<Rightarrow> None | Some v \<Rightarrow> parse_int64 (sprint (or_sprint_float r) v))"

definition probe_failed :: "string \<Rightarrow> HandlerResult" where
  "probe_failed e = \<lparr>hx_status = ''failed'', hx_output = e, hx_changed = False, hx_error = Some e\<rparr>"

definition probe_passed :: "string \<Rightarrow> HandlerResult" where
  "probe_passed s = \<lparr>hx_status = ''success'', hx_output = s, hx_changed = False, hx_error = None\<rparr>"

definition http_check_execute :: "operations_runner \<Rightarrow> jobj \<Rightarrow> string \<Rightarrow> HandlerResult cmd" where
  "http_check_execute r params mode =
     (let url = trim_space (param_text r params ''url'') in
      if url = [] then return (failed_with ''missing param: url'')
      else let wanted = (case int_param r params ''expect_status'' of None \<Rightarrow> 200 | Some n \<Rightarrow> n);
               timeout = (case int_param r params ''timeout'' of None \<Rightarrow> seconds64 10 | Some n \<Rightarrow> seconds64 n) in
        if IsDryRun mode then return (planned (''http.check '' @ url @ '' expect='' @ int_str wanted))
        else do {
          answer \<leftarrow> HTTPGet url timeout;
          return (case answer of
              Inl e \<Rightarrow> probe_failed e
            | Inr x \<Rightarrow>
                if hr_status x \<noteq> wanted
                then probe_failed (''unexpected status: got='' @ int_str (hr_status x) @ '' want='' @ int_str wanted)
                else probe_passed (''ok status='' @ int_str (hr_status x) @ '' latency_ms='' @ int_str (hr_latency x))) })"

definition port_check_execute :: "operations_runner \<Rightarrow> jobj \<Rightarrow> string \<Rightarrow> HandlerResult cmd" where
  "port_check_execute r params mode =
     (let host0 = trim_space (param_text r params ''host'');
          host = (if host0 = [] then ''localhost'' else host0);
          portStr = trim_space (param_text r params ''port'') in
      if portStr = [] then return (failed_with ''missing param: port'')
      else case parse_int64 portStr of
          None \<Rightarrow> return (failed_with ''invalid port'')
        | Some port \<Rightarrow>
            let timeout = (case int_param r params ''timeout'' of None \<Rightarrow> seconds64 5 | Some n \<Rightarrow> seconds64 n) in
            if IsDryRun mode then return (planned (''port.check '' @ host @ '':'' @ int_str port))
            else do {
              answer \<leftarrow> PortOpen host port timeout;
              return (case answer of
                  Inl e \<Rightarrow> probe_failed e
                | Inr (is_open, lat) \<Rightarrow>
                    if is_open then probe_passed (''open latency_ms='' @ int_str lat) else probe_failed ''port closed'') })"

definition resolveExe :: "string \<Rightarrow> string" where
  "resolveExe exe = (if contains_str exe ''/'' then clean exe else exe)"

definition allows :: "string \<Rightarrow> string \<Rightarrow> bool" where
  "allows exe entry \<longleftrightarrow>
     (let allowed = trim_space entry in
      allowed \<noteq> [] \<and>
      (exe = allowed \<or> \<not> contains_str allowed ''/'' \<and> exe = allowed \<or> \<not> contains_str allowed ''/'' \<and> base_name exe = allowed))"

definition isAllowedExe :: "OperationsConfig option \<Rightarrow> string \<Rightarrow> bool" where
  "isAllowedExe cfg exe \<longleftrightarrow>
     (case cfg of None \<Rightarrow> True | Some c \<Rightarrow> oc_allowlist c = [] \<or> list_ex (allows exe) (oc_allowlist c))"

definition is_shell :: "string \<Rightarrow> bool" where
  "is_shell s \<longleftrightarrow> s = ''true'' \<or> s = ''1'' \<or> s = ''yes''"

definition command_timeout :: "operations_runner \<Rightarrow> jobj \<Rightarrow> int64" where
  "command_timeout r params =
     (case map_of params ''timeout_seconds'' of
        None \<Rightarrow> seconds64 30
      | Some v \<Rightarrow> (case parseInt (sprint (or_sprint_float r) v) of
          Some n \<Rightarrow> if 0 < n then seconds64 n else seconds64 30
        | None \<Rightarrow> seconds64 30))"

definition shell_execute :: "operations_runner \<Rightarrow> string \<Rightarrow> int64 \<Rightarrow> string \<Rightarrow> HandlerResult cmd" where
  "shell_execute r command timeout mode =
     (if \<not> (case or_cfg r of None \<Rightarrow> False | Some c \<Rightarrow> oc_allow_shell c)
      then return (failed_with ''shell mode disabled (operations.allow_shell=false)'')
      else if command = [] then return (failed_with ''missing param: cmd'')
      else if IsDryRun mode then return (planned (''/bin/bash -lc '' @ command))
      else do {
        res \<leftarrow> step_run (or_exec r) ''/bin/bash'' [''-lc'', command] timeout;
        return (command_result False True res) })"

definition command_run_execute :: "operations_runner \<Rightarrow> jobj \<Rightarrow> string \<Rightarrow> HandlerResult cmd" where
  "command_run_execute r params mode =
     (let exe = trim_space (param_text r params ''exe'');
          command = trim_space (param_text r params ''cmd'');
          shell = to_lower (trim_space (param_text r params ''shell''));
          timeout = command_timeout r params in
      if is_shell shell then shell_execute r command timeout mode
      else if exe = [] then return (failed_with ''missing param: exe'')
      else let exe = resolveExe exe in
        if \<not> isAllowedExe (or_cfg r) exe then return (failed_with (''exe not allowed: '' @ exe))
        else let args = map (sprint (or_sprint_float r)) (case map_of params ''args'' of Some (JArr vs) \<Rightarrow> vs | _ \<Rightarrow> []) in
          if IsDryRun mode then return (planned (exe @ '' '' @ join_with '' '' args))
          else do {
            res \<leftarrow> step_run (or_exec r) exe args timeout;
            return (command_result True True res) })"

fun handler_ID :: "Handler \<Rightarrow> string" where
  "handler_ID (serviceHandler action) = ''service.'' @ action"
| "handler_ID (pkgHandler action) = ''package.'' @ action"
| "handler_ID httpCheckHandler = ''http.check''"
| "handler_ID portCheckHandler = ''port.check''"
| "handler_ID commandRunHandler = ''command.run''"

fun execute_handler :: "operations_runner \<Rightarrow> Handler \<Rightarrow> jobj \<Rightarrow> string \<Rightarrow> HandlerResult cmd" where
  "execute_handler r (serviceHandler action) params mode = service_execute r action params mode"
| "execute_handler r (pkgHandler action) params mode = package_execute r action params mode"
| "execute_handler r httpCheckHandler params mode = http_check_execute r params mode"
| "execute_handler r portCheckHandler params mode = port_check_execute r params mode"
| "execute_handler r commandRunHandler params mode = command_run_execute r params mode"

section \<open>The registry\<close>

definition NewRegistry :: "Handler list \<Rightarrow> Registry" where
  "NewRegistry handlers = foldl (\<lambda>m h. go_put (handler_ID h) h m) [] handlers"

definition Registry_IDs :: "Registry \<Rightarrow> string list" where
  "Registry_IDs reg = map fst reg"

definition Registry_Get :: "Registry \<Rightarrow> string \<Rightarrow> Handler option" where
  "Registry_Get reg key = map_of reg key"

definition ServiceHandlers :: "Handler list" where
  "ServiceHandlers = map serviceHandler [''start'', ''stop'', ''restart'', ''reload'', ''enable'', ''disable'', ''status'']"

definition PackageHandlers :: "Handler list" where
  "PackageHandlers = map pkgHandler [''install'', ''remove'', ''upgrade'']"

definition CheckHandlers :: "Handler list" where
  "CheckHandlers = [httpCheckHandler, portCheckHandler]"

definition CommandHandlers :: "Handler list" where
  "CommandHandlers = [commandRunHandler]"

definition DefaultRegistry :: Registry where
  "DefaultRegistry = NewRegistry (ServiceHandlers @ PackageHandlers @ CheckHandlers @ CommandHandlers)"

end
