(* ===== verification/Operations_Runner.thy ===== *)
theory Operations_Runner
  imports Operations
begin

text \<open>
  The runner of \<open>internal/operations/runner.go\<close>: the four kinds of actions, their failure policies and rollbacks. The result and
  the output buffer the Go code mutates are passed along as a pair.
\<close>

type_synonym progress = "OperationsAgentResult \<times> string"

section \<open>Scripts\<close>

definition step_result :: "string \<Rightarrow> string \<Rightarrow> string \<Rightarrow> string \<Rightarrow> string \<Rightarrow> int \<Rightarrow> int \<Rightarrow> bool \<Rightarrow> OperationsStepResult" where
  "step_result sid action status output err started finished changed =
     \<lparr>sr_step_id = sid, sr_action = action, sr_status = status, sr_output = output, sr_error = err,
       sr_started_at = started, sr_finished_at = finished, sr_changed = changed\<rparr>"

definition err_text :: "string option \<Rightarrow> string" where
  "err_text e = (case e of None \<Rightarrow> [] | Some s \<Rightarrow> s)"

definition temp_file :: "operations_runner \<Rightarrow> string \<Rightarrow> string" where
  "temp_file r name = path_join (or_temp_dir r) name"

definition script_rollback :: "operations_runner \<Rightarrow> PendingAction \<Rightarrow> string \<Rightarrow> string cmd" where
  "script_rollback r a out =
     (if pa_enable_rollback a \<and> trim_space (pa_rollback_script a) \<noteq> []
      then do {
        let rollback = substituteParams r (pa_rollback_script a) (pa_parameters a);
        let rbFile = temp_file r (''askio-action-'' @ pa_run_id a @ ''-rollback.sh'');
        _ \<leftarrow> write_file rbFile rollback;
        (rbRes, rbErr) \<leftarrow> run_command (or_exec r) ''/bin/bash'' [rbFile] 300;
        return (out @ ''rollback_output:'' @ [CHR 0x0A] @ Redact (er_output rbRes) @ [CHR 0x0A]
          @ (case rbErr of None \<Rightarrow> [] | Some e \<Rightarrow> ''rollback_error: '' @ e @ [CHR 0x0A])) }
      else return out)"

definition execScript :: "operations_runner \<Rightarrow> PendingAction \<Rightarrow> string \<Rightarrow> progress \<Rightarrow> progress cmd" where
  "execScript r a mode p = (case p of (res, out) \<Rightarrow>
     if trim_space (pa_script_content a) = [] then return (res\<lparr>ar_error := ''script_content is required''\<rparr>, out)
     else let script = substituteParams r (pa_script_content a) (pa_parameters a) in
       if IsDryRun mode then do {
         started \<leftarrow> clock_now;
         finished \<leftarrow> clock_now;
         return (res\<lparr>ar_status := ''success'', ar_step_results := [step_result ''script'' ''script'' ''success''
           (''[DRY RUN]'' @ [CHR 0x0A] @ script) [] started finished False]\<rparr>, out) }
       else do {
         let script_file = temp_file r (''askio-action-'' @ pa_run_id a @ ''.sh'');
         _ \<leftarrow> write_file script_file script;
         stepStart \<leftarrow> clock_now;
         now \<leftarrow> clock_now;
         (exRes, err) \<leftarrow> run_command (or_exec r) ''/bin/bash'' [script_file] (whole_seconds (stepStart + seconds64 300 - now));
         stepEnd \<leftarrow> clock_now;
         let step = step_result ''script'' ''script'' (if err = None then ''success'' else ''failed'') (Redact (er_output exRes)) (err_text err)
           stepStart stepEnd (err = None);
         let res = res\<lparr>ar_step_results := ar_step_results res @ [step]\<rparr>;
         case err of
           None \<Rightarrow> return (res\<lparr>ar_status := ''success''\<rparr>, out)
         | Some e \<Rightarrow> do {
             out \<leftarrow> script_rollback r a out;
             return (res\<lparr>ar_status := ''failed'', ar_error := e\<rparr>, out) } })"

section \<open>Plans\<close>

record plan_state =
  pn_results :: "OperationsStepResult list"
  pn_overall :: string
  pn_first_err :: string

definition first_error :: "string \<Rightarrow> string \<Rightarrow> string" where
  "first_error old new = (if old = [] then new else old)"

text \<open>One iteration of the loop over the steps; the boolean is the \<open>break\<close>.\<close>

definition plan_step :: "operations_runner \<Rightarrow> string \<Rightarrow> PlanStep \<Rightarrow> plan_state \<Rightarrow> (plan_state \<times> bool) cmd" where
  "plan_step r mode s acc = do {
     stepStart \<leftarrow> clock_now;
     let abort = (to_lower (pl_on_failure s) = ''abort'');
     case Registry_Get (or_reg r) (pl_action s) of
       None \<Rightarrow> do {
         finished \<leftarrow> clock_now;
         let err = ''Unknown handler: '' @ pl_action s;
         return (\<lparr>pn_results = pn_results acc @ [step_result (pl_id s) (pl_action s) ''failed'' [] err stepStart finished False],
           pn_overall = ''failed'', pn_first_err = first_error (pn_first_err acc) err\<rparr>, abort) }
     | Some h \<Rightarrow> do {
         hr \<leftarrow> execute_handler r h (pl_params s) mode;
         finished \<leftarrow> clock_now;
         let err = err_text (hx_error hr);
         let acc = acc\<lparr>pn_results := pn_results acc @
           [step_result (pl_id s) (pl_action s) (hx_status hr) (hx_output hr) err stepStart finished (hx_changed hr)]\<rparr>;
         return (if hx_status hr = ''failed''
           then (acc\<lparr>pn_overall := (if to_lower (pl_on_failure s) = ''warn'' then ''partial'' else ''failed''),
             pn_first_err := first_error (pn_first_err acc) err\<rparr>, abort)
           else (acc, False)) } }"

primrec plan_steps :: "operations_runner \<Rightarrow> string \<Rightarrow> PlanStep list \<Rightarrow> plan_state \<Rightarrow> plan_state cmd" where
  "plan_steps r mode [] acc = return acc"
| "plan_steps r mode (s # ss) acc = do {
     (acc, stop) \<leftarrow> plan_step r mode s acc;
     if stop then return acc else plan_steps r mode ss acc }"

primrec plan_rollback :: "operations_runner \<Rightarrow> string \<Rightarrow> PlanStep list \<Rightarrow> string \<Rightarrow> string cmd" where
  "plan_rollback r mode [] out = return out"
| "plan_rollback r mode (rb # rbs) out = do {
     let out = out @ ''- '' @ pl_action rb @ [CHR 0x0A];
     out \<leftarrow> (if IsDryRun mode then return out
       else case Registry_Get (or_reg r) (pl_action rb) of
           None \<Rightarrow> return (out @ ''  rollback handler missing'' @ [CHR 0x0A])
         | Some h \<Rightarrow> do {
             hr \<leftarrow> execute_handler r h (pl_params rb) mode;
             return (case hx_error hr of None \<Rightarrow> out | Some e \<Rightarrow> out @ ''  rollback error: '' @ e @ [CHR 0x0A]) });
     plan_rollback r mode rbs out }"

definition execPlan :: "operations_runner \<Rightarrow> PendingAction \<Rightarrow> string \<Rightarrow> progress \<Rightarrow> progress cmd" where
  "execPlan r a mode p = (case p of (res, out) \<Rightarrow>
     case pa_action_plan a of
       None \<Rightarrow> return (res\<lparr>ar_error := ''action_plan is required''\<rparr>, out)
     | Some plan \<Rightarrow> do {
         acc \<leftarrow> plan_steps r mode (ap_steps plan) \<lparr>pn_results = [], pn_overall = ''success'', pn_first_err = []\<rparr>;
         let res = res\<lparr>ar_step_results := pn_results acc, ar_status := pn_overall acc, ar_error := pn_first_err acc\<rparr>;
         if pn_overall acc = ''failed'' \<and> pa_enable_rollback a \<and> ap_rollback plan \<noteq> []
         then do {
           out \<leftarrow> plan_rollback r mode (rev (ap_rollback plan)) (out @ ''rollback:'' @ [CHR 0x0A]);
           return (res, out) }
         else return (res, out) })"

section \<open>Playbooks\<close>

definition shell_line :: "operations_runner \<Rightarrow> string \<Rightarrow> int64 \<Rightarrow> (ExecResult \<times> string option) cmd" where
  "shell_line r command timeout = step_run (or_exec r) ''/bin/bash'' [''-lc'', command] timeout"

definition playbook_step :: "operations_runner \<Rightarrow> string \<Rightarrow> nat \<Rightarrow> OperationsPlaybookStep \<Rightarrow> plan_state \<Rightarrow> (plan_state \<times> bool) cmd" where
  "playbook_step r mode idx s acc = do {
     let sid = (if os_id s = [] then ''step_'' @ nat_str (idx + 1) else os_id s);
     stepStart \<leftarrow> clock_now;
     if IsDryRun mode then do {
       finished \<leftarrow> clock_now;
       return (acc\<lparr>pn_results := pn_results acc @
         [step_result sid ''command.run'' ''success'' (''[DRY RUN] '' @ os_command s) [] stepStart finished False]\<rparr>, False) }
     else do {
       let tm = seconds64 (os_timeout_seconds s);
       (exRes, err) \<leftarrow> shell_line r (os_command s) (if tm \<le> 0 then seconds64 30 else tm);
       finished \<leftarrow> clock_now;
       let acc = acc\<lparr>pn_results := pn_results acc @
         [step_result sid ''command.run'' (if err = None then ''success'' else ''failed'') (Redact (er_output exRes)) (err_text err)
            stepStart finished (err = None)]\<rparr>;
       return (if err = None then (acc, False)
         else (acc\<lparr>pn_overall := ''failed'', pn_first_err := first_error (pn_first_err acc) (err_text err)\<rparr>,
           to_lower (os_fail_action s) \<noteq> ''continue'')) } }"

primrec playbook_steps :: "operations_runner \<Rightarrow> string \<Rightarrow> nat \<Rightarrow> OperationsPlaybookStep list \<Rightarrow> plan_state \<Rightarrow> plan_state cmd" where
  "playbook_steps r mode idx [] acc = return acc"
| "playbook_steps r mode idx (s # ss) acc = do {
     (acc, stop) \<leftarrow> playbook_step r mode idx s acc;
     if stop then return acc else playbook_steps r mode (Suc idx) ss acc }"

definition playbook_verify :: "operations_runner \<Rightarrow> string \<Rightarrow> string \<Rightarrow> plan_state \<Rightarrow> plan_state cmd" where
  "playbook_verify r mode command acc =
     (if pn_overall acc = ''success'' \<and> trim_space command \<noteq> []
      then do {
        started \<leftarrow> clock_now;
        if IsDryRun mode then do {
          finished \<leftarrow> clock_now;
          return (acc\<lparr>pn_results := pn_results acc @
            [step_result ''verify'' ''command.run'' ''success'' (''[DRY RUN] '' @ command) [] started finished False]\<rparr>) }
        else do {
          (exRes, err) \<leftarrow> shell_line r command (seconds64 30);
          finished \<leftarrow> clock_now;
          let acc = acc\<lparr>pn_results := pn_results acc @
            [step_result ''verify'' ''command.run'' (if err = None then ''success'' else ''failed'') (Redact (er_output exRes)) (err_text err)
               started finished False]\<rparr>;
          return (if err = None then acc
            else acc\<lparr>pn_overall := ''failed'', pn_first_err := first_error (pn_first_err acc) (err_text err)\<rparr>) } }
      else return acc)"

primrec playbook_rollback :: "operations_runner \<Rightarrow> string \<Rightarrow> OperationsPlaybookStep list \<Rightarrow> string \<Rightarrow> string cmd" where
  "playbook_rollback r mode [] out = return out"
| "playbook_rollback r mode (rb # rbs) out = do {
     _ \<leftarrow> (if IsDryRun mode then return ()
       else do { _ \<leftarrow> shell_line r (os_command rb) (seconds64 30); return () });
     playbook_rollback r mode rbs (out @ ''- '' @ os_command rb @ [CHR 0x0A]) }"

definition execPlaybook :: "operations_runner \<Rightarrow> PendingAction \<Rightarrow> string \<Rightarrow> progress \<Rightarrow> progress cmd" where
  "execPlaybook r a mode p = (case p of (res, out) \<Rightarrow>
     case pa_playbook a of
       None \<Rightarrow> return (res\<lparr>ar_error := ''playbook is required''\<rparr>, out)
     | Some pb \<Rightarrow> do {
         acc \<leftarrow> playbook_steps r mode 0 (pb_steps pb) \<lparr>pn_results = [], pn_overall = ''success'', pn_first_err = []\<rparr>;
         acc \<leftarrow> playbook_verify r mode (pb_verification_command pb) acc;
         let res = res\<lparr>ar_step_results := pn_results acc, ar_status := pn_overall acc, ar_error := pn_first_err acc\<rparr>;
         if pn_overall acc = ''failed'' \<and> pa_enable_rollback a \<and> pb_rollback_steps pb \<noteq> []
         then do {
           out \<leftarrow> playbook_rollback r mode (pb_rollback_steps pb) (out @ ''rollback:'' @ [CHR 0x0A]);
           return (res, out) }
         else return (res, out) })"

section \<open>Ansible\<close>

definition inventory_file :: "operations_runner \<Rightarrow> PendingAction \<Rightarrow> string" where
  "inventory_file r a = temp_file r (''askio-inv-'' @ pa_run_id a)"

definition inventory_args :: "operations_runner \<Rightarrow> PendingAction \<Rightarrow> string \<Rightarrow> string list cmd" where
  "inventory_args r a inven =
     (if inven \<noteq> [] then do {
        _ \<leftarrow> write_file (inventory_file r a) inven;
        return [''-i'', inventory_file r a] }
      else return [''-i'', ''localhost,'', ''-c'', ''local''])"

definition ansible_live :: "operations_runner \<Rightarrow> PendingAction \<Rightarrow> AnsiblePlaybook \<Rightarrow> string \<Rightarrow> string list \<Rightarrow> progress \<Rightarrow> progress cmd" where
  "ansible_live r a an playbookFile args p = (case p of (res, out) \<Rightarrow> do {
     _ \<leftarrow> write_file playbookFile (an_content an);
     stepStart \<leftarrow> clock_now;
     let tm = seconds64 (pa_timeout_seconds a);
     let stepTimeout = (if tm \<le> 0 then seconds64 300 else tm);
     now \<leftarrow> clock_now;
     (exRes, exErr) \<leftarrow> run_command (or_exec r) ''ansible-playbook'' args (whole_seconds (stepStart + stepTimeout - now));
     stepEnd \<leftarrow> clock_now;
     let step = step_result ''ansible'' ''ansible'' (if exErr = None then ''success'' else ''failed'') (Redact (er_output exRes))
       (err_text exErr) stepStart stepEnd (exErr = None);
     let res = res\<lparr>ar_step_results := ar_step_results res @ [step]\<rparr>;
     return (case exErr of
         None \<Rightarrow> (res\<lparr>ar_status := ''success''\<rparr>, out)
       | Some e \<Rightarrow> (res\<lparr>ar_status := ''failed'', ar_error := e\<rparr>, out)) })"

definition execAnsible :: "operations_runner \<Rightarrow> PendingAction \<Rightarrow> string \<Rightarrow> progress \<Rightarrow> progress cmd" where
  "execAnsible r a mode p = (case p of (res, out) \<Rightarrow>
     case pa_ansible_playbook a of
       None \<Rightarrow> return (res\<lparr>ar_error := ''ansible_playbook is required''\<rparr>, out)
     | Some an \<Rightarrow>
         if trim_space (an_content an) = [] then return (res\<lparr>ar_error := ''ansible_playbook.content is required''\<rparr>, out)
         else do {
           let extraJSON = marshal_json (or_json_float r) (case an_extra_vars an of None \<Rightarrow> JNull | Some m \<Rightarrow> JObj m);
           let playbookFile = temp_file r (''askio-action-'' @ pa_run_id a @ ''.yml'');
           inven \<leftarrow> inventory_args r a (trim_space (an_inventory an));
           let args = [playbookFile] @ inven @ [''--extra-vars'', extraJSON];
           if IsDryRun mode then do {
             started \<leftarrow> clock_now;
             finished \<leftarrow> clock_now;
             return (res\<lparr>ar_status := ''success'', ar_step_results := [step_result ''ansible'' ''ansible'' ''success''
               (''[DRY RUN] ansible-playbook '' @ join_with '' '' (args @ [''--check''])) [] started finished False]\<rparr>, out) }
           else ansible_live r a an playbookFile args (res, out) })"

section \<open>Execute\<close>

definition action_mode :: "PendingAction \<Rightarrow> string" where
  "action_mode a =
     (if pa_execution_mode a = ExecutionModeLive \<or> pa_execution_mode a = ExecutionModeDryRun then pa_execution_mode a else ExecutionModeLive)"

definition action_timeout :: "PendingAction \<Rightarrow> int64" where
  "action_timeout a = (let t = seconds64 (pa_timeout_seconds a) in if t \<le> 0 then seconds64 300 else t)"

definition action_head :: "PendingAction \<Rightarrow> string" where
  "action_head a =
     ''action='' @ pa_action_name a @ '' type='' @ pa_action_type a @ '' mode='' @ action_mode a @ [CHR 0x0A]
     @ (if IsDryRun (action_mode a) then ''[DRY RUN] no commands will be executed'' @ [CHR 0x0A] else [])"

definition finish_action :: "OperationsAgentResult \<Rightarrow> string \<Rightarrow> OperationsAgentResult cmd" where
  "finish_action res out = do {
     finished \<leftarrow> clock_now;
     return (res\<lparr>ar_finished_at := finished, ar_output := out\<rparr>) }"

definition exec_action :: "operations_runner \<Rightarrow> PendingAction \<Rightarrow> (string \<Rightarrow> progress \<Rightarrow> progress cmd) option" where
  "exec_action r a =
     (if pa_action_type a = ''script'' then Some (execScript r a)
      else if pa_action_type a = ''plan'' then Some (execPlan r a)
      else if pa_action_type a = ''playbook'' then Some (execPlaybook r a)
      else if pa_action_type a = ''ansible'' then Some (execAnsible r a)
      else None)"

definition Execute :: "operations_runner \<Rightarrow> string \<Rightarrow> PendingAction \<Rightarrow> OperationsAgentResult cmd" where
  "Execute r serverID a = do {
     started \<leftarrow> clock_now;
     let res = \<lparr>ar_run_id = pa_run_id a, ar_server_id = serverID, ar_status = ''failed'', ar_step_results = [], ar_output = [],
       ar_error = [], ar_started_at = started, ar_finished_at = 0\<rparr>;
     let timeout = action_timeout a;
     begun \<leftarrow> clock_now;
     case exec_action r a of
       None \<Rightarrow> finish_action (res\<lparr>ar_error := ''unknown action_type: '' @ pa_action_type a\<rparr>) (action_head a)
     | Some body \<Rightarrow> do {
         (res, out) \<leftarrow> body (action_mode a) (res, action_head a);
         now \<leftarrow> clock_now;
         let res = (if begun + timeout \<le> now
           then res\<lparr>ar_status := ''failed'',
             ar_error := ''Execution timed out after '' @ int_str (whole_seconds timeout) @ '' seconds''\<rparr>
           else res);
         finish_action res out } }"

end
