(* ===== verification/Call_Logic.thy ===== *)
theory Call_Logic
  imports Command_Exec
begin

text \<open>
  What a computation asks of the operating system. \<open>emits S m\<close>: every call \<open>m\<close> adds to the trace satisfies \<open>S\<close>, and \<open>yields m Q\<close>:
  every result satisfies \<open>Q\<close>, both whatever the environment does. The rules of \<open>call_intros\<close> follow the structure of the code.

  The locale \<open>command_policy\<close> is the contract between an executor and a client that only runs permitted commands: the client
  gives the predicate, the executor's ways of running a command become the predicate on calls.
\<close>

named_theorems call_intros "rules for the calls of computations"

definition emits :: "(host_call \<Rightarrow> bool) \<Rightarrow> 'a cmd \<Rightarrow> bool" where
  "emits S m \<longleftrightarrow> (\<forall>h x h'. run_state m h = (x, h') \<longrightarrow> (\<exists>cs. ch_calls h' = ch_calls h @ cs \<and> list_all S cs))"

definition yields :: "'a cmd \<Rightarrow> ('a \<Rightarrow> bool) \<Rightarrow> bool" where
  "yields m Q \<longleftrightarrow> (\<forall>h x h'. run_state m h = (x, h') \<longrightarrow> Q x)"

lemma emitsD: "emits S m \<Longrightarrow> run_state m h = (x, h') \<Longrightarrow> \<exists>cs. ch_calls h' = ch_calls h @ cs \<and> list_all S cs"
  by (simp add: emits_def)

lemma yieldsD: "yields m Q \<Longrightarrow> run_state m h = (x, h') \<Longrightarrow> Q x"
  unfolding yields_def by blast

section \<open>Structure\<close>

lemma emits_return [call_intros]: "emits S (return x)"
  by (simp add: emits_def)

lemma emits_bind_yields:
  assumes m: "emits S m" "yields m Q" and k: "\<And>x. Q x \<Longrightarrow> emits S (k x)"
  shows "emits S (State_Monad.bind m k)"
  unfolding emits_def
proof (intro allI impI)
  fix h y h' assume run: "run_state (State_Monad.bind m k) h = (y, h')"
  obtain x g where first: "run_state m h = (x, g)" by fastforce
  with run have second: "run_state (k x) g = (y, h')" by simp
  obtain cs where cs: "ch_calls g = ch_calls h @ cs" "list_all S cs" using emitsD [OF m(1) first] by blast
  obtain ds where ds: "ch_calls h' = ch_calls g @ ds" "list_all S ds"
    using emitsD [OF k [OF yieldsD [OF m(2) first]] second] by blast
  show "\<exists>es. ch_calls h' = ch_calls h @ es \<and> list_all S es"
    using cs ds by (intro exI [of _ "cs @ ds"]) simp
qed

lemma emits_bind [call_intros]: "emits S m \<Longrightarrow> (\<And>x. emits S (k x)) \<Longrightarrow> emits S (State_Monad.bind m k)"
  by (rule emits_bind_yields [where Q = "\<lambda>_. True"]) (simp_all add: yields_def)

lemma emits_if [call_intros]: "(b \<Longrightarrow> emits S m) \<Longrightarrow> (\<not> b \<Longrightarrow> emits S n) \<Longrightarrow> emits S (if b then m else n)"
  by simp

lemma emits_case_option [call_intros]:
  "(x = None \<Longrightarrow> emits S m) \<Longrightarrow> (\<And>a. x = Some a \<Longrightarrow> emits S (k a)) \<Longrightarrow> emits S (case x of None \<Rightarrow> m | Some a \<Rightarrow> k a)"
  by (cases x) auto

lemma emits_case_sum [call_intros]:
  "(\<And>e. x = Inl e \<Longrightarrow> emits S (m e)) \<Longrightarrow> (\<And>a. x = Inr a \<Longrightarrow> emits S (k a)) \<Longrightarrow>
     emits S (case x of Inl e \<Rightarrow> m e | Inr a \<Rightarrow> k a)"
  by (cases x) auto

lemma emits_case_prod [call_intros]: "(\<And>x y. p = (x, y) \<Longrightarrow> emits S (m x y)) \<Longrightarrow> emits S (case p of (x, y) \<Rightarrow> m x y)"
  by (cases p) auto

lemma emits_Let [call_intros]: "emits S (k x) \<Longrightarrow> emits S (Let x k)"
  by simp

lemma emits_mono: "emits S m \<Longrightarrow> (\<And>c. S c \<Longrightarrow> T c) \<Longrightarrow> emits T m"
  unfolding emits_def by (metis (mono_tags, lifting) list.pred_mono_strong)

lemma yields_return: "Q x \<Longrightarrow> yields (return x) Q"
  by (simp add: yields_def)

lemma yields_bind: "yields m P \<Longrightarrow> (\<And>x. P x \<Longrightarrow> yields (k x) Q) \<Longrightarrow> yields (State_Monad.bind m k) Q"
  by (fastforce simp: yields_def split: prod.splits)

lemma yields_after: "(\<And>x. yields (k x) Q) \<Longrightarrow> yields (State_Monad.bind m k) Q"
  by (fastforce simp: yields_def split: prod.splits)

lemma yields_if: "(b \<Longrightarrow> yields m Q) \<Longrightarrow> (\<not> b \<Longrightarrow> yields n Q) \<Longrightarrow> yields (if b then m else n) Q"
  by simp

lemma yields_case_option:
  "(x = None \<Longrightarrow> yields m Q) \<Longrightarrow> (\<And>a. x = Some a \<Longrightarrow> yields (k a) Q) \<Longrightarrow> yields (case x of None \<Rightarrow> m | Some a \<Rightarrow> k a) Q"
  by (cases x) auto

lemma yields_case_sum:
  "(\<And>e. x = Inl e \<Longrightarrow> yields (m e) Q) \<Longrightarrow> (\<And>a. x = Inr a \<Longrightarrow> yields (k a) Q) \<Longrightarrow>
     yields (case x of Inl e \<Rightarrow> m e | Inr a \<Rightarrow> k a) Q"
  by (cases x) auto

lemma yields_case_prod: "(\<And>x y. p = (x, y) \<Longrightarrow> yields (m x y) Q) \<Longrightarrow> yields (case p of (x, y) \<Rightarrow> m x y) Q"
  by (cases p) auto

lemma yields_mono: "yields m P \<Longrightarrow> (\<And>x. P x \<Longrightarrow> Q x) \<Longrightarrow> yields m Q"
  unfolding yields_def by blast

lemmas yields_intros = yields_return yields_if yields_case_option yields_case_sum yields_case_prod

text \<open>A computation that may run nothing leaves the trace as it was.\<close>

lemma emits_nothing: "emits (\<lambda>_. False) m \<Longrightarrow> run_state m h = (x, h') \<Longrightarrow> ch_calls h' = ch_calls h"
proof -
  assume "emits (\<lambda>_. False) m" and "run_state m h = (x, h')"
  then have "\<exists>cs. ch_calls h' = ch_calls h @ cs \<and> list_all (\<lambda>_. False) cs" by (rule emitsD)
  then show ?thesis by (auto simp: list_all_iff)
qed

section \<open>The environment\<close>

lemma emits_clock_now [call_intros]: "emits S clock_now"
  by (auto simp: emits_def clock_now_def Let_def)

lemma emits_write_file [call_intros]: "emits S (write_file path content)"
  by (auto simp: emits_def write_file_def)

lemma emits_run_process: "S (Command command args secs) \<Longrightarrow> emits S (run_process command args secs)"
  by (auto simp: emits_def run_process_def)

lemma emits_send_probe: "S (Probe address timeout) \<Longrightarrow> emits S (send_probe address timeout)"
  by (auto simp: emits_def send_probe_def)

lemma emits_ExecSimple:
  assumes "\<And>secs. 0 < secs \<Longrightarrow> S (Command command args secs)"
  shows "emits S (ExecSimple command args timeoutSeconds)"
  unfolding ExecSimple_def by (intro call_intros emits_run_process assms) simp

lemma emits_HTTPGet: "(\<And>t. S (Probe url t)) \<Longrightarrow> emits S (HTTPGet url timeout)"
  unfolding HTTPGet_def by (intro call_intros emits_send_probe)

lemma emits_PortOpen: "(\<And>a t. S (Probe a t)) \<Longrightarrow> emits S (PortOpen host port timeout)"
  unfolding PortOpen_def by (intro call_intros emits_send_probe)

section \<open>Executors\<close>

text \<open>A call that runs a permitted command through the executor, with a positive time limit.\<close>

definition positive_limit :: "host_call \<Rightarrow> bool" where
  "positive_limit c = (case c of Command _ _ secs \<Rightarrow> 0 < secs | Probe _ _ \<Rightarrow> True)"

definition permitted :: "Executor \<Rightarrow> (string \<Rightarrow> string list \<Rightarrow> bool) \<Rightarrow> host_call \<Rightarrow> bool" where
  "permitted ex may c \<longleftrightarrow> positive_limit c \<and> (\<exists>command args. may command args \<and> runs ex command args c)"

lemma permittedI: "may command args \<Longrightarrow> runs ex command args (Command p as secs) \<Longrightarrow> 0 < secs \<Longrightarrow> permitted ex may (Command p as secs)"
  by (auto simp: permitted_def positive_limit_def)

lemma emits_run_command:
  assumes "may command args"
  shows "emits (permitted ex may) (run_command ex command args timeoutSeconds)"
proof -
  have direct: "ex \<noteq> SudoExecutor \<Longrightarrow> emits (permitted ex may) (ExecSimple command args timeoutSeconds)"
    by (intro emits_ExecSimple permittedI [where may = may, OF assms] runs.direct)
  have sudo: "ex \<noteq> RootExecutor \<Longrightarrow> emits (permitted ex may) (sudo_run command args timeoutSeconds)"
    unfolding sudo_run_def by (intro emits_ExecSimple permittedI [where may = may, OF assms] runs.sudo)
  have transient: "emits (permitted ex may) (ExecSimple ''sudo'' (systemd_run_arguments u command args) timeoutSeconds)"
    if "ex = SystemdRunExecutor" for u
    using that by (intro emits_ExecSimple permittedI [where may = may, OF assms] runs.transient)
  have systemd: "emits (permitted ex may) (systemd_run command args timeoutSeconds)" if "ex = SystemdRunExecutor"
    unfolding systemd_run_def using that by (intro call_intros direct sudo transient) simp_all
  show ?thesis using direct sudo systemd by (cases ex) auto
qed

lemma emits_step_run: "may command args \<Longrightarrow> emits (permitted ex may) (step_run ex command args timeout)"
  unfolding step_run_def Let_def by (rule emits_run_command)

locale command_policy =
  fixes ex :: Executor
    and may :: "string \<Rightarrow> string list \<Rightarrow> bool"
    and probes :: bool
    and accepts :: "host_call \<Rightarrow> bool"
  assumes accepts_runs: "may command args \<Longrightarrow> runs ex command args c \<Longrightarrow> positive_limit c \<Longrightarrow> accepts c"
    and accepts_probe: "probes \<Longrightarrow> accepts (Probe address timeout)"
begin

lemma command_ok: "may command args \<Longrightarrow> emits accepts (run_command ex command args timeoutSeconds)"
  by (rule emits_mono [OF emits_run_command [where may = may]]) (auto simp: permitted_def intro: accepts_runs)

lemma step_ok: "may command args \<Longrightarrow> emits accepts (step_run ex command args timeout)"
  by (rule emits_mono [OF emits_step_run [where may = may]]) (auto simp: permitted_def intro: accepts_runs)

lemma http_ok: "probes \<Longrightarrow> emits accepts (HTTPGet url timeout)"
  by (intro emits_HTTPGet accepts_probe)

lemma port_ok: "probes \<Longrightarrow> emits accepts (PortOpen host port timeout)"
  by (intro emits_PortOpen accepts_probe)

end

end
