(* ===== verification/Operations_Safety.thy ===== *)
theory Operations_Safety
  imports Operations_Runner Call_Logic
begin

text \<open>
  What the operations runner may do to the host: a dry run starts nothing and changes nothing but the inventory file, a plan runs
  only the commands of its handlers and of the allowlist, and the status of a plan is that of its last failed step.
\<close>

section \<open>Dry runs\<close>

lemmas handler_defs = service_execute_def package_execute_def http_check_execute_def port_check_execute_def
  command_run_execute_def shell_execute_def

lemma dry_handler_emits: "IsDryRun mode \<Longrightarrow> emits S (execute_handler r h params mode)"
  by (cases h) (auto simp: handler_defs Let_def intro!: call_intros)

lemma dry_handler_yields: "IsDryRun mode \<Longrightarrow> yields (execute_handler r h params mode) (\<lambda>x. \<not> hx_changed x)"
  by (cases h) (auto simp: handler_defs Let_def planned_def failed_with_def intro!: yields_intros)

text \<open>Only the file \<open>p\<close> may differ from \<open>f\<close>.\<close>

definition files_but :: "string \<Rightarrow> (string \<rightharpoonup> string) \<Rightarrow> command_host \<Rightarrow> bool" where
  "files_but p f h \<longleftrightarrow> (\<forall>q. q \<noteq> p \<longrightarrow> ch_files h q = f q)"

lemma keeps_Let [keeps_intros]: "keeps I (k x) \<Longrightarrow> keeps I (Let x k)"
  by simp

lemma keeps_clock_now: "keeps (files_but p f) clock_now"
  by (auto simp: keeps_def triple_def clock_now_def files_but_def Let_def)

lemma keeps_write_file: "keeps (files_but p f) (write_file p content)"
  by (auto simp: keeps_def triple_def write_file_def files_but_def)

lemma dry_handler_keeps: "IsDryRun mode \<Longrightarrow> keeps I (execute_handler r h params mode)"
  by (cases h) (auto simp: handler_defs Let_def intro!: keeps_intros)

definition unchanged :: "OperationsStepResult list \<Rightarrow> bool" where
  "unchanged rs \<longleftrightarrow> list_all (\<lambda>s. \<not> sr_changed s) rs"

lemma unchanged_simps [simp]:
  "unchanged []" "unchanged (rs @ [step_result i act st out e t u c]) \<longleftrightarrow> unchanged rs \<and> \<not> c"
  by (simp_all add: unchanged_def step_result_def)

subsection \<open>Plans\<close>

lemma plan_step_emits:
  "(\<And>h. Registry_Get (or_reg r) (pl_action s) = Some h \<Longrightarrow> emits S (execute_handler r h (pl_params s) mode)) \<Longrightarrow> emits S (plan_step r mode s acc)"
  unfolding plan_step_def by (intro call_intros) auto

lemma plan_steps_emits:
  assumes "\<And>k h params. Registry_Get (or_reg r) k = Some h \<Longrightarrow> emits S (execute_handler r h params mode)"
  shows "emits S (plan_steps r mode ss acc)"
  by (induction ss arbitrary: acc) (auto intro!: call_intros plan_step_emits assms)

lemma plan_rollback_emits:
  assumes "\<And>k h params. Registry_Get (or_reg r) k = Some h \<Longrightarrow> emits S (execute_handler r h params mode)"
  shows "emits S (plan_rollback r mode rbs out)"
  by (induction rbs arbitrary: out) (auto simp: Let_def intro!: call_intros assms)

lemma execPlan_emits:
  assumes "\<And>k h params. Registry_Get (or_reg r) k = Some h \<Longrightarrow> emits S (execute_handler r h params mode)"
  shows "emits S (execPlan r a mode p)"
  unfolding execPlan_def by (intro call_intros plan_steps_emits plan_rollback_emits assms)

lemma plan_step_keeps: "IsDryRun mode \<Longrightarrow> keeps (files_but p f) (plan_step r mode s acc)"
  unfolding plan_step_def by (intro keeps_intros keeps_clock_now dry_handler_keeps)

lemma plan_steps_keeps: "IsDryRun mode \<Longrightarrow> keeps (files_but p f) (plan_steps r mode ss acc)"
  by (induction ss arbitrary: acc) (auto intro!: keeps_intros plan_step_keeps)

lemma plan_rollback_keeps: "IsDryRun mode \<Longrightarrow> keeps (files_but p f) (plan_rollback r mode rbs out)"
  by (induction rbs arbitrary: out) (auto simp: Let_def intro!: keeps_intros)

lemma plan_step_yields:
  "IsDryRun mode \<Longrightarrow> unchanged (pn_results acc) \<Longrightarrow> yields (plan_step r mode s acc) (\<lambda>(acc', stop). unchanged (pn_results acc'))"
  unfolding plan_step_def Let_def
  by (rule yields_after, rule yields_case_option, rule yields_after, rule yields_return, simp,
      rule yields_bind [OF dry_handler_yields], assumption, rule yields_after, rule yields_return, simp)

lemma plan_steps_yields:
  "IsDryRun mode \<Longrightarrow> unchanged (pn_results acc) \<Longrightarrow> yields (plan_steps r mode ss acc) (\<lambda>acc'. unchanged (pn_results acc'))"
proof (induction ss arbitrary: acc)
  case (Cons s ss)
  show ?case unfolding plan_steps.simps
    by (rule yields_bind [OF plan_step_yields [OF Cons.prems]]) (auto intro!: yields_if yields_return Cons)
qed (simp add: yields_return)

lemma execPlan_keeps: "IsDryRun mode \<Longrightarrow> keeps (files_but p f) (execPlan r a mode x)"
  unfolding execPlan_def by (intro keeps_intros plan_steps_keeps plan_rollback_keeps)

lemma execPlan_yields:
  assumes "IsDryRun mode" and "unchanged (ar_step_results (fst p))"
  shows "yields (execPlan r a mode p) (\<lambda>(res, out). unchanged (ar_step_results res))"
  unfolding execPlan_def Let_def using assms
  by (intro yields_case_prod yields_case_option yields_bind [OF plan_steps_yields] yields_if yields_after yields_return) auto

subsection \<open>Scripts, playbooks and Ansible\<close>

lemma execScript_dry:
  assumes "IsDryRun mode"
  shows "emits S (execScript r a mode p)" and "keeps (files_but q f) (execScript r a mode p)"
    and "unchanged (ar_step_results (fst p)) \<Longrightarrow> yields (execScript r a mode p) (\<lambda>(res, out). unchanged (ar_step_results res))"
proof -
  show "emits S (execScript r a mode p)"
    unfolding execScript_def using assms by (auto simp: Let_def intro!: call_intros)
  show "keeps (files_but q f) (execScript r a mode p)"
    unfolding execScript_def using assms by (auto simp: Let_def intro!: keeps_intros keeps_clock_now)
  show "yields (execScript r a mode p) (\<lambda>(res, out). unchanged (ar_step_results res))" if "unchanged (ar_step_results (fst p))"
    unfolding execScript_def using assms that
    by (auto simp: Let_def unchanged_def step_result_def intro!: yields_case_prod yields_if yields_after yields_return)
qed

lemma playbook_step_dry:
  assumes "IsDryRun mode"
  shows "emits S (playbook_step r mode idx s acc)" and "keeps (files_but q f) (playbook_step r mode idx s acc)"
    and "unchanged (pn_results acc) \<Longrightarrow> yields (playbook_step r mode idx s acc) (\<lambda>(acc', stop). unchanged (pn_results acc'))"
  unfolding playbook_step_def using assms
  by (auto simp: Let_def intro!: call_intros keeps_intros keeps_clock_now yields_after yields_return)

lemma playbook_steps_emits: "IsDryRun mode \<Longrightarrow> emits S (playbook_steps r mode idx ss acc)"
  by (induction ss arbitrary: idx acc) (auto intro!: call_intros playbook_step_dry)

lemma playbook_steps_keeps: "IsDryRun mode \<Longrightarrow> keeps (files_but q f) (playbook_steps r mode idx ss acc)"
  by (induction ss arbitrary: idx acc) (auto intro!: keeps_intros playbook_step_dry)

lemma playbook_steps_yields:
  "IsDryRun mode \<Longrightarrow> unchanged (pn_results acc) \<Longrightarrow> yields (playbook_steps r mode idx ss acc) (\<lambda>acc'. unchanged (pn_results acc'))"
proof (induction ss arbitrary: idx acc)
  case (Cons s ss)
  show ?case unfolding playbook_steps.simps
    by (rule yields_bind [OF playbook_step_dry(3) [OF Cons.prems]]) (auto intro!: yields_if yields_return Cons)
qed (simp add: yields_return)

lemma playbook_verify_dry:
  assumes "IsDryRun mode"
  shows "emits S (playbook_verify r mode command acc)" and "keeps (files_but q f) (playbook_verify r mode command acc)"
    and "unchanged (pn_results acc) \<Longrightarrow> yields (playbook_verify r mode command acc) (\<lambda>acc'. unchanged (pn_results acc'))"
  unfolding playbook_verify_def using assms
  by (auto simp: Let_def intro!: call_intros keeps_intros keeps_clock_now yields_after yields_return)

lemma playbook_rollback_dry:
  assumes "IsDryRun mode"
  shows "emits S (playbook_rollback r mode rbs out)" and "keeps (files_but q f) (playbook_rollback r mode rbs out)"
  using assms by (induction rbs arbitrary: out) (auto intro!: call_intros keeps_intros)

lemma execPlaybook_dry:
  assumes "IsDryRun mode"
  shows "emits S (execPlaybook r a mode p)" and "keeps (files_but q f) (execPlaybook r a mode p)"
    and "unchanged (ar_step_results (fst p)) \<Longrightarrow> yields (execPlaybook r a mode p) (\<lambda>(res, out). unchanged (ar_step_results res))"
proof -
  show "emits S (execPlaybook r a mode p)"
    unfolding execPlaybook_def using assms by (intro call_intros playbook_steps_emits playbook_verify_dry playbook_rollback_dry)
  show "keeps (files_but q f) (execPlaybook r a mode p)"
    unfolding execPlaybook_def using assms by (intro keeps_intros playbook_steps_keeps playbook_verify_dry playbook_rollback_dry)
  show "yields (execPlaybook r a mode p) (\<lambda>(res, out). unchanged (ar_step_results res))" if "unchanged (ar_step_results (fst p))"
    unfolding execPlaybook_def Let_def using assms that
    by (intro yields_case_prod yields_case_option yields_bind [OF playbook_steps_yields] yields_bind [OF playbook_verify_dry(3)]
        yields_if yields_after yields_return) auto
qed

lemma execAnsible_dry:
  assumes "IsDryRun mode"
  shows "emits S (execAnsible r a mode p)" and "keeps (files_but (inventory_file r a) f) (execAnsible r a mode p)"
    and "unchanged (ar_step_results (fst p)) \<Longrightarrow> yields (execAnsible r a mode p) (\<lambda>(res, out). unchanged (ar_step_results res))"
proof -
  show "emits S (execAnsible r a mode p)"
    unfolding execAnsible_def inventory_args_def using assms by (auto simp: Let_def intro!: call_intros)
  show "keeps (files_but (inventory_file r a) f) (execAnsible r a mode p)"
    unfolding execAnsible_def inventory_args_def using assms
    by (auto simp: Let_def intro!: keeps_intros keeps_clock_now keeps_write_file)
  show "yields (execAnsible r a mode p) (\<lambda>(res, out). unchanged (ar_step_results res))" if "unchanged (ar_step_results (fst p))"
    unfolding execAnsible_def using assms that
    by (auto simp: Let_def unchanged_def step_result_def intro!: yields_case_prod yields_case_option yields_if yields_after yields_return)
qed

subsection \<open>Actions\<close>

lemma exec_action_dry:
  assumes "exec_action r a = Some body" and "IsDryRun mode"
  shows "emits S (body mode p)" and "keeps (files_but (inventory_file r a) f) (body mode p)"
    and "unchanged (ar_step_results (fst p)) \<Longrightarrow> yields (body mode p) (\<lambda>(res, out). unchanged (ar_step_results res))"
  using assms
  by (auto simp: exec_action_def split: if_splits
      intro: execScript_dry execPlaybook_dry execAnsible_dry execPlan_emits dry_handler_emits execPlan_keeps execPlan_yields)

lemma Execute_emits:
  assumes "\<And>body p. exec_action r a = Some body \<Longrightarrow> emits S (body (action_mode a) p)"
  shows "emits S (Execute r serverID a)"
  unfolding Execute_def finish_action_def by (intro call_intros assms)

lemma Execute_dry:
  assumes dry: "IsDryRun (action_mode a)"
  shows "emits S (Execute r serverID a)" and "keeps (files_but (inventory_file r a) f) (Execute r serverID a)"
    and "yields (Execute r serverID a) (\<lambda>res. unchanged (ar_step_results res))"
proof -
  show "emits S (Execute r serverID a)" using Execute_emits exec_action_dry(1) dry by blast
  show "keeps (files_but (inventory_file r a) f) (Execute r serverID a)"
    unfolding Execute_def finish_action_def by (intro keeps_intros keeps_clock_now exec_action_dry dry)
  show "yields (Execute r serverID a) (\<lambda>res. unchanged (ar_step_results res))"
    unfolding Execute_def finish_action_def Let_def
    by (rule yields_after, rule yields_after, rule yields_case_option, rule yields_after, rule yields_return, simp,
        rule yields_bind [OF exec_action_dry(3) [OF _ dry]])
      (auto intro!: yields_after yields_return)
qed


section \<open>Plans run permitted commands\<close>

text \<open>The commands of the built-in handlers when shell mode is off.\<close>

definition service_command :: "string \<Rightarrow> string list \<Rightarrow> bool" where
  "service_command command args \<longleftrightarrow>
     command = ''systemctl'' \<and> (\<exists>action u. serviceHandler action \<in> set ServiceHandlers \<and> args = [action, unit_name u, ''--no-pager''])"

definition package_command :: "string \<Rightarrow> string list \<Rightarrow> bool" where
  "package_command command args \<longleftrightarrow> command = ''apt-get'' \<and> (\<exists>action name. package_args action name = Inr args)"

definition plan_may :: "operations_runner \<Rightarrow> string \<Rightarrow> string list \<Rightarrow> bool" where
  "plan_may r command args \<longleftrightarrow> service_command command args \<or> package_command command args \<or> isAllowedExe (or_cfg r) command"

definition plan_accepts :: "operations_runner \<Rightarrow> host_call \<Rightarrow> bool" where
  "plan_accepts r c \<longleftrightarrow> permitted (or_exec r) (plan_may r) c \<or> (\<exists>address timeout. c = Probe address timeout)"

interpretation plan_policy: command_policy "or_exec r" "plan_may r" True "plan_accepts r"
  by unfold_locales (auto simp: plan_accepts_def permitted_def)

lemma NewRegistry_handlers: "Registry_Get (NewRegistry hs) k = Some h \<Longrightarrow> h \<in> set hs"
proof -
  have "set (foldl (\<lambda>m h. go_put (handler_ID h) h m) m hs) \<subseteq> set m \<union> (\<lambda>h. (handler_ID h, h)) ` set hs" for m
    by (induction hs arbitrary: m) (auto dest!: subsetD [OF set_go_put])
  from this [of "[]"] show "h \<in> set hs" if "Registry_Get (NewRegistry hs) k = Some h"
    using that by (auto simp: Registry_Get_def NewRegistry_def dest!: map_of_SomeD)
qed

lemma default_handlers:
  "Registry_Get DefaultRegistry k = Some h \<Longrightarrow> h \<in> set (ServiceHandlers @ PackageHandlers @ CheckHandlers @ CommandHandlers)"
  unfolding DefaultRegistry_def by (rule NewRegistry_handlers)

definition no_shell :: "operations_runner \<Rightarrow> bool" where
  "no_shell r \<longleftrightarrow> (case or_cfg r of None \<Rightarrow> True | Some c \<Rightarrow> \<not> oc_allow_shell c)"

lemma shell_refused: "no_shell r \<Longrightarrow> emits S (shell_execute r command timeout mode)"
  by (auto simp: no_shell_def shell_execute_def intro: call_intros split: option.splits)

lemma command_run_permitted: "no_shell r \<Longrightarrow> emits (plan_accepts r) (command_run_execute r params mode)"
  unfolding command_run_execute_def Let_def
  by (intro call_intros shell_refused plan_policy.step_ok) (auto simp: plan_may_def)

lemma handler_permitted:
  assumes "h \<in> set (ServiceHandlers @ PackageHandlers @ CheckHandlers @ CommandHandlers)" and "no_shell r"
  shows "emits (plan_accepts r) (execute_handler r h params mode)"
proof (cases h)
  case (serviceHandler action)
  then have "serviceHandler action \<in> set ServiceHandlers"
    using assms(1) by (auto simp: PackageHandlers_def CheckHandlers_def CommandHandlers_def)
  then show ?thesis unfolding serviceHandler execute_handler.simps service_execute_def Let_def
    by (intro call_intros plan_policy.step_ok) (auto simp: plan_may_def service_command_def)
next
  case (pkgHandler action)
  then show ?thesis unfolding pkgHandler execute_handler.simps package_execute_def Let_def
    by (intro call_intros plan_policy.step_ok) (auto simp: plan_may_def package_command_def)
next
  case httpCheckHandler
  then show ?thesis by (simp add: http_check_execute_def Let_def) (intro call_intros plan_policy.http_ok impI conjI, auto intro: call_intros)
next
  case portCheckHandler
  then show ?thesis unfolding portCheckHandler execute_handler.simps port_check_execute_def Let_def
    by (intro call_intros plan_policy.port_ok) auto
next
  case commandRunHandler
  then show ?thesis using command_run_permitted [OF assms(2)] by simp
qed

text \<open>\<^bold>\<open>C16\<close>. With the default handlers and shell mode off, everything a plan asks of the host, its rollback included, is a probe or a
  command that the executor runs with a positive time limit: \<open>systemctl\<close> with one of the seven verbs on a service unit, \<open>apt-get\<close> with
  the arguments of a package operation, or an executable the allowlist admits.\<close>

theorem plan_confined:
  assumes "pa_action_type a = ''plan''" and "or_reg r = DefaultRegistry" and "no_shell r"
    and "run_state (Execute r serverID a) h = (res, h')"
  shows "\<exists>cs. ch_calls h' = ch_calls h @ cs \<and> list_all (plan_accepts r) cs"
proof -
  have "exec_action r a = Some (execPlan r a)" using assms(1) by (simp add: exec_action_def)
  moreover have "emits (plan_accepts r) (execPlan r a mode p)" for mode p
    using assms(2,3) by (intro execPlan_emits handler_permitted) (auto dest: default_handlers)
  ultimately have "emits (plan_accepts r) (Execute r serverID a)" by (intro Execute_emits) simp
  then show ?thesis using assms(4) by (rule emitsD)
qed

text \<open>A missing name is not noticed: \<open>fmt.Sprint\<close> of nil is not empty, and the unit \<open><nil>.service\<close> is used.\<close>

lemma missing_name_undetected:
  assumes "map_of params ''name'' = None" and "\<not> IsDryRun mode"
  shows "service_execute r action params mode = do {
     res \<leftarrow> step_run (or_exec r) ''systemctl'' [action, ''<nil>.service'', ''--no-pager''] (seconds64 30);
     return (command_result False (action \<noteq> ''status'') res) }"
proof -
  have "trim_space ''<nil>'' = ''<nil>''" "unit_name ''<nil>'' = ''<nil>.service''" by code_simp+
  then show ?thesis using assms by (simp add: service_execute_def param_text_def Let_def)
qed

section \<open>The result of a plan\<close>

definition step_failed :: "PlanStep \<times> OperationsStepResult \<Rightarrow> bool" where
  "step_failed p \<longleftrightarrow> sr_status (snd p) = ''failed''"

definition aborts :: "PlanStep \<times> OperationsStepResult \<Rightarrow> bool" where
  "aborts p \<longleftrightarrow> step_failed p \<and> to_lower (pl_on_failure (fst p)) = ''abort''"

text \<open>What the failure of one step makes of the plan.\<close>

definition verdict :: "operations_runner \<Rightarrow> PlanStep \<Rightarrow> string" where
  "verdict r s = (if to_lower (pl_on_failure s) = ''warn'' \<and> Registry_Get (or_reg r) (pl_action s) \<noteq> None then ''partial'' else ''failed'')"

definition plan_status :: "operations_runner \<Rightarrow> string \<Rightarrow> (PlanStep \<times> OperationsStepResult) list \<Rightarrow> string" where
  "plan_status r old ps = (if filter step_failed ps = [] then old else verdict r (fst (last (filter step_failed ps))))"

lemma plan_status_Cons:
  "plan_status r old (p # ps) = plan_status r (if step_failed p then verdict r (fst p) else old) ps"
  by (simp add: plan_status_def)

definition step_outcome :: "operations_runner \<Rightarrow> PlanStep \<Rightarrow> plan_state \<Rightarrow> plan_state \<times> bool \<Rightarrow> bool" where
  "step_outcome r s acc y \<longleftrightarrow> (\<exists>x. pn_results (fst y) = pn_results acc @ [x] \<and> sr_step_id x = pl_id s
     \<and> pn_overall (fst y) = (if step_failed (s, x) then verdict r s else pn_overall acc) \<and> snd y = aborts (s, x))"

lemma plan_step_outcome: "yields (plan_step r mode s acc) (step_outcome r s acc)"
  unfolding plan_step_def Let_def
  by (rule yields_after, rule yields_case_option)
    (auto intro!: yields_after yields_return simp: step_outcome_def step_result_def step_failed_def aborts_def verdict_def)

definition steps_outcome :: "operations_runner \<Rightarrow> PlanStep list \<Rightarrow> plan_state \<Rightarrow> plan_state \<Rightarrow> bool" where
  "steps_outcome r ss acc acc' \<longleftrightarrow> (\<exists>xs. pn_results acc' = pn_results acc @ xs \<and> length xs \<le> length ss
     \<and> map sr_step_id xs = map pl_id (take (length xs) ss) \<and> pn_overall acc' = plan_status r (pn_overall acc) (zip ss xs)
     \<and> list_all (\<lambda>p. \<not> aborts p) (butlast (zip ss xs)) \<and> (length xs < length ss \<longrightarrow> xs \<noteq> [] \<and> aborts (last (zip ss xs))))"

lemma plan_steps_outcome: "yields (plan_steps r mode ss acc) (steps_outcome r ss acc)"
proof (induction ss arbitrary: acc)
  case Nil
  show ?case by (auto intro!: yields_return simp: steps_outcome_def plan_status_def)
next
  case (Cons s ss)
  have "yields (case y of (acc', stop) \<Rightarrow> if stop then return acc' else plan_steps r mode ss acc') (steps_outcome r (s # ss) acc)"
    if y: "step_outcome r s acc y" for y
  proof -
    obtain x acc' where one: "fst y = acc'" "pn_results acc' = pn_results acc @ [x]" "sr_step_id x = pl_id s" "snd y = aborts (s, x)"
      "pn_overall acc' = (if step_failed (s, x) then verdict r s else pn_overall acc)" using y by (auto simp: step_outcome_def)
    have stop: "aborts (s, x) \<Longrightarrow> steps_outcome r (s # ss) acc acc'"
      using one by (auto simp: steps_outcome_def plan_status_Cons) (auto simp: plan_status_def)
    have go: "steps_outcome r (s # ss) acc acc''" if more: "\<not> aborts (s, x)" "steps_outcome r ss acc' acc''" for acc''
    proof -
      obtain xs where "pn_results acc'' = pn_results acc' @ xs" "length xs \<le> length ss" "map sr_step_id xs = map pl_id (take (length xs) ss)"
        "pn_overall acc'' = plan_status r (pn_overall acc') (zip ss xs)" "list_all (\<lambda>p. \<not> aborts p) (butlast (zip ss xs))"
        "length xs < length ss \<longrightarrow> xs \<noteq> [] \<and> aborts (last (zip ss xs))" using more(2) unfolding steps_outcome_def by blast
      then show ?thesis using one more(1) unfolding steps_outcome_def by (intro exI [of _ "x # xs"]) (auto simp: plan_status_Cons zip_eq_Nil_iff)
    qed
    have "y = (acc', aborts (s, x))" using one by (cases y) auto
    then show ?thesis using stop go Cons.IH [of acc'] by (auto simp: yields_def intro!: yields_if yields_return)
  qed
  then show ?case unfolding plan_steps.simps by (rule yields_bind [OF plan_step_outcome])
qed

lemma execPlan_outcome:
  assumes "pa_action_plan a = Some plan"
  shows "yields (execPlan r a mode (res0, out0)) (\<lambda>(res, out). (ar_status res \<noteq> ''failed'' \<longrightarrow> out = out0)
    \<and> steps_outcome r (ap_steps plan) \<lparr>pn_results = [], pn_overall = ''success'', pn_first_err = []\<rparr>
        \<lparr>pn_results = ar_step_results res, pn_overall = ar_status res, pn_first_err = ar_error res\<rparr>)"
  unfolding execPlan_def Let_def using assms
  by (simp, intro yields_bind [OF plan_steps_outcome]) (auto intro!: yields_if yields_after yields_return simp: steps_outcome_def)

text \<open>\<^bold>\<open>C37\<close>. The result of a plan names an initial part of its steps in order, every one of them was executed, the plan stops early exactly at
  a failed step whose policy is to abort, and the status is decided by the \<^emph>\<open>last\<close> failed step: success without one, partial when
  it only warns, failed otherwise. Nothing is rolled back unless the status is failed, so a warning that comes after a
  failure prevents the rollback.\<close>

theorem plan_result:
  assumes "pa_action_plan a = Some plan" and "run_state (execPlan r a mode (res0, out0)) h = ((res, out), h')"
  shows "let xs = ar_step_results res; ps = zip (ap_steps plan) xs in
    length xs \<le> length (ap_steps plan) \<and> map sr_step_id xs = map pl_id (take (length xs) (ap_steps plan))
    \<and> list_all (\<lambda>p. \<not> aborts p) (butlast ps) \<and> (length xs < length (ap_steps plan) \<longrightarrow> xs \<noteq> [] \<and> aborts (last ps))
    \<and> ar_status res = (if filter step_failed ps = [] then ''success'' else verdict r (fst (last (filter step_failed ps))))
    \<and> (ar_status res \<noteq> ''failed'' \<longrightarrow> out = out0)"
  using yieldsD [OF execPlan_outcome [OF assms(1)] assms(2)] by (auto simp: steps_outcome_def plan_status_def Let_def)

section \<open>Well-formed results\<close>

text \<open>The clock does not go back.\<close>

abbreviation not_before :: "int \<Rightarrow> command_host \<Rightarrow> bool" where
  "not_before t \<equiv> (\<lambda>h. t \<le> ch_now h)"

named_theorems clock_keeps "computations after which the clock is not earlier"

lemma clock_now_later [clock_keeps]: "keeps (not_before t) clock_now"
  by (auto simp: keeps_def triple_def clock_now_def Let_def split: list.splits)

lemma run_process_later [clock_keeps]: "keeps (not_before t) (run_process command args secs)"
  by (simp add: keeps_def triple_def run_process_def)

lemma send_probe_later [clock_keeps]: "keeps (not_before t) (send_probe address timeout)"
  by (simp add: keeps_def triple_def send_probe_def)

lemma write_file_later [clock_keeps]: "keeps (not_before t) (write_file p content)"
  by (simp add: keeps_def triple_def write_file_def)

lemma ExecSimple_later [clock_keeps]: "keeps (not_before t) (ExecSimple command args secs)"
  unfolding ExecSimple_def by (intro keeps_intros clock_keeps)

lemma run_command_later [clock_keeps]: "keeps (not_before t) (run_command ex command args secs)"
  by (cases ex) (auto simp: sudo_run_def systemd_run_def intro!: keeps_intros clock_keeps)

lemma step_run_later [clock_keeps]: "keeps (not_before t) (step_run ex command args timeout)"
  unfolding step_run_def by (intro keeps_intros clock_keeps)

lemma HTTPGet_later [clock_keeps]: "keeps (not_before t) (HTTPGet url timeout)"
  unfolding HTTPGet_def by (intro keeps_intros clock_keeps)

lemma PortOpen_later [clock_keeps]: "keeps (not_before t) (PortOpen host port timeout)"
  unfolding PortOpen_def by (intro keeps_intros clock_keeps)

lemma handler_later [clock_keeps]: "keeps (not_before t) (execute_handler r h params mode)"
  by (cases h) (auto simp: handler_defs Let_def intro!: keeps_intros clock_keeps split: option.split)

lemma plan_steps_later [clock_keeps]: "keeps (not_before t) (plan_steps r mode ss acc)"
  by (induction ss arbitrary: acc) (auto simp: plan_step_def intro!: keeps_intros clock_keeps)

lemma plan_rollback_later [clock_keeps]: "keeps (not_before t) (plan_rollback r mode rbs out)"
  by (induction rbs arbitrary: out) (auto simp: Let_def intro!: keeps_intros clock_keeps)

lemma playbook_steps_later [clock_keeps]: "keeps (not_before t) (playbook_steps r mode idx ss acc)"
  by (induction ss arbitrary: idx acc) (auto simp: playbook_step_def shell_line_def Let_def intro!: keeps_intros clock_keeps)

lemma playbook_rollback_later [clock_keeps]: "keeps (not_before t) (playbook_rollback r mode rbs out)"
  by (induction rbs arbitrary: out) (auto simp: shell_line_def intro!: keeps_intros clock_keeps)

lemma exec_action_later:
  assumes "exec_action r a = Some body"
  shows "keeps (not_before t) (body mode p)"
proof -
  have "keeps (not_before t) (execScript r a mode p)" "keeps (not_before t) (execPlan r a mode p)"
    unfolding execScript_def script_rollback_def execPlan_def by (intro keeps_intros clock_keeps)+
  moreover have "keeps (not_before t) (execPlaybook r a mode p)" "keeps (not_before t) (execAnsible r a mode p)"
    unfolding execPlaybook_def playbook_verify_def shell_line_def execAnsible_def inventory_args_def ansible_live_def
    by (intro keeps_intros clock_keeps)+
  ultimately show ?thesis using assms by (auto simp: exec_action_def split: if_splits)
qed

text \<open>What every action leaves of the result it is given, and the values its status may take.\<close>

definition known_status :: "string \<Rightarrow> bool" where
  "known_status s \<longleftrightarrow> s = ''success'' \<or> s = ''failed'' \<or> s = ''partial''"

definition extends_result :: "OperationsAgentResult \<Rightarrow> OperationsAgentResult \<Rightarrow> bool" where
  "extends_result res0 res \<longleftrightarrow> ar_run_id res = ar_run_id res0 \<and> ar_server_id res = ar_server_id res0 \<and> ar_started_at res = ar_started_at res0
     \<and> known_status (ar_status res)"

lemma verdict_known: "known_status (verdict r s)"
  by (simp add: verdict_def known_status_def)

lemma plan_overall_known:
  "known_status (pn_overall acc) \<Longrightarrow> yields (plan_steps r mode ss acc) (\<lambda>acc'. known_status (pn_overall acc'))"
  by (rule yields_mono [OF plan_steps_outcome]) (auto simp: steps_outcome_def plan_status_def verdict_known)

lemma playbook_step_known:
  "known_status (pn_overall acc) \<Longrightarrow> yields (playbook_step r mode idx s acc) (\<lambda>(acc', stop). known_status (pn_overall acc'))"
  unfolding playbook_step_def Let_def
  by (auto intro!: yields_after yields_if yields_return yields_case_prod simp: known_status_def split: if_splits)

lemma playbook_steps_known:
  "known_status (pn_overall acc) \<Longrightarrow> yields (playbook_steps r mode idx ss acc) (\<lambda>acc'. known_status (pn_overall acc'))"
proof (induction ss arbitrary: idx acc)
  case (Cons s ss)
  show ?case unfolding playbook_steps.simps
    by (rule yields_bind [OF playbook_step_known [OF Cons.prems]]) (auto intro!: yields_if yields_return Cons.IH)
qed (simp add: yields_return)

lemma playbook_verify_known:
  "known_status (pn_overall acc) \<Longrightarrow> yields (playbook_verify r mode command acc) (\<lambda>acc'. known_status (pn_overall acc'))"
  unfolding playbook_verify_def Let_def
  by (auto intro!: yields_after yields_if yields_return yields_case_prod simp: known_status_def split: if_splits)

lemma exec_action_extends:
  assumes "exec_action r a = Some body" and known: "known_status (ar_status (fst p))"
  shows "yields (body mode p) (\<lambda>(res, out). extends_result (fst p) res)"
proof -
  note facts = extends_result_def known_status_def
  have "yields (execScript r a mode p) (\<lambda>(res, out). extends_result (fst p) res)"
    "yields (execAnsible r a mode p) (\<lambda>(res, out). extends_result (fst p) res)"
    unfolding execScript_def execAnsible_def ansible_live_def Let_def using known
    by (auto intro!: yields_after yields_intros simp: facts split: option.splits)
  moreover have "yields (execPlan r a mode p) (\<lambda>(res, out). extends_result (fst p) res)"
    unfolding execPlan_def Let_def using known
    by (intro yields_case_prod yields_case_option yields_bind [OF plan_overall_known] yields_if yields_after yields_return) (auto simp: facts)
  moreover have "yields (execPlaybook r a mode p) (\<lambda>(res, out). extends_result (fst p) res)"
    unfolding execPlaybook_def Let_def using known
    by (intro yields_case_prod yields_case_option yields_bind [OF playbook_steps_known] yields_bind [OF playbook_verify_known] yields_if
        yields_after yields_return) (auto simp: facts)
  ultimately show ?thesis using assms by (auto simp: exec_action_def split: if_splits)
qed

lemma run_clock_now: "run_state clock_now h = (t, h') \<Longrightarrow> ch_now h' = t \<and> ch_now h \<le> t"
  by (auto simp: clock_now_def Let_def split: list.splits)

definition wellformed_result :: "string \<Rightarrow> PendingAction \<Rightarrow> OperationsAgentResult \<Rightarrow> bool" where
  "wellformed_result serverID a res \<longleftrightarrow> ar_run_id res = pa_run_id a \<and> ar_server_id res = serverID \<and> known_status (ar_status res)
     \<and> ar_started_at res \<le> ar_finished_at res"

lemma finish_wellformed:
  assumes "run_state (finish_action res out) h = (x, h')" and "ar_started_at res \<le> ch_now h"
    and "extends_result res0 res" and "ar_run_id res0 = pa_run_id a" "ar_server_id res0 = serverID"
  shows "wellformed_result serverID a x"
proof -
  obtain t g where now: "run_state clock_now h = (t, g)" by fastforce
  then have "x = res\<lparr>ar_finished_at := t, ar_output := out\<rparr>" using assms(1) by (simp add: finish_action_def)
  then show ?thesis using run_clock_now [OF now] assms(2-) by (simp add: wellformed_result_def extends_result_def)
qed


end
