(* ===== verification/Operations_Samples.thy ===== *)
theory Operations_Samples
  imports Operations_Safety
begin

text \<open>Concrete actions and hosts for the properties of the operations runner.\<close>

definition sample_runner :: operations_runner where
  "sample_runner = \<lparr>or_exec = RootExecutor, or_cfg = Some \<lparr>oc_allow_shell = False, oc_allowlist = [''ls'']\<rparr>, or_reg = DefaultRegistry,
     or_sprint_float = \<lambda>_ _. ''0'', or_json_float = \<lambda>_ _. ''0'', or_temp_dir = ''/tmp''\<rparr>"

definition sample_host :: command_host where
  "sample_host = \<lparr>ch_now = 0, ch_delays = [], ch_outcomes = [], ch_probes = [], ch_writes = [], ch_files = (\<lambda>_. None), ch_calls = []\<rparr>"

definition sample_step :: "string \<Rightarrow> string \<Rightarrow> string \<Rightarrow> PlanStep" where
  "sample_step action name policy = \<lparr>pl_id = action, pl_action = action, pl_params = [(''name'', JStr name)], pl_on_failure = policy\<rparr>"

definition sample_plan :: ActionPlan where
  "sample_plan = \<lparr>ap_version = ''1'', ap_steps = [sample_step ''service.restart'' ''web'' ''continue'', sample_step ''service.status'' ''web'' ''warn''],
     ap_rollback = [sample_step ''service.start'' ''web'' ''continue'']\<rparr>"

definition sample_action :: "string \<Rightarrow> string \<Rightarrow> PendingAction" where
  "sample_action kind mode = \<lparr>pa_run_id = ''r1'', pa_action_name = ''sample'', pa_action_type = kind, pa_timeout_seconds = 60,
     pa_execution_mode = mode, pa_parameters = [], pa_enable_rollback = True, pa_script_content = ''true'', pa_rollback_script = [],
     pa_action_plan = Some sample_plan, pa_playbook = None,
     pa_ansible_playbook = Some \<lparr>an_content = ''- hosts: all'', an_inventory = ''web1'', an_extra_vars = None\<rparr>\<rparr>"

lemmas sample_defs = sample_runner_def sample_host_def sample_step_def sample_plan_def sample_action_def


theorem plan_confined_witness:
  "\<exists>cs. ch_calls (snd (run_state (Execute sample_runner ''srv'' (sample_action ''plan'' ''live'')) sample_host)) = cs
     \<and> list_all (plan_accepts sample_runner) cs"
proof -
  let ?run = "run_state (Execute sample_runner ''srv'' (sample_action ''plan'' ''live'')) sample_host"
  have "\<exists>cs. ch_calls (snd ?run) = ch_calls sample_host @ cs \<and> list_all (plan_accepts sample_runner) cs"
    by (rule plan_confined [where a = "sample_action ''plan'' ''live''" and serverID = "''srv''" and res = "fst ?run"])
      (simp_all add: sample_action_def sample_runner_def no_shell_def)
  then show ?thesis by (simp add: sample_host_def)
qed

text \<open>The first step fails, the second one fails with a warning: the plan is reported as partial and not rolled back.\<close>

lemma restart_known: "Registry_Get DefaultRegistry ''service.restart'' = Some (serviceHandler ''restart'')"
  by code_simp

lemma status_known: "Registry_Get DefaultRegistry ''service.status'' = Some (serviceHandler ''status'')"
  by code_simp

lemmas run_evals = execPlan_def plan_step_def service_execute_def param_text_def step_run_def ExecSimple_def clock_now_def run_process_def
  not_started_def command_result_def step_result_def IsDryRun_def ExecutionModeDryRun_def Let_def restart_known status_known

definition sample_result :: OperationsAgentResult where
  "sample_result = \<lparr>ar_run_id = ''r1'', ar_server_id = ''srv'', ar_status = ''failed'', ar_step_results = [], ar_output = [], ar_error = [],
     ar_started_at = 0, ar_finished_at = 0\<rparr>"

lemma sample_trims: "trim_space ''web'' = ''web''" "Redact [] = []"
  by (simp_all add: trim_space_def is_space_def Redact_def)

lemma sample_policies: "to_lower ''warn'' = ''warn''" "to_lower ''continue'' = ''continue''"
  by code_simp+

theorem plan_result_witness:
  "\<exists>res h'. run_state (execPlan sample_runner (sample_action ''plan'' ''live'') ''live'' (sample_result, [])) sample_host = ((res, []), h')
     \<and> ar_status res = ''partial'' \<and> map sr_status (ar_step_results res) = [''failed'', ''failed'']
     \<and> map sr_step_id (ar_step_results res) = map pl_id (ap_steps sample_plan)"
proof -
  let ?a = "sample_action ''plan'' ''live''"
  obtain res out h' where run: "run_state (execPlan sample_runner ?a ''live'' (sample_result, [])) sample_host = ((res, out), h')"
    by (metis prod.exhaust)
  have steps: "map sr_status (ar_step_results res) = [''failed'', ''failed'']" "ar_status res = ''partial''"
    using run by (auto simp: sample_defs run_evals sample_trims sample_policies split: if_splits)
  then have "length (ar_step_results res) = 2" by (metis length_map One_nat_def length_Cons list.size(3) numeral_2_eq_2)
  then show ?thesis using plan_result [OF _ run, of sample_plan] steps run
    by (auto simp: Let_def sample_action_def sample_plan_def)
qed

end
