(* ===== verification/Remediation.thy ===== *)
theory Remediation
  imports Command_Exec Redaction Call_Logic
begin

text \<open>
  Monitors and their remediation: the checks of a monitor (\<open>internal/agent/check_runner.go\<close>, \<open>internal/checks/active_state.go\<close>), the
  built-in playbooks and the engine that runs them (\<open>internal/remediation\<close>), and the choice of a playbook for a monitor in a
  critical state (\<open>maybeRemediate\<close> of \<open>internal/agent/daemon.go\<close>).

  The order in which a \<open>range\<close> loop visits the two variables of a template is a parameter of the engine, a choice for each template.
\<close>

section \<open>Data\<close>

record MonitorConfig =
  mc_id :: string
  mc_service_name :: string
  mc_service_type :: string
  mc_systemd_unit :: string
  mc_docker_container_id :: string
  mc_process_match :: string
  mc_check_types :: "string list"
  mc_port :: int64
  mc_http_endpoint :: string
  mc_remediation_enabled :: bool
  mc_remediation_policy :: string
  mc_allowed_playbook_ids :: "string list"

record Step =
  st_order :: nat
  st_command :: string
  st_args :: "string list"
  st_timeout_seconds :: int
  st_fail_action :: string

record Verification =
  ve_command :: string
  ve_args :: "string list"
  ve_expected_output :: string
  ve_timeout_seconds :: int

record Playbook =
  bk_id :: string
  bk_service_types :: "string list"
  bk_applicable_services :: "string list"
  bk_steps :: "Step list"
  bk_verify :: "Verification option"

record RemediationStepResult =
  rs_order :: nat
  rs_command :: string
  rs_exit_code :: int
  rs_output :: string
  rs_duration_ms :: int

record RemediationRunLog =
  rl_monitor_id :: string
  rl_playbook_id :: string
  rl_trigger :: string
  rl_success :: bool
  rl_steps :: "RemediationStepResult list"
  rl_verification :: "(string \<times> string \<times> bool) option"
  rl_started_at :: int
  rl_finished_at :: int

record Engine =
  en_exec :: Executor
  en_books :: "(string, Playbook) gomap"
  en_reversed :: "string \<Rightarrow> bool"

datatype engine_err = UnknownPlaybook string | ErrPlaybookNotAllowed

section \<open>Playbooks\<close>

definition systemctl_step :: "nat \<Rightarrow> string \<Rightarrow> string \<Rightarrow> int \<Rightarrow> string \<Rightarrow> Step" where
  "systemctl_step n verb u secs action =
     \<lparr>st_order = n, st_command = ''systemctl'', st_args = [verb, u, ''--no-pager''], st_timeout_seconds = secs, st_fail_action = action\<rparr>"

definition is_active :: "string \<Rightarrow> Verification" where
  "is_active u = \<lparr>ve_command = ''systemctl'', ve_args = [''is-active'', u, ''--no-pager''], ve_expected_output = ''active'', ve_timeout_seconds = 10\<rparr>"

definition BuiltInPlaybooks :: "Playbook list" where
  "BuiltInPlaybooks = [
     \<lparr>bk_id = ''systemd_restart'', bk_service_types = [''systemd''], bk_applicable_services = [],
       bk_steps = [systemctl_step 1 ''restart'' ''{unit}'' 30 ''abort''], bk_verify = Some (is_active ''{unit}'')\<rparr>,
     \<lparr>bk_id = ''systemd_reload'', bk_service_types = [''systemd''], bk_applicable_services = [],
       bk_steps = [systemctl_step 1 ''reload'' ''{unit}'' 30 ''abort''], bk_verify = Some (is_active ''{unit}'')\<rparr>,
     \<lparr>bk_id = ''systemd_reset_failed'', bk_service_types = [''systemd''], bk_applicable_services = [],
       bk_steps = [systemctl_step 1 ''reset-failed'' ''{unit}'' 30 ''continue'', systemctl_step 2 ''start'' ''{unit}'' 30 ''abort''],
       bk_verify = Some (is_active ''{unit}'')\<rparr>,
     \<lparr>bk_id = ''nginx_test_reload'', bk_service_types = [''systemd''], bk_applicable_services = [''nginx''],
       bk_steps = [\<lparr>st_order = 1, st_command = ''nginx'', st_args = [''-t''], st_timeout_seconds = 30, st_fail_action = ''abort''\<rparr>,
         systemctl_step 2 ''reload'' ''nginx'' 30 ''abort''], bk_verify = Some (is_active ''nginx'')\<rparr>,
     \<lparr>bk_id = ''postgres_restart_verify'', bk_service_types = [''systemd''], bk_applicable_services = [''postgresql'', ''postgres''],
       bk_steps = [systemctl_step 1 ''restart'' ''{unit}'' 60 ''abort'',
         \<lparr>st_order = 2, st_command = ''pg_isready'', st_args = [], st_timeout_seconds = 10, st_fail_action = ''abort''\<rparr>],
       bk_verify = Some \<lparr>ve_command = ''pg_isready'', ve_args = [], ve_expected_output = ''accepting connections'', ve_timeout_seconds = 10\<rparr>\<rparr>,
     \<lparr>bk_id = ''docker_restart'', bk_service_types = [''docker''], bk_applicable_services = [],
       bk_steps = [\<lparr>st_order = 1, st_command = ''docker'', st_args = [''restart'', ''{container}''], st_timeout_seconds = 60, st_fail_action = ''abort''\<rparr>],
       bk_verify = Some \<lparr>ve_command = ''docker'', ve_args = [''inspect'', ''--format'', ''{{.State.Running}}'', ''{container}''],
         ve_expected_output = ''true'', ve_timeout_seconds = 10\<rparr>\<rparr>]"

definition NewEngine :: "Executor \<Rightarrow> (string \<Rightarrow> bool) \<Rightarrow> Engine" where
  "NewEngine ex reversed = \<lparr>en_exec = ex, en_books = foldl (\<lambda>m pb. go_put (bk_id pb) pb m) [] BuiltInPlaybooks, en_reversed = reversed\<rparr>"

definition Engine_IDs :: "Engine \<Rightarrow> string list" where
  "Engine_IDs e = map fst (en_books e)"

definition Engine_Get :: "Engine \<Rightarrow> string \<Rightarrow> Playbook option" where
  "Engine_Get e key = map_of (en_books e) key"

section \<open>The engine\<close>

definition applicable :: "MonitorConfig \<Rightarrow> Playbook \<Rightarrow> bool" where
  "applicable m pb \<longleftrightarrow> bk_applicable_services pb = [] \<or> list_ex (\<lambda>s. equal_fold s (mc_service_name m)) (bk_applicable_services pb)"

definition allowedForMonitor :: "MonitorConfig \<Rightarrow> Playbook \<Rightarrow> string \<Rightarrow> bool" where
  "allowedForMonitor m pb trigger =
     (if trigger = ''auto'' \<and> \<not> mc_remediation_enabled m then False
      else if mc_allowed_playbook_ids m \<noteq> [] \<and> bk_id pb \<notin> set (mc_allowed_playbook_ids m) then False
      else if mc_service_type m \<notin> set (bk_service_types pb) then False
      else applicable m pb)"

definition unitFor :: "MonitorConfig \<Rightarrow> string" where
  "unitFor m = (if mc_systemd_unit m \<noteq> [] then mc_systemd_unit m else if mc_service_name m \<noteq> [] then mc_service_name m @ ''.service'' else [])"

definition containerFor :: "MonitorConfig \<Rightarrow> string" where
  "containerFor m = (if mc_docker_container_id m \<noteq> [] then mc_docker_container_id m else mc_service_name m)"

definition render_one :: "Engine \<Rightarrow> (string, string) gomap \<Rightarrow> string \<Rightarrow> string" where
  "render_one e vars s =
     foldl (\<lambda>t (k, v). ReplaceAll t (''{'' @ k @ ''}'') v) s (if en_reversed e s then rev vars else vars)"

definition render :: "Engine \<Rightarrow> string \<Rightarrow> string list \<Rightarrow> (string, string) gomap \<Rightarrow> string \<times> string list" where
  "render e command args vars = (render_one e vars command, map (render_one e vars) args)"

primrec remediation_steps ::
    "Engine \<Rightarrow> (string, string) gomap \<Rightarrow> Step list \<Rightarrow> RemediationStepResult list \<Rightarrow> bool \<Rightarrow> (RemediationStepResult list \<times> bool) cmd" where
  "remediation_steps e vars [] rs success = return (rs, success)"
| "remediation_steps e vars (s # ss) rs success = do {
     let (command, args) = render e (st_command s) (st_args s) vars;
     (exRes, err) \<leftarrow> run_command (en_exec e) command args (st_timeout_seconds s);
     let rs = rs @ [\<lparr>rs_order = st_order s, rs_command = format_command (en_exec e) command args, rs_exit_code = er_exit exRes,
       rs_output = Redact (er_output exRes), rs_duration_ms = milliseconds (er_duration exRes)\<rparr>];
     if err = None then remediation_steps e vars ss rs success
     else if to_lower (st_fail_action s) \<noteq> ''continue'' then return (rs, False)
     else remediation_steps e vars ss rs False }"

definition remediation_verify :: "Engine \<Rightarrow> (string, string) gomap \<Rightarrow> Verification option \<Rightarrow> (string \<times> string \<times> bool) option cmd" where
  "remediation_verify e vars v =
     (case v of
        None \<Rightarrow> return None
      | Some v \<Rightarrow> do {
          let (command, args) = render e (ve_command v) (ve_args v) vars;
          (exRes, err) \<leftarrow> run_command (en_exec e) command args (ve_timeout_seconds v);
          let out = trim_space (Redact (er_output exRes));
          return (Some (format_command (en_exec e) command args, out,
            err = None \<and> (ve_expected_output v = [] \<or> contains_str out (ve_expected_output v)))) })"

definition template_vars :: "MonitorConfig \<Rightarrow> (string, string) gomap" where
  "template_vars m = [(''unit'', unitFor m), (''container'', containerFor m)]"

definition Engine_Run :: "Engine \<Rightarrow> MonitorConfig \<Rightarrow> string \<Rightarrow> string \<Rightarrow> (engine_err + RemediationRunLog) cmd" where
  "Engine_Run e m playbookID trigger =
     (case Engine_Get e playbookID of
        None \<Rightarrow> return (Inl (UnknownPlaybook playbookID))
      | Some pb \<Rightarrow>
          if \<not> allowedForMonitor m pb trigger then return (Inl ErrPlaybookNotAllowed)
          else do {
            started \<leftarrow> clock_now;
            (steps, success) \<leftarrow> remediation_steps e (template_vars m) (bk_steps pb) [] True;
            verification \<leftarrow> remediation_verify e (template_vars m) (bk_verify pb);
            finished \<leftarrow> clock_now;
            return (Inr \<lparr>rl_monitor_id = mc_id m, rl_playbook_id = bk_id pb, rl_trigger = trigger,
              rl_success = (success \<and> (case verification of Some (_, _, False) \<Rightarrow> False | _ \<Rightarrow> True)), rl_steps = steps,
              rl_verification = verification, rl_started_at = started, rl_finished_at = finished\<rparr>) })"

section \<open>Monitors\<close>

text \<open>The playbook \<open>maybeRemediate\<close> chooses, and the log it posts, if any.\<close>

definition choose_playbook :: "MonitorConfig \<Rightarrow> string option" where
  "choose_playbook m =
     (if mc_service_type m = ''systemd'' then
        Some (if mc_remediation_policy m = ''reload_first''
              then (if mc_service_name m = ''nginx'' then ''nginx_test_reload'' else ''systemd_reload'')
              else if mc_remediation_policy m = ''full'' then ''systemd_reset_failed''
              else ''systemd_restart'')
      else if mc_service_type m = ''docker'' then Some ''docker_restart''
      else None)"

definition maybeRemediate :: "Engine \<Rightarrow> MonitorConfig \<Rightarrow> RemediationRunLog option cmd" where
  "maybeRemediate e m =
     (if \<not> mc_remediation_enabled m then return None
      else case choose_playbook m of
          None \<Rightarrow> return None
        | Some pbID \<Rightarrow> do {
            run \<leftarrow> Engine_Run e m pbID ''auto'';
            return (case run of Inl _ \<Rightarrow> None | Inr log \<Rightarrow> Some log) })"

text \<open>\<open>ActiveState\<close>: state, whether it is good, details, error.\<close>

definition ActiveState :: "MonitorConfig \<Rightarrow> (string \<times> bool \<times> jobj \<times> string option) cmd" where
  "ActiveState m =
     (if mc_service_type m = ''systemd'' then do {
        let u = (if mc_systemd_unit m = [] then mc_service_name m @ ''.service'' else mc_systemd_unit m);
        (res, err) \<leftarrow> ExecSimple ''systemctl'' [''is-active'', u, ''--no-pager''] 10;
        let state = trim_space (er_output res);
        let details = [(''unit'', JStr u), (''raw'', JStr state)];
        return (if err \<noteq> None then (if state = [] then ''unknown'' else state, False, details, None)
          else (state, state = ''active'', details, None)) }
      else if mc_service_type m = ''docker'' then do {
        let key = (if mc_docker_container_id m = [] then mc_service_name m else mc_docker_container_id m);
        (res, err) \<leftarrow> ExecSimple ''docker'' [''inspect'', ''--format'', ''{{.State.Running}}'', key] 10;
        let state = trim_space (er_output res);
        let details = [(''container_id'', JStr key)];
        return (if err \<noteq> None then (if state = [] then ''unknown'' else state, False, details, None)
          else (state, state = ''true'', details, None)) }
      else if mc_service_type m = ''process'' then
        (if mc_process_match m \<noteq> [] then do {
           (res, err) \<leftarrow> ExecSimple ''pgrep'' [''-f'', mc_process_match m] 5;
           let details = [(''process_match'', JStr (mc_process_match m))];
           return (if err \<noteq> None \<or> trim_space (er_output res) = [] then (''not_running'', False, details, None)
             else (''running'', True, details, None)) }
         else return (''unknown'', False, [], Some ''process monitor missing process_match''))
      else return (''unknown'', False, [], Some (''unsupported service type: '' @ mc_service_type m)))"

definition status_rank :: "string \<Rightarrow> nat" where
  "status_rank s = (case map_of [(''ok'', 0), (''warning'', 1), (''critical'', 2)] s of Some n \<Rightarrow> n | None \<Rightarrow> 0)"

definition maxStatus :: "string \<Rightarrow> string \<Rightarrow> string" where
  "maxStatus a b = (if status_rank a < status_rank b then b else a)"

record check_state =
  ck_worst :: string
  ck_active_state :: string
  ck_details :: jobj

definition note_check :: "string \<Rightarrow> string \<Rightarrow> jval \<Rightarrow> check_state \<Rightarrow> check_state" where
  "note_check status key v c = c\<lparr>ck_worst := maxStatus (ck_worst c) status, ck_details := go_put key v (ck_details c)\<rparr>"

definition good_or_critical :: "bool \<Rightarrow> string" where
  "good_or_critical ok = (if ok then ''ok'' else ''critical'')"

definition run_check :: "MonitorConfig \<Rightarrow> string \<Rightarrow> check_state \<Rightarrow> check_state cmd" where
  "run_check m ct c =
     (if ct = ''active_state'' then do {
        (state, ok, details, err) \<leftarrow> ActiveState m;
        return (case err of
            Some e \<Rightarrow> note_check ''warning'' ''active_state_error'' (JStr e) c
          | None \<Rightarrow> (note_check (good_or_critical ok) ''active_state'' (JObj details) c)\<lparr>ck_active_state := state\<rparr>) }
      else if ct = ''port'' then
        (if mc_port m \<le> 0 then return (note_check ''warning'' ''port'' (JObj [(''error'', JStr ''port not configured'')]) c)
         else do {
           answer \<leftarrow> PortOpen ''127.0.0.1'' (mc_port m) (seconds64 2);
           return (case answer of
               Inl e \<Rightarrow> note_check ''warning'' ''port'' (JObj [(''port'', JInt (mc_port m)), (''error'', JStr e)]) c
             | Inr (is_open, lat) \<Rightarrow>
                 note_check (good_or_critical is_open) ''port''
                   (JObj [(''port'', JInt (mc_port m)), (''open'', JBool is_open), (''latency_ms'', JInt lat)]) c) })
      else if ct = ''http'' then
        (if mc_http_endpoint m = [] then return (note_check ''warning'' ''http'' (JObj [(''error'', JStr ''http_endpoint not configured'')]) c)
         else do {
           answer \<leftarrow> HTTPGet (mc_http_endpoint m) (seconds64 4);
           return (case answer of
               Inl e \<Rightarrow> note_check ''warning'' ''http'' (JObj [(''url'', JStr (mc_http_endpoint m)), (''error'', JStr e)]) c
             | Inr x \<Rightarrow>
                 note_check (good_or_critical (200 \<le> hr_status x \<and> hr_status x < 300)) ''http''
                   (JObj [(''url'', JStr (mc_http_endpoint m)), (''status_code'', JInt (hr_status x)), (''latency_ms'', JInt (hr_latency x)),
                     (''body_prefix'', JStr (hr_body x))]) c) })
      else return (c\<lparr>ck_worst := maxStatus (ck_worst c) ''warning''\<rparr>))"

primrec run_checks :: "MonitorConfig \<Rightarrow> string list \<Rightarrow> check_state \<Rightarrow> check_state cmd" where
  "run_checks m [] c = return c"
| "run_checks m (ct # cts) c = do { c \<leftarrow> run_check m ct c; run_checks m cts c }"

record CheckResult =
  cr_monitor_id :: string
  cr_checked_at :: int
  cr_status :: string
  cr_latency_ms :: int
  cr_details :: jobj
  cr_active_state :: string

definition RunSingleCheck :: "MonitorConfig \<Rightarrow> CheckResult cmd" where
  "RunSingleCheck m = do {
     start \<leftarrow> clock_now;
     checked \<leftarrow> clock_now;
     c \<leftarrow> run_checks m (mc_check_types m) \<lparr>ck_worst = ''ok'', ck_active_state = [], ck_details = []\<rparr>;
     finished \<leftarrow> clock_now;
     return \<lparr>cr_monitor_id = mc_id m, cr_checked_at = checked, cr_status = ck_worst c, cr_latency_ms = milliseconds (finished - start),
       cr_details = ck_details c, cr_active_state = ck_active_state c\<rparr> }"

text \<open>A round of a monitor: the check, and a remediation when it is critical.\<close>

definition runMonitorOnce :: "Engine \<Rightarrow> MonitorConfig \<Rightarrow> (CheckResult \<times> RemediationRunLog option) cmd" where
  "runMonitorOnce e m = do {
     res \<leftarrow> RunSingleCheck m;
     log \<leftarrow> (if cr_status res = ''critical'' then maybeRemediate e m else return None);
     return (res, log) }"

end
