(* ===== verification/Remediation_Safety.thy ===== *)
theory Remediation_Safety
  imports Remediation
begin

text \<open>
  What a remediation may run, when it may run, and what a reported success means.
\<close>

section \<open>Templates\<close>

text \<open>The intended meaning of a template argument.\<close>

definition template_meaning :: "MonitorConfig \<Rightarrow> string \<Rightarrow> string" where
  "template_meaning m a = (if a = ''{unit}'' then unitFor m else if a = ''{container}'' then containerFor m else a)"

definition plain_names :: "MonitorConfig \<Rightarrow> bool" where
  "plain_names m \<longleftrightarrow> CHR ''{'' \<notin> set (unitFor m) \<and> CHR ''{'' \<notin> set (containerFor m)"

lemma ReplaceAll_plain: "CHR ''{'' \<notin> set s \<Longrightarrow> ReplaceAll s (CHR ''{'' # k) v = s"
proof (induction s)
  case (Cons c s)
  then show ?case by (auto simp: ReplaceAll_def after_literal_def has_prefix_def)
qed (simp add: ReplaceAll_def)

lemma ReplaceAll_whole: "old \<noteq> [] \<Longrightarrow> ReplaceAll old old v = v"
  using replace_at_match [of "after_literal old" old "[]" "\<lambda>_. v"] by (simp add: ReplaceAll_def after_literal_def has_prefix_def)

lemma ReplaceAll_templates:
  "ReplaceAll ''{unit}'' ''{container}'' v = ''{unit}''" "ReplaceAll ''{container}'' ''{unit}'' v = ''{container}''"
  "ReplaceAll ''{{.State.Running}}'' ''{unit}'' v = ''{{.State.Running}}''"
  "ReplaceAll ''{{.State.Running}}'' ''{container}'' v = ''{{.State.Running}}''"
  by (simp_all add: ReplaceAll_def after_literal_def has_prefix_def)

lemma render_one_order:
  "render_one e (template_vars m) a =
     (if en_reversed e a then ReplaceAll (ReplaceAll a ''{container}'' (containerFor m)) ''{unit}'' (unitFor m)
      else ReplaceAll (ReplaceAll a ''{unit}'' (unitFor m)) ''{container}'' (containerFor m))"
  by (simp add: render_one_def template_vars_def)

lemma render_one_template:
  assumes plain: "plain_names m" and a: "a = ''{unit}'' \<or> a = ''{container}'' \<or> a = ''{{.State.Running}}'' \<or> CHR ''{'' \<notin> set a"
  shows "render_one e (template_vars m) a = template_meaning m a"
proof -
  have names: "CHR ''{'' \<notin> set (unitFor m)" "CHR ''{'' \<notin> set (containerFor m)" using plain by (simp_all add: plain_names_def)
  have whole: "ReplaceAll ''{unit}'' ''{unit}'' v = v" "ReplaceAll ''{container}'' ''{container}'' v = v" for v
    using ReplaceAll_whole by blast+
  note rules = render_one_order template_meaning_def ReplaceAll_templates whole ReplaceAll_plain [OF names(1)] ReplaceAll_plain [OF names(2)]
  consider "a = ''{unit}''" | "a = ''{container}''" | "a = ''{{.State.Running}}''" | "CHR ''{'' \<notin> set a" using a by blast
  then show ?thesis
  proof cases
    case 4
    then have "a \<noteq> ''{unit}''" "a \<noteq> ''{container}''" by auto
    then show ?thesis by (simp add: render_one_order template_meaning_def ReplaceAll_plain [OF 4])
  qed (simp_all add: rules)
qed

section \<open>Permitted commands\<close>

text \<open>The commands and arguments of a playbook, verification included.\<close>

definition book_templates :: "Playbook \<Rightarrow> (string \<times> string list) list" where
  "book_templates pb = map (\<lambda>s. (st_command s, st_args s)) (bk_steps pb)
     @ (case bk_verify pb of None \<Rightarrow> [] | Some v \<Rightarrow> [(ve_command v, ve_args v)])"

definition template_text :: "string \<Rightarrow> bool" where
  "template_text a \<longleftrightarrow> a = ''{unit}'' \<or> a = ''{container}'' \<or> a = ''{{.State.Running}}'' \<or> CHR ''{'' \<notin> set a"

lemma builtin_templates:
  "pb \<in> set BuiltInPlaybooks \<Longrightarrow> (command, args) \<in> set (book_templates pb) \<Longrightarrow> CHR ''{'' \<notin> set command \<and> list_all template_text args"
proof -
  have "list_all (\<lambda>pb. list_all (\<lambda>(command, args). CHR ''{'' \<notin> set command \<and> list_all template_text args) (book_templates pb)) BuiltInPlaybooks"
    by code_simp
  then show "CHR ''{'' \<notin> set command \<and> list_all template_text args"
    if "pb \<in> set BuiltInPlaybooks" "(command, args) \<in> set (book_templates pb)"
    using that by (fastforce simp: list_all_iff)
qed

definition book_may :: "MonitorConfig \<Rightarrow> Playbook \<Rightarrow> string \<Rightarrow> string list \<Rightarrow> bool" where
  "book_may m pb command args \<longleftrightarrow> (\<exists>targs. (command, targs) \<in> set (book_templates pb) \<and> args = map (template_meaning m) targs)"

lemma render_book:
  assumes "pb \<in> set BuiltInPlaybooks" and "(command, targs) \<in> set (book_templates pb)" and "plain_names m"
  shows "render e command targs (template_vars m) = (command, map (template_meaning m) targs)"
proof -
  have braces: "CHR ''{'' \<notin> set command" "list_all template_text targs" using builtin_templates assms by auto
  then have "template_meaning m command = command" by (auto simp: template_meaning_def)
  then show ?thesis using braces assms(3)
    by (auto simp: render_def render_one_template list_all_iff template_text_def)
qed

interpretation book_policy: command_policy ex "book_may m pb" False "permitted ex (book_may m pb)"
  by unfold_locales (auto simp: permitted_def)

lemma remediation_steps_permitted:
  assumes "pb \<in> set BuiltInPlaybooks" and "plain_names m" and "set ss \<subseteq> set (bk_steps pb)"
  shows "emits (permitted (en_exec e) (book_may m pb)) (remediation_steps e (template_vars m) ss rs success)"
  using assms(3)
proof (induction ss arbitrary: rs success)
  case (Cons s ss)
  then have t: "(st_command s, st_args s) \<in> set (book_templates pb)" by (auto simp: book_templates_def)
  then have "book_may m pb (st_command s) (map (template_meaning m) (st_args s))" by (auto simp: book_may_def)
  then show ?case using Cons render_book [OF assms(1) t assms(2), of e]
    by (auto simp: Let_def intro!: call_intros book_policy.command_ok)
qed (simp add: emits_return)

lemma remediation_verify_permitted:
  assumes "pb \<in> set BuiltInPlaybooks" and "plain_names m"
  shows "emits (permitted (en_exec e) (book_may m pb)) (remediation_verify e (template_vars m) (bk_verify pb))"
proof (cases "bk_verify pb")
  case (Some v)
  then have t: "(ve_command v, ve_args v) \<in> set (book_templates pb)" by (simp add: book_templates_def)
  then have "book_may m pb (ve_command v) (map (template_meaning m) (ve_args v))" by (auto simp: book_may_def)
  then show ?thesis using Some render_book [OF assms(1) t assms(2), of e]
    by (auto simp: remediation_verify_def Let_def intro!: call_intros book_policy.command_ok)
qed (simp add: remediation_verify_def emits_return)

lemma engine_books: "Engine_Get (NewEngine ex rv) k = Some pb \<Longrightarrow> pb \<in> set BuiltInPlaybooks \<and> bk_id pb = k"
proof -
  have "set (foldl (\<lambda>m pb. go_put (bk_id pb) pb m) m bs) \<subseteq> set m \<union> (\<lambda>pb. (bk_id pb, pb)) ` set bs" for m and bs :: "Playbook list"
    by (induction bs arbitrary: m) (auto dest!: subsetD [OF set_go_put])
  from this [of "[]" BuiltInPlaybooks] show "pb \<in> set BuiltInPlaybooks \<and> bk_id pb = k"
    if "Engine_Get (NewEngine ex rv) k = Some pb"
    using that by (auto simp: Engine_Get_def NewEngine_def dest!: map_of_SomeD)
qed

section \<open>Runs\<close>

definition run_allowed :: "MonitorConfig \<Rightarrow> Playbook \<Rightarrow> string \<Rightarrow> bool" where
  "run_allowed m pb trigger \<longleftrightarrow>
     (trigger = ''auto'' \<longrightarrow> mc_remediation_enabled m) \<and> (mc_allowed_playbook_ids m = [] \<or> bk_id pb \<in> set (mc_allowed_playbook_ids m))
     \<and> mc_service_type m \<in> set (bk_service_types pb) \<and> applicable m pb"

lemma allowedForMonitor_iff: "allowedForMonitor m pb trigger \<longleftrightarrow> run_allowed m pb trigger"
  by (auto simp: allowedForMonitor_def run_allowed_def)

lemma Engine_Run_cases:
  assumes "run_state (Engine_Run (NewEngine ex rv) m playbookID trigger) h = (out, h')" and "plain_names m"
  obtains (refused) "h' = h" "\<exists>e. out = Inl e"
  | (ran) pb log where "out = Inr log" "pb \<in> set BuiltInPlaybooks" "bk_id pb = playbookID" "run_allowed m pb trigger"
      "\<exists>cs. ch_calls h' = ch_calls h @ cs \<and> list_all (permitted ex (book_may m pb)) cs"
proof (cases "Engine_Get (NewEngine ex rv) playbookID")
  case None
  with assms(1) show ?thesis by (auto simp: Engine_Run_def intro: refused)
next
  case (Some pb)
  note book = engine_books [OF Some]
  let ?e = "NewEngine ex rv"
  show ?thesis
  proof (cases "allowedForMonitor m pb trigger")
    case False
    with assms(1) Some show ?thesis by (auto simp: Engine_Run_def intro: refused)
  next
    case True
    have "en_exec ?e = ex" by (simp add: NewEngine_def)
    then have "emits (permitted ex (book_may m pb)) (Engine_Run ?e m playbookID trigger)"
      using Some True book assms(2) remediation_steps_permitted [of pb m "bk_steps pb" ?e] remediation_verify_permitted [of pb m ?e]
      by (auto simp: Engine_Run_def intro!: call_intros)
    moreover have "\<exists>log. out = Inr log" using assms(1) Some True by (auto simp: Engine_Run_def split: prod.splits)
    ultimately show ?thesis using ran book True emitsD [OF _ assms(1)] by (metis allowedForMonitor_iff)
  qed
qed

text \<open>\<^bold>\<open>C21\<close>. The engine runs nothing when it refuses a playbook. Otherwise the playbook is a built-in one the monitor permits (enabled for
  automatic runs, on the monitor's list if it has one, made for its type and service), and every command run is one of that playbook's
  commands with the monitor's unit or container in the place of the template, through the configured executor and with a
  positive time limit. Units and containers are names without braces.\<close>

theorem remediation_confined:
  assumes "run_state (Engine_Run (NewEngine ex rv) m playbookID trigger) h = (out, h')" and "plain_names m"
  shows "case out of
      Inl _ \<Rightarrow> h' = h
    | Inr log \<Rightarrow> \<exists>pb cs. pb \<in> set BuiltInPlaybooks \<and> bk_id pb = playbookID \<and> run_allowed m pb trigger
        \<and> ch_calls h' = ch_calls h @ cs \<and> list_all (permitted ex (book_may m pb)) cs"
  using assms by (cases rule: Engine_Run_cases) auto

section \<open>Success\<close>

lemma ExecSimple_exit: "yields (ExecSimple command args t) (\<lambda>(res, err). err = None \<longrightarrow> er_exit res = 0)"
  unfolding ExecSimple_def Let_def by (intro yields_after yields_return) (auto split: option.splits)

lemma run_command_exit: "yields (run_command ex command args t) (\<lambda>(res, err). err = None \<longrightarrow> er_exit res = 0)"
proof (cases ex)
  case SystemdRunExecutor
  then show ?thesis unfolding SystemdRunExecutor run_command.simps systemd_run_def sudo_run_def
    by (rule_tac yields_after, rule_tac yields_bind [OF ExecSimple_exit], rule_tac yields_case_prod)
      (auto intro!: yields_if yields_return yields_bind [OF ExecSimple_exit] split: if_splits)
qed (auto simp: sudo_run_def intro: ExecSimple_exit)

lemma contains_empty: "contains_str s []"
  by (cases s) (simp_all add: has_prefix_def)

definition clean_steps :: "Step list \<Rightarrow> RemediationStepResult list \<Rightarrow> bool" where
  "clean_steps ss rs \<longleftrightarrow> map rs_order rs = map st_order ss \<and> list_all (\<lambda>x. rs_exit_code x = 0) rs"

lemma remediation_steps_success:
  "yields (remediation_steps e vars ss rs ok) (\<lambda>(rs', ok'). ok' \<longrightarrow> ok \<and> (\<exists>xs. rs' = rs @ xs \<and> clean_steps ss xs))"
proof (induction ss arbitrary: rs ok)
  case (Cons s ss)
  show ?case
    unfolding remediation_steps.simps Let_def
    by (rule yields_case_prod, rule yields_bind [OF run_command_exit])
      (auto simp: clean_steps_def intro!: yields_if yields_return yields_mono [OF Cons.IH])
qed (auto simp: clean_steps_def intro: yields_return)

text \<open>A remediation is reported as successful only if every step of its playbook was run, in order, and exited with code zero, and its
  verification, which every built-in playbook has, succeeded with the expected output.\<close>

theorem remediation_success:
  assumes "run_state (Engine_Run (NewEngine ex rv) m playbookID trigger) h = (Inr log, h')" and "rl_success log"
  shows "\<exists>pb v command out. pb \<in> set BuiltInPlaybooks \<and> bk_id pb = playbookID \<and> map rs_order (rl_steps log) = map st_order (bk_steps pb)
    \<and> list_all (\<lambda>x. rs_exit_code x = 0) (rl_steps log) \<and> bk_verify pb = Some v \<and> rl_verification log = Some (command, out, True)
    \<and> contains_str out (ve_expected_output v)"
proof -
  let ?e = "NewEngine ex rv"
  obtain pb where pb: "Engine_Get ?e playbookID = Some pb" and ok: "allowedForMonitor m pb trigger"
    using assms(1) by (auto simp: Engine_Run_def split: option.splits if_splits)
  note book = engine_books [OF pb]
  have "list_all (\<lambda>pb. bk_verify pb \<noteq> None) BuiltInPlaybooks" by code_simp
  then obtain v where v: "bk_verify pb = Some v" using book by (auto simp: list_all_iff)
  have verified: "yields (remediation_verify ?e vars (Some v)) (\<lambda>x. \<exists>c out b. x = Some (c, out, b) \<and> (b \<longrightarrow> contains_str out (ve_expected_output v)))" for vars
    unfolding remediation_verify_def Let_def
    by (auto intro!: yields_case_prod yields_after yields_return simp: contains_empty)
  have "yields (Engine_Run ?e m playbookID trigger) (\<lambda>r. case r of Inl _ \<Rightarrow> True | Inr log \<Rightarrow> rl_success log \<longrightarrow>
      clean_steps (bk_steps pb) (rl_steps log) \<and> (\<exists>c out. rl_verification log = Some (c, out, True) \<and> contains_str out (ve_expected_output v)))"
    unfolding Engine_Run_def using pb ok v
    by simp (rule yields_after, rule yields_bind [OF remediation_steps_success], rule yields_case_prod, rule yields_bind [OF verified],
      auto intro!: yields_after yields_return split: bool.splits)
  from yieldsD [OF this assms(1)] assms(2) v book show ?thesis by (auto simp: clean_steps_def)
qed

end
