(* ===== verification/Remediation_Samples.thy ===== *)
theory Remediation_Samples
  imports Remediation_Safety
begin

text \<open>A monitored service and hosts on which its restart works, for the properties of the remediation engine.\<close>

definition web_monitor :: MonitorConfig where
  "web_monitor = \<lparr>mc_id = ''m1'', mc_service_name = ''web'', mc_service_type = ''systemd'', mc_systemd_unit = [], mc_docker_container_id = [],
     mc_process_match = [], mc_check_types = [''active_state''], mc_port = 0, mc_http_endpoint = [], mc_remediation_enabled = True,
     mc_remediation_policy = ''restart_only'', mc_allowed_playbook_ids = [''systemd_restart'']\<rparr>"

definition good_outcome :: "string \<Rightarrow> proc_outcome" where
  "good_outcome out = \<lparr>po_output = out, po_error = None, po_exit = Some 0, po_expired = False\<rparr>"

definition working_host :: command_host where
  "working_host = \<lparr>ch_now = 0, ch_delays = [], ch_outcomes = [good_outcome [], good_outcome ''active''], ch_probes = [], ch_writes = [],
     ch_files = (\<lambda>_. None), ch_calls = []\<rparr>"

abbreviation web_engine :: Engine where
  "web_engine \<equiv> NewEngine RootExecutor (\<lambda>_. False)"

abbreviation web_restart :: "(engine_err + RemediationRunLog) \<times> command_host" where
  "web_restart \<equiv> run_state (Engine_Run web_engine web_monitor ''systemd_restart'' ''auto'') working_host"

lemma web_plain: "plain_names web_monitor"
  by (simp add: plain_names_def web_monitor_def unitFor_def containerFor_def)

theorem remediation_confined_witness:
  "case fst web_restart of
      Inl _ \<Rightarrow> snd web_restart = working_host
    | Inr log \<Rightarrow> \<exists>pb cs. pb \<in> set BuiltInPlaybooks \<and> bk_id pb = ''systemd_restart'' \<and> run_allowed web_monitor pb ''auto''
        \<and> ch_calls (snd web_restart) = ch_calls working_host @ cs \<and> list_all (permitted RootExecutor (book_may web_monitor pb)) cs"
  by (rule remediation_confined [where rv = "\<lambda>_. False", OF _ web_plain]) simp

lemma restart_book:
  "Engine_Get web_engine ''systemd_restart'' = Some \<lparr>bk_id = ''systemd_restart'', bk_service_types = [''systemd''], bk_applicable_services = [],
     bk_steps = [systemctl_step 1 ''restart'' ''{unit}'' 30 ''abort''], bk_verify = Some (is_active ''{unit}'')\<rparr>"
  by (simp add: Engine_Get_def NewEngine_def BuiltInPlaybooks_def)

lemma web_render:
  "render web_engine ''systemctl'' [verb, ''{unit}'', ''--no-pager''] (template_vars web_monitor) = (''systemctl'', [verb, ''web.service'', ''--no-pager''])"
  if "CHR ''{'' \<notin> set verb"
  using that by (simp add: render_def render_one_template [OF web_plain]) (auto simp: template_meaning_def web_monitor_def unitFor_def)

lemma web_facts:
  "en_exec web_engine = RootExecutor" "Redact [] = []" "trim_space (Redact ''active'') = ''active''" "CHR ''{'' \<notin> set ''restart''"
  "CHR ''{'' \<notin> set ''is-active''" "mc_remediation_enabled web_monitor" "mc_allowed_playbook_ids web_monitor = [''systemd_restart'']"
  "mc_service_type web_monitor = ''systemd''" "contains_str ''active'' ''active''"
  by (simp_all add: NewEngine_def web_monitor_def Redact_def redact_eval trim_space_def is_space_def has_prefix_def)

lemma web_restart_works: "\<exists>log h'. web_restart = (Inr log, h') \<and> rl_success log"
  by (simp add: Engine_Run_def restart_book systemctl_step_def is_active_def web_render [OF web_facts(4)] web_render [OF web_facts(5)]
      remediation_verify_def ExecSimple_def clock_now_def run_process_def Let_def working_host_def good_outcome_def allowedForMonitor_def
      applicable_def web_facts has_prefix_def)

theorem remediation_success_witness:
  "\<exists>log pb. fst web_restart = Inr log \<and> pb \<in> set BuiltInPlaybooks \<and> bk_id pb = ''systemd_restart''
     \<and> map rs_order (rl_steps log) = map st_order (bk_steps pb)"
proof -
  obtain log h' where run: "web_restart = (Inr log, h')" and ok: "rl_success log" using web_restart_works by blast
  from remediation_success [OF run ok] run show ?thesis by auto
qed

end
