(* ===== verification/Agent_Dispatch.thy ===== *)
theory Agent_Dispatch
  imports Operations_Runner Remediation
begin

text \<open>
  How the monitoring agent takes work from the backend (\<open>configPollLoop\<close> and its helpers in \<open>internal/agent/daemon.go\<close>,
  \<open>commands.go\<close>, \<open>internal/config/remote.go\<close>): one poll fetches the remote configuration, caches it without its pending work, and
  starts at most one of an action, an audit job, a command or a legacy command; a host in the migration profile starts only
  audit jobs.

  A poll is a function of the fetched configuration, the migration flags and a reading of the clock; what it starts in a new
  goroutine is its result. Instants are printed by their nanosecond count.
\<close>

section \<open>Data\<close>

record PendingCommand =
  pc_type :: string
  pc_command_id :: string
  pc_timeout_seconds :: int64
  pc_execution_mode :: string
  pc_server_id :: string
  pc_expires_in_seconds :: int64
  pc_capability :: string
  pc_script_b64 :: string

record AuditCheckDefinition =
  ac_check_key :: string
  ac_read_only :: bool

record PendingAuditJob =
  aj_run_id :: string
  aj_bundle_version :: string
  aj_checks :: "AuditCheckDefinition list"

record RemoteConfig =
  rc_fetched_at :: "int option"
  rc_monitors :: "MonitorConfig list"
  rc_legacy_command :: string
  rc_command_v2 :: "PendingCommand option"
  rc_command_id :: string
  rc_pending_action :: "PendingAction option"
  rc_pending_audit_job :: "PendingAuditJob option"

record Command =
  cm_kind :: string
  cm_playbook_id :: string
  cm_incident_id :: string
  cm_monitor_id :: string
  cm_raw :: string

datatype launched =
    HandleAction PendingAction
  | HandleAudit PendingAuditJob
  | HandleCommandV2 PendingCommand
  | HandleCommand Command

record poll_state =
  pk_remote :: RemoteConfig
  pk_last_command_key :: string
  pk_audit_in_flight :: "string list"
  pk_audit_recent :: "(string, int) gomap"

section \<open>The cached configuration\<close>

definition no_commands :: "RemoteConfig \<Rightarrow> RemoteConfig" where
  "no_commands rc = rc\<lparr>rc_legacy_command := [], rc_command_v2 := None, rc_command_id := []\<rparr>"

text \<open>\<open>PollOnce\<close> after the request: what it returns and what it hands to the cache; the cache write may fail.\<close>

definition PollOnce :: "RemoteConfig option \<Rightarrow> int \<Rightarrow> bool \<Rightarrow> (RemoteConfig option \<times> RemoteConfig option)" where
  "PollOnce answer now saved =
     (case answer of
        None \<Rightarrow> (None, None)
      | Some resp \<Rightarrow>
          let resp = (if rc_fetched_at resp = None then resp\<lparr>rc_fetched_at := Some now\<rparr> else resp);
              toCache = no_commands (resp\<lparr>rc_pending_action := None, rc_pending_audit_job := None\<rparr>)
          in if saved then (Some resp, Some toCache) else (None, None))"

section \<open>Legacy commands\<close>

definition playbook_aliases :: "(string, string) gomap" where
  "playbook_aliases = [(''restart_nginx'', ''systemd_restart''), (''restart'', ''systemd_restart''), (''reload_nginx'', ''nginx_test_reload'')]"

definition normalizePlaybookID :: "string \<Rightarrow> string" where
  "normalizePlaybookID key = (let t = trim_space key in case map_of playbook_aliases t of Some v \<Rightarrow> v | None \<Rightarrow> t)"

datatype parse_result = NoCommand | BadFormat | UnknownCommand string | GoodCommand Command

definition ParsePendingCommand :: "string \<Rightarrow> parse_result" where
  "ParsePendingCommand text0 =
     (let s = trim_space text0 in
      if s = [] then NoCommand
      else if s = ''discover_services'' then
        GoodCommand \<lparr>cm_kind = ''discover_services'', cm_playbook_id = [], cm_incident_id = [], cm_monitor_id = [], cm_raw = s\<rparr>
      else if has_prefix s ''run_playbook:'' then
        (case split_on CHR '':'' s of
           _ # p # i # m # _ \<Rightarrow>
             GoodCommand \<lparr>cm_kind = ''run_playbook'', cm_playbook_id = normalizePlaybookID p, cm_incident_id = i, cm_monitor_id = m, cm_raw = s\<rparr>
         | _ \<Rightarrow> BadFormat)
      else UnknownCommand s)"

section \<open>Validation\<close>

definition validatePendingAction :: "PendingAction \<Rightarrow> string option" where
  "validatePendingAction a =
     (if pa_run_id a = [] then Some ''pending_action.run_id is required''
      else if pa_action_type a = [] then Some ''pending_action.action_type is required''
      else if pa_action_type a = ''ansible'' \<and> pa_ansible_playbook a = None
        then Some ''pending_action.ansible_playbook is required for action_type=ansible''
      else None)"

fun invalid_check :: "AuditCheckDefinition list \<Rightarrow> string option" where
  "invalid_check [] = None"
| "invalid_check (c # cs) =
     (if ac_check_key c = [] then Some ''pending_audit_job check_key is required''
      else if \<not> ac_read_only c then Some (''pending_audit_job check '' @ ac_check_key c @ '' is not read-only'')
      else invalid_check cs)"

definition validatePendingAuditJob :: "PendingAuditJob \<Rightarrow> string option" where
  "validatePendingAuditJob job =
     (if aj_run_id job = [] then Some ''pending_audit_job.run_id is required''
      else if aj_bundle_version job = [] then Some ''pending_audit_job.bundle_version is required''
      else if aj_checks job = [] then Some ''pending_audit_job.checks is required''
      else invalid_check (aj_checks job))"

section \<open>Audit jobs in flight\<close>

definition beginAuditJob :: "string \<Rightarrow> int \<Rightarrow> poll_state \<Rightarrow> bool \<times> poll_state" where
  "beginAuditJob runID now p =
     (if runID = [] then (False, p)
      else let p = p\<lparr>pk_audit_recent := filter (\<lambda>(_, t). \<not> now - t > seconds 1800) (pk_audit_recent p)\<rparr> in
        if runID \<in> set (pk_audit_in_flight p) then (False, p)
        else if map_of (pk_audit_recent p) runID \<noteq> None then (False, p)
        else (True, p\<lparr>pk_audit_in_flight := List.insert runID (pk_audit_in_flight p)\<rparr>))"

definition endAuditJob :: "string \<Rightarrow> bool \<Rightarrow> int \<Rightarrow> poll_state \<Rightarrow> poll_state" where
  "endAuditJob runID handled now p =
     (if runID = [] then p
      else let p = p\<lparr>pk_audit_in_flight := removeAll runID (pk_audit_in_flight p)\<rparr> in
        if handled then p\<lparr>pk_audit_recent := go_put runID now (pk_audit_recent p)\<rparr> else p)"

section \<open>One poll\<close>

definition command_key :: "RemoteConfig \<Rightarrow> string" where
  "command_key rc = rc_legacy_command rc @ '':'' @
     (if rc_command_id rc = [] then (case rc_fetched_at rc of None \<Rightarrow> [] | Some t \<Rightarrow> int_str t) else rc_command_id rc)"

definition poll_legacy :: "bool \<Rightarrow> RemoteConfig \<Rightarrow> poll_state \<Rightarrow> launched option \<times> poll_state" where
  "poll_legacy migrating rc p =
     (case ParsePendingCommand (rc_legacy_command rc) of
        NoCommand \<Rightarrow> (None, p)
      | BadFormat \<Rightarrow> (None, p)
      | UnknownCommand _ \<Rightarrow> (None, p)
      | GoodCommand c \<Rightarrow>
          if migrating then (None, p)
          else if command_key rc \<noteq> pk_last_command_key p
          then (Some (HandleCommand c), p\<lparr>pk_last_command_key := command_key rc\<rparr>)
          else (None, p))"

definition poll_audit :: "PendingAuditJob \<Rightarrow> int \<Rightarrow> poll_state \<Rightarrow> launched option \<times> poll_state" where
  "poll_audit job now p =
     (if validatePendingAuditJob job \<noteq> None then (None, p)
      else case beginAuditJob (aj_run_id job) now p of (ok, p) \<Rightarrow> (if ok then Some (HandleAudit job) else None, p))"

definition poll_config :: "bool \<Rightarrow> int \<Rightarrow> RemoteConfig \<Rightarrow> poll_state \<Rightarrow> launched option \<times> poll_state" where
  "poll_config migrating now rc p0 =
     (let p = p0\<lparr>pk_remote := rc\<rparr> in
      case rc_pending_action rc of
        Some a \<Rightarrow>
          if migrating then (None, p)
          else if validatePendingAction a \<noteq> None then (None, p)
          else (Some (HandleAction a), p)
      | None \<Rightarrow>
          (case rc_pending_audit_job rc of
             Some job \<Rightarrow> poll_audit job now p
           | None \<Rightarrow>
               (case rc_command_v2 rc of
                  Some c \<Rightarrow> if migrating then (None, p) else (Some (HandleCommandV2 c), p)
                | None \<Rightarrow> poll_legacy migrating rc p)))"

text \<open>An iteration of the loop: a poll that fails changes nothing.\<close>

definition poll_iteration ::
    "bool \<Rightarrow> bool \<Rightarrow> RemoteConfig option \<Rightarrow> bool \<Rightarrow> int \<Rightarrow> poll_state \<Rightarrow> (launched option \<times> RemoteConfig option) \<times> poll_state" where
  "poll_iteration has_runner active answer saved now p =
     (case PollOnce answer now saved of
        (None, cached) \<Rightarrow> ((None, cached), p)
      | (Some rc, cached) \<Rightarrow>
          (case poll_config (has_runner \<or> active) now rc p of (l, p') \<Rightarrow> ((l, cached), p')))"

section \<open>The snapshot of monitors and the playbook command\<close>

definition snapshotMonitors :: "poll_state \<Rightarrow> MonitorConfig list" where
  "snapshotMonitors p = rc_monitors (pk_remote p)"

text \<open>\<open>runPlaybookCommand\<close>: the log it posts, if it runs a playbook.\<close>

definition runPlaybookCommand :: "Engine \<Rightarrow> poll_state \<Rightarrow> Command \<Rightarrow> RemediationRunLog option cmd" where
  "runPlaybookCommand e p c =
     (case filter (\<lambda>m. mc_id m = cm_monitor_id c) (snapshotMonitors p) of
        [] \<Rightarrow> return None
      | m # _ \<Rightarrow> do {
          run \<leftarrow> Engine_Run e m (cm_playbook_id c) ''manual'';
          return (case run of Inl _ \<Rightarrow> None | Inr log \<Rightarrow> Some log) })"

end
