(* ===== verification/Agent_Delivery.thy ===== *)
theory Agent_Delivery
  imports Agent_Dispatch
begin

text \<open>
  The agent's key-value store (\<open>internal/store/file_store.go\<close>) and the delivery of action results
  (\<open>handlePendingAction\<close> of \<open>internal/agent/operations_handler.go\<close>): a result that cannot be posted is stored, and posted
  instead of a second execution when the action comes again.

  The agent's host extends the host of the commands by the files of the store, by scripts for the outcomes of store operations
  and posts, and by the trace of executions and posts. A stored document reads back as it was up to what the JSON encoder does to
  strings that are not UTF-8, a parameter.
\<close>

section \<open>The store\<close>

datatype store_doc = ResultDoc OperationsAgentResult | Unreadable

datatype put_outcome = Put_works | Put_cancelled | Put_no_directory | Put_write_fails | Put_rename_fails

definition store_path :: "string \<Rightarrow> string \<Rightarrow> string \<Rightarrow> string" where
  "store_path base bucket key = path_join base (bucket @ slash # key)"

definition store_put :: "put_outcome \<Rightarrow> string \<Rightarrow> store_doc \<Rightarrow> (string \<rightharpoonup> store_doc) \<Rightarrow> (string \<rightharpoonup> store_doc)" where
  "store_put outcome p doc files =
     (case outcome of
        Put_works \<Rightarrow> files(p @ ''.tmp'' := None, p \<mapsto> doc)
      | Put_cancelled \<Rightarrow> files
      | Put_no_directory \<Rightarrow> files
      | Put_write_fails \<Rightarrow> files(p @ ''.tmp'' \<mapsto> Unreadable)
      | Put_rename_fails \<Rightarrow> files(p @ ''.tmp'' \<mapsto> doc))"

section \<open>Delivery\<close>

datatype agent_event = Executed string | PostedResult string OperationsAgentResult bool

record agent_host =
  ag_cmd :: command_host
  ag_files :: "string \<rightharpoonup> store_doc"
  ag_gets :: "bool list"
  ag_puts :: "put_outcome list"
  ag_deletes :: "bool list"
  ag_posts :: "bool list"
  ag_events :: "agent_event list"

record agent =
  at_runner :: operations_runner
  at_server_id :: string
  at_data_dir :: string
  at_json_text :: "string \<Rightarrow> string"

type_synonym 'a aop = "(agent_host, 'a) state"

definition on_commands :: "'a cmd \<Rightarrow> 'a aop" where
  "on_commands m = State (\<lambda>g. case run_state m (ag_cmd g) of (x, h) \<Rightarrow> (x, g\<lparr>ag_cmd := h\<rparr>))"

definition PersistedRunKey :: "string \<Rightarrow> string" where
  "PersistedRunKey runID = ''ops_result_'' @ runID"

definition result_path :: "agent \<Rightarrow> string \<Rightarrow> string" where
  "result_path d runID = store_path (at_data_dir d) ''ops'' (PersistedRunKey runID)"

definition scripted :: "'a \<Rightarrow> 'a list \<Rightarrow> 'a" where
  "scripted normal xs = (case xs of [] \<Rightarrow> normal | x # _ \<Rightarrow> x)"

text \<open>What the stored bytes decode to; a read that fails and a missing file count as no result.\<close>

definition cached_result :: "agent \<Rightarrow> string \<Rightarrow> OperationsAgentResult option aop" where
  "cached_result d runID = State (\<lambda>g.
     (if scripted True (ag_gets g) then (case ag_files g (result_path d runID) of Some (ResultDoc r) \<Rightarrow> Some r | _ \<Rightarrow> None) else None,
      g\<lparr>ag_gets := tl (ag_gets g)\<rparr>))"

definition PostOperationsResult :: "string \<Rightarrow> OperationsAgentResult \<Rightarrow> bool aop" where
  "PostOperationsResult runID res = State (\<lambda>g.
     let ok = scripted True (ag_posts g) in
     (ok, g\<lparr>ag_posts := tl (ag_posts g), ag_events := ag_events g @ [PostedResult runID res ok]\<rparr>))"

definition delete_result :: "agent \<Rightarrow> string \<Rightarrow> unit aop" where
  "delete_result d runID = modify (\<lambda>g.
     (if scripted True (ag_deletes g) then g\<lparr>ag_files := (ag_files g)(result_path d runID := None)\<rparr> else g)
       \<lparr>ag_deletes := tl (ag_deletes g)\<rparr>)"

definition json_step :: "(string \<Rightarrow> string) \<Rightarrow> OperationsStepResult \<Rightarrow> OperationsStepResult" where
  "json_step f s = s\<lparr>sr_step_id := f (sr_step_id s), sr_action := f (sr_action s), sr_status := f (sr_status s),
     sr_output := f (sr_output s), sr_error := f (sr_error s)\<rparr>"

definition MarshalResult :: "agent \<Rightarrow> OperationsAgentResult \<Rightarrow> store_doc" where
  "MarshalResult d res = (let f = at_json_text d in
     ResultDoc (res\<lparr>ar_run_id := f (ar_run_id res), ar_server_id := f (ar_server_id res), ar_status := f (ar_status res),
       ar_step_results := map (json_step f) (ar_step_results res), ar_output := f (ar_output res), ar_error := f (ar_error res)\<rparr>))"

definition save_result :: "agent \<Rightarrow> string \<Rightarrow> OperationsAgentResult \<Rightarrow> unit aop" where
  "save_result d runID res = modify (\<lambda>g.
     g\<lparr>ag_files := store_put (scripted Put_works (ag_puts g)) (result_path d runID) (MarshalResult d res) (ag_files g),
       ag_puts := tl (ag_puts g)\<rparr>)"

definition log_agent :: "agent_event \<Rightarrow> unit aop" where
  "log_agent ev = modify (\<lambda>g. g\<lparr>ag_events := ag_events g @ [ev]\<rparr>)"

text \<open>The part after the look-up, and the whole handler.\<close>

definition repost_cached :: "agent \<Rightarrow> PendingAction \<Rightarrow> OperationsAgentResult \<Rightarrow> unit aop" where
  "repost_cached d a cached = do {
     ok \<leftarrow> PostOperationsResult (pa_run_id a) cached;
     if ok then delete_result d (pa_run_id a) else return () }"

definition execute_and_post :: "agent \<Rightarrow> PendingAction \<Rightarrow> unit aop" where
  "execute_and_post d a = do {
     _ \<leftarrow> log_agent (Executed (pa_run_id a));
     res \<leftarrow> on_commands (Execute (at_runner d) (at_server_id d) a);
     ok \<leftarrow> PostOperationsResult (pa_run_id a) res;
     if ok then return () else save_result d (pa_run_id a) res }"

definition handlePendingAction :: "agent \<Rightarrow> PendingAction option \<Rightarrow> unit aop" where
  "handlePendingAction d pending =
     (case pending of
        None \<Rightarrow> return ()
      | Some a \<Rightarrow> do {
          cached \<leftarrow> cached_result d (pa_run_id a);
          case cached of Some r \<Rightarrow> repost_cached d a r | None \<Rightarrow> execute_and_post d a })"

end
