(* ===== verification/Agent_Safety.thy ===== *)
theory Agent_Safety
  imports Agent_Delivery
begin

text \<open>
  Properties of the agent's dispatch and delivery: what a poll may start on a host that migrates, which audit jobs run at the same
  time, how often an action is executed before its result is taken, and what happens when polls overlap.
\<close>

section \<open>Polls\<close>

definition read_only_job :: "PendingAuditJob \<Rightarrow> bool" where
  "read_only_job job \<longleftrightarrow> aj_run_id job \<noteq> [] \<and> aj_checks job \<noteq> [] \<and> list_all ac_read_only (aj_checks job)"

lemma invalid_check_None: "invalid_check cs = None \<Longrightarrow> list_all ac_read_only cs"
  by (induction cs rule: invalid_check.induct) (auto split: if_splits)

lemma valid_audit_job: "validatePendingAuditJob job = None \<Longrightarrow> read_only_job job"
  by (auto simp: validatePendingAuditJob_def read_only_job_def invalid_check_None split: if_splits)

lemma poll_audit_launch: "poll_audit job now p = (Some l, p') \<Longrightarrow> l = HandleAudit job \<and> validatePendingAuditJob job = None"
  by (auto simp: poll_audit_def split: if_splits prod.splits)

lemma poll_legacy_launch: "poll_legacy migrating rc p = (Some l, p') \<Longrightarrow> \<not> migrating \<and> (\<exists>c. l = HandleCommand c) \<and> pk_last_command_key p' = command_key rc \<and> pk_last_command_key p \<noteq> command_key rc"
  by (auto simp: poll_legacy_def split: if_splits parse_result.splits)

definition no_pending_work :: "RemoteConfig \<Rightarrow> bool" where
  "no_pending_work rc \<longleftrightarrow> rc_legacy_command rc = [] \<and> rc_command_v2 rc = None \<and> rc_command_id rc = [] \<and> rc_pending_action rc = None
     \<and> rc_pending_audit_job rc = None"

definition acceptable_launch :: "bool \<Rightarrow> launched \<Rightarrow> bool" where
  "acceptable_launch migrating l =
     (case l of
        HandleAction a \<Rightarrow> \<not> migrating \<and> pa_run_id a \<noteq> [] \<and> pa_action_type a \<noteq> []
      | HandleAudit job \<Rightarrow> read_only_job job
      | HandleCommandV2 c \<Rightarrow> \<not> migrating
      | HandleCommand c \<Rightarrow> \<not> migrating)"

lemma poll_config_launch: "poll_config migrating now rc p = (Some l, p') \<Longrightarrow> acceptable_launch migrating l"
  by (auto simp: poll_config_def acceptable_launch_def validatePendingAction_def Let_def split: option.splits if_splits
      dest!: poll_audit_launch poll_legacy_launch valid_audit_job)

text \<open>\<^bold>\<open>C20\<close>. A poll on a host with a migration runner, or with a migration under way, starts nothing but audit jobs, and whatever it
  starts is well-formed: actions have an identifier and a type, audit jobs consist of read-only checks. The configuration it
  caches carries no pending work, so a restart cannot start it again, and is otherwise the fetched one.\<close>

theorem poll_gated:
  assumes "poll_iteration has_runner active answer saved now p = ((l, cached), p')"
  shows "(case l of None \<Rightarrow> True | Some x \<Rightarrow> acceptable_launch (has_runner \<or> active) x)
    \<and> (case cached of None \<Rightarrow> True | Some rc \<Rightarrow> no_pending_work rc \<and> (\<exists>resp. answer = Some resp \<and> rc_monitors rc = rc_monitors resp))"
  using assms
  by (auto simp: poll_iteration_def PollOnce_def no_commands_def no_pending_work_def Let_def dest: poll_config_launch
      split: option.splits prod.splits if_splits)

section \<open>Audit jobs\<close>

text \<open>Polls and finishing jobs, with the audit goroutines that run.\<close>

inductive audit_step :: "poll_state \<times> string list \<Rightarrow> poll_state \<times> string list \<Rightarrow> bool" where
  starts: "poll_iteration has_runner active answer saved now p = ((Some (HandleAudit job), cached), p') \<Longrightarrow>
    audit_step (p, running) (p', aj_run_id job # running)"
| quiet: "poll_iteration has_runner active answer saved now p = ((l, cached), p') \<Longrightarrow> (\<And>job. l \<noteq> Some (HandleAudit job)) \<Longrightarrow>
    audit_step (p, running) (p', running)"
| finishes: "runID \<in> set running \<Longrightarrow> audit_step (p, running) (endAuditJob runID handled now p, remove1 runID running)"

definition audit_init :: "poll_state \<times> string list \<Rightarrow> bool" where
  "audit_init s \<longleftrightarrow> pk_audit_in_flight (fst s) = [] \<and> snd s = []"

definition audit_inv :: "poll_state \<times> string list \<Rightarrow> bool" where
  "audit_inv s \<longleftrightarrow> distinct (snd s) \<and> [] \<notin> set (snd s) \<and> set (pk_audit_in_flight (fst s)) = set (snd s)"

lemma poll_in_flight:
  assumes "poll_iteration has_runner active answer saved now p = ((l, cached), p')"
  shows "(case l of
      Some (HandleAudit job) \<Rightarrow> aj_run_id job \<noteq> [] \<and> aj_run_id job \<notin> set (pk_audit_in_flight p)
        \<and> set (pk_audit_in_flight p') = insert (aj_run_id job) (set (pk_audit_in_flight p))
    | _ \<Rightarrow> set (pk_audit_in_flight p') = set (pk_audit_in_flight p))"
  using assms
  by (auto simp: poll_iteration_def poll_config_def poll_legacy_def poll_audit_def beginAuditJob_def Let_def
      split: option.splits prod.splits if_splits parse_result.splits)

lemma audit_inv_step: "audit_step s t \<Longrightarrow> audit_inv s \<Longrightarrow> audit_inv t"
proof (induction rule: audit_step.induct)
  case (starts has_runner active answer saved now p job cached p' running)
  then show ?case using poll_in_flight [OF starts(1)] by (auto simp: audit_inv_def)
next
  case (quiet has_runner active answer saved now p l cached p' running)
  then show ?case using poll_in_flight [OF quiet(1)] by (cases l) (auto simp: audit_inv_def split: launched.splits)
next
  case (finishes runID running p handled now)
  then show ?case by (auto simp: audit_inv_def endAuditJob_def Let_def)
qed

interpretation audit_machine: machine audit_init audit_step audit_inv
proof
  fix s :: "poll_state \<times> string list"
  show "audit_inv s" if "audit_init s" using that by (simp add: audit_init_def audit_inv_def)
qed (rule audit_inv_step)

text \<open>Whatever the backend sends and in whatever order jobs finish, the audit goroutines that run at the same time have different
  run identifiers.\<close>

theorem audit_jobs_exclusive:
  assumes "audit_init s" and "audit_step\<^sup>*\<^sup>* s (p, running)"
  shows "distinct running \<and> set running = set (pk_audit_in_flight p)"
  using audit_machine.inv_reachable [OF assms] by (simp add: audit_inv_def)

section \<open>Overlapping polls\<close>

text \<open>Actions and commands have no such guard: as long as the backend reports the same valid action, every poll starts it again, also
  while an earlier execution runs and nothing is stored yet; two handlers whose look-ups both come before the first result is stored both
  execute the action.\<close>

theorem overlapping_polls_execute_twice:
  assumes "rc_pending_action rc = Some a" and "validatePendingAction a = None"
    and "ag_files g (result_path d (pa_run_id a)) = None"
  shows "fst (poll_config False now rc p) = Some (HandleAction a)
    \<and> fst (poll_config False later rc (snd (poll_config False now rc p))) = Some (HandleAction a)
    \<and> fst (run_state (cached_result d (pa_run_id a)) g) = None
    \<and> fst (run_state (cached_result d (pa_run_id a)) (snd (run_state (cached_result d (pa_run_id a)) g))) = None
    \<and> (\<exists>r s b c. ag_events (snd (run_state (execute_and_post d a \<bind> (\<lambda>_. execute_and_post d a)) g)) =
        ag_events g @ [Executed (pa_run_id a), PostedResult (pa_run_id a) r b, Executed (pa_run_id a), PostedResult (pa_run_id a) s c])"
proof -
  have events: "\<exists>r b. ag_events (snd (run_state (execute_and_post d a) g')) = ag_events g' @ [Executed (pa_run_id a), PostedResult (pa_run_id a) r b]" for g'
    by (auto simp: execute_and_post_def log_agent_def on_commands_def PostOperationsResult_def save_result_def Let_def split: prod.splits)
  have "\<exists>r s b c. ag_events (snd (run_state (execute_and_post d a \<bind> (\<lambda>_. execute_and_post d a)) g)) =
      ag_events g @ [Executed (pa_run_id a), PostedResult (pa_run_id a) r b, Executed (pa_run_id a), PostedResult (pa_run_id a) s c]"
    using events [of g] events [of "snd (run_state (execute_and_post d a) g)"] by (auto split: prod.splits)
  then show ?thesis using assms by (auto simp: poll_config_def cached_result_def Let_def split: option.splits)
qed

section \<open>The store\<close>

text \<open>The contract of a key-value store on the keys a client uses.\<close>

locale key_store =
  fixes put :: "'k \<Rightarrow> 'v \<Rightarrow> 's \<Rightarrow> 's"
    and get :: "'k \<Rightarrow> 's \<Rightarrow> 'v option"
    and del :: "'k \<Rightarrow> 's \<Rightarrow> 's"
    and usable :: "'k \<Rightarrow> bool"
  assumes get_put: "usable j \<Longrightarrow> usable k \<Longrightarrow> get k (put j v s) = (if k = j then Some v else get k s)"
    and get_del: "usable j \<Longrightarrow> usable k \<Longrightarrow> get k (del j s) = (if k = j then None else get k s)"
begin

definition stored :: "'k \<Rightarrow> 's \<Rightarrow> nat" where
  "stored k s = (case get k s of None \<Rightarrow> 0 | Some _ \<Rightarrow> 1)"

lemma stored_put: "usable j \<Longrightarrow> usable k \<Longrightarrow> stored k (put j v s) = (if k = j then 1 else stored k s)"
  by (simp add: stored_def get_put)

lemma stored_del: "usable j \<Longrightarrow> usable k \<Longrightarrow> stored k (del j s) = (if k = j then 0 else stored k s)"
  by (simp add: stored_def get_del)

end

lemma join_with_last: "join_with sep (es @ [k]) = (if es = [] then k else join_with sep es @ sep @ k)"
  by (induction sep es rule: join_with.induct) auto

lemma clean_last:
  assumes "p \<noteq> []" and "plain_elem k"
  shows "clean (p @ slash # k) = (if is_abs p then [slash] else []) @ (if path_elems p = [] then [] else join_with [slash] (path_elems p) @ [slash]) @ k"
proof -
  have k: "slash \<notin> set k" "k \<noteq> []" "k \<noteq> dot" "k \<noteq> dotdot" using assms(2) by (auto simp: plain_elem_def)
  have "is_abs (p @ slash # k) = is_abs p" using assms(1) by (cases p) (auto simp: is_abs_def has_prefix_def)
  moreover have "split_on slash (p @ slash # k) = split_on slash p @ [k]" using k by (simp add: split_on_snoc split_on_no_sep)
  ultimately have "path_elems (p @ slash # k) = path_elems p @ [k]"
    using k by (simp add: path_elems_def clean_elems_append)
  then show ?thesis using \<open>is_abs (p @ slash # k) = is_abs p\<close>
    by (auto simp: clean_def render_path_def join_with_last)
qed

definition bucket_path :: "agent \<Rightarrow> string" where
  "bucket_path d = (if at_data_dir d = [] then ''ops'' else at_data_dir d @ slash # ''ops'')"

definition store_dir :: "agent \<Rightarrow> string" where
  "store_dir d = (let p = bucket_path d in
     (if is_abs p then [slash] else []) @ (if path_elems p = [] then [] else join_with [slash] (path_elems p) @ [slash]) @ ''ops_result_'')"

text \<open>Run identifiers that are single path elements and not the name of a temporary file of the store.\<close>

definition usable_run :: "string \<Rightarrow> bool" where
  "usable_run runID \<longleftrightarrow> slash \<notin> set runID \<and> \<not> has_suffix runID ''.tmp''"

lemma result_path_dir: "slash \<notin> set runID \<Longrightarrow> result_path d runID = store_dir d @ runID"
proof -
  assume "slash \<notin> set runID"
  then have "plain_elem (PersistedRunKey runID)" by (auto simp: plain_elem_def PersistedRunKey_def path_consts)
  moreover have "bucket_path d \<noteq> []" by (simp add: bucket_path_def)
  ultimately have "clean (bucket_path d @ slash # PersistedRunKey runID) = store_dir d @ runID"
    by (simp add: clean_last store_dir_def Let_def) (simp add: PersistedRunKey_def)
  then show ?thesis by (simp add: result_path_def store_path_def path_join_def bucket_path_def split: if_splits)
qed

lemma result_path_eq: "usable_run j \<Longrightarrow> usable_run k \<Longrightarrow> result_path d j = result_path d k \<longleftrightarrow> j = k"
  by (simp add: usable_run_def result_path_dir)

lemma result_path_temp: "usable_run j \<Longrightarrow> usable_run k \<Longrightarrow> result_path d j @ ''.tmp'' \<noteq> result_path d k"
  by (auto simp: usable_run_def result_path_dir has_suffix_iff)

interpretation result_store: key_store
  "\<lambda>runID doc. store_put Put_works (result_path d runID) doc" "\<lambda>runID files. files (result_path d runID)"
  "\<lambda>runID files. files(result_path d runID := None)" usable_run
  by unfold_locales (auto simp: store_put_def result_path_eq dest: result_path_temp [of _ _ d, THEN not_sym])

end
