(* ===== verification/Action_Outbox.thy ===== *)
theory Action_Outbox
  imports Agent_Safety Operations_Samples
begin

text \<open>
  Executions against deliveries: as long as the store works, a run is executed once more than its results were taken exactly when a
  result waits in the store. The delivery of actions one after the other is a step relation; the counts are read off the trace.
\<close>

section \<open>Counting\<close>

definition executions :: "string \<Rightarrow> agent_host \<Rightarrow> nat" where
  "executions runID g = length (filter (\<lambda>ev. ev = Executed runID) (ag_events g))"

fun taken :: "string \<Rightarrow> agent_event \<Rightarrow> bool" where
  "taken runID (PostedResult k r ok) \<longleftrightarrow> k = runID \<and> ok"
| "taken runID (Executed k) \<longleftrightarrow> False"

definition deliveries :: "string \<Rightarrow> agent_host \<Rightarrow> nat" where
  "deliveries runID g = length (filter (taken runID) (ag_events g))"

definition waiting :: "agent \<Rightarrow> string \<Rightarrow> agent_host \<Rightarrow> nat" where
  "waiting d runID g = (if ag_files g (result_path d runID) = None then 0 else 1)"

text \<open>The store operations to come all succeed, and the results in the store are readable.\<close>

definition store_works :: "agent_host \<Rightarrow> bool" where
  "store_works g \<longleftrightarrow> list_all (\<lambda>ok. ok) (ag_gets g) \<and> list_all (\<lambda>x. x = Put_works) (ag_puts g) \<and> list_all (\<lambda>ok. ok) (ag_deletes g)
     \<and> Unreadable \<notin> ran (ag_files g)"

inductive delivers :: "agent \<Rightarrow> agent_host \<Rightarrow> agent_host \<Rightarrow> bool" for d where
  deliver: "usable_run (pa_run_id a) \<Longrightarrow> run_state (handlePendingAction d (Some a)) g = ((), g') \<Longrightarrow> delivers d g g'"

definition fresh_agent :: "agent_host \<Rightarrow> bool" where
  "fresh_agent g \<longleftrightarrow> store_works g \<and> ag_events g = [] \<and> ag_files g = Map.empty"

definition balanced :: "agent \<Rightarrow> agent_host \<Rightarrow> bool" where
  "balanced d g \<longleftrightarrow> store_works g \<and> (\<forall>runID. usable_run runID \<longrightarrow> executions runID g = deliveries runID g + waiting d runID g)"

section \<open>One delivery\<close>

lemma scripted_normal: "list_all (\<lambda>x. x = v) xs \<Longrightarrow> scripted v xs = v \<and> list_all (\<lambda>x. x = v) (tl xs)"
  by (cases xs) (auto simp: scripted_def)

lemma works_scripts:
  assumes "store_works g"
  shows "scripted True (ag_gets g)" "scripted Put_works (ag_puts g) = Put_works" "scripted True (ag_deletes g)"
    and "list_all (\<lambda>ok. ok) (tl (ag_gets g))" "list_all (\<lambda>x. x = Put_works) (tl (ag_puts g))" "list_all (\<lambda>ok. ok) (tl (ag_deletes g))"
  using assms scripted_normal [of True "ag_gets g"] scripted_normal [of Put_works "ag_puts g"] scripted_normal [of True "ag_deletes g"]
  by (simp_all add: store_works_def)

lemma ran_put: "Unreadable \<notin> ran files \<Longrightarrow> Unreadable \<notin> ran (store_put Put_works p (MarshalResult d res) files)"
  by (auto simp: store_put_def ran_def MarshalResult_def Let_def split: if_splits)

lemma ran_delete: "x \<notin> ran files \<Longrightarrow> x \<notin> ran (files(p := None))"
  by (auto simp: ran_def split: if_splits)

text \<open>Four cases: a stored result is posted and refused, or taken; a new one is computed and taken, or stored.\<close>

lemma handle_cases:
  assumes run: "run_state (handlePendingAction d (Some a)) g = ((), g')" and ok: "store_works g"
  obtains (kept) r where "ag_files g (result_path d (pa_run_id a)) \<noteq> None" "ag_files g' = ag_files g"
      "ag_events g' = ag_events g @ [PostedResult (pa_run_id a) r False]" "store_works g'"
  | (flushed) r where "ag_files g (result_path d (pa_run_id a)) \<noteq> None" "ag_files g' = (ag_files g)(result_path d (pa_run_id a) := None)"
      "ag_events g' = ag_events g @ [PostedResult (pa_run_id a) r True]" "store_works g'"
  | (taken_now) r where "ag_files g (result_path d (pa_run_id a)) = None" "ag_files g' = ag_files g"
      "ag_events g' = ag_events g @ [Executed (pa_run_id a), PostedResult (pa_run_id a) r True]" "store_works g'"
  | (saved) r where "ag_files g (result_path d (pa_run_id a)) = None"
      "ag_files g' = store_put Put_works (result_path d (pa_run_id a)) (MarshalResult d r) (ag_files g)"
      "ag_events g' = ag_events g @ [Executed (pa_run_id a), PostedResult (pa_run_id a) r False]" "store_works g'"
proof (cases "ag_files g (result_path d (pa_run_id a))")
  case None
  obtain r h where ex: "run_state (Execute (at_runner d) (at_server_id d) a) (ag_cmd g) = (r, h)" by fastforce
  show ?thesis
  proof (cases "scripted True (ag_posts g)")
    case True
    then show ?thesis using None run ex ok works_scripts [OF ok]
      by (intro taken_now [of r]) (auto simp: handlePendingAction_def cached_result_def execute_and_post_def log_agent_def on_commands_def
          PostOperationsResult_def Let_def store_works_def)
  next
    case False
    then show ?thesis using None run ex ok works_scripts [OF ok] ran_put
      by (intro saved [of r]) (auto simp: handlePendingAction_def cached_result_def execute_and_post_def log_agent_def on_commands_def
          PostOperationsResult_def save_result_def Let_def store_works_def)
  qed
next
  case (Some doc)
  then have "doc \<noteq> Unreadable" using ok by (auto simp: store_works_def ran_def)
  then obtain r where doc: "doc = ResultDoc r" by (cases doc) auto
  show ?thesis
  proof (cases "scripted True (ag_posts g)")
    case True
    then show ?thesis using Some doc run ok works_scripts [OF ok] ran_delete [of Unreadable "ag_files g" "result_path d (pa_run_id a)"]
      by (intro flushed [of r]) (auto simp: handlePendingAction_def cached_result_def repost_cached_def PostOperationsResult_def
          delete_result_def Let_def store_works_def)
  next
    case False
    then show ?thesis using Some doc run ok works_scripts [OF ok]
      by (intro kept [of r]) (auto simp: handlePendingAction_def cached_result_def repost_cached_def PostOperationsResult_def Let_def store_works_def)
  qed
qed

lemma count_append:
  assumes "ag_events g' = ag_events g @ es"
  shows "executions k g' = executions k g + length (filter (\<lambda>ev. ev = Executed k) es)"
    and "deliveries k g' = deliveries k g + length (filter (taken k) es)"
  using assms by (simp_all add: executions_def deliveries_def)

lemma waiting_stored: "waiting d k g = key_store.stored (\<lambda>runID files. files (result_path d runID)) k (ag_files g)"
  by (simp add: waiting_def result_store.stored_def split: option.split)

lemma balanced_step:
  assumes "balanced d g" and "delivers d g g'"
  shows "balanced d g'"
  using assms(2)
proof cases
  case (deliver a)
  have ok: "store_works g" and counts: "\<And>k. usable_run k \<Longrightarrow> executions k g = deliveries k g + waiting d k g"
    using assms(1) by (auto simp: balanced_def)
  note keys = waiting_stored result_store.stored_put [OF deliver(1), where d = d] result_store.stored_del [OF deliver(1), where d = d]
  from deliver(2) ok show ?thesis
  proof (cases rule: handle_cases)
    case (kept r)
    then show ?thesis using counts by (auto simp: balanced_def count_append waiting_def)
  next
    case (flushed r)
    moreover have "waiting d (pa_run_id a) g = 1" using flushed(1) by (simp add: waiting_def)
    ultimately show ?thesis using counts deliver(1) by (auto simp: balanced_def count_append keys)
  next
    case (taken_now r)
    then show ?thesis using counts by (auto simp: balanced_def count_append waiting_def)
  next
    case (saved r)
    moreover have "waiting d (pa_run_id a) g = 0" using saved(1) by (simp add: waiting_def)
    ultimately show ?thesis using counts deliver(1) by (auto simp: balanced_def count_append keys)
  qed
qed

interpretation outbox: machine fresh_agent "delivers d" "balanced d"
proof
  show "balanced d g" if "fresh_agent g" for g
    using that by (simp add: fresh_agent_def balanced_def executions_def deliveries_def waiting_def)
qed (rule balanced_step)

section \<open>Properties\<close>


section \<open>Samples\<close>

definition sample_agent :: agent where
  "sample_agent = \<lparr>at_runner = sample_runner, at_server_id = ''srv'', at_data_dir = ''/var/lib/askio'', at_json_text = \<lambda>s. s\<rparr>"

definition sample_agent_host :: agent_host where
  "sample_agent_host = \<lparr>ag_cmd = sample_host, ag_files = Map.empty, ag_gets = [], ag_puts = [], ag_deletes = [], ag_posts = [False, True], ag_events = []\<rparr>"

abbreviation sample_delivered :: agent_host where
  "sample_delivered \<equiv> snd (run_state (handlePendingAction sample_agent (Some (sample_action ''plan'' ''dry_run''))) sample_agent_host)"


definition sample_config :: RemoteConfig where
  "sample_config = \<lparr>rc_fetched_at = None, rc_monitors = [], rc_legacy_command = [], rc_command_v2 = None, rc_command_id = [],
     rc_pending_action = Some (sample_action ''plan'' ''live''),
     rc_pending_audit_job = Some \<lparr>aj_run_id = ''a1'', aj_bundle_version = ''1'', aj_checks = [\<lparr>ac_check_key = ''ssh'', ac_read_only = True\<rparr>]\<rparr>\<rparr>"

definition sample_poll :: poll_state where
  "sample_poll = \<lparr>pk_remote = sample_config, pk_last_command_key = [], pk_audit_in_flight = [], pk_audit_recent = []\<rparr>"

theorem poll_gated_witness:
  "case fst (fst (poll_iteration True False (Some sample_config) True 0 sample_poll)) of None \<Rightarrow> True | Some x \<Rightarrow> acceptable_launch True x"
  using poll_gated [of True False "Some sample_config" True 0 sample_poll] by (metis (full_types) prod.exhaust_sel)

theorem audit_jobs_exclusive_witness:
  "\<exists>p. audit_step\<^sup>*\<^sup>* (sample_poll, []) (p, [''a1'']) \<and> distinct [''a1''] \<and> set [''a1''] = set (pk_audit_in_flight p)"
proof -
  let ?answer = "Some (sample_config\<lparr>rc_pending_action := None\<rparr>)"
  let ?job = "\<lparr>aj_run_id = ''a1'', aj_bundle_version = ''1'', aj_checks = [\<lparr>ac_check_key = ''ssh'', ac_read_only = True\<rparr>]\<rparr> :: PendingAuditJob"
  obtain cached p where poll: "poll_iteration True True ?answer True 0 sample_poll = ((Some (HandleAudit ?job), cached), p)"
    by (simp add: poll_iteration_def PollOnce_def poll_config_def poll_audit_def beginAuditJob_def validatePendingAuditJob_def sample_config_def
        sample_poll_def Let_def)
  have "audit_step (sample_poll, []) (p, [''a1''])" using audit_step.starts [OF poll, of "[]"] by simp
  then have "audit_step\<^sup>*\<^sup>* (sample_poll, []) (p, [''a1''])" by (rule r_into_rtranclp)
  moreover have "audit_init (sample_poll, [])" by (simp add: audit_init_def sample_poll_def)
  ultimately show ?thesis using audit_jobs_exclusive by blast
qed

theorem overlapping_polls_execute_twice_witness:
  "fst (poll_config False 0 sample_config sample_poll) = Some (HandleAction (sample_action ''plan'' ''live''))"
  using overlapping_polls_execute_twice [of sample_config "sample_action ''plan'' ''live''" sample_agent_host sample_agent 0 sample_poll 1]
  by (simp add: sample_config_def sample_agent_host_def sample_action_def validatePendingAction_def)

end
