(* ===== verification/Base64.thy ===== *)
theory Base64
  imports Go_Results
begin

text \<open>
  Package \<open>encoding/base64\<close> as the agent uses it: \<open>RawURLEncoding\<close> (no padding) and \<open>StdEncoding\<close> (padded), decoders that skip line breaks and
  do not look at unused trailing bits. Bytes and characters are the same type; \<open>byte_val\<close> is the number of a byte.
\<close>

abbreviation byte_val :: "char \<Rightarrow> nat" where
  "byte_val \<equiv> of_char"

definition std_alphabet :: string where
  "std_alphabet = ''ABCDEFGHIJKLMNOPQRSTUVWXYZabcdefghijklmnopqrstuvwxyz0123456789+/''"

definition url_alphabet :: string where
  "url_alphabet = ''ABCDEFGHIJKLMNOPQRSTUVWXYZabcdefghijklmnopqrstuvwxyz0123456789-_''"

fun encode_groups :: "string \<Rightarrow> nat list" where
  "encode_groups [] = []"
| "encode_groups [a] = [byte_val a div 4, byte_val a mod 4 * 16]"
| "encode_groups [a, b] = [byte_val a div 4, byte_val a mod 4 * 16 + byte_val b div 16, byte_val b mod 16 * 4]"
| "encode_groups (a # b # c # r) =
     [byte_val a div 4, byte_val a mod 4 * 16 + byte_val b div 16, byte_val b mod 16 * 4 + byte_val c div 64, byte_val c mod 64] @ encode_groups r"

definition raw_url_encode :: "string \<Rightarrow> string" where
  "raw_url_encode s = map (\<lambda>n. url_alphabet ! n) (encode_groups s)"

fun index_of :: "char \<Rightarrow> string \<Rightarrow> nat option" where
  "index_of c [] = None"
| "index_of c (x # xs) = (if x = c then Some 0 else map_option Suc (index_of c xs))"

fun decode_groups :: "nat list \<Rightarrow> string option" where
  "decode_groups [] = Some []"
| "decode_groups [i] = None"
| "decode_groups [i, j] = Some [char_of (i * 4 + j div 16)]"
| "decode_groups [i, j, k] = Some [char_of (i * 4 + j div 16), char_of (j mod 16 * 16 + k div 4)]"
| "decode_groups (i # j # k # l # r) =
     map_option (\<lambda>s. char_of (i * 4 + j div 16) # char_of (j mod 16 * 16 + k div 4) # char_of (k mod 4 * 64 + l) # s) (decode_groups r)"

definition drop_newlines :: "string \<Rightarrow> string" where
  "drop_newlines s = filter (\<lambda>c. c \<noteq> CHR 0x0A \<and> c \<noteq> CHR 0x0D) s"

definition decode_with :: "string \<Rightarrow> string \<Rightarrow> string option" where
  "decode_with alphabet s =
     (let ds = map (\<lambda>c. index_of c alphabet) s in if None \<in> set ds then None else decode_groups (map the ds))"

definition raw_url_decode :: "string \<Rightarrow> string option" where
  "raw_url_decode s = decode_with url_alphabet (drop_newlines s)"

definition std_decode :: "string \<Rightarrow> string option" where
  "std_decode s =
     (let t = drop_newlines s;
          body = (if has_suffix t ''=='' then take (length t - 2) t else if has_suffix t ''='' then take (length t - 1) t else t)
      in if length t mod 4 \<noteq> 0 then None else decode_with std_alphabet body)"

section \<open>Decoding what was encoded\<close>

lemma group_first: "a < 256 \<Longrightarrow> (b :: nat) < 256 \<Longrightarrow> a div 4 * 4 + (a mod 4 * 16 + b div 16) div 16 = a"
proof -
  assume "a < 256" "b < 256"
  then have "(a mod 4 * 16 + b div 16) div 16 = a mod 4" by (simp add: div_add1_eq)
  then show ?thesis by simp
qed

lemma group_second: "(b :: nat) < 256 \<Longrightarrow> c < 256 \<Longrightarrow> (a mod 4 * 16 + b div 16) mod 16 * 16 + (b mod 16 * 4 + c div 64) div 4 = b"
proof -
  assume b: "b < 256" and c: "c < 256"
  have "(a mod 4 * 16 + b div 16) mod 16 = b div 16" using b by (simp add: mod_add_eq)
  moreover have "(b mod 16 * 4 + c div 64) div 4 = b mod 16" using c by (simp add: div_add1_eq)
  ultimately show ?thesis by simp
qed

lemma group_third: "(c :: nat) < 256 \<Longrightarrow> (b mod 16 * 4 + c div 64) mod 4 * 64 + c mod 64 = c"
proof -
  assume c: "c < 256"
  then have "(b mod 16 * 4 + c div 64) mod 4 = c div 64" by simp
  then show ?thesis by simp
qed

lemma decode_encode_groups: "decode_groups (encode_groups s) = Some s"
proof (induction s rule: encode_groups.induct)
  case (2 a)
  then show ?case by simp
next
  case (3 a b)
  show ?case using group_first [of "byte_val a" "byte_val b"] group_second [of "byte_val b" 0 "byte_val a"] by simp
next
  case (4 a b c r)
  then show ?case using group_first [of "byte_val a" "byte_val b"] group_second [of "byte_val b" "byte_val c" "byte_val a"]
      group_third [of "byte_val c" "byte_val b"] by simp
qed simp

lemma encode_groups_less: "n \<in> set (encode_groups s) \<Longrightarrow> n < 64"
proof (induction s rule: encode_groups.induct)
  case (4 a b c r)
  have "byte_val a div 4 < 64" "byte_val b div 16 < 16" "byte_val c div 64 < 4" by (simp_all add: less_mult_imp_div_less)
  moreover have "byte_val a mod 4 < 4" "byte_val b mod 16 < 16" "byte_val c mod 64 < 64" by simp_all
  ultimately show ?case using 4 by (auto simp del: mod_less_divisor)
next
  case (3 a b)
  have "byte_val a div 4 < 64" "byte_val b div 16 < 16" by (simp_all add: less_mult_imp_div_less)
  moreover have "byte_val a mod 4 < 4" "byte_val b mod 16 < 16" by simp_all
  ultimately show ?case using 3 by (auto simp del: mod_less_divisor)
next
  case (2 a)
  have "byte_val a div 4 < 64" "byte_val a mod 4 < 4" by (simp_all add: less_mult_imp_div_less)
  then show ?case using 2 by (auto simp del: mod_less_divisor)
qed simp

lemma url_alphabet_facts:
  "length url_alphabet = 64" "distinct url_alphabet" "list_all (\<lambda>c. \<not> is_space c) url_alphabet"
  by code_simp+

lemma index_of_nth: "distinct xs \<Longrightarrow> n < length xs \<Longrightarrow> index_of (xs ! n) xs = Some n"
  by (induction xs arbitrary: n) (auto simp: nth_Cons split: nat.splits)

lemma raw_url_encode_chars: "c \<in> set (raw_url_encode s) \<Longrightarrow> c \<in> set url_alphabet"
  using encode_groups_less url_alphabet_facts(1) by (auto simp: raw_url_encode_def)

lemma raw_url_round_trip: "raw_url_decode (raw_url_encode s) = Some s"
proof -
  have "\<forall>c \<in> set (raw_url_encode s). \<not> is_space c"
    using raw_url_encode_chars url_alphabet_facts(3) by (auto simp: list_all_iff)
  then have "drop_newlines (raw_url_encode s) = raw_url_encode s"
    by (auto simp: drop_newlines_def is_space_def filter_id_conv)
  moreover have "map (\<lambda>c. index_of c url_alphabet) (raw_url_encode s) = map Some (encode_groups s)"
    using encode_groups_less index_of_nth [OF url_alphabet_facts(2)] url_alphabet_facts(1) by (auto simp: raw_url_encode_def)
  ultimately show ?thesis by (simp add: raw_url_decode_def decode_with_def decode_encode_groups Let_def comp_def image_iff)
qed

lemma raw_url_encode_Nil: "raw_url_encode s = [] \<longleftrightarrow> s = []"
  by (cases s rule: encode_groups.cases) (auto simp: raw_url_encode_def)

lemma trim_raw_url: "trim_space (raw_url_encode s) = raw_url_encode s"
proof -
  have plain: "\<forall>c \<in> set (raw_url_encode s). \<not> is_space c"
    using raw_url_encode_chars url_alphabet_facts(3) by (auto simp: list_all_iff)
  then have "dropWhile is_space (raw_url_encode s) = raw_url_encode s" and "dropWhile is_space (rev (raw_url_encode s)) = rev (raw_url_encode s)"
    by (metis dropWhile_eq_self_iff hd_in_set, metis dropWhile_eq_self_iff hd_in_set set_rev)
  then show ?thesis by (simp add: trim_space_def)
qed

end
