(* ===== verification/Gateway.thy ===== *)
theory Gateway
  imports Agent_Dispatch Base64
begin

text \<open>
  The gateway (\<open>internal/gateway\<close>) and the host tokens: hosts without a connection of their own send their requests to the gateway with a
  token for their server identifier, and the gateway forwards them with its own credentials. Tokens are issued by the gateway's poller
  and by the agent's command \<open>generate_host_token\<close> (\<open>internal/agent/commands_v2.go\<close>).

  HMAC-SHA256 in hexadecimal and the JSON decoder for bodies are parameters of the gateway. Instants are nanoseconds.
\<close>

section \<open>Tokens\<close>

record gateway =
  gw_key :: string
  gw_hmac :: "string \<Rightarrow> string \<Rightarrow> string"
  gw_cloud_token :: string
  gw_cloud_path :: string
  gw_decode :: "string \<Rightarrow> jobj option"

datatype token_err = ErrUnauthorized | TokenExpired

fun parse_unix :: "int64 \<Rightarrow> string \<Rightarrow> int64 option" where
  "parse_unix n [] = Some n"
| "parse_unix n (c # cs) = (if is_digit c then parse_unix (wrap64 (wrap64 (n * 10) + digit_val c)) cs else None)"

definition parseInt64 :: "string \<Rightarrow> int64 option" where
  "parseInt64 s = parse_unix 0 s"

text \<open>\<open>time.Unix(sec, 0)\<close>: seconds since the year one are kept in 64 bits.\<close>

definition unix_time :: "int64 \<Rightarrow> int" where
  "unix_time sec = seconds (wrap64 (sec + 62135596800) - 62135596800)"

definition token_message :: "string \<Rightarrow> string \<Rightarrow> string" where
  "token_message sid expStr = sid @ CHR ''.'' # expStr"

definition ValidateHostToken :: "gateway \<Rightarrow> string \<Rightarrow> string \<Rightarrow> int \<Rightarrow> token_err option" where
  "ValidateHostToken g token0 expectedServerID now =
     (let token = trim_space token0 in
      if token = [] then Some ErrUnauthorized
      else case raw_url_decode token of
          None \<Rightarrow> Some ErrUnauthorized
        | Some b \<Rightarrow>
            (case split_on CHR ''.'' b of
               [sid, expStr, sigHex] \<Rightarrow>
                 if expectedServerID \<noteq> [] \<and> sid \<noteq> expectedServerID then Some ErrUnauthorized
                 else (case parseInt64 expStr of
                     None \<Rightarrow> Some ErrUnauthorized
                   | Some expUnix \<Rightarrow>
                       if 0 < expUnix \<and> unix_time expUnix \<le> now then Some TokenExpired
                       else if gw_hmac g (gw_key g) (token_message sid expStr) \<noteq> sigHex then Some ErrUnauthorized
                       else None)
             | _ \<Rightarrow> Some ErrUnauthorized))"

text \<open>The last lines of both issuers.\<close>

definition issue_token :: "gateway \<Rightarrow> string \<Rightarrow> int64 \<Rightarrow> string" where
  "issue_token g serverID expUnix =
     (let msg = token_message serverID (int_str expUnix) in raw_url_encode (msg @ CHR ''.'' # gw_hmac g (gw_key g) msg))"

definition expiry :: "int \<Rightarrow> int64 \<Rightarrow> int \<Rightarrow> int" where
  "expiry now expiresInSeconds standard = now + (if 0 < expiresInSeconds then seconds64 expiresInSeconds else standard)"

record GatewayHostTokenResult =
  gh_command_id :: string
  gh_server_id :: string
  gh_token :: string
  gh_expires_at :: int

section \<open>The gateway's poller\<close>

text \<open>\<open>pollOnce\<close> with the fetched configuration, the reading of the clock it uses and whether the post succeeds: the token it posts and the
  identifier of the last command it handled.\<close>

definition gateway_pollOnce :: "gateway \<Rightarrow> RemoteConfig option \<Rightarrow> int \<Rightarrow> bool \<Rightarrow> string \<Rightarrow> GatewayHostTokenResult option \<times> string" where
  "gateway_pollOnce g answer now posted lastCommandID =
     (case answer of
        None \<Rightarrow> (None, lastCommandID)
      | Some rc \<Rightarrow>
          (case rc_command_v2 rc of
             None \<Rightarrow> (None, lastCommandID)
           | Some c \<Rightarrow>
               if pc_command_id c = [] then (None, lastCommandID)
               else if pc_command_id c = lastCommandID then (None, lastCommandID)
               else if pc_type c \<noteq> ''generate_host_token'' then (None, pc_command_id c)
               else if trim_space (pc_server_id c) = [] then (None, pc_command_id c)
               else let exp = expiry now (pc_expires_in_seconds c) (seconds 31536000);
                        expUnix = exp div 1000000000;
                        result = \<lparr>gh_command_id = pc_command_id c, gh_server_id = pc_server_id c,
                          gh_token = issue_token g (pc_server_id c) expUnix, gh_expires_at = exp\<rparr>
                 in (Some result, if posted then pc_command_id c else lastCommandID)))"

section \<open>The proxy\<close>

record proxy_request =
  rq_method :: string
  rq_path :: string
  rq_raw_query :: string
  rq_query_server_id :: string
  rq_authorization :: string
  rq_content_type :: string
  rq_body :: string

record forwarded =
  fw_method :: string
  fw_path :: string
  fw_raw_query :: string
  fw_content_type :: string
  fw_authorization :: string
  fw_server_id :: string
  fw_body :: string

datatype proxy_outcome = ProxyRefused int string | Forward forwarded

definition body_limit :: nat where
  "body_limit = 4 * 1024 * 1024"

definition request_server_id :: "gateway \<Rightarrow> proxy_request \<Rightarrow> string" where
  "request_server_id g rq =
     (let body = take body_limit (rq_body rq) in
      if rq_query_server_id rq = [] \<and> body \<noteq> []
      then (case gw_decode g body of
          None \<Rightarrow> []
        | Some m \<Rightarrow> (case map_of m ''server_id'' of Some (JStr v) \<Rightarrow> v | _ \<Rightarrow> []))
      else rq_query_server_id rq)"

definition trim_right_slash :: "string \<Rightarrow> string" where
  "trim_right_slash p = rev (dropWhile (\<lambda>c. c = CHR ''/'') (rev p))"

definition handleProxy :: "gateway \<Rightarrow> proxy_request \<Rightarrow> int \<Rightarrow> proxy_outcome" where
  "handleProxy g rq now =
     (let serverID = request_server_id g rq;
          auth = trim_space (rq_authorization rq) in
      if serverID = [] then ProxyRefused 400 ''missing server_id''
      else if \<not> has_prefix (to_lower auth) ''bearer '' then ProxyRefused 401 ''unauthorized''
      else if ValidateHostToken g (trim_space (drop 7 auth)) serverID now \<noteq> None then ProxyRefused 401 ''unauthorized''
      else Forward \<lparr>fw_method = rq_method rq, fw_path = trim_right_slash (gw_cloud_path g) @ rq_path rq, fw_raw_query = rq_raw_query rq,
        fw_content_type = rq_content_type rq, fw_authorization = ''Bearer '' @ gw_cloud_token g, fw_server_id = serverID,
        fw_body = take body_limit (rq_body rq)\<rparr>)"

section \<open>Properties\<close>

text \<open>\<^bold>\<open>C17\<close>. The gateway forwards a request only with a token whose signed content names the server it forwards for and that has not expired
  (an expiry of zero or less means none), and never forwards the host's token: the request carries the gateway's own credentials and
  the authenticated server identifier.\<close>

theorem forwarded_authenticated:
  assumes "handleProxy g rq now = Forward fw"
  shows "\<exists>expStr expUnix.
      raw_url_decode (trim_space (trim_space (drop 7 (trim_space (rq_authorization rq))))) =
        Some (token_message (fw_server_id fw) expStr @ CHR ''.'' # gw_hmac g (gw_key g) (token_message (fw_server_id fw) expStr))
    \<and> parseInt64 expStr = Some expUnix \<and> (expUnix \<le> 0 \<or> now < unix_time expUnix)
    \<and> fw_server_id fw = request_server_id g rq \<and> fw_server_id fw \<noteq> [] \<and> fw_authorization fw = ''Bearer '' @ gw_cloud_token g"
proof -
  let ?token = "trim_space (drop 7 (trim_space (rq_authorization rq)))"
  have fw: "fw_server_id fw = request_server_id g rq" "fw_server_id fw \<noteq> []" "fw_authorization fw = ''Bearer '' @ gw_cloud_token g"
    and valid: "ValidateHostToken g ?token (fw_server_id fw) now = None"
    using assms by (auto simp: handleProxy_def Let_def split: if_splits)
  obtain b where b: "raw_url_decode (trim_space ?token) = Some b"
    using valid by (auto simp: ValidateHostToken_def Let_def split: if_splits option.splits)
  obtain sid expStr sigHex where parts: "split_on CHR ''.'' b = [sid, expStr, sigHex]"
    using valid b by (auto simp: ValidateHostToken_def Let_def split: if_splits list.splits)
  have "b = join_with ''.'' [sid, expStr, sigHex]" using join_split_on [of "CHR ''.''" b] parts by simp
  moreover have "sid = fw_server_id fw" "sigHex = gw_hmac g (gw_key g) (token_message sid expStr)"
    and "\<exists>n. parseInt64 expStr = Some n \<and> (n \<le> 0 \<or> now < unix_time n)"
    using valid b parts fw(2) by (auto simp: ValidateHostToken_def Let_def split: if_splits option.splits)
  ultimately show ?thesis using b fw by (auto simp: token_message_def)
qed

lemma is_digit_dot: "\<not> is_digit CHR ''.''"
  by code_simp

lemma digits_val_digits: "digits_val acc s = Some n \<Longrightarrow> list_all is_digit s"
  by (induction acc s rule: digits_val.induct) (auto split: if_splits)

lemma digits_val_mono: "digits_val acc s = Some n \<Longrightarrow> 0 \<le> acc \<Longrightarrow> acc \<le> n"
proof (induction acc s rule: digits_val.induct)
  case (2 acc c cs)
  then have "0 \<le> digit_val c" by (auto simp: is_digit_def digit_val_def split: if_splits)
  then show ?case using 2 by (auto split: if_splits)
qed simp

lemma parse_unix_exact:
  "digits_val acc s = Some n \<Longrightarrow> 0 \<le> acc \<Longrightarrow> n < 2 ^ 63 \<Longrightarrow> parse_unix acc s = Some n"
proof (induction acc s rule: digits_val.induct)
  case (2 acc c cs)
  then have d: "0 \<le> digit_val c" and digits: "digits_val (10 * acc + digit_val c) cs = Some n" "is_digit c"
    by (auto simp: is_digit_def digit_val_def split: if_splits)
  then have "10 * acc + digit_val c < 2 ^ 63" using digits_val_mono [OF digits(1)] 2 by simp
  then have "wrap64 (acc * 10) = acc * 10" and "wrap64 (acc * 10 + digit_val c) = 10 * acc + digit_val c"
    using 2(3) d by (auto intro!: wrap64_id in_int64_nonneg simp: mult.commute)
  then show ?case using 2 d digits by simp
qed simp

lemma parseInt64_int_str: "0 \<le> n \<Longrightarrow> n < 2 ^ 63 \<Longrightarrow> parseInt64 (int_str n) = Some n"
  using parse_unix_exact [of 0 "nat_str (nat n)" n] digits_val_nat_str [of "nat n"] by (simp add: parseInt64_def int_str_def)

lemma int_str_no_dot: "0 \<le> n \<Longrightarrow> CHR ''.'' \<notin> set (int_str n)"
  using digits_val_digits [OF digits_val_nat_str [of "nat n"]] is_digit_dot by (auto simp: int_str_def list_all_iff)

text \<open>The hypothesis on HMAC is that its hexadecimal text holds no dot.\<close>

definition hex_hmac :: "gateway \<Rightarrow> bool" where
  "hex_hmac g \<longleftrightarrow> (\<forall>k m. CHR ''.'' \<notin> set (gw_hmac g k m))"

lemma issued_token_valid:
  assumes "CHR ''.'' \<notin> set serverID" and "hex_hmac g" and "0 < expUnix" and "expUnix < 2 ^ 63 - 62135596800" and "now < seconds expUnix"
  shows "ValidateHostToken g (issue_token g serverID expUnix) serverID now = None"
proof -
  let ?msg = "token_message serverID (int_str expUnix)"
  let ?plain = "?msg @ CHR ''.'' # gw_hmac g (gw_key g) ?msg"
  have parts: "split_on CHR ''.'' ?plain = [serverID, int_str expUnix, gw_hmac g (gw_key g) ?msg]"
    using assms(1-3) int_str_no_dot [of expUnix] by (simp add: hex_hmac_def token_message_def split_on_append split_on_no_sep)
  have "wrap64 (expUnix + 62135596800) = expUnix + 62135596800" using assms(3,4) by (intro wrap64_id in_int64_nonneg) simp_all
  then have "unix_time expUnix = seconds expUnix" by (simp add: unix_time_def)
  moreover have "parseInt64 (int_str expUnix) = Some expUnix" using assms(3,4) by (intro parseInt64_int_str) simp_all
  ultimately show ?thesis using parts assms(5)
    by (simp add: ValidateHostToken_def issue_token_def trim_raw_url raw_url_encode_Nil raw_url_round_trip Let_def)
qed

lemma split_on_length: "length (split_on c s) = Suc (length (filter (\<lambda>x. x = c) s))"
  by (induction s) (auto split: list.splits)

lemma dotted_token_rejected:
  assumes "CHR ''.'' \<in> set serverID"
  shows "ValidateHostToken g (issue_token g serverID expUnix) expected now = Some ErrUnauthorized"
proof -
  let ?plain = "token_message serverID (int_str expUnix) @ CHR ''.'' # gw_hmac g (gw_key g) (token_message serverID (int_str expUnix))"
  have "filter (\<lambda>x. x = CHR ''.'') serverID \<noteq> []" using assms by (auto simp: filter_empty_conv)
  then have "3 < length (split_on CHR ''.'' ?plain)" by (simp add: split_on_length token_message_def)
  then have "\<nexists>x y z. split_on CHR ''.'' ?plain = [x, y, z]" by auto
  then show ?thesis
    by (auto simp: ValidateHostToken_def issue_token_def trim_raw_url raw_url_encode_Nil raw_url_round_trip Let_def split: list.splits)
qed

text \<open>\<^bold>\<open>C40\<close>. What the poller posts is a token the proxy accepts: for a server identifier without a dot, the token of the result is valid for that
  server at every instant before the second in which it expires. For an identifier with a dot, such as a host name, the token is
  never accepted, since the proxy splits it at the dots.\<close>

theorem token_round_trip:
  assumes "gateway_pollOnce g answer issued posted lastCommandID = (Some r, last')" and "hex_hmac g"
    and "0 < gh_expires_at r div 1000000000" and "gh_expires_at r div 1000000000 < 2 ^ 63 - 62135596800"
    and "now < seconds (gh_expires_at r div 1000000000)"
  shows "ValidateHostToken g (gh_token r) (gh_server_id r) now = (if CHR ''.'' \<in> set (gh_server_id r) then Some ErrUnauthorized else None)"
proof -
  have "gh_token r = issue_token g (gh_server_id r) (gh_expires_at r div 1000000000)"
    using assms(1) by (auto simp: gateway_pollOnce_def Let_def split: option.splits if_splits)
  then show ?thesis using issued_token_valid dotted_token_rejected assms(2-) by simp
qed

lemma bearer_prefix: "has_prefix (to_lower (''Bearer '' @ token)) ''bearer ''"
proof -
  have "to_lower ''Bearer '' = ''bearer ''" by code_simp
  then show ?thesis by (simp add: to_lower_append has_prefix_def del: append.simps)
qed

text \<open>The server identifier is authenticated once, from the query if it has one: a host with a token of its own can send a body that names
  any other server, and the gateway forwards that body unchanged.\<close>

theorem body_names_other_server:
  assumes "rq_query_server_id rq = serverID" and "serverID \<noteq> []" and "trim_space (rq_authorization rq) = ''Bearer '' @ token"
    and "ValidateHostToken g (trim_space token) serverID now = None" and "length body \<le> body_limit"
    and "gw_decode g body = Some [(''server_id'', JStr other)]"
  shows "\<exists>fw. handleProxy g (rq\<lparr>rq_body := body\<rparr>) now = Forward fw \<and> fw_server_id fw = serverID \<and> fw_body fw = body
    \<and> gw_decode g (fw_body fw) = Some [(''server_id'', JStr other)]"
proof -
  have "request_server_id g (rq\<lparr>rq_body := body\<rparr>) = serverID" using assms(1,2) by (simp add: request_server_id_def Let_def)
  then show ?thesis using assms bearer_prefix [of token] by (simp add: handleProxy_def Let_def)
qed

section \<open>Samples\<close>

definition sample_gateway :: gateway where
  "sample_gateway = \<lparr>gw_key = ''k'', gw_hmac = (\<lambda>_ _. ''ab''), gw_cloud_token = ''cloud'', gw_cloud_path = ''/v1/'',
     gw_decode = (\<lambda>b. if b = ''web2'' then Some [(''server_id'', JStr ''web2'')] else None)\<rparr>"

definition sample_token :: string where
  "sample_token = issue_token sample_gateway ''web1'' 100"

definition sample_request :: proxy_request where
  "sample_request = \<lparr>rq_method = ''POST'', rq_path = ''/monitor-agent-results'', rq_raw_query = ''server_id=web1'', rq_query_server_id = ''web1'',
     rq_authorization = ''Bearer '' @ sample_token, rq_content_type = ''application/json'', rq_body = []\<rparr>"

lemma sample_token_valid: "ValidateHostToken sample_gateway sample_token ''web1'' 0 = None"
  unfolding sample_token_def by (rule issued_token_valid) (simp_all add: hex_hmac_def sample_gateway_def seconds_def)

lemma sample_token_trim: "trim_space sample_token = sample_token" "sample_token \<noteq> []"
  by (simp_all add: sample_token_def issue_token_def trim_raw_url raw_url_encode_Nil Let_def token_message_def)

lemma trim_front: "\<not> is_space c \<Longrightarrow> t \<noteq> [] \<Longrightarrow> trim_space t = t \<Longrightarrow> trim_space (c # s @ t) = c # s @ t"
proof -
  assume c: "\<not> is_space c" and t: "t \<noteq> []" "trim_space t = t"
  have "length (dropWhile is_space (rev (dropWhile is_space t))) = length t" using t(2) by (metis length_rev trim_space_def)
  then have "length (dropWhile is_space t) = length t" by (metis length_dropWhile_le length_rev le_antisym)
  then have "dropWhile is_space t = t" by (metis append_same_eq append_Nil length_0_conv length_append self_append_conv2 takeWhile_dropWhile_id add_cancel_left_left)
  then have "dropWhile is_space (rev t) = rev t" using t(2) by (metis rev_rev_ident trim_space_def)
  then have "\<not> is_space (hd (rev t))" using t(1) by (metis dropWhile_eq_self_iff rev_is_Nil_conv)
  then have "dropWhile is_space (rev t @ rev s @ [c]) = rev t @ rev s @ [c]" using t(1)
    by (metis append_is_Nil_conv dropWhile_eq_self_iff hd_append2 rev_is_Nil_conv)
  then show "trim_space (c # s @ t) = c # s @ t" using c by (simp add: trim_space_def)
qed

lemma sample_header: "trim_space (rq_authorization sample_request) = ''Bearer '' @ sample_token"
proof -
  have "\<not> is_space CHR ''B''" by code_simp
  then show ?thesis using trim_front [of "CHR ''B''" sample_token "''earer ''"] sample_token_trim by (simp add: sample_request_def)
qed

lemma sample_forwarded: "\<exists>fw. handleProxy sample_gateway sample_request 0 = Forward fw"
proof -
  have "request_server_id sample_gateway sample_request = ''web1''" by (simp add: request_server_id_def sample_request_def)
  then show ?thesis using sample_header sample_token_trim sample_token_valid bearer_prefix [of sample_token]
    by (simp add: handleProxy_def Let_def)
qed

theorem forwarded_authenticated_witness:
  "\<exists>fw. handleProxy sample_gateway sample_request 0 = Forward fw \<and> fw_server_id fw = request_server_id sample_gateway sample_request"
  using sample_forwarded forwarded_authenticated [of sample_gateway sample_request 0] by metis

definition sample_token_command :: RemoteConfig where
  "sample_token_command = \<lparr>rc_fetched_at = None, rc_monitors = [], rc_legacy_command = [],
     rc_command_v2 = Some \<lparr>pc_type = ''generate_host_token'', pc_command_id = ''c1'', pc_timeout_seconds = 0, pc_execution_mode = [],
       pc_server_id = ''web1'', pc_expires_in_seconds = 60, pc_capability = [], pc_script_b64 = []\<rparr>,
     rc_command_id = [], rc_pending_action = None, rc_pending_audit_job = None\<rparr>"

lemma trim_web1: "trim_space ''web1'' = ''web1''"
  by code_simp

theorem token_round_trip_witness:
  "\<exists>r last'. gateway_pollOnce sample_gateway (Some sample_token_command) 0 True [] = (Some r, last')
     \<and> ValidateHostToken sample_gateway (gh_token r) (gh_server_id r) 1 = None"
proof -
  obtain r last' where r: "gateway_pollOnce sample_gateway (Some sample_token_command) 0 True [] = (Some r, last')"
    and id: "gh_server_id r = ''web1''" "gh_expires_at r = 60000000000"
    by (simp add: gateway_pollOnce_def sample_token_command_def trim_web1 expiry_def seconds64_def Let_def in_int64_def)
  have "ValidateHostToken sample_gateway (gh_token r) (gh_server_id r) 1 = None"
    using token_round_trip [OF r, of 1] by (simp add: id hex_hmac_def sample_gateway_def seconds_def)
  then show ?thesis using r by blast
qed

theorem body_names_other_server_witness:
  "\<exists>fw. handleProxy sample_gateway (sample_request\<lparr>rq_body := ''web2''\<rparr>) 0 = Forward fw \<and> fw_server_id fw = ''web1'' \<and> fw_body fw = ''web2''
     \<and> gw_decode sample_gateway (fw_body fw) = Some [(''server_id'', JStr ''web2'')]"
proof (rule body_names_other_server)
  show "trim_space (rq_authorization sample_request) = ''Bearer '' @ sample_token" by (rule sample_header)
  show "ValidateHostToken sample_gateway (trim_space sample_token) ''web1'' 0 = None" using sample_token_valid sample_token_trim by simp
qed (simp_all add: sample_request_def sample_gateway_def body_limit_def)

end
