(* ===== verification/Agent_Commands.thy ===== *)
theory Agent_Commands
  imports Gateway Call_Logic
begin

text \<open>
  Commands of the backend in the new format (\<open>internal/agent/commands_v2.go\<close>): a Base64 script that is written to a file and run by \<open>bash\<close>
  through the executor, or a host token. The handler's result is what it posts: the command result and, before it, a host token.
  The refresh of detected capabilities after an installation is left out.
\<close>

record CommandResult =
  cx_server_id :: string
  cx_command_id :: string
  cx_command_type :: string
  cx_status :: string
  cx_output :: string
  cx_error :: string
  cx_exit_code :: int
  cx_started_at :: int
  cx_finished_at :: int
  cx_duration_ms :: int

record command_agent =
  ca_exec :: Executor
  ca_server_id :: string
  ca_data_dir :: string
  ca_temp_dir :: string
  ca_gateway_mode :: bool
  ca_gateway :: "gateway option"

type_synonym posted = "CommandResult \<times> GatewayHostTokenResult option"

definition decodeScriptB64 :: "string \<Rightarrow> string + string" where
  "decodeScriptB64 b64 =
     (let t = trim_space b64 in
      if t = [] then Inl ''script_b64 is required''
      else case std_decode t of
          Some b \<Rightarrow> Inr b
        | None \<Rightarrow> (case raw_url_decode t of Some b \<Rightarrow> Inr b | None \<Rightarrow> Inl ''decode script_b64: illegal base64 data''))"

definition stamp_result :: "CommandResult \<Rightarrow> int \<Rightarrow> CommandResult" where
  "stamp_result r finished = r\<lparr>cx_finished_at := finished, cx_duration_ms := milliseconds (finished - cx_started_at r)\<rparr>"

definition finishAndPostCommandResult :: "CommandResult \<Rightarrow> GatewayHostTokenResult option \<Rightarrow> posted cmd" where
  "finishAndPostCommandResult r token = do {
     finished \<leftarrow> clock_now;
     return (stamp_result r finished, token) }"

definition handleGenerateHostToken :: "command_agent \<Rightarrow> PendingCommand \<Rightarrow> (GatewayHostTokenResult \<Rightarrow> string option) \<Rightarrow> CommandResult \<Rightarrow> posted cmd" where
  "handleGenerateHostToken d c post result =
     (if \<not> ca_gateway_mode d
      then finishAndPostCommandResult (result\<lparr>cx_error := ''generate_host_token only supported in gateway mode''\<rparr>) None
      else case ca_gateway d of
          None \<Rightarrow> finishAndPostCommandResult (result\<lparr>cx_error := ''gateway.token_hmac_key is required''\<rparr>) None
        | Some g \<Rightarrow>
            if trim_space (gw_key g) = []
            then finishAndPostCommandResult (result\<lparr>cx_error := ''gateway.token_hmac_key is required''\<rparr>) None
            else let serverID = trim_space (pc_server_id c) in
              if serverID = [] then finishAndPostCommandResult (result\<lparr>cx_error := ''server_id is required''\<rparr>) None
              else do {
                now \<leftarrow> clock_now;
                let exp = expiry now (pc_expires_in_seconds c) (seconds 86400);
                let tr = \<lparr>gh_command_id = pc_command_id c, gh_server_id = serverID,
                  gh_token = issue_token g serverID (exp div 1000000000), gh_expires_at = exp\<rparr>;
                case post tr of
                  Some e \<Rightarrow> finishAndPostCommandResult (result\<lparr>cx_error := e\<rparr>) (Some tr)
                | None \<Rightarrow> finishAndPostCommandResult
                    (result\<lparr>cx_status := ''success'', cx_output := ''generated host token'', cx_exit_code := 0\<rparr>) (Some tr) })"

definition script_path :: "command_agent \<Rightarrow> PendingCommand \<Rightarrow> string" where
  "script_path d c =
     path_join (if trim_space (ca_data_dir d) = [] then ca_temp_dir d else ca_data_dir d) (''askio-cmd-'' @ pc_command_id c @ ''.sh'')"

definition run_script :: "command_agent \<Rightarrow> PendingCommand \<Rightarrow> int64 \<Rightarrow> string \<Rightarrow> CommandResult \<Rightarrow> posted cmd" where
  "run_script d c timeout script result = do {
     _ \<leftarrow> write_file (script_path d c) script;
     (exRes, execErr) \<leftarrow> run_command (ca_exec d) ''/bin/bash'' [script_path d c] (whole_seconds timeout);
     finished \<leftarrow> clock_now;
     return (stamp_result (result\<lparr>cx_output := Redact (er_output exRes), cx_exit_code := er_exit exRes,
       cx_status := (if execErr = None then ''success'' else ''failed''),
       cx_error := (case execErr of None \<Rightarrow> cx_error result | Some e \<Rightarrow> e)\<rparr>) finished, None) }"

definition command_mode :: "PendingCommand \<Rightarrow> string" where
  "command_mode c = (let m = to_lower (trim_space (pc_execution_mode c)) in if m = [] then ''live'' else m)"

definition dry_summary :: "PendingCommand \<Rightarrow> string" where
  "dry_summary c = ''[DRY RUN] would execute '' @ pc_type c @ (if pc_capability c \<noteq> [] then '' capability='' @ pc_capability c else [])"

definition handlePendingCommandV2 :: "command_agent \<Rightarrow> PendingCommand \<Rightarrow> (GatewayHostTokenResult \<Rightarrow> string option) \<Rightarrow> posted cmd" where
  "handlePendingCommandV2 d c post = do {
     started \<leftarrow> clock_now;
     let result = \<lparr>cx_server_id = ca_server_id d, cx_command_id = pc_command_id c, cx_command_type = pc_type c, cx_status = ''failed'', cx_output = [],
       cx_error = [], cx_exit_code = 0, cx_started_at = started, cx_finished_at = 0, cx_duration_ms = 0\<rparr>;
     let t = seconds64 (pc_timeout_seconds c);
     let timeout = (if t \<le> 0 then seconds64 300 else t);
     if pc_command_id c = [] \<or> pc_type c = []
     then finishAndPostCommandResult (result\<lparr>cx_error := ''missing command_id or type''\<rparr>) None
     else if command_mode c = ''dry_run''
     then finishAndPostCommandResult (result\<lparr>cx_status := ''success'', cx_output := dry_summary c, cx_exit_code := 0\<rparr>) None
     else if pc_type c = ''generate_host_token'' then handleGenerateHostToken d c post result
     else case decodeScriptB64 (pc_script_b64 c) of
         Inl e \<Rightarrow> finishAndPostCommandResult (result\<lparr>cx_error := e\<rparr>) None
       | Inr script \<Rightarrow> run_script d c timeout script result }"

section \<open>What a command runs\<close>

definition runs_script :: "command_agent \<Rightarrow> PendingCommand \<Rightarrow> bool" where
  "runs_script d c \<longleftrightarrow> pc_command_id c \<noteq> [] \<and> pc_type c \<noteq> [] \<and> pc_type c \<noteq> ''generate_host_token'' \<and> command_mode c \<noteq> ''dry_run''
     \<and> (\<exists>script. decodeScriptB64 (pc_script_b64 c) = Inr script)"

definition script_may :: "command_agent \<Rightarrow> PendingCommand \<Rightarrow> string \<Rightarrow> string list \<Rightarrow> bool" where
  "script_may d c command args \<longleftrightarrow> runs_script d c \<and> command = ''/bin/bash'' \<and> args = [script_path d c]"

interpretation script_policy: command_policy "ca_exec d" "script_may d c" False "permitted (ca_exec d) (script_may d c)"
  by unfold_locales (auto simp: permitted_def)

lemma finish_emits: "emits S (finishAndPostCommandResult r token)"
  unfolding finishAndPostCommandResult_def by (intro call_intros)

lemma token_emits: "emits S (handleGenerateHostToken d c post result)"
  unfolding handleGenerateHostToken_def by (intro call_intros finish_emits)

text \<open>A command runs nothing but its script: every call is \<open>bash\<close> on the script file of the command, through the executor and with a
  positive time limit, and only for a complete command that is not a dry run, not a token request and whose script decodes.\<close>

theorem command_v2_confined:
  assumes "run_state (handlePendingCommandV2 d c post) h = (out, h')"
  shows "\<exists>cs. ch_calls h' = ch_calls h @ cs \<and> list_all (permitted (ca_exec d) (script_may d c)) cs \<and> (\<not> runs_script d c \<longrightarrow> cs = [])"
proof -
  have "emits (permitted (ca_exec d) (script_may d c)) (handlePendingCommandV2 d c post)"
    unfolding handlePendingCommandV2_def run_script_def
    by (intro call_intros finish_emits token_emits script_policy.command_ok) (auto simp: script_may_def runs_script_def)
  from emitsD [OF this assms] obtain cs where cs: "ch_calls h' = ch_calls h @ cs" "list_all (permitted (ca_exec d) (script_may d c)) cs"
    by blast
  moreover have "cs = []" if "\<not> runs_script d c"
  proof (cases cs)
    case (Cons x xs)
    then show ?thesis using cs(2) that by (auto simp: permitted_def script_may_def)
  qed simp
  ultimately show ?thesis by blast
qed

definition sample_command_agent :: command_agent where
  "sample_command_agent = \<lparr>ca_exec = SystemdRunExecutor, ca_server_id = ''srv'', ca_data_dir = ''/var/lib/askio'', ca_temp_dir = ''/tmp'',
     ca_gateway_mode = False, ca_gateway = None\<rparr>"

definition sample_script_command :: PendingCommand where
  "sample_script_command = \<lparr>pc_type = ''exec_script'', pc_command_id = ''c1'', pc_timeout_seconds = 60, pc_execution_mode = [], pc_server_id = [],
     pc_expires_in_seconds = 0, pc_capability = [], pc_script_b64 = ''dHJ1ZQ==''\<rparr>"

definition sample_command_host :: command_host where
  "sample_command_host = \<lparr>ch_now = 0, ch_delays = [], ch_outcomes = [], ch_probes = [], ch_writes = [], ch_files = (\<lambda>_. None), ch_calls = []\<rparr>"

abbreviation sample_command_run :: "posted \<times> command_host" where
  "sample_command_run \<equiv> run_state (handlePendingCommandV2 sample_command_agent sample_script_command (\<lambda>_. None)) sample_command_host"

theorem command_v2_confined_witness:
  "\<exists>cs. ch_calls (snd sample_command_run) = ch_calls sample_command_host @ cs
     \<and> list_all (permitted (ca_exec sample_command_agent) (script_may sample_command_agent sample_script_command)) cs
     \<and> (\<not> runs_script sample_command_agent sample_script_command \<longrightarrow> cs = [])"
  by (rule command_v2_confined [where post = "\<lambda>_. None" and out = "fst sample_command_run"]) simp

end
