(* ===== verification/Redis_Archive.thy ===== *)
theory Redis_Archive
  imports File_Manifest Go_Effects
begin

text \<open>
  The archive of a Redis or Valkey instance (\<open>internal/migration/redis.go\<close>): a header, one record per key with its absolute
  expiration and its serialized value, and a trailer that repeats what the records must add up to. The reader refuses an archive whose
  records are out of order, outside the databases of the binding, or do not add up.

  Bytes are characters. SHA-256 is the parameter of \<^theory_text>\<open>Canonical\<close>; a running hash is the text written to it. The
  text of a trailer is a pair of parameters, \<open>json.Marshal\<close> and the strict decoder.
\<close>

section \<open>Limits\<close>

definition redisArchiveSchema :: string where
  "redisArchiveSchema = ''operations.migration.redis-archive.v1''"

definition redisArchiveHandle :: string where
  "redisArchiveHandle = ''database.redis''"

definition redisArchiveMagic :: string where
  "redisArchiveMagic = ''ASKIO-REDIS-V1'' @ [CHR 0x0A]"

definition maximumRedisBytes :: int64 where
  "maximumRedisBytes = 500 * 1024 * 1024 * 1024"

definition maximumRedisKeys :: int64 where
  "maximumRedisKeys = 1000000"

definition maximumRedisKeyBytes :: int64 where
  "maximumRedisKeyBytes = 1024 * 1024"

definition maximumRedisKeyIndexBytes :: int64 where
  "maximumRedisKeyIndexBytes = 64 * 1024 * 1024"

definition maximumRedisValueBytes :: int64 where
  "maximumRedisValueBytes = 64 * 1024 * 1024"

definition maximumRedisDatabases :: nat where
  "maximumRedisDatabases = 8"

definition maximumRedisTrailerBytes :: int64 where
  "maximumRedisTrailerBytes = 64 * 1024"

definition maximumRedisArchiveBytes :: int64 where
  "maximumRedisArchiveBytes = maximumRedisBytes
     + (maximumRedisKeys * 23 + maximumRedisTrailerBytes + int (length redisArchiveMagic) + 5)"

definition redisExpiryTolerance :: int64 where
  "redisExpiryTolerance = 2000"

lemmas redis_limits = maximumRedisBytes_def maximumRedisKeys_def maximumRedisKeyBytes_def maximumRedisKeyIndexBytes_def
  maximumRedisValueBytes_def maximumRedisDatabases_def maximumRedisTrailerBytes_def maximumRedisArchiveBytes_def redisArchiveMagic_def

section \<open>Data\<close>

record redisACLMapping =
  am_source :: string
  am_target :: string

record redisBinding =
  rdb_schema_version :: string
  rdb_engine :: string
  rdb_mode :: string
  rdb_host :: string
  rdb_port :: int
  rdb_username :: string
  rdb_password :: string
  rdb_tls_mode :: string
  rdb_tls_root_cert_pem :: string
  rdb_state_mode :: string
  rdb_database_indexes :: "int list"
  rdb_acl_map :: "redisACLMapping list"
  rdb_reset_allowed :: bool

record redisKeyRecord =
  kr_database :: int
  kr_expiry :: int64
  kr_key :: string
  kr_value :: string

record redisScanSummary =
  rs_key_count :: int64
  rs_persistent_count :: int64
  rs_volatile_count :: int64
  rs_database_bytes :: int64
  rs_all_digest :: string
  rs_persistent_digest :: string

record redisServerFacts =
  rf_engine :: string
  rf_version :: string
  rf_series :: string
  rf_persistence :: string
  rf_modules :: nat

record redisArchiveTrailer =
  at_schema_version :: string
  at_engine :: string
  at_series :: string
  at_state_mode :: string
  at_persistence :: string
  at_database_indexes :: "int list option"
  at_acl_digest :: string
  at_record_count :: int64
  at_excluded_count :: int64
  at_persistent_count :: int64
  at_volatile_count :: int64
  at_all_digest :: string
  at_persistent_digest :: string
  at_manifest_digest :: string

text \<open>Errors carry the message of the source; the errors of other packages keep their type.\<close>

datatype redis_err =
    RedisError string
  | RedisInput input_err
  | RedisScope scope_err
  | RedisManifest manifest_err
  | SystemCall
  | DiskCapacity
  | Unfinished
  | Interrupted

section \<open>Records\<close>

text \<open>\<open>binary.BigEndian.PutUint\<close> into \<open>k\<close> bytes, and its inverse.\<close>

primrec big_endian :: "nat \<Rightarrow> nat \<Rightarrow> string" where
  "big_endian 0 n = []"
| "big_endian (Suc k) n = big_endian k (n div 256) @ [char_of (n mod 256)]"

definition big_endian_value :: "string \<Rightarrow> nat" where
  "big_endian_value s = foldl (\<lambda>a c. a * 256 + of_char c) 0 s"

definition uint64 :: "int64 \<Rightarrow> nat" where
  "uint64 i = nat (i mod 2 ^ 64)"

definition updateRedisRecordDigest :: "string \<Rightarrow> redisKeyRecord \<Rightarrow> string" where
  "updateRedisRecordDigest target record = target
     @ big_endian 2 (nat (kr_database record mod 2 ^ 16)) @ big_endian 8 (uint64 (kr_expiry record))
     @ big_endian 4 (length (kr_key record) mod 2 ^ 32) @ big_endian 4 (length (kr_value record) mod 2 ^ 32)
     @ kr_key record @ kr_value record"

definition redisDigestString :: "crypto \<Rightarrow> string \<Rightarrow> string" where
  "redisDigestString cr target = ''sha256:'' @ sha256_hex cr target"

definition canonicalRedisKeys :: "string list \<Rightarrow> string list" where
  "canonicalRedisKeys keys = remdups_adj (sort keys)"

text \<open>The bytes \<open>writeRedisRecord\<close> writes, tag included.\<close>

definition writeRedisRecord :: "redisKeyRecord \<Rightarrow> redis_err + string" where
  "writeRedisRecord record =
     requireR (kr_key record \<noteq> [] \<and> int (length (kr_key record)) \<le> maximumRedisKeyBytes
         \<and> kr_value record \<noteq> [] \<and> int (length (kr_value record)) \<le> maximumRedisValueBytes) (RedisError ''Redis archive record exceeds its safety limit'')
     (Inr (char_of (1 :: nat) # big_endian 2 (nat (kr_database record mod 2 ^ 16)) @ big_endian 8 (uint64 (kr_expiry record))
         @ big_endian 4 (length (kr_key record) mod 2 ^ 32) @ big_endian 8 (length (kr_value record) mod 2 ^ 64)
         @ kr_key record @ kr_value record))"

section \<open>Digests of an instance\<close>

definition json_ints :: "int list option \<Rightarrow> jval" where
  "json_ints is = (case is of None \<Rightarrow> JNull | Some xs \<Rightarrow> JArr (map JInt xs))"

definition redis_digest :: "crypto \<Rightarrow> jval \<Rightarrow> string" where
  "redis_digest cr v = Digest (float_text cr) (sha256_hex cr) v"

definition redisManifestDigest :: "crypto \<Rightarrow> redisServerFacts \<Rightarrow> redisBinding \<Rightarrow> string \<Rightarrow> redisScanSummary \<Rightarrow> string" where
  "redisManifestDigest cr facts binding aclDigest summary =
     (let cached = rdb_state_mode binding = ''cache'';
          recordDigest = if cached then redisDigestString cr [] else rs_all_digest summary;
          recordCount = if cached then 0 else rs_key_count summary in
      redis_digest cr (JObj [
        (''schema_version'', JStr ''operations.migration.redis-manifest.v1''), (''engine'', JStr (rf_engine facts)),
        (''version_series'', JStr (rf_series facts)), (''state_mode'', JStr (rdb_state_mode binding)),
        (''persistence_mode'', JStr (rf_persistence facts)), (''database_indexes'', json_ints (Some (rdb_database_indexes binding))),
        (''acl_policy_digest'', JStr aclDigest), (''record_count'', JInt recordCount), (''record_digest'', JStr recordDigest)]))"

definition redisSupportedSeries :: "string \<Rightarrow> string \<Rightarrow> bool" where
  "redisSupportedSeries engine series \<longleftrightarrow>
     engine = ''redis'' \<and> series \<in> {''7.2'', ''7.4'', ''8.2''} \<or> engine = ''valkey'' \<and> series \<in> {''7.2'', ''8.1'', ''9.1''}"

section \<open>Reading an archive\<close>

text \<open>The variables of the loop of \<open>readRedisArchive\<close>.\<close>

record archive_reader =
  ar_all :: string
  ar_persistent_text :: string
  ar_count :: int64
  ar_persistent :: int64
  ar_volatile :: int64
  ar_database_bytes :: int64
  ar_key_index_bytes :: int64
  ar_previous_database :: int
  ar_previous_key :: string

definition fresh_reader :: archive_reader where
  "fresh_reader = \<lparr>ar_all = [], ar_persistent_text = [], ar_count = 0, ar_persistent = 0, ar_volatile = 0, ar_database_bytes = 0,
     ar_key_index_bytes = 0, ar_previous_database = -1, ar_previous_key = []\<rparr>"

text \<open>\<open>io.ReadFull\<close>: the bytes read and what is left, or an error at the end of the file.\<close>

definition read_full :: "redis_err \<Rightarrow> nat \<Rightarrow> string \<Rightarrow> redis_err + (string \<times> string)" where
  "read_full e n s = (if n \<le> length s then Inr (take n s, drop n s) else Inl e)"

definition add_record :: "redisKeyRecord \<Rightarrow> archive_reader \<Rightarrow> archive_reader" where
  "add_record r a = a\<lparr>ar_all := updateRedisRecordDigest (ar_all a) r,
     ar_persistent_text := (if kr_expiry r = -1 then updateRedisRecordDigest (ar_persistent_text a) r else ar_persistent_text a),
     ar_count := ar_count a + 1,
     ar_persistent := (if kr_expiry r = -1 then ar_persistent a + 1 else ar_persistent a),
     ar_volatile := (if kr_expiry r = -1 then ar_volatile a else ar_volatile a + 1),
     ar_database_bytes := ar_database_bytes a + int (length (kr_key r)) + int (length (kr_value r)),
     ar_key_index_bytes := ar_key_index_bytes a + int (length (kr_key r)),
     ar_previous_database := kr_database r, ar_previous_key := kr_key r\<rparr>"

definition before_record :: "archive_reader \<Rightarrow> redisKeyRecord \<Rightarrow> bool" where
  "before_record a r \<longleftrightarrow>
     \<not> (kr_database r < ar_previous_database a \<or> kr_database r = ar_previous_database a \<and> kr_key r \<le> ar_previous_key a)"

text \<open>One record after its tag. The sums cannot overflow: every term is checked against its limit before it is added.\<close>

definition read_record :: "redisBinding \<Rightarrow> archive_reader \<Rightarrow> string \<Rightarrow> redis_err + (redisKeyRecord \<times> archive_reader \<times> string)" where
  "read_record b a s =
     thenR (read_full (RedisError ''Redis archive record is truncated'') 22 s) (\<lambda>(fixed, s1).
     let database = int (big_endian_value (take 2 fixed));
         expiry = wrap64 (int (big_endian_value (take 8 (drop 2 fixed))));
         keyLength = int (big_endian_value (take 4 (drop 10 fixed)));
         valueLength = wrap64 (int (big_endian_value (take 8 (drop 14 fixed)))) in
     requireR (database \<in> set (rdb_database_indexes b) \<and> \<not> keyLength < 1 \<and> \<not> keyLength > maximumRedisKeyBytes
         \<and> \<not> valueLength < 1 \<and> \<not> valueLength > maximumRedisValueBytes \<and> \<not> expiry < -1) (RedisError ''Redis archive record contract is invalid'')
     (requireR (\<not> ar_key_index_bytes a + keyLength > maximumRedisKeyIndexBytes
         \<and> \<not> ar_database_bytes a + keyLength + valueLength > maximumRedisBytes) (RedisError ''Redis archive payload exceeds its V1 memory or byte limit'')
     (thenR (read_full (RedisError ''Redis archive key is truncated'') (nat keyLength) s1) (\<lambda>(key, s2).
     thenR (read_full (RedisError ''Redis archive value is truncated'') (nat valueLength) s2) (\<lambda>(value, s3).
     let r = \<lparr>kr_database = database, kr_expiry = expiry, kr_key = key, kr_value = value\<rparr> in
     requireR (before_record a r) (RedisError ''Redis archive records are not canonical'')
     (requireR (\<not> ar_count a + 1 > maximumRedisKeys) (RedisError ''Redis archive exceeds the V1 key limit'')
     (Inr (r, add_record r a, s3))))))))"

lemma read_record_shrinks:
  assumes "read_record b a s = Inr (r, a', s')"
  shows "length s' \<le> length s"
  using assms
  by (auto simp: read_record_def read_full_def requireR_def thenR_def Let_def split: if_splits sum.splits prod.splits)

function read_records :: "redisBinding \<Rightarrow> (redisKeyRecord \<Rightarrow> ('h, redis_err, unit) op) \<Rightarrow> archive_reader \<Rightarrow> string
    \<Rightarrow> ('h, redis_err, archive_reader \<times> string) op" where
  "read_records b visitor a s =
     (case s of
        [] \<Rightarrow> errE (RedisError ''Redis archive is truncated'')
      | tag # rest \<Rightarrow>
          if tag = char_of (255 :: nat) then okE (a, rest)
          else guardE (tag = char_of (1 :: nat) \<and> rdb_state_mode b \<noteq> ''cache'') (RedisError ''Redis archive contains an unexpected record'')
            (case read_record b a rest of
               Inl e \<Rightarrow> errE e
             | Inr (r, a', rest') \<Rightarrow> tryE (visitor r) (\<lambda>_. read_records b visitor a' rest')))"
  by pat_completeness auto

termination
  by (relation "measure (\<lambda>(b, visitor, a, s). length s)") (auto dest: read_record_shrinks)

declare read_records.simps [simp del]

record trailer_codec =
  tc_marshal :: "redisArchiveTrailer \<Rightarrow> string"
  tc_decode :: "string \<Rightarrow> redisArchiveTrailer option"

text \<open>What the loop has counted, as the summary the manifest is computed from. Its bytes are left at zero.\<close>

definition reader_summary :: "redisArchiveTrailer \<Rightarrow> archive_reader \<Rightarrow> redisScanSummary" where
  "reader_summary t a = \<lparr>rs_key_count = ar_count a, rs_persistent_count = ar_persistent a, rs_volatile_count = ar_volatile a,
     rs_database_bytes = 0, rs_all_digest = at_all_digest t, rs_persistent_digest = at_persistent_digest t\<rparr>"

definition trailer_facts :: "redisArchiveTrailer \<Rightarrow> redisServerFacts" where
  "trailer_facts t = \<lparr>rf_engine = at_engine t, rf_version = [], rf_series = at_series t, rf_persistence = at_persistence t, rf_modules = 0\<rparr>"

definition trailer_agrees :: "crypto \<Rightarrow> redisBinding \<Rightarrow> string \<Rightarrow> archive_reader \<Rightarrow> redisArchiveTrailer \<Rightarrow> bool" where
  "trailer_agrees cr b acl a t \<longleftrightarrow>
     at_schema_version t = redisArchiveSchema \<and> at_engine t = rdb_engine b \<and> redisSupportedSeries (at_engine t) (at_series t)
     \<and> at_state_mode t = rdb_state_mode b \<and> at_persistence t \<in> {''rdb'', ''aof''} \<and> at_acl_digest t = acl
     \<and> redis_digest cr (json_ints (at_database_indexes t)) = redis_digest cr (json_ints (Some (rdb_database_indexes b)))
     \<and> at_record_count t = ar_count a \<and> at_persistent_count t = ar_persistent a \<and> at_volatile_count t = ar_volatile a
     \<and> at_all_digest t = redisDigestString cr (ar_all a) \<and> at_persistent_digest t = redisDigestString cr (ar_persistent_text a)
     \<and> at_record_count t = wrap64 (at_persistent_count t + at_volatile_count t)
     \<and> \<not> (rdb_state_mode b = ''cache'' \<and> (at_record_count t \<noteq> 0 \<or> at_excluded_count t < 0))
     \<and> \<not> (rdb_state_mode b = ''durable'' \<and> at_excluded_count t \<noteq> 0)"

definition read_trailer ::
  "crypto \<Rightarrow> trailer_codec \<Rightarrow> redisBinding \<Rightarrow> string \<Rightarrow> archive_reader \<Rightarrow> string \<Rightarrow> redis_err + redisArchiveTrailer" where
  "read_trailer cr tc b acl a s =
     thenR (read_full (RedisError ''Redis archive trailer is truncated'') 4 s) (\<lambda>(len, s1).
     let trailerLength = big_endian_value len in
     requireR (\<not> trailerLength < 2 \<and> \<not> int trailerLength > maximumRedisTrailerBytes) (RedisError ''Redis archive trailer length is invalid'')
     (thenR (read_full (RedisError ''Redis archive trailer is truncated'') trailerLength s1) (\<lambda>(encoded, s2).
     requireR (s2 = []) (RedisError ''Redis archive contains trailing data'')
     (case tc_decode tc encoded of
        None \<Rightarrow> Inl (RedisError ''Redis archive trailer is invalid'')
      | Some t \<Rightarrow>
          requireR (trailer_agrees cr b acl a t) (RedisError ''Redis archive trailer contract is invalid'')
          (requireR (redisManifestDigest cr (trailer_facts t) b acl (reader_summary t a) = at_manifest_digest t) (RedisError ''Redis archive manifest verification failed'')
          (Inr t))))))"

definition lift_result :: "'e + 'a \<Rightarrow> ('h, 'e, 'a) op" where
  "lift_result r = return r"

lemma run_lift_result [simp]: "run_state (lift_result r) h = (r, h)"
  by (simp add: lift_result_def)

text \<open>The archive at a path: its bytes, or \<^const>\<open>None\<close> when there is no regular file.\<close>

definition readRedisArchive ::
  "crypto \<Rightarrow> trailer_codec \<Rightarrow> string option \<Rightarrow> redisBinding \<Rightarrow> string \<Rightarrow> (redisKeyRecord \<Rightarrow> ('h, redis_err, unit) op)
     \<Rightarrow> ('h, redis_err, redisArchiveTrailer) op" where
  "readRedisArchive cr tc file b acl visitor =
     (case file of
        None \<Rightarrow> errE (RedisError ''Redis archive is unsafe or outside its size limit'')
      | Some content \<Rightarrow>
          guardE (\<not> int (length content) < int (length redisArchiveMagic) + 5 \<and> \<not> int (length content) > maximumRedisArchiveBytes) (RedisError ''Redis archive is unsafe or outside its size limit'')
          (guardE (take (length redisArchiveMagic) content = redisArchiveMagic) (RedisError ''Redis archive header is invalid'')
          (tryE (read_records b visitor fresh_reader (drop (length redisArchiveMagic) content)) (\<lambda>(a, s).
           lift_result (read_trailer cr tc b acl a s)))))"

end
