(* ===== verification/Redis.thy ===== *)
theory Redis
  imports Redis_Archive Compose_Policy
begin

text \<open>
  The Redis and Valkey primitives of \<open>internal/migration/redis.go\<close>: binding and contract, inspection of an instance, dump into an
  archive, reset of the target, restore, verification.

  The server and its client library are parameters: \<open>redis_api\<close> holds one computation on the server's state per command the code sends,
  with the answers as data. The host holds that state, the clock, the staged files, the reset markers, the variables the
  callbacks of the code capture, a trace of the commands that change the server, and scripts for what may fail: system calls and
  progress reports. SCAN is repeated until the server returns the cursor 0; the number of rounds is bounded by \<open>re_fuel\<close>, and
  running out of it is the outcome \<open>Unfinished\<close>.
\<close>

section \<open>Data\<close>

definition redisBindingSchema :: string where
  "redisBindingSchema = ''operations.migration.redis-binding.v1''"

definition redisDatabaseContractSchema :: string where
  "redisDatabaseContractSchema = ''operations.migration.database-contract.v1''"

definition redisMinimumRestoreTTL :: int where
  "redisMinimumRestoreTTL = 30000"

record redisDatabaseContract =
  rc_schema_version :: string
  rc_source_engine :: string
  rc_target_engine :: string
  rc_state_mode :: string
  rc_database_indexes :: "int list"
  rc_acl_map :: "redisACLMapping list"

record redisInspection =
  ri_exists :: bool
  ri_empty :: bool
  ri_engine :: string
  ri_version :: string
  ri_series :: string
  ri_state_mode :: string
  ri_persistence :: string
  ri_modules :: nat
  ri_database_indexes :: "int list"
  ri_key_count :: int64
  ri_persistent_count :: int64
  ri_volatile_count :: int64
  ri_database_bytes :: int64
  ri_acl_digest :: string
  ri_manifest_digest :: string
  ri_empty_digest :: string

record redisResetMarker =
  rm_schema_version :: string
  rm_migration_id :: string
  rm_binding_id :: string
  rm_instance_identity :: string
  rm_initial_empty_digest :: string
  rm_generation :: int
  rm_updated_at :: stamp

text \<open>Answers of the client library: \<open>redis.Nil\<close>, an error, or a value; the untyped answers of \<open>client.Do\<close>.\<close>

datatype 'a redis_answer = NilAnswer | FailedAnswer | Answer 'a

datatype redis_value = RArray "redis_value list" | RText string | RNull | ROther

record 's redis_api =
  ra_ping :: "int \<Rightarrow> ('s, bool) state"
  ra_info :: "int \<Rightarrow> ('s, string option) state"
  ra_role :: "int \<Rightarrow> ('s, redis_value option) state"
  ra_modules :: "int \<Rightarrow> ('s, redis_value option) state"
  ra_config :: "int \<Rightarrow> string \<Rightarrow> ('s, (string, string) gomap option) state"
  ra_acl_list :: "int \<Rightarrow> ('s, string list option) state"
  ra_dbsize :: "int \<Rightarrow> ('s, int64 option) state"
  ra_scan :: "int \<Rightarrow> nat \<Rightarrow> ('s, (string list \<times> nat) option) state"
  ra_type :: "int \<Rightarrow> string \<Rightarrow> ('s, string redis_answer) state"
  ra_dump :: "int \<Rightarrow> string \<Rightarrow> ('s, string redis_answer) state"
  ra_expiretime :: "int \<Rightarrow> string \<Rightarrow> ('s, int redis_answer) state"
  ra_flushdb :: "int \<Rightarrow> ('s, bool) state"
  ra_restore :: "int \<Rightarrow> string \<Rightarrow> int64 \<Rightarrow> string \<Rightarrow> bool \<Rightarrow> ('s, bool) state"
  ra_exists :: "int \<Rightarrow> string \<Rightarrow> ('s, int64 option) state"

text \<open>What a binding resolver delivers: the value of the strict decoder and whether anything follows it, or \<^const>\<open>None\<close> when it cannot be decoded.\<close>

type_synonym decoded_binding = "(redisBinding \<times> bool) option"

record 's redis_env =
  re_crypto :: crypto
  re_codec :: trailer_codec
  re_api :: "'s redis_api"
  re_bindings :: "(TaskEnvelope \<Rightarrow> string \<Rightarrow> decoded_binding option) option"
  re_contract :: "jval \<Rightarrow> redisDatabaseContract option"
  re_loopback :: "string \<Rightarrow> bool"
  re_root_ok :: "string \<Rightarrow> bool"
  re_resolver :: ScopeResolver
  re_state_dir :: string
  re_temporary :: string
  re_statfs :: "string \<Rightarrow> (int \<times> int \<times> int) option"
  re_tree :: "string \<Rightarrow> (string, string) gomap \<Rightarrow> ftree option"
  re_map_order :: "int list \<Rightarrow> int list"
  re_fuel :: nat

datatype redis_event = Flushed int | Restored int string | Reported string int64 "int64 option"

record 's redis_host =
  rx_server :: 's
  rx_clock :: "nat \<Rightarrow> int"
  rx_reads :: nat
  rx_faults :: "bool list"
  rx_refusals :: "bool list"
  rx_lstat :: "string \<Rightarrow> lstat_result"
  rx_files :: "(string, string) gomap"
  rx_markers :: "(string, redisResetMarker option) gomap"
  rx_written :: int64
  rx_restored :: int64
  rx_expected :: "(int \<times> string, int64) gomap"
  rx_trace :: "redis_event list"

type_synonym ('s, 'a) rdo = "('s redis_host, redis_err, 'a) op"

section \<open>The environment\<close>

definition ask :: "('s, 'a) state \<Rightarrow> ('s redis_host, 'a) state" where
  "ask m = State (\<lambda>h. case run_state m (rx_server h) of (x, s) \<Rightarrow> (x, h\<lparr>rx_server := s\<rparr>))"

definition trace_event :: "redis_event \<Rightarrow> ('s redis_host, unit) state" where
  "trace_event ev = modify (\<lambda>h. h\<lparr>rx_trace := rx_trace h @ [ev]\<rparr>)"

text \<open>\<open>time.Now().UnixMilli()\<close>\<close>

definition now_milli :: "('s redis_host, int) state" where
  "now_milli = State (\<lambda>h. (rx_clock h (rx_reads h), h\<lparr>rx_reads := Suc (rx_reads h)\<rparr>))"

definition system_call :: "('s redis_host \<Rightarrow> 's redis_host) \<Rightarrow> ('s, unit) rdo" where
  "system_call f = State (\<lambda>h.
     (case rx_faults h of
        [] \<Rightarrow> (Inr (), f h)
      | failed # later \<Rightarrow>
          if failed then (Inl SystemCall, h\<lparr>rx_faults := later\<rparr>) else (Inr (), f (h\<lparr>rx_faults := later\<rparr>))))"

definition put_file :: "string \<Rightarrow> string \<Rightarrow> 's redis_host \<Rightarrow> 's redis_host" where
  "put_file path content h = h\<lparr>rx_files := go_put path content (rx_files h)\<rparr>"

definition remove_file :: "string \<Rightarrow> 's redis_host \<Rightarrow> 's redis_host" where
  "remove_file path h = h\<lparr>rx_files := go_del path (rx_files h)\<rparr>"

definition append_file :: "string \<Rightarrow> string \<Rightarrow> 's redis_host \<Rightarrow> 's redis_host" where
  "append_file path bytes h = put_file path (case map_of (rx_files h) path of Some old \<Rightarrow> old @ bytes | None \<Rightarrow> bytes) h"

definition rename_file :: "string \<Rightarrow> string \<Rightarrow> 's redis_host \<Rightarrow> 's redis_host" where
  "rename_file old new h =
     (case map_of (rx_files h) old of Some content \<Rightarrow> put_file new content (remove_file old h) | None \<Rightarrow> h)"

definition progress_report :: "string \<Rightarrow> int64 \<Rightarrow> int64 option \<Rightarrow> ('s, unit) rdo" where
  "progress_report phase completed totalBytes = do {
     trace_event (Reported phase completed totalBytes);
     State (\<lambda>h. case rx_refusals h of
        [] \<Rightarrow> (Inr (), h)
      | refused # later \<Rightarrow> (if refused then Inl Interrupted else Inr (), h\<lparr>rx_refusals := later\<rparr>)) }"

primrec foldE :: "('a \<Rightarrow> 'b \<Rightarrow> ('h, 'e, 'b) op) \<Rightarrow> 'a list \<Rightarrow> 'b \<Rightarrow> ('h, 'e, 'b) op" where
  "foldE f [] acc = okE acc"
| "foldE f (x # xs) acc = tryE (f x acc) (foldE f xs)"

definition redis_input :: "input_err + 'a \<Rightarrow> ('s, 'a) rdo" where
  "redis_input r = lift_result (mapErr RedisInput r)"

section \<open>Bindings and contracts\<close>

definition redisPrincipalPattern :: "string \<Rightarrow> bool" where
  "redisPrincipalPattern s \<longleftrightarrow> head_run is_alnum (\<lambda>c. is_alnum c \<or> c \<in> set ''_.-'') 0 127 s"

fun ascending_indexes :: "int \<Rightarrow> int list \<Rightarrow> bool" where
  "ascending_indexes previous [] \<longleftrightarrow> True"
| "ascending_indexes previous (index # indexes) \<longleftrightarrow>
     \<not> (index < 0 \<or> index > 15 \<or> index \<le> previous) \<and> ascending_indexes index indexes"

definition validRedisDatabaseIndexes :: "int list \<Rightarrow> bool" where
  "validRedisDatabaseIndexes indexes \<longleftrightarrow>
     \<not> (length indexes < 1 \<or> length indexes > maximumRedisDatabases) \<and> ascending_indexes (-1) indexes"

fun ascending_mappings :: "string \<Rightarrow> string set \<Rightarrow> redisACLMapping list \<Rightarrow> bool" where
  "ascending_mappings previous targets [] \<longleftrightarrow> True"
| "ascending_mappings previous targets (m # ms) \<longleftrightarrow>
     redisPrincipalPattern (am_source m) \<and> redisPrincipalPattern (am_target m) \<and> \<not> am_source m \<le> previous
     \<and> am_target m \<notin> targets \<and> ascending_mappings (am_source m) (insert (am_target m) targets) ms"

definition validRedisACLMap :: "redisACLMapping list \<Rightarrow> bool" where
  "validRedisACLMap ms \<longleftrightarrow> \<not> (length ms < 1 \<or> length ms > 64) \<and> ascending_mappings [] {} ms"

definition validateRedisHost :: "(string \<Rightarrow> bool) \<Rightarrow> string \<Rightarrow> string \<Rightarrow> redis_err + unit" where
  "validateRedisHost loopback host tlsMode =
     requireR (host \<noteq> [] \<and> length host \<le> 253 \<and> set host \<inter> {CHR 0x00, CHR 0x0D, CHR 0x0A, CHR 0x09} = {} \<and> \<not> is_abs host)
       (RedisError ''Redis binding host is invalid'')
     (requireR (tlsMode = ''disable'' \<longrightarrow> equal_fold host ''localhost'' \<or> loopback host)
       (RedisError ''unencrypted Redis or Valkey is allowed only over loopback'')
     (Inr ()))"

definition redis_tls_ok :: "redisBinding \<Rightarrow> redis_err + unit" where
  "redis_tls_ok b =
     (if rdb_tls_mode b = ''disable'' then
        requireR (rdb_tls_root_cert_pem b = []) (RedisError ''unencrypted Redis binding cannot contain a CA certificate'') (Inr ())
      else if rdb_tls_mode b \<in> {''verify-ca'', ''verify-full''} then
        requireR (contains_str (rdb_tls_root_cert_pem b) ''BEGIN CERTIFICATE'' \<and> length (rdb_tls_root_cert_pem b) \<le> 64 * 1024)
          (RedisError ''verified Redis TLS requires a bounded CA certificate'') (Inr ())
      else Inl (RedisError ''Redis binding tls_mode is unsupported''))"

definition parseRedisBinding :: "(string \<Rightarrow> bool) \<Rightarrow> decoded_binding \<Rightarrow> redis_err + redisBinding" where
  "parseRedisBinding loopback raw =
     (case raw of
        None \<Rightarrow> Inl (RedisError ''Redis binding JSON is invalid'')
      | Some (b, trailing) \<Rightarrow>
          requireR (\<not> trailing) (RedisError ''Redis binding contains trailing data'')
          (requireR (rdb_schema_version b = redisBindingSchema \<and> rdb_engine b \<in> {''redis'', ''valkey''}
              \<and> rdb_mode b \<in> {''source'', ''target''} \<and> rdb_state_mode b \<in> {''cache'', ''durable''})
            (RedisError ''Redis binding contract is unsupported'')
          (requireR (\<not> (rdb_port b < 1 \<or> rdb_port b > 65535) \<and> redisPrincipalPattern (rdb_username b)
              \<and> set (rdb_password b) \<inter> {CHR 0x00, CHR 0x0D, CHR 0x0A} = {} \<and> length (rdb_password b) \<le> 16 * 1024
              \<and> validRedisDatabaseIndexes (rdb_database_indexes b) \<and> validRedisACLMap (rdb_acl_map b))
            (RedisError ''Redis binding contains an invalid identifier, scope, or credential'')
          (thenR (redis_tls_ok b) (\<lambda>_.
           thenR (validateRedisHost loopback (rdb_host b) (rdb_tls_mode b)) (\<lambda>_.
           requireR (\<not> (rdb_mode b = ''source'' \<and> rdb_reset_allowed b)) (RedisError ''source Redis binding contains target-only controls'')
           (Inr b)))))))"

definition acl_json :: "redisACLMapping list \<Rightarrow> jval" where
  "acl_json ms = JArr (map (\<lambda>m. JObj [(''source'', JStr (am_source m)), (''target'', JStr (am_target m))]) ms)"

definition validateRedisDatabaseContract :: "'s redis_env \<Rightarrow> jobj \<Rightarrow> redisBinding \<Rightarrow> redis_err + unit" where
  "validateRedisDatabaseContract e inputs b =
     (case map_of inputs ''database_contract'' of
        None \<Rightarrow> Inl (RedisError ''Redis and Valkey bindings require a database contract'')
      | Some raw \<Rightarrow>
          (case re_contract e raw of
             None \<Rightarrow> Inl (RedisError ''Redis database contract is invalid'')
           | Some c \<Rightarrow>
               requireR (rc_schema_version c = redisDatabaseContractSchema \<and> rc_source_engine c = rdb_engine b
                   \<and> rc_target_engine c = rdb_engine b \<and> rc_source_engine c = rc_target_engine c \<and> rc_state_mode c = rdb_state_mode b
                   \<and> validRedisDatabaseIndexes (rc_database_indexes c) \<and> validRedisACLMap (rc_acl_map c)
                   \<and> redis_digest (re_crypto e) (json_ints (Some (rc_database_indexes c))) = redis_digest (re_crypto e) (json_ints (Some (rdb_database_indexes b)))
                   \<and> redis_digest (re_crypto e) (acl_json (rc_acl_map c)) = redis_digest (re_crypto e) (acl_json (rdb_acl_map b)))
                 (RedisError ''Redis binding does not match the reviewed database contract'')
               (Inr ())))"

definition resolveRedisBinding :: "'s redis_env \<Rightarrow> TaskEnvelope \<Rightarrow> jobj \<Rightarrow> redis_err + (string \<times> redisBinding)" where
  "resolveRedisBinding e task inputs =
     (case stringInput inputs ''database_binding_id'' of
        Inl _ \<Rightarrow> Inl (RedisError ''database binding identifier is invalid'')
      | Inr bindingID \<Rightarrow>
          requireR (opaqueBindingPattern bindingID) (RedisError ''database binding identifier is invalid'')
          (case re_bindings e of
             None \<Rightarrow> Inl (RedisError ''attempt-scoped binding resolver is unavailable'')
           | Some resolve \<Rightarrow>
               (case resolve task bindingID of
                  None \<Rightarrow> Inl SystemCall
                | Some raw \<Rightarrow>
                    thenR (parseRedisBinding (re_loopback e) raw) (\<lambda>b.
                    thenR (validateRedisDatabaseContract e inputs b) (\<lambda>_. Inr (bindingID, b))))))"

text \<open>\<open>binding.client\<close> fails only when the root certificates cannot be read.\<close>

definition redis_client :: "'s redis_env \<Rightarrow> redisBinding \<Rightarrow> ('s, unit) rdo" where
  "redis_client e b = guardE (rdb_tls_mode b = ''disable'' \<or> re_root_ok e (rdb_tls_root_cert_pem b))
     (RedisError ''Redis TLS root certificate is invalid'') (okE ())"

section \<open>Inspection\<close>

definition info_line :: "string \<Rightarrow> (string, string) gomap \<Rightarrow> (string, string) gomap" where
  "info_line raw m =
     (let line = trim_space raw in
      if line = [] \<or> has_prefix line ''#'' then m
      else if CHR '':'' \<in> set line then
        (let key = takeWhile (\<lambda>c. c \<noteq> CHR '':'') line in go_put key (drop (Suc (length key)) line) m)
      else m)"

definition parseRedisInfo :: "string \<Rightarrow> (string, string) gomap" where
  "parseRedisInfo value = fold info_line (split_on (CHR 0x0A) value) []"

text \<open>\<open>m[key]\<close> of a map of strings.\<close>

definition entry_text :: "(string, string) gomap \<Rightarrow> string \<Rightarrow> string" where
  "entry_text m key = (case map_of m key of Some v \<Rightarrow> v | None \<Rightarrow> [])"

text \<open>The pattern \<open>^([0-9]+)\.([0-9]+)\<close>: major and minor version.\<close>

definition redisSeries :: "string \<Rightarrow> string option" where
  "redisSeries version =
     (let major = takeWhile is_digit version; rest = drop (length major) version; minor = takeWhile is_digit (tl rest) in
      if major \<noteq> [] \<and> rest \<noteq> [] \<and> hd rest = CHR ''.'' \<and> minor \<noteq> [] then Some (major @ ''.'' @ minor) else None)"

definition redisValueSlice :: "redis_value \<Rightarrow> redis_value list option" where
  "redisValueSlice value = (case value of RArray vs \<Rightarrow> Some vs | RNull \<Rightarrow> Some [] | _ \<Rightarrow> None)"

definition role_name :: "redis_value \<Rightarrow> string" where
  "role_name value = (case redisValueSlice value of Some (RText t # _) \<Rightarrow> t | _ \<Rightarrow> [])"

definition server_identity :: "(string, string) gomap \<Rightarrow> string \<times> string" where
  "server_identity info =
     (let valkeyVersion = entry_text info ''valkey_version'' in
      if valkeyVersion \<noteq> [] \<or> equal_fold (entry_text info ''server_name'') ''valkey''
      then (''valkey'', if valkeyVersion \<noteq> [] then valkeyVersion else entry_text info ''redis_version'')
      else (''redis'', entry_text info ''redis_version''))"

definition first_text :: "string \<Rightarrow> string \<Rightarrow> string" where
  "first_text a b = (if a = [] then b else a)"

definition persistence_mode :: "(string, string) gomap \<Rightarrow> (string, string) gomap \<Rightarrow> (string, string) gomap \<Rightarrow> string option" where
  "persistence_mode info appendOnly saveConfig =
     (if equal_fold (entry_text appendOnly ''appendonly'') ''yes'' \<or> entry_text info ''aof_enabled'' = ''1'' then Some ''aof''
      else if trim_space (entry_text saveConfig ''save'') \<noteq> [] then Some ''rdb''
      else None)"

definition answered :: "redis_err \<Rightarrow> ('s, 'a option) state \<Rightarrow> ('s, 'a) rdo" where
  "answered err m = do { r \<leftarrow> ask m; return (case r of None \<Rightarrow> Inl err | Some x \<Rightarrow> Inr x) }"

definition server_modules :: "'s redis_env \<Rightarrow> int \<Rightarrow> ('s, nat) rdo" where
  "server_modules e db =
     (let unavailable = RedisError ''Redis or Valkey module inventory is unavailable or outside its safety limit'' in
      tryE (answered unavailable (ra_modules (re_api e) db)) (\<lambda>modules.
      case redisValueSlice modules of
        None \<Rightarrow> errE unavailable
      | Some moduleEntries \<Rightarrow> guardE (length moduleEntries \<le> 64) unavailable (okE (length moduleEntries))))"

definition server_persistence :: "'s redis_env \<Rightarrow> int \<Rightarrow> (string, string) gomap \<Rightarrow> ('s, string) rdo" where
  "server_persistence e db info = do {
     saveConfig \<leftarrow> ask (ra_config (re_api e) db ''save'');
     appendOnly \<leftarrow> ask (ra_config (re_api e) db ''appendonly'');
     case (saveConfig, appendOnly) of
       (Some saveMap, Some appendMap) \<Rightarrow>
         (case persistence_mode info appendMap saveMap of
            None \<Rightarrow> errE (RedisError ''Redis or Valkey V1 requires RDB or AOF persistence'')
          | Some mode \<Rightarrow> okE mode)
     | _ \<Rightarrow> errE (RedisError ''Redis or Valkey persistence configuration is unavailable'') }"

definition server_facts :: "'s redis_env \<Rightarrow> redisBinding \<Rightarrow> int \<Rightarrow> (string, string) gomap \<Rightarrow> ('s, redisServerFacts) rdo" where
  "server_facts e b db info =
     (let (engine, version) = server_identity info in
      case redisSeries version of
        None \<Rightarrow> errE (RedisError ''Redis or Valkey engine identity does not match its binding'')
      | Some series \<Rightarrow>
          guardE (engine = rdb_engine b) (RedisError ''Redis or Valkey engine identity does not match its binding'')
          (guardE (redisSupportedSeries engine series) (RedisError ''Redis or Valkey version is outside the supported V1 matrix'')
          (guardE (first_text (entry_text info ''redis_mode'') (entry_text info ''server_mode'') = ''standalone'')
             (RedisError ''Redis Cluster or Sentinel is outside the supported V1 topology'')
          (tryE (answered (RedisError ''Redis or Valkey V1 requires a standalone primary'') (ra_role (re_api e) db)) (\<lambda>roleValue.
           guardE (role_name roleValue \<in> {''master'', ''primary''}) (RedisError ''Redis or Valkey V1 requires a standalone primary'')
          (guardE (first_text (entry_text info ''connected_slaves'') (entry_text info ''connected_replicas'') \<in> {[], ''0''})
             (RedisError ''Redis or Valkey V1 rejects active replica topology'')
          (tryE (server_modules e db) (\<lambda>modules.
           tryE (server_persistence e db info) (\<lambda>mode.
           okE \<lparr>rf_engine = engine, rf_version = version, rf_series = series, rf_persistence = mode, rf_modules = modules\<rparr>)))))))))"

definition inspectRedisServer :: "'s redis_env \<Rightarrow> redisBinding \<Rightarrow> ('s, redisServerFacts) rdo" where
  "inspectRedisServer e b =
     (let db = hd (rdb_database_indexes b) in
      tryE (redis_client e b) (\<lambda>_. do {
      alive \<leftarrow> ask (ra_ping (re_api e) db);
      guardE alive (RedisError ''Redis or Valkey endpoint is unavailable'')
      (tryE (answered (RedisError ''Redis or Valkey server facts are unavailable'') (ra_info (re_api e) db)) (\<lambda>infoText.
       server_facts e b db (parseRedisInfo infoText))) }))"

definition supportedRedisCoreType :: "string \<Rightarrow> bool" where
  "supportedRedisCoreType valueType \<longleftrightarrow> valueType \<in> {''string'', ''list'', ''set'', ''zset'', ''hash'', ''stream''}"

text \<open>\<open>strings.Fields\<close>\<close>

fun fields_from :: "string \<Rightarrow> string \<Rightarrow> string list" where
  "fields_from word [] = (if word = [] then [] else [word])"
| "fields_from word (c # cs) =
     (if is_space c then (if word = [] then fields_from [] cs else word # fields_from [] cs) else fields_from (word @ [c]) cs)"

definition sanitize_token :: "string \<Rightarrow> string list \<Rightarrow> redis_err + string list" where
  "sanitize_token token result =
     requireR (set token \<inter> {CHR ''('', CHR '')'', CHR 0x00, CHR 0x0D, CHR 0x0A} = {})
       (RedisError ''Redis ACL selectors are outside the supported V1 contract'')
     (Inr (if has_prefix token ''#'' \<or> has_prefix token ''>'' \<or> has_prefix token ''<'' \<or> has_prefix token ''!'' then result else result @ [token]))"

definition sanitizeRedisACLRule :: "string \<Rightarrow> string \<Rightarrow> redis_err + string list" where
  "sanitizeRedisACLRule rule username =
     (let tokens = fields_from [] rule in
      requireR (\<not> (length tokens < 3 \<or> tokens ! 0 \<noteq> ''user'' \<or> tokens ! 1 \<noteq> username \<or> length tokens > 512))
        (RedisError ''Redis ACL rule is invalid'')
      (thenR (foldR sanitize_token (drop 2 tokens) []) (\<lambda>result.
       requireR (result \<noteq> []) (RedisError ''Redis ACL rule has no non-secret policy'') (Inr result))))"

definition user_rule :: "string \<Rightarrow> (string, string) gomap \<Rightarrow> (string, string) gomap" where
  "user_rule rule byUser = (case fields_from [] rule of u # name # _ \<Rightarrow> if u = ''user'' then go_put name rule byUser else byUser | _ \<Rightarrow> byUser)"

definition policy_entry :: "redisBinding \<Rightarrow> (string, string) gomap \<Rightarrow> redisACLMapping \<Rightarrow> jval list \<Rightarrow> redis_err + jval list" where
  "policy_entry b byUser mapping manifest =
     (let username = if rdb_mode b = ''target'' then am_target mapping else am_source mapping in
      case map_of byUser username of
        None \<Rightarrow> Inl (RedisError ''mapped Redis ACL user is not pre-created'')
      | Some rule \<Rightarrow> thenR (sanitizeRedisACLRule rule username) (\<lambda>sanitized.
          Inr (manifest @ [JObj [(''target'', JStr (am_target mapping)), (''rules'', JArr (map JStr sanitized))]])))"

definition redisACLPolicyDigest :: "'s redis_env \<Rightarrow> redisBinding \<Rightarrow> ('s, string) rdo" where
  "redisACLPolicyDigest e b =
     tryE (redis_client e b) (\<lambda>_.
     tryE (answered (RedisError ''Redis ACL policy is unavailable or outside its safety limit'') (ra_acl_list (re_api e) (hd (rdb_database_indexes b)))) (\<lambda>rules.
     guardE (rules \<noteq> [] \<and> length rules \<le> 512) (RedisError ''Redis ACL policy is unavailable or outside its safety limit'')
     (tryE (lift_result (foldR (policy_entry b (fold user_rule rules [])) (rdb_acl_map b) [])) (\<lambda>manifest.
      okE (redis_digest (re_crypto e) (JObj [(''schema_version'', JStr ''operations.migration.redis-acl-policy.v1''), (''users'', JArr manifest)]))))))"

section \<open>The records of an instance\<close>

text \<open>The variables of \<open>scanRedisRecords\<close>: the two hashes, the summary, the bytes of the key index.\<close>

record scan_state =
  ss_all :: string
  ss_persistent :: string
  ss_summary :: redisScanSummary
  ss_key_index :: int64

definition zero_scan_summary :: redisScanSummary where
  "zero_scan_summary = \<lparr>rs_key_count = 0, rs_persistent_count = 0, rs_volatile_count = 0, rs_database_bytes = 0, rs_all_digest = [], rs_persistent_digest = []\<rparr>"

definition index_key :: "string \<Rightarrow> int64 \<Rightarrow> redis_err + int64" where
  "index_key key keyIndexBytes =
     (let n = keyIndexBytes + int (length key) in
      requireR (\<not> n > maximumRedisKeyIndexBytes) (RedisError ''Redis key index exceeds the V1 memory-safety limit'') (Inr n))"

primrec scan_keys :: "'s redis_env \<Rightarrow> int \<Rightarrow> int64 \<Rightarrow> nat \<Rightarrow> nat \<Rightarrow> string list \<Rightarrow> int64 \<Rightarrow> ('s, string list \<times> int64) rdo" where
  "scan_keys e db counted 0 cursor keys keyIndexBytes = errE Unfinished"
| "scan_keys e db counted (Suc fuel) cursor keys keyIndexBytes =
     tryE (answered (RedisError ''Redis keyspace scan failed'') (ra_scan (re_api e) db cursor)) (\<lambda>(batch, next_cursor).
     let found = keys @ batch in
     guardE (\<not> (int (length found) > maximumRedisKeys \<or> counted + int (length found) > maximumRedisKeys))
       (RedisError ''Redis keyspace exceeds the V1 key limit'')
     (tryE (lift_result (foldR index_key batch keyIndexBytes)) (\<lambda>indexed.
      if next_cursor = 0 then okE (found, indexed) else scan_keys e db counted fuel next_cursor found indexed)))"

text \<open>The three questions about a key. \<^const>\<open>None\<close> is \<open>continue\<close>: the key has gone since the scan.\<close>

definition key_type :: "'s redis_env \<Rightarrow> int \<Rightarrow> string \<Rightarrow> ('s, bool) rdo" where
  "key_type e db key = do {
     r \<leftarrow> ask (ra_type (re_api e) db key);
     case r of
       NilAnswer \<Rightarrow> okE False
     | FailedAnswer \<Rightarrow> errE (RedisError ''Redis module-backed or unknown value type is outside the durable V1 contract'')
     | Answer valueType \<Rightarrow>
         if valueType = ''none'' then okE False
         else guardE (supportedRedisCoreType valueType)
           (RedisError ''Redis module-backed or unknown value type is outside the durable V1 contract'') (okE True) }"

definition key_dump :: "'s redis_env \<Rightarrow> int \<Rightarrow> string \<Rightarrow> ('s, string option) rdo" where
  "key_dump e db key = do {
     r \<leftarrow> ask (ra_dump (re_api e) db key);
     case r of
       NilAnswer \<Rightarrow> okE None
     | FailedAnswer \<Rightarrow> errE (RedisError ''Redis serialized value exceeds the V1 value-size limit'')
     | Answer value \<Rightarrow> guardE (value \<noteq> [] \<and> int (length value) \<le> maximumRedisValueBytes)
         (RedisError ''Redis serialized value exceeds the V1 value-size limit'') (okE (Some value)) }"

text \<open>\<open>Int64()\<close> gives an \<open>int64\<close>.\<close>

definition key_expiry :: "'s redis_env \<Rightarrow> int \<Rightarrow> string \<Rightarrow> ('s, int64 option) rdo" where
  "key_expiry e db key = do {
     r \<leftarrow> ask (ra_expiretime (re_api e) db key);
     case r of
       NilAnswer \<Rightarrow> okE None
     | FailedAnswer \<Rightarrow> errE (RedisError ''Redis absolute expiration is unavailable'')
     | Answer answer \<Rightarrow>
         let expiry = wrap64 answer in
         if expiry = -2 then okE None
         else guardE (\<not> expiry < -1) (RedisError ''Redis absolute expiration is unavailable'') (okE (Some expiry)) }"

definition scan_record :: "'s redis_env \<Rightarrow> int \<Rightarrow> string \<Rightarrow> ('s, redisKeyRecord option) rdo" where
  "scan_record e db key =
     guardE (key \<noteq> [] \<and> int (length key) \<le> maximumRedisKeyBytes) (RedisError ''Redis key exceeds the V1 key-size limit'')
     (tryE (key_type e db key) (\<lambda>present.
      if \<not> present then okE None
      else tryE (key_dump e db key) (\<lambda>dumped.
        case dumped of
          None \<Rightarrow> okE None
        | Some value \<Rightarrow>
            tryE (key_expiry e db key) (\<lambda>expires.
            case expires of
              None \<Rightarrow> okE None
            | Some expiry \<Rightarrow> okE (Some \<lparr>kr_database = db, kr_expiry = expiry, kr_key = key, kr_value = value\<rparr>)))))"

definition count_record :: "redisKeyRecord \<Rightarrow> redisScanSummary \<Rightarrow> redisScanSummary" where
  "count_record r s = s\<lparr>
     rs_persistent_count := (if kr_expiry r = -1 then rs_persistent_count s + 1 else rs_persistent_count s),
     rs_volatile_count := (if kr_expiry r = -1 then rs_volatile_count s else rs_volatile_count s + 1),
     rs_key_count := rs_key_count s + 1,
     rs_database_bytes := rs_database_bytes s + int (length (kr_key r) + length (kr_value r))\<rparr>"

definition note_record :: "redisKeyRecord \<Rightarrow> scan_state \<Rightarrow> scan_state" where
  "note_record r st = st\<lparr>ss_all := updateRedisRecordDigest (ss_all st) r,
     ss_persistent := (if kr_expiry r = -1 then updateRedisRecordDigest (ss_persistent st) r else ss_persistent st),
     ss_summary := count_record r (ss_summary st)\<rparr>"

definition scan_key ::
  "'s redis_env \<Rightarrow> (redisKeyRecord \<Rightarrow> ('s, unit) rdo) \<Rightarrow> int \<Rightarrow> string \<Rightarrow> scan_state \<Rightarrow> ('s, scan_state) rdo" where
  "scan_key e visitor db key st =
     tryE (scan_record e db key) (\<lambda>found.
     case found of
       None \<Rightarrow> okE st
     | Some r \<Rightarrow>
         let st' = note_record r st in
         guardE (\<not> rs_database_bytes (ss_summary st') > maximumRedisBytes) (RedisError ''Redis migration payload exceeds the V1 byte limit'')
         (tryE (visitor r) (\<lambda>_. okE st')))"

definition scan_database ::
  "'s redis_env \<Rightarrow> redisBinding \<Rightarrow> (redisKeyRecord \<Rightarrow> ('s, unit) rdo) \<Rightarrow> int \<Rightarrow> scan_state \<Rightarrow> ('s, scan_state) rdo" where
  "scan_database e b visitor db st =
     tryE (redis_client e b) (\<lambda>_.
     if rdb_state_mode b = ''cache'' then
       tryE (answered (RedisError ''Redis cache keyspace is outside its safety limit'') (ra_dbsize (re_api e) db)) (\<lambda>count.
       guardE (\<not> (count < 0 \<or> rs_key_count (ss_summary st) > maximumRedisKeys - count)) (RedisError ''Redis cache keyspace is outside its safety limit'')
       (okE (st\<lparr>ss_summary := (ss_summary st)\<lparr>rs_key_count := rs_key_count (ss_summary st) + count\<rparr>\<rparr>)))
     else
       tryE (scan_keys e db (rs_key_count (ss_summary st)) (re_fuel e) 0 [] (ss_key_index st)) (\<lambda>(keys, indexed).
       foldE (scan_key e visitor db) (canonicalRedisKeys keys) (st\<lparr>ss_key_index := indexed\<rparr>)))"

definition scanRedisRecords :: "'s redis_env \<Rightarrow> redisBinding \<Rightarrow> (redisKeyRecord \<Rightarrow> ('s, unit) rdo) \<Rightarrow> ('s, redisScanSummary) rdo" where
  "scanRedisRecords e b visitor =
     tryE (foldE (scan_database e b visitor) (rdb_database_indexes b)
         \<lparr>ss_all = [], ss_persistent = [], ss_summary = zero_scan_summary, ss_key_index = 0\<rparr>) (\<lambda>st.
     okE ((ss_summary st)\<lparr>rs_all_digest := redisDigestString (re_crypto e) (ss_all st),
         rs_persistent_digest := redisDigestString (re_crypto e) (ss_persistent st)\<rparr>))"

definition no_visitor :: "redisKeyRecord \<Rightarrow> ('s, unit) rdo" where
  "no_visitor r = okE ()"

definition redisInstanceIdentity :: "crypto \<Rightarrow> redisBinding \<Rightarrow> string" where
  "redisInstanceIdentity cr b = redis_digest cr (JObj [(''host'', JStr (rdb_host b)), (''port'', JInt (rdb_port b)),
     (''engine'', JStr (rdb_engine b)), (''databases'', json_ints (Some (rdb_database_indexes b)))])"

definition emptyTargetDigest :: "crypto \<Rightarrow> string \<Rightarrow> redisBinding \<Rightarrow> redisServerFacts \<Rightarrow> string \<Rightarrow> bool \<Rightarrow> string" where
  "emptyTargetDigest cr bindingID b facts aclDigest vacant = redis_digest cr (JObj [
     (''schema_version'', JStr ''operations.migration.redis-empty-target.v1''), (''binding_id'', JStr bindingID),
     (''instance_identity'', JStr (redisInstanceIdentity cr b)), (''empty'', JBool vacant), (''version_series'', JStr (rf_series facts)),
     (''state_mode'', JStr (rdb_state_mode b)), (''persistence_mode'', JStr (rf_persistence facts)), (''acl_policy_digest'', JStr aclDigest)])"

definition inspectRedis :: "'s redis_env \<Rightarrow> string \<Rightarrow> redisBinding \<Rightarrow> ('s, redisInspection) rdo" where
  "inspectRedis e bindingID b =
     tryE (inspectRedisServer e b) (\<lambda>facts.
     tryE (redisACLPolicyDigest e b) (\<lambda>aclDigest.
     tryE (scanRedisRecords e b no_visitor) (\<lambda>summary.
     okE \<lparr>ri_exists = True, ri_empty = (rs_key_count summary = 0), ri_engine = rf_engine facts, ri_version = rf_version facts,
       ri_series = rf_series facts, ri_state_mode = rdb_state_mode b, ri_persistence = rf_persistence facts, ri_modules = rf_modules facts,
       ri_database_indexes = rdb_database_indexes b, ri_key_count = rs_key_count summary, ri_persistent_count = rs_persistent_count summary,
       ri_volatile_count = rs_volatile_count summary, ri_database_bytes = rs_database_bytes summary, ri_acl_digest = aclDigest,
       ri_manifest_digest = redisManifestDigest (re_crypto e) facts b aclDigest summary,
       ri_empty_digest = emptyTargetDigest (re_crypto e) bindingID b facts aclDigest (rs_key_count summary = 0)\<rparr>)))"

definition redisInspectionOutputs :: "redisInspection \<Rightarrow> jobj" where
  "redisInspectionOutputs i = [
     (''exists'', JBool (ri_exists i)), (''empty'', JBool (ri_empty i)), (''engine'', JStr (ri_engine i)),
     (''server_version'', JStr (ri_version i)), (''server_series'', JStr (ri_series i)), (''state_mode'', JStr (ri_state_mode i)),
     (''persistence_mode'', JStr (ri_persistence i)), (''loaded_module_count'', JInt (int (ri_modules i))),
     (''database_indexes'', json_ints (Some (ri_database_indexes i))), (''key_count'', JInt (ri_key_count i)),
     (''persistent_key_count'', JInt (ri_persistent_count i)), (''volatile_key_count'', JInt (ri_volatile_count i)),
     (''database_bytes'', JInt (ri_database_bytes i)), (''acl_policy_digest'', JStr (ri_acl_digest i)),
     (''database_manifest_digest'', JStr (ri_manifest_digest i)), (''empty_target_digest'', JStr (ri_empty_digest i))]"

definition input_text :: "jobj \<Rightarrow> string \<Rightarrow> string option" where
  "input_text inputs key = (case map_of inputs key of Some (JStr s) \<Rightarrow> Some s | _ \<Rightarrow> None)"

definition verifyRedisCompatibility :: "redisBinding \<Rightarrow> jobj \<Rightarrow> redisInspection \<Rightarrow> redis_err + unit" where
  "verifyRedisCompatibility b inputs i =
     (let requiredEngine = input_text inputs ''required_source_engine''; requiredSeries = input_text inputs ''required_source_series'';
          requiredPersistence = input_text inputs ''required_persistence_mode'' in
      if requiredEngine = None \<and> requiredSeries = None \<and> requiredPersistence = None then Inr ()
      else requireR (rdb_mode b = ''target'' \<and> requiredEngine = Some (rdb_engine b) \<and> requiredEngine = Some (ri_engine i)
          \<and> requiredSeries = Some (ri_series i) \<and> requiredPersistence = Some (ri_persistence i))
        (RedisError ''target Redis or Valkey engine, version series, and persistence mode must exactly match the source'') (Inr ()))"

definition redisInspect :: "'s redis_env \<Rightarrow> TaskEnvelope \<Rightarrow> jobj \<Rightarrow> ('s, jobj) rdo" where
  "redisInspect e task inputs =
     tryE (lift_result (resolveRedisBinding e task inputs)) (\<lambda>(bindingID, b).
     tryE (inspectRedis e bindingID b) (\<lambda>i.
     tryE (lift_result (verifyRedisCompatibility b inputs i)) (\<lambda>_.
     guardE (map_of inputs ''require_empty_target'' = Some (JBool True) \<longrightarrow> rdb_mode b = ''target'' \<and> rdb_reset_allowed b \<and> ri_empty i)
       (RedisError ''target Redis or Valkey logical databases must be empty and explicitly resettable'')
     (okE (redisInspectionOutputs i)))))"

end
