(* ===== verification/Redis_Restore.thy ===== *)
theory Redis_Restore
  imports Redis
begin

text \<open>
  Dump, reset, restore and verification of \<open>internal/migration/redis.go\<close>, on the host and the server of \<^theory_text>\<open>Redis\<close>.
\<close>

section \<open>Dump\<close>

text \<open>The callback of \<open>writeRedisArchive\<close>: the four writes of a record are one here, since a partial file is removed either way.\<close>

definition archive_record :: "string \<Rightarrow> redisKeyRecord \<Rightarrow> ('s, unit) rdo" where
  "archive_record partial record =
     tryE (lift_result (writeRedisRecord record)) (\<lambda>bytes.
     tryE (system_call (append_file partial bytes)) (\<lambda>_. do {
       modify (\<lambda>h. h\<lparr>rx_written := rx_written h + int (length bytes)\<rparr>);
       h \<leftarrow> get_state;
       guardE (\<not> rx_written h > maximumRedisArchiveBytes) (RedisError ''Redis archive exceeds the V1 byte limit'')
       (progress_report ''redis_snapshot'' (rx_written h) None) }))"

definition archive_trailer :: "crypto \<Rightarrow> redisBinding \<Rightarrow> redisServerFacts \<Rightarrow> string \<Rightarrow> redisScanSummary \<Rightarrow> redisArchiveTrailer" where
  "archive_trailer cr b facts aclDigest summary =
     (let cached = rdb_state_mode b = ''cache'';
          archiveSummary = if cached then zero_scan_summary\<lparr>rs_all_digest := redisDigestString cr [], rs_persistent_digest := redisDigestString cr []\<rparr> else summary in
      \<lparr>at_schema_version = redisArchiveSchema, at_engine = rf_engine facts, at_series = rf_series facts, at_state_mode = rdb_state_mode b,
       at_persistence = rf_persistence facts, at_database_indexes = Some (rdb_database_indexes b), at_acl_digest = aclDigest,
       at_record_count = rs_key_count archiveSummary, at_excluded_count = (if cached then rs_key_count summary else 0),
       at_persistent_count = rs_persistent_count archiveSummary, at_volatile_count = rs_volatile_count archiveSummary,
       at_all_digest = rs_all_digest archiveSummary, at_persistent_digest = rs_persistent_digest archiveSummary,
       at_manifest_digest = redisManifestDigest cr facts b aclDigest summary\<rparr>)"

definition archive_end :: "string \<Rightarrow> string" where
  "archive_end encoded = char_of (255 :: nat) # big_endian 4 (length encoded mod 2 ^ 32) @ encoded"

definition fill_archive ::
  "'s redis_env \<Rightarrow> redisBinding \<Rightarrow> redisServerFacts \<Rightarrow> string \<Rightarrow> string \<Rightarrow> string \<Rightarrow> ('s, redisArchiveTrailer \<times> int64) rdo" where
  "fill_archive e b facts aclDigest partial path =
     tryE (system_call (append_file partial redisArchiveMagic)) (\<lambda>_. do {
     modify (\<lambda>h. h\<lparr>rx_written := int (length redisArchiveMagic)\<rparr>);
     tryE (scanRedisRecords e b (archive_record partial)) (\<lambda>summary.
     let trailer = archive_trailer (re_crypto e) b facts aclDigest summary; encoded = tc_marshal (re_codec e) trailer in
     guardE (int (length encoded) \<le> maximumRedisTrailerBytes) (RedisError ''Redis archive trailer is invalid'')
     (tryE (system_call (append_file partial (archive_end encoded))) (\<lambda>_. do {
      modify (\<lambda>h. h\<lparr>rx_written := rx_written h + int (5 + length encoded)\<rparr>);
      h \<leftarrow> get_state;
      tryE (system_call id) (\<lambda>_.
      tryE (system_call id) (\<lambda>_.
      tryE (system_call (rename_file partial path)) (\<lambda>_. okE (trailer, rx_written h)))) }))) })"

definition writeRedisArchive ::
  "'s redis_env \<Rightarrow> redisBinding \<Rightarrow> redisServerFacts \<Rightarrow> string \<Rightarrow> string \<Rightarrow> ('s, redisArchiveTrailer \<times> int64) rdo" where
  "writeRedisArchive e b facts aclDigest path =
     (let partial = path_join (dir_name path) (''.'' @ base_name path @ ''.partial-'' @ re_temporary e) in
      tryE (system_call (put_file partial [])) (\<lambda>_. do {
      result \<leftarrow> tryE (system_call id) (\<lambda>_. fill_archive e b facts aclDigest partial path);
      case result of
        Inr done \<Rightarrow> okE done
      | Inl err \<Rightarrow> do { _ \<leftarrow> system_call (remove_file partial); errE err } }))"

definition redisArchiveCapacityBytes :: "redisBinding \<Rightarrow> redisInspection \<Rightarrow> redis_err + int64" where
  "redisArchiveCapacityBytes b i =
     (let required = int (length redisArchiveMagic) + 5 + maximumRedisTrailerBytes in
      if rdb_state_mode b = ''cache'' then Inr required
      else requireR (\<not> (ri_key_count i < 0 \<or> ri_key_count i > maximumRedisKeys \<or> ri_database_bytes i < 0 \<or> ri_database_bytes i > maximumRedisBytes))
          (RedisError ''Redis migration payload is outside the V1 archive limit'')
        (let needed = required + (ri_database_bytes i + ri_key_count i * 23) in
         requireR (\<not> needed > maximumRedisArchiveBytes) (RedisError ''Redis migration archive is outside the V1 capacity limit'') (Inr needed)))"

definition resolve_scope :: "'s redis_env \<Rightarrow> string \<Rightarrow> string \<Rightarrow> bool \<Rightarrow> ('s, string) rdo" where
  "resolve_scope e handle relative allowMissing = do {
     h \<leftarrow> get_state;
     lift_result (mapErr RedisScope (Resolve (rx_lstat h) (re_resolver e) handle relative allowMissing)) }"

definition create_directory :: "string \<Rightarrow> 's redis_host \<Rightarrow> 's redis_host" where
  "create_directory path h = h\<lparr>rx_lstat := (rx_lstat h)(path := StatOk FDir)\<rparr>"

definition mysqlArtifactLocation :: "'s redis_env \<Rightarrow> TaskEnvelope \<Rightarrow> string \<Rightarrow> string \<Rightarrow> string \<Rightarrow> ('s, string \<times> string) rdo" where
  "mysqlArtifactLocation e task stagingHandle stem manifestDigest =
     tryE (resolve_scope e stagingHandle ''.'' False) (\<lambda>stagingRoot.
     let attemptToken = take 12 (filter (\<lambda>c. c \<noteq> CHR ''-'') (t_attempt_id task)); manifestToken = trim_prefix manifestDigest ''sha256:'' in
     guardE (\<not> length manifestToken < 16) (RedisError ''database manifest digest is invalid'')
     (let relative = stem @ ''-'' @ take 16 manifestToken @ ''-'' @ attemptToken in
      tryE (resolve_scope e stagingHandle relative True) (\<lambda>directory.
      guardE (dir_name directory = stagingRoot) (RedisError ''database dump artifact escaped its staging root'')
      (do {
        h \<leftarrow> get_state;
        case rx_lstat h directory of
          StatOk _ \<Rightarrow> errE (RedisError ''database dump artifact collision'')
        | StatFailed \<Rightarrow> errE SystemCall
        | NotExist \<Rightarrow> tryE (system_call (create_directory directory)) (\<lambda>_. okE (relative, directory)) }))))"

text \<open>\<open>fileSHA256\<close>: opening or reading may fail.\<close>

definition fileSHA256 :: "'s redis_env \<Rightarrow> string \<Rightarrow> ('s, string \<times> int64) rdo" where
  "fileSHA256 e path =
     tryE (system_call id) (\<lambda>_. do {
     h \<leftarrow> get_state;
     case map_of (rx_files h) path of
       None \<Rightarrow> errE SystemCall
     | Some content \<Rightarrow> okE (''sha256:'' @ sha256_hex (re_crypto e) content, int (length content)) })"

text \<open>\<open>v, err := m; if err != nil { return other }\<close>\<close>

definition or_else :: "redis_err \<Rightarrow> ('s, 'a) rdo \<Rightarrow> ('s, 'a) rdo" where
  "or_else err m = do { r \<leftarrow> m; return (case r of Inl _ \<Rightarrow> Inl err | Inr x \<Rightarrow> Inr x) }"

definition dump_outputs :: "string \<Rightarrow> string \<Rightarrow> FileManifestSummary \<Rightarrow> int64 \<Rightarrow> redisArchiveTrailer \<Rightarrow> jobj" where
  "dump_outputs relative digest transferManifest archiveSize t = [
     (''dump_artifact_handle'', JStr redisArchiveHandle), (''dump_staging_relative_handle'', JStr relative),
     (''dump_artifact_digest'', JStr digest), (''dump_transfer_manifest_digest'', JStr (ms_digest transferManifest)),
     (''dump_size_bytes'', JInt (ms_total_bytes transferManifest)), (''dump_archive_size_bytes'', JInt archiveSize),
     (''database_manifest_digest'', JStr (at_manifest_digest t)), (''engine'', JStr (at_engine t)), (''server_series'', JStr (at_series t)),
     (''state_mode'', JStr (at_state_mode t)), (''persistence_mode'', JStr (at_persistence t)), (''key_count'', JInt (at_record_count t)),
     (''excluded_cache_key_count'', JInt (at_excluded_count t)), (''persistent_key_count'', JInt (at_persistent_count t)),
     (''volatile_key_count'', JInt (at_volatile_count t))]"

definition inspected_facts :: "redisInspection \<Rightarrow> redisServerFacts" where
  "inspected_facts i = \<lparr>rf_engine = ri_engine i, rf_version = ri_version i, rf_series = ri_series i, rf_persistence = ri_persistence i, rf_modules = 0\<rparr>"

definition redisDump :: "'s redis_env \<Rightarrow> TaskEnvelope \<Rightarrow> jobj \<Rightarrow> ('s, jobj) rdo" where
  "redisDump e task inputs =
     tryE (lift_result (resolveRedisBinding e task inputs)) (\<lambda>(bindingID, b).
     guardE (rdb_mode b = ''source'') (RedisError ''Redis snapshot requires a source binding'')
     (tryE (inspectRedis e bindingID b) (\<lambda>i.
     tryE (redis_input (stringInput inputs ''staging_root_handle'')) (\<lambda>stagingHandle.
     tryE (resolve_scope e stagingHandle ''.'' False) (\<lambda>stagingRoot.
     tryE (lift_result (redisArchiveCapacityBytes b i)) (\<lambda>requiredCapacity.
     guardE (ensureFileSystemCapacity (re_statfs e stagingRoot) requiredCapacity) DiskCapacity
     (tryE (mysqlArtifactLocation e task stagingHandle ''redis'' (ri_manifest_digest i)) (\<lambda>(relative, directory).
     let artifactPath = path_join directory redisArchiveHandle in
     tryE (writeRedisArchive e b (inspected_facts i) (ri_acl_digest i) artifactPath) (\<lambda>(trailer, archiveSize).
     tryE (or_else (RedisError ''Redis archive digest generation failed'') (fileSHA256 e artifactPath)) (\<lambda>(digest, actualSize).
     guardE (actualSize = archiveSize) (RedisError ''Redis archive digest generation failed'') (do {
       h \<leftarrow> get_state;
       tryE (lift_result (mapErr RedisManifest (buildFileManifest (re_crypto e) (\<lambda>_. True) (re_tree e directory (rx_files h))))) (\<lambda>transferManifest.
       tryE (progress_report ''redis_snapshot_complete'' archiveSize (Some archiveSize)) (\<lambda>_.
       okE (dump_outputs relative digest transferManifest archiveSize trailer))) })))))))))))"

section \<open>Reset\<close>

definition resetMarkerSchema :: string where
  "resetMarkerSchema = ''operations.migration.redis-reset-marker.v1''"

definition redisMarkerPath :: "'s redis_env \<Rightarrow> string \<Rightarrow> string" where
  "redisMarkerPath e bindingID =
     path_join (path_join (re_state_dir e) ''redis-reset-markers'') (take 32 (sha256_hex (re_crypto e) bindingID) @ ''.json'')"

definition loadRedisMarker :: "'s redis_env \<Rightarrow> string \<Rightarrow> ('s, redisResetMarker) rdo" where
  "loadRedisMarker e bindingID =
     tryE (system_call id) (\<lambda>_. do {
     h \<leftarrow> get_state;
     case map_of (rx_markers h) (redisMarkerPath e bindingID) of
       None \<Rightarrow> errE SystemCall
     | Some None \<Rightarrow> errE (RedisError ''target Redis ownership marker is invalid'')
     | Some (Some marker) \<Rightarrow>
         guardE (rm_schema_version marker = resetMarkerSchema) (RedisError ''target Redis ownership marker is invalid'') (okE marker) })"

text \<open>The directory, the temporary file, its mode, content, synchronisation and closing, and the rename that makes it visible.\<close>

definition saveRedisMarker :: "'s redis_env \<Rightarrow> string \<Rightarrow> redisResetMarker \<Rightarrow> ('s, unit) rdo" where
  "saveRedisMarker e bindingID marker =
     tryE (forE (replicate 6 ()) (\<lambda>_. system_call id)) (\<lambda>_.
     system_call (\<lambda>h. h\<lparr>rx_markers := go_put (redisMarkerPath e bindingID) (Some marker) (rx_markers h)\<rparr>))"

definition flush_database :: "'s redis_env \<Rightarrow> redisBinding \<Rightarrow> int \<Rightarrow> ('s, unit) rdo" where
  "flush_database e b db =
     tryE (redis_client e b) (\<lambda>_. do {
     trace_event (Flushed db);
     flushed \<leftarrow> ask (ra_flushdb (re_api e) db);
     guardE flushed (RedisError ''target Redis database reset failed safely'') (okE ()) })"

definition flushRedisDatabases :: "'s redis_env \<Rightarrow> redisBinding \<Rightarrow> ('s, unit) rdo" where
  "flushRedisDatabases e b = forE (rdb_database_indexes b) (flush_database e b)"

definition owned_by_run :: "TaskEnvelope \<Rightarrow> string \<Rightarrow> string \<Rightarrow> string \<Rightarrow> redis_err + redisResetMarker \<Rightarrow> bool" where
  "owned_by_run task bindingID identity expectedDigest loaded =
     (case loaded of
        Inl _ \<Rightarrow> False
      | Inr marker \<Rightarrow> rm_migration_id marker = t_migration_id task \<and> rm_binding_id marker = bindingID
          \<and> rm_instance_identity marker = identity \<and> rm_initial_empty_digest marker = expectedDigest)"

definition next_marker :: "TaskEnvelope \<Rightarrow> string \<Rightarrow> string \<Rightarrow> string \<Rightarrow> bool \<Rightarrow> redis_err + redisResetMarker \<Rightarrow> int \<Rightarrow> redisResetMarker" where
  "next_marker task bindingID identity expectedDigest owned loaded now =
     \<lparr>rm_schema_version = resetMarkerSchema, rm_migration_id = t_migration_id task, rm_binding_id = bindingID, rm_instance_identity = identity,
      rm_initial_empty_digest = (case loaded of Inr marker \<Rightarrow> if owned then rm_initial_empty_digest marker else expectedDigest | Inl _ \<Rightarrow> expectedDigest),
      rm_generation = (case loaded of Inr marker \<Rightarrow> if owned then wrap64 (rm_generation marker + 1) else 1 | Inl _ \<Rightarrow> 1),
      rm_updated_at = Stamp now\<rparr>"

text \<open>From the approval on: flush, then record the reset.\<close>

definition reset_target :: "'s redis_env \<Rightarrow> TaskEnvelope \<Rightarrow> string \<Rightarrow> redisBinding \<Rightarrow> string \<Rightarrow> bool \<Rightarrow> redis_err + redisResetMarker \<Rightarrow> ('s, jobj) rdo" where
  "reset_target e task bindingID b expectedDigest owned loaded =
     (let identity = redisInstanceIdentity (re_crypto e) b in
      tryE (flushRedisDatabases e b) (\<lambda>_. do {
      now \<leftarrow> now_milli;
      let marker = next_marker task bindingID identity expectedDigest owned loaded now in
      tryE (saveRedisMarker e bindingID marker) (\<lambda>_.
      okE [(''instance_identity_digest'', JStr identity), (''reset_generation'', JInt (rm_generation marker)), (''empty'', JBool True)]) }))"

definition redisReset :: "'s redis_env \<Rightarrow> TaskEnvelope \<Rightarrow> jobj \<Rightarrow> ('s, jobj) rdo" where
  "redisReset e task inputs =
     tryE (lift_result (resolveRedisBinding e task inputs)) (\<lambda>(bindingID, b).
     guardE (rdb_mode b = ''target'' \<and> rdb_reset_allowed b) (RedisError ''target Redis reset is not explicitly constrained'')
     (tryE (or_else (RedisError ''expected empty target digest is invalid'') (redis_input (stringInput inputs ''expected_empty_target_digest''))) (\<lambda>expectedDigest.
     guardE (fileDigestPattern expectedDigest) (RedisError ''expected empty target digest is invalid'')
     (tryE (inspectRedis e bindingID b) (\<lambda>i. do {
     loaded \<leftarrow> loadRedisMarker e bindingID;
     let owned = owned_by_run task bindingID (redisInstanceIdentity (re_crypto e) b) expectedDigest loaded in
     guardE (ri_empty i \<and> ri_empty_digest i = expectedDigest \<or> owned)
       (RedisError ''target Redis databases are not the approved empty target and are not owned by this migration'')
     (reset_target e task bindingID b expectedDigest owned loaded) })))))"

section \<open>Verification\<close>

definition redisArchiveInputPath :: "'s redis_env \<Rightarrow> jobj \<Rightarrow> ('s, string \<times> string \<times> int64) rdo" where
  "redisArchiveInputPath e inputs =
     tryE (redis_input (stringInput inputs ''staging_root_handle'')) (\<lambda>stagingHandle.
     tryE (or_else (RedisError ''Redis dump staging relative handle is invalid'') (redis_input (stringInput inputs ''dump_staging_relative_handle''))) (\<lambda>stagingRelative.
     guardE (slash \<notin> set stagingRelative \<and> fileNamePattern stagingRelative) (RedisError ''Redis dump staging relative handle is invalid'')
     (tryE (or_else (RedisError ''Redis dump artifact handle is invalid'') (redis_input (stringInput inputs ''dump_artifact_handle''))) (\<lambda>artifactHandle.
     guardE (artifactHandle = redisArchiveHandle) (RedisError ''Redis dump artifact handle is invalid'')
     (tryE (resolve_scope e stagingHandle (path_join stagingRelative artifactHandle) False) (\<lambda>artifactPath.
     tryE (or_else (RedisError ''Redis dump artifact digest is invalid'') (redis_input (stringInput inputs ''dump_artifact_digest''))) (\<lambda>expectedDigest.
     guardE (fileDigestPattern expectedDigest) (RedisError ''Redis dump artifact digest is invalid'')
     (tryE (or_else (RedisError ''Redis archive digest verification failed'') (fileSHA256 e artifactPath)) (\<lambda>(actualDigest, size).
     guardE (actualDigest = expectedDigest) (RedisError ''Redis archive digest verification failed'')
     (okE (artifactPath, actualDigest, size)))))))))))"

definition read_archive :: "'s redis_env \<Rightarrow> string \<Rightarrow> redisBinding \<Rightarrow> string \<Rightarrow> (redisKeyRecord \<Rightarrow> ('s, unit) rdo) \<Rightarrow> ('s, redisArchiveTrailer) rdo" where
  "read_archive e path b acl visitor = do {
     h \<leftarrow> get_state;
     readRedisArchive (re_crypto e) (re_codec e) (map_of (rx_files h) path) b acl visitor }"

definition check_expiry :: "int64 \<Rightarrow> int redis_answer \<Rightarrow> bool" where
  "check_expiry recorded answer =
     (case answer of
        Answer answer \<Rightarrow> let expiry = wrap64 answer in \<not> (recorded = -1 \<and> expiry \<noteq> -1)
          \<and> \<not> (recorded \<noteq> -1 \<and> (expiry < wrap64 (recorded - redisExpiryTolerance) \<or> expiry > wrap64 (recorded + redisExpiryTolerance)))
      | _ \<Rightarrow> False)"

definition verify_record :: "'s redis_env \<Rightarrow> int \<Rightarrow> redisKeyRecord \<Rightarrow> ('s, unit) rdo" where
  "verify_record e now r =
     (if kr_expiry r \<noteq> -1 \<and> kr_expiry r \<le> now then okE ()
      else do {
        actual \<leftarrow> ask (ra_dump (re_api e) (kr_database r) (kr_key r));
        guardE (actual = Answer (kr_value r)) (RedisError ''restored Redis value does not match the source archive'')
        (do {
          expiry \<leftarrow> ask (ra_expiretime (re_api e) (kr_database r) (kr_key r));
          guardE (check_expiry (kr_expiry r) expiry) (RedisError ''restored Redis expiration does not match the source archive'')
          (do {
            modify (\<lambda>h. h\<lparr>rx_expected := go_put (kr_database r, kr_key r) (kr_expiry r) (rx_expected h)\<rparr>);
            okE () }) }) })"

definition expected_key :: "int \<Rightarrow> string \<Rightarrow> int64 \<Rightarrow> ('s, int64) rdo" where
  "expected_key db key verified = do {
     h \<leftarrow> get_state;
     guardE (map_of (rx_expected h) (db, key) \<noteq> None) (RedisError ''restored Redis keyspace contains an undeclared key'')
     (do {
       modify (\<lambda>h. h\<lparr>rx_expected := go_del (db, key) (rx_expected h)\<rparr>);
       okE (verified + 1) }) }"

primrec verify_keyspace :: "'s redis_env \<Rightarrow> int \<Rightarrow> nat \<Rightarrow> nat \<Rightarrow> int64 \<Rightarrow> ('s, int64) rdo" where
  "verify_keyspace e db 0 cursor verified = errE Unfinished"
| "verify_keyspace e db (Suc fuel) cursor verified =
     tryE (answered (RedisError ''restored Redis keyspace verification failed'') (ra_scan (re_api e) db cursor)) (\<lambda>(keys, next_cursor).
     tryE (foldE (expected_key db) keys verified) (\<lambda>seen.
     if next_cursor = 0 then okE seen else verify_keyspace e db fuel next_cursor seen))"

definition expected_left :: "'s redis_env \<Rightarrow> (int \<times> string) \<times> int64 \<Rightarrow> ('s, unit) rdo" where
  "expected_left e entry =
     (let ((db, key), expiry) = entry;
          check = do {
            found \<leftarrow> ask (ra_exists (re_api e) db key);
            guardE (found = Some 1) (RedisError ''restored Redis keyspace is missing a source key'') (okE ()) } in
      if expiry = -1 then check
      else do { now \<leftarrow> now_milli; if expiry > now then check else okE () })"

definition verify_database :: "'s redis_env \<Rightarrow> int \<Rightarrow> int64 \<Rightarrow> ('s, int64) rdo" where
  "verify_database e db verified =
     tryE (verify_keyspace e db (re_fuel e) 0 verified) (\<lambda>seen. do {
     h \<leftarrow> get_state;
     tryE (forE (filter (\<lambda>entry. fst (fst entry) = db) (rx_expected h)) (expected_left e)) (\<lambda>_. okE seen) })"

definition verifyRedisArchiveTarget :: "'s redis_env \<Rightarrow> redisBinding \<Rightarrow> string \<Rightarrow> redisArchiveTrailer \<Rightarrow> ('s, int64) rdo" where
  "verifyRedisArchiveTarget e b path trailer =
     tryE (redis_client e b) (\<lambda>_. do {
     modify (\<lambda>h. h\<lparr>rx_expected := []\<rparr>);
     now \<leftarrow> now_milli;
     tryE (read_archive e path b (at_acl_digest trailer) (verify_record e now)) (\<lambda>_.
     foldE (verify_database e) (re_map_order e (rdb_database_indexes b)) 0) })"

definition redisVerify :: "'s redis_env \<Rightarrow> TaskEnvelope \<Rightarrow> jobj \<Rightarrow> ('s, jobj) rdo" where
  "redisVerify e task inputs =
     tryE (lift_result (resolveRedisBinding e task inputs)) (\<lambda>(bindingID, b).
     guardE (rdb_mode b = ''target'') (RedisError ''Redis verification requires a target binding'')
     (tryE (redisArchiveInputPath e inputs) (\<lambda>(artifactPath, _, _).
     tryE (redisACLPolicyDigest e b) (\<lambda>aclDigest.
     tryE (read_archive e artifactPath b aclDigest no_visitor) (\<lambda>trailer.
     tryE (or_else (RedisError ''expected Redis verification manifest is invalid'') (redis_input (stringInput inputs ''expected_manifest_digest''))) (\<lambda>expectedManifest.
     guardE (expectedManifest = at_manifest_digest trailer) (RedisError ''expected Redis verification manifest is invalid'')
     (tryE (verifyRedisArchiveTarget e b artifactPath trailer) (\<lambda>verified.
     tryE (or_else (RedisError ''Redis stable manifest verification failed'') (inspectRedis e bindingID b)) (\<lambda>i.
     guardE (ri_manifest_digest i = expectedManifest) (RedisError ''Redis stable manifest verification failed'')
     (okE [(''verified'', JBool True), (''database_manifest_digest'', JStr (ri_manifest_digest i)), (''key_count'', JInt (ri_key_count i)),
        (''verified_archive_keys'', JInt verified), (''persistent_key_count'', JInt (ri_persistent_count i)),
        (''volatile_key_count'', JInt (ri_volatile_count i))]))))))))))"

section \<open>Restore\<close>

definition ttl_guard :: "int \<Rightarrow> redisKeyRecord \<Rightarrow> ('s, unit) rdo" where
  "ttl_guard ttlCutoff r = guardE (\<not> (kr_expiry r \<noteq> -1 \<and> kr_expiry r \<le> ttlCutoff))
     (RedisError ''Redis archive contains a volatile key too near expiry; create a fresh source snapshot'') (okE ())"

definition restore_record :: "'s redis_env \<Rightarrow> int64 \<Rightarrow> redisKeyRecord \<Rightarrow> ('s, unit) rdo" where
  "restore_record e recordCount r =
     (let send = (\<lambda>ttl absolute. do {
        trace_event (Restored (kr_database r) (kr_key r));
        restored \<leftarrow> ask (ra_restore (re_api e) (kr_database r) (kr_key r) ttl (kr_value r) absolute);
        guardE restored (RedisError ''Redis value restore failed safely'')
        (do {
          modify (\<lambda>h. h\<lparr>rx_restored := rx_restored h + 1\<rparr>);
          h \<leftarrow> get_state;
          progress_report ''redis_restore'' (rx_restored h) (Some recordCount) }) }) in
      if kr_expiry r = -1 then send 0 False
      else do {
        now \<leftarrow> now_milli;
        guardE (\<not> kr_expiry r \<le> now) (RedisError ''Redis archive key expired during restore; create a fresh source snapshot'')
        (send (kr_expiry r) True) })"

definition marker_proves :: "'s redis_env \<Rightarrow> TaskEnvelope \<Rightarrow> string \<Rightarrow> redisBinding \<Rightarrow> redisResetMarker \<Rightarrow> bool" where
  "marker_proves e task bindingID b marker \<longleftrightarrow> rm_migration_id marker = t_migration_id task \<and> rm_binding_id marker = bindingID
     \<and> \<not> rm_generation marker < 1 \<and> rm_instance_identity marker = redisInstanceIdentity (re_crypto e) b"

text \<open>A target that is not empty is flushed and must then look like the approved empty target.\<close>

definition empty_for_restore :: "'s redis_env \<Rightarrow> string \<Rightarrow> redisBinding \<Rightarrow> redisResetMarker \<Rightarrow> redisInspection \<Rightarrow> ('s, bool) rdo" where
  "empty_for_restore e bindingID b marker before =
     (if ri_empty before then okE False
      else tryE (flushRedisDatabases e b) (\<lambda>_.
        tryE (or_else (RedisError ''target Redis retry reset did not reproduce the approved empty target'') (inspectRedis e bindingID b)) (\<lambda>afterReset.
        guardE (ri_empty afterReset \<and> ri_empty_digest afterReset = rm_initial_empty_digest marker)
          (RedisError ''target Redis retry reset did not reproduce the approved empty target'')
        (okE True))))"

definition restore_outputs :: "redisInspection \<Rightarrow> string \<Rightarrow> int64 \<Rightarrow> int64 \<Rightarrow> int64 \<Rightarrow> redisArchiveTrailer \<Rightarrow> bool \<Rightarrow> jobj" where
  "restore_outputs after artifactDigest archiveSize restored verified t retryResetApplied = [
     (''database_manifest_digest'', JStr (ri_manifest_digest after)), (''dump_artifact_digest'', JStr artifactDigest),
     (''restored_size_bytes'', JInt archiveSize), (''restored_key_count'', JInt restored), (''verified_key_count'', JInt verified),
     (''persistent_key_count'', JInt (at_persistent_count t)), (''volatile_key_count'', JInt (at_volatile_count t)),
     (''retry_reset_applied'', JBool retryResetApplied), (''ttl_safety_window_seconds'', JInt 30)]"

text \<open>From the checked archive on: empty the target, restore every record, verify, inspect again.\<close>

definition restore_checked ::
  "'s redis_env \<Rightarrow> string \<Rightarrow> redisBinding \<Rightarrow> redisResetMarker \<Rightarrow> string \<Rightarrow> string \<Rightarrow> int64 \<Rightarrow> string \<Rightarrow> redisArchiveTrailer \<Rightarrow> ('s, jobj) rdo" where
  "restore_checked e bindingID b marker artifactPath artifactDigest archiveSize aclDigest trailer =
     tryE (inspectRedis e bindingID b) (\<lambda>before.
     guardE (ri_engine before = at_engine trailer \<and> ri_series before = at_series trailer \<and> ri_persistence before = at_persistence trailer)
       (RedisError ''target Redis or Valkey runtime drifted from the reviewed source compatibility contract'')
     (tryE (empty_for_restore e bindingID b marker before) (\<lambda>retryResetApplied.
     tryE (redis_client e b) (\<lambda>_. do {
     modify (\<lambda>h. h\<lparr>rx_restored := 0\<rparr>);
     tryE (read_archive e artifactPath b aclDigest (restore_record e (at_record_count trailer))) (\<lambda>_.
     tryE (verifyRedisArchiveTarget e b artifactPath trailer) (\<lambda>verified.
     tryE (or_else (RedisError ''restored Redis stable manifest does not match the source'') (inspectRedis e bindingID b)) (\<lambda>after.
     guardE (ri_manifest_digest after = at_manifest_digest trailer) (RedisError ''restored Redis stable manifest does not match the source'')
     (tryE (progress_report ''redis_restore_verified'' archiveSize (Some archiveSize)) (\<lambda>_. do {
      h \<leftarrow> get_state;
      okE (restore_outputs after artifactDigest archiveSize (rx_restored h) verified trailer retryResetApplied) }))))) }))))"

definition redisRestore :: "'s redis_env \<Rightarrow> TaskEnvelope \<Rightarrow> jobj \<Rightarrow> ('s, jobj) rdo" where
  "redisRestore e task inputs =
     tryE (lift_result (resolveRedisBinding e task inputs)) (\<lambda>(bindingID, b).
     guardE (rdb_mode b = ''target'' \<and> rdb_reset_allowed b) (RedisError ''Redis restore requires a target binding'')
     (tryE (or_else (RedisError ''target Redis reset ownership is unproven'') (loadRedisMarker e bindingID)) (\<lambda>marker.
     guardE (marker_proves e task bindingID b marker) (RedisError ''target Redis reset ownership is unproven'')
     (tryE (redisArchiveInputPath e inputs) (\<lambda>(artifactPath, artifactDigest, archiveSize).
     tryE (redisACLPolicyDigest e b) (\<lambda>aclDigest. do {
     now \<leftarrow> now_milli;
     tryE (read_archive e artifactPath b aclDigest (ttl_guard (now + redisMinimumRestoreTTL))) (\<lambda>trailer.
     tryE (or_else (RedisError ''expected Redis manifest digest is invalid'') (redis_input (stringInput inputs ''expected_manifest_digest''))) (\<lambda>expectedManifest.
     guardE (expectedManifest = at_manifest_digest trailer) (RedisError ''expected Redis manifest digest is invalid'')
     (restore_checked e bindingID b marker artifactPath artifactDigest archiveSize aclDigest trailer))) }))))))"

end
