(* ===== verification/Redis_Reader.thy ===== *)
theory Redis_Reader
  imports Redis_Restore
begin

text \<open>
  The records of an archive: what the writer writes of a record the reader reads back, a list of records in order is read back as that
  list.
\<close>

section \<open>Numbers in bytes\<close>

lemma big_endian_length [simp]: "length (big_endian k n) = k"
  by (induction k arbitrary: n) auto

lemma big_endian_value_append: "big_endian_value (s @ [c]) = big_endian_value s * 256 + of_char c"
  by (simp add: big_endian_value_def)

lemma big_endian_round_trip: "big_endian_value (big_endian k n) = n mod 256 ^ k"
proof (induction k arbitrary: n)
  case 0
  then show ?case by (simp add: big_endian_value_def)
next
  case (Suc k)
  have "n mod (256 * 256 ^ k) = 256 * (n div 256 mod 256 ^ k) + n mod 256"
    by (rule mod_mult2_eq)
  with Suc show ?case by (simp add: big_endian_value_append)
qed

lemma uint64_lt: "uint64 i < 2 ^ 64"
proof -
  have "i mod 2 ^ 64 < 2 ^ 64" "0 \<le> i mod 2 ^ 64" by simp_all
  then show ?thesis unfolding uint64_def by (simp add: nat_less_iff)
qed

lemma uint64_round_trip:
  assumes "in_int64 i"
  shows "wrap64 (int (uint64 i)) = i"
proof -
  have "wrap64 (int (uint64 i)) = wrap64 i"
    unfolding uint64_def wrap64_def by (simp add: mod_simps)
  with assms show ?thesis by simp
qed

lemma tryE_assoc: "tryE (tryE m k) l = tryE m (\<lambda>x. tryE (k x) l)"
  by (rule state.expand) (auto simp: fun_eq_iff split: sum.split prod.split)

section \<open>Records in order\<close>

text \<open>A record the archive format can hold.\<close>

definition legal_record :: "redisBinding \<Rightarrow> redisKeyRecord \<Rightarrow> bool" where
  "legal_record b r \<longleftrightarrow> kr_database r \<in> set (rdb_database_indexes b) \<and> 0 \<le> kr_database r \<and> kr_database r < 2 ^ 16
     \<and> in_int64 (kr_expiry r) \<and> -1 \<le> kr_expiry r
     \<and> kr_key r \<noteq> [] \<and> int (length (kr_key r)) \<le> maximumRedisKeyBytes
     \<and> kr_value r \<noteq> [] \<and> int (length (kr_value r)) \<le> maximumRedisValueBytes"

definition record_less :: "redisKeyRecord \<Rightarrow> redisKeyRecord \<Rightarrow> bool" where
  "record_less r s \<longleftrightarrow> kr_database r < kr_database s \<or> kr_database r = kr_database s \<and> kr_key r < kr_key s"

definition key_bytes :: "redisKeyRecord list \<Rightarrow> int" where
  "key_bytes rs = (\<Sum>r\<leftarrow>rs. int (length (kr_key r)))"

definition payload_bytes :: "redisKeyRecord list \<Rightarrow> int" where
  "payload_bytes rs = (\<Sum>r\<leftarrow>rs. int (length (kr_key r)) + int (length (kr_value r)))"

lemma key_bytes_simps [simp]:
  "key_bytes [] = 0" "key_bytes (r # rs) = int (length (kr_key r)) + key_bytes rs" "key_bytes (rs @ ss) = key_bytes rs + key_bytes ss"
  by (simp_all add: key_bytes_def)

lemma payload_bytes_simps [simp]:
  "payload_bytes [] = 0" "payload_bytes (r # rs) = int (length (kr_key r)) + int (length (kr_value r)) + payload_bytes rs"
  "payload_bytes (rs @ ss) = payload_bytes rs + payload_bytes ss"
  by (simp_all add: payload_bytes_def)

lemma key_bytes_nonneg: "0 \<le> key_bytes rs"
  by (induction rs) auto

lemma payload_bytes_nonneg: "0 \<le> payload_bytes rs"
  by (induction rs) auto

definition legal_archive :: "redisBinding \<Rightarrow> redisKeyRecord list \<Rightarrow> bool" where
  "legal_archive b rs \<longleftrightarrow> list_all (legal_record b) rs \<and> sorted_wrt record_less rs
     \<and> key_bytes rs \<le> maximumRedisKeyIndexBytes \<and> payload_bytes rs \<le> maximumRedisBytes \<and> int (length rs) \<le> maximumRedisKeys"

text \<open>The bytes of a record after its tag.\<close>

definition record_body :: "redisKeyRecord \<Rightarrow> string" where
  "record_body r = big_endian 2 (nat (kr_database r mod 2 ^ 16)) @ big_endian 8 (uint64 (kr_expiry r))
     @ big_endian 4 (length (kr_key r) mod 2 ^ 32) @ big_endian 8 (length (kr_value r) mod 2 ^ 64) @ kr_key r @ kr_value r"

definition record_bytes :: "redisKeyRecord \<Rightarrow> string" where
  "record_bytes r = char_of (1 :: nat) # record_body r"

lemma writeRedisRecord_legal: "legal_record b r \<Longrightarrow> writeRedisRecord r = Inr (record_bytes r)"
  by (simp add: writeRedisRecord_def record_bytes_def record_body_def legal_record_def requireR_def)

lemma writeRedisRecord_bytes: "writeRedisRecord r = Inr bytes \<Longrightarrow> bytes = record_bytes r"
  by (simp add: writeRedisRecord_def record_bytes_def record_body_def requireR_def split: if_splits)

lemma record_bytes_length: "int (length (record_bytes r)) = 23 + int (length (kr_key r)) + int (length (kr_value r))"
  by (simp add: record_bytes_def record_body_def)

lemma read_full_exact: "length s = n \<Longrightarrow> read_full e n (s @ rest) = Inr (s, rest)"
  by (simp add: read_full_def)

section \<open>Reading one record\<close>

lemma read_record_written:
  assumes "legal_record b r" and "before_record a r"
    and "ar_key_index_bytes a + int (length (kr_key r)) \<le> maximumRedisKeyIndexBytes"
    and "ar_database_bytes a + int (length (kr_key r)) + int (length (kr_value r)) \<le> maximumRedisBytes"
    and "ar_count a + 1 \<le> maximumRedisKeys"
  shows "read_record b a (record_body r @ rest) = Inr (r, add_record r a, rest)"
proof -
  let ?h2 = "big_endian 2 (nat (kr_database r mod 2 ^ 16))" and ?h8 = "big_endian 8 (uint64 (kr_expiry r))"
    and ?h4 = "big_endian 4 (length (kr_key r) mod 2 ^ 32)" and ?hv = "big_endian 8 (length (kr_value r) mod 2 ^ 64)"
  let ?fixed = "?h2 @ ?h8 @ ?h4 @ ?hv"
  have small: "length (kr_key r) < 2 ^ 32" "length (kr_value r) < 2 ^ 63"
    using assms(1) by (auto simp: legal_record_def maximumRedisKeyBytes_def maximumRedisValueBytes_def)
  have body: "record_body r @ rest = ?fixed @ kr_key r @ kr_value r @ rest"
    by (simp add: record_body_def)
  have parts: "take 2 ?fixed = ?h2" "take 8 (drop 2 ?fixed) = ?h8" "take 4 (drop 10 ?fixed) = ?h4" "take 8 (drop 14 ?fixed) = ?hv"
    by simp_all
  have db: "int (big_endian_value ?h2) = kr_database r"
    using assms(1) by (simp add: big_endian_round_trip legal_record_def nat_less_iff)
  have expiry: "wrap64 (int (big_endian_value ?h8)) = kr_expiry r"
    using assms(1) uint64_lt [of "kr_expiry r"] uint64_round_trip [of "kr_expiry r"]
    by (simp add: big_endian_round_trip legal_record_def)
  have key: "big_endian_value ?h4 = length (kr_key r)"
    using small by (simp add: big_endian_round_trip)
  have "in_int64 (int (length (kr_value r)))"
    using small by (simp add: in_int64_def)
  then have "value": "wrap64 (int (big_endian_value ?hv)) = int (length (kr_value r))"
    using small by (simp add: big_endian_round_trip)
  have "read_full e 22 (?fixed @ s) = Inr (?fixed, s)" for e s
    by (rule read_full_exact) simp
  moreover have eta: "\<lparr>kr_database = kr_database r, kr_expiry = kr_expiry r, kr_key = kr_key r, kr_value = kr_value r\<rparr> = r"
    by simp
  ultimately show ?thesis
    using assms
    unfolding read_record_def body
    by (simp only: thenR_def sum.case prod.case parts db expiry key "value" Let_def)
      (simp add: requireR_def read_full_exact legal_record_def not_less eta)
qed

section \<open>Reading all records\<close>

lemma add_record_sums [simp]:
  "ar_key_index_bytes (add_record r a) = ar_key_index_bytes a + int (length (kr_key r))"
  "ar_database_bytes (add_record r a) = ar_database_bytes a + int (length (kr_key r)) + int (length (kr_value r))"
  "ar_count (add_record r a) = ar_count a + 1"
  by (simp_all add: add_record_def)

lemma before_add_record: "before_record (add_record r a) s \<longleftrightarrow> record_less r s"
  by (auto simp: before_record_def add_record_def record_less_def)

lemma read_records_written:
  assumes "rdb_state_mode b \<noteq> ''cache''"
    and "list_all (legal_record b) rs" and "sorted_wrt record_less rs" and "\<And>r. r \<in> set rs \<Longrightarrow> before_record a r"
    and "ar_key_index_bytes a + key_bytes rs \<le> maximumRedisKeyIndexBytes"
    and "ar_database_bytes a + payload_bytes rs \<le> maximumRedisBytes"
    and "ar_count a + int (length rs) \<le> maximumRedisKeys"
  shows "read_records b visitor a (concat (map record_bytes rs) @ char_of (255 :: nat) # rest)
    = tryE (forE rs visitor) (\<lambda>_. okE (fold add_record rs a, rest))"
  using assms
proof (induction rs arbitrary: a)
  case Nil
  show ?case by (subst read_records.simps) (simp add: tryE_def okE_def)
next
  case (Cons r rs)
  let ?more = "concat (map record_bytes rs) @ char_of (255 :: nat) # rest"
  have one: "read_record b a (record_body r @ ?more) = Inr (r, add_record r a, ?more)"
    using Cons.prems key_bytes_nonneg [of rs] payload_bytes_nonneg [of rs] by (intro read_record_written) auto
  have IH: "read_records b visitor (add_record r a) ?more = tryE (forE rs visitor) (\<lambda>_. okE (fold add_record rs (add_record r a), rest))"
    using Cons.prems by (intro Cons.IH) (auto simp: before_add_record)
  have "read_records b visitor a (record_bytes r @ ?more) = tryE (visitor r) (\<lambda>_. read_records b visitor (add_record r a) ?more)"
    using Cons.prems(1) one by (subst read_records.simps) (simp add: record_bytes_def guardE_def)
  then show ?case
    unfolding IH by (simp add: tryE_assoc)
qed

end
