(* ===== verification/Redis_Dump.thy ===== *)
theory Redis_Dump
  imports Redis_Reader
begin

text \<open>
  What a dump writes: the archive at the artifact path holds the records the scan found, in the order the reader demands and within its
  limits, so that the reader accepts every archive a dump reports.
\<close>

section \<open>Successful runs\<close>

named_theorems run_inv "inversion rules for successful runs"

lemma run_tryE_Inr [run_inv]:
  "run_state (tryE m k) h = (Inr x, h') \<longleftrightarrow> (\<exists>y g. run_state m h = (Inr y, g) \<and> run_state (k y) g = (Inr x, h'))"
  by (auto split: prod.splits sum.splits)

lemma run_guardE_Inr [run_inv]: "run_state (guardE ok err k) h = (Inr x, h') \<longleftrightarrow> ok \<and> run_state k h = (Inr x, h')"
  by simp

lemma run_okE_Inr [run_inv]: "run_state (okE y) h = (Inr x, h') \<longleftrightarrow> y = x \<and> h = h'"
  by simp

lemma run_errE_Inr [run_inv]: "run_state (errE err) h = (Inr x, h') \<longleftrightarrow> False"
  by simp

lemma run_lift_Inr [run_inv]: "run_state (lift_result r) h = (Inr x, h') \<longleftrightarrow> r = Inr x \<and> h = h'"
  by auto

lemma run_system_call_Inr [run_inv]:
  "run_state (system_call f) h = (Inr x, h') \<longleftrightarrow> (rx_faults h = [] \<and> h' = f h \<or> (\<exists>later. rx_faults h = False # later \<and> h' = f (h\<lparr>rx_faults := later\<rparr>)))"
  by (auto simp: system_call_def split: list.splits if_splits)

lemma run_answered_Inr [run_inv]:
  "run_state (answered err m) h = (Inr x, h') \<longleftrightarrow>
     fst (run_state m (rx_server h)) = Some x \<and> h' = h\<lparr>rx_server := snd (run_state m (rx_server h))\<rparr>"
  by (auto simp: answered_def ask_def split: prod.splits option.splits)

lemma run_or_else_Inr [run_inv]: "run_state (or_else err m) h = (Inr x, h') \<longleftrightarrow> run_state m h = (Inr x, h')"
  by (auto simp: or_else_def split: prod.splits sum.splits)

declare run_tryE [simp del] run_guardE [simp del]

lemma tryE_okE: "tryE (okE x) k = k x"
  by (rule state.expand) (simp add: fun_eq_iff tryE_def)

text \<open>A computation whose failure is followed by a clean-up.\<close>

lemma run_cleanup_Inr [run_inv]:
  "run_state (do { r \<leftarrow> m; case r of Inr x \<Rightarrow> okE x | Inl err \<Rightarrow> do { _ \<leftarrow> c; errE err } }) h = (Inr y, h') \<longleftrightarrow> run_state m h = (Inr y, h')"
  by (cases "run_state m h") (auto split: sum.splits prod.splits)

lemma foldE_invariant:
  assumes "run_state (foldE f xs acc) h = (Inr acc', h')" and "I [] acc h"
    and step: "\<And>ys x zs a g a' g'. xs = ys @ x # zs \<Longrightarrow> I ys a g \<Longrightarrow> run_state (f x a) g = (Inr a', g') \<Longrightarrow> I (ys @ [x]) a' g'"
  shows "I xs acc' h'"
proof -
  have "I (ys @ zs) acc' h'" if "xs = ys @ zs" "run_state (foldE f zs a) g = (Inr acc', h')" "I ys a g" for ys zs a g
    using that
  proof (induction zs arbitrary: ys a g)
    case Nil
    then show ?case by simp
  next
    case (Cons z zs)
    then obtain a' g' where one: "run_state (f z a) g = (Inr a', g')" and rest: "run_state (foldE f zs a') g' = (Inr acc', h')"
      by (auto simp: run_inv)
    have "I ((ys @ [z]) @ zs) acc' h'"
      by (rule Cons.IH [OF _ rest step [OF Cons.prems(1) Cons.prems(3) one]]) (simp add: Cons.prems(1))
    then show ?case by simp
  qed
  from this [of "[]"] assms(1,2) show ?thesis by simp
qed

section \<open>Questions to the server\<close>

text \<open>A computation that only asks the server leaves the rest of the host alone.\<close>

definition host_local :: "'s redis_host \<Rightarrow> _" where
  "host_local h = (rx_clock h, rx_reads h, rx_faults h, rx_refusals h, rx_lstat h, rx_files h, rx_markers h, rx_written h, rx_restored h, rx_expected h, rx_trace h)"

definition asks :: "('s redis_host, 'a) state \<Rightarrow> bool" where
  "asks m \<longleftrightarrow> (\<forall>h. host_local (snd (run_state m h)) = host_local h)"

named_theorems ask_intros "computations that only ask"

lemma asksD: "asks m \<Longrightarrow> run_state m h = (x, h') \<Longrightarrow> host_local h' = host_local h"
  unfolding asks_def by (metis snd_conv)

lemma asks_return [ask_intros]: "asks (return x)"
  by (simp add: asks_def)

lemma asks_ok [ask_intros]: "asks (okE x)"
  unfolding okE_def by (rule asks_return)

lemma asks_err [ask_intros]: "asks (errE x)"
  unfolding errE_def by (rule asks_return)

lemma asks_lift [ask_intros]: "asks (lift_result r)"
  unfolding lift_result_def by (rule asks_return)

lemma asks_ask [ask_intros]: "asks (ask m)"
  by (simp add: asks_def ask_def host_local_def split: prod.split)

lemma asks_get [ask_intros]: "asks get_state"
  by (simp add: asks_def)

lemma asks_bind [ask_intros]:
  assumes "asks m" and "\<And>x. asks (k x)"
  shows "asks (State_Monad.bind m k)"
  using assms by (simp add: asks_def split: prod.split) (metis snd_conv)

lemma asks_tryE [ask_intros]: "asks m \<Longrightarrow> (\<And>x. asks (k x)) \<Longrightarrow> asks (tryE m k)"
  unfolding tryE_def by (intro asks_bind) (auto split: sum.split intro: asks_return)

lemma asks_guardE [ask_intros]: "(ok \<Longrightarrow> asks k) \<Longrightarrow> asks (guardE ok err k)"
  by (simp add: guardE_def asks_err)

lemma asks_if [ask_intros]: "(c \<Longrightarrow> asks m) \<Longrightarrow> (\<not> c \<Longrightarrow> asks n) \<Longrightarrow> asks (if c then m else n)"
  by simp

lemma asks_case_option [ask_intros]:
  "(x = None \<Longrightarrow> asks m) \<Longrightarrow> (\<And>a. x = Some a \<Longrightarrow> asks (k a)) \<Longrightarrow> asks (case x of None \<Rightarrow> m | Some a \<Rightarrow> k a)"
  by (cases x) auto

lemma asks_case_answer [ask_intros]:
  "asks m \<Longrightarrow> asks n \<Longrightarrow> (\<And>a. asks (k a)) \<Longrightarrow> asks (case x of NilAnswer \<Rightarrow> m | FailedAnswer \<Rightarrow> n | Answer a \<Rightarrow> k a)"
  by (cases x) auto

lemma asks_case_prod [ask_intros]: "(\<And>x y. p = (x, y) \<Longrightarrow> asks (m x y)) \<Longrightarrow> asks (case p of (x, y) \<Rightarrow> m x y)"
  by (cases p) auto

lemma asks_answered [ask_intros]: "asks (answered err m)"
  unfolding answered_def by (intro ask_intros)

lemma asks_or_else [ask_intros]: "asks m \<Longrightarrow> asks (or_else err m)"
  unfolding or_else_def by (intro ask_intros)

lemma asks_foldE [ask_intros]: "(\<And>x a. asks (f x a)) \<Longrightarrow> asks (foldE f xs acc)"
  by (induction xs arbitrary: acc) (auto intro!: ask_intros)

lemma asks_client [ask_intros]: "asks (redis_client e b)"
  unfolding redis_client_def by (intro ask_intros)

lemma asks_scan_record [ask_intros]: "asks (scan_record e db key)"
  unfolding scan_record_def key_type_def key_dump_def key_expiry_def Let_def by (intro ask_intros)

lemma asks_scan_keys [ask_intros]: "asks (scan_keys e db counted fuel cursor keys indexed)"
  by (induction fuel arbitrary: cursor keys indexed) (auto simp: Let_def intro!: ask_intros)

lemma asks_scan [ask_intros]:
  assumes "\<And>r. asks (visitor r)"
  shows "asks (scanRedisRecords e b visitor)"
  unfolding scanRedisRecords_def scan_database_def scan_key_def Let_def by (intro ask_intros assms)

lemma asks_server [ask_intros]: "asks (inspectRedisServer e b)"
  unfolding inspectRedisServer_def server_facts_def server_modules_def server_persistence_def Let_def
  by (auto intro!: ask_intros split: prod.split option.split)

lemma asks_acl [ask_intros]: "asks (redisACLPolicyDigest e b)"
  unfolding redisACLPolicyDigest_def by (intro ask_intros)

lemma asks_inspect [ask_intros]: "asks (inspectRedis e bindingID b)"
  unfolding inspectRedis_def no_visitor_def by (intro ask_intros)

section \<open>What the scan finds\<close>

lemma scan_record_found:
  assumes "run_state (scan_record e db key) h = (Inr (Some r), h')"
  shows "kr_database r = db" and "kr_key r = key" and "key \<noteq> []" and "int (length key) \<le> maximumRedisKeyBytes"
    and "kr_value r \<noteq> []" and "int (length (kr_value r)) \<le> maximumRedisValueBytes" and "in_int64 (kr_expiry r)" and "-1 \<le> kr_expiry r"
  using assms
  by (auto simp: scan_record_def key_dump_def key_expiry_def key_type_def run_inv Let_def wrap64_in_range
      split: option.splits redis_answer.splits if_splits prod.splits)

lemma foldR_index_key:
  assumes "foldR index_key batch n = Inr m" and "n \<le> maximumRedisKeyIndexBytes"
  shows "m = n + (\<Sum>k\<leftarrow>batch. int (length k)) \<and> m \<le> maximumRedisKeyIndexBytes"
  using assms
  by (induction batch arbitrary: n) (fastforce simp: index_key_def Let_def result_inv not_less)+

lemma scan_keys_found:
  assumes "run_state (scan_keys e db counted fuel cursor keys n) h = (Inr (found, m), h')"
    and "n = start + (\<Sum>k\<leftarrow>keys. int (length k))" and "n \<le> maximumRedisKeyIndexBytes" and "counted + int (length keys) \<le> maximumRedisKeys"
  shows "m = start + (\<Sum>k\<leftarrow>found. int (length k)) \<and> m \<le> maximumRedisKeyIndexBytes \<and> counted + int (length found) \<le> maximumRedisKeys"
  using assms
proof (induction fuel arbitrary: cursor keys n h)
  case 0
  then show ?case by simp
next
  case (Suc fuel)
  from Suc.prems(1) obtain batch cursor' indexed where
    count: "counted + int (length (keys @ batch)) \<le> maximumRedisKeys"
    and index: "foldR index_key batch n = Inr indexed"
    and rest: "cursor' = 0 \<and> found = keys @ batch \<and> m = indexed
      \<or> (\<exists>g. run_state (scan_keys e db counted fuel cursor' (keys @ batch) indexed) g = (Inr (found, m), h'))"
    by (auto simp: run_inv Let_def not_less split: if_splits prod.splits)
  have indexed: "indexed = start + (\<Sum>k\<leftarrow>keys @ batch. int (length k))" "indexed \<le> maximumRedisKeyIndexBytes"
    using foldR_index_key [OF index Suc.prems(3)] Suc.prems(2) by simp_all
  from rest show ?case
    using indexed count Suc.IH [OF _ indexed count] by auto
qed

lemma canonical_keys:
  "sorted_wrt (<) (canonicalRedisKeys keys)"
  "(\<Sum>k\<leftarrow>canonicalRedisKeys keys. int (length k)) \<le> (\<Sum>k\<leftarrow>keys. int (length k))"
  "length (canonicalRedisKeys keys) \<le> length keys"
proof -
  have "sorted_wrt (<) (remdups_adj xs)" if "sorted xs" for xs :: "string list"
    using that by (induction xs rule: remdups_adj.induct) (auto simp: less_le)
  then show "sorted_wrt (<) (canonicalRedisKeys keys)"
    by (simp add: canonicalRedisKeys_def)
  have le: "(\<Sum>k\<leftarrow>remdups_adj xs. int (length k)) \<le> (\<Sum>k\<leftarrow>xs. int (length k))" for xs :: "string list"
    by (induction xs rule: remdups_adj.induct) auto
  have "(\<Sum>k\<leftarrow>sort keys. int (length k)) = (\<Sum>k\<leftarrow>keys. int (length k))"
    by (simp add: sum_mset_sum_list [symmetric])
  with le [of "sort keys"] show "(\<Sum>k\<leftarrow>canonicalRedisKeys keys. int (length k)) \<le> (\<Sum>k\<leftarrow>keys. int (length k))"
    by (simp add: canonicalRedisKeys_def)
  show "length (canonicalRedisKeys keys) \<le> length keys"
    by (metis canonicalRedisKeys_def length_sort remdups_adj_length)
qed

section \<open>What the writer has written\<close>

text \<open>The sums of the reader over a list of records, and the state of the scan that has visited them.\<close>

definition tally :: "redisKeyRecord list \<Rightarrow> archive_reader" where
  "tally rs = fold add_record rs fresh_reader"

lemma tally_snoc: "tally (rs @ [r]) = add_record r (tally rs)"
  by (simp add: tally_def)

lemma tally_count: "ar_count (tally rs) = int (length rs)"
  by (induction rs rule: rev_induct) (simp_all add: tally_snoc, simp add: tally_def fresh_reader_def)

lemma tally_split: "ar_persistent (tally rs) + ar_volatile (tally rs) = int (length rs) \<and> 0 \<le> ar_persistent (tally rs) \<and> 0 \<le> ar_volatile (tally rs)"
  by (induction rs rule: rev_induct) (auto simp: tally_snoc add_record_def, simp_all add: tally_def fresh_reader_def)

definition visited :: "redisKeyRecord list \<Rightarrow> scan_state \<Rightarrow> bool" where
  "visited rs st \<longleftrightarrow> ss_all st = ar_all (tally rs) \<and> ss_persistent st = ar_persistent_text (tally rs)
     \<and> rs_key_count (ss_summary st) = int (length rs) \<and> rs_persistent_count (ss_summary st) = ar_persistent (tally rs)
     \<and> rs_volatile_count (ss_summary st) = ar_volatile (tally rs) \<and> rs_database_bytes (ss_summary st) = payload_bytes rs"

lemma visited_snoc: "visited rs st \<Longrightarrow> visited (rs @ [r]) (note_record r st)"
  by (simp add: visited_def tally_snoc note_record_def count_record_def add_record_def)

lemma visited_index [simp]: "visited rs (st\<lparr>ss_key_index := n\<rparr>) = visited rs st"
  by (simp add: visited_def)

definition archive_prefix :: "redisKeyRecord list \<Rightarrow> string" where
  "archive_prefix rs = redisArchiveMagic @ concat (map record_bytes rs)"

lemma archive_prefix_length: "int (length (archive_prefix rs)) = int (length redisArchiveMagic) + 23 * int (length rs) + payload_bytes rs"
  by (induction rs rule: rev_induct) (simp_all add: archive_prefix_def record_bytes_length)

definition written :: "string \<Rightarrow> redisKeyRecord list \<Rightarrow> 's redis_host \<Rightarrow> bool" where
  "written partial rs h \<longleftrightarrow> map_of (rx_files h) partial = Some (archive_prefix rs) \<and> rx_written h = int (length (archive_prefix rs))"

lemma written_local: "host_local h' = host_local h \<Longrightarrow> written partial rs h' = written partial rs h"
  by (simp add: written_def host_local_def)

lemma archive_record_writes:
  assumes "run_state (archive_record partial r) h = (Inr u, h')" and "written partial rs h"
  shows "written partial (rs @ [r]) h'"
proof -
  from assms(1) obtain bytes g where "writeRedisRecord r = Inr bytes"
    and call: "run_state (system_call (append_file partial bytes)) h = (Inr (), g)"
    and rest: "run_state (do {
       modify (\<lambda>h. h\<lparr>rx_written := rx_written h + int (length bytes)\<rparr>);
       h \<leftarrow> get_state;
       guardE (\<not> rx_written h > maximumRedisArchiveBytes) (RedisError ''Redis archive exceeds the V1 byte limit'')
       (progress_report ''redis_snapshot'' (rx_written h) None) }) g = (Inr u, h')"
    unfolding archive_record_def run_tryE_Inr run_lift_Inr by auto
  then have bytes: "bytes = record_bytes r" by (simp add: writeRedisRecord_bytes)
  have g: "map_of (rx_files g) partial = Some (archive_prefix rs @ bytes)" "rx_written g = rx_written h"
    using call assms(2) by (auto simp: run_system_call_Inr append_file_def put_file_def written_def)
  have "rx_files h' = rx_files g" "rx_written h' = rx_written g + int (length bytes)"
    using rest by (auto simp: run_guardE_Inr progress_report_def trace_event_def split: list.splits)
  with g assms(2) show ?thesis by (simp add: written_def bytes archive_prefix_def)
qed

text \<open>The state between two keys: the records so far are on disk, legal, in order, and belong to the databases done before or to the keys done before.\<close>

definition on_disk :: "redisBinding \<Rightarrow> string \<Rightarrow> redisKeyRecord list \<Rightarrow> scan_state \<Rightarrow> 's redis_host \<Rightarrow> bool" where
  "on_disk b partial rs st h \<longleftrightarrow> written partial rs h \<and> visited rs st \<and> list_all (legal_record b) rs \<and> sorted_wrt record_less rs
     \<and> payload_bytes rs \<le> maximumRedisBytes"

lemma scan_key_writes:
  assumes run: "run_state (scan_key e (archive_record partial) db key st) h = (Inr st', h')"
    and disk: "on_disk b partial rs st h" and db: "db \<in> set (rdb_database_indexes b)" "0 \<le> db" "db < 2 ^ 16"
    and order: "\<And>r. r \<in> set rs \<Longrightarrow> kr_database r < db \<or> kr_database r = db \<and> kr_key r < key"
  obtains new where "on_disk b partial (rs @ new) st' h'" and "ss_key_index st' = ss_key_index st" and "new = [] \<or> (\<exists>r. new = [r] \<and> kr_database r = db \<and> kr_key r = key)"
proof -
  from run obtain found g where scan: "run_state (scan_record e db key) h = (Inr found, g)"
    and cont: "run_state (case found of None \<Rightarrow> okE st | Some r \<Rightarrow> guardE (\<not> rs_database_bytes (ss_summary (note_record r st)) > maximumRedisBytes)
        (RedisError ''Redis migration payload exceeds the V1 byte limit'') (tryE (archive_record partial r) (\<lambda>_. okE (note_record r st)))) g = (Inr st', h')"
    unfolding scan_key_def Let_def run_tryE_Inr by blast
  have g: "written partial rs g"
    using disk written_local [OF asksD [OF asks_scan_record scan]] by (simp add: on_disk_def)
  show thesis
  proof (cases found)
    case None
    with cont disk g show thesis by (intro that [of "[]"]) (auto simp: on_disk_def)
  next
    case found: (Some r)
    with cont have st': "st' = note_record r st" and limit: "rs_database_bytes (ss_summary st') \<le> maximumRedisBytes"
      and wrote: "run_state (archive_record partial r) g = (Inr (), h')"
      by (auto simp: run_inv not_less)
    note facts = scan_record_found [OF scan [unfolded found]]
    have vis: "visited (rs @ [r]) st'" using disk st' by (simp add: on_disk_def visited_snoc)
    then have pay: "payload_bytes (rs @ [r]) \<le> maximumRedisBytes" using limit by (simp add: visited_def)
    have legal: "legal_record b r" using facts db by (simp add: legal_record_def)
    have sorted: "sorted_wrt record_less (rs @ [r])"
      using disk order facts by (auto simp: on_disk_def sorted_wrt_append record_less_def)
    have "on_disk b partial (rs @ [r]) st' h'"
      using disk vis pay legal sorted archive_record_writes [OF wrote g] by (simp add: on_disk_def)
    then show thesis using facts st' by (intro that [of "[r]"]) (auto simp: note_record_def)
  qed
qed

lemma ascending_indexes_sorted:
  "ascending_indexes p xs \<Longrightarrow> sorted_wrt (<) xs \<and> (\<forall>x \<in> set xs. p < x \<and> 0 \<le> x \<and> x \<le> 15)"
  by (induction p xs rule: ascending_indexes.induct) fastforce+

lemma valid_indexes:
  assumes "validRedisDatabaseIndexes xs"
  shows "sorted_wrt (<) xs" and "x \<in> set xs \<Longrightarrow> 0 \<le> x \<and> x < 2 ^ 16"
  using assms ascending_indexes_sorted [of "-1" xs] by (auto simp: validRedisDatabaseIndexes_def)

text \<open>The state between two databases.\<close>

definition databases_done :: "redisBinding \<Rightarrow> string \<Rightarrow> int list \<Rightarrow> scan_state \<Rightarrow> 's redis_host \<Rightarrow> redisKeyRecord list \<Rightarrow> bool" where
  "databases_done b partial dbs st h rs \<longleftrightarrow> on_disk b partial rs st h \<and> (\<forall>r \<in> set rs. kr_database r \<in> set dbs)
     \<and> key_bytes rs \<le> ss_key_index st \<and> ss_key_index st \<le> maximumRedisKeyIndexBytes \<and> int (length rs) \<le> maximumRedisKeys"

lemma scan_keys_write:
  assumes run: "run_state (foldE (scan_key e (archive_record partial) db) keys st) h = (Inr st', h')"
    and disk: "on_disk b partial rs st h" and db: "db \<in> set (rdb_database_indexes b)" "0 \<le> db" "db < 2 ^ 16"
    and order: "\<And>r. r \<in> set rs \<Longrightarrow> kr_database r < db" and keys: "sorted_wrt (<) keys"
  obtains new where "on_disk b partial (rs @ new) st' h'" and "ss_key_index st' = ss_key_index st" and "\<forall>r \<in> set new. kr_database r = db"
    and "key_bytes new \<le> (\<Sum>k\<leftarrow>keys. int (length k))" and "length new \<le> length keys"
proof -
  let ?I = "\<lambda>ys st' g. \<exists>new. on_disk b partial (rs @ new) st' g \<and> ss_key_index st' = ss_key_index st
    \<and> (\<forall>r \<in> set new. kr_database r = db \<and> kr_key r \<in> set ys) \<and> key_bytes new \<le> (\<Sum>k\<leftarrow>ys. int (length k)) \<and> length new \<le> length ys"
  have "?I keys st' h'"
  proof (rule foldE_invariant [OF run])
    show "?I [] st h" using disk by (intro exI [of _ "[]"]) simp
    fix ys key zs st1 g st2 g2
    assume split: "keys = ys @ key # zs" and "?I ys st1 g" and one: "run_state (scan_key e (archive_record partial) db key st1) g = (Inr st2, g2)"
    then obtain new where new: "on_disk b partial (rs @ new) st1 g" "ss_key_index st1 = ss_key_index st"
      "\<forall>r \<in> set new. kr_database r = db \<and> kr_key r \<in> set ys" "key_bytes new \<le> (\<Sum>k\<leftarrow>ys. int (length k))" "length new \<le> length ys" by blast
    have before: "kr_database r < db \<or> kr_database r = db \<and> kr_key r < key" if "r \<in> set (rs @ new)" for r
      using that order new(3) keys split by (auto simp: sorted_wrt_append)
    obtain more where "on_disk b partial ((rs @ new) @ more) st2 g2" "ss_key_index st2 = ss_key_index st1"
      "more = [] \<or> (\<exists>r. more = [r] \<and> kr_database r = db \<and> kr_key r = key)"
      by (rule scan_key_writes [OF one new(1) db before])
    with new show "?I (ys @ [key]) st2 g2" by (intro exI [of _ "new @ more"]) auto
  qed
  then show thesis using that by blast
qed

lemma scan_database_writes:
  assumes run: "run_state (scan_database e b (archive_record partial) db st) h = (Inr st', h')" and durable: "rdb_state_mode b \<noteq> ''cache''"
    and before: "databases_done b partial dbs st h rs" and indexes: "validRedisDatabaseIndexes (rdb_database_indexes b)"
    and db: "rdb_database_indexes b = dbs @ db # later"
  obtains rs' where "databases_done b partial (dbs @ [db]) st' h' rs'"
proof -
  from run durable obtain keys indexed g g' where client: "run_state (redis_client e b) h = (Inr (), g)"
    and scan: "run_state (scan_keys e db (rs_key_count (ss_summary st)) (re_fuel e) 0 [] (ss_key_index st)) g = (Inr (keys, indexed), g')"
    and each: "run_state (foldE (scan_key e (archive_record partial) db) (canonicalRedisKeys keys) (st\<lparr>ss_key_index := indexed\<rparr>)) g' = (Inr st', h')"
    by (auto simp: scan_database_def run_tryE_Inr)
  note B = before [unfolded databases_done_def]
  have local: "host_local g' = host_local h"
    using asksD [OF asks_client client] asksD [OF asks_scan_keys scan] by simp
  have disk: "on_disk b partial rs (st\<lparr>ss_key_index := indexed\<rparr>) g'"
    using B by (simp add: on_disk_def written_local [OF local])
  have count: "rs_key_count (ss_summary st) = int (length rs)" using B by (simp add: on_disk_def visited_def)
  have found: "indexed = ss_key_index st + (\<Sum>k\<leftarrow>keys. int (length k))" "indexed \<le> maximumRedisKeyIndexBytes" "int (length rs) + int (length keys) \<le> maximumRedisKeys"
    using scan_keys_found [OF scan, of "ss_key_index st"] B count by simp_all
  have dbs: "db \<in> set (rdb_database_indexes b)" "0 \<le> db" "db < 2 ^ 16" "\<And>r. r \<in> set rs \<Longrightarrow> kr_database r < db"
    using valid_indexes [OF indexes] db B by (auto simp: sorted_wrt_append)
  obtain new where new: "on_disk b partial (rs @ new) st' h'" "ss_key_index st' = ss_key_index (st\<lparr>ss_key_index := indexed\<rparr>)" "\<forall>r \<in> set new. kr_database r = db"
    "key_bytes new \<le> (\<Sum>k\<leftarrow>canonicalRedisKeys keys. int (length k))" "length new \<le> length (canonicalRedisKeys keys)"
    by (rule scan_keys_write [OF each disk dbs canonical_keys(1)])
  have "databases_done b partial (dbs @ [db]) st' h' (rs @ new)"
    unfolding databases_done_def using new B found canonical_keys(2,3) [of keys] by auto
  then show thesis by (rule that)
qed

lemma scan_writes:
  assumes run: "run_state (scanRedisRecords e b (archive_record partial)) h = (Inr summary, h')" and durable: "rdb_state_mode b \<noteq> ''cache''"
    and start: "written partial [] h" and indexes: "validRedisDatabaseIndexes (rdb_database_indexes b)"
  obtains rs where "written partial rs h'" and "legal_archive b rs" and "rs_key_count summary = int (length rs)"
    and "rs_persistent_count summary = ar_persistent (tally rs)" and "rs_volatile_count summary = ar_volatile (tally rs)"
    and "rs_all_digest summary = redisDigestString (re_crypto e) (ar_all (tally rs))"
    and "rs_persistent_digest summary = redisDigestString (re_crypto e) (ar_persistent_text (tally rs))"
proof -
  let ?st = "\<lparr>ss_all = [], ss_persistent = [], ss_summary = zero_scan_summary, ss_key_index = 0\<rparr>"
  from run obtain st where each: "run_state (foldE (scan_database e b (archive_record partial)) (rdb_database_indexes b) ?st) h = (Inr st, h')"
    and summary: "summary = (ss_summary st)\<lparr>rs_all_digest := redisDigestString (re_crypto e) (ss_all st),
         rs_persistent_digest := redisDigestString (re_crypto e) (ss_persistent st)\<rparr>"
    by (auto simp: scanRedisRecords_def run_inv)
  have "\<exists>rs. databases_done b partial (rdb_database_indexes b) st h' rs"
  proof (rule foldE_invariant [OF each, where I = "\<lambda>dbs st g. \<exists>rs. databases_done b partial dbs st g rs"])
    show "\<exists>rs. databases_done b partial [] ?st h rs"
      using start by (intro exI [of _ "[]"]) (simp add: databases_done_def on_disk_def visited_def tally_def fresh_reader_def zero_scan_summary_def redis_limits)
  qed (metis scan_database_writes [OF _ durable _ indexes])
  then obtain rs where "databases_done b partial (rdb_database_indexes b) st h' rs" by blast
  then show thesis
    by (intro that [of rs]) (auto simp: databases_done_def on_disk_def visited_def legal_archive_def summary)
qed

section \<open>The archive of a dump\<close>

text \<open>What the trailer says of the records.\<close>

definition trailer_of :: "'s redis_env \<Rightarrow> redisBinding \<Rightarrow> redisServerFacts \<Rightarrow> string \<Rightarrow> redisKeyRecord list \<Rightarrow> redisArchiveTrailer \<Rightarrow> bool" where
  "trailer_of e b facts acl rs t \<longleftrightarrow> (let cr = re_crypto e in
     at_schema_version t = redisArchiveSchema \<and> at_engine t = rf_engine facts \<and> at_series t = rf_series facts \<and> at_state_mode t = rdb_state_mode b
     \<and> at_persistence t = rf_persistence facts \<and> at_database_indexes t = Some (rdb_database_indexes b) \<and> at_acl_digest t = acl
     \<and> at_record_count t = int (length rs) \<and> at_persistent_count t = ar_persistent (tally rs) \<and> at_volatile_count t = ar_volatile (tally rs)
     \<and> at_all_digest t = redisDigestString cr (ar_all (tally rs)) \<and> at_persistent_digest t = redisDigestString cr (ar_persistent_text (tally rs))
     \<and> (rdb_state_mode b = ''cache'' \<longrightarrow> 0 \<le> at_excluded_count t) \<and> (rdb_state_mode b \<noteq> ''cache'' \<longrightarrow> at_excluded_count t = 0)
     \<and> at_manifest_digest t = redisManifestDigest cr facts b acl (reader_summary t (tally rs)))"

lemma archive_trailer_durable:
  assumes "rdb_state_mode b \<noteq> ''cache''" and "rs_key_count summary = int (length rs)"
    and "rs_persistent_count summary = ar_persistent (tally rs)" and "rs_volatile_count summary = ar_volatile (tally rs)"
    and "rs_all_digest summary = redisDigestString (re_crypto e) (ar_all (tally rs))"
    and "rs_persistent_digest summary = redisDigestString (re_crypto e) (ar_persistent_text (tally rs))"
  shows "trailer_of e b facts acl rs (archive_trailer (re_crypto e) b facts acl summary)"
  using assms by (simp add: trailer_of_def archive_trailer_def Let_def redisManifestDigest_def reader_summary_def tally_count)

lemma archive_trailer_cache:
  assumes "rdb_state_mode b = ''cache''" and "0 \<le> rs_key_count summary"
  shows "trailer_of e b facts acl [] (archive_trailer (re_crypto e) b facts acl summary)"
  using assms
  by (simp add: trailer_of_def archive_trailer_def Let_def redisManifestDigest_def reader_summary_def zero_scan_summary_def tally_def fresh_reader_def)

lemma cache_scan_asks: "rdb_state_mode b = ''cache'' \<Longrightarrow> asks (scanRedisRecords e b visitor)"
  unfolding scanRedisRecords_def scan_database_def by (auto intro!: ask_intros)

lemma cache_scan_count:
  assumes "run_state (scanRedisRecords e b visitor) h = (Inr summary, h')" and "rdb_state_mode b = ''cache''"
  shows "0 \<le> rs_key_count summary"
proof -
  let ?st = "\<lparr>ss_all = [], ss_persistent = [], ss_summary = zero_scan_summary, ss_key_index = 0\<rparr>"
  from assms(1) obtain st where each: "run_state (foldE (scan_database e b visitor) (rdb_database_indexes b) ?st) h = (Inr st, h')"
    and "rs_key_count summary = rs_key_count (ss_summary st)"
    by (auto simp: scanRedisRecords_def run_inv)
  moreover have "0 \<le> rs_key_count (ss_summary st)"
    by (rule foldE_invariant [OF each, where I = "\<lambda>dbs st g. 0 \<le> rs_key_count (ss_summary st)"])
      (auto simp: zero_scan_summary_def scan_database_def assms(2) run_inv)
  ultimately show ?thesis by simp
qed

lemma scan_trailer:
  assumes run: "run_state (scanRedisRecords e b (archive_record partial)) h = (Inr summary, h')"
    and start: "written partial [] h" and indexes: "validRedisDatabaseIndexes (rdb_database_indexes b)"
  obtains rs where "written partial rs h'" and "legal_archive b rs" and "rdb_state_mode b = ''cache'' \<longrightarrow> rs = []"
    and "trailer_of e b facts acl rs (archive_trailer (re_crypto e) b facts acl summary)"
proof (cases "rdb_state_mode b = ''cache''")
  case True
  show thesis
  proof (rule that [of "[]"])
    show "written partial [] h'"
      using written_local [OF asksD [OF cache_scan_asks [OF True] run]] start by simp
    show "trailer_of e b facts acl [] (archive_trailer (re_crypto e) b facts acl summary)"
      by (rule archive_trailer_cache [OF True cache_scan_count [OF run True]])
  qed (simp_all add: legal_archive_def redis_limits)
next
  case False
  obtain rs where "written partial rs h'" "legal_archive b rs" "rs_key_count summary = int (length rs)"
    "rs_persistent_count summary = ar_persistent (tally rs)" "rs_volatile_count summary = ar_volatile (tally rs)"
    "rs_all_digest summary = redisDigestString (re_crypto e) (ar_all (tally rs))"
    "rs_persistent_digest summary = redisDigestString (re_crypto e) (ar_persistent_text (tally rs))"
    by (rule scan_writes [OF run False start indexes])
  with False show thesis by (intro that [of rs] archive_trailer_durable) auto
qed

lemma fill_archive_written:
  assumes run: "run_state (fill_archive e b facts acl partial path) h = (Inr (trailer, bytes), h')"
    and start: "map_of (rx_files h) partial = Some []" and indexes: "validRedisDatabaseIndexes (rdb_database_indexes b)"
  obtains rs where "map_of (rx_files h') path = Some (archive_prefix rs @ archive_end (tc_marshal (re_codec e) trailer))"
    and "legal_archive b rs" and "rdb_state_mode b = ''cache'' \<longrightarrow> rs = []" and "trailer_of e b facts acl rs trailer"
    and "int (length (tc_marshal (re_codec e) trailer)) \<le> maximumRedisTrailerBytes"
    and "bytes = int (length (archive_prefix rs @ archive_end (tc_marshal (re_codec e) trailer)))"
proof -
  from run obtain g summary g1 g2 g3 g4 where
    magic: "run_state (system_call (append_file partial redisArchiveMagic)) h = (Inr (), g)"
    and scan: "run_state (scanRedisRecords e b (archive_record partial)) (g\<lparr>rx_written := int (length redisArchiveMagic)\<rparr>) = (Inr summary, g1)"
    and trailer: "trailer = archive_trailer (re_crypto e) b facts acl summary"
    and limit: "int (length (tc_marshal (re_codec e) trailer)) \<le> maximumRedisTrailerBytes"
    and last: "run_state (system_call (append_file partial (archive_end (tc_marshal (re_codec e) trailer)))) g1 = (Inr (), g2)"
    and bytes: "bytes = rx_written g2 + int (5 + length (tc_marshal (re_codec e) trailer))"
    and sync: "run_state (system_call id) (g2\<lparr>rx_written := bytes\<rparr>) = (Inr (), g3)" and closed: "run_state (system_call id) g3 = (Inr (), g4)"
    and renamed: "run_state (system_call (rename_file partial path)) g4 = (Inr (), h')"
    by (fastforce simp: fill_archive_def Let_def run_tryE_Inr run_guardE_Inr run_okE_Inr)
  have "map_of (rx_files g) partial = Some redisArchiveMagic"
    using magic start by (auto simp: run_system_call_Inr append_file_def put_file_def)
  then have start': "written partial [] (g\<lparr>rx_written := int (length redisArchiveMagic)\<rparr>)"
    by (simp add: written_def archive_prefix_def)
  obtain rs where rs: "written partial rs g1" "legal_archive b rs" "rdb_state_mode b = ''cache'' \<longrightarrow> rs = []" "trailer_of e b facts acl rs trailer"
    unfolding trailer by (rule scan_trailer [where facts = facts and acl = acl, OF scan start' indexes])
  let ?whole = "archive_prefix rs @ archive_end (tc_marshal (re_codec e) trailer)"
  have g2: "map_of (rx_files g2) partial = Some ?whole" "rx_written g2 = rx_written g1"
    using last rs(1) by (auto simp: run_system_call_Inr append_file_def put_file_def written_def)
  have "map_of (rx_files g4) partial = Some ?whole"
    using g2 sync closed by (auto simp: run_system_call_Inr)
  then have "map_of (rx_files h') path = Some ?whole"
    using renamed by (auto simp: run_system_call_Inr rename_file_def put_file_def remove_file_def)
  moreover have "bytes = int (length ?whole)"
    using bytes g2 rs(1) by (simp add: written_def archive_end_def)
  ultimately show thesis using rs limit by (intro that)
qed

lemma archive_written:
  assumes run: "run_state (writeRedisArchive e b facts acl path) h = (Inr (trailer, bytes), h')"
    and indexes: "validRedisDatabaseIndexes (rdb_database_indexes b)"
  obtains rs where "map_of (rx_files h') path = Some (archive_prefix rs @ archive_end (tc_marshal (re_codec e) trailer))"
    and "legal_archive b rs" and "rdb_state_mode b = ''cache'' \<longrightarrow> rs = []" and "trailer_of e b facts acl rs trailer"
    and "int (length (tc_marshal (re_codec e) trailer)) \<le> maximumRedisTrailerBytes"
    and "bytes = int (length (archive_prefix rs @ archive_end (tc_marshal (re_codec e) trailer)))"
proof -
  let ?partial = "path_join (dir_name path) (''.'' @ base_name path @ ''.partial-'' @ re_temporary e)"
  from run obtain g g' where create: "run_state (system_call (put_file ?partial [])) h = (Inr (), g)"
    and chmod: "run_state (system_call id) g = (Inr (), g')" and fill: "run_state (fill_archive e b facts acl ?partial path) g' = (Inr (trailer, bytes), h')"
    unfolding writeRedisArchive_def Let_def run_tryE_Inr run_cleanup_Inr by auto
  have "map_of (rx_files g') ?partial = Some []"
    using create chmod by (auto simp: run_system_call_Inr put_file_def)
  from fill_archive_written [OF fill this indexes] show thesis using that by metis
qed

section \<open>Reading it back\<close>

lemma archive_end_read:
  assumes "2 \<le> length encoded" and "int (length encoded) \<le> maximumRedisTrailerBytes"
    and "tc_decode tc encoded = Some t" and "trailer_agrees cr b acl a t"
    and "redisManifestDigest cr (trailer_facts t) b acl (reader_summary t a) = at_manifest_digest t"
  shows "read_trailer cr tc b acl a (big_endian 4 (length encoded mod 2 ^ 32) @ encoded) = Inr t"
proof -
  have "length encoded < 2 ^ 32" using assms(2) by (simp add: redis_limits)
  then have len: "big_endian_value (big_endian 4 (length encoded mod 2 ^ 32)) = length encoded"
    by (simp add: big_endian_round_trip)
  show ?thesis
    unfolding read_trailer_def thenR_def read_full_def
    using assms len by (simp add: Let_def requireR_def thenR_def)
qed

text \<open>The bindings of source and target name the same engine, kind of state and databases.\<close>

definition same_scope :: "redisBinding \<Rightarrow> redisBinding \<Rightarrow> bool" where
  "same_scope b b' \<longleftrightarrow> rdb_engine b' = rdb_engine b \<and> rdb_state_mode b' = rdb_state_mode b \<and> rdb_database_indexes b' = rdb_database_indexes b"

lemma trailer_of_agrees:
  assumes "trailer_of e b facts acl rs t" and "same_scope b b'" and "rf_engine facts = rdb_engine b"
    and "redisSupportedSeries (rf_engine facts) (rf_series facts)" and "rf_persistence facts \<in> {''rdb'', ''aof''}"
    and "legal_archive b rs" and "rdb_state_mode b = ''cache'' \<longrightarrow> rs = []"
  shows "trailer_agrees (re_crypto e) b' acl (tally rs) t"
    and "redisManifestDigest (re_crypto e) (trailer_facts t) b' acl (reader_summary t (tally rs)) = at_manifest_digest t"
proof -
  have "in_int64 (int (length rs))"
    using assms(6) by (simp add: legal_archive_def redis_limits in_int64_def)
  then have sum: "wrap64 (ar_persistent (tally rs) + ar_volatile (tally rs)) = int (length rs)"
    using tally_split [of rs] by simp
  show "trailer_agrees (re_crypto e) b' acl (tally rs) t"
    using assms sum tally_count [of rs] by (auto simp: trailer_of_def trailer_agrees_def same_scope_def Let_def)
  show "redisManifestDigest (re_crypto e) (trailer_facts t) b' acl (reader_summary t (tally rs)) = at_manifest_digest t"
    using assms(1,2,3) by (simp add: trailer_of_def same_scope_def redisManifestDigest_def trailer_facts_def Let_def)
qed

lemma archive_read_back:
  assumes legal: "legal_archive b rs" and cache: "rdb_state_mode b = ''cache'' \<longrightarrow> rs = []" and same: "same_scope b b'"
    and trailer: "trailer_of e b facts acl rs t" and facts: "rf_engine facts = rdb_engine b" "redisSupportedSeries (rf_engine facts) (rf_series facts)"
    "rf_persistence facts \<in> {''rdb'', ''aof''}"
    and codec: "tc_decode (re_codec e) (tc_marshal (re_codec e) t) = Some t" "2 \<le> length (tc_marshal (re_codec e) t)"
    and limit: "int (length (tc_marshal (re_codec e) t)) \<le> maximumRedisTrailerBytes"
  shows "readRedisArchive (re_crypto e) (re_codec e) (Some (archive_prefix rs @ archive_end (tc_marshal (re_codec e) t))) b' acl visitor
    = tryE (forE rs visitor) (\<lambda>_. okE t)"
proof -
  let ?encoded = "tc_marshal (re_codec e) t"
  let ?content = "archive_prefix rs @ archive_end ?encoded"
  have bound: "int (length ?content) = int (length redisArchiveMagic) + 23 * int (length rs) + payload_bytes rs + 5 + int (length ?encoded)"
    by (simp add: archive_prefix_length archive_end_def)
  then have upper: "int (length ?content) \<le> maximumRedisArchiveBytes"
    using legal limit by (simp add: legal_archive_def maximumRedisArchiveBytes_def)
  have lower: "int (length redisArchiveMagic) + 5 \<le> int (length ?content)"
    using bound payload_bytes_nonneg [of rs] by linarith
  have rest: "drop (length redisArchiveMagic) ?content
      = concat (map record_bytes rs) @ char_of (255 :: nat) # big_endian 4 (length ?encoded mod 2 ^ 32) @ ?encoded"
    by (simp add: archive_prefix_def archive_end_def)
  have records: "read_records b' visitor fresh_reader (drop (length redisArchiveMagic) ?content)
      = tryE (forE rs visitor) (\<lambda>_. okE (tally rs, big_endian 4 (length ?encoded mod 2 ^ 32) @ ?encoded))"
  proof (cases "rdb_state_mode b = ''cache''")
    case True
    then show ?thesis using cache unfolding rest
      by (subst read_records.simps) (simp add: tally_def tryE_def okE_def)
  next
    case False
    then show ?thesis unfolding rest tally_def
      using legal same by (intro read_records_written)
        (auto simp: legal_archive_def same_scope_def legal_record_def list_all_iff before_record_def fresh_reader_def)
  qed
  have last: "read_trailer (re_crypto e) (re_codec e) b' acl (tally rs) (big_endian 4 (length ?encoded mod 2 ^ 32) @ ?encoded) = Inr t"
    by (rule archive_end_read [OF codec(2) limit codec(1) trailer_of_agrees [OF trailer same facts legal cache]])
  have magic: "take (length redisArchiveMagic) ?content = redisArchiveMagic"
    by (simp add: archive_prefix_def)
  have "readRedisArchive (re_crypto e) (re_codec e) (Some ?content) b' acl visitor
      = tryE (read_records b' visitor fresh_reader (drop (length redisArchiveMagic) ?content))
          (\<lambda>(a, s). lift_result (read_trailer (re_crypto e) (re_codec e) b' acl a s))"
    using upper lower magic by (simp only: readRedisArchive_def option.case guardE_def not_less if_True simp_thms)
  also have "\<dots> = tryE (forE rs visitor) (\<lambda>_. okE t)"
    unfolding records tryE_assoc tryE_okE prod.case last by (simp add: lift_result_def okE_def)
  finally show ?thesis .
qed

text \<open>
  \<^bold>\<open>C23\<close>. Every archive a dump reports can be read back: when \<open>writeRedisArchive\<close> succeeds, whatever the server answered, the reader accepts the file it left
  at the artifact path, for every binding with the same engine, kind of state and databases. It visits the records the dump has
  written, in order, each legal and each once, and returns the trailer.
\<close>

theorem redis_archive_round_trip:
  assumes "run_state (writeRedisArchive e b facts acl path) h = (Inr (trailer, bytes), h')"
    and "validRedisDatabaseIndexes (rdb_database_indexes b)" and "rf_engine facts = rdb_engine b"
    and "redisSupportedSeries (rf_engine facts) (rf_series facts)" and "rf_persistence facts \<in> {''rdb'', ''aof''}"
    and "tc_decode (re_codec e) (tc_marshal (re_codec e) trailer) = Some trailer" and "2 \<le> length (tc_marshal (re_codec e) trailer)"
    and "same_scope b b'"
  shows "\<exists>content rs. map_of (rx_files h') path = Some content \<and> bytes = int (length content) \<and> legal_archive b rs \<and> at_record_count trailer = int (length rs)
    \<and> readRedisArchive (re_crypto e) (re_codec e) (Some content) b' acl visitor = tryE (forE rs visitor) (\<lambda>_. okE trailer)"
proof -
  obtain rs where rs: "map_of (rx_files h') path = Some (archive_prefix rs @ archive_end (tc_marshal (re_codec e) trailer))"
    "legal_archive b rs" "rdb_state_mode b = ''cache'' \<longrightarrow> rs = []" "trailer_of e b facts acl rs trailer"
    "int (length (tc_marshal (re_codec e) trailer)) \<le> maximumRedisTrailerBytes"
    "bytes = int (length (archive_prefix rs @ archive_end (tc_marshal (re_codec e) trailer)))"
    by (rule archive_written [OF assms(1,2)])
  have "at_record_count trailer = int (length rs)" using rs(4) by (simp add: trailer_of_def Let_def)
  with rs archive_read_back [OF rs(2,3) assms(8) rs(4) assms(3,4,5,6,7) rs(5)] show ?thesis by blast
qed

end
