(* ===== verification/Canonical_Reading.thy ===== *)
theory Canonical_Reading
  imports Canonical Go_Results
begin

text \<open>
  Canonical JSON can be read back: the text of a value, followed by a delimiter, determines the value. With a hash function without
  collisions, a digest therefore identifies the value it was computed from up to the order of object members.
\<close>

section \<open>Strings\<close>

definition hex_value :: "char \<Rightarrow> nat" where
  "hex_value c = (if is_digit c then of_char c - 48 else of_char c - 87)"

definition unescape :: "string \<Rightarrow> char \<times> string" where
  "unescape s =
     (case s of
        [] \<Rightarrow> (CHR 0x00, [])
      | c # rest \<Rightarrow>
          if c \<noteq> CHR 0x5C then (c, rest)
          else let e = hd rest; more = tl rest in
            if e = CHR ''b'' then (CHR 0x08, more) else if e = CHR ''f'' then (CHR 0x0C, more) else if e = CHR ''n'' then (CHR 0x0A, more)
            else if e = CHR ''r'' then (CHR 0x0D, more) else if e = CHR ''t'' then (CHR 0x09, more)
            else if e = CHR ''u'' then (char_of (16 * hex_value (more ! 2) + hex_value (more ! 3)), drop 4 more)
            else (e, more))"

lemma hex_value_digit: "n < 16 \<Longrightarrow> hex_value (hex_digit n) = n"
  by (auto simp: hex_value_def hex_digit_def is_digit_def)

lemma hex_pair:
  assumes "n < 256"
  shows "16 * hex_value (hex_digit (n div 16)) + hex_value (hex_digit (n mod 16)) = n"
proof -
  have "n div 16 < 16" "n mod 16 < 16" using assms by simp_all
  then show ?thesis by (simp add: hex_value_digit)
qed

lemma unescape_plain: "c \<noteq> CHR 0x5C \<Longrightarrow> unescape (c # s) = (c, s)"
  by (simp add: unescape_def)

lemma unescape_u: "unescape (CHR 0x5C # CHR ''u'' # a # b # x # y # s) = (char_of (16 * hex_value x + hex_value y), s)"
  by (simp add: unescape_def)

lemma unescape_esc: "unescape (esc_char c @ s) = (c, s)"
proof (cases "c \<in> {CHR 0x22, CHR 0x5C, CHR 0x08, CHR 0x0C, CHR 0x0A, CHR 0x0D, CHR 0x09}")
  case True
  then show ?thesis by (elim insertE) (simp_all add: esc_char_def unescape_def)
next
  case False
  show ?thesis
  proof (cases "(of_char c :: nat) < 32")
    case True
    with False have "esc_char c @ s = CHR 0x5C # CHR ''u'' # CHR ''0'' # CHR ''0'' # hex_digit (of_char c div 16) # hex_digit (of_char c mod 16) # s"
      by (simp add: esc_char_def)
    then show ?thesis using True hex_pair [of "of_char c"] by (simp add: unescape_u)
  next
    case small: False
    with False have "esc_char c @ s = c # s" by (simp add: esc_char_def)
    then show ?thesis using False by (simp add: unescape_plain)
  qed
qed

lemma esc_char_prefix: "esc_char c @ s = esc_char d @ t \<Longrightarrow> c = d \<and> s = t"
  by (drule arg_cong [where f = unescape]) (simp add: unescape_esc)

lemma esc_char_hd: "esc_char c \<noteq> []" "hd (esc_char c) \<noteq> CHR 0x22" "CHR 0x22 \<noteq> hd (esc_char c)"
  by (simp_all add: esc_char_def)

lemma quote_prefix:
  assumes "quote_str x @ s = quote_str y @ t"
  shows "x = y \<and> s = t"
proof -
  have "x = y \<and> s = t" if "concat (map esc_char x) @ CHR 0x22 # s = concat (map esc_char y) @ CHR 0x22 # t" for x y s t
    using that
  proof (induction x arbitrary: y)
    case Nil
    then show ?case by (cases y) (auto dest!: arg_cong [where f = hd] simp: esc_char_hd hd_append)
  next
    case (Cons c x)
    show ?case
    proof (cases y)
      case Nil
      with Cons.prems show ?thesis by (auto dest!: arg_cong [where f = hd] simp: esc_char_hd hd_append)
    next
      case y: (Cons d y')
      with Cons.prems have "esc_char c @ (concat (map esc_char x) @ CHR 0x22 # s) = esc_char d @ (concat (map esc_char y') @ CHR 0x22 # t)" by simp
      from esc_char_prefix [OF this] Cons.IH [of y'] y show ?thesis by simp
    qed
  qed
  from this [of x s y t] assms show ?thesis by (simp add: quote_str_def)
qed

section \<open>Numbers\<close>

definition number_char :: "char \<Rightarrow> bool" where
  "number_char c \<longleftrightarrow> is_digit c \<or> c \<in> set ''+-.eE''"

text \<open>The tokens of numbers start with a digit or a sign.\<close>

definition number_token :: "string \<Rightarrow> bool" where
  "number_token t \<longleftrightarrow> t \<noteq> [] \<and> list_all number_char t \<and> (is_digit (hd t) \<or> hd t = CHR ''-'')"

lemma nat_str_only_digits: "nat_str n \<noteq> [] \<and> list_all is_digit (nat_str n)"
proof (induction n rule: less_induct)
  case (less n)
  show ?case
  proof (cases "n < 10")
    case True
    then show ?thesis using digit_char [OF True] by (subst (1 2) nat_str.simps) simp
  next
    case False
    then show ?thesis using less [of "n div 10"] digit_char [of "n mod 10"] by (subst (1 2) nat_str.simps) simp
  qed
qed

lemma int_str_token: "number_token (int_str i)"
  using nat_str_only_digits [of "nat i"] nat_str_only_digits [of "nat (- i)"]
  by (cases "nat_str (nat i)") (auto simp: number_token_def int_str_def number_char_def list_all_iff)

text \<open>What may follow a value inside a document.\<close>

definition delimited :: "string \<Rightarrow> bool" where
  "delimited s \<longleftrightarrow> s = [] \<or> hd s \<in> set '',]}''"

lemma token_prefix:
  assumes "list_all number_char x" and "list_all number_char y" and "delimited s" and "delimited t" and "x @ s = y @ t"
  shows "x = y \<and> s = t"
proof -
  have stop: "takeWhile number_char (z @ r) = z" if "list_all number_char z" "delimited r" for z r
    using that by (cases r) (auto simp: takeWhile_append list_all_iff delimited_def number_char_def is_digit_def)
  have "x = y" using stop [OF assms(1,3)] stop [OF assms(2,4)] assms(5) by simp
  with assms(5) show ?thesis by simp
qed

section \<open>Values\<close>

text \<open>Values as the canonical encoder prints them: number tokens only.\<close>

fun printable :: "jval \<Rightarrow> bool" where
  "printable (JNumber t) \<longleftrightarrow> number_token t"
| "printable (JFloat m k) \<longleftrightarrow> False"
| "printable (JInt i) \<longleftrightarrow> False"
| "printable (JArr vs) \<longleftrightarrow> list_all printable vs"
| "printable (JObj kvs) \<longleftrightarrow> list_all printable (map snd kvs)"
| "printable v \<longleftrightarrow> True"

text \<open>The first character tells the kind of a value.\<close>

lemma encode_hd:
  assumes "printable v"
  shows "encode ffmt v \<noteq> []" and "hd (encode ffmt v) =
    (case v of JNull \<Rightarrow> CHR ''n'' | JBool b \<Rightarrow> if b then CHR ''t'' else CHR ''f'' | JNumber t \<Rightarrow> hd t | JStr s \<Rightarrow> CHR 0x22
     | JArr vs \<Rightarrow> CHR ''['' | JObj kvs \<Rightarrow> CHR ''{'' | _ \<Rightarrow> hd (encode ffmt v))"
  using assms by (cases v; simp add: quote_str_def number_token_def)+

definition member_text :: "(int \<Rightarrow> nat \<Rightarrow> string) \<Rightarrow> string \<times> jval \<Rightarrow> string" where
  "member_text ffmt kv = quote_str (fst kv) @ CHR '':'' # encode ffmt (snd kv)"

lemma encode_object: "encode ffmt (JObj kvs) = CHR ''{'' # join_with '','' (map (member_text ffmt) kvs) @ ''}''"
  by (simp add: member_text_def [abs_def] case_prod_unfold map_prod_def comp_def)

text \<open>A sequence of texts that can each be read up to a delimiter can be read up to its closing bracket.\<close>

definition readable :: "('a \<Rightarrow> string) \<Rightarrow> ('a \<Rightarrow> bool) \<Rightarrow> 'a \<Rightarrow> bool" where
  "readable f P x \<longleftrightarrow> (\<forall>y s t. P y \<longrightarrow> delimited s \<longrightarrow> delimited t \<longrightarrow> f x @ s = f y @ t \<longrightarrow> x = y \<and> s = t)"

lemma readableD: "readable f P x \<Longrightarrow> P y \<Longrightarrow> delimited s \<Longrightarrow> delimited t \<Longrightarrow> f x @ s = f y @ t \<Longrightarrow> x = y \<and> s = t"
  unfolding readable_def by blast

lemma join_tail: "join_with '','' (p # ps) = p @ concat (map (\<lambda>q. CHR '','' # q) ps)"
  by (induction ps arbitrary: p) auto

lemma tail_delimited: "close \<in> set '']}'' \<Longrightarrow> delimited (concat (map (\<lambda>x. CHR '','' # f x) xs) @ close # s)"
  by (cases xs) (auto simp: delimited_def)

lemma read_one:
  assumes "readable f P x" and "P y" and close: "close \<in> set '']}''"
    and "f x @ (concat (map (\<lambda>x. CHR '','' # f x) xs) @ close # s) = f y @ (concat (map (\<lambda>y. CHR '','' # f y) ys) @ close # t)"
  shows "x = y" and "concat (map (\<lambda>x. CHR '','' # f x) xs) @ close # s = concat (map (\<lambda>y. CHR '','' # f y) ys) @ close # t"
  using readableD [where f = f and P = P, OF assms(1,2) tail_delimited [OF close] tail_delimited [OF close] assms(4)] by blast+

lemma tail_prefix:
  assumes "list_all (readable f P) xs" and "list_all P ys" and close: "close \<in> set '']}''"
    and "concat (map (\<lambda>x. CHR '','' # f x) xs) @ close # s = concat (map (\<lambda>y. CHR '','' # f y) ys) @ close # t"
  shows "xs = ys \<and> s = t"
  using assms(1,2,4)
proof (induction xs arbitrary: ys)
  case Nil
  with close show ?case by (cases ys) auto
next
  case (Cons x xs)
  with close obtain y ys' where ys: "ys = y # ys'" by (cases ys) auto
  have "f x @ (concat (map (\<lambda>x. CHR '','' # f x) xs) @ close # s) = f y @ (concat (map (\<lambda>y. CHR '','' # f y) ys') @ close # t)"
    using Cons.prems(3) ys by simp
  note both = read_one [OF _ _ close this]
  have "readable f P x" "P y" using Cons.prems(1,2) ys by simp_all
  with both [of P] have "x = y" "concat (map (\<lambda>x. CHR '','' # f x) xs) @ close # s = concat (map (\<lambda>y. CHR '','' # f y) ys') @ close # t" by blast+
  with Cons.IH [of ys'] Cons.prems ys show ?case by simp
qed

lemma join_prefix:
  assumes xs: "list_all (readable f P) xs" and ys: "list_all P ys" and close: "close \<in> set '']}''"
    and first: "\<And>x. x \<in> set xs \<or> x \<in> set ys \<Longrightarrow> f x \<noteq> [] \<and> hd (f x) \<noteq> close"
    and eq: "join_with '','' (map f xs) @ close # s = join_with '','' (map f ys) @ close # t"
  shows "xs = ys \<and> s = t"
proof -
  have hd_join: "hd (join_with '','' (map f (z # zs)) @ close # r) = hd (f z)" if "f z \<noteq> []" for z zs r
    using that by (simp add: join_tail)
  show ?thesis
  proof (cases xs)
    case Nil
    show ?thesis
    proof (cases ys)
      case y: (Cons y ys')
      then have "hd (f y) = close"
        using arg_cong [OF eq, of hd] first [of y] hd_join [of y ys' t] Nil by (simp del: list.map(2))
      with first [of y] y show ?thesis by simp
    qed (use eq Nil in simp)
  next
    case x: (Cons x xs')
    show ?thesis
    proof (cases ys)
      case Nil
      then show ?thesis using eq arg_cong [OF eq, of hd] first hd_join [of x xs' s] x by (auto simp del: list.map(2))
    next
      case y: (Cons y ys')
      have "f x @ (concat (map (\<lambda>x. CHR '','' # f x) xs') @ close # s) = f y @ (concat (map (\<lambda>y. CHR '','' # f y) ys') @ close # t)"
        using eq x y by (simp add: join_tail comp_def)
      note both = read_one [OF _ _ close this]
      have "readable f P x" "P y" using xs ys x y by simp_all
      with both [of P] have "x = y" and rest: "concat (map (\<lambda>x. CHR '','' # f x) xs') @ close # s = concat (map (\<lambda>y. CHR '','' # f y) ys') @ close # t"
        by blast+
      moreover have "xs' = ys' \<and> s = t"
        by (rule tail_prefix [where P = P, OF _ _ close rest]) (use xs ys x y in simp_all)
      ultimately show ?thesis using x y by simp
    qed
  qed
qed

section \<open>Canonical text determines the value\<close>

datatype kind = Null_kind | True_kind | False_kind | Number_kind | String_kind | Array_kind | Object_kind

definition kind_of :: "jval \<Rightarrow> kind" where
  "kind_of v = (case v of JNull \<Rightarrow> Null_kind | JBool b \<Rightarrow> if b then True_kind else False_kind | JStr _ \<Rightarrow> String_kind
     | JArr _ \<Rightarrow> Array_kind | JObj _ \<Rightarrow> Object_kind | _ \<Rightarrow> Number_kind)"

definition kind_of_char :: "char \<Rightarrow> kind" where
  "kind_of_char c = (if c = CHR ''n'' then Null_kind else if c = CHR ''t'' then True_kind else if c = CHR ''f'' then False_kind
     else if c = CHR 0x22 then String_kind else if c = CHR ''['' then Array_kind else if c = CHR ''{'' then Object_kind else Number_kind)"

lemma encode_kind:
  assumes "printable v"
  shows "encode ffmt v \<noteq> []" and "kind_of_char (hd (encode ffmt v)) = kind_of v" and "hd (encode ffmt v) \<notin> set '']}''"
  using assms
  by (cases v; auto simp: quote_str_def number_token_def kind_of_char_def kind_of_def is_digit_def)+

lemma same_kind:
  assumes "printable v" and "printable w" and "encode ffmt v @ s = encode ffmt w @ t"
  shows "kind_of v = kind_of w"
  using encode_kind [OF assms(1), of ffmt] encode_kind [OF assms(2), of ffmt] assms(3) by (metis hd_append2)

lemma encode_readable: "printable v \<Longrightarrow> readable (encode ffmt) printable v"
proof (induction v)
  case (JNumber x)
  show ?case unfolding readable_def
  proof (intro allI impI)
    fix w s t assume w: "printable w" "delimited s" "delimited t" and eq: "encode ffmt (JNumber x) @ s = encode ffmt w @ t"
    from same_kind [OF JNumber w(1) eq] w(1) obtain y where y: "w = JNumber y" by (cases w) (auto simp: kind_of_def split: if_splits)
    with token_prefix [of x y s t] w JNumber eq show "JNumber x = w \<and> s = t" by (simp add: number_token_def)
  qed
next
  case (JStr x)
  show ?case unfolding readable_def
  proof (intro allI impI)
    fix w s t assume w: "printable w" and eq: "encode ffmt (JStr x) @ s = encode ffmt w @ t"
    from same_kind [OF JStr w eq] w obtain y where y: "w = JStr y" by (cases w) (auto simp: kind_of_def split: if_splits)
    with quote_prefix [of x s y t] eq show "JStr x = w \<and> s = t" by simp
  qed
next
  case (JArr vs)
  show ?case unfolding readable_def
  proof (intro allI impI)
    fix w s t assume w: "printable w" and eq: "encode ffmt (JArr vs) @ s = encode ffmt w @ t"
    from same_kind [OF JArr.prems w eq] w obtain ws where ws: "w = JArr ws" by (cases w) (auto simp: kind_of_def split: if_splits)
    have "vs = ws \<and> s = t"
    proof (rule join_prefix [where f = "encode ffmt" and P = printable and close = "CHR '']''"])
      show "list_all (readable (encode ffmt) printable) vs" using JArr by (auto simp: list_all_iff)
      show "list_all printable ws" using w ws by simp
      show "encode ffmt x \<noteq> [] \<and> hd (encode ffmt x) \<noteq> CHR '']''" if "x \<in> set vs \<or> x \<in> set ws" for x
        using that encode_kind [of x ffmt] JArr.prems w ws by (auto simp: list_all_iff)
    qed (use eq ws in simp_all)
    with ws show "JArr vs = w \<and> s = t" by simp
  qed
next
  case (JObj kvs)
  have member: "readable (member_text ffmt) (printable \<circ> snd) kv" if "kv \<in> set kvs" for kv
    unfolding readable_def comp_def
  proof (intro allI impI)
    fix kw s t assume kw: "printable (snd kw)" "delimited s" "delimited t" and eq: "member_text ffmt kv @ s = member_text ffmt kw @ t"
    have "readable (encode ffmt) printable (snd kv)"
      using JObj that by (cases kv) (auto simp: list_all_iff)
    moreover have "fst kv = fst kw \<and> CHR '':'' # encode ffmt (snd kv) @ s = CHR '':'' # encode ffmt (snd kw) @ t"
      by (rule quote_prefix) (use eq in \<open>simp add: member_text_def\<close>)
    ultimately show "kv = kw \<and> s = t" using kw readableD by (fastforce intro: prod_eqI)
  qed
  show ?case unfolding readable_def
  proof (intro allI impI)
    fix w s t assume w: "printable w" and eq: "encode ffmt (JObj kvs) @ s = encode ffmt w @ t"
    from same_kind [OF JObj.prems w eq] w obtain kws where kws: "w = JObj kws" by (cases w) (auto simp: kind_of_def split: if_splits)
    have "kvs = kws \<and> s = t"
    proof (rule join_prefix [where f = "member_text ffmt" and P = "printable \<circ> snd" and close = "CHR ''}''"])
      show "list_all (readable (member_text ffmt) (printable \<circ> snd)) kvs" using member by (auto simp: list_all_iff)
      show "list_all (printable \<circ> snd) kws" using w kws by (simp add: list_all_iff)
      show "member_text ffmt x \<noteq> [] \<and> hd (member_text ffmt x) \<noteq> CHR ''}''" for x
        by (simp add: member_text_def quote_str_def)
    qed (use eq kws in \<open>simp_all only: encode_object, simp_all\<close>)
    with kws show "JObj kvs = w \<and> s = t" by simp
  qed
next
  case JNull
  show ?case unfolding readable_def
  proof (intro allI impI)
    fix w s t assume w: "printable w" and eq: "encode ffmt JNull @ s = encode ffmt w @ t"
    from same_kind [OF JNull w eq] w have "w = JNull" by (cases w) (auto simp: kind_of_def split: if_splits)
    with eq show "JNull = w \<and> s = t" by simp
  qed
next
  case (JBool b)
  show ?case unfolding readable_def
  proof (intro allI impI)
    fix w s t assume w: "printable w" and eq: "encode ffmt (JBool b) @ s = encode ffmt w @ t"
    from same_kind [OF JBool w eq] w have "w = JBool b" by (cases w) (auto simp: kind_of_def split: if_splits)
    with eq show "JBool b = w \<and> s = t" by simp
  qed
qed simp_all

section \<open>Digests identify values\<close>

text \<open>Values whose numbers have proper tokens: floats by their printer, tokens of a decoded document.\<close>

fun proper :: "(int \<Rightarrow> nat \<Rightarrow> string) \<Rightarrow> jval \<Rightarrow> bool" where
  "proper ffmt (JFloat m k) \<longleftrightarrow> number_token (ffmt m k)"
| "proper ffmt (JNumber t) \<longleftrightarrow> number_token t"
| "proper ffmt (JArr vs) \<longleftrightarrow> list_all (proper ffmt) vs"
| "proper ffmt (JObj kvs) \<longleftrightarrow> list_all (proper ffmt) (map snd kvs)"
| "proper ffmt v \<longleftrightarrow> True"

lemma canon_printable: "proper ffmt v \<Longrightarrow> printable (canon ffmt v)"
proof (induction v)
  case (JObj kvs)
  then show ?case by (auto simp: list_all_iff)
qed (auto simp: list_all_iff int_str_token)

lemma canonical_text_inj:
  assumes "proper ffmt v" and "proper ffmt w" and "CanonicalJSON ffmt v = CanonicalJSON ffmt w"
  shows "canon ffmt v = canon ffmt w"
  using readableD [OF encode_readable [OF canon_printable [OF assms(1)]] canon_printable [OF assms(2)], of "[]" "[]" ffmt] assms(3)
  by (simp add: CanonicalJSON_def delimited_def)

text \<open>Members of objects with distinct names.\<close>

lemma canon_member:
  assumes "canon ffmt (JObj kvs) = canon ffmt (JObj kws)" and "distinct (map fst kvs)" and "distinct (map fst kws)"
    and "map_of kvs k = Some v" and "map_of kws k = Some w"
  shows "canon ffmt v = canon ffmt w"
proof -
  have members: "map_of (sort_key fst (map (map_prod id (canon ffmt)) us)) k = map_option (canon ffmt) (map_of us k)"
    if "distinct (map fst us)" for us
  proof -
    have "distinct (map fst (map (map_prod id (canon ffmt)) us))" using that by (simp add: comp_def)
    moreover from this have "distinct (map fst (sort_key fst (map (map_prod id (canon ffmt)) us)))"
      by (metis mset_eq_imp_distinct_iff mset_map mset_sort)
    ultimately have "map_of (sort_key fst (map (map_prod id (canon ffmt)) us)) = map_of (map (map_prod id (canon ffmt)) us)"
      by (intro map_of_inject_set [THEN iffD2]) auto
    then show ?thesis by (simp add: map_of_map_val)
  qed
  have "sort_key fst (map (map_prod id (canon ffmt)) kvs) = sort_key fst (map (map_prod id (canon ffmt)) kws)"
    using assms(1) by simp
  then have "map_option (canon ffmt) (map_of kvs k) = map_option (canon ffmt) (map_of kws k)"
    using members [OF assms(2)] members [OF assms(3)] by simp
  with assms(4,5) show ?thesis by simp
qed



end
