(* ===== verification/Redis_Safety.thy ===== *)
theory Redis_Safety
  imports Redis_Dump Canonical_Reading
begin

text \<open>
  What the Redis primitives may do to a target: only the approved empty target or a target the same migration owns is flushed or written.
\<close>

section \<open>Commands that change the server\<close>

text \<open>\<open>traces S m\<close>: every event \<open>m\<close> adds to the trace satisfies \<open>S\<close>.\<close>

definition traces :: "(redis_event \<Rightarrow> bool) \<Rightarrow> ('s redis_host, 'a) state \<Rightarrow> bool" where
  "traces S m \<longleftrightarrow> (\<forall>h. \<exists>evs. rx_trace (snd (run_state m h)) = rx_trace h @ evs \<and> list_all S evs)"

named_theorems trace_intros "rules for the events of computations"

lemma tracesD: "traces S m \<Longrightarrow> run_state m h = (x, h') \<Longrightarrow> \<exists>evs. rx_trace h' = rx_trace h @ evs \<and> list_all S evs"
  unfolding traces_def by (metis snd_conv)

lemma traces_asks: "asks m \<Longrightarrow> traces S m"
  unfolding asks_def traces_def host_local_def by simp

lemmas traces_questions [trace_intros] = asks_return [THEN traces_asks] asks_ok [THEN traces_asks] asks_err [THEN traces_asks] asks_lift [THEN traces_asks]
  asks_ask [THEN traces_asks] asks_get [THEN traces_asks] asks_answered [THEN traces_asks] asks_client [THEN traces_asks]
  asks_acl [THEN traces_asks] asks_inspect [THEN traces_asks]

lemma traces_bind [trace_intros]:
  assumes "traces S m" and "\<And>x. traces S (k x)"
  shows "traces S (State_Monad.bind m k)"
  unfolding traces_def
proof
  fix h
  obtain x g where m: "run_state m h = (x, g)" by fastforce
  obtain evs where "rx_trace g = rx_trace h @ evs" "list_all S evs" using tracesD [OF assms(1) m] by blast
  moreover obtain evs' where "rx_trace (snd (run_state (k x) g)) = rx_trace g @ evs'" "list_all S evs'"
    using assms(2) [of x] by (auto simp: traces_def)
  ultimately show "\<exists>evs. rx_trace (snd (run_state (State_Monad.bind m k) h)) = rx_trace h @ evs \<and> list_all S evs"
    using m by (intro exI [of _ "evs @ evs'"]) simp
qed

lemma traces_tryE [trace_intros]: "traces S m \<Longrightarrow> (\<And>x. traces S (k x)) \<Longrightarrow> traces S (tryE m k)"
  unfolding tryE_def by (intro traces_bind) (auto split: sum.split intro: traces_asks asks_return)

lemma traces_guardE [trace_intros]: "(ok \<Longrightarrow> traces S k) \<Longrightarrow> traces S (guardE ok err k)"
  by (simp add: guardE_def traces_asks asks_err)

lemma traces_if [trace_intros]: "(c \<Longrightarrow> traces S m) \<Longrightarrow> (\<not> c \<Longrightarrow> traces S n) \<Longrightarrow> traces S (if c then m else n)"
  by simp

lemma traces_case_option [trace_intros]:
  "(x = None \<Longrightarrow> traces S m) \<Longrightarrow> (\<And>a. x = Some a \<Longrightarrow> traces S (k a)) \<Longrightarrow> traces S (case x of None \<Rightarrow> m | Some a \<Rightarrow> k a)"
  by (cases x) auto

lemma traces_case_sum [trace_intros]:
  "(\<And>a. x = Inl a \<Longrightarrow> traces S (m a)) \<Longrightarrow> (\<And>a. x = Inr a \<Longrightarrow> traces S (k a)) \<Longrightarrow> traces S (case x of Inl a \<Rightarrow> m a | Inr a \<Rightarrow> k a)"
  by (cases x) auto

lemma traces_case_prod [trace_intros]: "(\<And>x y. p = (x, y) \<Longrightarrow> traces S (m x y)) \<Longrightarrow> traces S (case p of (x, y) \<Rightarrow> m x y)"
  by (cases p) auto

lemma traces_forE [trace_intros]: "(\<And>x. x \<in> set xs \<Longrightarrow> traces S (f x)) \<Longrightarrow> traces S (forE xs f)"
  by (induction xs) (auto intro!: trace_intros)

lemma traces_event: "S ev \<Longrightarrow> traces S (trace_event ev)"
  by (auto simp: traces_def trace_event_def)

lemma traces_modify: "(\<And>h. rx_trace (f h) = rx_trace h) \<Longrightarrow> traces S (modify f)"
  by (simp add: traces_def)

lemma traces_system_call: "(\<And>h. rx_trace (f h) = rx_trace h) \<Longrightarrow> traces S (system_call f)"
  by (auto simp: traces_def system_call_def split: list.split)

lemma traces_or_else [trace_intros]: "traces S m \<Longrightarrow> traces S (or_else err m)"
  unfolding or_else_def by (intro trace_intros)

lemma traces_now [trace_intros]: "traces S now_milli"
  by (simp add: traces_def now_milli_def)

lemma traces_sha [trace_intros]: "traces S (fileSHA256 e path)"
  unfolding fileSHA256_def by (intro trace_intros traces_system_call) auto

lemma traces_marker [trace_intros]: "traces S (loadRedisMarker e bindingID)"
  unfolding loadRedisMarker_def by (auto intro!: trace_intros traces_system_call split: option.split)

lemma traces_save [trace_intros]: "traces S (saveRedisMarker e bindingID marker)"
  unfolding saveRedisMarker_def by (intro trace_intros traces_system_call) auto

lemma traces_input_path [trace_intros]: "traces S (redisArchiveInputPath e inputs)"
  unfolding redisArchiveInputPath_def redis_input_def resolve_scope_def by (intro trace_intros)

lemma traces_flush:
  assumes "\<And>db. db \<in> set (rdb_database_indexes b) \<Longrightarrow> S (Flushed db)"
  shows "traces S (flushRedisDatabases e b)"
  unfolding flushRedisDatabases_def flush_database_def
  by (intro trace_intros traces_event assms)

section \<open>Reset\<close>

text \<open>The databases a reset may flush: those of a target binding that permits it, when the inspection of this run found the approved empty
  target, or a marker shows that the same migration has reset the same instance before.\<close>

definition reset_permitted :: "'s redis_env \<Rightarrow> TaskEnvelope \<Rightarrow> jobj \<Rightarrow> 's redis_host \<Rightarrow> int \<Rightarrow> bool" where
  "reset_permitted e task inputs h db \<longleftrightarrow> (\<exists>bindingID b expected.
     resolveRedisBinding e task inputs = Inr (bindingID, b) \<and> rdb_mode b = ''target'' \<and> rdb_reset_allowed b \<and> db \<in> set (rdb_database_indexes b)
     \<and> stringInput inputs ''expected_empty_target_digest'' = Inr expected
     \<and> ((\<exists>i g. run_state (inspectRedis e bindingID b) h = (Inr i, g) \<and> ri_empty i \<and> ri_empty_digest i = expected)
        \<or> (\<exists>marker. map_of (rx_markers h) (redisMarkerPath e bindingID) = Some (Some marker)
             \<and> rm_migration_id marker = t_migration_id task \<and> rm_binding_id marker = bindingID
             \<and> rm_instance_identity marker = redisInstanceIdentity (re_crypto e) b \<and> rm_initial_empty_digest marker = expected)))"

lemma loaded_marker:
  assumes "run_state (loadRedisMarker e bindingID) h = (Inr marker, h')"
  shows "map_of (rx_markers h) (redisMarkerPath e bindingID) = Some (Some marker)" and "rm_schema_version marker = resetMarkerSchema"
proof -
  from assms obtain g where call: "run_state (system_call id) h = (Inr (), g)"
    and rest: "run_state (case map_of (rx_markers g) (redisMarkerPath e bindingID) of
       None \<Rightarrow> errE SystemCall
     | Some None \<Rightarrow> errE (RedisError ''target Redis ownership marker is invalid'')
     | Some (Some marker) \<Rightarrow>
         guardE (rm_schema_version marker = resetMarkerSchema) (RedisError ''target Redis ownership marker is invalid'') (okE marker)) g = (Inr marker, h')"
    by (auto simp: loadRedisMarker_def run_tryE_Inr)
  have same: "rx_markers g = rx_markers h" using call by (auto simp: run_system_call_Inr)
  show "map_of (rx_markers h) (redisMarkerPath e bindingID) = Some (Some marker)" "rm_schema_version marker = resetMarkerSchema"
    using rest unfolding same by (auto simp: run_inv split: option.splits)
qed

text \<open>Following an event back through the code: everything before it succeeded and was silent.\<close>

abbreviation silent :: "('s redis_host, 'a) state \<Rightarrow> bool" where
  "silent m \<equiv> traces (\<lambda>_. False) m"

definition still :: "('s redis_host \<Rightarrow> 'o) \<Rightarrow> ('s redis_host, 'a) state \<Rightarrow> bool" where
  "still obs m \<longleftrightarrow> (\<forall>h. obs (snd (run_state m h)) = obs h)"

definition eventful :: "('s redis_host \<Rightarrow> 'o) \<Rightarrow> ('s redis_host, 'a) state \<Rightarrow> 's redis_host \<Rightarrow> 'a \<Rightarrow> 's redis_host \<Rightarrow> bool" where
  "eventful obs m h r h' \<longleftrightarrow> run_state m h = (r, h') \<and> obs h' \<noteq> obs h"

named_theorems event_inv "inversion of runs with an event"

lemma stillD: "still obs m \<Longrightarrow> run_state m h = (x, h') \<Longrightarrow> obs h' = obs h"
  unfolding still_def by (metis snd_conv)

lemma still_trace: "silent m \<Longrightarrow> still rx_trace m"
  unfolding still_def traces_def by (metis append_Nil2 list.pred_inject(2) neq_Nil_conv)

lemma silentD: "silent m \<Longrightarrow> run_state m h = (x, h') \<Longrightarrow> rx_trace h' = rx_trace h"
  using stillD [OF still_trace] .

lemma still_markers: "asks m \<Longrightarrow> still rx_markers m"
  by (simp add: still_def asks_def host_local_def)

lemma eventful_bind [event_inv]:
  assumes "still obs m"
  shows "eventful obs (State_Monad.bind m k) h r h' \<longleftrightarrow> (\<exists>x g. run_state m h = (x, g) \<and> eventful obs (k x) g r h')"
proof -
  obtain x g where m: "run_state m h = (x, g)" by fastforce
  with stillD [OF assms] have "obs g = obs h" by blast
  with m show ?thesis by (simp add: eventful_def)
qed

lemma eventful_tryE [event_inv]:
  assumes "still obs m"
  shows "eventful obs (tryE m k) h r h' \<longleftrightarrow> (\<exists>x g. run_state m h = (Inr x, g) \<and> eventful obs (k x) g r h')"
proof -
  obtain y g where "run_state m h = (y, g)" by fastforce
  then show ?thesis
    unfolding tryE_def eventful_bind [OF assms] by (cases y) (simp_all add: eventful_def)
qed

lemma eventful_guardE [event_inv]: "eventful obs (guardE ok err k) h r h' \<longleftrightarrow> ok \<and> eventful obs k h r h'"
  by (auto simp: eventful_def guardE_def)

lemma eventful_plain [event_inv]: "\<not> eventful obs (okE x) h r h'" "\<not> eventful obs (errE x) h r h'"
  by (simp_all add: eventful_def)

lemma silent_input: "silent (redis_input r)"
  unfolding redis_input_def by (intro trace_intros)

lemma silent_input': "silent (or_else err (redis_input r))"
  by (intro trace_intros silent_input)

lemmas silent_steps = traces_questions traces_marker traces_input_path traces_now silent_input silent_input'
  traces_or_else [OF traces_marker]

lemmas still_steps = silent_steps [THEN still_trace]

definition of_binding :: "redisBinding \<Rightarrow> redis_event \<Rightarrow> bool" where
  "of_binding b ev = (case ev of Flushed db \<Rightarrow> db \<in> set (rdb_database_indexes b) | Restored db key \<Rightarrow> db \<in> set (rdb_database_indexes b) | Reported _ _ _ \<Rightarrow> True)"

definition changes :: "redis_event \<Rightarrow> int \<Rightarrow> bool" where
  "changes ev db = (case ev of Flushed d \<Rightarrow> d = db | Restored d key \<Rightarrow> d = db | Reported _ _ _ \<Rightarrow> False)"

lemma reset_marker_owned:
  assumes "run_state (loadRedisMarker e bindingID) g = (loaded, g')" and "owned_by_run task bindingID identity expected loaded"
  obtains marker where "map_of (rx_markers g) (redisMarkerPath e bindingID) = Some (Some marker)" and "rm_migration_id marker = t_migration_id task"
    and "rm_binding_id marker = bindingID" and "rm_instance_identity marker = identity" and "rm_initial_empty_digest marker = expected"
proof (cases loaded)
  case (Inr marker)
  from loaded_marker(1) [OF assms(1) [unfolded Inr]] assms(2) show thesis
    by (intro that [of marker]) (simp_all add: Inr owned_by_run_def)
qed (use assms in \<open>simp add: owned_by_run_def\<close>)

lemma asks_markers: "asks m \<Longrightarrow> run_state m h = (x, g) \<Longrightarrow> rx_markers g = rx_markers h"
  using asksD [of m h x g] by (simp add: host_local_def)

lemma redis_input_Inr: "run_state (redis_input r) h = (Inr x, g) \<longleftrightarrow> r = Inr x \<and> g = h"
  by (auto simp: redis_input_def run_lift_Inr result_inv)

lemma reset_permitted_run:
  assumes run: "run_state (redisReset e task inputs) h = (r, h')" and new: "rx_trace h' = rx_trace h @ evs" and ev: "ev \<in> set evs" "changes ev db"
  shows "reset_permitted e task inputs h db"
proof -
  from new ev have "rx_trace h' \<noteq> rx_trace h" by auto
  with run have "eventful rx_trace (redisReset e task inputs) h r h'" by (simp add: eventful_def)
  then obtain bindingID b expected i g loaded g' where
    resolve: "resolveRedisBinding e task inputs = Inr (bindingID, b)" and target: "rdb_mode b = ''target''" "rdb_reset_allowed b"
    and expected: "stringInput inputs ''expected_empty_target_digest'' = Inr expected"
    and inspect: "run_state (inspectRedis e bindingID b) h = (Inr i, g)" and load: "run_state (loadRedisMarker e bindingID) g = (loaded, g')"
    and permitted: "ri_empty i \<and> ri_empty_digest i = expected \<or> owned_by_run task bindingID (redisInstanceIdentity (re_crypto e) b) expected loaded"
    and rest: "eventful rx_trace (reset_target e task bindingID b expected (owned_by_run task bindingID (redisInstanceIdentity (re_crypto e) b) expected loaded) loaded) g' r h'"
    by (auto simp: redisReset_def event_inv still_steps run_inv redis_input_Inr Let_def)
  have "traces (of_binding b) (reset_target e task bindingID b expected owned loaded)" for owned
    unfolding reset_target_def Let_def by (intro trace_intros traces_flush) (simp add: of_binding_def)
  then have "list_all (of_binding b) evs'" if "rx_trace h' = rx_trace g' @ evs'" for evs'
    using tracesD rest that unfolding eventful_def by fastforce
  moreover have "rx_trace g' = rx_trace h"
    using silentD [OF traces_questions(10) inspect] silentD [OF traces_marker load] by simp
  ultimately have "db \<in> set (rdb_database_indexes b)"
    using new ev by (auto simp: list_all_iff of_binding_def changes_def split: redis_event.splits)
  with resolve target expected show ?thesis
    unfolding reset_permitted_def
    using permitted inspect reset_marker_owned [OF load] asks_markers [OF asks_inspect inspect] by metis
qed

section \<open>Restore\<close>

lemma traces_read_records [trace_intros]:
  assumes "\<And>r. kr_database r \<in> set (rdb_database_indexes b) \<Longrightarrow> traces S (visitor r)"
  shows "traces S (read_records b visitor a s)"
  using assms
proof (induction b visitor a s rule: read_records.induct)
  case (1 b visitor a s)
  have db: "kr_database r \<in> set (rdb_database_indexes b)" if "read_record b a rest = Inr (r, a', rest')" for rest r a' rest'
    using that by (auto simp: read_record_def result_inv Let_def split: prod.splits)
  show ?case
    by (subst read_records.simps)
      (auto intro!: trace_intros 1 intro: db split: list.split sum.split prod.split)
qed

lemma traces_read_archive [trace_intros]:
  assumes "\<And>r. kr_database r \<in> set (rdb_database_indexes b) \<Longrightarrow> traces S (visitor r)"
  shows "traces S (read_archive e path b acl visitor)"
  unfolding read_archive_def readRedisArchive_def
  by (auto intro!: trace_intros assms split: option.split)

lemma traces_report: "S (Reported phase completed totalBytes) \<Longrightarrow> traces S (progress_report phase completed totalBytes)"
  unfolding progress_report_def
  by (intro traces_bind traces_event) (auto simp: traces_def split: list.split)

lemma traces_restore_record:
  assumes "S (Restored (kr_database r) (kr_key r))" and "\<And>phase n total_count. S (Reported phase n total_count)"
  shows "traces S (restore_record e recordCount r)"
  unfolding restore_record_def Let_def
  by (intro trace_intros traces_event traces_modify traces_report assms) simp_all

lemma traces_foldE [trace_intros]: "(\<And>x a. traces S (f x a)) \<Longrightarrow> traces S (foldE f xs acc)"
  by (induction xs arbitrary: acc) (auto intro!: trace_intros)

lemma traces_verify_record [trace_intros]: "traces S (verify_record e now r)"
  unfolding verify_record_def by (intro trace_intros traces_modify) simp

lemma traces_verify_keyspace [trace_intros]: "traces S (verify_keyspace e db fuel cursor verified)"
proof (induction fuel arbitrary: cursor verified)
  case (Suc fuel)
  have "traces S (expected_key db key n)" for key n
    unfolding expected_key_def by (intro trace_intros traces_modify) simp
  with Suc show ?case by (auto intro!: trace_intros)
qed (auto intro: trace_intros)

lemma traces_verify_target [trace_intros]: "traces S (verifyRedisArchiveTarget e b path trailer)"
  unfolding verifyRedisArchiveTarget_def verify_database_def expected_left_def Let_def
  by (auto intro!: trace_intros traces_modify split: prod.split)

lemma traces_restore_checked: "traces (of_binding b) (restore_checked e bindingID b marker path digest bytes acl trailer)"
  unfolding restore_checked_def empty_for_restore_def
  by (intro trace_intros traces_modify traces_flush traces_report traces_restore_record) (simp_all add: of_binding_def)

lemma silent_ttl_archive: "silent (read_archive e path b acl (ttl_guard cutoff))"
  by (intro trace_intros) (simp add: ttl_guard_def, intro trace_intros)

text \<open>The databases a restore may flush or write: those of a target binding whose marker on disk belongs to this migration and this instance.\<close>

definition restore_permitted :: "'s redis_env \<Rightarrow> TaskEnvelope \<Rightarrow> jobj \<Rightarrow> 's redis_host \<Rightarrow> int \<Rightarrow> bool" where
  "restore_permitted e task inputs h db \<longleftrightarrow> (\<exists>bindingID b marker.
     resolveRedisBinding e task inputs = Inr (bindingID, b) \<and> rdb_mode b = ''target'' \<and> rdb_reset_allowed b \<and> db \<in> set (rdb_database_indexes b)
     \<and> map_of (rx_markers h) (redisMarkerPath e bindingID) = Some (Some marker) \<and> marker_proves e task bindingID b marker)"

lemma restore_permitted_run:
  assumes run: "run_state (redisRestore e task inputs) h = (r, h')" and new: "rx_trace h' = rx_trace h @ evs" and ev: "ev \<in> set evs" "changes ev db"
  shows "restore_permitted e task inputs h db"
proof -
  from new ev have "rx_trace h' \<noteq> rx_trace h" by auto
  with run have "eventful rx_trace (redisRestore e task inputs) h r h'" by (simp add: eventful_def)
  then obtain bindingID b marker g path digest bytes g1 acl g2 now g3 trailer g4 where
    resolve: "resolveRedisBinding e task inputs = Inr (bindingID, b)" and target: "rdb_mode b = ''target''" "rdb_reset_allowed b"
    and load: "run_state (loadRedisMarker e bindingID) h = (Inr marker, g)" and proves: "marker_proves e task bindingID b marker"
    and input: "run_state (redisArchiveInputPath e inputs) g = (Inr (path, digest, bytes), g1)"
    and aclDigest: "run_state (redisACLPolicyDigest e b) g1 = (Inr acl, g2)" and clock: "run_state now_milli g2 = (now, g3)"
    and read: "run_state (read_archive e path b acl (ttl_guard (now + redisMinimumRestoreTTL))) g3 = (Inr trailer, g4)"
    and rest: "eventful rx_trace (restore_checked e bindingID b marker path digest bytes acl trailer) g4 r h'"
    by (auto simp: redisRestore_def event_inv still_steps silent_ttl_archive [THEN still_trace] run_inv redis_input_Inr)
  have "rx_trace g4 = rx_trace h"
    using silentD [OF traces_marker load] silentD [OF traces_input_path input] silentD [OF traces_questions(9) aclDigest]
      silentD [OF traces_now clock] silentD [OF silent_ttl_archive read] by simp
  then have "list_all (of_binding b) evs"
    using tracesD [OF traces_restore_checked] rest new unfolding eventful_def by fastforce
  then have "db \<in> set (rdb_database_indexes b)"
    using ev by (auto simp: list_all_iff of_binding_def changes_def split: redis_event.splits)
  with resolve target proves loaded_marker(1) [OF load] show ?thesis
    unfolding restore_permitted_def by blast
qed

section \<open>Where markers come from\<close>

text \<open>The targets a run of \<open>redisReset\<close> finds in their approved state: migration, binding, digest.\<close>

definition approvals :: "'s redis_env \<Rightarrow> TaskEnvelope \<Rightarrow> jobj \<Rightarrow> 's redis_host \<Rightarrow> (string \<times> string \<times> string) set" where
  "approvals e task inputs h = {(t_migration_id task, bindingID, expected) | bindingID b expected i g.
     resolveRedisBinding e task inputs = Inr (bindingID, b) \<and> stringInput inputs ''expected_empty_target_digest'' = Inr expected
     \<and> run_state (inspectRedis e bindingID b) h = (Inr i, g) \<and> ri_empty i \<and> ri_empty_digest i = expected}"

definition markers_approved :: "'s redis_host \<Rightarrow> (string \<times> string \<times> string) set \<Rightarrow> bool" where
  "markers_approved h A \<longleftrightarrow> (\<forall>path marker. map_of (rx_markers h) path = Some (Some marker) \<longrightarrow>
     (rm_migration_id marker, rm_binding_id marker, rm_initial_empty_digest marker) \<in> A)"

text \<open>A computation that leaves the markers alone, and one that adds at most markers satisfying \<open>P\<close>.\<close>

definition marks :: "(redisResetMarker \<Rightarrow> bool) \<Rightarrow> ('s redis_host, 'a) state \<Rightarrow> bool" where
  "marks P m \<longleftrightarrow> (\<forall>h path marker. map_of (rx_markers (snd (run_state m h))) path = Some (Some marker) \<longrightarrow>
     map_of (rx_markers h) path = Some (Some marker) \<or> P marker)"

named_theorems mark_intros "rules for the markers computations write"

lemma marks_asks: "asks m \<Longrightarrow> marks P m"
  unfolding asks_def marks_def host_local_def by simp

lemmas marks_questions [mark_intros] = asks_return [THEN marks_asks] asks_ok [THEN marks_asks] asks_err [THEN marks_asks] asks_lift [THEN marks_asks]
  asks_ask [THEN marks_asks] asks_get [THEN marks_asks] asks_client [THEN marks_asks] asks_inspect [THEN marks_asks]

lemma marks_bind [mark_intros]: "marks P m \<Longrightarrow> (\<And>x. marks P (k x)) \<Longrightarrow> marks P (State_Monad.bind m k)"
  unfolding marks_def by (simp split: prod.split) (metis snd_conv)

lemma marks_tryE [mark_intros]: "marks P m \<Longrightarrow> (\<And>x. marks P (k x)) \<Longrightarrow> marks P (tryE m k)"
  unfolding tryE_def by (intro marks_bind) (auto split: sum.split intro: marks_questions)

lemma marks_guardE [mark_intros]: "(ok \<Longrightarrow> marks P k) \<Longrightarrow> marks P (guardE ok err k)"
  by (simp add: guardE_def marks_questions)

lemma marks_forE [mark_intros]: "(\<And>x. marks P (f x)) \<Longrightarrow> marks P (forE xs f)"
  by (induction xs) (auto intro!: mark_intros)

lemma marks_modify: "(\<And>h path marker. map_of (rx_markers (f h)) path = Some (Some marker) \<Longrightarrow> map_of (rx_markers h) path = Some (Some marker) \<or> P marker)
    \<Longrightarrow> marks P (modify f)"
  by (simp add: marks_def)

lemma marks_system_call: "(\<And>h path marker. map_of (rx_markers (f h)) path = Some (Some marker) \<Longrightarrow> map_of (rx_markers h) path = Some (Some marker) \<or> P marker)
    \<Longrightarrow> marks P (system_call f)"
  by (fastforce simp: marks_def system_call_def split: list.split)

lemma marks_reset_target:
  assumes "\<And>now. P (next_marker task bindingID (redisInstanceIdentity (re_crypto e) b) expected owned loaded now)"
  shows "marks P (reset_target e task bindingID b expected owned loaded)"
  unfolding reset_target_def Let_def flushRedisDatabases_def flush_database_def trace_event_def saveRedisMarker_def now_milli_def
  by (intro mark_intros marks_modify marks_system_call) (auto simp: assms marks_def split: if_splits)

lemma still_load: "still rx_markers (loadRedisMarker e bindingID)"
  unfolding still_def loadRedisMarker_def system_call_def
  by (auto simp: run_tryE run_guardE split: option.split list.split)

lemma still_or_else: "still obs m \<Longrightarrow> still obs (or_else err m)"
  by (simp add: still_def or_else_def split: prod.split) (metis snd_conv)

lemmas still_marker_steps = asks_lift [THEN still_markers] asks_inspect [THEN still_markers] still_load
  asks_lift [THEN still_markers, THEN still_or_else]

lemma reset_marks:
  assumes run: "run_state (redisReset e task inputs) h = (r, h')" and approved: "markers_approved h A"
  shows "markers_approved h' (A \<union> approvals e task inputs h)"
proof (cases "rx_markers h' = rx_markers h")
  case True
  with approved show ?thesis by (auto simp: markers_approved_def)
next
  case False
  with run have "eventful rx_markers (redisReset e task inputs) h r h'" by (simp add: eventful_def)
  then obtain bindingID b expected i g loaded g' where
    resolve: "resolveRedisBinding e task inputs = Inr (bindingID, b)"
    and expected: "stringInput inputs ''expected_empty_target_digest'' = Inr expected"
    and inspect: "run_state (inspectRedis e bindingID b) h = (Inr i, g)" and load: "run_state (loadRedisMarker e bindingID) g = (loaded, g')"
    and permitted: "ri_empty i \<and> ri_empty_digest i = expected \<or> owned_by_run task bindingID (redisInstanceIdentity (re_crypto e) b) expected loaded"
    and rest: "run_state (reset_target e task bindingID b expected (owned_by_run task bindingID (redisInstanceIdentity (re_crypto e) b) expected loaded) loaded) g' = (r, h')"
    by (auto simp: redisReset_def event_inv still_marker_steps run_inv redis_input_def result_inv Let_def) (auto simp: eventful_def)
  let ?owned = "owned_by_run task bindingID (redisInstanceIdentity (re_crypto e) b) expected loaded"
  let ?P = "\<lambda>marker. (rm_migration_id marker, rm_binding_id marker, rm_initial_empty_digest marker) = (t_migration_id task, bindingID, expected)"
  have new: "?P (next_marker task bindingID identity expected ?owned loaded now)" for identity now
    by (cases loaded) (simp_all add: next_marker_def owned_by_run_def)
  have same: "rx_markers g' = rx_markers h"
    using stillD [OF still_markers [OF asks_inspect] inspect] stillD [OF still_load load] by simp
  have listed: "(t_migration_id task, bindingID, expected) \<in> A \<union> approvals e task inputs h"
    using permitted
  proof
    assume "ri_empty i \<and> ri_empty_digest i = expected"
    with resolve expected inspect show ?thesis by (auto simp: approvals_def)
  next
    assume owned: ?owned
    obtain marker where "map_of (rx_markers g) (redisMarkerPath e bindingID) = Some (Some marker)" "?P marker"
      using reset_marker_owned [OF load owned] by (metis)
    with approved show ?thesis using stillD [OF still_markers [OF asks_inspect] inspect] unfolding markers_approved_def by fastforce
  qed
  show ?thesis unfolding markers_approved_def
  proof (intro allI impI)
    fix path marker assume "map_of (rx_markers h') path = Some (Some marker)"
    then have "map_of (rx_markers h) path = Some (Some marker) \<or> ?P marker"
      using marks_reset_target [of ?P, OF new] rest same unfolding marks_def by (metis snd_conv)
    with approved listed show "(rm_migration_id marker, rm_binding_id marker, rm_initial_empty_digest marker) \<in> A \<union> approvals e task inputs h"
      unfolding markers_approved_def by fastforce
  qed
qed

section \<open>The life of a target\<close>

text \<open>Between two resets anything may happen to the server, the files and the clock; only \<open>redisReset\<close> writes markers. The second component
  collects the targets that some reset has found in the state its plan approved.\<close>

inductive redis_step :: "'s redis_env \<Rightarrow> 's redis_host \<times> (string \<times> string \<times> string) set \<Rightarrow> 's redis_host \<times> (string \<times> string \<times> string) set \<Rightarrow> bool"
  for e where
  elsewhere: "rx_markers h' = rx_markers h \<Longrightarrow> redis_step e (h, A) (h', A)"
| reset: "run_state (redisReset e task inputs) h = (r, h') \<Longrightarrow> redis_step e (h, A) (h', A \<union> approvals e task inputs h)"

inductive_cases redis_step_cases: "redis_step e s t"

definition unmarked :: "'s redis_host \<times> (string \<times> string \<times> string) set \<Rightarrow> bool" where
  "unmarked s \<longleftrightarrow> rx_markers (fst s) = [] \<and> snd s = {}"

interpretation target: machine unmarked "redis_step e" "\<lambda>(h, A). markers_approved h A" for e
proof
  show "case s of (h, A) \<Rightarrow> markers_approved h A" if "unmarked s" for s :: "'a redis_host \<times> (string \<times> string \<times> string) set"
    using that by (auto simp: unmarked_def markers_approved_def)
  show "case t of (h, A) \<Rightarrow> markers_approved h A" if "case s of (h, A) \<Rightarrow> markers_approved h A" "redis_step e s t"
    for s t :: "'a redis_host \<times> (string \<times> string \<times> string) set"
    using that(2)
  proof cases
    case (elsewhere h' h A)
    with that(1) show ?thesis by (simp add: markers_approved_def)
  next
    case (reset task inputs h r h' A)
    with that(1) show ?thesis by (simp add: reset_marks)
  qed
qed

text \<open>
  \<^bold>\<open>C18\<close>. No database that was not approved is flushed or overwritten. Whatever happened to the server, the files and the clock since the agent was
  set up, when a run of \<open>redisReset\<close> or \<open>redisRestore\<close> sends FLUSHDB or RESTORE to a database, however the run ends, that database belongs to a target
  binding that allows resets, and some reset of the same migration, this one or an earlier one, has found the binding's databases empty with the
  digest its plan approved.
\<close>

theorem redis_target_approved:
  assumes "(redis_step e)\<^sup>*\<^sup>* (h0, {}) (h, A)" and "rx_markers h0 = []"
    and "m = redisReset e task inputs \<or> m = redisRestore e task inputs" and "run_state m h = (r, h')"
    and "rx_trace h' = rx_trace h @ evs" and "ev \<in> set evs" and "changes ev db"
  shows "\<exists>bindingID b digest. resolveRedisBinding e task inputs = Inr (bindingID, b) \<and> rdb_mode b = ''target'' \<and> rdb_reset_allowed b
    \<and> db \<in> set (rdb_database_indexes b) \<and> (t_migration_id task, bindingID, digest) \<in> A \<union> approvals e task inputs h"
proof -
  have approved: "markers_approved h A"
    using target.inv_reachable [of "(h0, {})" e "(h, A)"] assms(1,2) by (simp add: unmarked_def)
  from assms(3) show ?thesis
  proof
    assume "m = redisReset e task inputs"
    from reset_permitted_run [OF assms(4) [unfolded this] assms(5,6,7)] obtain bindingID b expected where
      known: "resolveRedisBinding e task inputs = Inr (bindingID, b)" "rdb_mode b = ''target''" "rdb_reset_allowed b" "db \<in> set (rdb_database_indexes b)"
      and listed: "(t_migration_id task, bindingID, expected) \<in> A \<union> approvals e task inputs h"
      using approved unfolding reset_permitted_def markers_approved_def approvals_def by (elim exE conjE disjE) (blast, fastforce)
    then show ?thesis by blast
  next
    assume "m = redisRestore e task inputs"
    from restore_permitted_run [OF assms(4) [unfolded this] assms(5,6,7)] obtain bindingID b marker where
      known: "resolveRedisBinding e task inputs = Inr (bindingID, b)" "rdb_mode b = ''target''" "rdb_reset_allowed b" "db \<in> set (rdb_database_indexes b)"
      and "map_of (rx_markers h) (redisMarkerPath e bindingID) = Some (Some marker)" "marker_proves e task bindingID b marker"
      unfolding restore_permitted_def by blast
    with approved have "(t_migration_id task, bindingID, rm_initial_empty_digest marker) \<in> A \<union> approvals e task inputs h"
      unfolding markers_approved_def marker_proves_def by fastforce
    with known show ?thesis by blast
  qed
qed

end
