(* ===== verification/Redis_Exact.thy ===== *)
theory Redis_Exact
  imports Redis_Safety
begin

text \<open>
  A restore that reports success has made the target equal to the archive: the running hash determines the records, the manifest digest
  determines the hash, and the last inspection has computed that digest from what the server holds.
\<close>

section \<open>The hash determines the records\<close>

definition digest_bytes :: "redisKeyRecord \<Rightarrow> string" where
  "digest_bytes r = updateRedisRecordDigest [] r"

lemma tally_all: "ar_all (tally rs) = concat (map digest_bytes rs)"
  by (induction rs rule: rev_induct) (simp_all add: tally_snoc add_record_def digest_bytes_def updateRedisRecordDigest_def, simp add: tally_def fresh_reader_def)

lemma big_endian_inj: "big_endian k m = big_endian k n \<Longrightarrow> m < 256 ^ k \<Longrightarrow> n < 256 ^ k \<Longrightarrow> m = n"
  by (drule arg_cong [where f = big_endian_value]) (simp add: big_endian_round_trip)

lemma uint64_inj: "in_int64 i \<Longrightarrow> in_int64 j \<Longrightarrow> uint64 i = uint64 j \<Longrightarrow> i = j"
  by (drule arg_cong [where f = "\<lambda>n. wrap64 (int n)"]) (simp add: uint64_round_trip)

lemma digest_bytes_prefix:
  assumes r: "legal_record b r" and r': "legal_record b r'" and eq: "digest_bytes r @ s = digest_bytes r' @ t"
  shows "r = r' \<and> s = t"
proof -
  have small: "length (kr_key x) < 256 ^ 4" "length (kr_value x) < 256 ^ 4" "nat (kr_database x) < 256 ^ 2" "0 \<le> kr_database x" "in_int64 (kr_expiry x)"
    if "legal_record b x" for x
    using that by (auto simp: legal_record_def maximumRedisKeyBytes_def maximumRedisValueBytes_def)
  note R = small [OF r] and R' = small [OF r']
  from eq have parts: "big_endian 2 (nat (kr_database r)) = big_endian 2 (nat (kr_database r'))" "big_endian 8 (uint64 (kr_expiry r)) = big_endian 8 (uint64 (kr_expiry r'))"
    "big_endian 4 (length (kr_key r)) = big_endian 4 (length (kr_key r'))" "big_endian 4 (length (kr_value r)) = big_endian 4 (length (kr_value r'))"
    and rest: "kr_key r @ kr_value r @ s = kr_key r' @ kr_value r' @ t"
    using R R' by (simp_all add: digest_bytes_def updateRedisRecordDigest_def)
  have "kr_database r = kr_database r'"
    using big_endian_inj [OF parts(1)] R R' by simp
  moreover have "kr_expiry r = kr_expiry r'"
    using big_endian_inj [OF parts(2)] uint64_lt [of "kr_expiry r"] uint64_lt [of "kr_expiry r'"] R R' by (auto intro: uint64_inj)
  moreover have "length (kr_key r) = length (kr_key r')" "length (kr_value r) = length (kr_value r')"
    using big_endian_inj [OF parts(3)] big_endian_inj [OF parts(4)] R R' by simp_all
  ultimately show ?thesis using rest by simp
qed

lemma hash_determines_records:
  assumes "list_all (legal_record b) rs" and "list_all (legal_record b) rs'" and "ar_all (tally rs) = ar_all (tally rs')"
  shows "rs = rs'"
proof -
  have nonempty: "digest_bytes r \<noteq> []" for r
    by (simp add: digest_bytes_def updateRedisRecordDigest_def flip: length_greater_0_conv)
  have "concat (map digest_bytes rs) = concat (map digest_bytes rs') \<Longrightarrow> rs = rs'"
    using assms(1,2)
  proof (induction rs arbitrary: rs')
    case Nil
    then show ?case using nonempty by (cases rs') auto
  next
    case (Cons r rs)
    with nonempty obtain r' rs2 where rs': "rs' = r' # rs2" by (cases rs') auto
    from digest_bytes_prefix [of b r r'] Cons rs' show ?case by fastforce
  qed
  with assms(3) show ?thesis by (simp add: tally_all)
qed

section \<open>The manifest determines the hash\<close>

lemma redis_digest_canon:
  assumes "inj (sha256_hex cr)" and "proper (float_text cr) v" and "proper (float_text cr) w" and "redis_digest cr v = redis_digest cr w"
  shows "canon (float_text cr) v = canon (float_text cr) w"
  using assms canonical_text_inj [OF assms(2,3)] by (simp add: redis_digest_def Digest_def inj_eq)

lemma manifest_determines_hash:
  assumes inj: "inj (sha256_hex cr)" and durable: "rdb_state_mode b \<noteq> ''cache''" "rdb_state_mode b' \<noteq> ''cache''"
    and eq: "redisManifestDigest cr facts b acl s = redisManifestDigest cr facts' b' acl' s'"
  shows "rs_all_digest s = rs_all_digest s'"
proof -
  let ?m = "\<lambda>facts b acl s. [(''schema_version'', JStr ''operations.migration.redis-manifest.v1''), (''engine'', JStr (rf_engine facts)),
        (''version_series'', JStr (rf_series facts)), (''state_mode'', JStr (rdb_state_mode b)),
        (''persistence_mode'', JStr (rf_persistence facts)), (''database_indexes'', json_ints (Some (rdb_database_indexes b))),
        (''acl_policy_digest'', JStr acl), (''record_count'', JInt (rs_key_count s)), (''record_digest'', JStr (rs_all_digest s))]"
  have proper: "proper (float_text cr) (JObj (?m facts b acl s))" for facts and b :: redisBinding and acl s
    by (simp add: json_ints_def list_all_iff)
  have "redis_digest cr (JObj (?m facts b acl s)) = redis_digest cr (JObj (?m facts' b' acl' s'))"
    using eq durable by (simp add: redisManifestDigest_def Let_def)
  from redis_digest_canon [OF inj proper proper this]
  have "canon (float_text cr) (JStr (rs_all_digest s)) = canon (float_text cr) (JStr (rs_all_digest s'))"
    by (rule canon_member [where k = "''record_digest''"]) simp_all
  then show ?thesis by simp
qed

section \<open>What an archive that is read holds\<close>

lemma big_endian_value_lt: "big_endian_value s < 256 ^ length s"
proof (induction s rule: rev_induct)
  case (snoc c s)
  have "big_endian_value s * 256 + of_char c < big_endian_value s * 256 + 256" by simp
  also have "\<dots> = (big_endian_value s + 1) * 256" by simp
  also have "\<dots> \<le> 256 ^ length s * 256" by (rule mult_le_mono1) (use snoc in simp)
  finally have "big_endian_value s * 256 + of_char c < 256 ^ length s * 256" .
  then show ?case by (simp add: big_endian_value_append mult.commute)
qed (simp add: big_endian_value_def)

lemma big_endian_of_value: "big_endian (length s) (big_endian_value s) = s"
proof (induction s rule: rev_induct)
  case (snoc c s)
  then show ?case by (simp add: big_endian_value_append)
qed simp

lemma uint64_wrap: "n < 2 ^ 64 \<Longrightarrow> uint64 (wrap64 (int n)) = n"
  using wrap64_mod [of "int n"] by (simp add: uint64_def)

lemma read_full_Inr [result_inv]: "read_full err n s = Inr (x, rest) \<longleftrightarrow> length x = n \<and> s = x @ rest"
  by (auto simp: read_full_def)

lemma read_record_reads:
  assumes "read_record b a s = Inr (r, a', rest)" and "\<And>x. x \<in> set (rdb_database_indexes b) \<Longrightarrow> 0 \<le> x \<and> x < 2 ^ 16"
  shows "legal_record b r" and "a' = add_record r a" and "s = record_body r @ rest"
proof -
  from assms(1) obtain fixed s1 key s2 "value" where fixed: "length fixed = 22" "s = fixed @ s1"
    and contract: "int (big_endian_value (take 2 fixed)) \<in> set (rdb_database_indexes b)"
      "1 \<le> int (big_endian_value (take 4 (drop 10 fixed)))" "int (big_endian_value (take 4 (drop 10 fixed))) \<le> maximumRedisKeyBytes"
      "1 \<le> wrap64 (int (big_endian_value (take 8 (drop 14 fixed))))" "wrap64 (int (big_endian_value (take 8 (drop 14 fixed)))) \<le> maximumRedisValueBytes"
      "-1 \<le> wrap64 (int (big_endian_value (take 8 (drop 2 fixed))))"
    and key: "length key = big_endian_value (take 4 (drop 10 fixed))" "s1 = key @ s2"
    and val: "length value = nat (wrap64 (int (big_endian_value (take 8 (drop 14 fixed)))))" "s2 = value @ rest"
    and r: "r = \<lparr>kr_database = int (big_endian_value (take 2 fixed)), kr_expiry = wrap64 (int (big_endian_value (take 8 (drop 2 fixed)))), kr_key = key, kr_value = value\<rparr>"
    and a': "a' = add_record r a"
    by (auto simp: read_record_def result_inv Let_def not_less split: prod.splits)
  show "a' = add_record r a" by (rule a')
  show "legal_record b r"
    using contract key(1) val(1) assms(2) [OF contract(1)] unfolding r by (auto simp: legal_record_def wrap64_in_range)
  define h2 h8 h4 hv where parts: "h2 = take 2 fixed" "h8 = take 8 (drop 2 fixed)" "h4 = take 4 (drop 10 fixed)" "hv = take 8 (drop 14 fixed)"
  have lens: "length h2 = 2" "length h8 = 8" "length h4 = 4" "length hv = 8" using fixed(1) by (simp_all add: parts)
  have "fixed = h2 @ h8 @ h4 @ hv"
  proof -
    have "fixed = take 2 fixed @ take 8 (drop 2 fixed) @ take 4 (drop 8 (drop 2 fixed)) @ drop 4 (drop 8 (drop 2 fixed))" by (metis append_take_drop_id)
    moreover have "take 8 (drop 14 fixed) = drop 14 fixed" using fixed(1) by simp
    ultimately show ?thesis by (simp add: parts)
  qed
  moreover have lt: "big_endian_value h8 < 2 ^ 64" "big_endian_value hv < 2 ^ 64" "big_endian_value h4 < 2 ^ 32" "big_endian_value h2 < 2 ^ 16"
    using big_endian_value_lt [of h8] big_endian_value_lt [of hv] big_endian_value_lt [of h4] big_endian_value_lt [of h2] by (simp_all add: lens)
  have "uint64 (wrap64 (int (big_endian_value hv))) = length value"
    using val(1) contract(4,5) unfolding uint64_def parts by (simp add: maximumRedisValueBytes_def mod_pos_pos_trivial)
  then have "big_endian_value hv = length value" using uint64_wrap [OF lt(2)] by simp
  ultimately show "s = record_body r @ rest"
    using fixed(2) key val(2) lens lt big_endian_of_value [of h2] big_endian_of_value [of h8] big_endian_of_value [of h4] big_endian_of_value [of hv]
      uint64_wrap [OF lt(1)]
    unfolding record_body_def r by (simp flip: parts)
qed

lemma read_records_reads:
  assumes "run_state (read_records b visitor a s) h = (Inr (a', rest), h')" and "\<And>x. x \<in> set (rdb_database_indexes b) \<Longrightarrow> 0 \<le> x \<and> x < 2 ^ 16"
  shows "\<exists>rs. list_all (legal_record b) rs \<and> a' = fold add_record rs a \<and> s = concat (map record_bytes rs) @ char_of (255 :: nat) # rest"
  using assms
proof (induction b visitor a s arbitrary: h rule: read_records.induct)
  case (1 b visitor a s)
  show ?case
  proof (cases s)
    case Nil
    with "1.prems"(1) show ?thesis by (subst (asm) read_records.simps) (simp add: run_inv)
  next
    case (Cons tag later)
    show ?thesis
    proof (cases "tag = char_of (255 :: nat)")
      case True
      with "1.prems"(1) Cons show ?thesis by (subst (asm) read_records.simps) (auto simp: run_inv intro: exI [of _ "[]"])
    next
      case False
      with "1.prems"(1) Cons obtain r a1 later' g where tag: "tag = char_of (1 :: nat)" and cache: "rdb_state_mode b \<noteq> ''cache''"
        and one: "read_record b a later = Inr (r, a1, later')" and rest: "run_state (read_records b visitor a1 later') g = (Inr (a', rest), h')"
        by (subst (asm) read_records.simps) (auto simp: run_inv split: sum.splits prod.splits)
      note r = read_record_reads [OF one "1.prems"(2)]
      obtain rs where rs: "list_all (legal_record b) rs" "a' = fold add_record rs a1" "later' = concat (map record_bytes rs) @ char_of (255 :: nat) # rest"
        using "1.IH" [OF Cons False one refl refl rest "1.prems"(2)] by blast
      with r tag Cons show ?thesis by (intro exI [of _ "r # rs"]) (simp add: record_bytes_def [of r])
    qed
  qed
qed

text \<open>An archive holds a list of records: they follow its header, and the tag of the trailer follows them.\<close>

definition holds_records :: "string \<Rightarrow> redisKeyRecord list \<Rightarrow> bool" where
  "holds_records content rs \<longleftrightarrow> (\<exists>rest. content = archive_prefix rs @ char_of (255 :: nat) # rest)"

lemma archive_holds:
  assumes "run_state (readRedisArchive cr tc file b acl visitor) h = (Inr t, h')" and "validRedisDatabaseIndexes (rdb_database_indexes b)"
  obtains content rs where "file = Some content" and "holds_records content rs" and "list_all (legal_record b) rs"
    and "at_all_digest t = redisDigestString cr (ar_all (tally rs))"
    and "at_manifest_digest t = redisManifestDigest cr (trailer_facts t) b acl (reader_summary t (tally rs))"
proof -
  from assms(1) obtain content a s g where found: "file = Some content" and magic: "take (length redisArchiveMagic) content = redisArchiveMagic"
    and records: "run_state (read_records b visitor fresh_reader (drop (length redisArchiveMagic) content)) h = (Inr (a, s), g)"
    and trailer: "read_trailer cr tc b acl a s = Inr t"
    by (auto simp: readRedisArchive_def run_inv split: option.splits)
  obtain rs where rs: "list_all (legal_record b) rs" "a = tally rs" "drop (length redisArchiveMagic) content = concat (map record_bytes rs) @ char_of (255 :: nat) # s"
    using read_records_reads [OF records valid_indexes(2) [OF assms(2)]] by (auto simp: tally_def)
  have "content = archive_prefix rs @ char_of (255 :: nat) # s"
    using magic rs(3) append_take_drop_id [of "length redisArchiveMagic" content] by (simp add: archive_prefix_def)
  moreover have "trailer_agrees cr b acl a t" "redisManifestDigest cr (trailer_facts t) b acl (reader_summary t a) = at_manifest_digest t"
    using trailer by (auto simp: read_trailer_def result_inv Let_def split: option.splits prod.splits)
  ultimately show thesis using found rs by (intro that [of content rs]) (auto simp: holds_records_def trailer_agrees_def)
qed

section \<open>The server\<close>

text \<open>One full iteration of SCAN: the keys of all its batches.\<close>

primrec scan_all :: "'s redis_api \<Rightarrow> int \<Rightarrow> nat \<Rightarrow> nat \<Rightarrow> 's \<Rightarrow> (string list \<times> 's) option" where
  "scan_all api db 0 cursor s = None"
| "scan_all api db (Suc fuel) cursor s =
     (case run_state (ra_scan api db cursor) s of
        (None, _) \<Rightarrow> None
      | (Some (batch, next_cursor), s') \<Rightarrow>
          if next_cursor = 0 then Some (batch, s')
          else map_option (\<lambda>(keys, s''). (batch @ keys, s'')) (scan_all api db fuel next_cursor s'))"

text \<open>The documented behaviour of the commands that read, on a server nobody else writes to and on which no key expires meanwhile: \<open>view s db key\<close> is the
  serialized value and the absolute expiration of a key. A command may fail; TYPE, DUMP and PEXPIRETIME otherwise answer what is there,
  and a full iteration of SCAN returns every key, some perhaps more than once.\<close>

definition serves :: "'s redis_api \<Rightarrow> ('s \<Rightarrow> int \<Rightarrow> string \<Rightarrow> (string \<times> int64) option) \<Rightarrow> bool" where
  "serves api view \<longleftrightarrow>
     (\<forall>s db key. view (snd (run_state (ra_type api db key) s)) = view s
        \<and> (view s db key \<noteq> None \<longrightarrow> fst (run_state (ra_type api db key) s) \<notin> {NilAnswer, Answer ''none''}))
   \<and> (\<forall>s db key. view (snd (run_state (ra_dump api db key) s)) = view s
        \<and> fst (run_state (ra_dump api db key) s) \<in> {FailedAnswer, case view s db key of None \<Rightarrow> NilAnswer | Some (v, x) \<Rightarrow> Answer v})
   \<and> (\<forall>s db key. view (snd (run_state (ra_expiretime api db key) s)) = view s
        \<and> fst (run_state (ra_expiretime api db key) s) \<in> {FailedAnswer, Answer (case view s db key of None \<Rightarrow> -2 | Some (v, x) \<Rightarrow> x)})
   \<and> (\<forall>s db key v x. view s db key = Some (v, x) \<longrightarrow> in_int64 x \<and> -1 \<le> x)
   \<and> (\<forall>s db. view (snd (run_state (ra_ping api db) s)) = view s \<and> view (snd (run_state (ra_info api db) s)) = view s
        \<and> view (snd (run_state (ra_role api db) s)) = view s \<and> view (snd (run_state (ra_modules api db) s)) = view s
        \<and> view (snd (run_state (ra_acl_list api db) s)) = view s \<and> view (snd (run_state (ra_dbsize api db) s)) = view s)
   \<and> (\<forall>s db key. view (snd (run_state (ra_config api db key) s)) = view s)
   \<and> (\<forall>s db cursor. view (snd (run_state (ra_scan api db cursor) s)) = view s)
   \<and> (\<forall>s db fuel keys s'. scan_all api db fuel 0 s = Some (keys, s') \<longrightarrow> (\<forall>key. view s db key \<noteq> None \<longrightarrow> key \<in> set keys))"

text \<open>Reading leaves the view alone.\<close>

definition reads :: "('s \<Rightarrow> int \<Rightarrow> string \<Rightarrow> (string \<times> int64) option) \<Rightarrow> ('s redis_host, 'a) state \<Rightarrow> bool" where
  "reads view m \<longleftrightarrow> (\<forall>h. view (rx_server (snd (run_state m h))) = view (rx_server h))"

named_theorems read_intros "computations that leave the view alone"

lemma readsD: "reads view m \<Longrightarrow> run_state m h = (x, h') \<Longrightarrow> view (rx_server h') = view (rx_server h)"
  unfolding reads_def by (metis snd_conv)

lemma reads_plain [read_intros]: "reads view (return x)" "reads view (okE y)" "reads view (errE err)" "reads view (lift_result r)"
  by (simp_all add: reads_def)

lemma reads_ask: "(\<And>s. view (snd (run_state m s)) = view s) \<Longrightarrow> reads view (ask m)"
  by (simp add: reads_def ask_def split: prod.split) (metis snd_conv)

lemma reads_bind [read_intros]: "reads view m \<Longrightarrow> (\<And>x. reads view (k x)) \<Longrightarrow> reads view (State_Monad.bind m k)"
  by (simp add: reads_def split: prod.split) (metis snd_conv)

lemma reads_tryE [read_intros]: "reads view m \<Longrightarrow> (\<And>x. reads view (k x)) \<Longrightarrow> reads view (tryE m k)"
  unfolding tryE_def by (intro reads_bind) (auto split: sum.split intro: reads_plain)

lemma reads_guardE [read_intros]: "reads view k \<Longrightarrow> reads view (guardE ok err k)"
  by (simp add: guardE_def reads_plain)

lemma reads_answered: "(\<And>s. view (snd (run_state m s)) = view s) \<Longrightarrow> reads view (answered err m)"
  unfolding answered_def by (intro read_intros reads_ask)

lemma reads_if [read_intros]: "reads view m \<Longrightarrow> reads view n \<Longrightarrow> reads view (if c then m else n)"
  by simp

lemma reads_case_option [read_intros]: "reads view m \<Longrightarrow> (\<And>a. reads view (k a)) \<Longrightarrow> reads view (case x of None \<Rightarrow> m | Some a \<Rightarrow> k a)"
  by (cases x) auto

lemma reads_case_prod [read_intros]: "(\<And>x y. reads view (m x y)) \<Longrightarrow> reads view (case p of (x, y) \<Rightarrow> m x y)"
  by (cases p) auto

lemma reads_case_answer [read_intros]:
  "reads view m \<Longrightarrow> reads view n \<Longrightarrow> (\<And>a. reads view (k a)) \<Longrightarrow> reads view (case x of NilAnswer \<Rightarrow> m | FailedAnswer \<Rightarrow> n | Answer a \<Rightarrow> k a)"
  by (cases x) auto

lemma reads_client [read_intros]: "reads view (redis_client e b)"
  unfolding redis_client_def by (intro read_intros)

lemma reads_server:
  assumes "serves (re_api e) view"
  shows "reads view (inspectRedisServer e b)" and "reads view (redisACLPolicyDigest e b)"
proof -
  note S = assms [unfolded serves_def]
  show "reads view (inspectRedisServer e b)"
    unfolding inspectRedisServer_def server_facts_def server_modules_def server_persistence_def Let_def
    by (intro read_intros reads_ask reads_answered) (use S in auto)
  show "reads view (redisACLPolicyDigest e b)"
    unfolding redisACLPolicyDigest_def by (intro read_intros reads_answered) (use S in auto)
qed

section \<open>What an inspection sees\<close>

text \<open>A record says what the server holds.\<close>

definition shown :: "(int \<Rightarrow> string \<Rightarrow> (string \<times> int64) option) \<Rightarrow> redisKeyRecord \<Rightarrow> bool" where
  "shown V r \<longleftrightarrow> V (kr_database r) (kr_key r) = Some (kr_value r, kr_expiry r)"

lemma run_ask: "run_state (ask m) h = (x, g) \<longleftrightarrow> x = fst (run_state m (rx_server h)) \<and> g = h\<lparr>rx_server := snd (run_state m (rx_server h))\<rparr>"
  by (auto simp: ask_def split: prod.splits)

lemma key_type_run:
  assumes "run_state (key_type e db key) h = (Inr present, g)"
  shows "rx_server g = snd (run_state (ra_type (re_api e) db key) (rx_server h))"
    and "\<not> present \<Longrightarrow> fst (run_state (ra_type (re_api e) db key) (rx_server h)) \<in> {NilAnswer, Answer ''none''}"
  using assms by (auto simp: key_type_def ask_def run_inv split: prod.splits redis_answer.splits if_splits)

lemma key_dump_run:
  assumes "run_state (key_dump e db key) h = (Inr dumped, g)"
  shows "rx_server g = snd (run_state (ra_dump (re_api e) db key) (rx_server h))"
    and "fst (run_state (ra_dump (re_api e) db key) (rx_server h)) = (case dumped of None \<Rightarrow> NilAnswer | Some v \<Rightarrow> Answer v)"
  using assms by (auto simp: key_dump_def ask_def run_inv split: prod.splits redis_answer.splits)

lemma key_expiry_run:
  assumes "run_state (key_expiry e db key) h = (Inr expires, g)"
    and "fst (run_state (ra_expiretime (re_api e) db key) (rx_server h)) \<in> {FailedAnswer, Answer x}"
  shows "expires = (if wrap64 x = -2 then None else Some (wrap64 x))"
  using assms by (auto simp: key_expiry_def ask_def run_inv Let_def split: prod.splits redis_answer.splits if_splits)

lemma scan_record_view:
  assumes "serves (re_api e) view" and "run_state (scan_record e db key) h = (Inr found, h')"
  shows "view (rx_server h') = view (rx_server h)"
    and "found = None \<longleftrightarrow> view (rx_server h) db key = None" and "found = Some r \<Longrightarrow> shown (view (rx_server h)) r \<and> kr_database r = db \<and> kr_key r = key"
proof -
  note S = assms(1) [unfolded serves_def]
  have "reads view (scan_record e db key)"
    unfolding scan_record_def key_type_def key_dump_def key_expiry_def Let_def by (intro read_intros reads_ask) (use S in auto)
  from readsD [OF this assms(2)] show "view (rx_server h') = view (rx_server h)" .
  let ?s1 = "snd (run_state (ra_type (re_api e) db key) (rx_server h))"
  let ?s2 = "snd (run_state (ra_dump (re_api e) db key) ?s1)"
  have same: "view ?s1 = view (rx_server h)" "view ?s2 = view (rx_server h)" using S by auto
  have dump: "fst (run_state (ra_dump (re_api e) db key) ?s1) \<in> {FailedAnswer, case view (rx_server h) db key of None \<Rightarrow> NilAnswer | Some (v, x) \<Rightarrow> Answer v}"
    using S same by metis
  have expiry: "fst (run_state (ra_expiretime (re_api e) db key) ?s2) \<in> {FailedAnswer, Answer (case view (rx_server h) db key of None \<Rightarrow> -2 | Some (v, x) \<Rightarrow> x)}"
    using S same by metis
  have type: "view (rx_server h) db key \<noteq> None \<Longrightarrow> fst (run_state (ra_type (re_api e) db key) (rx_server h)) \<notin> {NilAnswer, Answer ''none''}"
    by (rule S [THEN conjunct1, THEN spec, THEN spec, THEN spec, THEN conjunct2, THEN mp])
  have range: "view (rx_server h) db key = Some (v, x) \<Longrightarrow> in_int64 x \<and> -1 \<le> x" for v x using S by blast
  have both: "found = (case view (rx_server h) db key of None \<Rightarrow> None | Some (v, x) \<Rightarrow> Some \<lparr>kr_database = db, kr_expiry = x, kr_key = key, kr_value = v\<rparr>)"
  proof -
    from assms(2) obtain present g where t: "run_state (key_type e db key) h = (Inr present, g)"
      and t': "run_state (if \<not> present then okE None else tryE (key_dump e db key) (\<lambda>dumped. case dumped of None \<Rightarrow> okE None
          | Some value \<Rightarrow> tryE (key_expiry e db key) (\<lambda>expires. case expires of None \<Rightarrow> okE None
              | Some expiry \<Rightarrow> okE (Some \<lparr>kr_database = db, kr_expiry = expiry, kr_key = key, kr_value = value\<rparr>)))) g = (Inr found, h')"
      unfolding scan_record_def run_guardE_Inr run_tryE_Inr by blast
    show ?thesis
    proof (cases present)
      case False
      with t' have "found = None" by (simp add: run_inv)
      moreover have "view (rx_server h) db key = None" using type key_type_run(2) [OF t False] by blast
      ultimately show ?thesis by simp
    next
      case True
      with t' obtain dumped g2 where d: "run_state (key_dump e db key) g = (Inr dumped, g2)"
        and d': "run_state (case dumped of None \<Rightarrow> okE None
          | Some value \<Rightarrow> tryE (key_expiry e db key) (\<lambda>expires. case expires of None \<Rightarrow> okE None
              | Some expiry \<Rightarrow> okE (Some \<lparr>kr_database = db, kr_expiry = expiry, kr_key = key, kr_value = value\<rparr>))) g2 = (Inr found, h')"
        by (auto simp: run_tryE_Inr)
      have server: "rx_server g = ?s1" "rx_server g2 = ?s2" using key_type_run(1) [OF t] key_dump_run(1) [OF d] by simp_all
      have D: "fst (run_state (ra_dump (re_api e) db key) ?s1) = (case dumped of None \<Rightarrow> NilAnswer | Some v \<Rightarrow> Answer v)"
        using key_dump_run(2) [OF d] server by simp
      show ?thesis
      proof (cases "view (rx_server h) db key")
        case None
        with dump D have "dumped = None" by (cases dumped) auto
        with d' None show ?thesis by (simp add: run_inv)
      next
        case (Some vx)
        obtain v x where vx: "vx = (v, x)" by (cases vx)
        with Some dump D have dumped: "dumped = Some v" by (cases dumped) auto
        obtain expires g3 where x: "run_state (key_expiry e db key) g2 = (Inr expires, g3)"
          and x': "run_state (case expires of None \<Rightarrow> okE None
              | Some expiry \<Rightarrow> okE (Some \<lparr>kr_database = db, kr_expiry = expiry, kr_key = key, kr_value = v\<rparr>)) g3 = (Inr found :: redis_err + redisKeyRecord option, h')"
          using d' unfolding dumped option.case run_tryE_Inr by blast
        have "wrap64 x = x" "x \<noteq> -2" using range Some vx by auto
        then have "expires = Some x" using key_expiry_run [OF x, of x] expiry server Some vx by simp
        with x' Some vx show ?thesis by (simp add: run_inv)
      qed
    qed
  qed
  then show "found = None \<longleftrightarrow> view (rx_server h) db key = None" by (simp split: option.splits prod.splits)
  show "shown (view (rx_server h)) r \<and> kr_database r = db \<and> kr_key r = key" if "found = Some r"
    using both that by (auto simp: shown_def split: option.splits prod.splits)
qed

lemma scan_keys_all:
  assumes "run_state (scan_keys e db counted fuel cursor keys n) h = (Inr (found, m), h')"
  shows "\<exists>more. scan_all (re_api e) db fuel cursor (rx_server h) = Some (more, rx_server h') \<and> found = keys @ more"
  using assms
proof (induction fuel arbitrary: cursor keys n h)
  case (Suc fuel)
  let ?run = "run_state (ra_scan (re_api e) db cursor) (rx_server h)"
  from Suc.prems obtain batch cursor' indexed where one: "fst ?run = Some (batch, cursor')"
    and rest: "run_state (if cursor' = 0 then okE (keys @ batch, indexed) else scan_keys e db counted fuel cursor' (keys @ batch) indexed)
      (h\<lparr>rx_server := snd ?run\<rparr>) = (Inr (found, m), h')"
    by (auto simp: run_inv Let_def split: prod.splits)
  show ?case
  proof (cases "cursor' = 0")
    case True
    with one rest show ?thesis by (cases ?run) (auto simp: run_inv)
  next
    case False
    with Suc.IH [of cursor' "keys @ batch" indexed "h\<lparr>rx_server := snd ?run\<rparr>"] one rest show ?thesis by (cases ?run) auto
  qed
qed (simp add: run_inv)

lemma scan_key_view:
  assumes serves: "serves (re_api e) view" and run: "run_state (scan_key e no_visitor db key st) h = (Inr st', h')"
    and vis: "visited rs st" "list_all (legal_record b) rs" and db: "db \<in> set (rdb_database_indexes b)" "0 \<le> db" "db < 2 ^ 16"
  obtains new where "visited (rs @ new) st'" and "list_all (legal_record b) (rs @ new)" and "view (rx_server h') = view (rx_server h)"
    and "set new = {r. kr_database r = db \<and> kr_key r = key \<and> shown (view (rx_server h)) r}"
proof -
  from run obtain found g where scan: "run_state (scan_record e db key) h = (Inr found, g)"
    and cont: "run_state (case found of None \<Rightarrow> okE st | Some r \<Rightarrow> guardE (\<not> rs_database_bytes (ss_summary (note_record r st)) > maximumRedisBytes)
        (RedisError ''Redis migration payload exceeds the V1 byte limit'') (tryE (no_visitor r) (\<lambda>_. okE (note_record r st)))) g = (Inr st', h')"
    unfolding scan_key_def Let_def run_tryE_Inr by blast
  note V = scan_record_view [OF serves scan]
  show thesis
  proof (cases found)
    case None
    with cont V vis show thesis by (intro that [of "[]"]) (auto simp: run_inv shown_def)
  next
    case (Some r)
    with cont have "st' = note_record r st" "h' = g" by (auto simp: run_inv no_visitor_def)
    moreover have "legal_record b r"
      using scan_record_found [OF scan [unfolded Some]] db by (simp add: legal_record_def)
    moreover have "{r. kr_database r = db \<and> kr_key r = key \<and> shown (view (rx_server h)) r} = {r}"
      using V(3) [OF Some] by (auto simp: shown_def)
    ultimately show thesis using V(1) vis by (intro that [of "[r]"]) (auto simp: visited_snoc)
  qed
qed

text \<open>The state between two keys or two databases: the records so far are those the server shows of what is done.\<close>

definition seen :: "redisBinding \<Rightarrow> (int \<Rightarrow> string \<Rightarrow> (string \<times> int64) option) \<Rightarrow> (int \<Rightarrow> string \<Rightarrow> bool) \<Rightarrow> scan_state \<Rightarrow> bool" where
  "seen b V covered st \<longleftrightarrow> (\<exists>rs. visited rs st \<and> list_all (legal_record b) rs
     \<and> set rs = {r. covered (kr_database r) (kr_key r) \<and> shown V r})"

lemma seen_cong:
  assumes "seen b V covered st" and "\<And>db key. V db key \<noteq> None \<Longrightarrow> covered db key = covered' db key"
  shows "seen b V covered' st"
proof -
  have "{r. covered (kr_database r) (kr_key r) \<and> shown V r} = {r. covered' (kr_database r) (kr_key r) \<and> shown V r}"
    using assms(2) by (auto simp: shown_def)
  with assms(1) show ?thesis by (simp add: seen_def)
qed

lemma scan_keys_view:
  assumes serves: "serves (re_api e) view" and run: "run_state (foldE (scan_key e no_visitor db) keys st) h = (Inr st', h')"
    and start: "seen b (view (rx_server h)) covered st" and db: "db \<in> set (rdb_database_indexes b)" "0 \<le> db" "db < 2 ^ 16"
  shows "view (rx_server h') = view (rx_server h) \<and> seen b (view (rx_server h)) (\<lambda>d key. covered d key \<or> d = db \<and> key \<in> set keys) st'"
proof (rule foldE_invariant [OF run, where I = "\<lambda>ys st g. view (rx_server g) = view (rx_server h)
    \<and> seen b (view (rx_server h)) (\<lambda>d key. covered d key \<or> d = db \<and> key \<in> set ys) st"])
  show "view (rx_server h) = view (rx_server h) \<and> seen b (view (rx_server h)) (\<lambda>d key. covered d key \<or> d = db \<and> key \<in> set []) st"
    using start by simp
  fix ys key zs st1 g st2 g2
  assume I: "view (rx_server g) = view (rx_server h) \<and> seen b (view (rx_server h)) (\<lambda>d key. covered d key \<or> d = db \<and> key \<in> set ys) st1"
    and one: "run_state (scan_key e no_visitor db key st1) g = (Inr st2, g2)"
  then obtain rs where rs: "visited rs st1" "list_all (legal_record b) rs"
    "set rs = {r. (covered (kr_database r) (kr_key r) \<or> kr_database r = db \<and> kr_key r \<in> set ys) \<and> shown (view (rx_server h)) r}"
    by (auto simp: seen_def)
  obtain new where "visited (rs @ new) st2" "list_all (legal_record b) (rs @ new)" "view (rx_server g2) = view (rx_server g)"
    "set new = {r. kr_database r = db \<and> kr_key r = key \<and> shown (view (rx_server g)) r}"
    by (rule scan_key_view [OF serves one rs(1,2) db])
  with rs(3) I show "view (rx_server g2) = view (rx_server h)
      \<and> seen b (view (rx_server h)) (\<lambda>d k. covered d k \<or> d = db \<and> k \<in> set (ys @ [key])) st2"
    unfolding seen_def by (intro conjI exI [of _ "rs @ new"]) auto
qed

lemma scan_database_view:
  assumes serves: "serves (re_api e) view" and run: "run_state (scan_database e b no_visitor db st) h = (Inr st', h')"
    and durable: "rdb_state_mode b \<noteq> ''cache''" and start: "seen b (view (rx_server h)) covered st"
    and db: "db \<in> set (rdb_database_indexes b)" "0 \<le> db" "db < 2 ^ 16"
  shows "view (rx_server h') = view (rx_server h) \<and> seen b (view (rx_server h)) (\<lambda>d key. covered d key \<or> d = db) st'"
proof -
  from run durable obtain keys indexed g g' where client: "run_state (redis_client e b) h = (Inr (), g)"
    and scan: "run_state (scan_keys e db (rs_key_count (ss_summary st)) (re_fuel e) 0 [] (ss_key_index st)) g = (Inr (keys, indexed), g')"
    and each: "run_state (foldE (scan_key e no_visitor db) (canonicalRedisKeys keys) (st\<lparr>ss_key_index := indexed\<rparr>)) g' = (Inr st', h')"
    by (auto simp: scan_database_def run_tryE_Inr)
  have "reads view (scan_keys e db counted fuel cursor found n)" for counted fuel cursor found n
  proof (induction fuel arbitrary: cursor found n)
    case (Suc fuel)
    show ?case unfolding scan_keys.simps Let_def
      by (intro read_intros reads_answered Suc) (use serves in \<open>auto simp: serves_def\<close>)
  qed (simp add: reads_plain)
  from readsD [OF this scan] readsD [OF reads_client client] have same: "view (rx_server g') = view (rx_server h)" "view (rx_server g) = view (rx_server h)" by simp_all
  have "scan_all (re_api e) db (re_fuel e) 0 (rx_server g) = Some (keys, rx_server g')"
    using scan_keys_all [OF scan] by auto
  then have complete: "view (rx_server h) db key \<noteq> None \<Longrightarrow> key \<in> set keys" for key
    using serves same unfolding serves_def by metis
  have start': "seen b (view (rx_server g')) covered (st\<lparr>ss_key_index := indexed\<rparr>)"
    using start same by (simp add: seen_def)
  have "set (canonicalRedisKeys keys) = set keys" by (simp add: canonicalRedisKeys_def)
  with scan_keys_view [OF serves each start' db] same complete show ?thesis
    by (auto elim!: seen_cong)
qed

lemma inspection_sees:
  assumes serves: "serves (re_api e) view" and run: "run_state (scanRedisRecords e b no_visitor) h = (Inr summary, h')"
    and durable: "rdb_state_mode b \<noteq> ''cache''" and indexes: "validRedisDatabaseIndexes (rdb_database_indexes b)"
  obtains rs where "list_all (legal_record b) rs" and "set rs = {r. kr_database r \<in> set (rdb_database_indexes b) \<and> shown (view (rx_server h)) r}"
    and "rs_all_digest summary = redisDigestString (re_crypto e) (ar_all (tally rs))" and "view (rx_server h') = view (rx_server h)"
proof -
  let ?st = "\<lparr>ss_all = [], ss_persistent = [], ss_summary = zero_scan_summary, ss_key_index = 0\<rparr>"
  from run obtain st where each: "run_state (foldE (scan_database e b no_visitor) (rdb_database_indexes b) ?st) h = (Inr st, h')"
    and summary: "rs_all_digest summary = redisDigestString (re_crypto e) (ss_all st)"
    by (auto simp: scanRedisRecords_def run_inv)
  have "view (rx_server h') = view (rx_server h) \<and> seen b (view (rx_server h)) (\<lambda>d key. d \<in> set (rdb_database_indexes b)) st"
  proof (rule foldE_invariant [OF each, where I = "\<lambda>dbs st g. view (rx_server g) = view (rx_server h) \<and> seen b (view (rx_server h)) (\<lambda>d key. d \<in> set dbs) st"])
    show "view (rx_server h) = view (rx_server h) \<and> seen b (view (rx_server h)) (\<lambda>d key. d \<in> set []) ?st"
      by (auto simp: seen_def visited_def tally_def fresh_reader_def zero_scan_summary_def intro!: exI [of _ "[]"])
    fix dbs db later st1 g st2 g2
    assume split: "rdb_database_indexes b = dbs @ db # later" and I: "view (rx_server g) = view (rx_server h) \<and> seen b (view (rx_server h)) (\<lambda>d key. d \<in> set dbs) st1"
      and one: "run_state (scan_database e b no_visitor db st1) g = (Inr st2, g2)"
    have db: "db \<in> set (rdb_database_indexes b)" "0 \<le> db" "db < 2 ^ 16" using valid_indexes(2) [OF indexes, of db] split by auto
    show "view (rx_server g2) = view (rx_server h) \<and> seen b (view (rx_server h)) (\<lambda>d key. d \<in> set (dbs @ [db])) st2"
      using scan_database_view [OF serves one durable _ db, of "\<lambda>d key. d \<in> set dbs"] I by (auto elim!: seen_cong)
  qed
  then obtain rs where "visited rs st" "list_all (legal_record b) rs" "set rs = {r. kr_database r \<in> set (rdb_database_indexes b) \<and> shown (view (rx_server h)) r}"
    "view (rx_server h') = view (rx_server h)" by (auto simp: seen_def)
  then show thesis using summary by (intro that [of rs]) (auto simp: visited_def)
qed

section \<open>A successful restore\<close>

lemma resolved_binding:
  assumes "resolveRedisBinding e task inputs = Inr (bindingID, b)"
  shows "validRedisDatabaseIndexes (rdb_database_indexes b)" and "rdb_state_mode b \<in> {''cache'', ''durable''}"
  using assms by (auto simp: resolveRedisBinding_def parseRedisBinding_def result_inv split: sum.splits option.splits prod.splits)

lemma still_files: "asks m \<Longrightarrow> still rx_files m"
  by (simp add: still_def asks_def host_local_def)

lemma load_files: "still rx_files (loadRedisMarker e bindingID)"
  unfolding still_def loadRedisMarker_def system_call_def
  by (auto simp: run_tryE run_guardE split: option.split list.split)

lemma input_path_file:
  assumes "run_state (redisArchiveInputPath e inputs) h = (Inr (path, digest, bytes), g)"
  obtains content where "map_of (rx_files h) path = Some content" and "stringInput inputs ''dump_artifact_digest'' = Inr digest"
    and "digest = ''sha256:'' @ sha256_hex (re_crypto e) content" and "rx_files g = rx_files h"
proof -
  from assms obtain g' where sha: "run_state (fileSHA256 e path) g' = (Inr (digest, bytes), g)" and files: "rx_files g' = rx_files h"
    and digest: "stringInput inputs ''dump_artifact_digest'' = Inr digest"
    by (auto simp: redisArchiveInputPath_def run_inv redis_input_Inr resolve_scope_def)
  from sha obtain g1 where call: "run_state (system_call id) g' = (Inr (), g1)"
    and rest: "run_state (case map_of (rx_files g1) path of None \<Rightarrow> errE SystemCall
      | Some content \<Rightarrow> okE (''sha256:'' @ sha256_hex (re_crypto e) content, int (length content))) g1 = (Inr (digest, bytes), g)"
    by (auto simp: fileSHA256_def run_tryE_Inr)
  have "rx_files g1 = rx_files h" using call files by (auto simp: run_system_call_Inr)
  with rest digest show thesis by (auto simp: run_inv split: option.splits intro: that)
qed

lemma inspect_manifest:
  assumes serves: "serves (re_api e) view" and run: "run_state (inspectRedis e bindingID b) h = (Inr i, h')"
    and durable: "rdb_state_mode b \<noteq> ''cache''" and indexes: "validRedisDatabaseIndexes (rdb_database_indexes b)"
  obtains rs facts acl summary where "list_all (legal_record b) rs"
    and "set rs = {r. kr_database r \<in> set (rdb_database_indexes b) \<and> shown (view (rx_server h')) r}"
    and "rs_all_digest summary = redisDigestString (re_crypto e) (ar_all (tally rs))"
    and "ri_manifest_digest i = redisManifestDigest (re_crypto e) facts b acl summary"
proof -
  from run obtain facts acl summary g where scan: "run_state (scanRedisRecords e b no_visitor) g = (Inr summary, h')"
    and manifest: "ri_manifest_digest i = redisManifestDigest (re_crypto e) facts b acl summary"
    by (auto simp: inspectRedis_def run_inv)
  from inspection_sees [OF serves scan durable indexes] obtain rs where "list_all (legal_record b) rs"
    "set rs = {r. kr_database r \<in> set (rdb_database_indexes b) \<and> shown (view (rx_server g)) r}"
    "rs_all_digest summary = redisDigestString (re_crypto e) (ar_all (tally rs))" "view (rx_server h') = view (rx_server g)" by metis
  then show thesis using manifest by (intro that [of rs summary facts acl]) simp_all
qed

lemma report_server: "run_state (progress_report phase n k) h = (x, g) \<Longrightarrow> rx_server g = rx_server h"
  by (auto simp: progress_report_def trace_event_def split: list.splits)

lemma restore_checked_last:
  assumes "run_state (restore_checked e bindingID b marker path digest bytes acl trailer) h = (Inr out, h')"
  obtains i g g' where "run_state (inspectRedis e bindingID b) g = (Inr i, g')" and "ri_manifest_digest i = at_manifest_digest trailer"
    and "rx_server h' = rx_server g'"
proof -
  from assms obtain i g g' where "run_state (inspectRedis e bindingID b) g = (Inr i, g')" "ri_manifest_digest i = at_manifest_digest trailer"
    "run_state (progress_report ''redis_restore_verified'' bytes (Some bytes)) g' = (Inr (), h')"
    by (auto simp: restore_checked_def run_inv)
  then show thesis by (intro that [of g i g']) (simp_all add: report_server)
qed

text \<open>
  \<^bold>\<open>C19\<close>. A restore that reports success has made the target equal to the archive. With a hash function without collisions and a server that answers
  reads as documented, after a successful \<open>redisRestore\<close> of durable state the staged archive has the digest the plan named, and the databases of the binding hold
  exactly its records: the same keys with the same serialized values and the same absolute expirations, and no other key.
\<close>

theorem redis_restore_exact:
  assumes "serves (re_api e) view" and "inj (sha256_hex (re_crypto e))"
    and "run_state (redisRestore e task inputs) h = (Inr out, h')"
    and "resolveRedisBinding e task inputs = Inr (bindingID, b)" and "rdb_state_mode b = ''durable''"
  shows "\<exists>path content rs. map_of (rx_files h) path = Some content
    \<and> stringInput inputs ''dump_artifact_digest'' = Inr (''sha256:'' @ sha256_hex (re_crypto e) content) \<and> holds_records content rs
    \<and> (\<forall>db \<in> set (rdb_database_indexes b). \<forall>key v x.
         view (rx_server h') db key = Some (v, x) \<longleftrightarrow> \<lparr>kr_database = db, kr_expiry = x, kr_key = key, kr_value = v\<rparr> \<in> set rs)"
proof -
  note valid = resolved_binding(1) [OF assms(4)]
  from assms(3,4) obtain marker g path digest bytes g1 acl g2 now g3 trailer g4 where
    load: "run_state (loadRedisMarker e bindingID) h = (Inr marker, g)"
    and input: "run_state (redisArchiveInputPath e inputs) g = (Inr (path, digest, bytes), g1)"
    and aclDigest: "run_state (redisACLPolicyDigest e b) g1 = (Inr acl, g2)" and clock: "run_state now_milli g2 = (now, g3)"
    and read: "run_state (read_archive e path b acl (ttl_guard (now + redisMinimumRestoreTTL))) g3 = (Inr trailer, g4)"
    and rest: "run_state (restore_checked e bindingID b marker path digest bytes acl trailer) g4 = (Inr out, h')"
    by (auto simp: redisRestore_def run_inv redis_input_Inr now_milli_def)
  obtain content where content: "map_of (rx_files h) path = Some content" "stringInput inputs ''dump_artifact_digest'' = Inr (''sha256:'' @ sha256_hex (re_crypto e) content)"
    and files: "rx_files g1 = rx_files h"
    using input_path_file [OF input] stillD [OF load_files load] by metis
  have "rx_files g3 = rx_files h"
    using files stillD [OF still_files [OF asks_acl] aclDigest] clock by (auto simp: now_milli_def)
  with read content have "run_state (readRedisArchive (re_crypto e) (re_codec e) (Some content) b acl (ttl_guard (now + redisMinimumRestoreTTL))) g3 = (Inr trailer, g4)"
    by (simp add: read_archive_def)
  then obtain rs where rs: "holds_records content rs" "list_all (legal_record b) rs" "at_all_digest trailer = redisDigestString (re_crypto e) (ar_all (tally rs))"
    and manifest: "at_manifest_digest trailer = redisManifestDigest (re_crypto e) (trailer_facts trailer) b acl (reader_summary trailer (tally rs))"
    by (rule archive_holds [OF _ valid]) auto
  obtain i k k' where inspect: "run_state (inspectRedis e bindingID b) k = (Inr i, k')" and same: "ri_manifest_digest i = at_manifest_digest trailer"
    and server: "rx_server h' = rx_server k'" by (rule restore_checked_last [OF rest])
  have durable: "rdb_state_mode b \<noteq> ''cache''" using assms(5) by simp
  obtain rs' facts acl' summary where rs': "list_all (legal_record b) rs'" "set rs' = {r. kr_database r \<in> set (rdb_database_indexes b) \<and> shown (view (rx_server k')) r}"
    "rs_all_digest summary = redisDigestString (re_crypto e) (ar_all (tally rs'))" and seen: "ri_manifest_digest i = redisManifestDigest (re_crypto e) facts b acl' summary"
    by (rule inspect_manifest [OF assms(1) inspect durable valid])
  have "rs_all_digest summary = rs_all_digest (reader_summary trailer (tally rs))"
    by (rule manifest_determines_hash [OF assms(2) durable durable]) (use same seen manifest in simp)
  then have "ar_all (tally rs') = ar_all (tally rs)"
    using rs(3) rs'(3) injD [OF assms(2)] by (auto simp: reader_summary_def redisDigestString_def)
  then have "rs' = rs" by (rule hash_determines_records [OF rs'(1) rs(2)])
  with rs'(2) server have "view (rx_server h') db key = Some (v, x) \<longleftrightarrow> \<lparr>kr_database = db, kr_expiry = x, kr_key = key, kr_value = v\<rparr> \<in> set rs"
    if "db \<in> set (rdb_database_indexes b)" for db key v x
    using that by (auto simp: shown_def)
  with content rs(1) show ?thesis by blast
qed

end
