(* ===== verification/Redis_Samples.thy ===== *)
theory Redis_Samples
  imports Redis_Exact
begin

text \<open>A server that keeps its keys in a list, and concrete runs of a dump, a reset and a restore on it.\<close>

section \<open>The server\<close>

type_synonym listed = "((int \<times> string) \<times> (string \<times> int64)) list"

definition listed_view :: "listed \<Rightarrow> int \<Rightarrow> string \<Rightarrow> (string \<times> int64) option" where
  "listed_view s db key = (case map_of s (db, key) of Some (v, x) \<Rightarrow> if in_int64 x \<and> -1 \<le> x then Some (v, x) else None | None \<Rightarrow> None)"

definition sample_info :: string where
  "sample_info = ''redis_version:7.2.4'' @ [CHR 0x0A] @ ''redis_mode:standalone''"

definition listed_api :: "listed redis_api" where
  "listed_api = \<lparr>
     ra_ping = (\<lambda>db. return True),
     ra_info = (\<lambda>db. return (Some sample_info)),
     ra_role = (\<lambda>db. return (Some (RArray [RText ''master'']))),
     ra_modules = (\<lambda>db. return (Some (RArray []))),
     ra_config = (\<lambda>db key. return (Some [(''save'', ''60''), (''appendonly'', ''no'')])),
     ra_acl_list = (\<lambda>db. return (Some [''user app on''])),
     ra_dbsize = (\<lambda>db. State (\<lambda>s. (Some (int (length (filter (\<lambda>entry. fst (fst entry) = db) s))), s))),
     ra_scan = (\<lambda>db cursor. State (\<lambda>s. (Some (map (snd \<circ> fst) (filter (\<lambda>entry. fst (fst entry) = db) s), 0), s))),
     ra_type = (\<lambda>db key. State (\<lambda>s. (if listed_view s db key = None then Answer ''none'' else Answer ''string'', s))),
     ra_dump = (\<lambda>db key. State (\<lambda>s. (case listed_view s db key of None \<Rightarrow> NilAnswer | Some (v, x) \<Rightarrow> Answer v, s))),
     ra_expiretime = (\<lambda>db key. State (\<lambda>s. (Answer (case listed_view s db key of None \<Rightarrow> -2 | Some (v, x) \<Rightarrow> x), s))),
     ra_flushdb = (\<lambda>db. State (\<lambda>s. (True, filter (\<lambda>entry. fst (fst entry) \<noteq> db) s))),
     ra_restore = (\<lambda>db key ttl v absolute. State (\<lambda>s. (True, s @ [((db, key), (v, if absolute then ttl else -1))]))),
     ra_exists = (\<lambda>db key. State (\<lambda>s. (Some (if listed_view s db key = None then 0 else 1), s)))\<rparr>"

lemma listed_serves: "serves listed_api listed_view"
proof -
  have keys: "key \<in> set keys" if "scan_all listed_api db fuel 0 s = Some (keys, s')" "listed_view s db key \<noteq> None" for s s' db fuel keys key
  proof -
    note run = that(1) and found = that(2)
    obtain n where "fuel = Suc n" using run by (cases fuel) auto
    with run have "keys = map (snd \<circ> fst) (filter (\<lambda>entry. fst (fst entry) = db) s)"
      by (auto simp: listed_api_def)
    moreover from found obtain vx where "map_of s (db, key) = Some vx" by (auto simp: listed_view_def split: option.splits)
    then have "((db, key), vx) \<in> set s" by (rule map_of_SomeD)
    ultimately show ?thesis by (cases vx) (auto simp: image_iff)
  qed
  have "listed_view s db key = Some (v, x) \<longrightarrow> in_int64 x \<and> -1 \<le> x" for s db key v x
    by (auto simp: listed_view_def split: option.splits if_splits)
  with keys show ?thesis
    unfolding serves_def by (auto simp: listed_api_def)
qed

section \<open>Bindings, tasks and hosts\<close>

definition target_binding :: redisBinding where
  "target_binding = \<lparr>rdb_schema_version = redisBindingSchema, rdb_engine = ''redis'', rdb_mode = ''target'', rdb_host = ''localhost'', rdb_port = 6379,
     rdb_username = ''app'', rdb_password = [], rdb_tls_mode = ''disable'', rdb_tls_root_cert_pem = [], rdb_state_mode = ''durable'',
     rdb_database_indexes = [0], rdb_acl_map = [\<lparr>am_source = ''app'', am_target = ''app''\<rparr>], rdb_reset_allowed = True\<rparr>"

definition source_binding :: redisBinding where
  "source_binding = target_binding\<lparr>rdb_mode := ''source'', rdb_reset_allowed := False\<rparr>"

definition sample_contract :: redisDatabaseContract where
  "sample_contract = \<lparr>rc_schema_version = redisDatabaseContractSchema, rc_source_engine = ''redis'', rc_target_engine = ''redis'',
     rc_state_mode = ''durable'', rc_database_indexes = [0], rc_acl_map = [\<lparr>am_source = ''app'', am_target = ''app''\<rparr>]\<rparr>"

definition sample_id :: string where
  "sample_id = ''00000000-0000-1000-8000-000000000000''"

definition hex_digest :: string where
  "hex_digest = replicate 64 (CHR ''a'')"

definition redis_task :: TaskEnvelope where
  "redis_task = \<lparr>t_schema_version = [], t_key_id = [], t_algorithm = [], t_audience = [], t_agent_id = [], t_endpoint_id = [], t_migration_id = ''m1'',
     t_run_id = None, t_run_step_id = None, t_attempt_id = ''a1'', t_attempt_token = [], t_fencing_token = 1, t_plan_digest = None, t_subject_digest = [],
     t_primitive = \<lparr>p_id = [], p_version = []\<rparr>, t_resource_scope = None, t_inputs = None, t_issued_at = Unset, t_expires_at = Unset, t_nonce = [], t_signature = []\<rparr>"

definition redis_inputs :: "string \<Rightarrow> jobj" where
  "redis_inputs manifest = [(''database_binding_id'', JStr sample_id), (''database_contract'', JNull),
     (''expected_empty_target_digest'', JStr (''sha256:'' @ hex_digest)), (''staging_root_handle'', JStr ''staging''),
     (''dump_staging_relative_handle'', JStr ''d''), (''dump_artifact_handle'', JStr redisArchiveHandle),
     (''dump_artifact_digest'', JStr (''sha256:'' @ hex_digest)), (''expected_manifest_digest'', JStr manifest)]"

definition redis_env_with :: "crypto \<Rightarrow> trailer_codec \<Rightarrow> redisBinding \<Rightarrow> listed redis_env" where
  "redis_env_with cr tc b = \<lparr>re_crypto = cr, re_codec = tc, re_api = listed_api, re_bindings = Some (\<lambda>_ _. Some (Some (b, False))),
     re_contract = (\<lambda>_. Some sample_contract), re_loopback = (\<lambda>_. False), re_root_ok = (\<lambda>_. True), re_resolver = [(''staging'', ''/s'')],
     re_state_dir = ''/state'', re_temporary = ''1'', re_statfs = (\<lambda>_. None), re_tree = (\<lambda>_ _. None), re_map_order = id, re_fuel = 1\<rparr>"

definition redis_host_with :: "listed \<Rightarrow> (string, string) gomap \<Rightarrow> (string, redisResetMarker option) gomap \<Rightarrow> listed redis_host" where
  "redis_host_with s files markers = \<lparr>rx_server = s, rx_clock = (\<lambda>_. 0), rx_reads = 0, rx_faults = [], rx_refusals = [], rx_lstat = (\<lambda>_. StatOk FDir),
     rx_files = files, rx_markers = markers, rx_written = 0, rx_restored = 0, rx_expected = [], rx_trace = []\<rparr>"

lemma sample_resolve:
  assumes "b \<in> {target_binding, source_binding}"
  shows "resolveRedisBinding (redis_env_with cr tc b) redis_task (redis_inputs manifest) = Inr (sample_id, b)"
proof -
  have pattern: "opaqueBindingPattern sample_id" "sample_id \<noteq> []" by code_simp+
  have principal: "redisPrincipalPattern ''app''" by code_simp
  have indexes: "validRedisDatabaseIndexes [0]" by code_simp
  have acl: "validRedisACLMap [\<lparr>am_source = ''app'', am_target = ''app''\<rparr>]" by code_simp
  have host: "validateRedisHost (\<lambda>_. False) ''localhost'' ''disable'' = Inr ()" by code_simp
  note fields = redis_env_with_def target_binding_def source_binding_def sample_contract_def
  have parse: "parseRedisBinding (\<lambda>_. False) (Some (b, False)) = Inr b"
    using assms principal indexes acl host by (elim insertE) (simp_all add: parseRedisBinding_def redis_tls_ok_def requireR_def thenR_def fields)
  have contract: "validateRedisDatabaseContract (redis_env_with cr tc b) (redis_inputs manifest) b = Inr ()"
    using assms indexes acl by (elim insertE) (simp_all add: validateRedisDatabaseContract_def redis_inputs_def requireR_def fields)
  have "stringInput (redis_inputs manifest) ''database_binding_id'' = Inr sample_id"
    using pattern by (simp add: stringInput_def redis_inputs_def)
  moreover have "re_bindings (redis_env_with cr tc b) = Some (\<lambda>_ _. Some (Some (b, False)))" "re_loopback (redis_env_with cr tc b) = (\<lambda>_. False)"
    by (simp_all add: redis_env_with_def)
  ultimately show ?thesis
    using pattern parse contract by (simp add: resolveRedisBinding_def requireR_def thenR_def)
qed

section \<open>Inspecting the server\<close>

definition sample_facts :: redisServerFacts where
  "sample_facts = \<lparr>rf_engine = ''redis'', rf_version = ''7.2.4'', rf_series = ''7.2'', rf_persistence = ''rdb'', rf_modules = 0\<rparr>"

definition sample_acl :: "crypto \<Rightarrow> string" where
  "sample_acl cr = redis_digest cr (JObj [(''schema_version'', JStr ''operations.migration.redis-acl-policy.v1''),
     (''users'', JArr [JObj [(''target'', JStr ''app''), (''rules'', JArr [JStr ''on''])]])])"

lemma env_fields [simp]:
  "re_crypto (redis_env_with cr tc b) = cr" "re_codec (redis_env_with cr tc b) = tc" "re_api (redis_env_with cr tc b) = listed_api"
  "re_fuel (redis_env_with cr tc b) = Suc 0" "re_map_order (redis_env_with cr tc b) = id" "re_resolver (redis_env_with cr tc b) = [(''staging'', ''/s'')]"
  by (simp_all add: redis_env_with_def)

lemma binding_fields [simp]:
  "rdb_database_indexes target_binding = [0]" "rdb_tls_mode target_binding = ''disable''" "rdb_engine target_binding = ''redis''"
  "rdb_state_mode target_binding = ''durable''" "rdb_mode target_binding = ''target''" "rdb_reset_allowed target_binding"
  "rdb_acl_map target_binding = [\<lparr>am_source = ''app'', am_target = ''app''\<rparr>]"
  by (simp_all add: target_binding_def)

lemma sample_client [simp]: "redis_client (redis_env_with cr tc b) target_binding = okE ()"
  by (simp add: redis_client_def guardE_def)

lemma sample_server: "run_state (inspectRedisServer (redis_env_with cr tc b) target_binding) h = (Inr sample_facts, h)"
proof -
  let ?info = "parseRedisInfo sample_info"
  have info: "server_identity ?info = (''redis'', ''7.2.4'')" "redisSeries ''7.2.4'' = Some ''7.2''" "redisSupportedSeries ''redis'' ''7.2''"
    "first_text (entry_text ?info ''redis_mode'') (entry_text ?info ''server_mode'') = ''standalone''"
    "first_text (entry_text ?info ''connected_slaves'') (entry_text ?info ''connected_replicas'') = []"
    "persistence_mode ?info [(''save'', ''60''), (''appendonly'', ''no'')] [(''save'', ''60''), (''appendonly'', ''no'')] = Some ''rdb''"
    by code_simp+
  show ?thesis
    unfolding inspectRedisServer_def server_facts_def server_modules_def server_persistence_def
    using info by (simp add: listed_api_def ask_def answered_def run_tryE run_guardE Let_def role_name_def redisValueSlice_def sample_facts_def)
qed

lemma acl_policy_run: "run_state (redisACLPolicyDigest (redis_env_with cr tc b) target_binding) h = (Inr (sample_acl cr), h)"
proof -
  have "foldR (policy_entry target_binding (fold user_rule [''user app on''] [])) [\<lparr>am_source = ''app'', am_target = ''app''\<rparr>] []
      = Inr [JObj [(''target'', JStr ''app''), (''rules'', JArr [JStr ''on''])]]" by code_simp
  then show ?thesis
    unfolding redisACLPolicyDigest_def
    by (simp add: listed_api_def ask_def answered_def run_tryE run_guardE sample_acl_def)
qed

definition sample_key :: redisKeyRecord where
  "sample_key = \<lparr>kr_database = 0, kr_expiry = -1, kr_key = ''k'', kr_value = ''v''\<rparr>"

definition stored :: listed where
  "stored = [((0, ''k''), (''v'', -1))]"

definition empty_scan :: "crypto \<Rightarrow> redisScanSummary" where
  "empty_scan cr = zero_scan_summary\<lparr>rs_all_digest := redisDigestString cr [], rs_persistent_digest := redisDigestString cr []\<rparr>"

definition full_scan :: "crypto \<Rightarrow> redisScanSummary" where
  "full_scan cr = \<lparr>rs_key_count = 1, rs_persistent_count = 1, rs_volatile_count = 0, rs_database_bytes = 2,
     rs_all_digest = redisDigestString cr (digest_bytes sample_key), rs_persistent_digest = redisDigestString cr (digest_bytes sample_key)\<rparr>"

lemma sample_scan_empty:
  "rx_server h = [] \<Longrightarrow> run_state (scanRedisRecords (redis_env_with cr tc b) target_binding no_visitor) h = (Inr (empty_scan cr), h)"
  by (simp add: scanRedisRecords_def scan_database_def run_tryE run_guardE answered_def ask_def listed_api_def empty_scan_def canonicalRedisKeys_def
      zero_scan_summary_def maximumRedisKeys_def)

lemma sample_record: "rx_server h = stored \<Longrightarrow> run_state (scan_record (redis_env_with cr tc b) 0 ''k'') h = (Inr (Some sample_key), h)"
  by (simp add: scan_record_def key_type_def key_dump_def key_expiry_def run_tryE run_guardE ask_def listed_api_def listed_view_def stored_def
      sample_key_def supportedRedisCoreType_def redis_limits in_int64_def)

lemma sample_scan_visited:
  assumes "rx_server h = stored"
  shows "run_state (scanRedisRecords (redis_env_with cr tc b) target_binding visitor) h = run_state (tryE (visitor sample_key) (\<lambda>_. okE (full_scan cr))) h"
proof -
  have "run_state (scan_keys (redis_env_with cr tc b) 0 0 (Suc 0) 0 [] 0) h = (Inr ([''k''], 1), h)"
    using assms by (simp add: run_tryE run_guardE answered_def ask_def listed_api_def stored_def index_key_def requireR_def redis_limits)
  moreover have "canonicalRedisKeys [''k''] = [''k'']" by code_simp
  ultimately show ?thesis
    using sample_record [OF assms, of cr tc b]
    by (cases "run_state (visitor sample_key) h" rule: prod.exhaust, cases "fst (run_state (visitor sample_key) h)")
      (simp_all add: scanRedisRecords_def scan_database_def scan_key_def run_tryE run_guardE note_record_def count_record_def
        zero_scan_summary_def full_scan_def redis_limits digest_bytes_def, simp_all add: sample_key_def)
qed

lemma sample_scan_full:
  "rx_server h = stored \<Longrightarrow> run_state (scanRedisRecords (redis_env_with cr tc b) target_binding no_visitor) h = (Inr (full_scan cr), h)"
  by (simp add: sample_scan_visited no_visitor_def run_tryE)

definition sample_inspection :: "crypto \<Rightarrow> redisScanSummary \<Rightarrow> redisInspection" where
  "sample_inspection cr summary = \<lparr>ri_exists = True, ri_empty = (rs_key_count summary = 0), ri_engine = ''redis'', ri_version = ''7.2.4'', ri_series = ''7.2'',
     ri_state_mode = ''durable'', ri_persistence = ''rdb'', ri_modules = 0, ri_database_indexes = [0], ri_key_count = rs_key_count summary,
     ri_persistent_count = rs_persistent_count summary, ri_volatile_count = rs_volatile_count summary, ri_database_bytes = rs_database_bytes summary,
     ri_acl_digest = sample_acl cr, ri_manifest_digest = redisManifestDigest cr sample_facts target_binding (sample_acl cr) summary,
     ri_empty_digest = emptyTargetDigest cr sample_id target_binding sample_facts (sample_acl cr) (rs_key_count summary = 0)\<rparr>"

lemma sample_inspect:
  assumes "run_state (scanRedisRecords (redis_env_with cr tc b) target_binding no_visitor) h = (Inr summary, h)"
  shows "run_state (inspectRedis (redis_env_with cr tc b) sample_id target_binding) h = (Inr (sample_inspection cr summary), h)"
  unfolding inspectRedis_def sample_inspection_def
  using assms sample_server [of cr tc b h] acl_policy_run [of cr tc b h]
  by (simp add: run_tryE sample_facts_def)

section \<open>A reset\<close>

definition flat_crypto :: crypto where
  "flat_crypto = \<lparr>float_text = (\<lambda>m k. int_str m), sha256_hex = (\<lambda>_. hex_digest), sig_ok = (\<lambda>_ _. True)\<rparr>"

definition plain_codec :: trailer_codec where
  "plain_codec = \<lparr>tc_marshal = (\<lambda>_. ''{}''), tc_decode = (\<lambda>_. None)\<rparr>"

abbreviation reset_env :: "listed redis_env" where
  "reset_env \<equiv> redis_env_with flat_crypto plain_codec target_binding"

lemma flat_digest: "redis_digest flat_crypto v = ''sha256:'' @ hex_digest"
  by (simp add: redis_digest_def Digest_def flat_crypto_def)

lemma hex_digest_ok: "fileDigestPattern (''sha256:'' @ hex_digest)"
  by code_simp

lemma sample_reset_flushes:
  "\<exists>r h'. run_state (redisReset reset_env redis_task (redis_inputs [])) (redis_host_with [] [] []) = (r, h') \<and> rx_trace h' = [Flushed 0]"
proof -
  let ?h = "redis_host_with [] [] []"
  have server: "rx_server ?h = []" by (simp add: redis_host_with_def)
  have resolve: "resolveRedisBinding reset_env redis_task (redis_inputs []) = Inr (sample_id, target_binding)" by (rule sample_resolve) simp
  have expected: "stringInput (redis_inputs []) ''expected_empty_target_digest'' = Inr (''sha256:'' @ hex_digest)"
    by (simp add: stringInput_def redis_inputs_def)
  note inspect = sample_inspect [OF sample_scan_empty [OF server], of flat_crypto plain_codec target_binding]
  have vacant: "ri_empty (sample_inspection flat_crypto (empty_scan flat_crypto))"
    "ri_empty_digest (sample_inspection flat_crypto (empty_scan flat_crypto)) = ''sha256:'' @ hex_digest"
    by (simp_all add: sample_inspection_def empty_scan_def zero_scan_summary_def emptyTargetDigest_def flat_digest)
  have load: "run_state (loadRedisMarker reset_env sample_id) ?h = (Inl SystemCall, ?h)"
    by (simp add: loadRedisMarker_def run_tryE system_call_def redis_host_with_def)
  obtain r h' where target: "run_state (reset_target reset_env redis_task sample_id target_binding (''sha256:'' @ hex_digest) False (Inl SystemCall)) ?h = (r, h')"
    by fastforce
  then have "rx_trace h' = [Flushed 0]"
    by (auto simp: reset_target_def flushRedisDatabases_def flush_database_def run_tryE run_guardE trace_event_def ask_def listed_api_def now_milli_def
        saveRedisMarker_def system_call_def redis_host_with_def Let_def numeral_eq_Suc)
  moreover have "run_state (redisReset reset_env redis_task (redis_inputs [])) ?h = (r, h')"
    unfolding redisReset_def
    using resolve expected inspect vacant load target hex_digest_ok
    by (simp add: run_tryE run_guardE or_else_def redis_input_def mapErr_def owned_by_run_def)
  ultimately show ?thesis by blast
qed

theorem redis_target_approved_witness:
  "\<exists>r h'. run_state (redisReset reset_env redis_task (redis_inputs [])) (redis_host_with [] [] []) = (r, h') \<and> rx_trace h' = [Flushed 0]
     \<and> (\<exists>bindingID b digest. resolveRedisBinding reset_env redis_task (redis_inputs []) = Inr (bindingID, b) \<and> 0 \<in> set (rdb_database_indexes b)
          \<and> (t_migration_id redis_task, bindingID, digest) \<in> approvals reset_env redis_task (redis_inputs []) (redis_host_with [] [] []))"
proof -
  let ?h = "redis_host_with [] [] []"
  obtain r h' where run: "run_state (redisReset reset_env redis_task (redis_inputs [])) ?h = (r, h')" and trace: "rx_trace h' = [Flushed 0]"
    using sample_reset_flushes by blast
  have start: "rx_markers ?h = []" "rx_trace ?h = []" by (simp_all add: redis_host_with_def)
  from redis_target_approved [OF rtranclp.rtrancl_refl start(1) disjI1 [OF refl] run, of "[Flushed 0]" "Flushed 0" 0] trace start
  show ?thesis using run by (auto simp: changes_def)
qed

section \<open>A restore\<close>

definition sample_archive :: string where
  "sample_archive = archive_prefix [sample_key] @ archive_end ''{}''"

definition archive_crypto :: crypto where
  "archive_crypto = \<lparr>float_text = (\<lambda>m k. int_str m), sha256_hex = (\<lambda>s. if s = sample_archive then hex_digest else CHR ''x'' # s), sig_ok = (\<lambda>_ _. True)\<rparr>"

definition sample_trailer :: redisArchiveTrailer where
  "sample_trailer = archive_trailer archive_crypto target_binding sample_facts (sample_acl archive_crypto) (full_scan archive_crypto)"

definition sample_codec :: trailer_codec where
  "sample_codec = \<lparr>tc_marshal = (\<lambda>_. ''{}''), tc_decode = (\<lambda>_. Some sample_trailer)\<rparr>"

abbreviation restore_env :: "listed redis_env" where
  "restore_env \<equiv> redis_env_with archive_crypto sample_codec target_binding"

lemma archive_crypto_inj: "inj (sha256_hex archive_crypto)"
proof -
  have "hex_digest \<noteq> CHR ''x'' # y" "CHR ''x'' # y \<noteq> hex_digest" for y by (simp_all add: hex_digest_def numeral_eq_Suc)
  then show ?thesis by (auto simp: inj_def archive_crypto_def)
qed

lemma sample_trailer_of: "trailer_of restore_env target_binding sample_facts (sample_acl archive_crypto) [sample_key] sample_trailer"
proof -
  have "trailer_of restore_env target_binding sample_facts (sample_acl archive_crypto) [sample_key]
      (archive_trailer (re_crypto restore_env) target_binding sample_facts (sample_acl archive_crypto) (full_scan archive_crypto))"
    by (rule archive_trailer_durable)
      (simp_all add: full_scan_def tally_all, simp_all add: tally_def add_record_def fresh_reader_def sample_key_def digest_bytes_def)
  then show ?thesis by (simp add: sample_trailer_def)
qed

lemma sample_legal: "legal_archive target_binding [sample_key]"
  by (simp add: legal_archive_def legal_record_def sample_key_def redis_limits in_int64_def)

lemma sample_read:
  assumes "map_of (rx_files h) path = Some sample_archive"
  shows "run_state (read_archive restore_env path target_binding (sample_acl archive_crypto) visitor) h
    = run_state (tryE (visitor sample_key) (\<lambda>_. okE sample_trailer)) h"
proof -
  have "readRedisArchive (re_crypto restore_env) (re_codec restore_env)
      (Some (archive_prefix [sample_key] @ archive_end (tc_marshal (re_codec restore_env) sample_trailer))) target_binding (sample_acl archive_crypto) visitor
      = tryE (forE [sample_key] visitor) (\<lambda>_. okE sample_trailer)"
    by (rule archive_read_back [OF sample_legal _ _ sample_trailer_of])
      (simp_all add: same_scope_def sample_facts_def redisSupportedSeries_def sample_codec_def redis_limits)
  then show ?thesis
    using assms by (simp add: read_archive_def sample_codec_def sample_archive_def tryE_assoc tryE_okE)
qed

lemma sample_restore_record:
  assumes "rx_server h = []" and "rx_refusals h = []"
  shows "run_state (restore_record restore_env n sample_key) h =
    (Inr (), h\<lparr>rx_server := stored, rx_restored := rx_restored h + 1,
       rx_trace := rx_trace h @ [Restored 0 ''k'', Reported ''redis_restore'' (rx_restored h + 1) (Some n)]\<rparr>)"
  using assms by (simp add: restore_record_def sample_key_def trace_event_def ask_def listed_api_def run_guardE progress_report_def stored_def)

lemma sample_verify:
  assumes "rx_server h = stored" and "map_of (rx_files h) path = Some sample_archive"
  shows "run_state (verifyRedisArchiveTarget restore_env target_binding path sample_trailer) h
    = (Inr 1, h\<lparr>rx_expected := [], rx_reads := Suc (rx_reads h)\<rparr>)"
proof -
  have acl: "at_acl_digest sample_trailer = sample_acl archive_crypto" by (simp add: sample_trailer_def archive_trailer_def Let_def)
  have one: "run_state (verify_record restore_env now sample_key) g = (Inr (), g\<lparr>rx_expected := [((0, ''k''), -1)]\<rparr>)"
    if "rx_server g = stored" "rx_expected g = []" for g now
    using that by (simp add: verify_record_def sample_key_def ask_def listed_api_def listed_view_def stored_def run_guardE check_expiry_def in_int64_def Let_def)
  show ?thesis
    using assms by (simp add: verifyRedisArchiveTarget_def run_tryE now_milli_def acl sample_read one verify_database_def answered_def ask_def listed_api_def
        stored_def expected_key_def run_guardE)
qed

definition sample_path :: string where
  "sample_path = ''/s/d/database.redis''"

definition sample_marker :: redisResetMarker where
  "sample_marker = \<lparr>rm_schema_version = resetMarkerSchema, rm_migration_id = ''m1'', rm_binding_id = sample_id,
     rm_instance_identity = redisInstanceIdentity archive_crypto target_binding, rm_initial_empty_digest = [], rm_generation = 1, rm_updated_at = Stamp 0\<rparr>"

definition restore_host :: "listed redis_host" where
  "restore_host = redis_host_with [] [(sample_path, sample_archive)] [(redisMarkerPath restore_env sample_id, Some sample_marker)]"

lemma sample_checked:
  assumes "rx_server h = []" and "rx_refusals h = []" and "map_of (rx_files h) sample_path = Some sample_archive"
  shows "\<exists>out h'. run_state (restore_checked restore_env sample_id target_binding sample_marker sample_path digest bytes (sample_acl archive_crypto) sample_trailer) h
    = (Inr out, h') \<and> rx_server h' = stored"
proof -
  let ?h1 = "h\<lparr>rx_restored := 0\<rparr>"
  let ?h2 = "?h1\<lparr>rx_server := stored, rx_restored := 1,
       rx_trace := rx_trace h @ [Restored 0 ''k'', Reported ''redis_restore'' 1 (Some (at_record_count sample_trailer))]\<rparr>"
  let ?h3 = "?h2\<lparr>rx_expected := [], rx_reads := Suc (rx_reads h)\<rparr>"
  have t: "at_engine sample_trailer = ''redis''" "at_series sample_trailer = ''7.2''" "at_persistence sample_trailer = ''rdb''"
    "at_manifest_digest sample_trailer = redisManifestDigest archive_crypto sample_facts target_binding (sample_acl archive_crypto) (full_scan archive_crypto)"
    by (simp_all add: sample_trailer_def archive_trailer_def Let_def sample_facts_def)
  have i: "ri_engine (sample_inspection archive_crypto x) = ''redis''" "ri_series (sample_inspection archive_crypto x) = ''7.2''"
    "ri_persistence (sample_inspection archive_crypto x) = ''rdb''" "ri_empty (sample_inspection archive_crypto (empty_scan archive_crypto))"
    "ri_manifest_digest (sample_inspection archive_crypto (full_scan archive_crypto)) = at_manifest_digest sample_trailer" for x
    by (simp_all add: sample_inspection_def empty_scan_def zero_scan_summary_def t)
  have before: "run_state (inspectRedis restore_env sample_id target_binding) h = (Inr (sample_inspection archive_crypto (empty_scan archive_crypto)), h)"
    by (rule sample_inspect [OF sample_scan_empty [OF assms(1)]])
  have restore: "run_state (read_archive restore_env sample_path target_binding (sample_acl archive_crypto) (restore_record restore_env (at_record_count sample_trailer))) ?h1
      = (Inr sample_trailer, ?h2)"
    using assms by (simp add: sample_read run_tryE sample_restore_record)
  have verify: "run_state (verifyRedisArchiveTarget restore_env target_binding sample_path sample_trailer) ?h2 = (Inr 1, ?h3)"
    using assms by (subst sample_verify) simp_all
  have after: "run_state (inspectRedis restore_env sample_id target_binding) ?h3 = (Inr (sample_inspection archive_crypto (full_scan archive_crypto)), ?h3)"
    by (rule sample_inspect [OF sample_scan_full]) simp
  show ?thesis
    unfolding restore_checked_def empty_for_restore_def
    using assms(2) before restore verify after i t
    by (simp add: run_tryE run_guardE or_else_def progress_report_def trace_event_def)
qed

lemma sample_restore:
  "\<exists>out h'. run_state (redisRestore restore_env redis_task (redis_inputs (at_manifest_digest sample_trailer))) restore_host = (Inr out, h') \<and> rx_server h' = stored"
proof -
  let ?inputs = "redis_inputs (at_manifest_digest sample_trailer)"
  let ?h = "restore_host\<lparr>rx_reads := Suc 0\<rparr>"
  have resolve: "resolveRedisBinding restore_env redis_task ?inputs = Inr (sample_id, target_binding)" by (rule sample_resolve) simp
  have load: "run_state (loadRedisMarker restore_env sample_id) restore_host = (Inr sample_marker, restore_host)"
    by (simp add: loadRedisMarker_def run_tryE run_guardE system_call_def restore_host_def redis_host_with_def sample_marker_def)
  have proves: "marker_proves restore_env redis_task sample_id target_binding sample_marker"
    by (simp add: marker_proves_def sample_marker_def redis_task_def)
  have scope: "Resolve (\<lambda>_. StatOk FDir) [(''staging'', ''/s'')] ''staging'' (path_join ''d'' redisArchiveHandle) False = Inr sample_path" by code_simp
  have names: "slash \<notin> set ''d''" "fileNamePattern ''d''" by code_simp+
  have sha: "sha256_hex archive_crypto sample_archive = hex_digest" by (simp add: archive_crypto_def)
  have input: "run_state (redisArchiveInputPath restore_env ?inputs) restore_host
      = (Inr (sample_path, ''sha256:'' @ hex_digest, int (length sample_archive)), restore_host)"
    using scope names hex_digest_ok sha
    by (simp add: redisArchiveInputPath_def run_tryE run_guardE or_else_def redis_input_def mapErr_def resolve_scope_def fileSHA256_def system_call_def
        stringInput_def redis_inputs_def restore_host_def redis_host_with_def redisArchiveHandle_def)
  have manifest: "stringInput ?inputs ''expected_manifest_digest'' = Inr (at_manifest_digest sample_trailer)"
    by (simp add: stringInput_def redis_inputs_def sample_trailer_def archive_trailer_def Let_def redisManifestDigest_def redis_digest_def Digest_def)
  have h: "rx_server ?h = []" "rx_refusals ?h = []" "map_of (rx_files ?h) sample_path = Some sample_archive"
    by (simp_all add: restore_host_def redis_host_with_def)
  have ttl: "run_state (read_archive restore_env sample_path target_binding (sample_acl archive_crypto) (ttl_guard cutoff)) ?h = (Inr sample_trailer, ?h)" for cutoff
    using h(3) by (simp add: sample_read run_tryE run_guardE ttl_guard_def sample_key_def)
  have clock: "run_state now_milli restore_host = (0, ?h)" by (simp add: now_milli_def restore_host_def redis_host_with_def)
  obtain out h' where "run_state (restore_checked restore_env sample_id target_binding sample_marker sample_path (''sha256:'' @ hex_digest)
      (int (length sample_archive)) (sample_acl archive_crypto) sample_trailer) ?h = (Inr out, h')" "rx_server h' = stored"
    using sample_checked [OF h, of "''sha256:'' @ hex_digest" "int (length sample_archive)"] by blast
  then show ?thesis
    unfolding redisRestore_def
    using resolve load proves input manifest ttl clock acl_policy_run [of archive_crypto sample_codec target_binding restore_host]
    by (simp add: run_tryE run_guardE or_else_def redis_input_def mapErr_def)
qed

theorem redis_restore_exact_witness:
  "\<exists>out h' path content rs.
     run_state (redisRestore restore_env redis_task (redis_inputs (at_manifest_digest sample_trailer))) restore_host = (Inr out, h')
     \<and> rx_server h' = stored \<and> map_of (rx_files restore_host) path = Some content \<and> holds_records content rs
     \<and> (\<forall>key v x. listed_view stored 0 key = Some (v, x) \<longleftrightarrow> \<lparr>kr_database = 0, kr_expiry = x, kr_key = key, kr_value = v\<rparr> \<in> set rs)"
proof -
  let ?inputs = "redis_inputs (at_manifest_digest sample_trailer)"
  obtain out h' where run: "run_state (redisRestore restore_env redis_task ?inputs) restore_host = (Inr out, h')" and server: "rx_server h' = stored"
    using sample_restore by blast
  have serves: "serves (re_api restore_env) listed_view" and inj: "inj (sha256_hex (re_crypto restore_env))"
    by (simp_all add: listed_serves archive_crypto_inj)
  have resolve: "resolveRedisBinding restore_env redis_task ?inputs = Inr (sample_id, target_binding)" by (rule sample_resolve) simp
  from redis_restore_exact [OF serves inj run resolve] server run show ?thesis by auto
qed

section \<open>A dump\<close>

lemma sample_archived:
  assumes "rx_faults h = []" and "rx_refusals h = []" and "rx_written h = 15" and "map_of (rx_files h) partial = Some content"
  shows "\<exists>g. run_state (archive_record partial sample_key) h = (Inr (), g) \<and> rx_faults g = []"
proof -
  have "writeRedisRecord sample_key = Inr (record_bytes sample_key)"
    using sample_legal by (simp add: legal_archive_def writeRedisRecord_legal [of target_binding])
  moreover have "int (length (record_bytes sample_key)) = 25" by (simp add: record_bytes_length sample_key_def)
  ultimately show ?thesis
    using assms by (simp add: archive_record_def run_tryE run_guardE system_call_def append_file_def put_file_def progress_report_def trace_event_def redis_limits)
qed

lemma sample_dump:
  "\<exists>bytes h'. run_state (writeRedisArchive restore_env target_binding sample_facts (sample_acl archive_crypto) sample_path) (redis_host_with stored [] [])
     = (Inr (sample_trailer, bytes), h')"
proof -
  let ?partial = "path_join (dir_name sample_path) (''.'' @ base_name sample_path @ ''.partial-'' @ re_temporary restore_env)"
  let ?h = "redis_host_with stored [(?partial, redisArchiveMagic)] []\<lparr>rx_written := int (length redisArchiveMagic)\<rparr>"
  have magic: "length redisArchiveMagic = 15" by code_simp
  obtain g where archived: "run_state (archive_record ?partial sample_key) ?h = (Inr (), g)" and faults: "rx_faults g = []"
    using sample_archived [of ?h ?partial redisArchiveMagic] by (auto simp: redis_host_with_def magic)
  have "run_state (scanRedisRecords restore_env target_binding (archive_record ?partial)) ?h = (Inr (full_scan archive_crypto), g)"
    using archived by (simp add: sample_scan_visited redis_host_with_def run_tryE)
  moreover have "archive_trailer archive_crypto target_binding sample_facts (sample_acl archive_crypto) (full_scan archive_crypto) = sample_trailer"
    by (simp add: sample_trailer_def)
  moreover have "tc_marshal sample_codec sample_trailer = ''{}''" by (simp add: sample_codec_def)
  moreover have "put_file ?partial [] (redis_host_with stored [] []) = redis_host_with stored [(?partial, [])] []"
    by (simp add: put_file_def redis_host_with_def)
  moreover have "append_file ?partial redisArchiveMagic (redis_host_with stored [(?partial, [])] []) = redis_host_with stored [(?partial, redisArchiveMagic)] []"
    by (simp add: append_file_def put_file_def redis_host_with_def)
  moreover have "rx_faults (redis_host_with s files markers) = []" for s files markers by (simp add: redis_host_with_def)
  ultimately show ?thesis
    using faults
    by (simp add: writeRedisArchive_def fill_archive_def Let_def run_tryE run_guardE system_call_def redis_limits append_file_def put_file_def
        del: append_Cons)
qed

theorem redis_archive_round_trip_witness:
  "\<exists>bytes h' content rs. run_state (writeRedisArchive restore_env target_binding sample_facts (sample_acl archive_crypto) sample_path) (redis_host_with stored [] [])
       = (Inr (sample_trailer, bytes), h')
     \<and> map_of (rx_files h') sample_path = Some content \<and> bytes = int (length content) \<and> length rs = 1
     \<and> readRedisArchive archive_crypto sample_codec (Some content) target_binding (sample_acl archive_crypto) no_visitor
         = tryE (forE rs no_visitor) (\<lambda>_. okE sample_trailer :: (listed, redisArchiveTrailer) rdo)"
proof -
  obtain bytes h' where run: "run_state (writeRedisArchive restore_env target_binding sample_facts (sample_acl archive_crypto) sample_path) (redis_host_with stored [] [])
      = (Inr (sample_trailer, bytes), h')" using sample_dump by blast
  have indexes: "validRedisDatabaseIndexes (rdb_database_indexes target_binding)" by code_simp
  have count: "at_record_count sample_trailer = 1" by (simp add: sample_trailer_def archive_trailer_def Let_def full_scan_def)
  obtain content rs where "map_of (rx_files h') sample_path = Some content" "bytes = int (length content)" "at_record_count sample_trailer = int (length rs)"
    "readRedisArchive (re_crypto restore_env) (re_codec restore_env) (Some content) target_binding (sample_acl archive_crypto) no_visitor
       = tryE (forE rs no_visitor) (\<lambda>_. okE sample_trailer :: (listed, redisArchiveTrailer) rdo)"
    using redis_archive_round_trip [OF run indexes, of target_binding no_visitor]
    by (auto simp: sample_facts_def redisSupportedSeries_def sample_codec_def same_scope_def)
  with run count show ?thesis by auto
qed

section \<open>Keys that SCAN returns twice\<close>

text \<open>A full iteration of SCAN may return a key more than once. \<open>scanRedisRecords\<close> removes the copies, but the verification
  deletes a key from the expected ones when it comes the first time and rejects the target when it comes again.\<close>

lemma repeated_key_rejected:
  assumes "run_state (foldE (expected_key db) keys n) h = (Inr m, h')"
  shows "distinct keys \<and> (\<forall>key \<in> set keys. map_of (rx_expected h) (db, key) \<noteq> None)"
  using assms
proof (induction keys arbitrary: n h)
  case (Cons key keys)
  have "run_state (expected_key db key n) h = (if map_of (rx_expected h) (db, key) \<noteq> None
      then (Inr (n + 1), h\<lparr>rx_expected := go_del (db, key) (rx_expected h)\<rparr>) else (Inl (RedisError ''restored Redis keyspace contains an undeclared key''), h))"
    by (simp add: expected_key_def run_guardE)
  with Cons.prems have found: "map_of (rx_expected h) (db, key) \<noteq> None"
    and rest: "run_state (foldE (expected_key db) keys (n + 1)) (h\<lparr>rx_expected := go_del (db, key) (rx_expected h)\<rparr>) = (Inr m, h')"
    by (auto simp: run_tryE split: if_splits)
  from Cons.IH [OF rest] found show ?case by (auto split: if_splits)
qed simp

end
