(* ===== verification/Spec2Isabelle.thy ===== *)
theory Spec2Isabelle
  imports Scope Canonical Fence_Samples Compose_Safety Secret_Cleanup Manifest_Safety Manifest_Agreement Transfer_Liveness Swap_Samples
    Runner_Samples Secret_Binding Operations_Samples Remediation_Samples Action_Outbox Agent_Commands Redis_Samples
begin

text \<open>
  A verification library for the Askio agent, a Go program that runs on customers' hosts. It does two things.

  As a \<^emph>\<open>monitoring agent\<close> it polls a backend for work (\<open>src/internal/agent\<close>): actions, audit jobs, commands and monitors. Actions are
  executed by the operations runner (\<open>src/internal/operations\<close>), failing monitors trigger built-in playbooks
  (\<open>src/internal/remediation\<close>), and hosts without a connection of their own reach the backend through a gateway (\<open>src/internal/gateway\<close>).

  As a \<^emph>\<open>migration agent\<close> (\<open>src/internal/migration\<close>) it moves services from a source host to a target host. An unprivileged task runner
  claims one signed task at a time, records it, runs it under a heartbeat and delivers the result. Tasks transfer file trees over a
  direct data plane between two agents, swap them into place, copy databases, stage the secrets of Compose projects, and ask a root
  broker, over a socket, to stop services, to fence the writers of the source and to start containers. The broker verifies the same
  signed envelopes again and keeps its own memory of them.

  \<^bold>\<open>Conventions.\<close> A struct is a record, an enumeration or a tagged value a datatype. Bytes and strings are \<^typ>\<open>string\<close>, an \<open>int64\<close> is an
  \<^typ>\<open>int\<close> whose arithmetic is wrapped by \<open>wrap64\<close> wherever it can leave the range, a Go map is an association list. Pure code with early returns
  is written with \<open>requireR\<close>, \<open>thenR\<close> and \<open>foldR\<close> over a sum type (\<^theory_text>\<open>Go_Results\<close>); code with effects is a computation of the state
  monad over a record of the host whose result is a value or an error, written with \<open>tryE\<close>, \<open>guardE\<close> and \<open>forE\<close> (\<^theory_text>\<open>Go_Effects\<close>). What the
  environment decides is part of the host as a script: which system call fails, what a process prints, what the network answers, when the
  process dies. The theorems quantify over the host and with it over every such behaviour. For the components that are
  meant to survive a crash (broker, task runner, secrets, swap) the death of the process is a flag of the host after which no action has an
  effect, so that a theorem about every final state is a theorem about every point at which the process may die.

  \<^bold>\<open>Foundations.\<close>
  \<^item> \<^theory_text>\<open>Go_Prelude\<close>, \<^theory_text>\<open>Go_Results\<close>, \<^theory_text>\<open>Go_Effects\<close>: the vocabulary above, the collections of rules, and the locales \<open>machine\<close> (a
    step relation with an invariant) and \<open>durable_document\<close> (a state that is written to a file and loaded again).
  \<^item> \<^theory_text>\<open>Base64\<close>: \<open>encoding/base64\<close> as far as it is used, with its round trip. \<^theory_text>\<open>Canonical\<close>, \<^theory_text>\<open>Canonical_Reading\<close>: \<open>canonical.go\<close>; key order does not matter, and the
    canonical text can be read back, so that a digest identifies a value.
  \<^item> \<^theory_text>\<open>Scope\<close>: \<open>scope.go\<close> and the lexical paths of Go; a resolved path stays below its root and crosses no symbolic link.
  \<^item> \<^theory_text>\<open>Task_Envelope\<close>: signed envelopes and typed inputs (\<open>task.go\<close>, \<open>broker.go\<close>, \<open>executor.go\<close>).

  \<^bold>\<open>The root broker\<close> (\<open>broker.go\<close>, \<open>writer_fence_inhibitor.go\<close>).
  \<^item> \<^theory_text>\<open>Broker_Host\<close> and \<^theory_text>\<open>Writer_Fence\<close>: the state in memory and on disk, the boot inhibitors, activation, reconciliation and release of fences.
    \<^theory_text>\<open>Broker\<close>: acceptance of tasks, service operations, the quiescence proof, the dispatcher, start-up.
  \<^item> \<^theory_text>\<open>Fence_Safety\<close>: what each operation leaves behind when it succeeds, fails or dies. \<^theory_text>\<open>Fence_Exclusion\<close>: two migrations never fence a common service,
    as an invariant of the machine \<open>broker\<close>. \<^theory_text>\<open>Replay\<close>: a privileged task starts at most once, through the locale \<open>replay_guard\<close> and the machine
    \<open>acceptance\<close>. \<^theory_text>\<open>Fence_Watch\<close>: the watchdog, attestations and the round trip of the state file. \<^theory_text>\<open>Fence_Samples\<close>: the witnesses.

  \<^bold>\<open>Compose projects\<close> (\<open>compose.go\<close>). \<^theory_text>\<open>Compose_Policy\<close>, \<^theory_text>\<open>Compose_Safety\<close>: which documents are accepted, and that their services are confined.
  \<^theory_text>\<open>Compose_Secrets\<close>, \<^theory_text>\<open>Secret_Cleanup\<close>: runtime secrets never outlive the durable marker, and the recovery removes them (machine \<open>executor\<close>).

  \<^bold>\<open>File trees\<close> (\<open>files.go\<close>, \<open>dataplane.go\<close>).
  \<^item> \<^theory_text>\<open>File_Manifest\<close>, \<^theory_text>\<open>Manifest_Safety\<close>, \<^theory_text>\<open>Manifest_Agreement\<close>: manifests are safe to unpack, source and target agree, the capacity check is exact.
  \<^item> \<^theory_text>\<open>Data_Plane\<close>, \<^theory_text>\<open>Plane_Safety\<close>: tickets, handlers and client; what is served to whom (machine \<open>client\<close>).
  \<^item> \<^theory_text>\<open>File_Transfer\<close>, \<^theory_text>\<open>Transfer_Safety\<close>, \<^theory_text>\<open>Transfer_Liveness\<close>: the resumable download, its verification, and its completion with an honest source.
  \<^item> \<^theory_text>\<open>File_Swap\<close>, \<^theory_text>\<open>Swap_Safety\<close>, \<^theory_text>\<open>Swap_Apply\<close>, \<^theory_text>\<open>Swap_Liveness\<close>, \<^theory_text>\<open>Swap_Samples\<close>: the crash-safe exchange of the target directory (machine
    \<open>swap\<close>), the recovery and its termination.

  \<^bold>\<open>Redis and Valkey\<close> (\<open>redis.go\<close>).
  \<^item> \<^theory_text>\<open>Redis_Archive\<close>: limits, records, the byte format and its reader. \<^theory_text>\<open>Redis\<close>: bindings, contracts, inspection and the scan of the keyspace.
    \<^theory_text>\<open>Redis_Restore\<close>: dump, reset, restore and verification.
  \<^item> \<^theory_text>\<open>Redis_Reader\<close>, \<^theory_text>\<open>Redis_Dump\<close>: every archive a dump reports is accepted by the reader and yields the dumped records. \<^theory_text>\<open>Redis_Safety\<close>: only
    approved databases are flushed or written (machine \<open>target\<close>). \<^theory_text>\<open>Redis_Exact\<close>: after a successful restore the target holds exactly the
    records of the archive. \<^theory_text>\<open>Redis_Samples\<close>: a server that keeps its keys in a list, and runs of all three.

  \<^bold>\<open>The task runner\<close> (\<open>task.go\<close>, \<open>api/client.go\<close>). \<^theory_text>\<open>Task_Runner\<close>: claim, admission, heartbeat, delivery. \<^theory_text>\<open>Runner_Safety\<close>: a task is executed at
  most once while it is valid (machine \<open>task_runner\<close>). \<^theory_text>\<open>Runner_Mailbox\<close>: a round refines an abstract mailbox. \<^theory_text>\<open>Runner_Samples\<close>: witnesses.
  \<^theory_text>\<open>Secret_Binding\<close>: which secrets a task may ask for and what is checked before they are used.

  \<^bold>\<open>The monitoring agent.\<close>
  \<^item> \<^theory_text>\<open>Command_Exec\<close>, \<^theory_text>\<open>Redaction\<close>: the executors, probes and the redaction of output. \<^theory_text>\<open>Call_Logic\<close>: which commands a computation may run; its
    locale \<open>command_policy\<close> is interpreted for plans (\<open>plan_policy\<close>), playbooks (\<open>book_policy\<close>) and scripts (\<open>script_policy\<close>).
  \<^item> \<^theory_text>\<open>Operations\<close>, \<^theory_text>\<open>Operations_Runner\<close>, \<^theory_text>\<open>Operations_Safety\<close>, \<^theory_text>\<open>Operations_Samples\<close>: the four kinds of actions; dry runs are inert and plans confined.
  \<^item> \<^theory_text>\<open>Remediation\<close>, \<^theory_text>\<open>Remediation_Safety\<close>, \<^theory_text>\<open>Remediation_Samples\<close>: monitors, playbooks and the engine.
  \<^item> \<^theory_text>\<open>Agent_Dispatch\<close>, \<^theory_text>\<open>Agent_Delivery\<close>, \<^theory_text>\<open>Agent_Safety\<close>, \<^theory_text>\<open>Action_Outbox\<close>, \<^theory_text>\<open>Agent_Commands\<close>: a poll, the store of results (locale \<open>key_store\<close>, interpretation
    \<open>result_store\<close>), the machines \<open>audit_machine\<close> and \<open>outbox\<close>, and the commands.
  \<^item> \<^theory_text>\<open>Gateway\<close>: host tokens, the poller and the proxy.

  \<^bold>\<open>Bounds.\<close> Recursion is structural or has a measure, with three exceptions. \<open>recoverFileSwap\<close> calls itself after the rename that puts the
  copied tree in place; it has fuel two, and the theorem \<open>recovery_terminates\<close> shows that this is always enough and that more changes
  nothing. The loop of SCAN goes on for as long as the server returns a cursor; \<open>re_fuel\<close> bounds it, a loop that does not end is the error
  \<open>Unfinished\<close>, and the theorems on Redis hold for every bound. The parents of a path are listed with its length as fuel, which
  bounds their number.

  \<^bold>\<open>Parameters.\<close> SHA-256, Ed25519, HMAC and the sealed boxes of bindings, the text of floats, the YAML syntax tree, the decoders and encoders
  of JSON documents where only the decoded value matters, \<open>Lstat\<close> and \<open>Statfs\<close>, the service manager, the Redis server with its client library, the
  order of iteration over Go maps. What a theorem needs of them is a hypothesis: a hash without collisions where texts are recovered from digests,
  a server that answers reads as documented in \<open>redis_restore_exact\<close>, a codec that reads back what it wrote. Each is met by the concrete instance
  in the witness of that theorem.

  \<^bold>\<open>Not modelled.\<close> The primitives for PostgreSQL, MySQL and MongoDB, which drive external programs; the dispatch table of the native executor;
  quiescence estimates; the creation of key pairs; the calls of Docker around the Compose policy; TLS set-up and listeners; peer credentials;
  the audit runner, discovery and host metrics, which only read the host; the command line, timers and goroutines of the daemon; the HTTP
  client except \<open>PostMigration\<close>; YAML configuration. Concurrency inside the broker and the runner is excluded by their locks and is not modelled;
  the overlap of polls in the agent is (\<^theory_text>\<open>Agent_Safety\<close>).
\<close>

end
